(* ===== verification/Regel_Prelude.thy ===== *)
theory Regel_Prelude
  imports Main "HOL-Library.Word" "HOL-Library.Monad_Syntax"
begin

unbundle bit_operations_syntax

section \<open>Shared types, collections and generic lemmas\<close>

text \<open>
  The vocabulary the component theories share.  A Go \<open>[]byte\<close> is a list of 8-bit words, a Go
  \<open>string\<close> is the HOL type \<open>string\<close>, whose characters are bytes, and the two conversions
  \<open>[]byte(s)\<close> and \<open>string(b)\<close> are \<open>bytes_of\<close> and \<open>str_of\<close>.  A Go function that can panic
  returns an \<open>option\<close>: \<open>None\<close> is the run-time panic (an index out of range, a failed type
  assertion), and the option monad propagates it.  \<open>int64\<close> and \<open>uint64\<close> values are kept at
  their width, as 64-bit words read signed or unsigned.
\<close>

type_synonym byte = "8 word"
type_synonym bytes = "8 word list"
type_synonym u16 = "16 word"
type_synonym u32 = "32 word"
type_synonym u64 = "64 word"
type_synonym i64 = "64 word"

named_theorems codec_rt \<open>round-trip laws of the wire primitives\<close>
named_theorems codec_len \<open>length facts of the wire primitives\<close>

subsection \<open>Bytes and strings\<close>

definition bytes_of :: "string \<Rightarrow> bytes" where
  "bytes_of s = map (\<lambda>c. word_of_int (of_char c)) s"

definition str_of :: "bytes \<Rightarrow> string" where
  "str_of bs = map (\<lambda>b. char_of (uint b)) bs"

lemma uint_byte_mod [simp]: "uint (b :: byte) mod 256 = uint b"
  using unsigned_less [of b, where 'a = int] by (simp add: mod_pos_pos_trivial)

lemma char_byte_inverse [simp]: "char_of (uint (word_of_int (of_char c) :: byte)) = c"
  by (simp add: uint_word_of_int take_bit_eq_mod)

lemma byte_char_inverse [simp]: "(word_of_int (of_char (char_of (uint b) :: char)) :: byte) = b"
  by simp

lemma str_of_bytes_of [simp, codec_rt]: "str_of (bytes_of s) = s"
  by (simp add: str_of_def bytes_of_def comp_def map_idI)

lemma bytes_of_str_of [simp, codec_rt]: "bytes_of (str_of bs) = bs"
  by (simp add: str_of_def bytes_of_def comp_def map_idI)

lemma length_bytes_of [simp, codec_len]: "length (bytes_of s) = length s"
  by (simp add: bytes_of_def)

lemma length_str_of [simp, codec_len]: "length (str_of bs) = length bs"
  by (simp add: str_of_def)

lemma bytes_of_inject [simp]: "bytes_of s = bytes_of t \<longleftrightarrow> s = t"
  by (metis str_of_bytes_of)

subsection \<open>Checked reads\<close>

text \<open>
  \<open>nth_go xs i\<close> is Go's \<open>xs[i]\<close> on a slice: \<open>None\<close> is the index-out-of-range panic.  \<open>nth_i\<close> is
  the same read with Go's signed \<open>int\<close> as the index.
\<close>

definition nth_go :: "'a list \<Rightarrow> nat \<Rightarrow> 'a option" where
  "nth_go xs i = (if i < length xs then Some (xs ! i) else None)"

definition nth_i :: "'a list \<Rightarrow> int \<Rightarrow> 'a option" where
  "nth_i xs i = (if 0 \<le> i then nth_go xs (nat i) else None)"

lemma nth_go_Some [simp]: "nth_go xs i = Some x \<longleftrightarrow> i < length xs \<and> xs ! i = x"
  by (auto simp: nth_go_def)

lemma nth_go_None [simp]: "nth_go xs i = None \<longleftrightarrow> length xs \<le> i"
  by (auto simp: nth_go_def)

lemma nth_go_append_left: "i < length xs \<Longrightarrow> nth_go (xs @ ys) i = nth_go xs i"
  by (simp add: nth_go_def nth_append)

lemma nth_i_of_nat [simp]: "nth_i xs (int i) = nth_go xs i"
  by (simp add: nth_i_def)

lemma nth_i_Some: "nth_i xs i = Some x \<longleftrightarrow> 0 \<le> i \<and> nat i < length xs \<and> xs ! nat i = x"
  by (auto simp: nth_i_def)

lemma nth_i_SomeD: "nth_i xs i = Some x \<Longrightarrow> x \<in> set xs"
  by (auto simp: nth_i_Some)

subsection \<open>Machine integers\<close>

text \<open>\<open>wrap64\<close> is the value an \<open>int64\<close> variable holds after it is assigned the integer \<open>i\<close>.\<close>

definition wrap64 :: "int \<Rightarrow> int" where
  "wrap64 i = (i + 2 ^ 63) mod 2 ^ 64 - 2 ^ 63"

lemma wrap64_id: "- (2 ^ 63) \<le> i \<Longrightarrow> i < 2 ^ 63 \<Longrightarrow> wrap64 i = i"
  by (simp add: wrap64_def mod_pos_pos_trivial)

lemma wrap64_range: "- (2 ^ 63) \<le> wrap64 i \<and> wrap64 i < 2 ^ 63"
proof -
  have "0 \<le> (i + 2 ^ 63) mod 2 ^ 64" and "(i + 2 ^ 63) mod 2 ^ 64 < (2 ^ 64 :: int)"
    by simp_all
  then show ?thesis by (simp add: wrap64_def)
qed

subsection \<open>The option monad\<close>

lemma bind_SomeE:
  assumes "Option.bind x f = Some y"
  obtains a where "x = Some a" and "f a = Some y"
  using assms by (cases x) auto

text \<open>\<open>require b\<close> continues when \<open>b\<close> holds and stops the enclosing \<open>do\<close> block otherwise.\<close>

definition require :: "bool \<Rightarrow> unit option" where
  "require b = (if b then Some () else None)"

lemma require_Some [simp]: "require b = Some u \<longleftrightarrow> b"
  by (simp add: require_def)

lemma require_True [simp]: "require True = Some ()"
  by (simp add: require_def)

lemma require_False [simp]: "require False = None"
  by (simp add: require_def)

subsection \<open>Lists\<close>

lemma distinct_nth_inj:
  "distinct xs \<Longrightarrow> i < length xs \<Longrightarrow> j < length xs \<Longrightarrow> xs ! i = xs ! j \<Longrightarrow> i = j"
  by (simp add: nth_eq_iff_index_eq)

lemma list_all_nth: "list_all P xs \<Longrightarrow> i < length xs \<Longrightarrow> P (xs ! i)"
  by (simp add: list_all_length)

lemma list_all_upd: "list_all P xs \<Longrightarrow> P x \<Longrightarrow> list_all P (xs[i := x])"
  by (auto simp: list_all_iff dest!: in_set_conv_nth[THEN iffD1] subsetD[OF set_update_subset_insert])

end
