(* ===== verification/Wire_Prim.thy ===== *)
theory Wire_Prim
  imports Regel_Prelude
begin

section \<open>Wire primitives\<close>

text \<open>
  The byte-level encodings \<open>internal/rast\<close>, \<open>internal/cfr\<close> and \<open>internal/ui\<close> share: unsigned
  and zig-zag varints (Go's \<open>encoding/binary\<close>), fixed-width big-endian words, length-prefixed
  byte strings and counted sequences.  A reader takes the unread rest of the buffer and returns
  the value with the new rest, or \<open>None\<close> where the Go reader returns an error.  The locale
  \<open>wire\<close> is the contract a writer and its reader keep; every client that lays several fields
  one after the other rests on it.
\<close>

type_synonym 'a reader = "bytes \<Rightarrow> ('a \<times> bytes) option"

subsection \<open>The contract of a writer and its reader\<close>

locale wire =
  fixes dom_ok :: "'a \<Rightarrow> bool"
    and put :: "'a \<Rightarrow> bytes"
    and get :: "'a reader"
  assumes get_put: "dom_ok x \<Longrightarrow> get (put x @ r) = Some (x, r)"
begin

lemma put_prefix_free:
  assumes "dom_ok x" and "dom_ok y" and "put x @ r = put y @ s"
  shows "x = y \<and> r = s"
proof -
  have "get (put x @ r) = Some (x, r)" and "get (put y @ s) = Some (y, s)"
    using assms(1,2) by (simp_all add: get_put)
  with assms(3) show ?thesis by (metis Pair_inject option.inject)
qed

lemma put_inj: "inj_on put (Collect dom_ok)"
proof (rule inj_onI)
  fix x y
  assume "x \<in> Collect dom_ok" and "y \<in> Collect dom_ok" and "put x = put y"
  then show "x = y" using put_prefix_free [of x y "[]" "[]"] by simp
qed

end

text \<open>A reader that never looks past the bytes it returns, and consumes at least one of them.\<close>

locale consuming =
  fixes get :: "'a reader"
  assumes consumes: "get bs = Some (x, r) \<Longrightarrow> length r < length bs"

subsection \<open>Single bytes and checked splits\<close>

definition get_byte :: "byte reader" where
  "get_byte bs = (case bs of [] \<Rightarrow> None | b # r \<Rightarrow> Some (b, r))"

lemma get_byte_Cons [simp]: "get_byte (b # r) = Some (b, r)"
  by (simp add: get_byte_def)

lemma get_byte_Nil [simp]: "get_byte [] = None"
  by (simp add: get_byte_def)

text \<open>\<open>take_exact n\<close> is the read of \<open>buf[pos : pos+n]\<close> behind its bounds check.\<close>

definition take_exact :: "int \<Rightarrow> bytes reader" where
  "take_exact n bs = (if n \<le> int (length bs) then Some (take (nat n) bs, drop (nat n) bs) else None)"

lemma take_exact_append [simp]: "take_exact (int (length xs)) (xs @ r) = Some (xs, r)"
  by (simp add: take_exact_def)

lemma take_exact_length: "take_exact n bs = Some (x, r) \<Longrightarrow> length x + length r = length bs"
  by (auto simp: take_exact_def split: if_splits)

subsection \<open>Unsigned varints\<close>

text \<open>
  \<open>binary.PutUvarint\<close>: groups of seven bits, least significant first, with the top bit set on
  every byte but the last.
\<close>

function put_uvarint :: "int \<Rightarrow> bytes" where
  "put_uvarint v = (if v < 128 then [word_of_int v]
     else word_of_int (v mod 128 + 128) # put_uvarint (v div 128))"
  by pat_completeness auto
termination
  by (relation "measure nat") auto

declare put_uvarint.simps [simp del]

text \<open>
  \<open>binary.Uvarint\<close>: \<open>i\<close> is the index of the byte and \<open>x\<close> the value so far; reading past ten
  bytes, or a tenth byte above 1, is the overflow error.  Go ORs each group in at bit \<open>7 * i\<close>,
  which is an addition because the groups do not overlap.
\<close>

fun uvarint_from :: "nat \<Rightarrow> int \<Rightarrow> int reader" where
  "uvarint_from i x [] = None"
| "uvarint_from i x (b # bs) =
     (if i = 10 then None
      else if b < 128 then
        (if i = 9 \<and> 1 < b then None else Some (x + uint b * 128 ^ i, bs))
      else uvarint_from (Suc i) (x + (uint b mod 128) * 128 ^ i) bs)"

definition get_uvarint :: "int reader" where
  "get_uvarint bs = uvarint_from 0 0 bs"

definition u64_range :: "int \<Rightarrow> bool" where
  "u64_range v \<longleftrightarrow> 0 \<le> v \<and> v < 2 ^ 64"

lemma put_uvarint_nonempty [simp]: "put_uvarint v \<noteq> []"
  by (subst put_uvarint.simps) simp

lemma length_put_uvarint_pos [simp]: "0 < length (put_uvarint v)"
  by simp

lemma uint_small_byte: "0 \<le> v \<Longrightarrow> v < 256 \<Longrightarrow> uint (word_of_int v :: byte) = v"
  by (simp add: uint_word_of_int mod_pos_pos_trivial take_bit_eq_mod)

lemma pow7_split: "i \<le> 8 \<Longrightarrow> (2::int) ^ (64 - 7 * i) = 128 * 2 ^ (64 - 7 * Suc i)"
proof -
  assume "i \<le> 8"
  then have "64 - 7 * i = 7 + (64 - 7 * Suc i)" by simp
  then have "(2::int) ^ (64 - 7 * i) = 2 ^ 7 * 2 ^ (64 - 7 * Suc i)"
    by (metis power_add)
  then show ?thesis by simp
qed

lemma uvarint_from_put:
  assumes "0 \<le> v" and "i \<le> 9" and "v < 2 ^ (64 - 7 * i)"
  shows "uvarint_from i x (put_uvarint v @ r) = Some (x + v * 128 ^ i, r)"
  using assms
proof (induction v arbitrary: i x rule: put_uvarint.induct)
  case (1 v)
  show ?case
  proof (cases "v < 128")
    case True
    have u: "uint (word_of_int v :: byte) = v"
      using 1 True by (simp add: uint_small_byte)
    have lt: "(word_of_int v :: byte) < 128"
      using u True by (simp add: word_less_def)
    have "i = 9 \<Longrightarrow> v < 2" using 1 by simp
    then have "\<not> (i = 9 \<and> 1 < (word_of_int v :: byte))"
      using u by (auto simp: word_less_def)
    with True lt u "1.prems" show ?thesis by (simp add: put_uvarint.simps [of v])
  next
    case False
    let ?b = "word_of_int (v mod 128 + 128) :: byte"
    have m: "0 \<le> v mod 128" "v mod 128 < 128" by simp_all
    have u: "uint ?b = v mod 128 + 128"
      using m by (intro uint_small_byte) linarith+
    have nlt: "\<not> ?b < 128"
      using u m by (simp add: word_less_def)
    have i8: "i \<le> 8"
    proof (rule ccontr)
      assume "\<not> i \<le> 8"
      then have "i = 9" using "1.prems" by simp
      with "1.prems" False show False by simp
    qed
    have "v div 128 < 2 ^ (64 - 7 * Suc i)"
    proof -
      have "(2::int) ^ (64 - 7 * i) = 128 * 2 ^ (64 - 7 * Suc i)"
        using i8 by (subst pow7_split) simp_all
      with "1.prems" show ?thesis by (simp add: div_less_iff_less_mult mult.commute)
    qed
    then have "uvarint_from (Suc i) (x + (v mod 128) * 128 ^ i) (put_uvarint (v div 128) @ r)
        = Some (x + (v mod 128) * 128 ^ i + (v div 128) * 128 ^ Suc i, r)"
      using False "1.prems" i8 by (intro "1.IH") auto
    moreover have "x + (v mod 128) * 128 ^ i + (v div 128) * 128 ^ Suc i = x + v * 128 ^ i"
    proof -
      have "v * 128 ^ i = (v div 128 * 128 + v mod 128) * 128 ^ i" by simp
      then show ?thesis by (simp only: distrib_right power_Suc mult.assoc add.assoc)
    qed
    ultimately show ?thesis
      using False nlt u i8 by (simp add: put_uvarint.simps [of v])
  qed
qed

lemma get_uvarint_put [codec_rt]: "u64_range v \<Longrightarrow> get_uvarint (put_uvarint v @ r) = Some (v, r)"
  using uvarint_from_put [of v 0 0 r] by (simp add: get_uvarint_def u64_range_def)

interpretation uv: wire u64_range put_uvarint get_uvarint
  by unfold_locales (rule get_uvarint_put)

lemma uvarint_from_consumes: "uvarint_from i x bs = Some (v, r) \<Longrightarrow> length r < length bs"
  by (induction i x bs rule: uvarint_from.induct) (auto split: if_splits)

lemma uvarint_from_range:
  "uvarint_from i x bs = Some (v, r) \<Longrightarrow> 0 \<le> x \<Longrightarrow> i \<le> 10 \<Longrightarrow> x < 128 ^ i \<Longrightarrow> u64_range v"
proof (induction i x bs rule: uvarint_from.induct)
  case (2 i x b bs)
  have pw: "(128::int) ^ Suc i = 128 * 128 ^ i" by simp
  have ub: "uint b mod 128 \<le> 127" "0 \<le> uint b mod 128" by simp_all
  have step: "x + (uint b mod 128) * 128 ^ i < 128 ^ Suc i"
  proof -
    have "(uint b mod 128) * 128 ^ i \<le> 127 * 128 ^ i"
      using ub by (intro mult_right_mono) auto
    with "2.prems"(4) pw show ?thesis by linarith
  qed
  show ?case
  proof (cases "b < 128")
    case False
    with 2 step show ?thesis by (auto split: if_splits)
  next
    case True
    then have b127: "uint b \<le> 127" by (simp add: word_less_def)
    have i9: "i \<le> 9" and v: "v = x + uint b * 128 ^ i" and nine: "i = 9 \<Longrightarrow> uint b \<le> 1"
      using 2 True by (auto split: if_splits simp: word_less_def)
    have "v < 2 ^ 64"
    proof (cases "i = 9")
      case True
      have "uint b * 128 ^ i \<le> 1 * 128 ^ i" using nine True by (intro mult_right_mono) auto
      with v "2.prems"(4) True show ?thesis by simp
    next
      case False
      have "uint b * 128 ^ i \<le> 127 * 128 ^ i" using b127 by (intro mult_right_mono) auto
      with v "2.prems"(4) pw have "v < 128 ^ Suc i" by linarith
      also have "\<dots> \<le> (128::int) ^ 9" using False i9 by (intro power_increasing) auto
      finally show ?thesis by simp
    qed
    with v "2.prems"(2) show ?thesis by (simp add: u64_range_def)
  qed
qed simp

lemma get_uvarint_range: "get_uvarint bs = Some (v, r) \<Longrightarrow> u64_range v"
  using uvarint_from_range [of 0 0 bs v r] by (simp add: get_uvarint_def)

interpretation uv_eats: consuming get_uvarint
  by unfold_locales (simp add: get_uvarint_def uvarint_from_consumes)

subsection \<open>Zig-zag varints\<close>

text \<open>\<open>binary.PutVarint\<close> and \<open>binary.Varint\<close>: the sign moves to bit 0.\<close>

definition zigzag :: "int \<Rightarrow> int" where
  "zigzag x = (if x < 0 then - 2 * x - 1 else 2 * x)"

definition unzigzag :: "int \<Rightarrow> int" where
  "unzigzag u = (if u mod 2 = 0 then u div 2 else - (u div 2) - 1)"

definition put_svarint :: "int \<Rightarrow> bytes" where
  "put_svarint x = put_uvarint (zigzag x)"

definition get_svarint :: "int reader" where
  "get_svarint bs = do { (u, r) \<leftarrow> get_uvarint bs; Some (unzigzag u, r) }"

definition i64_range :: "int \<Rightarrow> bool" where
  "i64_range v \<longleftrightarrow> - (2 ^ 63) \<le> v \<and> v < 2 ^ 63"

lemma unzigzag_zigzag [simp]: "unzigzag (zigzag x) = x"
  by (simp add: zigzag_def unzigzag_def) presburger

lemma zigzag_range: "i64_range x \<Longrightarrow> u64_range (zigzag x)"
  by (auto simp: i64_range_def u64_range_def zigzag_def)

interpretation sv: wire i64_range put_svarint get_svarint
  by unfold_locales
    (simp add: put_svarint_def get_svarint_def get_uvarint_put zigzag_range)

lemmas get_svarint_put [codec_rt] = sv.get_put

subsection \<open>Big-endian words and magnitudes\<close>

text \<open>\<open>be_bytes k v\<close> is the \<open>k\<close>-byte big-endian form of \<open>v\<close>; \<open>be_value\<close> reads it back.\<close>

fun be_bytes :: "nat \<Rightarrow> int \<Rightarrow> bytes" where
  "be_bytes 0 v = []"
| "be_bytes (Suc k) v = be_bytes k (v div 256) @ [word_of_int (v mod 256)]"

definition be_value :: "bytes \<Rightarrow> int" where
  "be_value bs = foldl (\<lambda>a b. a * 256 + uint b) 0 bs"

lemma be_value_Nil [simp]: "be_value [] = 0"
  by (simp add: be_value_def)

lemma be_value_snoc [simp]: "be_value (bs @ [b]) = be_value bs * 256 + uint b"
  by (simp add: be_value_def)

lemma length_be_bytes [simp, codec_len]: "length (be_bytes k v) = k"
  by (induction k arbitrary: v) auto

lemma be_value_be_bytes: "0 \<le> v \<Longrightarrow> v < 256 ^ k \<Longrightarrow> be_value (be_bytes k v) = v"
proof (induction k arbitrary: v)
  case (Suc k)
  have "be_value (be_bytes k (v div 256)) = v div 256"
    using Suc.prems by (intro Suc.IH) (auto simp: div_less_iff_less_mult mult.commute)
  then show ?case by (simp add: uint_small_byte)
qed simp

lemma be_value_nonneg: "0 \<le> be_value bs"
  by (induction bs rule: rev_induct) auto

lemma be_value_bound: "be_value bs < 256 ^ length bs"
proof (induction bs rule: rev_induct)
  case (snoc b bs)
  have "uint b < 256" using unsigned_less [of b, where 'a = int] by simp
  with snoc show ?case by simp
qed simp

definition put_be64 :: "u64 \<Rightarrow> bytes" where
  "put_be64 w = be_bytes 8 (uint w)"

definition get_be64 :: "u64 reader" where
  "get_be64 bs = do { (x, r) \<leftarrow> take_exact 8 bs; Some (word_of_int (be_value x), r) }"

interpretation be64: wire "\<lambda>_. True" put_be64 get_be64
proof
  fix w :: u64 and r
  have "take_exact 8 (put_be64 w @ r) = Some (put_be64 w, r)"
    using take_exact_append [of "put_be64 w" r] by (simp add: put_be64_def)
  moreover have "be_value (put_be64 w) = uint w"
    using unsigned_less [of w, where 'a = int] by (simp add: put_be64_def be_value_be_bytes)
  ultimately show "get_be64 (put_be64 w @ r) = Some (w, r)"
    by (simp add: get_be64_def)
qed

lemmas get_be64_put [codec_rt] = be64.get_put [OF TrueI]

text \<open>\<open>big.Int.Bytes\<close>: the minimal big-endian magnitude, empty for zero; \<open>SetBytes\<close> is \<open>be_value\<close>.\<close>

function big_bytes :: "int \<Rightarrow> bytes" where
  "big_bytes v = (if v \<le> 0 then [] else big_bytes (v div 256) @ [word_of_int (v mod 256)])"
  by pat_completeness auto
termination
  by (relation "measure nat") auto

declare big_bytes.simps [simp del]

lemma be_value_big_bytes [simp]: "0 \<le> v \<Longrightarrow> be_value (big_bytes v) = v"
proof (induction v rule: big_bytes.induct)
  case (1 v)
  show ?case
  proof (cases "v \<le> 0")
    case True
    with 1 show ?thesis by (simp add: big_bytes.simps [of v] big_bytes.simps [of 0])
  next
    case False
    with 1 have "be_value (big_bytes (v div 256)) = v div 256" by simp
    with False show ?thesis by (simp add: big_bytes.simps [of v] uint_small_byte)
  qed
qed

subsection \<open>Length-prefixed byte strings\<close>

definition put_bytes :: "bytes \<Rightarrow> bytes" where
  "put_bytes b = put_uvarint (int (length b)) @ b"

definition get_bytes :: "bytes reader" where
  "get_bytes bs = do { (n, r) \<leftarrow> get_uvarint bs; take_exact n r }"

definition put_str :: "string \<Rightarrow> bytes" where
  "put_str s = put_bytes (bytes_of s)"

definition get_str :: "string reader" where
  "get_str bs = do { (b, r) \<leftarrow> get_bytes bs; Some (str_of b, r) }"

abbreviation len_ok :: "'a list \<Rightarrow> bool" where
  "len_ok xs \<equiv> u64_range (int (length xs))"

text \<open>Every length in a buffer is below \<open>2^63\<close>, as Go's slices are.\<close>

definition fits_buffer :: "nat \<Rightarrow> bool" where
  "fits_buffer n \<longleftrightarrow> int n < 2 ^ 63"

interpretation lpb: wire "len_ok :: bytes \<Rightarrow> bool" put_bytes get_bytes
  by unfold_locales (simp add: put_bytes_def get_bytes_def get_uvarint_put)

interpretation lps: wire "len_ok :: string \<Rightarrow> bool" put_str get_str
  by unfold_locales (simp add: put_str_def get_str_def lpb.get_put)

lemmas get_bytes_put [codec_rt] = lpb.get_put
lemmas get_str_put [codec_rt] = lps.get_put

lemma get_bytes_consumes: "get_bytes bs = Some (x, r) \<Longrightarrow> length r < length bs"
  by (auto simp: get_bytes_def elim!: bind_SomeE
      dest!: uv_eats.consumes take_exact_length)

subsection \<open>Counted sequences\<close>

text \<open>\<open>get_many get n\<close> is the Go loop that fills a slice of \<open>n\<close> elements, stopping at the first error.\<close>

fun get_many :: "'a reader \<Rightarrow> nat \<Rightarrow> 'a list reader" where
  "get_many get 0 bs = Some ([], bs)"
| "get_many get (Suc n) bs =
     do { (x, r) \<leftarrow> get bs; (xs, r') \<leftarrow> get_many get n r; Some (x # xs, r') }"

definition put_many :: "('a \<Rightarrow> bytes) \<Rightarrow> 'a list \<Rightarrow> bytes" where
  "put_many put xs = concat (map put xs)"

lemma put_many_Nil [simp]: "put_many put [] = []"
  by (simp add: put_many_def)

lemma put_many_Cons [simp]: "put_many put (x # xs) = put x @ put_many put xs"
  by (simp add: put_many_def)

lemma put_many_append [simp]: "put_many put (xs @ ys) = put_many put xs @ put_many put ys"
  by (simp add: put_many_def)

lemma get_many_put:
  assumes "\<And>x r. x \<in> set xs \<Longrightarrow> get (put x @ r) = Some (g x, r)"
  shows "get_many get (length xs) (put_many put xs @ r) = Some (map g xs, r)"
  using assms by (induction xs arbitrary: r) auto

lemma get_many_length: "get_many get n bs = Some (xs, r) \<Longrightarrow> length xs = n"
  by (induction n arbitrary: bs xs r) (auto elim!: bind_SomeE)

lemma put_many_length_ge:
  assumes "\<And>x. x \<in> set xs \<Longrightarrow> put x \<noteq> []"
  shows "length xs \<le> length (put_many put xs)"
  using assms
proof (induction xs)
  case (Cons x xs)
  have "put x \<noteq> []" and "length xs \<le> length (put_many put xs)"
    using Cons by auto
  then show ?case by (cases "put x") auto
qed simp

context wire begin

lemma get_many_put_all:
  "list_all dom_ok xs \<Longrightarrow> get_many get (length xs) (put_many put xs @ r) = Some (xs, r)"
  using get_many_put [of xs get put "\<lambda>x. x" r] by (simp add: list_all_iff get_put)

end

end
