(* ===== verification/Rast_Node.thy ===== *)
theory Rast_Node
  imports Wire_Prim
begin

section \<open>The regel-AST data model\<close>

text \<open>
  \<open>internal/rast/node.go\<close> and \<open>schema.go\<close>: the closed set of node kinds with their stable tag
  bytes, the operator codes, the uniform node, and the schema table that says which scalar
  fields a kind carries on the wire.  A tree holds no nil children: the code treats a nil child
  as the \<open>KNone\<close> node everywhere (\<open>IsNone\<close>, \<open>encodeInto\<close>, \<open>Normalize\<close>, \<open>Equal\<close>), and \<open>Decode\<close>
  never makes one.
\<close>

subsection \<open>Node kinds\<close>

datatype (plugins only: size code) kind =
    KNone | KList | KNum | KBigInt | KStr | KBool | KNull | KUndefined | KRegex | KTemplate |
    KStrPart | KLocal | KRef | KSelfRef | KName | KArray | KObject | KProp | KSpread | KCall |
    KMember | KIndex | KBinary | KUnary | KUpdate | KCond | KTypeof | KAwait | KAsConst |
    KSatisfy | KFunc | KParam | KBindId | KArrayPat | KObjPat | KBindProp | KRestPat | KBlock |
    KVarDecl | KDeclr | KExprStmt | KIf | KFor | KForOf | KWhile | KDoWhile | KSwitch |
    KClause | KBreak | KContinue | KReturn | KThrow | KTry | KCatch | KTypeAlias | KInterface |
    KNativeBody | TKeyword | TLiteral | TArray | TTuple | TUnion | TInter | TRef | TLocal |
    TCatRef | TObject | TPropSig | TIndexSig | TFunc | TCond | TKeyof | TIndexed | TQuery |
    TParam | TReadonly | TMapped | TTemplLit

primrec kind_byte :: "kind \<Rightarrow> byte" where
  "kind_byte KNone = 0"
| "kind_byte KList = 1"
| "kind_byte KNum = 10"
| "kind_byte KBigInt = 11"
| "kind_byte KStr = 12"
| "kind_byte KBool = 13"
| "kind_byte KNull = 14"
| "kind_byte KUndefined = 15"
| "kind_byte KRegex = 16"
| "kind_byte KTemplate = 17"
| "kind_byte KStrPart = 18"
| "kind_byte KLocal = 20"
| "kind_byte KRef = 21"
| "kind_byte KSelfRef = 22"
| "kind_byte KName = 23"
| "kind_byte KArray = 30"
| "kind_byte KObject = 31"
| "kind_byte KProp = 32"
| "kind_byte KSpread = 33"
| "kind_byte KCall = 34"
| "kind_byte KMember = 35"
| "kind_byte KIndex = 36"
| "kind_byte KBinary = 37"
| "kind_byte KUnary = 38"
| "kind_byte KUpdate = 39"
| "kind_byte KCond = 40"
| "kind_byte KTypeof = 41"
| "kind_byte KAwait = 42"
| "kind_byte KAsConst = 43"
| "kind_byte KSatisfy = 44"
| "kind_byte KFunc = 45"
| "kind_byte KParam = 46"
| "kind_byte KBindId = 50"
| "kind_byte KArrayPat = 51"
| "kind_byte KObjPat = 52"
| "kind_byte KBindProp = 53"
| "kind_byte KRestPat = 54"
| "kind_byte KBlock = 60"
| "kind_byte KVarDecl = 61"
| "kind_byte KDeclr = 62"
| "kind_byte KExprStmt = 63"
| "kind_byte KIf = 64"
| "kind_byte KFor = 65"
| "kind_byte KForOf = 66"
| "kind_byte KWhile = 67"
| "kind_byte KDoWhile = 68"
| "kind_byte KSwitch = 69"
| "kind_byte KClause = 70"
| "kind_byte KBreak = 71"
| "kind_byte KContinue = 72"
| "kind_byte KReturn = 73"
| "kind_byte KThrow = 74"
| "kind_byte KTry = 75"
| "kind_byte KCatch = 76"
| "kind_byte KTypeAlias = 80"
| "kind_byte KInterface = 81"
| "kind_byte KNativeBody = 82"
| "kind_byte TKeyword = 100"
| "kind_byte TLiteral = 101"
| "kind_byte TArray = 102"
| "kind_byte TTuple = 103"
| "kind_byte TUnion = 104"
| "kind_byte TInter = 105"
| "kind_byte TRef = 106"
| "kind_byte TLocal = 107"
| "kind_byte TCatRef = 108"
| "kind_byte TObject = 109"
| "kind_byte TPropSig = 110"
| "kind_byte TIndexSig = 111"
| "kind_byte TFunc = 112"
| "kind_byte TCond = 113"
| "kind_byte TKeyof = 114"
| "kind_byte TIndexed = 115"
| "kind_byte TQuery = 116"
| "kind_byte TParam = 117"
| "kind_byte TReadonly = 118"
| "kind_byte TMapped = 119"
| "kind_byte TTemplLit = 120"

definition all_kinds :: "kind list" where
  "all_kinds = [
    KNone, KList, KNum, KBigInt, KStr, KBool, KNull, KUndefined, KRegex, KTemplate, KStrPart,
    KLocal, KRef, KSelfRef, KName, KArray, KObject, KProp, KSpread, KCall, KMember, KIndex,
    KBinary, KUnary, KUpdate, KCond, KTypeof, KAwait, KAsConst, KSatisfy, KFunc, KParam,
    KBindId, KArrayPat, KObjPat, KBindProp, KRestPat, KBlock, KVarDecl, KDeclr, KExprStmt, KIf,
    KFor, KForOf, KWhile, KDoWhile, KSwitch, KClause, KBreak, KContinue, KReturn, KThrow, KTry,
    KCatch, KTypeAlias, KInterface, KNativeBody, TKeyword, TLiteral, TArray, TTuple, TUnion,
    TInter, TRef, TLocal, TCatRef, TObject, TPropSig, TIndexSig, TFunc, TCond, TKeyof,
    TIndexed, TQuery, TParam, TReadonly, TMapped, TTemplLit]"

text \<open>\<open>kind_of b\<close> is the conversion \<open>Kind(b)\<close> behind its \<open>valid\<close> check.\<close>

definition kind_of :: "byte \<Rightarrow> kind option" where
  "kind_of b = map_of (map (\<lambda>k. (kind_byte k, k)) all_kinds) b"

subsection \<open>Operators\<close>

datatype (plugins only: size code) opkind =
    OpNone | OpAdd | OpSub | OpMul | OpDiv | OpMod | OpExp | OpShl | OpShr | OpUShr |
    OpBitAnd | OpBitOr | OpBitXor | OpLt | OpGt | OpLe | OpGe | OpEqEq | OpNeEq | OpEqEqEq |
    OpNeEqEq | OpAnd | OpOr | OpNullish | OpIn | OpAssign | OpAddAssign | OpSubAssign |
    OpMulAssign | OpDivAssign | OpModAssign | OpExpAssign | OpShlAssign | OpShrAssign |
    OpUShrAssign | OpBitAndAssign | OpBitOrAssign | OpBitXorAssign | OpAndAssign | OpOrAssign |
    OpNullAssign | OpPos | OpNeg | OpNot | OpBitNot | OpInc | OpDec

primrec op_code :: "opkind \<Rightarrow> byte" where
  "op_code OpNone = 0"
| "op_code OpAdd = 1"
| "op_code OpSub = 2"
| "op_code OpMul = 3"
| "op_code OpDiv = 4"
| "op_code OpMod = 5"
| "op_code OpExp = 6"
| "op_code OpShl = 7"
| "op_code OpShr = 8"
| "op_code OpUShr = 9"
| "op_code OpBitAnd = 10"
| "op_code OpBitOr = 11"
| "op_code OpBitXor = 12"
| "op_code OpLt = 13"
| "op_code OpGt = 14"
| "op_code OpLe = 15"
| "op_code OpGe = 16"
| "op_code OpEqEq = 17"
| "op_code OpNeEq = 18"
| "op_code OpEqEqEq = 19"
| "op_code OpNeEqEq = 20"
| "op_code OpAnd = 21"
| "op_code OpOr = 22"
| "op_code OpNullish = 23"
| "op_code OpIn = 24"
| "op_code OpAssign = 40"
| "op_code OpAddAssign = 41"
| "op_code OpSubAssign = 42"
| "op_code OpMulAssign = 43"
| "op_code OpDivAssign = 44"
| "op_code OpModAssign = 45"
| "op_code OpExpAssign = 46"
| "op_code OpShlAssign = 47"
| "op_code OpShrAssign = 48"
| "op_code OpUShrAssign = 49"
| "op_code OpBitAndAssign = 50"
| "op_code OpBitOrAssign = 51"
| "op_code OpBitXorAssign = 52"
| "op_code OpAndAssign = 53"
| "op_code OpOrAssign = 54"
| "op_code OpNullAssign = 55"
| "op_code OpPos = 70"
| "op_code OpNeg = 71"
| "op_code OpNot = 72"
| "op_code OpBitNot = 73"
| "op_code OpInc = 74"
| "op_code OpDec = 75"

definition all_ops :: "opkind list" where
  "all_ops = [
    OpNone, OpAdd, OpSub, OpMul, OpDiv, OpMod, OpExp, OpShl, OpShr, OpUShr, OpBitAnd, OpBitOr,
    OpBitXor, OpLt, OpGt, OpLe, OpGe, OpEqEq, OpNeEq, OpEqEqEq, OpNeEqEq, OpAnd, OpOr,
    OpNullish, OpIn, OpAssign, OpAddAssign, OpSubAssign, OpMulAssign, OpDivAssign, OpModAssign,
    OpExpAssign, OpShlAssign, OpShrAssign, OpUShrAssign, OpBitAndAssign, OpBitOrAssign,
    OpBitXorAssign, OpAndAssign, OpOrAssign, OpNullAssign, OpPos, OpNeg, OpNot, OpBitNot,
    OpInc, OpDec]"

text \<open>
  \<open>rast.OpKind(u)\<close> keeps the low byte of a \<open>uint64\<close>.  A byte no operator has behaves as \<open>OpNone\<close>
  wherever the evaluator switches on an operator: every switch sends both to its default branch.
\<close>

definition op_of_byte :: "byte \<Rightarrow> opkind" where
  "op_of_byte b = (case map_of (map (\<lambda>k. (op_code k, k)) all_ops) b of
     Some k \<Rightarrow> k | None \<Rightarrow> OpNone)"

definition op_of :: "u64 \<Rightarrow> opkind" where
  "op_of u = op_of_byte (ucast u)"

subsection \<open>Nodes\<close>

datatype node = Node (nk: kind) (nstr: string) (nu: u64) (nmag: bytes) (nkids: "node list")

definition list_node :: "node list \<Rightarrow> node" where
  "list_node ks = Node KList [] 0 [] ks"

definition none_node :: node where
  "none_node = Node KNone [] 0 [] []"

definition is_none :: "node \<Rightarrow> bool" where
  "is_none n \<longleftrightarrow> nk n = KNone"

text \<open>\<open>n.Kids[i]\<close>; \<open>None\<close> is the index-out-of-range panic.\<close>

definition kid :: "node \<Rightarrow> nat \<Rightarrow> node option" where
  "kid n i = nth_go (nkids n) i"

text \<open>\<open>n.U&1 != 0\<close>, the flag test used throughout the evaluator.\<close>

definition flag0 :: "node \<Rightarrow> bool" where
  "flag0 n \<longleftrightarrow> bit (nu n) 0"

subsection \<open>The schema table\<close>

definition has_str :: "kind \<Rightarrow> bool" where
  "has_str k \<longleftrightarrow> (case k of
      KStr \<Rightarrow> True
    | KRegex \<Rightarrow> True
    | KStrPart \<Rightarrow> True
    | KRef \<Rightarrow> True
    | KName \<Rightarrow> True
    | KMember \<Rightarrow> True
    | KNativeBody \<Rightarrow> True
    | TKeyword \<Rightarrow> True
    | TRef \<Rightarrow> True
    | TCatRef \<Rightarrow> True
    | TPropSig \<Rightarrow> True
    | _ \<Rightarrow> False)"

definition has_u :: "kind \<Rightarrow> bool" where
  "has_u k \<longleftrightarrow> (case k of
      KNum \<Rightarrow> True
    | KBigInt \<Rightarrow> True
    | KBool \<Rightarrow> True
    | KRegex \<Rightarrow> True
    | KLocal \<Rightarrow> True
    | KProp \<Rightarrow> True
    | KCall \<Rightarrow> True
    | KMember \<Rightarrow> True
    | KIndex \<Rightarrow> True
    | KBinary \<Rightarrow> True
    | KUnary \<Rightarrow> True
    | KUpdate \<Rightarrow> True
    | KFunc \<Rightarrow> True
    | KParam \<Rightarrow> True
    | KBindProp \<Rightarrow> True
    | KVarDecl \<Rightarrow> True
    | KForOf \<Rightarrow> True
    | KClause \<Rightarrow> True
    | KCatch \<Rightarrow> True
    | TLocal \<Rightarrow> True
    | TPropSig \<Rightarrow> True
    | TIndexSig \<Rightarrow> True
    | TMapped \<Rightarrow> True
    | _ \<Rightarrow> False)"

definition has_mag :: "kind \<Rightarrow> bool" where
  "has_mag k \<longleftrightarrow> (case k of
      KBigInt \<Rightarrow> True
    | _ \<Rightarrow> False)"

definition num_as_f64 :: "kind \<Rightarrow> bool" where
  "num_as_f64 k \<longleftrightarrow> k = KNum"

subsection \<open>Structural equality\<close>

fun node_equal :: "node \<Rightarrow> node \<Rightarrow> bool"
  and nodes_equal :: "node list \<Rightarrow> node list \<Rightarrow> bool" where
  "node_equal (Node k s u m ks) (Node k' s' u' m' ks') \<longleftrightarrow>
     k = k' \<and> s = s' \<and> u = u' \<and> m = m' \<and> length ks = length ks' \<and> nodes_equal ks ks'"
| "nodes_equal [] ys \<longleftrightarrow> True"
| "nodes_equal (x # xs) [] \<longleftrightarrow> True"
| "nodes_equal (x # xs) (y # ys) \<longleftrightarrow> node_equal x y \<and> nodes_equal xs ys"

subsection \<open>Facts about the tables\<close>

lemma kind_of_kind_byte [simp]: "kind_of (kind_byte k) = Some k"
  by (cases k) (simp_all add: kind_of_def all_kinds_def)

lemma all_kinds_complete: "k \<in> set all_kinds"
  by (cases k) (simp_all add: all_kinds_def)

lemma kind_of_SomeD: "kind_of b = Some k \<Longrightarrow> b = kind_byte k"
  by (auto simp: kind_of_def dest!: map_of_SomeD)

lemma kind_byte_inject [simp]: "kind_byte k = kind_byte k' \<longleftrightarrow> k = k'"
  by (metis kind_of_kind_byte option.inject)

lemma op_of_byte_op_code [simp]: "op_of_byte (op_code p) = p"
  by (cases p) (simp_all add: op_of_byte_def all_ops_def)

lemma low_byte_of_wide [simp]: "ucast (ucast (b :: byte) :: u64) = b"
  by (rule bit_word_eqI) (auto simp: bit_simps)

lemma op_of_code [simp]: "op_of (ucast (op_code p)) = p"
  by (simp add: op_of_def)

lemma node_equal_iff: "node_equal a b \<longleftrightarrow> a = b"
  and nodes_equal_iff: "length xs = length ys \<Longrightarrow> nodes_equal xs ys \<longleftrightarrow> xs = ys"
  by (induction a b and xs ys rule: node_equal_nodes_equal.induct) auto

lemma kid_Some: "kid n i = Some c \<longleftrightarrow> i < length (nkids n) \<and> nkids n ! i = c"
  by (simp add: kid_def)

end
