(* ===== verification/Rast_Encode.thy ===== *)
theory Rast_Encode
  imports Rast_Node
begin

section \<open>The canonical TLV encoding\<close>

text \<open>
  \<open>internal/rast/encode.go\<close>: \<open>encode\<close> is \<open>canonEncode\<close>, \<open>decode\<close> is \<open>canonDecode\<close>.  The Go
  decoder recurses on the nested nodes; the model gives it the number of unread bytes plus one
  as fuel, which is enough because every node consumes at least one byte, and \<open>dec_node_fuel\<close>
  shows that more fuel changes nothing.
\<close>

subsection \<open>Encoder\<close>

definition enc_scalars :: "kind \<Rightarrow> string \<Rightarrow> u64 \<Rightarrow> bytes \<Rightarrow> bytes" where
  "enc_scalars k s u mag =
     (if has_str k then put_str s else [])
     @ (if has_u k then (if num_as_f64 k then put_be64 u else put_uvarint (uint u)) else [])
     @ (if has_mag k then put_bytes mag else [])"

fun encode_node :: "node \<Rightarrow> bytes" where
  "encode_node (Node k s u mag ks) =
     kind_byte k # enc_scalars k s u mag
     @ put_uvarint (int (length ks)) @ concat (map encode_node ks)"

subsection \<open>Decoder\<close>

definition get_u :: "kind \<Rightarrow> u64 reader" where
  "get_u k bs = (if num_as_f64 k then get_be64 bs
     else do { (v, r) \<leftarrow> get_uvarint bs; Some (word_of_int v, r) })"

definition dec_scalars :: "kind \<Rightarrow> (string \<times> u64 \<times> bytes) reader" where
  "dec_scalars k bs = do {
     (s, bs) \<leftarrow> (if has_str k then get_str bs else Some ([], bs));
     (u, bs) \<leftarrow> (if has_u k then get_u k bs else Some (0, bs));
     (mag, bs) \<leftarrow> (if has_mag k then get_bytes bs else Some ([], bs));
     Some ((s, u, mag), bs) }"

primrec dec_node :: "nat \<Rightarrow> node reader" where
  "dec_node 0 = (\<lambda>bs. None)"
| "dec_node (Suc f) = (\<lambda>bs. do {
     (b, bs) \<leftarrow> get_byte bs;
     k \<leftarrow> kind_of b;
     ((s, u, mag), bs) \<leftarrow> dec_scalars k bs;
     (n, bs) \<leftarrow> get_uvarint bs;
     require (n \<le> int (length bs));
     (ks, bs) \<leftarrow> get_many (dec_node f) (nat n) bs;
     Some (Node k s u mag ks, bs) })"

definition decode_node :: "bytes \<Rightarrow> node option" where
  "decode_node bs = do {
     (n, r) \<leftarrow> dec_node (Suc (length bs)) bs;
     require (r = []);
     Some n }"

subsection \<open>Well-formed nodes\<close>

text \<open>
  What the schema table lets a kind carry, and sizes a \<open>uint64\<close> can count.  Every tree the
  decoder returns is of this form (\<open>decode_wf\<close>).
\<close>

definition scalars_ok :: "kind \<Rightarrow> string \<Rightarrow> u64 \<Rightarrow> bytes \<Rightarrow> bool" where
  "scalars_ok k s u mag \<longleftrightarrow>
     (if has_str k then len_ok s else s = [])
     \<and> (has_u k \<or> u = 0)
     \<and> (if has_mag k then len_ok mag else mag = [])"

fun wf_node :: "node \<Rightarrow> bool" where
  "wf_node (Node k s u mag ks) \<longleftrightarrow> scalars_ok k s u mag \<and> len_ok ks \<and> list_all wf_node ks"

lemma has_u_KNum: "num_as_f64 k \<Longrightarrow> has_u k"
  by (simp add: num_as_f64_def has_u_def)

lemma u64_range_uint [simp]: "u64_range (uint (u :: u64))"
  using unsigned_less [of u, where 'a = int] by (simp add: u64_range_def)

lemma dec_enc_scalars:
  "scalars_ok k s u mag \<Longrightarrow> dec_scalars k (enc_scalars k s u mag @ r) = Some ((s, u, mag), r)"
  by (auto simp: scalars_ok_def dec_scalars_def enc_scalars_def get_u_def codec_rt split: if_splits)

lemma encode_node_nonempty [simp]: "encode_node n \<noteq> []"
  by (cases n) simp

lemma encode_kids_length: "length ks \<le> length (concat (map encode_node ks))"
  using put_many_length_ge [of ks encode_node] by (simp add: put_many_def)

subsection \<open>Decoding what was encoded\<close>

lemma dec_node_encode:
  "wf_node n \<Longrightarrow> length (encode_node n) \<le> f \<Longrightarrow> dec_node f (encode_node n @ r) = Some (n, r)"
proof (induction f arbitrary: n r)
  case 0
  then show ?case by (cases n) simp
next
  case (Suc f)
  obtain k s u mag ks where n: "n = Node k s u mag ks" by (cases n)
  have wf: "scalars_ok k s u mag" "len_ok ks" "list_all wf_node ks"
    using Suc.prems n by simp_all
  have each: "dec_node f (encode_node c @ r') = Some (c, r')" if "c \<in> set ks" for c r'
  proof -
    have "length (encode_node c) \<le> length (concat (map encode_node ks))"
      using that by (induction ks) auto
    also have "\<dots> \<le> f" using Suc.prems(2) n by simp
    finally show ?thesis using Suc.IH that wf(3) by (simp add: list_all_iff)
  qed
  have many: "get_many (dec_node f) (length ks) (concat (map encode_node ks) @ r) = Some (ks, r)"
    using get_many_put [of ks "dec_node f" encode_node "\<lambda>c. c" r] each by (simp add: put_many_def)
  show ?case
    using wf many encode_kids_length [of ks]
    by (simp add: n dec_enc_scalars get_uvarint_put)
qed

lemma decode_encode: "wf_node n \<Longrightarrow> decode_node (encode_node n) = Some n"
  using dec_node_encode [of n "Suc (length (encode_node n))" "[]"] by (simp add: decode_node_def)

interpretation node_wire: wire wf_node encode_node "\<lambda>bs. dec_node (length bs) bs"
proof
  fix n r
  assume "wf_node n"
  then show "dec_node (length (encode_node n @ r)) (encode_node n @ r) = Some (n, r)"
    by (rule dec_node_encode) simp
qed

subsection \<open>What the decoder accepts\<close>

lemma dec_scalars_ok:
  assumes "dec_scalars k bs = Some ((s, u, mag), r)" and "u64_range (int (length bs))"
  shows "scalars_ok k s u mag"
proof -
  have str: "len_ok s'" if "get_str b = Some (s', r')" "u64_range (int (length b))" for s' b r'
    using that by (auto simp: get_str_def get_bytes_def take_exact_def u64_range_def
        elim!: bind_SomeE split: if_splits dest!: uv_eats.consumes)
  have byt: "len_ok m" if "get_bytes b = Some (m, r')" "u64_range (int (length b))" for m b r'
    using that by (auto simp: get_bytes_def take_exact_def u64_range_def
        elim!: bind_SomeE split: if_splits dest!: uv_eats.consumes)
  have shrink_str: "length r' \<le> length b" if "get_str b = Some (s', r')" for s' b r'
    using that get_bytes_consumes by (fastforce simp: get_str_def elim!: bind_SomeE)
  have shrink_u: "length r' \<le> length b" if "get_u k b = Some (w, r')" for w b r'
    using that by (auto simp: get_u_def get_be64_def elim!: bind_SomeE split: if_splits
        dest!: take_exact_length uv_eats.consumes)
  obtain b1 b2 where
      1: "(if has_str k then get_str bs else Some ([], bs)) = Some (s, b1)"
    and 2: "(if has_u k then get_u k b1 else Some (0, b1)) = Some (u, b2)"
    and 3: "(if has_mag k then get_bytes b2 else Some ([], b2)) = Some (mag, r)"
    using assms(1) by (auto simp: dec_scalars_def elim!: bind_SomeE)
  have l1: "length b1 \<le> length bs" using 1 shrink_str by (auto split: if_splits)
  have l2: "length b2 \<le> length b1" using 2 shrink_u by (auto split: if_splits)
  have r2: "u64_range (int (length b2))" using assms(2) l1 l2 by (simp add: u64_range_def)
  show ?thesis
    using 1 2 3 str assms(2) byt r2 unfolding scalars_ok_def by (auto split: if_splits)
qed

lemma dec_scalars_shrinks: "dec_scalars k bs = Some (x, r) \<Longrightarrow> length r \<le> length bs"
  by (fastforce simp: dec_scalars_def get_u_def get_str_def get_be64_def elim!: bind_SomeE
      split: if_splits dest!: take_exact_length uv_eats.consumes get_bytes_consumes)

lemma get_many_shrinks:
  assumes "\<And>bs x r. get bs = Some (x, r) \<Longrightarrow> length r < length bs"
  shows "get_many get n bs = Some (xs, r) \<Longrightarrow> length r + n \<le> length bs"
proof (induction n arbitrary: bs xs)
  case (Suc n)
  then obtain x b ys where "get bs = Some (x, b)" and "get_many get n b = Some (ys, r)"
    by (auto elim!: bind_SomeE)
  with assms Suc.IH show ?case by fastforce
qed simp

lemma dec_node_shrinks: "dec_node f bs = Some (n, r) \<Longrightarrow> length r < length bs"
proof (induction f arbitrary: bs n r)
  case (Suc f)
  obtain b b0 k sc b1 c b2 ks where
    "get_byte bs = Some (b, b0)" "dec_scalars k b0 = Some (sc, b1)"
    "get_uvarint b1 = Some (c, b2)" "get_many (dec_node f) (nat c) b2 = Some (ks, r)"
    using Suc.prems by (auto elim!: bind_SomeE)
  moreover have "length r + nat c \<le> length b2"
    by (rule get_many_shrinks) (use Suc.IH calculation(4) in auto)
  ultimately show ?case
    using dec_scalars_shrinks uv_eats.consumes
    by (fastforce simp: get_byte_def split: list.splits)
qed simp

text \<open>More fuel than bytes never changes a result, so the fuel of \<open>decode_node\<close> is enough.\<close>

lemma get_many_cong:
  assumes "\<And>bs. length bs \<le> m \<Longrightarrow> g bs = h bs"
    and "\<And>bs x r. g bs = Some (x, r) \<Longrightarrow> length r < length bs"
  shows "length bs \<le> m \<Longrightarrow> get_many g n bs = get_many h n bs"
proof (induction n arbitrary: bs)
  case (Suc n)
  have hd: "g bs = h bs" using assms(1) Suc.prems by simp
  show ?case
  proof (cases "g bs")
    case None
    with hd show ?thesis by simp
  next
    case (Some p)
    obtain x r where p: "p = (x, r)" by (cases p)
    have "length r \<le> m" using assms(2) Some p Suc.prems by fastforce
    then have "get_many g n r = get_many h n r" by (rule Suc.IH)
    moreover have "g bs = Some (x, r)" and "h bs = Some (x, r)" using Some p hd by simp_all
    ultimately show ?thesis by simp
  qed
qed simp

lemma dec_node_fuel: "length bs \<le> f \<Longrightarrow> length bs \<le> g \<Longrightarrow> dec_node f bs = dec_node g bs"
proof (induction f arbitrary: bs g)
  case 0
  then show ?case by (cases g) simp_all
next
  case (Suc f)
  show ?case
  proof (cases g)
    case 0
    with Suc.prems show ?thesis by simp
  next
    case (Suc g')
    have "get_many (dec_node f) n b2 = get_many (dec_node g') n b2"
      if "length b2 < length bs" for n b2
    proof (rule get_many_cong [where m = "length b2"])
      fix b3 :: bytes
      assume "length b3 \<le> length b2"
      then show "dec_node f b3 = dec_node g' b3"
        using Suc.IH [of b3 g'] Suc.prems Suc that by (simp add: \<open>g = Suc g'\<close>)
    qed (auto dest: dec_node_shrinks)
    then show ?thesis
      by (auto simp: Suc get_byte_def split: list.splits intro!: Option.bind_cong
          dest!: dec_scalars_shrinks uv_eats.consumes)
  qed
qed

lemma dec_node_wf:
  "dec_node f bs = Some (n, r) \<Longrightarrow> u64_range (int (length bs)) \<Longrightarrow> wf_node n"
proof (induction f arbitrary: bs n r)
  case (Suc f)
  obtain b b0 k s u mag b1 c b2 ks where
    d: "get_byte bs = Some (b, b0)" "dec_scalars k b0 = Some ((s, u, mag), b1)"
    "get_uvarint b1 = Some (c, b2)" "get_many (dec_node f) (nat c) b2 = Some (ks, r)"
    and n: "n = Node k s u mag ks"
    using Suc.prems(1) by (auto elim!: bind_SomeE)
  have l0: "length b0 \<le> length bs" using d(1) by (auto simp: get_byte_def split: list.splits)
  have l2: "length b2 \<le> length bs"
    using l0 dec_scalars_shrinks [OF d(2)] uv_eats.consumes [OF d(3)] by linarith
  have "list_all wf_node ks"
  proof -
    have "list_all wf_node ys" if "get_many (dec_node f) m b = Some (ys, r')"
      "length b \<le> length bs" for m b ys r'
      using that
    proof (induction m arbitrary: b ys)
      case (Suc m)
      then obtain y b' zs where y: "dec_node f b = Some (y, b')"
        and "get_many (dec_node f) m b' = Some (zs, r')" "ys = y # zs"
        by (auto elim!: bind_SomeE)
      moreover have "wf_node y"
        using \<open>\<And>bs n r. \<lbrakk>dec_node f bs = Some (n, r); u64_range (int (length bs))\<rbrakk> \<Longrightarrow> wf_node n\<close>
          y Suc.prems(2) \<open>u64_range (int (length bs))\<close> by (fastforce simp: u64_range_def)
      ultimately show ?case
        using Suc dec_node_shrinks [OF y] by simp
    qed simp
    with d(4) l2 show ?thesis by blast
  qed
  moreover have "scalars_ok k s u mag"
    using l0 Suc.prems(2) by (intro dec_scalars_ok [OF d(2)]) (simp add: u64_range_def)
  moreover have "length ks = nat c" "u64_range c"
    using d(3,4) get_many_length get_uvarint_range by blast+
  ultimately show ?case by (simp add: n u64_range_def)
qed simp

lemma decode_wf: "decode_node bs = Some n \<Longrightarrow> u64_range (int (length bs)) \<Longrightarrow> wf_node n"
  by (auto simp: decode_node_def elim!: bind_SomeE dest: dec_node_wf simp del: dec_node.simps)

lemma encode_node_inject:
  "wf_node a \<Longrightarrow> wf_node b \<Longrightarrow> encode_node a = encode_node b \<longleftrightarrow> a = b"
  by (metis decode_encode option.inject)

end
