(* ===== verification/Rast_Normalize.thy ===== *)
theory Rast_Normalize
  imports Rast_Encode "HOL-Library.Multiset" "HOL-Library.List_Lexorder"
begin

section \<open>Normalization\<close>

text \<open>
  \<open>internal/rast/normalize.go\<close>.  Type-level members that form a set (union and intersection
  members, object-type and interface members) are put in the order of their canonical encoding;
  everything at the value level keeps its order.  \<open>bytes.Compare\<close> is the lexicographic order of
  \<open>List_Lexorder\<close> and \<open>sort.SliceStable\<close> is the stable \<open>sort_key\<close>.
\<close>

subsection \<open>The pass\<close>

definition sort_list_child :: "node \<Rightarrow> nat \<Rightarrow> node" where
  "sort_list_child n i =
     (if length (nkids n) \<le> i then n
      else let lst = nkids n ! i in
        if nk lst \<noteq> KList \<or> length (nkids lst) < 2 then n
        else Node (nk n) (nstr n) (nu n) (nmag n)
          ((nkids n)[i := Node (nk lst) (nstr lst) (nu lst) (nmag lst)
             (sort_key encode_node (nkids lst))]))"

fun normalize :: "node \<Rightarrow> node" where
  "normalize (Node k s u mag ks) =
     (let cp = Node k s u mag (map normalize ks) in
      case k of
        TUnion \<Rightarrow> sort_list_child cp 0
      | TInter \<Rightarrow> sort_list_child cp 0
      | TObject \<Rightarrow> sort_list_child cp 0
      | KInterface \<Rightarrow> sort_list_child cp 1
      | _ \<Rightarrow> cp)"

lemma node_eta: "nk n = k \<Longrightarrow> Node k (nstr n) (nu n) (nmag n) (nkids n) = n"
  by (cases n) simp

subsection \<open>Normal form\<close>

definition sort_index :: "kind \<Rightarrow> nat option" where
  "sort_index k = (case k of
      TUnion \<Rightarrow> Some 0
    | TInter \<Rightarrow> Some 0
    | TObject \<Rightarrow> Some 0
    | KInterface \<Rightarrow> Some 1
    | _ \<Rightarrow> None)"

definition members_sorted :: "kind \<Rightarrow> node list \<Rightarrow> bool" where
  "members_sorted k ks \<longleftrightarrow> (case sort_index k of
      None \<Rightarrow> True
    | Some i \<Rightarrow> i < length ks \<longrightarrow> nk (ks ! i) = KList
        \<longrightarrow> sorted (map encode_node (nkids (ks ! i))))"

fun is_normal :: "node \<Rightarrow> bool" where
  "is_normal (Node k s u mag ks) \<longleftrightarrow> list_all is_normal ks \<and> members_sorted k ks"

lemma normalize_sort_index:
  "normalize (Node k s u mag ks) = (case sort_index k of
      None \<Rightarrow> Node k s u mag (map normalize ks)
    | Some i \<Rightarrow> sort_list_child (Node k s u mag (map normalize ks)) i)"
  by (cases k) (simp_all add: sort_index_def)

declare normalize.simps [simp del]
declare normalize_sort_index [simp]

lemma nk_sort_list_child [simp]: "nk (sort_list_child n i) = nk n"
  by (simp add: sort_list_child_def Let_def)

lemma nk_normalize [simp]: "nk (normalize n) = nk n"
  by (cases n) (simp split: option.splits)

lemma sort_index_KList [simp]: "sort_index KList = None"
  by (simp add: sort_index_def)

lemma short_list_sorted: "length xs < 2 \<Longrightarrow> sorted (map f xs)"
  by (cases xs; cases "tl xs") auto

lemma is_normal_sorted_list:
  assumes "is_normal lst" and "nk lst = KList"
  shows "is_normal (Node (nk lst) s u mag (sort_key f (nkids lst)))"
  using assms by (cases lst) (simp add: members_sorted_def list_all_iff)

lemma is_normal_sort_list_child:
  assumes "list_all is_normal ks" and "sort_index k = Some i"
  shows "is_normal (sort_list_child (Node k s u mag ks) i)"
proof (cases "i < length ks \<and> nk (ks ! i) = KList \<and> 2 \<le> length (nkids (ks ! i))")
  case True
  then have "is_normal (Node KList (nstr (ks ! i)) (nu (ks ! i)) (nmag (ks ! i))
      (sort_key encode_node (nkids (ks ! i))))"
    using is_normal_sorted_list [of "ks ! i"] assms(1) by (auto simp: list_all_length)
  with True assms show ?thesis
    by (auto simp: sort_list_child_def Let_def members_sorted_def list_all_upd)
next
  case False
  with assms show ?thesis
    by (auto simp: sort_list_child_def Let_def members_sorted_def short_list_sorted)
qed

lemma normalize_is_normal: "is_normal (normalize n)"
proof (induction n rule: normalize.induct)
  case (1 k s u mag ks)
  then have "list_all is_normal (map normalize ks)" by (simp add: list_all_iff)
  then show ?case
    using is_normal_sort_list_child by (auto simp: members_sorted_def split: option.splits)
qed

lemma sort_key_sorted: "sorted (map f xs) \<Longrightarrow> sort_key f xs = xs"
  by (induction xs) (auto intro: insort_is_Cons)

lemma normalize_normal: "is_normal n \<Longrightarrow> normalize n = n"
proof (induction n rule: normalize.induct)
  case (1 k s u mag ks)
  then have ks: "map normalize ks = ks" by (simp add: list_all_iff map_idI)
  have "sort_list_child (Node k s u mag ks) i = Node k s u mag ks" if "sort_index k = Some i" for i
    using "1.prems" that
    by (auto simp: sort_list_child_def Let_def members_sorted_def sort_key_sorted
        node_eta)
  with ks show ?case by (auto split: option.splits)
qed

lemma normalize_idem: "normalize (normalize n) = normalize n"
  by (rule normalize_normal [OF normalize_is_normal])

subsection \<open>Well-formedness and the order of members\<close>

lemma wf_sort_list_child: "wf_node n \<Longrightarrow> wf_node (sort_list_child n i)"
proof -
  assume wf: "wf_node n"
  obtain k s u mag ks where n: "n = Node k s u mag ks" by (cases n)
  show ?thesis
  proof (cases "i < length ks")
    case True
    have "wf_node (ks ! i)" using wf n True by (auto simp: list_all_length)
    then have "wf_node (Node (nk (ks ! i)) (nstr (ks ! i)) (nu (ks ! i)) (nmag (ks ! i))
        (sort_key encode_node (nkids (ks ! i))))"
      by (cases "ks ! i") (simp add: list_all_iff)
    with wf n True show ?thesis
      by (auto simp: sort_list_child_def Let_def intro!: list_all_upd)
  next
    case False
    with wf n show ?thesis by (simp add: sort_list_child_def)
  qed
qed

lemma wf_normalize: "wf_node n \<Longrightarrow> wf_node (normalize n)"
proof (induction n rule: normalize.induct)
  case (1 k s u mag ks)
  then have "wf_node (Node k s u mag (map normalize ks))" by (auto simp: list_all_iff)
  then show ?case by (auto simp del: wf_node.simps intro: wf_sort_list_child split: option.splits)
qed

lemma sort_key_mset_cong:
  assumes "mset xs = mset ys" and "inj_on f (set xs)"
  shows "sort_key f xs = sort_key f ys"
  using assms by (intro sort_key_inj_key_eq) simp_all

lemma inj_encode_wf: "list_all wf_node xs \<Longrightarrow> inj_on encode_node (set xs)"
  by (auto simp: inj_on_def list_all_iff encode_node_inject)

lemma normalize_members_perm:
  assumes k: "sort_index k = Some 0" and perm: "mset ms = mset ms'"
    and wf: "list_all wf_node ms"
  shows "normalize (Node k s u mag (list_node ms # rest))
       = normalize (Node k s u mag (list_node ms' # rest))"
proof -
  have m: "mset (map normalize ms) = mset (map normalize ms')"
    using perm by simp
  have inj: "inj_on encode_node (set (map normalize ms))"
    using wf wf_normalize by (intro inj_encode_wf) (auto simp: list_all_iff)
  have sort: "sort_key encode_node (map normalize ms) = sort_key encode_node (map normalize ms')"
    by (rule sort_key_mset_cong [OF m inj])
  have len: "length ms = length ms'" using perm by (rule mset_eq_length)
  show ?thesis
  proof (cases "length ms < 2")
    case True
    with perm have "ms = ms'" by (cases ms; cases "tl ms") auto
    then show ?thesis by simp
  next
    case False
    with k sort len show ?thesis by (simp add: sort_list_child_def list_node_def)
  qed
qed

end
