(* ===== verification/Go_Sha.thy ===== *)
theory Go_Sha
  imports Wire_Prim
begin

section \<open>SHA-256\<close>

text \<open>
  The hash of Go's \<open>crypto/sha256\<close> (FIPS 180-4), as the content address and the std natives use
  it: padding, message schedule and compression on 32-bit words.  What the developments above
  rest on is that the digest is a function of the bytes and has 32 of them.
\<close>

text \<open>
  The constants of the standard are the first 32 bits of the fractional parts of the cube roots
  of the first 64 primes (the round constants) and of the square roots of the first eight (the
  initial state).  \<open>iroot e n b\<close> is the integer \<open>e\<close>-th root of \<open>n\<close>, built from its \<open>b\<close> bits.
\<close>

definition sha_primes :: "int list" where
  "sha_primes = [
    2, 3, 5, 7, 11, 13, 17, 19, 23, 29, 31, 37, 41, 43, 47, 53, 59, 61, 67, 71, 73, 79, 83,
    89, 97, 101, 103, 107, 109, 113, 127, 131, 137, 139, 149, 151, 157, 163, 167, 173, 179,
    181, 191, 193, 197, 199, 211, 223, 227, 229, 233, 239, 241, 251, 257, 263, 269, 271, 277,
    281, 283, 293, 307, 311]"

definition iroot :: "nat \<Rightarrow> int \<Rightarrow> nat \<Rightarrow> int" where
  "iroot e n b = foldl (\<lambda>r i. if (r + 2 ^ i) ^ e \<le> n then r + 2 ^ i else r) 0 (rev [0..<b])"

definition sha_k :: "u32 list" where
  "sha_k = map (\<lambda>p. word_of_int (iroot 3 (p * 2 ^ 96) 36)) sha_primes"

definition sha_init :: "u32 list" where
  "sha_init = map (\<lambda>p. word_of_int (iroot 2 (p * 2 ^ 64) 36)) (take 8 sha_primes)"

definition rotr32 :: "nat \<Rightarrow> u32 \<Rightarrow> u32" where
  "rotr32 n w = word_rotr n w"

definition sha_s0 :: "u32 \<Rightarrow> u32" where
  "sha_s0 x = rotr32 7 x XOR rotr32 18 x XOR drop_bit 3 x"

definition sha_s1 :: "u32 \<Rightarrow> u32" where
  "sha_s1 x = rotr32 17 x XOR rotr32 19 x XOR drop_bit 10 x"

definition sha_S0 :: "u32 \<Rightarrow> u32" where
  "sha_S0 x = rotr32 2 x XOR rotr32 13 x XOR rotr32 22 x"

definition sha_S1 :: "u32 \<Rightarrow> u32" where
  "sha_S1 x = rotr32 6 x XOR rotr32 11 x XOR rotr32 25 x"

definition sha_ch :: "u32 \<Rightarrow> u32 \<Rightarrow> u32 \<Rightarrow> u32" where
  "sha_ch x y z = (x AND y) XOR (NOT x AND z)"

definition sha_maj :: "u32 \<Rightarrow> u32 \<Rightarrow> u32 \<Rightarrow> u32" where
  "sha_maj x y z = (x AND y) XOR (x AND z) XOR (y AND z)"

text \<open>A \<open>0x80\<close> byte, zeros up to 56 modulo 64, and the bit length in 8 bytes.\<close>

definition sha_pad :: "bytes \<Rightarrow> bytes" where
  "sha_pad m = m @ [0x80] @ replicate ((119 - length m mod 64) mod 64) 0
     @ be_bytes 8 (8 * int (length m))"

fun sha_words :: "bytes \<Rightarrow> u32 list" where
  "sha_words (a # b # c # d # r) = word_of_int (be_value [a, b, c, d]) # sha_words r"
| "sha_words _ = []"

text \<open>The schedule, newest word first: \<open>W t\<close> from \<open>W (t-2)\<close>, \<open>W (t-7)\<close>, \<open>W (t-15)\<close> and \<open>W (t-16)\<close>.\<close>

fun sha_schedule :: "nat \<Rightarrow> u32 list \<Rightarrow> u32 list" where
  "sha_schedule 0 ws = rev ws"
| "sha_schedule (Suc n) ws =
     sha_schedule n ((sha_s1 (ws ! 1) + ws ! 6 + sha_s0 (ws ! 14) + ws ! 15) # ws)"

fun sha_round :: "u32 list \<Rightarrow> u32 \<times> u32 \<Rightarrow> u32 list" where
  "sha_round [a, b, c, d, e, f, g, h] (k, w) =
     (let t1 = h + sha_S1 e + sha_ch e f g + k + w;
          t2 = sha_S0 a + sha_maj a b c
      in [t1 + t2, a, b, c, d + t1, e, f, g])"
| "sha_round st kw = st"

definition sha_block :: "u32 list \<Rightarrow> bytes \<Rightarrow> u32 list" where
  "sha_block st blk =
     map2 (+) st (foldl sha_round st (zip sha_k (sha_schedule 48 (rev (sha_words blk)))))"

fun sha_blocks :: "nat \<Rightarrow> u32 list \<Rightarrow> bytes \<Rightarrow> u32 list" where
  "sha_blocks 0 st m = st"
| "sha_blocks (Suc n) st m = sha_blocks n (sha_block st (take 64 m)) (drop 64 m)"

definition sha256 :: "bytes \<Rightarrow> bytes" where
  "sha256 m = (let p = sha_pad m in
     concat (map (\<lambda>w. be_bytes 4 (uint w)) (sha_blocks (length p div 64) sha_init p)))"

lemma length_sha_round [simp]: "length (sha_round st kw) = length st"
  by (cases "(st, kw)" rule: sha_round.cases) (auto simp: Let_def)

lemma length_foldl_sha_round [simp]: "length (foldl sha_round st kws) = length st"
  by (induction kws arbitrary: st) auto

lemma length_sha_blocks [simp]: "length (sha_blocks n st m) = length st"
  by (induction n arbitrary: st m) (auto simp: sha_block_def)

lemma length_concat_const: "(\<And>x. x \<in> set xs \<Longrightarrow> length (f x) = n) \<Longrightarrow> length (concat (map f xs)) = n * length xs"
  by (induction xs) auto

lemma length_sha256 [simp]: "length (sha256 m) = 32"
  by (simp add: sha256_def Let_def length_concat_const [where n = 4] sha_init_def sha_primes_def)

end
