(* ===== verification/Rast_Address.thy ===== *)
theory Rast_Address
  imports Rast_Encode Rast_Normalize Go_Sha
begin

section \<open>Content addresses\<close>

text \<open>
  \<open>internal/rast/address.go\<close>: the address of a normalized tree is the lowercase Crockford base32
  text of the SHA-256 digest of its canonical encoding under a domain prefix.  The two base32
  loops keep their \<open>uint32\<close> accumulator, so the bits that fall off its top are lost in the model
  as they are in the code; the proofs read the accumulator as the list of its pending bits.
\<close>

definition crockford_alpha :: string where
  "crockford_alpha = ''0123456789abcdefghjkmnpqrstvwxyz''"

definition addr_prefix :: string where "addr_prefix = ''r1_''"

definition address_body_chars :: nat where "address_body_chars = 52"

definition domain_bytes :: bytes where "domain_bytes = bytes_of ''regel-ast/1'' @ [10]"

subsection \<open>crockfordEncode\<close>

fun cf_flush :: "u32 \<Rightarrow> nat \<Rightarrow> string \<Rightarrow> string \<times> nat" where
  "cf_flush acc bits sb =
     (if 5 \<le> bits
      then cf_flush acc (bits - 5)
             (sb @ [crockford_alpha ! unat (drop_bit (bits - 5) acc AND 0x1f)])
      else (sb, bits))"

declare cf_flush.simps [simp del]

fun cf_loop :: "bytes \<Rightarrow> u32 \<Rightarrow> nat \<Rightarrow> string \<Rightarrow> u32 \<times> nat \<times> string" where
  "cf_loop [] acc bits sb = (acc, bits, sb)"
| "cf_loop (x # bs) acc bits sb =
     (let acc = push_bit 8 acc OR ucast x;
          (sb, bits) = cf_flush acc (bits + 8) sb
      in cf_loop bs acc bits sb)"

definition crockford_encode :: "bytes \<Rightarrow> string" where
  "crockford_encode b =
     (case cf_loop b 0 0 [] of (acc, bits, sb) \<Rightarrow>
        if 0 < bits then sb @ [crockford_alpha ! unat (push_bit (5 - bits) acc AND 0x1f)] else sb)"

definition encode_address :: "bytes \<Rightarrow> string" where
  "encode_address digest = addr_prefix @ crockford_encode digest"

definition address :: "node \<Rightarrow> string" where
  "address n = encode_address (sha256 (domain_bytes @ encode_node n))"

definition normalize_and_address :: "node \<Rightarrow> node \<times> string" where
  "normalize_and_address n = (let nn = normalize n in (nn, address nn))"

definition verify_address :: "node \<Rightarrow> string \<Rightarrow> bool" where
  "verify_address n addr \<longleftrightarrow> address n = addr"

subsection \<open>DecodeAddress\<close>

datatype addr_error = BadPrefix | BadLength nat | BadChar char | TooMany | TooFew nat

fun alpha_index :: "string \<Rightarrow> char \<Rightarrow> nat \<Rightarrow> nat option" where
  "alpha_index [] c i = None"
| "alpha_index (a # as) c i = (if a = c then Some i else alpha_index as c (Suc i))"

definition crockford_value :: "char \<Rightarrow> nat option" where
  "crockford_value c = alpha_index crockford_alpha c 0"

fun cf_dec_loop :: "string \<Rightarrow> u32 \<Rightarrow> nat \<Rightarrow> bytes \<Rightarrow> addr_error + bytes" where
  "cf_dec_loop [] acc bits out = Inr out"
| "cf_dec_loop (c # cs) acc bits out =
     (case crockford_value c of
        None \<Rightarrow> Inl (BadChar c)
      | Some v \<Rightarrow>
          (let acc = push_bit 5 acc OR of_nat v; bits = bits + 5
           in if 8 \<le> bits
              then (if 32 \<le> length out then Inl TooMany
                    else cf_dec_loop cs acc (bits - 8) (out @ [ucast (drop_bit (bits - 8) acc)]))
              else cf_dec_loop cs acc bits out))"

definition decode_address :: "string \<Rightarrow> addr_error + bytes" where
  "decode_address addr =
     (if take (length addr_prefix) addr \<noteq> addr_prefix then Inl BadPrefix
      else let body = drop (length addr_prefix) addr in
        if length body \<noteq> address_body_chars then Inl (BadLength (length body))
        else case cf_dec_loop body 0 0 [] of
            Inl e \<Rightarrow> Inl e
          | Inr out \<Rightarrow> if length out \<noteq> 32 then Inl (TooFew (length out)) else Inr out)"

subsection \<open>The pending bits of an accumulator\<close>

definition pend :: "'a::len word \<Rightarrow> nat \<Rightarrow> bool list" where
  "pend w n = map (\<lambda>i. bit w (n - 1 - i)) [0..<n]"

lemma length_pend [simp]: "length (pend w n) = n"
  by (simp add: pend_def)

lemma pend_0 [simp]: "pend w 0 = []"
  by (simp add: pend_def)

lemma nth_pend: "i < n \<Longrightarrow> pend w n ! i = bit w (n - 1 - i)"
  by (simp add: pend_def)

lemma pend_split:
  assumes "k \<le> n" and "n \<le> LENGTH('a)"
  shows "pend (w :: 'a::len word) n = pend (drop_bit k w) (n - k) @ pend w k"
proof (rule nth_equalityI)
  fix i assume i: "i < length (pend w n)"
  show "pend w n ! i = (pend (drop_bit k w) (n - k) @ pend w k) ! i"
  proof (cases "i < n - k")
    case True
    then have "n - 1 - i = k + (n - k - 1 - i)" using assms by simp
    then show ?thesis using True i by (simp add: nth_append nth_pend bit_drop_bit_eq)
  next
    case False
    then have "n - 1 - i = k - 1 - (i - (n - k))" using assms i by simp
    then show ?thesis using False i assms by (simp add: nth_append nth_pend)
  qed
qed (use assms in simp)

lemma pend_shift_or:
  fixes w :: "'a::len word" and b :: "'b::len word"
  assumes "n + k \<le> LENGTH('a)" and "\<And>i. bit v i \<longleftrightarrow> i < k \<and> bit b i"
  shows "pend (push_bit k w OR v) (n + k) = pend w n @ pend b k"
proof (rule nth_equalityI)
  fix i assume i: "i < length (pend (push_bit k w OR v) (n + k))"
  show "pend (push_bit k w OR v) (n + k) ! i = (pend w n @ pend b k) ! i"
  proof (cases "i < n")
    case True
    then have *: "n + k - Suc i = k + (n - Suc i)" by simp
    have "pend (push_bit k w OR v) (n + k) ! i = bit (push_bit k w OR v) (k + (n - Suc i))"
      using i * by (simp add: nth_pend del: diff_Suc_eq_diff_pred)
    also have "\<dots> = bit w (n - Suc i)"
      using True assms(1) by (auto simp: bit_or_iff bit_push_bit_iff assms(2))
    finally show ?thesis using True by (simp add: nth_append nth_pend)
  next
    case False
    then have *: "n + k - Suc i = k - Suc (i - n)" using i by simp
    have "n + k - Suc i < k" using False i by (cases k) auto
    then show ?thesis using False i assms(1)
      by (simp add: nth_append nth_pend bit_or_iff bit_push_bit_iff assms(2) *)
  qed
qed simp

lemma pend_cong:
  "(\<And>i. i < n \<Longrightarrow> bit w i = bit v i) \<Longrightarrow> pend w n = pend v n"
  by (cases n) (auto simp: pend_def)

lemma pend_inj:
  fixes v w :: "'a::len word"
  assumes "pend v LENGTH('a) = pend w LENGTH('a)"
  shows "v = w"
proof (rule bit_word_eqI)
  fix i assume i: "i < LENGTH('a)"
  have "pend v LENGTH('a) ! (LENGTH('a) - 1 - i) = pend w LENGTH('a) ! (LENGTH('a) - 1 - i)"
    using assms by simp
  then show "bit v i = bit w i" using i by (simp add: nth_pend)
qed


subsection \<open>The encoder writes the digest's bits in groups of five\<close>

definition value_of :: "char \<Rightarrow> u32" where
  "value_of c = of_nat (the (crockford_value c))"

definition text_bits :: "string \<Rightarrow> bool list" where
  "text_bits s = concat (map (\<lambda>c. pend (value_of c) 5) s)"

definition byte_bits :: "bytes \<Rightarrow> bool list" where
  "byte_bits bs = concat (map (\<lambda>b. pend b 8) bs)"

lemma text_bits_append [simp]: "text_bits (s @ t) = text_bits s @ text_bits t"
  by (simp add: text_bits_def)

lemma text_bits_Nil [simp]: "text_bits [] = []"
  by (simp add: text_bits_def)

lemma text_bits_Cons: "text_bits (c # s) = pend (value_of c) 5 @ text_bits s"
  by (simp add: text_bits_def)

lemma byte_bits_append [simp]: "byte_bits (s @ t) = byte_bits s @ byte_bits t"
  by (simp add: byte_bits_def)

lemma byte_bits_Nil [simp]: "byte_bits [] = []"
  by (simp add: byte_bits_def)

lemma byte_bits_Cons: "byte_bits (c # s) = pend c 8 @ byte_bits s"
  by (simp add: byte_bits_def)

lemma length_byte_bits [simp]: "length (byte_bits bs) = 8 * length bs"
  by (induction bs) (simp_all add: byte_bits_Cons)

lemma length_text_bits [simp]: "length (text_bits s) = 5 * length s"
  by (induction s) (simp_all add: text_bits_Cons)

lemma byte_bits_inject: "byte_bits a = byte_bits b \<Longrightarrow> length a = length b \<Longrightarrow> a = b"
proof (induction a b rule: list_induct2')
  case (4 x xs y ys)
  then show ?case using pend_inj [of x y] by (auto simp: byte_bits_Cons)
qed auto

lemma alpha_values:
  "list_all (\<lambda>v. crockford_value (crockford_alpha ! v) = Some v) [0..<32]"
  by code_simp

lemma crockford_value_nth: "v < 32 \<Longrightarrow> crockford_value (crockford_alpha ! v) = Some v"
  using alpha_values by (simp add: list_all_iff)

lemma low5_less: "unat (w AND 0x1f :: u32) < 32"
proof -
  have "w AND 0x1f = take_bit 5 w"
    by (simp add: take_bit_eq_mask mask_numeral)
  then have "unat (w AND 0x1f) = take_bit 5 (unat w)" by (simp add: unsigned_take_bit_eq)
  then show ?thesis by (simp add: take_bit_eq_mod)
qed

lemma low5_bits: "pend (w AND 0x1f :: u32) 5 = pend w 5"
proof -
  have "w AND 0x1f = take_bit 5 w" by (simp add: take_bit_eq_mask mask_numeral)
  then show ?thesis by (intro pend_cong) (simp add: bit_take_bit_iff)
qed

lemma value_of_alpha: "value_of (crockford_alpha ! unat (w AND 0x1f)) = w AND 0x1f"
  using low5_less [of w] by (simp add: value_of_def crockford_value_nth)

lemma text_bits_alpha: "text_bits [crockford_alpha ! unat (w AND 0x1f)] = pend (w :: u32) 5"
  by (simp only: text_bits_def value_of_alpha low5_bits list.map concat.simps append_Nil2)

lemma cf_flush_bits:
  "bits \<le> 32 \<Longrightarrow> cf_flush acc bits sb = (sb', bits') \<Longrightarrow>
     text_bits sb' @ pend acc bits' = text_bits sb @ pend acc bits \<and> bits' < 5 \<and>
     (\<exists>vs. sb' = sb @ map (\<lambda>v. crockford_alpha ! v) vs \<and> list_all (\<lambda>v. v < 32) vs)"
proof (induction acc bits sb arbitrary: sb' bits' rule: cf_flush.induct)
  case (1 acc bits sb)
  show ?case
  proof (cases "5 \<le> bits")
    case True
    define w where "w = drop_bit (bits - 5) acc"
    have step: "cf_flush acc (bits - 5) (sb @ [crockford_alpha ! unat (w AND 0x1f)]) = (sb', bits')"
      using 1(3) True unfolding w_def by (subst (asm) cf_flush.simps) simp
    have IH: "text_bits sb' @ pend acc bits' = text_bits (sb @ [crockford_alpha ! unat (w AND 0x1f)]) @ pend acc (bits - 5)"
      "bits' < 5"
      "\<exists>vs. sb' = (sb @ [crockford_alpha ! unat (w AND 0x1f)]) @ map (\<lambda>v. crockford_alpha ! v) vs \<and> list_all (\<lambda>v. v < 32) vs"
      using 1(1) [OF True, folded w_def, OF _ step] 1(2) by auto
    have "pend acc bits = pend w 5 @ pend acc (bits - 5)"
      using pend_split [of "bits - 5" bits acc] True 1(2) by (simp add: w_def)
    moreover obtain vs where "sb' = sb @ map (\<lambda>v. crockford_alpha ! v) (unat (w AND 0x1f) # vs)"
      "list_all (\<lambda>v. v < 32) vs" using IH(3) by auto
    ultimately show ?thesis
      using IH(1,2) low5_less [of w] by (auto simp: text_bits_alpha intro!: exI [of _ "unat (w AND 0x1f) # vs"])
  next
    case False
    then show ?thesis using 1(3) by (subst (asm) cf_flush.simps) (auto intro: exI [of _ "[]"])
  qed
qed


lemma cf_loop_bits:
  "bits < 5 \<Longrightarrow> cf_loop b acc bits sb = (acc', bits', sb') \<Longrightarrow>
     text_bits sb' @ pend acc' bits' = text_bits sb @ pend acc bits @ byte_bits b \<and> bits' < 5 \<and>
     (\<exists>vs. sb' = sb @ map (\<lambda>v. crockford_alpha ! v) vs \<and> list_all (\<lambda>v. v < 32) vs)"
proof (induction b arbitrary: acc bits sb)
  case Nil
  then show ?case by (auto intro: exI [of _ "[]"])
next
  case (Cons x b)
  define a where "a = push_bit 8 acc OR ucast x"
  obtain sb1 bits1 where fl: "cf_flush a (bits + 8) sb = (sb1, bits1)" by fastforce
  have "pend a (bits + 8) = pend acc bits @ pend x 8"
    unfolding a_def using Cons.prems(1)
    by (intro pend_shift_or) (auto simp: bit_unsigned_iff dest: bit_imp_le_length)
  moreover have "bits + 8 \<le> 32" using Cons.prems(1) by simp
  note F = cf_flush_bits [OF this fl]
  have l: "cf_loop b a bits1 sb1 = (acc', bits', sb')"
    using Cons.prems(2) fl by (simp add: a_def)
  have "bits1 < 5" using F by simp
  note IH = Cons.IH [OF this l]
  obtain vs where "sb1 = sb @ map (\<lambda>v. crockford_alpha ! v) vs" "list_all (\<lambda>v. v < 32) vs"
    using F by blast
  moreover obtain ws where "sb' = sb1 @ map (\<lambda>v. crockford_alpha ! v) ws" "list_all (\<lambda>v. v < 32) ws"
    using IH by blast
  ultimately show ?case
    using F IH by (auto simp: byte_bits_Cons intro!: exI [of _ "vs @ ws"])
qed

lemma crockford_encode_bits:
  obtains pad vs where
    "text_bits (crockford_encode b) = byte_bits b @ pad" "length pad < 5"
    "crockford_encode b = map (\<lambda>v. crockford_alpha ! v) vs" "list_all (\<lambda>v. v < 32) vs"
proof -
  obtain acc bits sb where l: "cf_loop b 0 0 [] = (acc, bits, sb)" by (metis prod_cases3)
  note L = cf_loop_bits [OF _ l, simplified]
  then obtain vs where vs: "sb = map (\<lambda>v. crockford_alpha ! v) vs" "list_all (\<lambda>v. v < 32) vs"
    by auto
  show thesis
  proof (cases "0 < bits")
    case True
    define w where "w = push_bit (5 - bits) acc"
    have b5: "bits < 5" using L by simp
    have "pend w 5 = pend (drop_bit (5 - bits) w) bits @ pend w (5 - bits)"
      using pend_split [of "5 - bits" 5 w] b5 by simp
    also have "pend (drop_bit (5 - bits) w) bits = pend acc bits"
      using b5 by (intro pend_cong) (auto simp: w_def bit_drop_bit_eq bit_push_bit_iff)
    finally have w: "pend w 5 = pend acc bits @ pend w (5 - bits)" .
    have e: "crockford_encode b = sb @ [crockford_alpha ! unat (w AND 0x1f)]"
      using l True by (simp add: crockford_encode_def w_def)
    show thesis
    proof (rule that [of "pend w (5 - bits)" "vs @ [unat (w AND 0x1f)]"])
      have "text_bits (crockford_encode b) = text_bits sb @ pend w 5"
        by (simp only: e text_bits_append text_bits_alpha)
      then show "text_bits (crockford_encode b) = byte_bits b @ pend w (5 - bits)"
        using L w by simp
    qed (use e vs True low5_less in auto)
  next
    case False
    then have "crockford_encode b = sb" using l by (simp add: crockford_encode_def)
    then show thesis using that [of "[]" vs] L False vs by simp
  qed
qed

subsection \<open>The decoder reads them back in groups of eight\<close>

lemma cf_dec_loop_bits:
  assumes "list_all (\<lambda>v. v < 32) vs" and "bits < 8"
    and "length out * 8 + bits + 5 * length vs < 33 * 8"
  shows "\<exists>out' rest. cf_dec_loop (map (\<lambda>v. crockford_alpha ! v) vs) acc bits out = Inr out' \<and>
           length rest < 8 \<and>
           byte_bits out' @ rest =
             byte_bits out @ pend acc bits @ text_bits (map (\<lambda>v. crockford_alpha ! v) vs)"
  using assms
proof (induction vs arbitrary: acc bits out)
  case Nil
  then show ?case by auto
next
  case (Cons v vs)
  define a where "a = push_bit 5 acc OR (of_nat v :: u32)"
  have v: "v < 32" and cv: "crockford_value (crockford_alpha ! v) = Some v"
    using Cons.prems(1) crockford_value_nth by auto
  have "bit (of_nat v :: u32) i \<longleftrightarrow> i < 5 \<and> bit (of_nat v :: u32) i" for i
  proof -
    have "(of_nat v :: u32) = take_bit 5 (of_nat v)"
      using v by (simp add: take_bit_of_nat flip: of_nat_take_bit) (simp add: take_bit_nat_eq_self)
    then show ?thesis by (metis bit_take_bit_iff)
  qed
  then have a: "pend a (bits + 5) = pend acc bits @ pend (of_nat v :: u32) 5"
    unfolding a_def using Cons.prems(2) by (intro pend_shift_or) auto
  have tb: "text_bits (crockford_alpha ! v # map (\<lambda>v. crockford_alpha ! v) vs) =
      pend (of_nat v :: u32) 5 @ text_bits (map (\<lambda>v. crockford_alpha ! v) vs)"
    by (simp add: text_bits_Cons value_of_def cv)
  show ?case
  proof (cases "8 \<le> bits + 5")
    case True
    have "pend a (bits + 5) = pend (drop_bit (bits - 3) a) 8 @ pend a (bits - 3)"
      using pend_split [of "bits - 3" "bits + 5" a] Cons.prems(2) True by simp
    moreover have "pend (drop_bit (bits - 3) a) 8 = pend (ucast (drop_bit (bits - 3) a) :: byte) 8"
      by (intro pend_cong) (simp add: bit_unsigned_iff)
    ultimately have p: "pend acc bits @ pend (of_nat v :: u32) 5 =
        pend (ucast (drop_bit (bits - 3) a) :: byte) 8 @ pend a (bits - 3)"
      using a by simp
    have "cf_dec_loop (map (\<lambda>v. crockford_alpha ! v) (v # vs)) acc bits out =
        cf_dec_loop (map (\<lambda>v. crockford_alpha ! v) vs) a (bits - 3)
          (out @ [ucast (drop_bit (bits - 3) a)])"
      using Cons.prems(3) True cv by (simp add: Let_def a_def)
    moreover have "bits - 3 < 8" using Cons.prems(2) by simp
    moreover from this obtain out' rest where "cf_dec_loop (map (\<lambda>v. crockford_alpha ! v) vs) a (bits - 3)
          (out @ [ucast (drop_bit (bits - 3) a)]) = Inr out'" and r: "length rest < 8"
        "byte_bits out' @ rest = byte_bits (out @ [ucast (drop_bit (bits - 3) a)]) @
           pend a (bits - 3) @ text_bits (map (\<lambda>v. crockford_alpha ! v) vs)"
      using Cons.IH [of "bits - 3" "out @ [ucast (drop_bit (bits - 3) a)]" a] Cons.prems True by auto
    moreover have "byte_bits out' @ rest = byte_bits out @ pend acc bits @
        text_bits (crockford_alpha ! v # map (\<lambda>v. crockford_alpha ! v) vs)"
      unfolding tb r(2) using p by (simp add: byte_bits_Cons flip: append_assoc)
    ultimately show ?thesis by auto
  next
    case False
    then show ?thesis
      using Cons.IH [of "bits + 5" out a] Cons.prems a cv by (auto simp: tb a_def)
  qed
qed

lemma decode_encode_address:
  assumes "length digest = 32"
  shows "decode_address (encode_address digest) = Inr digest"
proof -
  obtain pad vs where p: "text_bits (crockford_encode digest) = byte_bits digest @ pad" "length pad < 5"
    "crockford_encode digest = map (\<lambda>v. crockford_alpha ! v) vs" "list_all (\<lambda>v. v < 32) vs"
    by (rule crockford_encode_bits)
  have "5 * length (crockford_encode digest) = 256 + length pad"
    using arg_cong [OF p(1), of length] assms by simp
  then have len: "length (crockford_encode digest) = 52" using p(2) by presburger
  then have "length vs = 52" using p(3) by simp
  then obtain out rest where d: "cf_dec_loop (crockford_encode digest) 0 0 [] = Inr out"
    "length rest < 8" "byte_bits out @ rest = byte_bits digest @ pad"
    using cf_dec_loop_bits [OF p(4), of 0 "[]" 0] p(1,3) by auto
  have "8 * length out + length rest = 256 + length pad"
    using arg_cong [OF d(3), of length] assms by simp
  then have lo: "length out = 32" using p(2) d(2) by presburger
  then have "byte_bits out = byte_bits digest"
    using d(3) assms by (simp add: append_eq_append_conv)
  then have "out = digest" using byte_bits_inject lo assms by simp
  then show ?thesis using d(1) len lo
    by (simp add: decode_address_def encode_address_def addr_prefix_def address_body_chars_def)
qed

subsection \<open>What an address promises\<close>

definition digest_input :: "node \<Rightarrow> bytes" where
  "digest_input n = domain_bytes @ encode_node n"

lemma address_digest: "decode_address (address n) = Inr (sha256 (digest_input n))"
  by (simp add: address_def digest_input_def decode_encode_address)

lemma digest_input_inject: "wf_node a \<Longrightarrow> wf_node b \<Longrightarrow> digest_input a = digest_input b \<Longrightarrow> a = b"
  by (simp add: digest_input_def encode_node_inject)

text \<open>C1: an address identifies its tree.  Two encodable trees with the same content address are
  the same tree, unless the two byte strings that were hashed are an explicit SHA-256 collision;
  the base32 text itself never identifies two digests.\<close>

theorem address_identifies:
  assumes "wf_node a" and "wf_node b" and "address a = address b"
  shows "a = b \<or> (digest_input a \<noteq> digest_input b \<and> sha256 (digest_input a) = sha256 (digest_input b))"
proof -
  have "Inr (sha256 (digest_input a)) = (Inr (sha256 (digest_input b)) :: addr_error + bytes)"
    using assms(3) address_digest by metis
  then show ?thesis using digest_input_inject [OF assms(1,2)] by auto
qed

lemma address_identifies_witness:
  "(let n = Node TArray [] 0 [] [Node TKeyword ''string'' 0 [] []] in
     n = n \<or> (digest_input n \<noteq> digest_input n \<and> sha256 (digest_input n) = sha256 (digest_input n)))"
  unfolding Let_def
  by (rule address_identifies) (code_simp, code_simp, rule refl)

text \<open>An address does not depend on the order in which the members of a union, an intersection
  or an object type are written: any permutation of them normalizes to the same tree and so gets the
  same address, and the normalized tree is a fixed point of normalization.\<close>

theorem address_member_order:
  assumes "k \<in> {TUnion, TInter, TObject}" and "mset ms = mset ms'" and "list_all wf_node ms"
  shows "normalize_and_address (Node k s u mag (list_node ms # rest))
           = normalize_and_address (Node k s u mag (list_node ms' # rest))
       \<and> normalize (fst (normalize_and_address (Node k s u mag (list_node ms # rest))))
           = fst (normalize_and_address (Node k s u mag (list_node ms # rest)))"
proof -
  have "sort_index k = Some 0" using assms(1) by (auto simp: sort_index_def)
  from normalize_members_perm [OF this assms(2,3)] show ?thesis
    by (simp add: normalize_and_address_def Let_def normalize_idem del: normalize_sort_index)
qed

lemma address_member_order_witness:
  "(let a = Node TKeyword ''string'' 0 [] []; b = Node TKeyword ''number'' 0 [] [] in
     normalize_and_address (Node TUnion [] 0 [] [list_node [a, b]])
       = normalize_and_address (Node TUnion [] 0 [] [list_node [b, a]])
     \<and> normalize (fst (normalize_and_address (Node TUnion [] 0 [] [list_node [a, b]])))
       = fst (normalize_and_address (Node TUnion [] 0 [] [list_node [a, b]])))"
  unfolding Let_def
  by (rule address_member_order [where rest = "[]"]) (simp, simp, code_simp)

end
