(* ===== verification/Rast_Theorems.thy ===== *)
theory Rast_Theorems
  imports Rast_Address
begin

section \<open>Properties of the regel-AST codec\<close>

text \<open>
  The round trips and canonical forms of \<open>internal/rast\<close>, stated over the lemmas of the component
  theories.
\<close>

text \<open>C19: the canonical decoder reads back every well-formed tree from its encoding and takes the
  whole of it; two well-formed trees with the same encoding are equal.\<close>

theorem canonical_codec_roundtrip:
  assumes "wf_node n"
  shows "decode_node (encode_node n) = Some n \<and> (\<forall>m. wf_node m \<longrightarrow> encode_node m = encode_node n \<longrightarrow> m = n)"
  using assms decode_encode encode_node_inject by blast

lemma canonical_codec_roundtrip_witness:
  "decode_node (encode_node (Node KReturn [] 0 [] [Node KStr ''a'' 0 [] []])) = Some (Node KReturn [] 0 [] [Node KStr ''a'' 0 [] []])"
proof -
  have "wf_node (Node KReturn [] 0 [] [Node KStr ''a'' 0 [] []])" by code_simp
  from canonical_codec_roundtrip [OF this] show ?thesis by blast
qed

text \<open>C20: \<open>Normalize\<close> gives a normal form: it is idempotent, leaves normal trees alone and keeps trees
  well-formed.\<close>

theorem normalize_normal_form:
  "is_normal (normalize n) \<and> normalize (normalize n) = normalize n \<and> (is_normal n \<longrightarrow> normalize n = n) \<and>
   (wf_node n \<longrightarrow> wf_node (normalize n))"
  using normalize_is_normal normalize_idem normalize_normal wf_normalize by blast

lemma normalize_normal_form_witness:
  "normalize (Node KReturn [] 0 [] [none_node]) = Node KReturn [] 0 [] [none_node]"
proof -
  have "is_normal (Node KReturn [] 0 [] [none_node])" by code_simp
  with normalize_normal_form [of "Node KReturn [] 0 [] [none_node]"] show ?thesis by blast
qed

text \<open>An address parses back to the digest it was made from.\<close>

theorem address_roundtrip:
  assumes "length digest = 32"
  shows "decode_address (encode_address digest) = Inr digest"
  using assms by (rule decode_encode_address)

lemma address_roundtrip_witness: "decode_address (encode_address (replicate 32 7)) = Inr (replicate 32 7)"
  by (rule address_roundtrip) simp

end
