(* ===== verification/Go_Float.thy ===== *)
theory Go_Float
  imports Regel_Prelude
begin

section \<open>float64\<close>

text \<open>
  The IEEE 754 double of Go, kept as its 64 bits (\<open>math.Float64bits\<close>), and the operations the
  evaluator applies to it: the four arithmetic operators and the conversions, each the exact
  rational result rounded to nearest, ties to even; \<open>math.Mod\<close>, \<open>math.Trunc\<close>, \<open>math.Abs\<close> and the
  comparisons, which are exact.  An operation whose result is not a number returns the bits of
  \<open>math.NaN()\<close>: Go leaves the payload of a computed NaN open.  Two things stay parameters, in the
  record \<open>golib\<close>: \<open>math.Pow\<close>, which Go does not specify to the last bit, and the value of a
  conversion \<open>int64(f)\<close> that does not fit, which the language leaves to the implementation.
\<close>

type_synonym f64 = "64 word"

record golib =
  gl_pow :: "f64 \<Rightarrow> f64 \<Rightarrow> f64"
  gl_f2i :: "f64 \<Rightarrow> i64"

subsection \<open>Fields\<close>

definition f_neg :: "f64 \<Rightarrow> bool" where
  "f_neg w = bit w 63"

definition f_exp :: "f64 \<Rightarrow> int" where
  "f_exp w = uint w div 2 ^ 52 mod 2 ^ 11"

definition f_man :: "f64 \<Rightarrow> int" where
  "f_man w = uint w mod 2 ^ 52"

definition f_nan :: f64 where "f_nan = 0x7FF8000000000001"

definition f_inf :: "bool \<Rightarrow> f64" where
  "f_inf neg = (if neg then 0xFFF0000000000000 else 0x7FF0000000000000)"

definition f_zero :: "bool \<Rightarrow> f64" where
  "f_zero neg = (if neg then 0x8000000000000000 else 0)"

definition is_nan :: "f64 \<Rightarrow> bool" where
  "is_nan w \<longleftrightarrow> f_exp w = 2047 \<and> f_man w \<noteq> 0"

definition is_inf :: "f64 \<Rightarrow> bool" where
  "is_inf w \<longleftrightarrow> f_exp w = 2047 \<and> f_man w = 0"

definition is_zero :: "f64 \<Rightarrow> bool" where
  "is_zero w \<longleftrightarrow> f_exp w = 0 \<and> f_man w = 0"

text \<open>A finite value is \<open>f_mant w * 2 ^ f_scale w\<close>.\<close>

definition f_mag :: "f64 \<Rightarrow> int" where
  "f_mag w = (if f_exp w = 0 then f_man w else f_man w + 2 ^ 52)"

definition f_mant :: "f64 \<Rightarrow> int" where
  "f_mant w = (if f_neg w then - f_mag w else f_mag w)"

definition f_scale :: "f64 \<Rightarrow> int" where
  "f_scale w = max (f_exp w) 1 - 1075"

definition two_pow :: "int \<Rightarrow> int" where
  "two_pow e = (if 0 \<le> e then 2 ^ nat e else 1)"

subsection \<open>Rounding\<close>

function bit_length :: "int \<Rightarrow> int" where
  "bit_length n = (if n \<le> 0 then 0 else 1 + bit_length (n div 2))"
  by auto
termination by (relation "measure nat") auto

declare bit_length.simps [simp del]

text \<open>
  \<open>round_ratio neg n d\<close> is the double nearest to \<open>n / d\<close> (\<open>0 \<le> n\<close>, \<open>0 < d\<close>), ties to even, with the
  given sign.  The exponent \<open>e\<close> puts the quotient in \<open>2 ^ 52 .. 2 ^ 53\<close>, or is the subnormal one;
  a carry out of the significand moves into the exponent field by itself.
\<close>

definition ratio_exp :: "int \<Rightarrow> int \<Rightarrow> int" where
  "ratio_exp n d =
     (let e = bit_length n - bit_length d - 53;
          q = n * two_pow (- e) div (d * two_pow e)
      in max (if 2 ^ 53 \<le> q then e + 1 else e) (- 1074))"

definition round_even :: "int \<Rightarrow> int \<Rightarrow> int" where
  "round_even n d =
     (let q = n div d; r = n mod d
      in if d < 2 * r \<or> (d = 2 * r \<and> odd q) then q + 1 else q)"

definition round_ratio :: "bool \<Rightarrow> int \<Rightarrow> int \<Rightarrow> f64" where
  "round_ratio neg n d =
     (if n = 0 then f_zero neg
      else let e = ratio_exp n d;
               q = round_even (n * two_pow (- e)) (d * two_pow e);
               w = (e + 1074) * 2 ^ 52 + q
        in if 2047 * 2 ^ 52 \<le> w then f_inf neg
           else f_zero neg OR word_of_int w)"

definition round_scaled :: "int \<Rightarrow> int \<Rightarrow> f64" where
  "round_scaled m e = round_ratio (m < 0) (\<bar>m\<bar> * two_pow e) (two_pow (- e))"

definition f_of_int :: "int \<Rightarrow> f64" where
  "f_of_int i = round_ratio (i < 0) \<bar>i\<bar> 1"

subsection \<open>Arithmetic\<close>

definition fneg :: "f64 \<Rightarrow> f64" where
  "fneg w = w XOR 0x8000000000000000"

definition fabs :: "f64 \<Rightarrow> f64" where
  "fabs w = w AND 0x7FFFFFFFFFFFFFFF"

definition fadd :: "f64 \<Rightarrow> f64 \<Rightarrow> f64" where
  "fadd x y =
     (if is_nan x \<or> is_nan y then f_nan
      else if is_inf x then (if is_inf y \<and> f_neg x \<noteq> f_neg y then f_nan else x)
      else if is_inf y then y
      else let e = min (f_scale x) (f_scale y);
               s = f_mant x * two_pow (f_scale x - e) + f_mant y * two_pow (f_scale y - e)
        in if s = 0 then f_zero (f_neg x \<and> f_neg y) else round_scaled s e)"

definition fsub :: "f64 \<Rightarrow> f64 \<Rightarrow> f64" where
  "fsub x y = fadd x (fneg y)"

definition fmul :: "f64 \<Rightarrow> f64 \<Rightarrow> f64" where
  "fmul x y =
     (let neg = (f_neg x \<noteq> f_neg y) in
      if is_nan x \<or> is_nan y then f_nan
      else if is_inf x \<or> is_inf y then
        (if is_zero x \<or> is_zero y then f_nan else f_inf neg)
      else if is_zero x \<or> is_zero y then f_zero neg
      else round_scaled (f_mant x * f_mant y) (f_scale x + f_scale y))"

definition fdiv :: "f64 \<Rightarrow> f64 \<Rightarrow> f64" where
  "fdiv x y =
     (let neg = (f_neg x \<noteq> f_neg y) in
      if is_nan x \<or> is_nan y then f_nan
      else if is_inf x then (if is_inf y then f_nan else f_inf neg)
      else if is_inf y then f_zero neg
      else if is_zero y then (if is_zero x then f_nan else f_inf neg)
      else let e = f_scale x - f_scale y
        in round_ratio neg (f_mag x * two_pow e) (f_mag y * two_pow (- e)))"

text \<open>\<open>math.Mod\<close>: the remainder of the truncated quotient, exact, with the sign of \<open>x\<close>.\<close>

definition fmod :: "f64 \<Rightarrow> f64 \<Rightarrow> f64" where
  "fmod x y =
     (if is_zero y \<or> is_inf x \<or> is_nan x \<or> is_nan y then f_nan
      else if is_inf y then x
      else let e = min (f_scale x) (f_scale y);
               r = (f_mag x * two_pow (f_scale x - e)) mod (f_mag y * two_pow (f_scale y - e))
        in round_ratio (f_neg x) (r * two_pow e) (two_pow (- e)))"

subsection \<open>Comparison\<close>

definition f_cmp_lt :: "f64 \<Rightarrow> f64 \<Rightarrow> bool" where
  "f_cmp_lt x y =
     (if is_inf x then f_neg x \<and> \<not> (is_inf y \<and> f_neg y)
      else if is_inf y then \<not> f_neg y
      else let e = min (f_scale x) (f_scale y)
        in f_mant x * two_pow (f_scale x - e) < f_mant y * two_pow (f_scale y - e))"

definition flt :: "f64 \<Rightarrow> f64 \<Rightarrow> bool" where
  "flt x y \<longleftrightarrow> \<not> is_nan x \<and> \<not> is_nan y \<and> f_cmp_lt x y"

definition feq :: "f64 \<Rightarrow> f64 \<Rightarrow> bool" where
  "feq x y \<longleftrightarrow> \<not> is_nan x \<and> \<not> is_nan y \<and> (x = y \<or> (is_zero x \<and> is_zero y))"

definition fle :: "f64 \<Rightarrow> f64 \<Rightarrow> bool" where
  "fle x y \<longleftrightarrow> flt x y \<or> feq x y"

subsection \<open>Integers\<close>

text \<open>\<open>f_int w\<close> is the integer part of a finite value, towards zero.\<close>

definition f_int :: "f64 \<Rightarrow> int" where
  "f_int w =
     (let a = f_mag w * two_pow (f_scale w) div two_pow (- f_scale w)
      in if f_neg w then - a else a)"

definition ftrunc :: "f64 \<Rightarrow> f64" where
  "ftrunc w =
     (if is_nan w \<or> is_inf w \<or> is_zero w then w
      else round_ratio (f_neg w) \<bar>f_int w\<bar> 1)"

text \<open>\<open>int64(f)\<close> (and \<open>int(f)\<close>, the same width on the platforms Go runs the server on).\<close>

definition f2i :: "'a golib_scheme \<Rightarrow> f64 \<Rightarrow> i64" where
  "f2i gl w =
     (if is_nan w \<or> is_inf w \<or> f_int w < - (2 ^ 63) \<or> 2 ^ 63 \<le> f_int w then gl_f2i gl w
      else word_of_int (f_int w))"

text \<open>A library for evaluation: \<open>Pow\<close> is never exact here and the conversion is that of amd64.\<close>

definition golib_amd64 :: golib where
  "golib_amd64 = \<lparr>gl_pow = (\<lambda>x y. f_nan), gl_f2i = (\<lambda>w. 0x8000000000000000)\<rparr>"

subsection \<open>Facts the evaluator rests on\<close>

lemma f_exp_range: "0 \<le> f_exp w \<and> f_exp w < 2048"
  by (simp add: f_exp_def)

lemma f_man_range: "0 \<le> f_man w \<and> f_man w < 2 ^ 52"
  by (simp add: f_man_def)

lemma feq_refl: "feq w w \<longleftrightarrow> \<not> is_nan w"
  by (simp add: feq_def)

lemma feq_sym: "feq x y \<longleftrightarrow> feq y x"
  by (auto simp: feq_def)

end
