(* ===== verification/Go_Strconv.thy ===== *)
theory Go_Strconv
  imports Go_Float
begin

section \<open>Numbers and text\<close>

text \<open>
  The parts of Go's \<open>strconv\<close>, \<open>strings\<close> and UTF-8 conversions that the evaluator uses:
  \<open>strconv.Itoa\<close> and \<open>big.Int.String\<close>, \<open>Atoi\<close>, \<open>ParseFloat\<close>, \<open>FormatFloat\<close> with precision \<open>-1\<close> in
  the formats \<open>'f'\<close> and \<open>'g'\<close>, \<open>[]rune(s)\<close> and \<open>string(r)\<close>.
\<close>

subsection \<open>Integers\<close>

definition digit_char :: "int \<Rightarrow> char" where
  "digit_char d = char_of (48 + d)"

function dec_digits :: "int \<Rightarrow> string" where
  "dec_digits n = (if n < 10 then [digit_char n] else dec_digits (n div 10) @ [digit_char (n mod 10)])"
  by auto
termination by (relation "measure nat") auto

declare dec_digits.simps [simp del]

definition int_str :: "int \<Rightarrow> string" where
  "int_str i = (if i < 0 then ''-'' @ dec_digits (- i) else dec_digits i)"

definition is_digit :: "char \<Rightarrow> bool" where
  "is_digit c \<longleftrightarrow> 48 \<le> (of_char c :: int) \<and> (of_char c :: int) \<le> 57"

definition digit_val :: "char \<Rightarrow> int" where
  "digit_val c = of_char c - 48"

definition dec_value :: "string \<Rightarrow> int" where
  "dec_value s = foldl (\<lambda>n c. n * 10 + digit_val c) 0 s"

definition split_sign :: "string \<Rightarrow> bool \<times> string" where
  "split_sign s = (case s of
      [] \<Rightarrow> (False, [])
    | c # r \<Rightarrow> if c = CHR ''-'' then (True, r) else if c = CHR ''+'' then (False, r) else (False, s))"

text \<open>\<open>strconv.Atoi\<close>: \<open>None\<close> is its error.\<close>

definition atoi :: "string \<Rightarrow> int option" where
  "atoi s =
     (case split_sign s of (neg, r) \<Rightarrow>
        if r = [] \<or> \<not> list_all is_digit r then None
        else let v = (if neg then - dec_value r else dec_value r)
          in if - (2 ^ 63) \<le> v \<and> v < 2 ^ 63 then Some v else None)"

lemma digit_char_roundtrip: "0 \<le> d \<Longrightarrow> d < 10 \<Longrightarrow> is_digit (digit_char d) \<and> digit_val (digit_char d) = d"
  by (simp add: is_digit_def digit_val_def digit_char_def)

lemma dec_digits_props:
  "0 \<le> n \<Longrightarrow> list_all is_digit (dec_digits n) \<and> dec_value (dec_digits n) = n \<and> dec_digits n \<noteq> []"
proof (induction n rule: dec_digits.induct)
  case (1 n)
  show ?case
  proof (cases "n < 10")
    case True
    then show ?thesis using 1(2) digit_char_roundtrip [of n]
      by (subst (1 2 3) dec_digits.simps) (simp add: dec_value_def)
  next
    case False
    then have IH: "list_all is_digit (dec_digits (n div 10))" "dec_value (dec_digits (n div 10)) = n div 10"
      using 1 by auto
    then show ?thesis using False digit_char_roundtrip [of "n mod 10"]
      by (subst (1 2 3) dec_digits.simps) (simp add: dec_value_def)
  qed
qed

lemma dec_digits_head: "0 \<le> n \<Longrightarrow> \<exists>c r. dec_digits n = c # r \<and> is_digit c"
  using dec_digits_props [of n] by (cases "dec_digits n") auto

lemma split_sign_digits: "0 \<le> n \<Longrightarrow> split_sign (dec_digits n) = (False, dec_digits n)"
proof -
  assume "0 \<le> n"
  then obtain c r where c: "dec_digits n = c # r" "is_digit c" using dec_digits_head by blast
  then have "c \<noteq> CHR ''-''" "c \<noteq> CHR ''+''" by (auto simp: is_digit_def)
  then show ?thesis by (simp add: c(1) split_sign_def)
qed

lemma atoi_int_str:
  assumes "- (2 ^ 63) \<le> i" and "i < 2 ^ 63"
  shows "atoi (int_str i) = Some i"
proof (cases "i < 0")
  case True
  then have "split_sign (int_str i) = (True, dec_digits (- i))"
    by (simp add: int_str_def split_sign_def)
  moreover have "0 \<le> - i" using True by simp
  note dec_digits_props [OF this]
  ultimately show ?thesis using assms True unfolding atoi_def Let_def by (simp only: case_prod_conv) auto
next
  case False
  then have "split_sign (int_str i) = (False, dec_digits i)"
    by (simp add: int_str_def split_sign_digits)
  moreover have "0 \<le> i" using False by simp
  note dec_digits_props [OF this]
  ultimately show ?thesis using assms False unfolding atoi_def Let_def by (simp only: case_prod_conv) auto
qed

lemma dec_digits_inject: "0 \<le> i \<Longrightarrow> 0 \<le> j \<Longrightarrow> dec_digits i = dec_digits j \<Longrightarrow> i = j"
  by (metis dec_digits_props)

lemma dec_digits_not_minus: "0 \<le> n \<Longrightarrow> dec_digits n \<noteq> CHR ''-'' # r"
  using dec_digits_head [of n] by (auto simp: is_digit_def)

lemma int_str_inject: "int_str i = int_str j \<longleftrightarrow> i = j"
proof
  assume e: "int_str i = int_str j"
  consider "i < 0" "j < 0" | "0 \<le> i" "0 \<le> j" | "i < 0" "0 \<le> j" | "0 \<le> i" "j < 0" by linarith
  then show "i = j"
  proof cases
    case 1
    then show ?thesis using e dec_digits_inject [of "- i" "- j"] by (simp add: int_str_def)
  next
    case 2
    then show ?thesis using e dec_digits_inject [of i j] by (simp add: int_str_def)
  next
    case 3
    then show ?thesis using e dec_digits_not_minus [of j "dec_digits (- i)"] by (simp add: int_str_def)
  next
    case 4
    then show ?thesis using e dec_digits_not_minus [of i "dec_digits (- j)"] by (simp add: int_str_def)
  qed
qed simp

subsection \<open>ParseFloat\<close>

definition lower_char :: "char \<Rightarrow> char" where
  "lower_char c = (let i = (of_char c :: int) in if 65 \<le> i \<and> i \<le> 90 then char_of (i + 32) else c)"

definition lower_ascii :: "string \<Rightarrow> string" where
  "lower_ascii s = map lower_char s"

definition is_hex :: "char \<Rightarrow> bool" where
  "is_hex c \<longleftrightarrow> (let i = (of_char (lower_char c) :: int) in 97 \<le> i \<and> i \<le> 102)"

definition hex_val :: "char \<Rightarrow> int" where
  "hex_val c = (if is_digit c then digit_val c else of_char (lower_char c) - 87)"

fun underscore_scan :: "bool \<Rightarrow> char \<Rightarrow> string \<Rightarrow> bool" where
  "underscore_scan hex i [] \<longleftrightarrow> i \<noteq> CHR ''_''"
| "underscore_scan hex i (c # cs) \<longleftrightarrow>
     (if is_digit c \<or> (hex \<and> is_hex c) then underscore_scan hex (CHR ''0'') cs
      else if c = CHR ''_'' then i = CHR ''0'' \<and> underscore_scan hex (CHR ''_'') cs
      else i \<noteq> CHR ''_'' \<and> underscore_scan hex (CHR ''!'') cs)"

definition underscore_ok :: "string \<Rightarrow> bool" where
  "underscore_ok s =
     (let t = snd (split_sign s) in
      case t of
        c # d # r \<Rightarrow>
          if c = CHR ''0'' \<and> lower_char d \<in> {CHR ''b'', CHR ''o'', CHR ''x''}
          then underscore_scan (lower_char d = CHR ''x'') (CHR ''0'') r
          else underscore_scan False (CHR ''^'') t
      | _ \<Rightarrow> underscore_scan False (CHR ''^'') t)"

text \<open>The digits of a significand: its integer value, the digits after the point, whether a digit
  and whether a point was seen, and the rest of the text.\<close>

fun scan_mant :: "bool \<Rightarrow> string \<Rightarrow> int \<Rightarrow> int \<Rightarrow> bool \<Rightarrow> bool \<Rightarrow> int \<times> int \<times> bool \<times> string" where
  "scan_mant hex [] m f dig dot = (m, f, dig, [])"
| "scan_mant hex (c # cs) m f dig dot =
     (if c = CHR ''_'' then scan_mant hex cs m f dig dot
      else if c = CHR ''.'' then (if dot then (m, f, dig, c # cs) else scan_mant hex cs m f dig True)
      else if is_digit c \<or> (hex \<and> is_hex c) then
        scan_mant hex cs (m * (if hex then 16 else 10) + hex_val c) (if dot then f + 1 else f) True dot
      else (m, f, dig, c # cs))"

fun scan_exp :: "string \<Rightarrow> int \<Rightarrow> int \<times> string" where
  "scan_exp [] e = (e, [])"
| "scan_exp (c # cs) e =
     (if c = CHR ''_'' then scan_exp cs e
      else if is_digit c then scan_exp cs (if e < 10000 then e * 10 + digit_val c else e)
      else (e, c # cs))"

definition parse_exp :: "char \<Rightarrow> string \<Rightarrow> (int option \<times> string) option" where
  "parse_exp ec s = (case s of
      [] \<Rightarrow> Some (None, [])
    | c # r \<Rightarrow> if lower_char c \<noteq> ec then Some (None, s)
        else (case split_sign r of (neg, t) \<Rightarrow>
          (case t of [] \<Rightarrow> None
           | d # _ \<Rightarrow> if is_digit d then (case scan_exp t 0 of (e, u) \<Rightarrow> Some (Some (if neg then - e else e), u))
               else None)))"

definition finite_or_range :: "f64 \<Rightarrow> f64 option" where
  "finite_or_range w = (if is_inf w then None else Some w)"

definition parse_special :: "string \<Rightarrow> f64 option" where
  "parse_special s =
     (let l = lower_ascii s; (neg, r) = split_sign l in
      if r = ''inf'' \<or> r = ''infinity'' then Some (f_inf neg)
      else if l = ''nan'' then Some f_nan else None)"

definition parse_number :: "string \<Rightarrow> f64 option" where
  "parse_number s =
     (case split_sign s of (neg, t) \<Rightarrow>
        let hex = (3 \<le> length t \<and> t ! 0 = CHR ''0'' \<and> lower_char (t ! 1) = CHR ''x'');
            (m, f, dig, r) = scan_mant hex (if hex then drop 2 t else t) 0 0 False False
        in if \<not> dig then None
           else case parse_exp (if hex then CHR ''p'' else CHR ''e'') r of
               None \<Rightarrow> None
             | Some (e, u) \<Rightarrow>
                 if u \<noteq> [] \<or> (CHR ''_'' \<in> set s \<and> \<not> underscore_ok s) \<or> (hex \<and> e = None) then None
                 else let k = (case e of None \<Rightarrow> 0 | Some k \<Rightarrow> k) in
                   if hex then finite_or_range (round_ratio neg (m * two_pow (k - 4 * f)) (two_pow (4 * f - k)))
                   else let p = k - f in
                     finite_or_range (round_ratio neg (m * 10 ^ nat p) (10 ^ nat (- p))))"

definition parse_float :: "string \<Rightarrow> f64 option" where
  "parse_float s = (case parse_special s of Some w \<Rightarrow> Some w | None \<Rightarrow> parse_number s)"

subsection \<open>FormatFloat with the shortest digits\<close>

text \<open>
  \<open>short_try x n\<close> looks for the \<open>n\<close>-digit decimal closest to \<open>x\<close> that reads back as \<open>x\<close>;
  \<open>short_dec\<close> takes the first \<open>n\<close> that has one (17 digits always do).  A decimal \<open>(c, k)\<close> is
  \<open>c * 10 ^ k\<close>.
\<close>

definition ten_pow :: "int \<Rightarrow> int" where
  "ten_pow e = (if 0 \<le> e then 10 ^ nat e else 1)"

definition f_num :: "f64 \<Rightarrow> int" where
  "f_num x = f_mag x * two_pow (f_scale x)"

definition f_den :: "f64 \<Rightarrow> int" where
  "f_den x = two_pow (- f_scale x)"

definition reads_back :: "f64 \<Rightarrow> int \<Rightarrow> int \<Rightarrow> bool" where
  "reads_back x c k \<longleftrightarrow> round_ratio False (c * ten_pow k) (ten_pow (- k)) = fabs x"

function int_digits_count :: "int \<Rightarrow> int" where
  "int_digits_count n = (if n < 10 then 1 else 1 + int_digits_count (n div 10))"
  by auto
termination by (relation "measure nat") auto

declare int_digits_count.simps [simp del]

text \<open>The decimal exponent: \<open>10 ^ (dec_exp x - 1) \<le> x < 10 ^ dec_exp x\<close>.\<close>

definition dec_exp :: "f64 \<Rightarrow> int" where
  "dec_exp x =
     (let n = f_num x; d = f_den x in
      if d \<le> n then int_digits_count (n div d)
      else let j = int_digits_count (d div n) in
        if d \<le> n * 10 ^ nat (j - 1) then 2 - j else 1 - j)"

definition short_try :: "f64 \<Rightarrow> int \<Rightarrow> (int \<times> int) option" where
  "short_try x n =
     (let k = dec_exp x - n;
          a = f_num x * ten_pow (- k); b = f_den x * ten_pow k;
          lo = a div b; r = a mod b; hi = lo + 1;
          first = (if 2 * r < b \<or> (2 * r = b \<and> even lo) then lo else hi);
          second = (if first = lo then hi else lo)
      in if reads_back x first k then Some (first, k)
         else if reads_back x second k then Some (second, k)
         else None)"

fun short_from :: "f64 \<Rightarrow> int list \<Rightarrow> int \<times> int" where
  "short_from x [] = (0, 0)"
| "short_from x (n # ns) = (case short_try x n of Some p \<Rightarrow> p | None \<Rightarrow> short_from x ns)"

definition short_dec :: "f64 \<Rightarrow> int \<times> int" where
  "short_dec x = short_from x [1..17]"

fun strip_zeros :: "string \<Rightarrow> string" where
  "strip_zeros [] = []"
| "strip_zeros (c # cs) = (let r = strip_zeros cs in if r = [] \<and> c = CHR ''0'' then [] else c # r)"

text \<open>The digits without trailing zeros and the position of the decimal point.\<close>

definition short_digits :: "f64 \<Rightarrow> string \<times> int" where
  "short_digits x =
     (if is_zero x then ([], 0)
      else case short_dec x of (c, k) \<Rightarrow>
        let s = dec_digits c in (strip_zeros s, int (length s) + k))"

definition fmt_f :: "string \<Rightarrow> int \<Rightarrow> string" where
  "fmt_f ds dp =
     (let nd = int (length ds);
          ip = (if 0 < dp then take (nat dp) ds @ replicate (nat (dp - nd)) (CHR ''0'') else ''0'');
          fp = (if dp < 0 then replicate (nat (- dp)) (CHR ''0'') @ ds else drop (nat dp) ds)
      in if dp < nd then ip @ ''.'' @ fp else ip)"

definition fmt_e :: "string \<Rightarrow> int \<Rightarrow> string" where
  "fmt_e ds dp =
     (let e = (if ds = [] then 0 else dp - 1); x = int_str \<bar>e\<bar>
      in (if ds = [] then ''0'' else [hd ds]) @ (if 1 < length ds then ''.'' @ tl ds else [])
         @ ''e'' @ (if e < 0 then ''-'' else ''+'') @ (if \<bar>e\<bar> < 10 then ''0'' @ x else x))"

definition format_f :: "f64 \<Rightarrow> string" where
  "format_f x = (case short_digits x of (ds, dp) \<Rightarrow>
     (if f_neg x then ''-'' else []) @ fmt_f ds dp)"

text \<open>Format \<open>'g'\<close> with precision \<open>-1\<close>: Go decides between the exponent form and the plain form
  with the precision 6, however many digits the shortest text has.\<close>

definition format_g :: "f64 \<Rightarrow> string" where
  "format_g x = (case short_digits x of (ds, dp) \<Rightarrow>
     (if f_neg x then ''-'' else []) @
     (if dp - 1 < -4 \<or> 6 \<le> dp - 1 then fmt_e ds dp else fmt_f ds dp))"

subsection \<open>Runes\<close>

definition cont_byte :: "byte \<Rightarrow> bool" where
  "cont_byte b \<longleftrightarrow> 0x80 \<le> b \<and> b \<le> 0xBF"

definition rune_error :: int where "rune_error = 0xFFFD"

text \<open>The second byte's range depends on the first (\<open>utf8.acceptRanges\<close>).\<close>

definition second_ok :: "byte \<Rightarrow> byte \<Rightarrow> bool" where
  "second_ok a b \<longleftrightarrow>
     (if a = 0xE0 then 0xA0 \<le> b \<and> b \<le> 0xBF
      else if a = 0xED then 0x80 \<le> b \<and> b \<le> 0x9F
      else if a = 0xF0 then 0x90 \<le> b \<and> b \<le> 0xBF
      else if a = 0xF4 then 0x80 \<le> b \<and> b \<le> 0x8F
      else cont_byte b)"

definition low6 :: "byte \<Rightarrow> int" where
  "low6 b = uint b mod 64"

text \<open>\<open>utf8.DecodeRune\<close>: the rune and the number of bytes it takes.\<close>

definition decode_rune :: "bytes \<Rightarrow> int \<times> nat" where
  "decode_rune bs = (case bs of
      [] \<Rightarrow> (rune_error, 0)
    | a # r \<Rightarrow>
        if a < 0x80 then (uint a, 1)
        else if 0xC2 \<le> a \<and> a \<le> 0xDF then
          (case r of b # _ \<Rightarrow> if cont_byte b then (uint a mod 32 * 64 + low6 b, 2) else (rune_error, 1)
                   | _ \<Rightarrow> (rune_error, 1))
        else if 0xE0 \<le> a \<and> a \<le> 0xEF then
          (case r of b # c # _ \<Rightarrow>
              if second_ok a b \<and> cont_byte c then (uint a mod 16 * 4096 + low6 b * 64 + low6 c, 3)
              else (rune_error, 1)
            | _ \<Rightarrow> (rune_error, 1))
        else if 0xF0 \<le> a \<and> a \<le> 0xF4 then
          (case r of b # c # d # _ \<Rightarrow>
              if second_ok a b \<and> cont_byte c \<and> cont_byte d
              then (uint a mod 8 * 262144 + low6 b * 4096 + low6 c * 64 + low6 d, 4)
              else (rune_error, 1)
            | _ \<Rightarrow> (rune_error, 1))
        else (rune_error, 1))"

fun runes_from :: "nat \<Rightarrow> bytes \<Rightarrow> int list" where
  "runes_from 0 bs = []"
| "runes_from (Suc n) bs = (if bs = [] then [] else
     case decode_rune bs of (r, w) \<Rightarrow> r # runes_from n (drop w bs))"

definition runes_of :: "string \<Rightarrow> int list" where
  "runes_of s = (let bs = bytes_of s in runes_from (length bs) bs)"

definition rune_bytes :: "int \<Rightarrow> bytes" where
  "rune_bytes r0 =
     (let r = (if 0 \<le> r0 \<and> r0 \<le> 0x10FFFF \<and> \<not> (0xD800 \<le> r0 \<and> r0 \<le> 0xDFFF) then r0 else rune_error)
      in map word_of_int
        (if r < 0x80 then [r]
         else if r < 0x800 then [0xC0 + r div 64, 0x80 + r mod 64]
         else if r < 0x10000 then [0xE0 + r div 4096, 0x80 + r div 64 mod 64, 0x80 + r mod 64]
         else [0xF0 + r div 262144, 0x80 + r div 4096 mod 64, 0x80 + r div 64 mod 64, 0x80 + r mod 64]))"

definition rune_str :: "int \<Rightarrow> string" where
  "rune_str r = str_of (rune_bytes r)"

end
