(* ===== verification/Cek_Value.thy ===== *)
theory Cek_Value
  imports Rast_Address Go_Strconv
begin

section \<open>Values, the heap and environments\<close>

text \<open>
  \<open>internal/cek/value.go\<close>, \<open>env.go\<close> and \<open>props.go\<close>.  A \<open>Value\<close> is the closed tagged union of the
  code.  What Go reaches through a pointer that the program can mutate or share (arrays, records,
  activation records) lives in a \<open>heap\<close> and a value holds its address; a closure or an opaque
  handle is immutable, so the value carries its fields together with the identity of its object,
  which is what \<open>===\<close> compares.  A big integer is compared by value everywhere and is an \<open>int\<close>.
  \<open>None\<close> is a Go panic (a nil dereference, an index out of range) or a call that does not return.
\<close>

subsection \<open>Paths\<close>

type_synonym path = "u16 list"

definition child :: "path \<Rightarrow> int \<Rightarrow> path" where
  "child p i = p @ [word_of_int i]"

fun navigate :: "node \<Rightarrow> path \<Rightarrow> node option" where
  "navigate n [] = Some n"
| "navigate n (i # p) =
     (if length (nkids n) \<le> unat i then None else navigate (nkids n ! unat i) p)"

definition kid_i :: "node \<Rightarrow> int \<Rightarrow> node option" where
  "kid_i n i = nth_i (nkids n) i"

subsection \<open>Values and objects\<close>

type_synonym addr = nat

datatype val =
    VUndef
  | VNull
  | VBool f64
  | VF64 f64
  | VBig int
  | VStr string
  | VArr addr
  | VRec addr
  | VClo nat string path "addr option"
  | VCap string
  | VOpq nat string bytes

fun tag_of :: "val \<Rightarrow> byte" where
  "tag_of VUndef = 0"
| "tag_of VNull = 1"
| "tag_of (VBool _) = 2"
| "tag_of (VF64 _) = 3"
| "tag_of (VBig _) = 4"
| "tag_of (VStr _) = 5"
| "tag_of (VArr _) = 6"
| "tag_of (VRec _) = 7"
| "tag_of (VClo _ _ _ _) = 8"
| "tag_of (VCap _) = 9"
| "tag_of (VOpq _ _ _) = 10"

datatype obj =
    HEnv "addr option" "val list"
  | HArr "val list"
  | HRec "string list" "string \<Rightarrow> val option"

record heap =
  h_objs :: "obj list"
  h_next :: nat

definition empty_heap :: heap where
  "empty_heap = \<lparr>h_objs = [], h_next = 0\<rparr>"

definition alloc :: "obj \<Rightarrow> heap \<Rightarrow> addr \<times> heap" where
  "alloc ob H = (length (h_objs H), H\<lparr>h_objs := h_objs H @ [ob]\<rparr>)"

definition put_obj :: "addr \<Rightarrow> obj \<Rightarrow> heap \<Rightarrow> heap" where
  "put_obj a ob H = H\<lparr>h_objs := (h_objs H)[a := ob]\<rparr>"

definition get_env :: "heap \<Rightarrow> addr \<Rightarrow> (addr option \<times> val list) option" where
  "get_env H a = (case nth_go (h_objs H) a of Some (HEnv p vs) \<Rightarrow> Some (p, vs) | _ \<Rightarrow> None)"

definition get_arr :: "heap \<Rightarrow> addr \<Rightarrow> val list option" where
  "get_arr H a = (case nth_go (h_objs H) a of Some (HArr vs) \<Rightarrow> Some vs | _ \<Rightarrow> None)"

definition get_rec :: "heap \<Rightarrow> addr \<Rightarrow> (string list \<times> (string \<Rightarrow> val option)) option" where
  "get_rec H a = (case nth_go (h_objs H) a of Some (HRec ks m) \<Rightarrow> Some (ks, m) | _ \<Rightarrow> None)"

definition bool_val :: "bool \<Rightarrow> val" where
  "bool_val b = VBool (if b then f_of_int 1 else f_of_int 0)"

definition bool_of :: "f64 \<Rightarrow> bool" where
  "bool_of n \<longleftrightarrow> \<not> feq n 0"

definition new_clo :: "string \<Rightarrow> path \<Rightarrow> addr option \<Rightarrow> heap \<Rightarrow> val \<times> heap" where
  "new_clo d p e H = (VClo (h_next H) d p e, H\<lparr>h_next := Suc (h_next H)\<rparr>)"

definition new_opq :: "string \<Rightarrow> bytes \<Rightarrow> heap \<Rightarrow> val \<times> heap" where
  "new_opq c d H = (VOpq (h_next H) c d, H\<lparr>h_next := Suc (h_next H)\<rparr>)"

subsection \<open>Records\<close>

definition new_record :: "heap \<Rightarrow> addr \<times> heap" where
  "new_record H = alloc (HRec [] Map.empty) H"

definition rec_set :: "addr \<Rightarrow> string \<Rightarrow> val \<Rightarrow> heap \<Rightarrow> heap option" where
  "rec_set a k v H = do {
     (ks, m) \<leftarrow> get_rec H a;
     Some (put_obj a (HRec (if m k = None then ks @ [k] else ks) (m(k \<mapsto> v))) H)
   }"

definition rec_get :: "heap \<Rightarrow> addr \<Rightarrow> string \<Rightarrow> val option option" where
  "rec_get H a k = do { (ks, m) \<leftarrow> get_rec H a; Some (m k) }"

fun rec_set_all :: "addr \<Rightarrow> (string \<times> val) list \<Rightarrow> heap \<Rightarrow> heap option" where
  "rec_set_all a [] H = Some H"
| "rec_set_all a ((k, v) # kvs) H = do { H' \<leftarrow> rec_set a k v H; rec_set_all a kvs H' }"

subsection \<open>Truth and typeof\<close>

fun truthy :: "val \<Rightarrow> bool" where
  "truthy VUndef = False"
| "truthy VNull = False"
| "truthy (VBool n) = bool_of n"
| "truthy (VF64 n) = (\<not> feq n 0 \<and> \<not> is_nan n)"
| "truthy (VBig z) = (z \<noteq> 0)"
| "truthy (VStr s) = (s \<noteq> [])"
| "truthy _ = True"

fun typeof_str :: "val \<Rightarrow> string" where
  "typeof_str VUndef = ''undefined''"
| "typeof_str VNull = ''object''"
| "typeof_str (VBool _) = ''boolean''"
| "typeof_str (VF64 _) = ''number''"
| "typeof_str (VBig _) = ''bigint''"
| "typeof_str (VStr _) = ''string''"
| "typeof_str (VClo _ _ _ _) = ''function''"
| "typeof_str _ = ''object''"

definition nullish :: "val \<Rightarrow> bool" where
  "nullish v \<longleftrightarrow> v = VNull \<or> v = VUndef"

subsection \<open>Environments\<close>

definition push_env :: "addr option \<Rightarrow> val list \<Rightarrow> heap \<Rightarrow> addr \<times> heap" where
  "push_env parent slots H = alloc (HEnv parent slots) H"

text \<open>
  The walk both \<open>lookup\<close> and \<open>assign\<close> make: the record and the slot a De Bruijn index resolves to,
  \<open>Some None\<close> when the chain ends first.  The index is Go's \<open>int(index)\<close>; a negative one is an
  index out of range in the first record.
\<close>

partial_function (option) env_slot :: "heap \<Rightarrow> addr option \<Rightarrow> int \<Rightarrow> (addr \<times> nat) option option" where
  "env_slot H e i = (case e of
      None \<Rightarrow> Some None
    | Some a \<Rightarrow> Option.bind (get_env H a) (\<lambda>(p, vs).
        let n = int (length vs) in
        if i < 0 then None
        else if i < n then Some (Some (a, nat (n - 1 - i)))
        else env_slot H p (i - n)))"

declare env_slot.simps [code]

definition env_lookup :: "heap \<Rightarrow> addr option \<Rightarrow> u64 \<Rightarrow> val option option" where
  "env_lookup H e ix = do {
     s \<leftarrow> env_slot H e (sint ix);
     (case s of
        None \<Rightarrow> Some None
      | Some (a, j) \<Rightarrow> do { (p, vs) \<leftarrow> get_env H a; v \<leftarrow> nth_go vs j; Some (Some v) })
   }"

definition env_assign :: "addr option \<Rightarrow> u64 \<Rightarrow> val \<Rightarrow> heap \<Rightarrow> (bool \<times> heap) option" where
  "env_assign e ix v H = do {
     s \<leftarrow> env_slot H e (sint ix);
     (case s of
        None \<Rightarrow> Some (False, H)
      | Some (a, j) \<Rightarrow> do { (p, vs) \<leftarrow> get_env H a; Some (True, put_obj a (HEnv p (vs[j := v])) H) })
   }"

text \<open>\<open>m.env.lookup\<close> where the caller drops the flag: an unbound slot reads undefined.\<close>

definition env_lookup_or_undef :: "heap \<Rightarrow> addr option \<Rightarrow> u64 \<Rightarrow> val option" where
  "env_lookup_or_undef H e ix = do {
     r \<leftarrow> env_lookup H e ix;
     Some (case r of None \<Rightarrow> VUndef | Some v \<Rightarrow> v)
   }"

end
