(* ===== verification/Cek_Ops.thy ===== *)
theory Cek_Ops
  imports Cek_Value
begin

section \<open>Operators and coercions\<close>

text \<open>
  \<open>internal/cek/ops.go\<close> and the property accesses of \<open>props.go\<close>.  The code's pair \<open>(value, ok)\<close>
  is an option: \<open>None\<close> inside is \<open>ok = false\<close>.  The option around it is a panic or a call that
  never returns.
\<close>

type_synonym op_result = "val option option"

abbreviation ok_val :: "val \<Rightarrow> op_result" where "ok_val v \<equiv> Some (Some v)"
abbreviation not_ok :: op_result where "not_ok \<equiv> Some None"

subsection \<open>Coercions\<close>

fun to_num :: "val \<Rightarrow> f64 option" where
  "to_num (VF64 n) = Some n"
| "to_num (VBool n) = Some n"
| "to_num (VStr s) = Some (if s = [] then 0 else case parse_float s of None \<Rightarrow> f_nan | Some w \<Rightarrow> w)"
| "to_num VNull = Some 0"
| "to_num VUndef = Some f_nan"
| "to_num _ = None"

definition num_to_str :: "f64 \<Rightarrow> string" where
  "num_to_str f =
     (if is_nan f then ''NaN''
      else if is_inf f then (if f_neg f then ''-Infinity'' else ''Infinity'')
      else if feq f (ftrunc f) \<and> flt (fabs f) (f_of_int (10 ^ 21)) then format_f f
      else format_g f)"

text \<open>
  \<open>toStr\<close> recurses through array elements.  The recursion is cut at depth \<open>n\<close>; \<open>None\<close> says that
  the depth was not enough (or an address is not an array's).  An array nested deeper than there
  are objects contains itself, and the code then recurses forever.
\<close>

fun join_elems :: "(val \<Rightarrow> string option) \<Rightarrow> bool \<Rightarrow> val list \<Rightarrow> string option" where
  "join_elems f first [] = Some []"
| "join_elems f first (e # es) = do {
     s \<leftarrow> (if nullish e then Some [] else f e);
     r \<leftarrow> join_elems f False es;
     Some ((if first then [] else '','') @ s @ r)
   }"

primrec to_str_n :: "nat \<Rightarrow> heap \<Rightarrow> val \<Rightarrow> string option" where
  "to_str_n 0 H v = None"
| "to_str_n (Suc n) H v = (case v of
      VStr s \<Rightarrow> Some s
    | VUndef \<Rightarrow> Some ''undefined''
    | VNull \<Rightarrow> Some ''null''
    | VBool b \<Rightarrow> Some (if bool_of b then ''true'' else ''false'')
    | VF64 f \<Rightarrow> Some (num_to_str f)
    | VBig z \<Rightarrow> Some (int_str z)
    | VArr a \<Rightarrow> do { es \<leftarrow> get_arr H a; join_elems (to_str_n n H) True es }
    | _ \<Rightarrow> Some ''[object Object]'')"

definition to_str :: "heap \<Rightarrow> val \<Rightarrow> string option" where
  "to_str H v = to_str_n (length (h_objs H) + 2) H v"

definition prop_key_string :: "heap \<Rightarrow> val \<Rightarrow> string option" where
  "prop_key_string H v = (case v of VStr s \<Rightarrow> Some s | _ \<Rightarrow> to_str H v)"

definition to_int32 :: "golib \<Rightarrow> f64 \<Rightarrow> u32" where
  "to_int32 gl f = (if is_nan f \<or> is_inf f then 0 else ucast (f2i gl (ftrunc f)))"

definition to_uint32 :: "golib \<Rightarrow> f64 \<Rightarrow> u32" where
  "to_uint32 gl f = (if is_nan f \<or> is_inf f then 0 else ucast (f2i gl (ftrunc f)))"

definition f_of_i32 :: "u32 \<Rightarrow> f64" where
  "f_of_i32 w = f_of_int (sint w)"

subsection \<open>Binary operators\<close>

definition quo :: "int \<Rightarrow> int \<Rightarrow> int" where
  "quo x y = sgn x * sgn y * (\<bar>x\<bar> div \<bar>y\<bar>)"

definition rem_go :: "int \<Rightarrow> int \<Rightarrow> int" where
  "rem_go x y = x - y * quo x y"

definition num_arith ::
  "val \<Rightarrow> val \<Rightarrow> (f64 \<Rightarrow> f64 \<Rightarrow> f64) \<Rightarrow> (int \<Rightarrow> int \<Rightarrow> int option) \<Rightarrow> op_result" where
  "num_arith a b fn bfn =
     (case (a, b) of
        (VBig x, VBig y) \<Rightarrow> (case bfn x y of None \<Rightarrow> not_ok | Some r \<Rightarrow> ok_val (VBig r))
      | _ \<Rightarrow> (case (to_num a, to_num b) of
          (Some x, Some y) \<Rightarrow> ok_val (VF64 (fn x y))
        | _ \<Rightarrow> not_ok))"

definition is_str :: "val \<Rightarrow> bool" where
  "is_str v \<longleftrightarrow> (case v of VStr _ \<Rightarrow> True | _ \<Rightarrow> False)"

definition op_add :: "heap \<Rightarrow> val \<Rightarrow> val \<Rightarrow> op_result" where
  "op_add H a b =
     (if is_str a \<or> is_str b then do {
        x \<leftarrow> to_str H a;
        y \<leftarrow> to_str H b;
        ok_val (VStr (x @ y))
      }
      else num_arith a b fadd (\<lambda>x y. Some (x + y)))"

text \<open>
  A shift count of a big integer is \<open>uint(y.Int64())\<close>, so a negative one is at least \<open>2 ^ 63\<close>; a
  left shift of that many bits panics when it allocates its result.
\<close>

definition shift_count :: "int \<Rightarrow> int" where
  "shift_count y = y mod 2 ^ 64"

definition bit_op :: "golib \<Rightarrow> opkind \<Rightarrow> val \<Rightarrow> val \<Rightarrow> op_result" where
  "bit_op gl op a b =
     (case (a, b) of
        (VBig x, VBig y) \<Rightarrow>
          (if op = OpBitAnd then ok_val (VBig (x AND y))
           else if op = OpBitOr then ok_val (VBig (x OR y))
           else if op = OpBitXor then ok_val (VBig (x XOR y))
           else if op = OpShl then
             (if x = 0 then ok_val (VBig 0)
              else if 2 ^ 51 \<le> shift_count y then None
              else ok_val (VBig (push_bit (nat (shift_count y)) x)))
           else if op = OpShr then ok_val (VBig (drop_bit (nat (shift_count y)) x))
           else not_ok)
      | _ \<Rightarrow> (case (to_num a, to_num b) of
          (Some x, Some y) \<Rightarrow>
            (let xi = to_int32 gl x; n = unat (to_uint32 gl y AND 31) in
             if op = OpBitAnd then ok_val (VF64 (f_of_i32 (xi AND to_int32 gl y)))
             else if op = OpBitOr then ok_val (VF64 (f_of_i32 (xi OR to_int32 gl y)))
             else if op = OpBitXor then ok_val (VF64 (f_of_i32 (xi XOR to_int32 gl y)))
             else if op = OpShl then ok_val (VF64 (f_of_i32 (push_bit n xi)))
             else if op = OpShr then ok_val (VF64 (f_of_i32 (signed_drop_bit n xi)))
             else if op = OpUShr then ok_val (VF64 (f_of_int (uint (drop_bit n (to_uint32 gl x)))))
             else not_ok)
        | _ \<Rightarrow> not_ok))"

definition str_lt :: "string \<Rightarrow> string \<Rightarrow> bool" where
  "str_lt s t \<longleftrightarrow> bytes_of s < bytes_of t"

definition cmp_str :: "opkind \<Rightarrow> string \<Rightarrow> string \<Rightarrow> bool" where
  "cmp_str op a b =
     (if op = OpLt then str_lt a b
      else if op = OpGt then str_lt b a
      else if op = OpLe then \<not> str_lt b a
      else if op = OpGe then \<not> str_lt a b
      else False)"

definition cmp_int :: "opkind \<Rightarrow> int \<Rightarrow> int \<Rightarrow> bool" where
  "cmp_int op x y =
     (if op = OpLt then x < y
      else if op = OpGt then x > y
      else if op = OpLe then x \<le> y
      else if op = OpGe then x \<ge> y
      else False)"

definition rel_op :: "opkind \<Rightarrow> val \<Rightarrow> val \<Rightarrow> op_result" where
  "rel_op op a b =
     (case (a, b) of
        (VStr s, VStr t) \<Rightarrow> ok_val (bool_val (cmp_str op s t))
      | (VBig x, VBig y) \<Rightarrow> ok_val (bool_val (cmp_int op x y))
      | _ \<Rightarrow> (case (to_num a, to_num b) of
          (Some x, Some y) \<Rightarrow>
            (if op = OpLt then ok_val (bool_val (flt x y))
             else if op = OpGt then ok_val (bool_val (flt y x))
             else if op = OpLe then ok_val (bool_val (fle x y))
             else if op = OpGe then ok_val (bool_val (fle y x))
             else not_ok)
        | _ \<Rightarrow> not_ok))"

definition strict_eq :: "val \<Rightarrow> val \<Rightarrow> bool" where
  "strict_eq a b \<longleftrightarrow>
     (case a of
        VUndef \<Rightarrow> b = VUndef
      | VNull \<Rightarrow> b = VNull
      | VBool m \<Rightarrow> (case b of VBool n \<Rightarrow> bool_of m = bool_of n | _ \<Rightarrow> False)
      | VF64 m \<Rightarrow> (case b of VF64 n \<Rightarrow> feq m n | _ \<Rightarrow> False)
      | VStr s \<Rightarrow> b = VStr s
      | VBig x \<Rightarrow> b = VBig x
      | VCap s \<Rightarrow> b = VCap s
      | VArr p \<Rightarrow> b = VArr p
      | VRec p \<Rightarrow> b = VRec p
      | VClo i _ _ _ \<Rightarrow> (case b of VClo j _ _ _ \<Rightarrow> i = j | _ \<Rightarrow> False)
      | VOpq i _ _ \<Rightarrow> (case b of VOpq j _ _ \<Rightarrow> i = j | _ \<Rightarrow> False))"

definition bin_op :: "golib \<Rightarrow> heap \<Rightarrow> opkind \<Rightarrow> val \<Rightarrow> val \<Rightarrow> op_result" where
  "bin_op gl H op a b =
     (case op of
        OpAdd \<Rightarrow> op_add H a b
      | OpSub \<Rightarrow> num_arith a b fsub (\<lambda>x y. Some (x - y))
      | OpMul \<Rightarrow> num_arith a b fmul (\<lambda>x y. Some (x * y))
      | OpDiv \<Rightarrow> num_arith a b fdiv (\<lambda>x y. if y = 0 then None else Some (quo x y))
      | OpMod \<Rightarrow> num_arith a b fmod (\<lambda>x y. if y = 0 then None else Some (rem_go x y))
      | OpExp \<Rightarrow> num_arith a b (gl_pow gl) (\<lambda>x y. Some (if y \<le> 0 then 1 else x ^ nat y))
      | OpBitAnd \<Rightarrow> bit_op gl op a b
      | OpBitOr \<Rightarrow> bit_op gl op a b
      | OpBitXor \<Rightarrow> bit_op gl op a b
      | OpShl \<Rightarrow> bit_op gl op a b
      | OpShr \<Rightarrow> bit_op gl op a b
      | OpUShr \<Rightarrow> bit_op gl op a b
      | OpLt \<Rightarrow> rel_op op a b
      | OpGt \<Rightarrow> rel_op op a b
      | OpLe \<Rightarrow> rel_op op a b
      | OpGe \<Rightarrow> rel_op op a b
      | OpEqEq \<Rightarrow> ok_val (bool_val (strict_eq a b))
      | OpEqEqEq \<Rightarrow> ok_val (bool_val (strict_eq a b))
      | OpNeEq \<Rightarrow> ok_val (bool_val (\<not> strict_eq a b))
      | OpNeEqEq \<Rightarrow> ok_val (bool_val (\<not> strict_eq a b))
      | _ \<Rightarrow> not_ok)"

subsection \<open>Unary operators\<close>

definition unary_op :: "golib \<Rightarrow> opkind \<Rightarrow> val \<Rightarrow> val option" where
  "unary_op gl op v =
     (case op of
        OpPos \<Rightarrow> map_option VF64 (to_num v)
      | OpNeg \<Rightarrow> (case v of VBig z \<Rightarrow> Some (VBig (- z)) | _ \<Rightarrow> map_option (\<lambda>x. VF64 (fneg x)) (to_num v))
      | OpNot \<Rightarrow> Some (bool_val (\<not> truthy v))
      | OpBitNot \<Rightarrow> (case v of VBig z \<Rightarrow> Some (VBig (NOT z))
                    | _ \<Rightarrow> map_option (\<lambda>x. VF64 (f_of_i32 (NOT (to_int32 gl x)))) (to_num v))
      | _ \<Rightarrow> None)"

subsection \<open>Property access\<close>

definition array_index :: "string \<Rightarrow> int option" where
  "array_index key = atoi key"

definition num_index :: "golib \<Rightarrow> val \<Rightarrow> int option" where
  "num_index gl v = (case v of
      VF64 n \<Rightarrow> (let i = sint (f2i gl n) in if feq (f_of_int i) n then Some i else None)
    | _ \<Rightarrow> None)"

definition nth_or_undef :: "val list \<Rightarrow> int \<Rightarrow> val" where
  "nth_or_undef vs i = (if 0 \<le> i \<and> i < int (length vs) then vs ! nat i else VUndef)"

definition get_member :: "heap \<Rightarrow> val \<Rightarrow> string \<Rightarrow> val option" where
  "get_member H ob key = (case ob of
      VRec a \<Rightarrow> do { r \<leftarrow> rec_get H a key; Some (case r of Some v \<Rightarrow> v | None \<Rightarrow> VUndef) }
    | VArr a \<Rightarrow> do {
        es \<leftarrow> get_arr H a;
        Some (if key = ''length'' then VF64 (f_of_int (int (length es)))
              else case array_index key of Some i \<Rightarrow> nth_or_undef es i | None \<Rightarrow> VUndef)
      }
    | VStr s \<Rightarrow>
        Some (if key = ''length'' then VF64 (f_of_int (int (length (runes_of s))))
              else case array_index key of
                  Some i \<Rightarrow> (let r = runes_of s in
                    if 0 \<le> i \<and> i < int (length r) then VStr (rune_str (r ! nat i)) else VUndef)
                | None \<Rightarrow> VUndef)
    | _ \<Rightarrow> Some VUndef)"

definition get_index :: "golib \<Rightarrow> heap \<Rightarrow> val \<Rightarrow> val \<Rightarrow> val option" where
  "get_index gl H ob idx =
     (case (ob, num_index gl idx) of
        (VArr a, Some i) \<Rightarrow> do { es \<leftarrow> get_arr H a; Some (nth_or_undef es i) }
      | _ \<Rightarrow> do { k \<leftarrow> prop_key_string H idx; get_member H ob k })"

definition grow_set :: "val list \<Rightarrow> int \<Rightarrow> val \<Rightarrow> val list" where
  "grow_set es i v =
     (if i < 0 then es
      else (es @ replicate (nat (i + 1) - length es) VUndef)[nat i := v])"

definition set_elem :: "addr \<Rightarrow> int \<Rightarrow> val \<Rightarrow> heap \<Rightarrow> heap option" where
  "set_elem a i v H = do { es \<leftarrow> get_arr H a; Some (put_obj a (HArr (grow_set es i v)) H) }"

definition set_member :: "val \<Rightarrow> string \<Rightarrow> val \<Rightarrow> heap \<Rightarrow> heap option" where
  "set_member ob key v H = (case ob of
      VRec a \<Rightarrow> rec_set a key v H
    | VArr a \<Rightarrow> (case array_index key of Some i \<Rightarrow> set_elem a i v H | None \<Rightarrow> Some H)
    | _ \<Rightarrow> Some H)"

definition set_index :: "golib \<Rightarrow> val \<Rightarrow> val \<Rightarrow> val \<Rightarrow> heap \<Rightarrow> heap option" where
  "set_index gl ob idx v H = (case ob of
      VArr a \<Rightarrow> (case num_index gl idx of Some i \<Rightarrow> set_elem a i v H | None \<Rightarrow> Some H)
    | VRec a \<Rightarrow> do { k \<leftarrow> prop_key_string H idx; rec_set a k v H }
    | _ \<Rightarrow> Some H)"

definition has_own :: "heap \<Rightarrow> string \<Rightarrow> val \<Rightarrow> bool option" where
  "has_own H key ob = (case ob of
      VRec a \<Rightarrow> do { r \<leftarrow> rec_get H a key; Some (r \<noteq> None) }
    | VArr a \<Rightarrow> do {
        es \<leftarrow> get_arr H a;
        Some (if key = ''length'' then True
              else case array_index key of Some i \<Rightarrow> 0 \<le> i \<and> i < int (length es) | None \<Rightarrow> False)
      }
    | _ \<Rightarrow> Some False)"

end
