(* ===== verification/Cek_Bind.thy ===== *)
theory Cek_Bind
  imports Cek_Ops
begin

section \<open>Binding parameters and patterns\<close>

text \<open>
  \<open>internal/cek/bind.go\<close>.  Binding flattens every binder of a pattern, in pre-order, into one slot
  list.  A failure the code returns as an \<open>error\<close> is an \<open>Inl\<close>; a panic is \<open>None\<close>.  Binding
  allocates the arrays of rest elements, so the heap is threaded.
\<close>

datatype cek_error =
    ELoad string
  | EUnboundLocal u64
  | EFreeName string
  | ENodeKind kind
  | EPatternKind kind
  | EComputedKey
  | EKeyKind kind
  | EBinary opkind byte byte
  | EUnary opkind byte
  | ECompound opkind
  | ELogicalTarget
  | EAssignTarget kind
  | EUpdateTarget kind
  | EFrameClass int
  | EFrameKind
  | EPhase int
  | ENotFunction byte
  | ENavigate string
  | ECalleeKind kind
  | ENoNative string
  | EConformance string string
  | ETopLevelJump
  | ERebind

type_synonym 'a fallible = "(cek_error + 'a) option"

definition ret :: "'a \<Rightarrow> 'a fallible" where "ret x = Some (Inr x)"
definition raise_err :: "cek_error \<Rightarrow> 'a fallible" where "raise_err e = Some (Inl e)"

definition bind_ok :: "'a fallible \<Rightarrow> ('a \<Rightarrow> 'b fallible) \<Rightarrow> 'b fallible" where
  "bind_ok x f = (case x of None \<Rightarrow> None | Some (Inl e) \<Rightarrow> Some (Inl e) | Some (Inr a) \<Rightarrow> f a)"

lemma bind_ok_simps [simp]:
  "bind_ok None f = None"
  "bind_ok (raise_err e) f = raise_err e"
  "bind_ok (ret a) f = f a"
  by (simp_all add: bind_ok_def ret_def raise_err_def)

lemma fallible_distinct [simp]: "ret a \<noteq> raise_err e" "raise_err e \<noteq> ret a"
  "ret a \<noteq> None" "None \<noteq> ret a" "raise_err e \<noteq> None" "None \<noteq> raise_err e"
  by (simp_all add: ret_def raise_err_def)

lemma ret_inject [simp]: "ret a = ret b \<longleftrightarrow> a = b" "raise_err e = raise_err e' \<longleftrightarrow> e = e'"
  by (simp_all add: ret_def raise_err_def)

lemma fallible_cases [case_names panic err ok, cases type: option]:
  fixes x :: "'a fallible"
  obtains "x = None" | e where "x = raise_err e" | a where "x = ret a"
proof (cases x)
  case None
  then show ?thesis using that by simp
next
  case (Some s)
  then show ?thesis using that by (cases s) (auto simp: ret_def raise_err_def)
qed

lemma bind_ok_retE:
  assumes "bind_ok x f = ret y"
  obtains a where "x = ret a" and "f a = ret y"
  using assms by (cases x rule: fallible_cases) auto

lemma bind_ok_cong [fundef_cong]:
  "x = y \<Longrightarrow> (\<And>a. y = ret a \<Longrightarrow> f a = g a) \<Longrightarrow> bind_ok x f = bind_ok y g"
  by (cases y rule: fallible_cases) auto

definition lift_opt :: "'a option \<Rightarrow> 'a fallible" where
  "lift_opt x = (case x of None \<Rightarrow> None | Some a \<Rightarrow> ret a)"

lemma lift_opt_simps [simp]: "lift_opt None = None" "lift_opt (Some a) = ret a"
  by (simp_all add: lift_opt_def)

lemma lift_opt_ret [simp]: "lift_opt x = ret a \<longleftrightarrow> x = Some a"
  by (cases x) auto

subsection \<open>Constants\<close>

definition mag_int :: "u64 \<Rightarrow> bytes \<Rightarrow> int" where
  "mag_int u mag = (if u AND 1 \<noteq> 0 then - be_value mag else be_value mag)"

function eval_const :: "golib \<Rightarrow> heap \<Rightarrow> node \<Rightarrow> val option option" where
  "eval_const gl H (Node k s u mag ks) =
     (case k of
        KNum \<Rightarrow> Some (Some (VF64 u))
      | KStr \<Rightarrow> Some (Some (VStr s))
      | KBool \<Rightarrow> Some (Some (bool_val (u \<noteq> 0)))
      | KNull \<Rightarrow> Some (Some VNull)
      | KUndefined \<Rightarrow> Some (Some VUndef)
      | KBigInt \<Rightarrow> Some (Some (VBig (mag_int u mag)))
      | KUnary \<Rightarrow>
          (case ks of
             [] \<Rightarrow> None
           | a # _ \<Rightarrow> do {
               va \<leftarrow> eval_const gl H a;
               Some (case va of None \<Rightarrow> None | Some v \<Rightarrow> unary_op gl (op_of u) v)
             })
      | KBinary \<Rightarrow>
          (case ks of
             a # b # _ \<Rightarrow> do {
               va \<leftarrow> eval_const gl H a;
               vb \<leftarrow> eval_const gl H b;
               (case (va, vb) of
                  (Some x, Some y) \<Rightarrow> bin_op gl H (op_of u) x y
                | _ \<Rightarrow> Some None)
             }
           | _ \<Rightarrow> None)
      | _ \<Rightarrow> Some None)"
  by pat_completeness auto
termination by (relation "measure (\<lambda>(gl, H, n). size n)") auto

definition pattern_key :: "golib \<Rightarrow> heap \<Rightarrow> node \<Rightarrow> string fallible" where
  "pattern_key gl H bp =
     bind_ok (lift_opt (kid bp 0)) (\<lambda>key.
       if flag0 bp then
         bind_ok (lift_opt (eval_const gl H key)) (\<lambda>kv.
           case kv of None \<Rightarrow> raise_err EComputedKey
             | Some v \<Rightarrow> lift_opt (prop_key_string H v))
       else if nk key \<in> {KStr, KStrPart, KName} then ret (nstr key)
       else if nk key = KNum then ret (num_to_str (nu key))
       else raise_err (EKeyKind (nk key)))"

text \<open>The literal default of a parameter or property (child 2), used when the value is undefined.\<close>

definition with_default :: "golib \<Rightarrow> heap \<Rightarrow> node list \<Rightarrow> val \<Rightarrow> val fallible" where
  "with_default gl H ks v =
     (if v = VUndef \<and> 2 < length ks \<and> \<not> is_none (ks ! 2) then
        bind_ok (lift_opt (eval_const gl H (ks ! 2))) (\<lambda>dv.
          ret (case dv of None \<Rightarrow> v | Some d \<Rightarrow> d))
      else ret v)"

subsection \<open>Patterns\<close>

type_synonym binding = "heap \<times> val list"

definition new_array :: "val list \<Rightarrow> heap \<Rightarrow> val \<times> heap" where
  "new_array es H = (case alloc (HArr es) H of (a, H') \<Rightarrow> (VArr a, H'))"

text \<open>The elements an array pattern reads: those of an array, none of any other value.\<close>

definition pattern_elems :: "heap \<Rightarrow> val \<Rightarrow> val list fallible" where
  "pattern_elems H v = (case v of VArr a \<Rightarrow> lift_opt (get_arr H a) | _ \<Rightarrow> ret [])"

definition prop_read :: "heap \<Rightarrow> val \<Rightarrow> string \<Rightarrow> val fallible" where
  "prop_read H v key = (case v of
      VRec a \<Rightarrow> bind_ok (lift_opt (rec_get H a key)) (\<lambda>r.
        ret (case r of None \<Rightarrow> VUndef | Some x \<Rightarrow> x))
    | _ \<Rightarrow> ret VUndef)"

function (sequential)
  bind_pattern :: "golib \<Rightarrow> node \<Rightarrow> val \<Rightarrow> binding \<Rightarrow> binding fallible"
  and bind_elems :: "golib \<Rightarrow> node list \<Rightarrow> val list \<Rightarrow> binding \<Rightarrow> binding fallible"
  and bind_props :: "golib \<Rightarrow> node list \<Rightarrow> val \<Rightarrow> binding \<Rightarrow> binding fallible" where
  "bind_pattern gl (Node k s u mag ks) v (H, slots) =
     (if k = KBindId then ret (H, slots @ [v])
      else if k = KArrayPat then
        (case ks of
           [] \<Rightarrow> None
         | Node _ _ _ _ elems # _ \<Rightarrow>
             bind_ok (pattern_elems H v) (\<lambda>arr. bind_elems gl elems arr (H, slots)))
      else if k = KObjPat then
        (case ks of
           [] \<Rightarrow> None
         | Node _ _ _ _ props # _ \<Rightarrow> bind_props gl props v (H, slots))
      else if k = KRestPat then
        (case ks of [] \<Rightarrow> None | p # _ \<Rightarrow> bind_pattern gl p v (H, slots))
      else raise_err (EPatternKind k))"
| "bind_elems gl [] arr B = ret B"
| "bind_elems gl (Node k s u mag ks # els) arr (H, slots) =
     (if k = KNone then bind_elems gl els (tl arr) (H, slots)
      else if k = KRestPat then
        (case ks of
           [] \<Rightarrow> None
         | p # _ \<Rightarrow> (case new_array arr H of (rest, H') \<Rightarrow> bind_pattern gl p rest (H', slots)))
      else bind_ok
        (bind_pattern gl (Node k s u mag ks) (case arr of [] \<Rightarrow> VUndef | x # _ \<Rightarrow> x) (H, slots))
        (\<lambda>B. bind_elems gl els (tl arr) B))"
| "bind_props gl [] v B = ret B"
| "bind_props gl (Node k s u mag ks # bps) v (H, slots) =
     (if k = KRestPat then
        (case ks of
           [] \<Rightarrow> None
         | p # _ \<Rightarrow> bind_ok (bind_pattern gl p v (H, slots)) (\<lambda>B. bind_props gl bps v B))
      else
        bind_ok (pattern_key gl H (Node k s u mag ks)) (\<lambda>key.
        bind_ok (prop_read H v key) (\<lambda>got.
        bind_ok (with_default gl H ks got) (\<lambda>pv.
          (case ks of
             _ # p # _ \<Rightarrow> bind_ok (bind_pattern gl p pv (H, slots)) (\<lambda>B. bind_props gl bps v B)
           | _ \<Rightarrow> None)))))"
  by pat_completeness auto
termination
  by (relation "measure (\<lambda>x. case x of
        Inl (gl, p, v, B) \<Rightarrow> size p
      | Inr (Inl (gl, ps, arr, B)) \<Rightarrow> size_list size ps
      | Inr (Inr (gl, ps, v, B)) \<Rightarrow> size_list size ps)") auto

subsection \<open>Parameters\<close>

fun bind_param_list :: "golib \<Rightarrow> node list \<Rightarrow> val list \<Rightarrow> binding \<Rightarrow> binding fallible" where
  "bind_param_list gl [] args B = ret B"
| "bind_param_list gl (prm # prms) args (H, slots) =
     bind_ok (lift_opt (kid prm 0)) (\<lambda>pat.
       if flag0 prm then
         (case new_array args H of (rest, H') \<Rightarrow>
            bind_ok (bind_pattern gl pat rest (H', slots)) (\<lambda>B. bind_param_list gl prms [] B))
       else
         bind_ok (with_default gl H (nkids prm) (case args of [] \<Rightarrow> VUndef | a # _ \<Rightarrow> a)) (\<lambda>v.
         bind_ok (bind_pattern gl pat v (H, slots)) (\<lambda>B. bind_param_list gl prms (tl args) B)))"

definition bind_params ::
  "golib \<Rightarrow> node \<Rightarrow> val list \<Rightarrow> addr option \<Rightarrow> heap \<Rightarrow> (addr \<times> heap) fallible" where
  "bind_params gl fn args closure_env H =
     bind_ok (lift_opt (kid fn 0)) (\<lambda>ps.
     bind_ok (bind_param_list gl (nkids ps) args (H, [])) (\<lambda>(H', slots).
       ret (push_env closure_env slots H')))"

end
