(* ===== verification/Cek_Machine.thy ===== *)
theory Cek_Machine
  imports Cek_Bind
begin

section \<open>The machine state\<close>

text \<open>
  The registers of the abstract machine (\<open>internal/cek/machine.go\<close>, \<open>frame.go\<close>, \<open>outcome.go\<close>,
  \<open>meter.go\<close>, \<open>wake.go\<close>, \<open>native.go\<close>, \<open>loader.go\<close>).  The continuation stack is a list with the
  innermost frame first (the code's slice has it last).  A step takes the machine to the next one,
  possibly with the outcome that ends the run; \<open>None\<close> is a Go panic.
\<close>

subsection \<open>Frames\<close>

datatype (plugins only: size code) frame_kind =
    FrRet | FrBlock | FrVarDecl | FrExprStmt | FrIf | FrBin | FrLogic | FrUnary | FrUpdate |
    FrCond | FrCall | FrMember | FrIndex | FrArray | FrObject | FrReturn | FrThrow | FrCatch |
    FrFinally | FrFor | FrForOf | FrWhile | FrDoWhile | FrSwitch | FrAssign | FrAwait |
    FrTemplate | FrTypeof | FrMemberAssign | FrFinallyRun

datatype sig_kind = SigThrow | SigBreak | SigContinue | SigReturn

type_synonym signal = "sig_kind \<times> val"

record frame =
  f_kind :: frame_kind
  f_node :: "node option"
  f_path :: path
  f_idx :: int
  f_vals :: "val list"
  f_env :: "addr option"
  f_outer :: "addr option"
  f_retdef :: string
  f_retpath :: path
  f_retenv :: "addr option"
  f_aux :: int
  f_obj :: val
  f_key :: string
  f_idxval :: val
  f_pend :: "signal option"

definition zero_frame :: "frame_kind \<Rightarrow> frame" where
  "zero_frame k = \<lparr>f_kind = k, f_node = None, f_path = [], f_idx = 0, f_vals = [], f_env = None,
     f_outer = None, f_retdef = [], f_retpath = [], f_retenv = None, f_aux = 0, f_obj = VUndef,
     f_key = [], f_idxval = VUndef, f_pend = None\<rparr>"

subsection \<open>Outcomes\<close>

text \<open>Go's \<open>any\<close>, as far as payloads and restart arguments use it; a map is listed in the order
  in which it is iterated.\<close>

datatype anyv =
    AnyNil | AnyBool bool | AnyF64 f64 | AnyInt i64 | AnyInt64 i64 | AnyStr string | AnyBig int |
    AnyOther

type_synonym any_map = "(string \<times> anyv) list"

record restart =
  rs_name :: string
  rs_label :: string
  rs_capability :: string

record condition =
  cn_class :: string
  cn_payload :: any_map
  cn_restarts :: "restart list"

datatype wake_kind = WakeTimer | WakeMessage | WakeJoin | WakeEvent

record wake_match =
  wm_path :: string
  wm_equals :: val
  wm_has :: bool

record wake =
  wk_kind :: wake_kind
  wk_delay :: i64
  wk_channel :: string
  wk_match :: "wake_match option"
  wk_thunks :: "val list"
  wk_quorum :: int
  wk_race :: bool
  wk_stream :: string
  wk_on :: "string list"

definition zero_wake :: "wake_kind \<Rightarrow> wake" where
  "zero_wake k = \<lparr>wk_kind = k, wk_delay = 0, wk_channel = [], wk_match = None, wk_thunks = [],
     wk_quorum = 0, wk_race = False, wk_stream = [], wk_on = []\<rparr>"

record effect =
  ef_class :: string
  ef_payload :: any_map
  ef_val :: val

record principal =
  p_subject :: string
  p_grants :: "string \<Rightarrow> bool"
  p_operator :: bool

datatype mode = ModeEval | ModeApply | ModeUnwind
datatype park_kind = ParkFuel | ParkGovernor | ParkSignal | ParkWake | ParkFresh
datatype tier = TierSandbox | TierTrusted

text \<open>A snapshot.  The objects its addresses point to are part of what Go keeps alive with it.\<close>

record state =
  s_def :: string
  s_path :: path
  s_mode :: mode
  s_val :: val
  s_sig :: signal
  s_env :: "addr option"
  s_kont :: "frame list"
  s_tier :: tier
  s_fuel_steps :: i64
  s_fuel_alloc :: i64
  s_park :: park_kind
  s_heap :: heap

datatype outcome_kind = OutDone | OutParked | OutFaulted | OutError

record outcome =
  o_kind :: outcome_kind
  o_value :: val
  o_state :: "state option"
  o_cond :: "condition option"
  o_wake :: "wake option"
  o_fault :: val
  o_err :: "cek_error option"
  o_transitions :: i64
  o_effects :: "effect list"

definition zero_outcome :: "outcome_kind \<Rightarrow> outcome" where
  "zero_outcome k = \<lparr>o_kind = k, o_value = VUndef, o_state = None, o_cond = None, o_wake = None,
     o_fault = VUndef, o_err = None, o_transitions = 0, o_effects = []\<rparr>"

definition done_with :: "val \<Rightarrow> outcome" where
  "done_with v = (zero_outcome OutDone)\<lparr>o_value := v\<rparr>"

definition error_with :: "cek_error \<Rightarrow> outcome" where
  "error_with e = (zero_outcome OutError)\<lparr>o_err := Some e\<rparr>"

subsection \<open>Hosts, natives and the interpreter\<close>

text \<open>
  What lies outside the process is a parameter: the read seam (\<open>Reader\<close>), the clock, the random
  source and the AEAD cipher of the \<open>world\<close>.  Each read of it may answer differently, so it takes
  the number of the read, kept in \<open>ho_tick\<close>.
\<close>

record world =
  wd_reader :: bool
  wd_identity :: "nat \<Rightarrow> string \<Rightarrow> string \<Rightarrow> string + any_map option"
  wd_query :: "nat \<Rightarrow> int option \<Rightarrow> string \<Rightarrow> anyv list \<Rightarrow> string + any_map list"
  wd_now :: "nat \<Rightarrow> i64"
  wd_nonce :: "nat \<Rightarrow> bytes option"
  wd_seal :: "bytes \<Rightarrow> bytes \<Rightarrow> bytes \<Rightarrow> bytes"
  wd_open :: "bytes \<Rightarrow> bytes \<Rightarrow> bytes \<Rightarrow> bytes option"

record host =
  ho_world :: world
  ho_principal :: principal
  ho_effects :: "effect list"
  ho_asof :: "int option"
  ho_tick :: nat

datatype native_park = ParkOnCondition condition | ParkOnWake wake

type_synonym native =
  "heap \<Rightarrow> host \<Rightarrow> val list \<Rightarrow> (heap \<times> host \<times> val \<times> native_park option) option"

record interp =
  in_src :: "string \<Rightarrow> node option"
  in_fns :: "string \<Rightarrow> native option"
  in_class :: "string \<Rightarrow> string"
  in_world :: world
  in_gl :: golib
  in_mutant :: "string \<Rightarrow> bool"

text \<open>\<open>loadAST\<close>: definitions are immutable, so the cache in front of the source is transparent.\<close>

definition load_ast :: "interp \<Rightarrow> string \<Rightarrow> node fallible" where
  "load_ast I h = (case in_src I h of None \<Rightarrow> raise_err (ELoad h) | Some n \<Rightarrow> ret n)"

record machine =
  m_def :: string
  m_root :: node
  m_node :: "node option"
  m_path :: path
  m_env :: "addr option"
  m_kont :: "frame list"
  m_mode :: mode
  m_val :: val
  m_sig :: signal
  m_host :: host
  m_tier :: tier
  m_transitions :: i64
  m_fuel_steps :: i64
  m_fuel_alloc :: i64
  m_meter_alloc :: i64
  m_heap :: heap

subsection \<open>Elementary moves\<close>

type_synonym step_result = "(machine \<times> outcome option) option"

definition go :: "machine \<Rightarrow> step_result" where
  "go m = Some (m, None)"

definition stop :: "outcome \<Rightarrow> machine \<Rightarrow> step_result" where
  "stop out m = Some (m, Some out)"

definition fault :: "cek_error \<Rightarrow> machine \<Rightarrow> step_result" where
  "fault e m = stop (error_with e) m"

text \<open>\<open>attempt x m f\<close> is the \<open>if err != nil { return m.fault(err) }\<close> after a fallible call.\<close>

definition attempt :: "'a fallible \<Rightarrow> machine \<Rightarrow> ('a \<Rightarrow> step_result) \<Rightarrow> step_result" where
  "attempt x m f = (case x of None \<Rightarrow> None | Some (Inl e) \<Rightarrow> fault e m | Some (Inr a) \<Rightarrow> f a)"

lemma attempt_simps [simp]:
  "attempt None m f = None"
  "attempt (raise_err e) m f = fault e m"
  "attempt (ret a) m f = f a"
  by (simp_all add: attempt_def ret_def raise_err_def)

definition push :: "frame \<Rightarrow> machine \<Rightarrow> machine" where
  "push f m = m\<lparr>m_kont := f # m_kont m\<rparr>"

definition set_control :: "node \<Rightarrow> path \<Rightarrow> machine \<Rightarrow> machine" where
  "set_control n p m = m\<lparr>m_node := Some n, m_path := p, m_mode := ModeEval\<rparr>"

definition apply_val :: "val \<Rightarrow> machine \<Rightarrow> machine" where
  "apply_val v m = m\<lparr>m_mode := ModeApply, m_val := v\<rparr>"

definition raise_sig :: "sig_kind \<Rightarrow> val \<Rightarrow> machine \<Rightarrow> machine" where
  "raise_sig k v m = m\<lparr>m_sig := (k, v), m_mode := ModeUnwind\<rparr>"

definition set_env :: "addr option \<Rightarrow> machine \<Rightarrow> machine" where
  "set_env e m = m\<lparr>m_env := e\<rparr>"

definition set_heap :: "heap \<Rightarrow> machine \<Rightarrow> machine" where
  "set_heap H m = m\<lparr>m_heap := H\<rparr>"

definition new_frame :: "frame_kind \<Rightarrow> machine \<Rightarrow> frame" where
  "new_frame k m = (zero_frame k)\<lparr>f_node := m_node m, f_path := m_path m, f_env := m_env m\<rparr>"

text \<open>\<open>evalChildOf\<close> moves to child \<open>i\<close> and extends the path; \<open>setChildControl\<close> moves to it and
  leaves the path as it is.\<close>

definition eval_child_of :: "node \<Rightarrow> int \<Rightarrow> machine \<Rightarrow> step_result" where
  "eval_child_of n i m = do { c \<leftarrow> kid_i n i; go (set_control c (child (m_path m) i) m) }"

definition set_child_control :: "node \<Rightarrow> int \<Rightarrow> machine \<Rightarrow> step_result" where
  "set_child_control n i m = do { c \<leftarrow> kid_i n i; go (m\<lparr>m_node := Some c, m_mode := ModeEval\<rparr>) }"

text \<open>The frame's node pushed with its descent to child \<open>i\<close>, the commonest move of \<open>evalStep\<close>.\<close>

definition descend :: "frame \<Rightarrow> int \<Rightarrow> node \<Rightarrow> machine \<Rightarrow> step_result" where
  "descend f i n m = eval_child_of n i (push f m)"

text \<open>A scope ends: its outer environment comes back and the frame (already taken off) yields
  undefined.\<close>

definition leave :: "frame \<Rightarrow> machine \<Rightarrow> step_result" where
  "leave f m = go (apply_val VUndef (set_env (f_outer f) m))"

definition op_name :: "node \<Rightarrow> opkind" where
  "op_name n = op_of (nu n)"

subsection \<open>Snapshots and meters\<close>

definition snapshot :: "park_kind \<Rightarrow> machine \<Rightarrow> state" where
  "snapshot pk m = \<lparr>s_def = m_def m, s_path = m_path m, s_mode = m_mode m, s_val = m_val m,
     s_sig = m_sig m, s_env = m_env m, s_kont = m_kont m, s_tier = m_tier m,
     s_fuel_steps = m_fuel_steps m, s_fuel_alloc = m_fuel_alloc m, s_park = pk,
     s_heap = m_heap m\<rparr>"

definition mk_restart :: "string \<Rightarrow> string \<Rightarrow> string \<Rightarrow> restart" where
  "mk_restart n l c = \<lparr>rs_name = n, rs_label = l, rs_capability = c\<rparr>"

definition fuel_restarts :: "restart list" where
  "fuel_restarts = [mk_restart ''grant-fuel'' ''Grant more fuel'' ''operator'',
     mk_restart ''abort'' ''Abort'' []]"

definition runaway_restarts :: "restart list" where
  "runaway_restarts = [mk_restart ''abort'' ''Abort'' [],
     mk_restart ''grant-time'' ''Grant more time'' ''operator'']"

datatype meter_kind = FuelMeter | GovernorMeter

definition breach_class :: "meter_kind \<Rightarrow> string" where
  "breach_class k = (case k of FuelMeter \<Rightarrow> ''fuel.exhausted'' | GovernorMeter \<Rightarrow> ''runaway'')"

definition meter_restarts :: "meter_kind \<Rightarrow> restart list" where
  "meter_restarts k = (case k of FuelMeter \<Rightarrow> fuel_restarts | GovernorMeter \<Rightarrow> runaway_restarts)"

definition park_meter :: "meter_kind \<Rightarrow> machine \<Rightarrow> outcome" where
  "park_meter k m =
     (let pk = (if breach_class k = ''runaway'' then ParkGovernor else ParkFuel)
      in (zero_outcome OutParked)\<lparr>o_state := Some (snapshot pk m),
           o_cond := Some \<lparr>cn_class = breach_class k,
             cn_payload = [(''def'', AnyStr (m_def m)), (''transitions'', AnyInt64 (m_transitions m))],
             cn_restarts = meter_restarts k\<rparr>,
           o_transitions := m_transitions m, o_effects := ho_effects (m_host m)\<rparr>)"

text \<open>\<open>fuelMeter.tick\<close>: the budget after the tick and whether it still holds.  \<open>chargeAlloc\<close>
  lowers the allocation budget; its only caller ignores the verdict, so only the budget is kept.\<close>

definition fuel_tick :: "i64 \<Rightarrow> i64 \<times> bool" where
  "fuel_tick steps = (let s = steps - 1 in (s, 0 \<le> sint s))"

definition charge_alloc :: "i64 \<Rightarrow> machine \<Rightarrow> machine \<times> bool" where
  "charge_alloc n m =
     (case m_tier m of
        TierSandbox \<Rightarrow> (let a = m_meter_alloc m - n in (m\<lparr>m_meter_alloc := a\<rparr>, 0 \<le> sint a))
      | TierTrusted \<Rightarrow> (m, True))"

text \<open>\<open>governorMeter.tick\<close>: \<open>late c\<close> says whether the clock is past the deadline when the counter
  reads \<open>c\<close>; it is only asked every 4096 ticks.\<close>

definition gov_tick :: "i64 \<Rightarrow> (i64 \<Rightarrow> bool) \<Rightarrow> i64 \<Rightarrow> i64 \<times> bool" where
  "gov_tick ceiling late n =
     (let c = n + 1 in
      (c, \<not> (c AND 4095 = 0 \<and> (sint ceiling < sint c \<or> late c))))"

definition default_ceiling :: i64 where "default_ceiling = 50000000"
definition default_fuel_steps :: i64 where "default_fuel_steps = 100000"
definition default_fuel_alloc :: i64 where "default_fuel_alloc = 10 * 1024 * 1024"

end
