(* ===== verification/Cek_Control.thy ===== *)
theory Cek_Control
  imports Cek_Machine
begin

section \<open>Sequencing, assignment, update, try and loops\<close>

text \<open>
  \<open>internal/cek/control.go\<close>, \<open>loops.go\<close> and \<open>assign.go\<close>.  A helper of the code takes the frame \<open>f\<close>
  on top of the stack and mutates it in place.  Here it takes \<open>f\<close> and the machine without it, and
  puts the updated frame back (\<open>push\<close>) where the code leaves it on the stack.
\<close>

definition node_of :: "frame \<Rightarrow> node option" where
  "node_of f = f_node f"

text \<open>\<open>f.Node.Kids[i].Kids\<close>, the list under child \<open>i\<close> of the frame's node.\<close>

definition kids_at :: "frame \<Rightarrow> int \<Rightarrow> node list option" where
  "kids_at f i = do { n \<leftarrow> node_of f; c \<leftarrow> kid_i n i; Some (nkids c) }"

definition visit :: "frame \<Rightarrow> node \<Rightarrow> path \<Rightarrow> machine \<Rightarrow> step_result" where
  "visit f n p m = go (set_control n p (push f m))"

text \<open>The frame's node at child \<open>i\<close>, with the frame kept.\<close>

definition visit_kid :: "frame \<Rightarrow> int \<Rightarrow> machine \<Rightarrow> step_result" where
  "visit_kid f i m = do {
     n \<leftarrow> node_of f;
     c \<leftarrow> kid_i n i;
     visit f c (child (f_path f) i) m
   }"

subsection \<open>Blocks, declarations, templates, literals\<close>

definition block_advance :: "frame \<Rightarrow> machine \<Rightarrow> step_result" where
  "block_advance f m = do {
     stmts \<leftarrow> kids_at f 0;
     if int (length stmts) \<le> f_idx f then leave f m
     else do {
       s \<leftarrow> nth_i stmts (f_idx f);
       visit f s (child (child (f_path f) 0) (f_idx f)) m
     }
   }"

text \<open>The loop over the declarators: one without an initializer is bound to undefined at once; the
  first one with an initializer is evaluated.\<close>

fun var_decl_loop :: "golib \<Rightarrow> node list \<Rightarrow> frame \<Rightarrow> machine \<Rightarrow> step_result" where
  "var_decl_loop gl [] f m =
     (case push_env (m_env m) (f_vals f) (m_heap m) of (e, H) \<Rightarrow>
        go (apply_val VUndef (set_env (Some e) (set_heap H m))))"
| "var_decl_loop gl (d # ds) f m = do {
     init \<leftarrow> kid d 2;
     if is_none init then do {
       pat \<leftarrow> kid d 0;
       attempt (bind_pattern gl pat VUndef (m_heap m, f_vals f)) m (\<lambda>(H, vals).
         var_decl_loop gl ds (f\<lparr>f_vals := vals, f_idx := f_idx f + 1\<rparr>) (set_heap H m))
     }
     else visit f init (child (child (child (f_path f) 0) (f_idx f)) 2) m
   }"

text \<open>The elements from a signed cursor on; a negative cursor is an index out of range.\<close>

definition drop_i :: "int \<Rightarrow> 'a list \<Rightarrow> 'a list option" where
  "drop_i i xs = (if int (length xs) \<le> i then Some [] else if i < 0 then None else Some (drop (nat i) xs))"

definition var_decl_advance :: "golib \<Rightarrow> frame \<Rightarrow> machine \<Rightarrow> step_result" where
  "var_decl_advance gl f m = do {
     decls \<leftarrow> kids_at f 0;
     ds \<leftarrow> drop_i (f_idx f) decls;
     var_decl_loop gl ds f m
   }"

text \<open>The text of a template: literal parts, and the string of the next value for any other.\<close>

fun template_text :: "heap \<Rightarrow> node list \<Rightarrow> val list \<Rightarrow> string option" where
  "template_text H [] vs = Some []"
| "template_text H (p # ps) vs =
     (if nk p = KStrPart then do { r \<leftarrow> template_text H ps vs; Some (nstr p @ r) }
      else do {
        s \<leftarrow> (case vs of [] \<Rightarrow> Some [] | v # _ \<Rightarrow> to_str H v);
        r \<leftarrow> template_text H ps (tl vs);
        Some (s @ r)
      })"

fun template_loop :: "node list \<Rightarrow> node list \<Rightarrow> frame \<Rightarrow> machine \<Rightarrow> step_result" where
  "template_loop parts [] f m = do {
     s \<leftarrow> template_text (m_heap m) parts (f_vals f);
     go (apply_val (VStr s) m)
   }"
| "template_loop parts (p # ps) f m =
     (if nk p = KStrPart then template_loop parts ps (f\<lparr>f_idx := f_idx f + 1\<rparr>) m
      else visit f p (child (child (f_path f) 0) (f_idx f)) m)"

definition template_advance :: "frame \<Rightarrow> machine \<Rightarrow> step_result" where
  "template_advance f m = do {
     parts \<leftarrow> kids_at f 0;
     ps \<leftarrow> drop_i (f_idx f) parts;
     template_loop parts ps f m
   }"

fun array_loop :: "node list \<Rightarrow> frame \<Rightarrow> machine \<Rightarrow> step_result" where
  "array_loop [] f m =
     (let (m, held) = charge_alloc (of_nat (length (f_vals f)) * 16 + 32) m;
          (v, H) = new_array (f_vals f) (m_heap m)
      in go (apply_val v (set_heap H m)))"
| "array_loop (e # es) f m =
     (if is_none e then
        array_loop es (f\<lparr>f_vals := f_vals f @ [VUndef], f_idx := f_idx f + 1\<rparr>) m
      else let p = child (child (f_path f) 0) (f_idx f) in
        if nk e = KSpread then do { c \<leftarrow> kid e 0; visit f c (child p 0) m }
        else visit f e p m)"

definition array_advance :: "frame \<Rightarrow> machine \<Rightarrow> step_result" where
  "array_advance f m = do {
     elems \<leftarrow> kids_at f 0;
     es \<leftarrow> drop_i (f_idx f) elems;
     array_loop es f m
   }"

definition object_advance :: "frame \<Rightarrow> machine \<Rightarrow> step_result" where
  "object_advance f m = do {
     members \<leftarrow> kids_at f 0;
     if int (length members) \<le> f_idx f then go (apply_val (f_obj f) m)
     else do {
       mem \<leftarrow> nth_i members (f_idx f);
       let p = child (child (f_path f) 0) (f_idx f) in
       if nk mem = KSpread then do { c \<leftarrow> kid mem 0; visit f c (child p 0) m }
       else do { c \<leftarrow> kid mem 1; visit f c (child p 1) m }
     }
   }"

definition obj_prop_key :: "golib \<Rightarrow> heap \<Rightarrow> node \<Rightarrow> string option" where
  "obj_prop_key gl H mem = do {
     key \<leftarrow> kid mem 0;
     if flag0 mem then do {
       kv \<leftarrow> eval_const gl H key;
       (case kv of None \<Rightarrow> Some [] | Some v \<Rightarrow> prop_key_string H v)
     }
     else if nk key \<in> {KStr, KStrPart, KName} then Some (nstr key)
     else if nk key = KNum then Some (num_to_str (nu key))
     else Some []
   }"

subsection \<open>Assignment\<close>

definition is_assign_op :: "opkind \<Rightarrow> bool" where
  "is_assign_op op \<longleftrightarrow> op_code OpAssign \<le> op_code op \<and> op_code op \<le> op_code OpNullAssign"

definition base_of_assign :: "opkind \<Rightarrow> opkind" where
  "base_of_assign op = (case op of
      OpAddAssign \<Rightarrow> OpAdd
    | OpSubAssign \<Rightarrow> OpSub
    | OpMulAssign \<Rightarrow> OpMul
    | OpDivAssign \<Rightarrow> OpDiv
    | OpModAssign \<Rightarrow> OpMod
    | OpExpAssign \<Rightarrow> OpExp
    | OpShlAssign \<Rightarrow> OpShl
    | OpShrAssign \<Rightarrow> OpShr
    | OpUShrAssign \<Rightarrow> OpUShr
    | OpBitAndAssign \<Rightarrow> OpBitAnd
    | OpBitOrAssign \<Rightarrow> OpBitOr
    | OpBitXorAssign \<Rightarrow> OpBitXor
    | _ \<Rightarrow> OpNone)"

definition eval_assign :: "node \<Rightarrow> opkind \<Rightarrow> machine \<Rightarrow> step_result" where
  "eval_assign n op m = do {
     target \<leftarrow> kid n 0;
     if op = OpAndAssign \<or> op = OpOrAssign \<or> op = OpNullAssign then
       (if nk target \<noteq> KLocal then fault ELogicalTarget m
        else do {
          cur \<leftarrow> env_lookup_or_undef (m_heap m) (m_env m) (nu target);
          if (op = OpAndAssign \<and> \<not> truthy cur) \<or> (op = OpOrAssign \<and> truthy cur)
              \<or> (op = OpNullAssign \<and> \<not> nullish cur)
          then go (apply_val cur m)
          else descend ((new_frame FrAssign m)\<lparr>f_aux := 0\<rparr>) 1 n m
        })
     else
       let f = new_frame FrAssign m in
       if nk target = KLocal then
         (if base_of_assign op \<noteq> OpNone then do {
            old \<leftarrow> env_lookup_or_undef (m_heap m) (m_env m) (nu target);
            descend (f\<lparr>f_aux := 0, f_vals := [old]\<rparr>) 1 n m
          }
          else descend (f\<lparr>f_aux := 0\<rparr>) 1 n m)
       else if nk target = KMember then do {
         c \<leftarrow> kid target 0;
         visit (f\<lparr>f_aux := 1, f_idx := 0\<rparr>) c (child (child (m_path m) 0) 0) m
       }
       else if nk target = KIndex then do {
         c \<leftarrow> kid target 0;
         visit (f\<lparr>f_aux := 2, f_idx := 0\<rparr>) c (child (child (m_path m) 0) 0) m
       }
       else fault (EAssignTarget (nk target)) m
   }"

text \<open>The value an assignment stores: the right-hand side, or the compound operator applied to the
  old value and it.\<close>

definition assigned_value :: "golib \<Rightarrow> opkind \<Rightarrow> frame \<Rightarrow> machine \<Rightarrow> val fallible" where
  "assigned_value gl base f m =
     (if base = OpNone then ret (m_val m)
      else bind_ok (lift_opt (nth_go (f_vals f) 0)) (\<lambda>old.
        bind_ok (lift_opt (bin_op gl (m_heap m) base old (m_val m))) (\<lambda>r.
          case r of None \<Rightarrow> raise_err (ECompound base) | Some v \<Rightarrow> ret v)))"

definition assign_resume :: "golib \<Rightarrow> frame \<Rightarrow> machine \<Rightarrow> step_result" where
  "assign_resume gl f m = do {
     n \<leftarrow> node_of f;
     target \<leftarrow> kid n 0;
     let base = base_of_assign (op_name n);
     if f_aux f = 0 then
       attempt (assigned_value gl base f m) m (\<lambda>nv. do {
         (found, H) \<leftarrow> env_assign (m_env m) (nu target) nv (m_heap m);
         go (apply_val nv (set_heap H m))
       })
     else if f_aux f = 1 then
       (if f_idx f = 0 then
          let f = f\<lparr>f_obj := m_val m, f_key := nstr target\<rparr> in
          if base \<noteq> OpNone then do {
            old \<leftarrow> get_member (m_heap m) (f_obj f) (f_key f);
            visit_kid (f\<lparr>f_vals := [old], f_idx := 1\<rparr>) 1 m
          }
          else visit_kid (f\<lparr>f_idx := 1\<rparr>) 1 m
        else
          attempt (assigned_value gl base f m) m (\<lambda>nv. do {
            H \<leftarrow> set_member (f_obj f) (f_key f) nv (m_heap m);
            go (apply_val nv (set_heap H m))
          }))
     else if f_aux f = 2 then
       (if f_idx f = 0 then do {
          c \<leftarrow> kid target 1;
          visit (f\<lparr>f_obj := m_val m, f_idx := 1\<rparr>) c (child (child (f_path f) 0) 1) m
        }
        else if f_idx f = 1 then
          let f = f\<lparr>f_idxval := m_val m\<rparr> in
          if base \<noteq> OpNone then do {
            old \<leftarrow> get_index gl (m_heap m) (f_obj f) (f_idxval f);
            visit_kid (f\<lparr>f_vals := [old], f_idx := 2\<rparr>) 1 m
          }
          else visit_kid (f\<lparr>f_idx := 2\<rparr>) 1 m
        else
          attempt (assigned_value gl base f m) m (\<lambda>nv. do {
            H \<leftarrow> set_index gl (f_obj f) (f_idxval f) nv (m_heap m);
            go (apply_val nv (set_heap H m))
          }))
     else fault (EFrameClass (f_aux f)) m
   }"

subsection \<open>Increment and decrement\<close>

definition num_or_nan :: "val \<Rightarrow> f64" where
  "num_or_nan v = (case to_num v of Some x \<Rightarrow> x | None \<Rightarrow> f_nan)"

definition update_value :: "val \<Rightarrow> u64 \<Rightarrow> val \<times> val" where
  "update_value cur flags =
     (let dec = (op_of (drop_bit 1 flags) = OpDec) in
      case cur of
        VBig z \<Rightarrow> (VBig (if dec then z - 1 else z + 1), cur)
      | _ \<Rightarrow> (let x = num_or_nan cur in
          (VF64 (if dec then fsub x (f_of_int 1) else fadd x (f_of_int 1)), VF64 x)))"

definition update_result :: "node \<Rightarrow> val \<times> val \<Rightarrow> val" where
  "update_result n p = (if flag0 n then fst p else snd p)"

definition eval_update :: "node \<Rightarrow> machine \<Rightarrow> step_result" where
  "eval_update n m = do {
     operand \<leftarrow> kid n 0;
     if nk operand = KLocal then do {
       cur \<leftarrow> env_lookup_or_undef (m_heap m) (m_env m) (nu operand);
       let p = update_value cur (nu n);
       (found, H) \<leftarrow> env_assign (m_env m) (nu operand) (fst p) (m_heap m);
       go (apply_val (update_result n p) (set_heap H m))
     }
     else if nk operand = KMember \<or> nk operand = KIndex then do {
       c \<leftarrow> kid operand 0;
       visit ((new_frame FrUpdate m)\<lparr>f_idx := 0, f_aux := (if nk operand = KMember then 1 else 2)\<rparr>)
         c (child (child (m_path m) 0) 0) m
     }
     else fault (EUpdateTarget (nk operand)) m
   }"

definition update_resume :: "golib \<Rightarrow> frame \<Rightarrow> machine \<Rightarrow> step_result" where
  "update_resume gl f m = do {
     n \<leftarrow> node_of f;
     operand \<leftarrow> kid n 0;
     if f_aux f = 1 then do {
       old \<leftarrow> get_member (m_heap m) (m_val m) (nstr operand);
       let p = update_value old (nu n);
       H \<leftarrow> set_member (m_val m) (nstr operand) (fst p) (m_heap m);
       go (apply_val (update_result n p) (set_heap H m))
     }
     else if f_aux f = 2 then
       (if f_idx f = 0 then do {
          c \<leftarrow> kid operand 1;
          visit (f\<lparr>f_obj := m_val m, f_idx := 1\<rparr>) c (child (child (f_path f) 0) 1) m
        }
        else do {
          old \<leftarrow> get_index gl (m_heap m) (f_obj f) (m_val m);
          let p = update_value old (nu n);
          H \<leftarrow> set_index gl (f_obj f) (m_val m) (fst p) (m_heap m);
          go (apply_val (update_result n p) (set_heap H m))
        })
     else fault (EFrameClass (f_aux f)) m
   }"

subsection \<open>try, catch, finally\<close>

definition eval_try :: "node \<Rightarrow> machine \<Rightarrow> step_result" where
  "eval_try n m = do {
     catch_node \<leftarrow> kid n 1;
     finally_node \<leftarrow> kid n 2;
     body \<leftarrow> kid n 0;
     let m1 = (if is_none finally_node then m
               else push ((new_frame FrFinally m)\<lparr>f_outer := m_env m\<rparr>) m);
         m2 = (if is_none catch_node then m1
               else push ((new_frame FrCatch m)\<lparr>f_outer := m_env m\<rparr>) m1)
     in go (set_control body (child (m_path m) 0) m2)
   }"

text \<open>The finally block of the frame \<open>f\<close> (already taken off) starts, with the signal to resume when
  it completes.\<close>

definition trigger_finally :: "frame \<Rightarrow> signal option \<Rightarrow> machine \<Rightarrow> step_result" where
  "trigger_finally f pn m = do {
     n \<leftarrow> node_of f;
     blk \<leftarrow> kid n 2;
     let run = (zero_frame FrFinallyRun)\<lparr>f_node := f_node f, f_path := f_path f,
                 f_outer := f_outer f, f_pend := pn\<rparr>
     in go (set_control blk (child (f_path f) 2) (set_env (f_outer f) (push run m)))
   }"

subsection \<open>for(;;)\<close>

text \<open>The phases of a loop frame, kept in \<open>f_idx\<close>.\<close>

definition for_init :: int where "for_init = 0"
definition for_cond :: int where "for_cond = 1"
definition for_body :: int where "for_body = 2"
definition for_incr :: int where "for_incr = 3"
definition while_cond :: int where "while_cond = 0"
definition while_body :: int where "while_body = 1"
definition do_body :: int where "do_body = 0"
definition do_cond :: int where "do_cond = 1"

definition for_eval_body :: "frame \<Rightarrow> machine \<Rightarrow> step_result" where
  "for_eval_body f m = visit_kid (f\<lparr>f_idx := for_body\<rparr>) 3 (set_env (f_env f) m)"

definition for_eval_cond :: "frame \<Rightarrow> machine \<Rightarrow> step_result" where
  "for_eval_cond f m = do {
     n \<leftarrow> node_of f;
     cond \<leftarrow> kid n 1;
     if is_none cond then for_eval_body f (set_env (f_env f) m)
     else visit_kid (f\<lparr>f_idx := for_cond\<rparr>) 1 (set_env (f_env f) m)
   }"

definition for_eval_incr :: "frame \<Rightarrow> machine \<Rightarrow> step_result" where
  "for_eval_incr f m = do {
     n \<leftarrow> node_of f;
     incr \<leftarrow> kid n 2;
     if is_none incr then for_eval_cond f (set_env (f_env f) m)
     else visit_kid (f\<lparr>f_idx := for_incr\<rparr>) 2 (set_env (f_env f) m)
   }"

definition eval_for :: "node \<Rightarrow> machine \<Rightarrow> step_result" where
  "eval_for n m = do {
     init \<leftarrow> kid n 0;
     let f = (new_frame FrFor m)\<lparr>f_outer := m_env m\<rparr> in
     if is_none init then for_eval_cond (f\<lparr>f_idx := for_cond, f_env := m_env m\<rparr>) m
     else visit_kid (f\<lparr>f_idx := for_init\<rparr>) 0 m
   }"

definition for_resume :: "frame \<Rightarrow> machine \<Rightarrow> step_result" where
  "for_resume f m =
     (if f_idx f = for_init then for_eval_cond (f\<lparr>f_env := m_env m\<rparr>) m
      else if f_idx f = for_cond then
        (if truthy (m_val m) then for_eval_body f m else leave f m)
      else if f_idx f = for_body then for_eval_incr f m
      else if f_idx f = for_incr then for_eval_cond f m
      else fault (EPhase (f_idx f)) m)"

subsection \<open>while and do-while\<close>

definition while_eval_cond :: "frame \<Rightarrow> machine \<Rightarrow> step_result" where
  "while_eval_cond f m = visit_kid (f\<lparr>f_idx := while_cond\<rparr>) 0 (set_env (f_outer f) m)"

definition while_resume :: "frame \<Rightarrow> machine \<Rightarrow> step_result" where
  "while_resume f m =
     (if f_idx f = while_cond then
        (if truthy (m_val m) then visit_kid (f\<lparr>f_idx := while_body\<rparr>) 1 (set_env (f_outer f) m)
         else leave f m)
      else if f_idx f = while_body then while_eval_cond f m
      else fault (EPhase (f_idx f)) m)"

definition do_while_eval_cond :: "frame \<Rightarrow> machine \<Rightarrow> step_result" where
  "do_while_eval_cond f m = visit_kid (f\<lparr>f_idx := do_cond\<rparr>) 1 (set_env (f_outer f) m)"

definition do_while_resume :: "frame \<Rightarrow> machine \<Rightarrow> step_result" where
  "do_while_resume f m =
     (if f_idx f = do_body then do_while_eval_cond f m
      else if f_idx f = do_cond then
        (if truthy (m_val m) then visit_kid (f\<lparr>f_idx := do_body\<rparr>) 0 (set_env (f_outer f) m)
         else leave f m)
      else fault (EPhase (f_idx f)) m)"

subsection \<open>for-of\<close>

text \<open>The pattern of the loop's declaration, \<open>KVarDecl / KList / KDeclr / pattern\<close>.\<close>

definition for_of_pattern :: "node \<Rightarrow> node option" where
  "for_of_pattern n = do {
     decl \<leftarrow> kid n 0;
     lst \<leftarrow> kid decl 0;
     d \<leftarrow> kid lst 0;
     kid d 0
   }"

definition for_of_step :: "golib \<Rightarrow> frame \<Rightarrow> machine \<Rightarrow> step_result" where
  "for_of_step gl f m =
     (case f_obj f of
        VArr a \<Rightarrow> do {
          elems \<leftarrow> get_arr (m_heap m) a;
          if int (length elems) \<le> f_idx f then leave f m
          else do {
            n \<leftarrow> node_of f;
            pat \<leftarrow> for_of_pattern n;
            x \<leftarrow> nth_i elems (f_idx f);
            attempt (bind_pattern gl pat x (m_heap m, [])) m (\<lambda>(H, slots).
              case push_env (f_outer f) slots H of (e, H') \<Rightarrow>
                visit_kid f 2 (set_env (Some e) (set_heap H' m)))
          }
        }
      | _ \<Rightarrow> leave f m)"

definition for_of_resume :: "golib \<Rightarrow> frame \<Rightarrow> machine \<Rightarrow> step_result" where
  "for_of_resume gl f m =
     (if f_idx f < 0 then for_of_step gl (f\<lparr>f_obj := m_val m, f_idx := 0\<rparr>) m
      else for_of_step gl (f\<lparr>f_idx := f_idx f + 1\<rparr>) m)"

subsection \<open>switch\<close>

text \<open>The first clause whose literal equals the discriminant, else the last default clause; \<open>-1\<close>
  when there is neither.\<close>

fun switch_find :: "golib \<Rightarrow> heap \<Rightarrow> val \<Rightarrow> node list \<Rightarrow> int \<Rightarrow> int \<Rightarrow> int option" where
  "switch_find gl H disc [] i default_idx = Some default_idx"
| "switch_find gl H disc (cl # cls) i default_idx =
     (if flag0 cl then switch_find gl H disc cls (i + 1) i
      else do {
        c \<leftarrow> kid cl 0;
        lv \<leftarrow> eval_const gl H c;
        (case lv of
           Some v \<Rightarrow> if strict_eq v disc then Some i else switch_find gl H disc cls (i + 1) default_idx
         | None \<Rightarrow> switch_find gl H disc cls (i + 1) default_idx)
      })"

definition switch_run :: "frame \<Rightarrow> machine \<Rightarrow> step_result" where
  "switch_run f m = do {
     clauses \<leftarrow> kids_at f 1;
     cl \<leftarrow> nth_i clauses (f_aux f);
     body \<leftarrow> kid cl 1;
     let stmts = nkids body in
     if int (length stmts) \<le> f_idx f then leave f m
     else do {
       s \<leftarrow> nth_i stmts (f_idx f);
       visit f s (child (child (child (child (f_path f) 1) (f_aux f)) 1) (f_idx f)) m
     }
   }"

definition switch_match :: "golib \<Rightarrow> frame \<Rightarrow> machine \<Rightarrow> step_result" where
  "switch_match gl f m = do {
     clauses \<leftarrow> kids_at f 1;
     matched \<leftarrow> switch_find gl (m_heap m) (f_obj f) clauses 0 (- 1);
     if matched < 0 then leave f m
     else switch_run (f\<lparr>f_aux := matched, f_idx := 0\<rparr>) m
   }"

end
