(* ===== verification/Cek_Step.thy ===== *)
theory Cek_Step
  imports Cek_Control
begin

section \<open>The step function\<close>

text \<open>
  \<open>internal/cek/eval.go\<close>, \<open>apply.go\<close>, \<open>unwind.go\<close> and the run loops of \<open>machine.go\<close>: one transition
  in each of the three modes, calls to closures and natives, and the two monomorphized loops.
\<close>

subsection \<open>Eval mode\<close>

definition set_clo :: "string \<Rightarrow> path \<Rightarrow> addr option \<Rightarrow> machine \<Rightarrow> machine" where
  "set_clo d p e m = (case new_clo d p e (m_heap m) of (v, H) \<Rightarrow> apply_val v (set_heap H m))"

definition eval_step :: "interp \<Rightarrow> machine \<Rightarrow> step_result" where
  "eval_step I m = do {
     n \<leftarrow> m_node m;
     (case nk n of
        KNum \<Rightarrow> go (apply_val (VF64 (nu n)) m)
      | KBigInt \<Rightarrow> go (apply_val (VBig (mag_int (nu n) (nmag n))) m)
      | KStr \<Rightarrow> go (apply_val (VStr (nstr n)) m)
      | KBool \<Rightarrow> go (apply_val (bool_val (nu n \<noteq> 0)) m)
      | KNull \<Rightarrow> go (apply_val VNull m)
      | KUndefined \<Rightarrow> go (apply_val VUndef m)
      | KRegex \<Rightarrow> (case new_opq ''regex'' (bytes_of (nstr n)) (m_heap m) of (v, H) \<Rightarrow>
          go (apply_val v (set_heap H m)))
      | KTemplate \<Rightarrow> template_advance ((new_frame FrTemplate m)\<lparr>f_idx := 0\<rparr>) m
      | KLocal \<Rightarrow> do {
          r \<leftarrow> env_lookup (m_heap m) (m_env m) (nu n);
          (case r of None \<Rightarrow> fault (EUnboundLocal (nu n)) m | Some v \<Rightarrow> go (apply_val v m))
        }
      | KRef \<Rightarrow> go (set_clo (nstr n) [] None m)
      | KSelfRef \<Rightarrow> go (set_clo (m_def m) [] None m)
      | KName \<Rightarrow> fault (EFreeName (nstr n)) m
      | KArray \<Rightarrow> array_advance ((new_frame FrArray m)\<lparr>f_vals := []\<rparr>) m
      | KObject \<Rightarrow> (case new_record (m_heap m) of (a, H) \<Rightarrow>
          object_advance ((new_frame FrObject m)\<lparr>f_idx := 0, f_obj := VRec a\<rparr>) (set_heap H m))
      | KSpread \<Rightarrow> eval_child_of n 0 m
      | KCall \<Rightarrow> descend ((new_frame FrCall m)\<lparr>f_idx := 0\<rparr>) 0 n m
      | KMember \<Rightarrow> descend (new_frame FrMember m) 0 n m
      | KIndex \<Rightarrow> descend ((new_frame FrIndex m)\<lparr>f_idx := 0\<rparr>) 0 n m
      | KBinary \<Rightarrow>
          (let op = op_name n in
           if is_assign_op op then eval_assign n op m
           else if op = OpAnd \<or> op = OpOr \<or> op = OpNullish
             then descend ((new_frame FrLogic m)\<lparr>f_idx := 0\<rparr>) 0 n m
           else descend ((new_frame FrBin m)\<lparr>f_idx := 0\<rparr>) 0 n m)
      | KUnary \<Rightarrow> descend (new_frame FrUnary m) 0 n m
      | KUpdate \<Rightarrow> eval_update n m
      | KCond \<Rightarrow> descend (new_frame FrCond m) 0 n m
      | KTypeof \<Rightarrow> descend (new_frame FrTypeof m) 0 n m
      | KAwait \<Rightarrow> descend (new_frame FrAwait m) 0 n m
      | KAsConst \<Rightarrow> eval_child_of n 0 m
      | KSatisfy \<Rightarrow> eval_child_of n 0 m
      | KFunc \<Rightarrow> go (set_clo (m_def m) (m_path m) (m_env m) m)
      | KBlock \<Rightarrow> block_advance ((new_frame FrBlock m)\<lparr>f_outer := m_env m, f_idx := 0\<rparr>) m
      | KVarDecl \<Rightarrow> var_decl_advance (in_gl I) ((new_frame FrVarDecl m)\<lparr>f_idx := 0, f_vals := []\<rparr>) m
      | KExprStmt \<Rightarrow> descend (new_frame FrExprStmt m) 0 n m
      | KIf \<Rightarrow> descend (new_frame FrIf m) 0 n m
      | KFor \<Rightarrow> eval_for n m
      | KForOf \<Rightarrow> descend ((new_frame FrForOf m)\<lparr>f_outer := m_env m, f_idx := - 1\<rparr>) 1 n m
      | KWhile \<Rightarrow> descend ((new_frame FrWhile m)\<lparr>f_outer := m_env m, f_idx := 0\<rparr>) 0 n m
      | KDoWhile \<Rightarrow>
          set_child_control n 0 (push ((new_frame FrDoWhile m)\<lparr>f_outer := m_env m, f_idx := 0\<rparr>) m)
      | KSwitch \<Rightarrow> descend ((new_frame FrSwitch m)\<lparr>f_outer := m_env m, f_idx := - 1\<rparr>) 0 n m
      | KBreak \<Rightarrow> go (raise_sig SigBreak VUndef m)
      | KContinue \<Rightarrow> go (raise_sig SigContinue VUndef m)
      | KReturn \<Rightarrow> do {
          c \<leftarrow> kid n 0;
          if is_none c then go (raise_sig SigReturn VUndef m)
          else descend (new_frame FrReturn m) 0 n m
        }
      | KThrow \<Rightarrow> descend (new_frame FrThrow m) 0 n m
      | KTry \<Rightarrow> eval_try n m
      | k \<Rightarrow> fault (ENodeKind k) m)
   }"

subsection \<open>Calls\<close>

definition restore_caller :: "interp \<Rightarrow> frame \<Rightarrow> machine \<Rightarrow> machine" where
  "restore_caller I f m =
     (let m1 = m\<lparr>m_def := f_retdef f\<rparr>;
          m2 = (if f_retdef f = [] then m1
                else case in_src I (f_retdef f) of None \<Rightarrow> m1 | Some r \<Rightarrow> m1\<lparr>m_root := r\<rparr>)
      in m2\<lparr>m_env := f_retenv f, m_path := f_retpath f\<rparr>)"

fun merge_entries :: "addr \<Rightarrow> (string \<times> val) list \<Rightarrow> heap \<Rightarrow> heap option" where
  "merge_entries a [] H = Some H"
| "merge_entries a ((k, v) # r) H = do { H' \<leftarrow> rec_set a k v H; merge_entries a r H' }"

text \<open>\<open>mergeInto\<close>: a record's own keys in order, or an array's elements under their indices.\<close>

definition merge_into :: "addr \<Rightarrow> val \<Rightarrow> heap \<Rightarrow> heap option" where
  "merge_into a src H = (case src of
      VRec s \<Rightarrow> do {
        (ks, mp) \<leftarrow> get_rec H s;
        merge_entries a (map (\<lambda>k. (k, case mp k of Some v \<Rightarrow> v | None \<Rightarrow> VUndef)) ks) H
      }
    | VArr s \<Rightarrow> do {
        es \<leftarrow> get_arr H s;
        merge_entries a (zip (map (\<lambda>i. int_str (int i)) [0..<length es]) es) H
      }
    | _ \<Rightarrow> Some H)"

text \<open>\<open>performNative\<close>.  A read-declared native that recorded an effect is a conformance fault; one
  that parks leaves the machine at the call in apply mode.\<close>

definition perform_native :: "interp \<Rightarrow> frame \<Rightarrow> string \<Rightarrow> val list \<Rightarrow> machine \<Rightarrow> step_result" where
  "perform_native I f hash args m =
     (case in_fns I hash of
        None \<Rightarrow> fault (ENoNative hash) (push f m)
      | Some fn \<Rightarrow> do {
          let seen = length (ho_effects (m_host m));
          (H, ho, v, park) \<leftarrow> fn (m_heap m) (m_host m) args;
          let m' = m\<lparr>m_heap := H, m_host := ho\<rparr>;
          if in_class I hash = ''read'' \<and> seen < length (ho_effects ho)
              \<and> \<not> in_mutant I ''TCB_SKIP_EFFECT_CONFORMANCE''
          then fault (EConformance hash (ef_class (ho_effects ho ! seen))) (push f m')
          else (case park of
              None \<Rightarrow> go (apply_val v m')
            | Some pk \<Rightarrow>
                let mp = m'\<lparr>m_path := f_path f, m_mode := ModeApply, m_val := VUndef\<rparr> in
                (case pk of
                   ParkOnWake w \<Rightarrow> stop ((zero_outcome OutParked)\<lparr>o_state := Some (snapshot ParkWake mp),
                     o_wake := Some w, o_transitions := m_transitions mp\<rparr>) mp
                 | ParkOnCondition c \<Rightarrow> stop ((zero_outcome OutParked)\<lparr>o_state := Some (snapshot ParkSignal mp),
                     o_cond := Some c, o_transitions := m_transitions mp\<rparr>) mp))
        })"

definition perform_call :: "interp \<Rightarrow> frame \<Rightarrow> machine \<Rightarrow> step_result" where
  "perform_call I f m = (case f_vals f of
      [] \<Rightarrow> None
    | callee # args \<Rightarrow>
        (case callee of
           VClo oid def path env \<Rightarrow>
             attempt (load_ast I def) (push f m) (\<lambda>root.
               (case navigate root path of
                  None \<Rightarrow> fault (ENavigate def) (push f m)
                | Some fn \<Rightarrow>
                    if nk fn = KNativeBody then perform_native I f def args m
                    else if nk fn = KFunc then
                      attempt (bind_params (in_gl I) fn args env (m_heap m)) (push f m) (\<lambda>(act, H). do {
                        body \<leftarrow> kid fn 3;
                        let r = (zero_frame FrRet)\<lparr>f_retdef := m_def m, f_retpath := f_path f,
                                  f_retenv := m_env m\<rparr>
                        in go (set_control body (child path 3)
                             ((push r m)\<lparr>m_def := def, m_root := root, m_env := Some act, m_heap := H\<rparr>))
                      })
                    else fault (ECalleeKind (nk fn)) (push f m)))
         | _ \<Rightarrow> fault (ENotFunction (tag_of callee)) (push f m)))"

definition arg_advance :: "interp \<Rightarrow> frame \<Rightarrow> machine \<Rightarrow> step_result" where
  "arg_advance I f m = do {
     args \<leftarrow> kids_at f 1;
     if int (length args) \<le> f_aux f then perform_call I f m
     else do {
       arg \<leftarrow> nth_i args (f_aux f);
       let p = child (child (f_path f) 1) (f_aux f) in
       if nk arg = KSpread then do { c \<leftarrow> kid arg 0; visit f c (child p 0) m }
       else visit f arg p m
     }
   }"

text \<open>The values a spread or plain element adds to a list under construction.\<close>

definition spread_vals :: "heap \<Rightarrow> node \<Rightarrow> val \<Rightarrow> val list option" where
  "spread_vals H e v =
     (if nk e = KSpread then (case v of VArr a \<Rightarrow> get_arr H a | _ \<Rightarrow> Some []) else Some [v])"

definition call_resume :: "interp \<Rightarrow> frame \<Rightarrow> machine \<Rightarrow> step_result" where
  "call_resume I f m =
     (if f_idx f = 0 then do {
        n \<leftarrow> node_of f;
        if flag0 n \<and> nullish (m_val m) then go (apply_val VUndef m)
        else arg_advance I (f\<lparr>f_vals := [m_val m], f_idx := 1, f_aux := 0\<rparr>) m
      }
      else do {
        args \<leftarrow> kids_at f 1;
        arg \<leftarrow> nth_i args (f_aux f);
        vs \<leftarrow> spread_vals (m_heap m) arg (m_val m);
        arg_advance I (f\<lparr>f_vals := f_vals f @ vs, f_aux := f_aux f + 1\<rparr>) m
      })"

subsection \<open>Apply mode\<close>

definition branch :: "frame \<Rightarrow> int \<Rightarrow> machine \<Rightarrow> step_result" where
  "branch f i m = do { n \<leftarrow> node_of f; c \<leftarrow> kid_i n i; go (set_control c (child (f_path f) i) m) }"

definition apply_if :: "frame \<Rightarrow> machine \<Rightarrow> step_result" where
  "apply_if f m = do {
     n \<leftarrow> node_of f;
     if truthy (m_val m) then branch f 1 m
     else do {
       e \<leftarrow> kid n 2;
       if is_none e then go (apply_val VUndef m) else branch f 2 m
     }
   }"

definition apply_bin :: "golib \<Rightarrow> frame \<Rightarrow> machine \<Rightarrow> step_result" where
  "apply_bin gl f m =
     (if f_idx f = 0 then visit_kid (f\<lparr>f_vals := [m_val m], f_idx := 1\<rparr>) 1 m
      else do {
        n \<leftarrow> node_of f;
        left \<leftarrow> nth_go (f_vals f) 0;
        if op_name n = OpIn then do {
          k \<leftarrow> prop_key_string (m_heap m) left;
          b \<leftarrow> has_own (m_heap m) k (m_val m);
          go (apply_val (bool_val b) m)
        }
        else do {
          r \<leftarrow> bin_op gl (m_heap m) (op_name n) left (m_val m);
          (case r of
             None \<Rightarrow> fault (EBinary (op_name n) (tag_of left) (tag_of (m_val m))) m
           | Some v \<Rightarrow> go (apply_val v m))
        }
      })"

text \<open>Whether the left operand alone decides \<open>&&\<close>, \<open>||\<close> or \<open>??\<close>.\<close>

definition short_circuits :: "opkind \<Rightarrow> val \<Rightarrow> bool" where
  "short_circuits op left =
     (if op = OpAnd then \<not> truthy left
      else if op = OpOr then truthy left
      else if op = OpNullish then \<not> nullish left
      else False)"

definition apply_logic :: "frame \<Rightarrow> machine \<Rightarrow> step_result" where
  "apply_logic f m = do {
     n \<leftarrow> node_of f;
     if f_idx f = 0 then
       (if short_circuits (op_name n) (m_val m) then go (apply_val (m_val m) m)
        else visit_kid (f\<lparr>f_idx := 1\<rparr>) 1 m)
     else go (apply_val (m_val m) m)
   }"

definition apply_unary :: "golib \<Rightarrow> frame \<Rightarrow> machine \<Rightarrow> step_result" where
  "apply_unary gl f m = do {
     n \<leftarrow> node_of f;
     (case unary_op gl (op_name n) (m_val m) of
        None \<Rightarrow> fault (EUnary (op_name n) (tag_of (m_val m))) m
      | Some v \<Rightarrow> go (apply_val v m))
   }"

definition apply_member :: "frame \<Rightarrow> machine \<Rightarrow> step_result" where
  "apply_member f m = do {
     n \<leftarrow> node_of f;
     if flag0 n \<and> nullish (m_val m) then go (apply_val VUndef m)
     else do {
       v \<leftarrow> get_member (m_heap m) (m_val m) (nstr n);
       go (apply_val v m)
     }
   }"

definition apply_index :: "golib \<Rightarrow> frame \<Rightarrow> machine \<Rightarrow> step_result" where
  "apply_index gl f m =
     (if f_idx f = 0 then do {
        n \<leftarrow> node_of f;
        if flag0 n \<and> nullish (m_val m) then go (apply_val VUndef m)
        else visit_kid (f\<lparr>f_obj := m_val m, f_idx := 1\<rparr>) 1 m
      }
      else do {
        v \<leftarrow> get_index gl (m_heap m) (f_obj f) (m_val m);
        go (apply_val v m)
      })"

definition apply_array :: "frame \<Rightarrow> machine \<Rightarrow> step_result" where
  "apply_array f m = do {
     es \<leftarrow> kids_at f 0;
     e \<leftarrow> nth_i es (f_idx f);
     vs \<leftarrow> spread_vals (m_heap m) e (m_val m);
     array_advance (f\<lparr>f_vals := f_vals f @ vs, f_idx := f_idx f + 1\<rparr>) m
   }"

definition apply_object :: "golib \<Rightarrow> frame \<Rightarrow> machine \<Rightarrow> step_result" where
  "apply_object gl f m = do {
     mems \<leftarrow> kids_at f 0;
     mem \<leftarrow> nth_i mems (f_idx f);
     (case f_obj f of
        VRec a \<Rightarrow> do {
          H \<leftarrow> (if nk mem = KSpread then merge_into a (m_val m) (m_heap m)
               else do {
                 k \<leftarrow> obj_prop_key gl (m_heap m) mem;
                 rec_set a k (m_val m) (m_heap m)
               });
          object_advance (f\<lparr>f_idx := f_idx f + 1\<rparr>) (set_heap H m)
        }
      | _ \<Rightarrow> None)
   }"

definition apply_var_decl :: "golib \<Rightarrow> frame \<Rightarrow> machine \<Rightarrow> step_result" where
  "apply_var_decl gl f m = do {
     decls \<leftarrow> kids_at f 0;
     d \<leftarrow> nth_i decls (f_idx f);
     pat \<leftarrow> kid d 0;
     attempt (bind_pattern gl pat (m_val m) (m_heap m, f_vals f)) m (\<lambda>(H, vals).
       var_decl_advance gl (f\<lparr>f_vals := vals, f_idx := f_idx f + 1\<rparr>) (set_heap H m))
   }"

definition apply_switch :: "golib \<Rightarrow> frame \<Rightarrow> machine \<Rightarrow> step_result" where
  "apply_switch gl f m =
     (if f_idx f = - 1 then switch_match gl (f\<lparr>f_obj := m_val m\<rparr>) m
      else switch_run (f\<lparr>f_idx := f_idx f + 1\<rparr>) m)"

definition apply_ret :: "interp \<Rightarrow> frame \<Rightarrow> machine \<Rightarrow> step_result" where
  "apply_ret I f m =
     (if m_kont m = [] then stop (done_with (m_val m)) m
      else go ((restore_caller I f m)\<lparr>m_mode := ModeApply\<rparr>))"

definition apply_finally_run :: "frame \<Rightarrow> machine \<Rightarrow> step_result" where
  "apply_finally_run f m = (case f_pend f of
      Some s \<Rightarrow> go (m\<lparr>m_sig := s, m_mode := ModeUnwind\<rparr>)
    | None \<Rightarrow> go (apply_val VUndef m))"

text \<open>The frame \<open>f\<close> on top receives the value; \<open>m\<close> is the machine without it.\<close>

definition apply_frame :: "interp \<Rightarrow> frame \<Rightarrow> machine \<Rightarrow> step_result" where
  "apply_frame I f m = (case f_kind f of
      FrRet \<Rightarrow> apply_ret I f m
    | FrBlock \<Rightarrow> block_advance (f\<lparr>f_idx := f_idx f + 1\<rparr>) m
    | FrVarDecl \<Rightarrow> apply_var_decl (in_gl I) f m
    | FrExprStmt \<Rightarrow> go (apply_val VUndef m)
    | FrIf \<Rightarrow> apply_if f m
    | FrBin \<Rightarrow> apply_bin (in_gl I) f m
    | FrLogic \<Rightarrow> apply_logic f m
    | FrUnary \<Rightarrow> apply_unary (in_gl I) f m
    | FrTypeof \<Rightarrow> go (apply_val (VStr (typeof_str (m_val m))) m)
    | FrAwait \<Rightarrow> go (apply_val (m_val m) m)
    | FrCond \<Rightarrow> if truthy (m_val m) then branch f 1 m else branch f 2 m
    | FrMember \<Rightarrow> apply_member f m
    | FrIndex \<Rightarrow> apply_index (in_gl I) f m
    | FrArray \<Rightarrow> apply_array f m
    | FrObject \<Rightarrow> apply_object (in_gl I) f m
    | FrCall \<Rightarrow> call_resume I f m
    | FrReturn \<Rightarrow> go (raise_sig SigReturn (m_val m) m)
    | FrThrow \<Rightarrow> go (raise_sig SigThrow (m_val m) m)
    | FrAssign \<Rightarrow> assign_resume (in_gl I) f m
    | FrUpdate \<Rightarrow> update_resume (in_gl I) f m
    | FrTemplate \<Rightarrow> template_advance (f\<lparr>f_vals := f_vals f @ [m_val m], f_idx := f_idx f + 1\<rparr>) m
    | FrFor \<Rightarrow> for_resume f m
    | FrWhile \<Rightarrow> while_resume f m
    | FrDoWhile \<Rightarrow> do_while_resume f m
    | FrForOf \<Rightarrow> for_of_resume (in_gl I) f m
    | FrSwitch \<Rightarrow> apply_switch (in_gl I) f m
    | FrCatch \<Rightarrow> go (apply_val (m_val m) m)
    | FrFinally \<Rightarrow> trigger_finally f None m
    | FrFinallyRun \<Rightarrow> apply_finally_run f m
    | FrMemberAssign \<Rightarrow> fault EFrameKind (push f m))"

definition apply_step :: "interp \<Rightarrow> machine \<Rightarrow> step_result" where
  "apply_step I m = (case m_kont m of
      [] \<Rightarrow> stop (done_with (m_val m)) m
    | f # r \<Rightarrow> apply_frame I f (m\<lparr>m_kont := r\<rparr>))"

subsection \<open>Unwind mode\<close>

definition uncaught :: "machine \<Rightarrow> step_result" where
  "uncaught m = (case fst (m_sig m) of
      SigThrow \<Rightarrow> stop ((zero_outcome OutFaulted)\<lparr>o_fault := snd (m_sig m)\<rparr>) m
    | SigReturn \<Rightarrow> stop (done_with (snd (m_sig m))) m
    | _ \<Rightarrow> stop (error_with ETopLevelJump) m)"

definition unwind_ret :: "interp \<Rightarrow> frame \<Rightarrow> machine \<Rightarrow> step_result" where
  "unwind_ret I f m =
     (if fst (m_sig m) = SigReturn then
        (if m_kont m = [] then stop (done_with (snd (m_sig m))) m
         else go (apply_val (snd (m_sig m)) (restore_caller I f m)))
      else if m_kont m = [] then uncaught m
      else go ((restore_caller I f m)\<lparr>m_mode := ModeUnwind\<rparr>))"

definition unwind_catch :: "golib \<Rightarrow> frame \<Rightarrow> machine \<Rightarrow> step_result" where
  "unwind_catch gl f m =
     (if fst (m_sig m) = SigThrow then do {
        n \<leftarrow> node_of f;
        cn \<leftarrow> kid n 1;
        blk \<leftarrow> kid cn 1;
        let p = child (child (f_path f) 1) 1 in
        if flag0 cn then do {
          pat \<leftarrow> kid cn 0;
          attempt (bind_pattern gl pat (snd (m_sig m)) (m_heap m, [])) m (\<lambda>(H, slots).
            case push_env (f_outer f) slots H of (e, H') \<Rightarrow>
              go (set_control blk p (set_env (Some e) (set_heap H' m))))
        }
        else go (set_control blk p (set_env (f_outer f) m))
      }
      else go m)"

text \<open>A loop frame met by a signal: \<open>break\<close> ends the loop, \<open>continue\<close> is the loop's own business,
  anything else leaves the loop and goes on unwinding.\<close>

definition unwind_loop :: "frame \<Rightarrow> step_result \<Rightarrow> machine \<Rightarrow> step_result" where
  "unwind_loop f on_continue m = (case fst (m_sig m) of
      SigBreak \<Rightarrow> leave f m
    | SigContinue \<Rightarrow> on_continue
    | _ \<Rightarrow> go (set_env (f_outer f) m))"

definition unwind_frame :: "interp \<Rightarrow> frame \<Rightarrow> machine \<Rightarrow> step_result" where
  "unwind_frame I f m = (case f_kind f of
      FrRet \<Rightarrow> unwind_ret I f m
    | FrCatch \<Rightarrow> unwind_catch (in_gl I) f m
    | FrFinally \<Rightarrow> trigger_finally f (Some (m_sig m)) m
    | FrFinallyRun \<Rightarrow> go m
    | FrFor \<Rightarrow> unwind_loop f (for_eval_incr f m) m
    | FrWhile \<Rightarrow> unwind_loop f (while_eval_cond f m) m
    | FrDoWhile \<Rightarrow> unwind_loop f (do_while_eval_cond f m) m
    | FrForOf \<Rightarrow> unwind_loop f (for_of_step (in_gl I) (f\<lparr>f_idx := f_idx f + 1\<rparr>) m) m
    | FrSwitch \<Rightarrow>
        (if fst (m_sig m) = SigBreak then leave f m else go (set_env (f_outer f) m))
    | _ \<Rightarrow> go m)"

definition unwind_step :: "interp \<Rightarrow> machine \<Rightarrow> step_result" where
  "unwind_step I m = (case m_kont m of
      [] \<Rightarrow> uncaught m
    | f # r \<Rightarrow> unwind_frame I f (m\<lparr>m_kont := r\<rparr>))"

subsection \<open>The run loops\<close>

text \<open>One turn of \<open>run\<close> after the meter has allowed it; an outcome gets the transition count and the
  effect trace.\<close>

definition cek_step :: "interp \<Rightarrow> machine \<Rightarrow> step_result" where
  "cek_step I m0 =
     (let m = m0\<lparr>m_transitions := m_transitions m0 + 1\<rparr> in
      case m_mode m of
        ModeEval \<Rightarrow> eval_step I m
      | ModeApply \<Rightarrow> apply_step I m
      | ModeUnwind \<Rightarrow> unwind_step I m)"

definition seal :: "machine \<Rightarrow> outcome \<Rightarrow> outcome" where
  "seal m out = out\<lparr>o_transitions := m_transitions m, o_effects := ho_effects (m_host m)\<rparr>"

function run_fuel :: "interp \<Rightarrow> i64 \<Rightarrow> machine \<Rightarrow> outcome option" where
  "run_fuel I steps m =
     (case fuel_tick steps of (s, held) \<Rightarrow>
        if \<not> held then Some (park_meter FuelMeter m)
        else (case cek_step I m of
            None \<Rightarrow> None
          | Some (m', Some out) \<Rightarrow> Some (seal m' out)
          | Some (m', None) \<Rightarrow> run_fuel I s m'))"
  by auto

text \<open>The number of transitions a budget allows: the budget itself unless the decrement of the most
  negative \<open>int64\<close> wraps.\<close>

definition ticks_left :: "i64 \<Rightarrow> nat" where
  "ticks_left steps = nat (sint (steps - 1) + 1)"

lemma sint_minus_1:
  fixes s :: i64
  assumes "0 \<le> sint s"
  shows "sint (s - 1) = sint s - 1"
proof -
  have "sint s < 2 ^ 63" using sint_less [of s] by simp
  then have "signed_take_bit 63 (sint s - 1) = sint s - 1"
    using assms by (intro signed_take_bit_int_eq_self) simp_all
  then show ?thesis by (simp add: sint_word_ariths)
qed

lemma ticks_left_tick: "0 \<le> sint (s - 1) \<Longrightarrow> ticks_left s = Suc (ticks_left (s - 1))"
  using sint_minus_1 [of "s - 1"] by (simp add: ticks_left_def)

termination run_fuel
  by (relation "measure (\<lambda>(I, s, m). ticks_left s)") (auto simp: fuel_tick_def Let_def ticks_left_tick)

declare run_fuel.simps [simp del]

partial_function (option) run_gov ::
  "interp \<Rightarrow> i64 \<Rightarrow> (i64 \<Rightarrow> bool) \<Rightarrow> i64 \<Rightarrow> machine \<Rightarrow> outcome option" where
  "run_gov I ceiling late n m =
     (case gov_tick ceiling late n of (c, held) \<Rightarrow>
        if \<not> held then Some (park_meter GovernorMeter m)
        else (case cek_step I m of
            None \<Rightarrow> None
          | Some (m', oc) \<Rightarrow>
              (case oc of Some out \<Rightarrow> Some (seal m' out) | None \<Rightarrow> run_gov I ceiling late c m')))"

declare run_gov.simps [code]

end
