(* ===== verification/Cek_Run.thy ===== *)
theory Cek_Run
  imports Cek_Step
begin

section \<open>Starting and resuming a run\<close>

text \<open>
  \<open>Run\<close> and \<open>newMachine\<close> of \<open>internal/cek/machine.go\<close>, and \<open>resume.go\<close>: a parked state is turned back
  into a machine by re-deriving every node from its path, a value is delivered at the parked call, and
  the run goes on under a fresh budget.  Two arguments stand for what the process reads outside:
  \<open>late\<close>, whether the clock is past the deadline at a given count, and \<open>t\<close>, the number of reads of
  the world made so far.
\<close>

record run_req =
  rq_def :: string
  rq_args :: "val list"
  rq_tier :: tier
  rq_fuel :: i64
  rq_alloc :: i64
  rq_ceiling :: i64
  rq_principal :: principal
  rq_env :: "addr option"
  rq_asof :: "int option"

definition new_host :: "interp \<Rightarrow> principal \<Rightarrow> int option \<Rightarrow> nat \<Rightarrow> host" where
  "new_host I p asof t = \<lparr>ho_world = in_world I, ho_principal = p, ho_effects = [],
     ho_asof = asof, ho_tick = t\<rparr>"

text \<open>\<open>bottom_frame\<close> is the activation boundary under every run.\<close>

definition bottom_frame :: frame where
  "bottom_frame = zero_frame FrRet"

definition new_machine :: "interp \<Rightarrow> run_req \<Rightarrow> heap \<Rightarrow> nat \<Rightarrow> machine fallible" where
  "new_machine I rq H t =
     bind_ok (load_ast I (rq_def rq)) (\<lambda>root.
       let m = \<lparr>m_def = rq_def rq, m_root = root, m_node = None, m_path = [], m_env = rq_env rq,
                m_kont = [bottom_frame], m_mode = ModeEval, m_val = VUndef, m_sig = (SigThrow, VUndef),
                m_host = new_host I (rq_principal rq) (rq_asof rq) t, m_tier = rq_tier rq,
                m_transitions = 0, m_fuel_steps = 0, m_fuel_alloc = 0, m_meter_alloc = 0,
                m_heap = H\<rparr>
       in if nk root = KFunc then
            bind_ok (bind_params (in_gl I) root (rq_args rq) (rq_env rq) H) (\<lambda>(act, H').
            bind_ok (lift_opt (kid root 3)) (\<lambda>body.
              ret (set_control body [3] (m\<lparr>m_env := Some act, m_heap := H'\<rparr>))))
          else ret (set_control root [] m))"

definition or_default :: "i64 \<Rightarrow> i64 \<Rightarrow> i64" where
  "or_default x d = (if x = 0 then d else x)"

definition with_budget :: "i64 \<Rightarrow> i64 \<Rightarrow> machine \<Rightarrow> machine" where
  "with_budget steps budget m =
     m\<lparr>m_fuel_steps := steps, m_fuel_alloc := budget, m_meter_alloc := budget\<rparr>"

definition run_cek :: "interp \<Rightarrow> run_req \<Rightarrow> heap \<Rightarrow> (i64 \<Rightarrow> bool) \<Rightarrow> nat \<Rightarrow> outcome option" where
  "run_cek I rq H late t =
     (case new_machine I rq H t of
        None \<Rightarrow> None
      | Some (Inl e) \<Rightarrow> Some (error_with e)
      | Some (Inr m) \<Rightarrow>
          (case rq_tier rq of
             TierTrusted \<Rightarrow> run_gov I (or_default (rq_ceiling rq) default_ceiling) late 0 m
           | TierSandbox \<Rightarrow>
               (let steps = or_default (rq_fuel rq) default_fuel_steps;
                    budget = or_default (rq_alloc rq) default_fuel_alloc
                in run_fuel I steps (with_budget steps budget m))))"

subsection \<open>Deliveries\<close>

record delivery =
  d_restart :: "(string \<times> any_map) option"
  d_value :: "val option"

definition any_to_value :: "anyv \<Rightarrow> val" where
  "any_to_value x = (case x of
      AnyNil \<Rightarrow> VNull
    | AnyBool b \<Rightarrow> bool_val b
    | AnyF64 f \<Rightarrow> VF64 f
    | AnyInt i \<Rightarrow> VF64 (f_of_int (sint i))
    | AnyInt64 i \<Rightarrow> VF64 (f_of_int (sint i))
    | AnyStr s \<Rightarrow> VStr s
    | AnyBig z \<Rightarrow> VBig z
    | AnyOther \<Rightarrow> VUndef)"

definition to_int64 :: "golib \<Rightarrow> anyv \<Rightarrow> i64 option" where
  "to_int64 gl x = (case x of
      AnyInt i \<Rightarrow> Some i
    | AnyInt64 i \<Rightarrow> Some i
    | AnyF64 f \<Rightarrow> Some (f2i gl f)
    | _ \<Rightarrow> None)"

definition restart_value :: "string \<times> any_map \<Rightarrow> heap \<Rightarrow> (val \<times> heap) option" where
  "restart_value c H = (case new_record H of (a, H1) \<Rightarrow> do {
     H2 \<leftarrow> rec_set a ''restart'' (VStr (fst c)) H1;
     H3 \<leftarrow> rec_set_all a (map (\<lambda>(k, v). (k, any_to_value v)) (snd c)) H2;
     Some (VRec a, H3)
   })"

definition granted_fuel :: "golib \<Rightarrow> (string \<times> any_map) option \<Rightarrow> i64 \<Rightarrow> i64" where
  "granted_fuel gl choice fallback =
     (let dflt = (if 0 < sint fallback then fallback else default_fuel_steps) in
      case choice of
        None \<Rightarrow> dflt
      | Some (name, args) \<Rightarrow>
          (if name = ''grant-fuel'' then
             (case map_of args ''fuel'' of
                None \<Rightarrow> dflt
              | Some v \<Rightarrow> (case to_int64 gl v of None \<Rightarrow> dflt | Some n \<Rightarrow> n))
           else dflt))"

subsection \<open>Rebinding\<close>

text \<open>
  \<open>rebindNodes\<close>: from the innermost frame outwards, with the definition \<open>root\<close> the segment runs in.
  A \<open>FrRet\<close> frame switches to the definition it returns to.
\<close>

fun rebind_frames :: "interp \<Rightarrow> node \<Rightarrow> frame list \<Rightarrow> frame list fallible" where
  "rebind_frames I root [] = ret []"
| "rebind_frames I root (f # fs) =
     (if f_kind f = FrRet then
        (if f_retdef f = [] then bind_ok (rebind_frames I root fs) (\<lambda>r. ret (f # r))
         else bind_ok (load_ast I (f_retdef f)) (\<lambda>root'.
           bind_ok (rebind_frames I root' fs) (\<lambda>r. ret (f # r))))
      else (case navigate root (f_path f) of
          None \<Rightarrow> raise_err ERebind
        | Some n \<Rightarrow> bind_ok (rebind_frames I root fs) (\<lambda>r. ret (f\<lparr>f_node := Some n\<rparr> # r))))"

definition rebind_nodes :: "interp \<Rightarrow> state \<Rightarrow> state fallible" where
  "rebind_nodes I st =
     bind_ok (load_ast I (s_def st)) (\<lambda>root.
     bind_ok (rebind_frames I root (s_kont st)) (\<lambda>k. ret (st\<lparr>s_kont := k\<rparr>)))"

subsection \<open>Resume\<close>

definition resume_machine :: "interp \<Rightarrow> state \<Rightarrow> principal \<Rightarrow> nat \<Rightarrow> machine fallible" where
  "resume_machine I st p t =
     bind_ok (load_ast I (s_def st)) (\<lambda>root.
     bind_ok (rebind_nodes I st) (\<lambda>st'.
       ret \<lparr>m_def = s_def st', m_root = root, m_node = navigate root (s_path st'),
            m_path = s_path st', m_env = s_env st', m_kont = s_kont st', m_mode = s_mode st',
            m_val = s_val st', m_sig = s_sig st', m_host = new_host I p None t,
            m_tier = s_tier st', m_transitions = 0, m_fuel_steps = s_fuel_steps st',
            m_fuel_alloc = s_fuel_alloc st', m_meter_alloc = 0, m_heap = s_heap st'\<rparr>))"

definition deliver :: "park_kind \<Rightarrow> delivery \<Rightarrow> machine \<Rightarrow> machine option" where
  "deliver pk d m =
     (case pk of
        ParkSignal \<Rightarrow>
          (case d_restart d of
             None \<Rightarrow> Some (apply_val VUndef m)
           | Some c \<Rightarrow> do { (v, H) \<leftarrow> restart_value c (m_heap m); Some (apply_val v (set_heap H m)) })
      | ParkWake \<Rightarrow> Some (apply_val (case d_value d of None \<Rightarrow> VUndef | Some v \<Rightarrow> v) m)
      | _ \<Rightarrow> Some m)"

definition is_abort :: "delivery \<Rightarrow> bool" where
  "is_abort d \<longleftrightarrow> (case d_restart d of Some (name, _) \<Rightarrow> name = ''abort'' | None \<Rightarrow> False)"

definition resume ::
  "interp \<Rightarrow> state \<Rightarrow> delivery \<Rightarrow> principal \<Rightarrow> (i64 \<Rightarrow> bool) \<Rightarrow> nat \<Rightarrow> outcome option" where
  "resume I st d p late t =
     (if is_abort d then Some ((zero_outcome OutFaulted)\<lparr>o_fault := VStr ''aborted''\<rparr>)
      else case resume_machine I st p t of
          None \<Rightarrow> None
        | Some (Inl e) \<Rightarrow> Some (error_with e)
        | Some (Inr m0) \<Rightarrow> do {
            m \<leftarrow> deliver (s_park st) d m0;
            (case s_tier st of
               TierTrusted \<Rightarrow> run_gov I default_ceiling late 0 m
             | TierSandbox \<Rightarrow>
                 (let steps = granted_fuel (in_gl I) (d_restart d) (s_fuel_steps st);
                      budget = or_default (s_fuel_alloc st) default_fuel_alloc
                  in run_fuel I steps (with_budget steps budget m)))
          })"

subsection \<open>InitialState\<close>

definition fresh_state :: "tier \<Rightarrow> i64 \<Rightarrow> i64 \<Rightarrow> heap \<Rightarrow> state" where
  "fresh_state tr fuel budget H =
     \<lparr>s_def = [], s_path = [], s_mode = ModeEval, s_val = VUndef, s_sig = (SigThrow, VUndef),
      s_env = None, s_kont = [bottom_frame], s_tier = tr, s_fuel_steps = fuel,
      s_fuel_alloc = budget, s_park = ParkFresh, s_heap = H\<rparr>"

definition initial_state_clo ::
  "interp \<Rightarrow> string \<Rightarrow> path \<Rightarrow> addr option \<Rightarrow> val list \<Rightarrow> tier \<Rightarrow> i64 \<Rightarrow> i64 \<Rightarrow> heap \<Rightarrow> state fallible" where
  "initial_state_clo I def p env args tr fuel budget H =
     bind_ok (load_ast I def) (\<lambda>root.
       case navigate root p of
         None \<Rightarrow> raise_err (ENavigate def)
       | Some fn \<Rightarrow>
           if nk fn \<noteq> KFunc then raise_err (ECalleeKind (nk fn))
           else bind_ok (bind_params (in_gl I) fn args env H) (\<lambda>(act, H').
             ret ((fresh_state tr fuel budget H')
               \<lparr>s_def := def, s_env := Some act, s_path := child p 3\<rparr>)))"

definition initial_state ::
  "interp \<Rightarrow> string \<Rightarrow> val list \<Rightarrow> tier \<Rightarrow> i64 \<Rightarrow> i64 \<Rightarrow> heap \<Rightarrow> state fallible" where
  "initial_state I def args tr fuel budget H =
     bind_ok (load_ast I def) (\<lambda>root.
       if nk root = KFunc then
         bind_ok (bind_params (in_gl I) root args None H) (\<lambda>(act, H').
           ret ((fresh_state tr fuel budget H')\<lparr>s_def := def, s_env := Some act, s_path := [3]\<rparr>))
       else ret ((fresh_state tr fuel budget H)\<lparr>s_def := def, s_env := None, s_path := []\<rparr>))"

end
