(* ===== verification/Cek_Coherent.thy ===== *)
theory Cek_Coherent
  imports Cek_Run
begin

section \<open>Path coherence\<close>

text \<open>
  A snapshot holds no nodes, only paths: \<open>Resume\<close> finds each node again by walking its path from the
  root of a definition.  That gives back the machine that was parked exactly when every path the
  machine carries leads to the node it carries.  This theory states that invariant and shows that
  every transition keeps it, for code whose nodes have at most 65536 children (a path index is a
  \<open>uint16\<close>) and no do-while statement (\<open>KDoWhile\<close> starts its body without moving the path).
\<close>

named_theorems keeps_intros \<open>rules that reduce a step to its coherent end machines\<close>
named_theorems keeps_helpers \<open>the helpers of the step function keep coherence\<close>

subsection \<open>Code that paths can address\<close>

fun fits :: "node \<Rightarrow> bool" where
  "fits (Node k s u mag ks) \<longleftrightarrow> k \<noteq> KDoWhile \<and> length ks \<le> 65536 \<and> list_all fits ks"

text \<open>The part of a run's context no transition changes: the tier, and the host's world,
  principal and read context.  A native gets the host and must leave these alone.\<close>

type_synonym context_of_run = "tier \<times> world \<times> principal \<times> int option"

definition host_ctx :: "host \<Rightarrow> world \<times> principal \<times> int option" where
  "host_ctx ho = (ho_world ho, ho_principal ho, ho_asof ho)"

definition native_keeps_ctx :: "native \<Rightarrow> bool" where
  "native_keeps_ctx fn \<longleftrightarrow> (\<forall>H ho args H' ho' v pk.
     fn H ho args = Some (H', ho', v, pk) \<longrightarrow> host_ctx ho' = host_ctx ho)"

definition wf_interp :: "interp \<Rightarrow> bool" where
  "wf_interp I \<longleftrightarrow> in_src I [] = None \<and> (\<forall>h n. in_src I h = Some n \<longrightarrow> fits n) \<and>
     (\<forall>h fn. in_fns I h = Some fn \<longrightarrow> native_keeps_ctx fn)"

lemma fits_kinds: "fits n \<Longrightarrow> nk n \<noteq> KDoWhile" and fits_length: "fits n \<Longrightarrow> length (nkids n) \<le> 65536"
  by (cases n; simp)+

lemma fits_kid: "fits n \<Longrightarrow> i < length (nkids n) \<Longrightarrow> fits (nkids n ! i)"
  by (cases n) (auto simp: list_all_length)

lemma fits_navigate: "fits n \<Longrightarrow> navigate n p = Some c \<Longrightarrow> fits c"
  by (induction n p rule: navigate.induct) (auto simp: fits_kid split: if_splits)

lemma navigate_append:
  "navigate n (p @ q) = Option.bind (navigate n p) (\<lambda>c. navigate c q)"
  by (induction n p rule: navigate.induct) auto

lemma navigate_child:
  assumes "fits r" and "navigate r p = Some n" and "kid_i n i = Some c"
  shows "navigate r (child p i) = Some c"
proof -
  have i: "0 \<le> i" "nat i < length (nkids n)" "nkids n ! nat i = c"
    using assms(3) by (simp_all add: kid_i_def nth_i_Some)
  have "nat i < 65536"
    using i(2) fits_length [OF fits_navigate [OF assms(1,2)]] by simp
  then have "uint (word_of_int i :: u16) = i"
    using i(1) by (simp add: uint_word_of_int take_bit_eq_mod mod_pos_pos_trivial)
  then have "unat (word_of_int i :: u16) = nat i" by (simp flip: nat_uint_eq)
  then show ?thesis using i assms(2) by (simp add: child_def navigate_append)
qed

lemma nav_step: "kid_i n i = Some c \<Longrightarrow> navigate r p = Some n \<Longrightarrow> fits r \<Longrightarrow> navigate r (child p i) = Some c"
  by (rule navigate_child)

lemma kid_kid_i: "kid n k = kid_i n (int k)"
  by (simp add: kid_def kid_i_def)

subsection \<open>The invariant\<close>

definition frame_ok :: "node \<Rightarrow> frame \<Rightarrow> bool" where
  "frame_ok root f \<longleftrightarrow>
     f_kind f \<noteq> FrRet \<and> f_node f \<noteq> None \<and> navigate root (f_path f) = f_node f"

fun frames_ok :: "interp \<Rightarrow> node \<Rightarrow> frame list \<Rightarrow> bool" where
  "frames_ok I root [] \<longleftrightarrow> True"
| "frames_ok I root (f # fs) \<longleftrightarrow>
     (if f_kind f = FrRet then f_node f = None \<and>
        (if f_retdef f = [] then fs = []
         else case in_src I (f_retdef f) of None \<Rightarrow> False | Some root' \<Rightarrow> frames_ok I root' fs)
      else frame_ok root f \<and> frames_ok I root fs)"

text \<open>\<open>grounded\<close> is the part that does not depend on the mode.\<close>

definition ctx_of :: "machine \<Rightarrow> context_of_run" where
  "ctx_of m = (m_tier m, host_ctx (m_host m))"

lemma ctx_of_simps [simp]:
  "ctx_of (m\<lparr>m_def := x1\<rparr>) = ctx_of m" "ctx_of (m\<lparr>m_root := x2\<rparr>) = ctx_of m"
  "ctx_of (m\<lparr>m_node := x3\<rparr>) = ctx_of m" "ctx_of (m\<lparr>m_path := x4\<rparr>) = ctx_of m"
  "ctx_of (m\<lparr>m_env := x5\<rparr>) = ctx_of m" "ctx_of (m\<lparr>m_kont := x6\<rparr>) = ctx_of m"
  "ctx_of (m\<lparr>m_mode := x7\<rparr>) = ctx_of m" "ctx_of (m\<lparr>m_val := x8\<rparr>) = ctx_of m"
  "ctx_of (m\<lparr>m_sig := x9\<rparr>) = ctx_of m" "ctx_of (m\<lparr>m_transitions := i\<rparr>) = ctx_of m"
  "ctx_of (m\<lparr>m_meter_alloc := i\<rparr>) = ctx_of m" "ctx_of (m\<lparr>m_heap := H\<rparr>) = ctx_of m"
  "ctx_of (m\<lparr>m_host := ho\<rparr>) = (m_tier m, host_ctx ho)"
  by (simp_all add: ctx_of_def)

definition grounded :: "interp \<Rightarrow> context_of_run \<Rightarrow> machine \<Rightarrow> bool" where
  "grounded I cx m \<longleftrightarrow> in_src I (m_def m) = Some (m_root m) \<and> frames_ok I (m_root m) (m_kont m) \<and>
     ctx_of m = cx"

definition coherent :: "interp \<Rightarrow> context_of_run \<Rightarrow> machine \<Rightarrow> bool" where
  "coherent I cx m \<longleftrightarrow> grounded I cx m \<and>
     (m_mode m = ModeEval \<longrightarrow> m_node m \<noteq> None \<and> navigate (m_root m) (m_path m) = m_node m)"

definition state_ok :: "interp \<Rightarrow> state \<Rightarrow> bool" where
  "state_ok I st \<longleftrightarrow> (case in_src I (s_def st) of
      None \<Rightarrow> False
    | Some root \<Rightarrow> frames_ok I root (s_kont st) \<and>
        (s_mode st = ModeEval \<longrightarrow> navigate root (s_path st) \<noteq> None))"

definition keeps :: "interp \<Rightarrow> context_of_run \<Rightarrow> step_result \<Rightarrow> bool" where
  "keeps I cx r \<longleftrightarrow> (case r of
      None \<Rightarrow> True
    | Some (m, None) \<Rightarrow> coherent I cx m
    | Some (m, Some out) \<Rightarrow> (case o_state out of None \<Rightarrow> True
        | Some st \<Rightarrow> state_ok I st \<and> s_park st \<in> {ParkSignal, ParkWake}))"

lemma s_park_snapshot [simp]: "s_park (snapshot pk m) = pk"
  by (simp add: snapshot_def)

lemma snapshot_ok: "coherent I cx m \<Longrightarrow> state_ok I (snapshot pk m)"
  by (auto simp: coherent_def grounded_def state_ok_def snapshot_def)

subsection \<open>Rules\<close>

lemma keeps_None [keeps_intros]: "keeps I cx None"
  by (simp add: keeps_def)

lemma keeps_go [keeps_intros]: "coherent I cx m \<Longrightarrow> keeps I cx (go m)"
  by (simp add: keeps_def go_def)

lemma keeps_stop: "o_state out = None \<or>
    (\<exists>st. o_state out = Some st \<and> state_ok I st \<and> s_park st \<in> {ParkSignal, ParkWake}) \<Longrightarrow>
    keeps I cx (stop out m)"
  by (auto simp: keeps_def stop_def)

lemma keeps_fault [keeps_intros]: "keeps I cx (fault e m)"
  by (simp add: fault_def error_with_def zero_outcome_def keeps_stop)

lemma keeps_bind [keeps_intros]: "(\<And>a. x = Some a \<Longrightarrow> keeps I cx (f a)) \<Longrightarrow> keeps I cx (Option.bind x f)"
  by (cases x) (simp_all add: keeps_None)

lemma keeps_if [keeps_intros]:
  "(P \<Longrightarrow> keeps I cx a) \<Longrightarrow> (\<not> P \<Longrightarrow> keeps I cx b) \<Longrightarrow> keeps I cx (if P then a else b)"
  by simp

lemma keeps_attempt [keeps_intros]: "(\<And>a. x = ret a \<Longrightarrow> keeps I cx (f a)) \<Longrightarrow> keeps I cx (attempt x m f)"
  by (cases x rule: fallible_cases) (simp_all add: keeps_intros)

lemma keeps_prod [keeps_intros]: "(\<And>a b. p = (a, b) \<Longrightarrow> keeps I cx (f a b)) \<Longrightarrow> keeps I cx (case p of (a, b) \<Rightarrow> f a b)"
  by (cases p) simp

lemma keeps_option [keeps_intros]:
  "(x = None \<Longrightarrow> keeps I cx a) \<Longrightarrow> (\<And>y. x = Some y \<Longrightarrow> keeps I cx (f y)) \<Longrightarrow>
    keeps I cx (case x of None \<Rightarrow> a | Some y \<Rightarrow> f y)"
  by (cases x) auto

lemma grounded_simps [simp]:
  "grounded I cx (set_heap H m) \<longleftrightarrow> grounded I cx m"
  "grounded I cx (set_env e m) \<longleftrightarrow> grounded I cx m"
  "grounded I cx (apply_val v m) \<longleftrightarrow> grounded I cx m"
  "grounded I cx (raise_sig k v m) \<longleftrightarrow> grounded I cx m"
  "grounded I cx (set_control n p m) \<longleftrightarrow> grounded I cx m"
  by (simp_all add: grounded_def set_heap_def set_env_def apply_val_def raise_sig_def set_control_def)

lemma root_simps [simp]:
  "m_root (set_heap H m) = m_root m" "m_root (set_env e m) = m_root m"
  "m_root (apply_val v m) = m_root m" "m_root (raise_sig k v m) = m_root m"
  "m_root (set_control n p m) = m_root m" "m_root (push f m) = m_root m"
  "m_path (set_heap H m) = m_path m" "m_path (push f m) = m_path m"
  by (simp_all add: set_heap_def set_env_def apply_val_def raise_sig_def set_control_def push_def)

lemma grounded_push [simp]: "frame_ok (m_root m) f \<Longrightarrow> grounded I cx (push f m) \<longleftrightarrow> grounded I cx m"
  by (auto simp: grounded_def push_def frame_ok_def)

lemma frame_ok_upd [simp]:
  "frame_ok r (f\<lparr>f_idx := i\<rparr>) \<longleftrightarrow> frame_ok r f"
  "frame_ok r (f\<lparr>f_vals := vs\<rparr>) \<longleftrightarrow> frame_ok r f"
  "frame_ok r (f\<lparr>f_env := e\<rparr>) \<longleftrightarrow> frame_ok r f"
  "frame_ok r (f\<lparr>f_outer := e\<rparr>) \<longleftrightarrow> frame_ok r f"
  "frame_ok r (f\<lparr>f_aux := i\<rparr>) \<longleftrightarrow> frame_ok r f"
  "frame_ok r (f\<lparr>f_obj := v\<rparr>) \<longleftrightarrow> frame_ok r f"
  "frame_ok r (f\<lparr>f_key := s\<rparr>) \<longleftrightarrow> frame_ok r f"
  "frame_ok r (f\<lparr>f_idxval := v\<rparr>) \<longleftrightarrow> frame_ok r f"
  "frame_ok r (f\<lparr>f_pend := p\<rparr>) \<longleftrightarrow> frame_ok r f"
  by (simp_all add: frame_ok_def)

lemma frame_ok_new [simp]:
  "coherent I cx m \<Longrightarrow> m_mode m = ModeEval \<Longrightarrow> k \<noteq> FrRet \<Longrightarrow> frame_ok (m_root m) (new_frame k m)"
  by (simp add: frame_ok_def new_frame_def coherent_def zero_frame_def)

lemma coherent_apply [keeps_intros]: "grounded I cx m \<Longrightarrow> coherent I cx (apply_val v m)"
  by (simp add: coherent_def) (simp add: apply_val_def)

lemma coherent_raise [keeps_intros]: "grounded I cx m \<Longrightarrow> coherent I cx (raise_sig k v m)"
  by (simp add: coherent_def) (simp add: raise_sig_def)

lemma coherent_set_control [keeps_intros]:
  "grounded I cx m \<Longrightarrow> navigate (m_root m) p = Some n \<Longrightarrow> coherent I cx (set_control n p m)"
  by (simp add: coherent_def) (simp add: set_control_def)

lemma coherent_grounded: "coherent I cx m \<Longrightarrow> grounded I cx m"
  by (simp add: coherent_def)

lemma grounded_fits: "wf_interp I \<Longrightarrow> grounded I cx m \<Longrightarrow> fits (m_root m)"
  by (auto simp: wf_interp_def grounded_def)

lemma keeps_visit [keeps_intros]:
  "grounded I cx m \<Longrightarrow> frame_ok (m_root m) f \<Longrightarrow> navigate (m_root m) p = Some n \<Longrightarrow> keeps I cx (visit f n p m)"
  by (simp add: visit_def keeps_go coherent_set_control)

lemma frame_ok_node: "frame_ok r f \<Longrightarrow> node_of f = Some n \<Longrightarrow> navigate r (f_path f) = Some n"
  by (simp add: frame_ok_def node_of_def)

lemma keeps_visit_kid [keeps_intros]:
  "wf_interp I \<Longrightarrow> grounded I cx m \<Longrightarrow> frame_ok (m_root m) f \<Longrightarrow> keeps I cx (visit_kid f i m)"
  unfolding visit_kid_def
  by (intro keeps_intros navigate_child) (auto intro: grounded_fits frame_ok_node)

lemma keeps_branch [keeps_intros]:
  "wf_interp I \<Longrightarrow> grounded I cx m \<Longrightarrow> frame_ok (m_root m) f \<Longrightarrow> keeps I cx (branch f i m)"
  unfolding branch_def
  by (intro keeps_intros navigate_child) (auto intro: grounded_fits frame_ok_node)

lemma keeps_leave [keeps_intros]: "grounded I cx m \<Longrightarrow> keeps I cx (leave f m)"
  unfolding leave_def by (intro keeps_intros) simp

lemma coherent_node: "coherent I cx m \<Longrightarrow> m_mode m = ModeEval \<Longrightarrow> m_node m = Some n \<Longrightarrow> navigate (m_root m) (m_path m) = Some n"
  by (simp add: coherent_def)

lemma keeps_eval_child:
  "wf_interp I \<Longrightarrow> grounded I cx m \<Longrightarrow> navigate (m_root m) (m_path m) = Some n \<Longrightarrow> keeps I cx (eval_child_of n i m)"
  unfolding eval_child_of_def
  by (intro keeps_intros navigate_child) (auto intro: grounded_fits)

lemma keeps_descend [keeps_intros]:
  "wf_interp I \<Longrightarrow> grounded I cx m \<Longrightarrow> frame_ok (m_root m) f \<Longrightarrow> navigate (m_root m) (m_path m) = Some n \<Longrightarrow>
     keeps I cx (descend f i n m)"
  unfolding descend_def by (rule keeps_eval_child) simp_all

lemma nav_kids_at:
  assumes "fits r" "frame_ok r f" "kids_at f i = Some cs" "nth_i cs j = Some c"
  shows "navigate r (child (child (f_path f) i) j) = Some c"
proof -
  obtain n d where "node_of f = Some n" "kid_i n i = Some d" "nkids d = cs"
    using assms(3) by (auto simp: kids_at_def elim!: bind_SomeE)
  then show ?thesis using assms frame_ok_node
    by (intro navigate_child) (auto simp: kid_i_def)
qed

subsection \<open>The helpers\<close>

lemmas keeps_basic = keeps_intros

lemma keeps_block_advance [keeps_helpers]:
  "wf_interp I \<Longrightarrow> grounded I cx m \<Longrightarrow> frame_ok (m_root m) f \<Longrightarrow> keeps I cx (block_advance f m)"
  unfolding block_advance_def
  by (intro keeps_intros nav_kids_at) (auto intro: grounded_fits)

text \<open>The elements the cursor still has before it are the ones at its paths.\<close>

definition ahead :: "node \<Rightarrow> frame \<Rightarrow> node list \<Rightarrow> bool" where
  "ahead r f ds \<longleftrightarrow> (\<forall>j < length ds.
     navigate r (child (child (f_path f) 0) (f_idx f + int j)) = Some (ds ! j))"

lemma ahead_Cons: "ahead r f (d # ds) \<Longrightarrow>
    navigate r (child (child (f_path f) 0) (f_idx f)) = Some d \<and> ahead r (f\<lparr>f_idx := f_idx f + 1\<rparr>) ds"
  unfolding ahead_def by (auto simp: algebra_simps dest: spec [of _ 0] spec [of _ "Suc _"])

lemma ahead_vals [simp]: "ahead r (f\<lparr>f_vals := vs, f_idx := i\<rparr>) ds \<longleftrightarrow> ahead r (f\<lparr>f_idx := i\<rparr>) ds"
  by (simp add: ahead_def)

lemma ahead_drop:
  assumes "fits r" "frame_ok r f" "kids_at f 0 = Some cs" "drop_i (f_idx f) cs = Some ds"
  shows "ahead r f ds"
  unfolding ahead_def
proof (intro allI impI)
  fix j assume j: "j < length ds"
  then have i: "0 \<le> f_idx f" "ds = drop (nat (f_idx f)) cs"
    using assms(4) by (auto simp: drop_i_def split: if_splits)
  then have "nth_i cs (f_idx f + int j) = Some (ds ! j)"
    using j by (auto simp: nth_i_Some nat_add_distrib)
  then show "navigate r (child (child (f_path f) 0) (f_idx f + int j)) = Some (ds ! j)"
    by (rule nav_kids_at [OF assms(1,2,3)])
qed

lemma keeps_var_decl_loop:
  "wf_interp I \<Longrightarrow> grounded I cx m \<Longrightarrow> frame_ok (m_root m) f \<Longrightarrow> ahead (m_root m) f ds \<Longrightarrow>
     keeps I cx (var_decl_loop gl ds f m)"
proof (induction ds arbitrary: f m)
  case Nil
  show ?case unfolding var_decl_loop.simps by (intro keeps_intros) (simp add: Nil)
next
  case (Cons d ds)
  note a = ahead_Cons [OF Cons.prems(4)]
  show ?case unfolding var_decl_loop.simps
    by (intro keeps_intros Cons.IH)
       (use Cons.prems a in \<open>auto simp: kid_kid_i intro: nav_step grounded_fits\<close>)
qed

lemma keeps_var_decl_advance [keeps_helpers]:
  "wf_interp I \<Longrightarrow> grounded I cx m \<Longrightarrow> frame_ok (m_root m) f \<Longrightarrow> keeps I cx (var_decl_advance gl f m)"
  unfolding var_decl_advance_def
  by (intro keeps_intros keeps_var_decl_loop) (auto intro: ahead_drop grounded_fits)

lemma keeps_template_loop:
  "wf_interp I \<Longrightarrow> grounded I cx m \<Longrightarrow> frame_ok (m_root m) f \<Longrightarrow> ahead (m_root m) f ds \<Longrightarrow>
     keeps I cx (template_loop ps ds f m)"
proof (induction ds arbitrary: f)
  case Nil
  show ?case unfolding template_loop.simps by (intro keeps_intros) (simp add: Nil)
next
  case (Cons d ds)
  note a = ahead_Cons [OF Cons.prems(4)]
  show ?case unfolding template_loop.simps
    by (intro keeps_intros Cons.IH) (use Cons.prems a in auto)
qed

lemma keeps_template_advance [keeps_helpers]:
  "wf_interp I \<Longrightarrow> grounded I cx m \<Longrightarrow> frame_ok (m_root m) f \<Longrightarrow> keeps I cx (template_advance f m)"
  unfolding template_advance_def
  by (intro keeps_intros keeps_template_loop) (auto intro: ahead_drop grounded_fits)

lemma charge_alloc_grounded: "charge_alloc n m = (m', b) \<Longrightarrow> grounded I cx m' \<longleftrightarrow> grounded I cx m"
  by (auto simp: charge_alloc_def grounded_def Let_def split: tier.splits)

lemma keeps_array_loop:
  "wf_interp I \<Longrightarrow> grounded I cx m \<Longrightarrow> frame_ok (m_root m) f \<Longrightarrow> ahead (m_root m) f ds \<Longrightarrow>
     keeps I cx (array_loop ds f m)"
proof (induction ds arbitrary: f)
  case Nil
  show ?case unfolding array_loop.simps Let_def
    by (intro keeps_intros) (auto simp: Nil charge_alloc_grounded)
next
  case (Cons d ds)
  note a = ahead_Cons [OF Cons.prems(4)]
  show ?case unfolding array_loop.simps Let_def
    by (intro keeps_intros Cons.IH)
       (use Cons.prems a in \<open>auto simp: kid_kid_i intro: nav_step grounded_fits\<close>)
qed

lemma keeps_array_advance [keeps_helpers]:
  "wf_interp I \<Longrightarrow> grounded I cx m \<Longrightarrow> frame_ok (m_root m) f \<Longrightarrow> keeps I cx (array_advance f m)"
  unfolding array_advance_def
  by (intro keeps_intros keeps_array_loop) (auto intro: ahead_drop grounded_fits)

lemma keeps_object_advance [keeps_helpers]:
  "wf_interp I \<Longrightarrow> grounded I cx m \<Longrightarrow> frame_ok (m_root m) f \<Longrightarrow> keeps I cx (object_advance f m)"
  unfolding object_advance_def Let_def
  by (intro keeps_intros) (auto simp: kid_kid_i intro: nav_step nav_kids_at grounded_fits)

text \<open>What an Eval-mode helper may assume: the current node \<open>n\<close> sits at the current path.\<close>

definition at_node :: "interp \<Rightarrow> context_of_run \<Rightarrow> node \<Rightarrow> machine \<Rightarrow> bool" where
  "at_node I cx n m \<longleftrightarrow> wf_interp I \<and> grounded I cx m \<and> m_node m = Some n \<and>
     navigate (m_root m) (m_path m) = Some n"

lemma at_node_frame [simp]:
  "at_node I cx n m \<Longrightarrow> k \<noteq> FrRet \<Longrightarrow> frame_ok (m_root m) (new_frame k m)"
  by (simp add: frame_ok_def new_frame_def at_node_def zero_frame_def)

lemma at_nodeD: "at_node I cx n m \<Longrightarrow> wf_interp I" "at_node I cx n m \<Longrightarrow> grounded I cx m"
    "at_node I cx n m \<Longrightarrow> navigate (m_root m) (m_path m) = Some n" "at_node I cx n m \<Longrightarrow> fits (m_root m)"
  by (auto simp: at_node_def intro: grounded_fits)

lemma keeps_eval_child_of [keeps_helpers]: "at_node I cx n m \<Longrightarrow> keeps I cx (eval_child_of n i m)"
  by (rule keeps_eval_child) (auto dest: at_nodeD)

lemma keeps_descend_at [keeps_helpers]:
  "at_node I cx n m \<Longrightarrow> frame_ok (m_root m) f \<Longrightarrow> keeps I cx (descend f i n m)"
  by (rule keeps_descend) (auto dest: at_nodeD)

lemma keeps_eval_assign [keeps_helpers]: "at_node I cx n m \<Longrightarrow> keeps I cx (eval_assign n op m)"
  unfolding eval_assign_def Let_def
  by (intro keeps_intros keeps_helpers) (auto simp: kid_kid_i intro: nav_step at_nodeD)

lemma keeps_eval_update [keeps_helpers]: "at_node I cx n m \<Longrightarrow> keeps I cx (eval_update n m)"
  unfolding eval_update_def Let_def
  by (intro keeps_intros keeps_helpers) (auto simp: kid_kid_i intro: nav_step at_nodeD)

lemma keeps_eval_try [keeps_helpers]: "at_node I cx n m \<Longrightarrow> keeps I cx (eval_try n m)"
  unfolding eval_try_def Let_def
  by (intro keeps_intros keeps_helpers) (auto simp: kid_kid_i intro: nav_step at_nodeD)

lemma keeps_assign_resume [keeps_helpers]:
  "wf_interp I \<Longrightarrow> grounded I cx m \<Longrightarrow> frame_ok (m_root m) f \<Longrightarrow> keeps I cx (assign_resume gl f m)"
  unfolding assign_resume_def Let_def
  by (intro keeps_intros)
     (auto simp: kid_kid_i intro: nav_step grounded_fits frame_ok_node)

lemma keeps_update_resume [keeps_helpers]:
  "wf_interp I \<Longrightarrow> grounded I cx m \<Longrightarrow> frame_ok (m_root m) f \<Longrightarrow> keeps I cx (update_resume gl f m)"
  unfolding update_resume_def Let_def
  by (intro keeps_intros)
     (auto simp: kid_kid_i intro: nav_step grounded_fits frame_ok_node)

lemma keeps_trigger_finally [keeps_helpers]:
  assumes "wf_interp I" "grounded I cx m" "frame_ok (m_root m) f"
  shows "keeps I cx (trigger_finally f pn m)"
proof -
  have "frame_ok (m_root m) ((zero_frame FrFinallyRun)\<lparr>f_node := f_node f, f_path := f_path f,
      f_outer := f_outer f, f_pend := pn\<rparr>)"
    using assms(3) by (simp add: frame_ok_def zero_frame_def)
  then show ?thesis unfolding trigger_finally_def Let_def
    by (intro keeps_intros)
       (use assms in \<open>auto simp: kid_kid_i intro: nav_step grounded_fits frame_ok_node\<close>)
qed

lemma keeps_for [keeps_helpers]:
  assumes "wf_interp I" "grounded I cx m" "frame_ok (m_root m) f"
  shows "keeps I cx (for_eval_body f m)" "keeps I cx (for_eval_cond f m)" "keeps I cx (for_eval_incr f m)"
    "keeps I cx (for_resume f m)"
  unfolding for_resume_def for_eval_incr_def for_eval_cond_def for_eval_body_def
  by (intro keeps_intros; use assms in simp)+

lemma keeps_eval_for [keeps_helpers]: "at_node I cx n m \<Longrightarrow> keeps I cx (eval_for n m)"
  unfolding eval_for_def Let_def
  by (intro keeps_intros keeps_helpers) (auto intro: at_nodeD)

lemma keeps_while [keeps_helpers]:
  assumes "wf_interp I" "grounded I cx m" "frame_ok (m_root m) f"
  shows "keeps I cx (while_eval_cond f m)" "keeps I cx (while_resume f m)"
    "keeps I cx (do_while_eval_cond f m)" "keeps I cx (do_while_resume f m)"
  unfolding while_resume_def while_eval_cond_def do_while_resume_def do_while_eval_cond_def
  by (intro keeps_intros; use assms in simp)+

lemma keeps_for_of_step [keeps_helpers]:
  "wf_interp I \<Longrightarrow> grounded I cx m \<Longrightarrow> frame_ok (m_root m) f \<Longrightarrow> keeps I cx (for_of_step gl f m)"
  unfolding for_of_step_def by (cases "f_obj f"; simp; intro keeps_intros; simp)

lemma keeps_for_of_resume [keeps_helpers]:
  "wf_interp I \<Longrightarrow> grounded I cx m \<Longrightarrow> frame_ok (m_root m) f \<Longrightarrow> keeps I cx (for_of_resume gl f m)"
  unfolding for_of_resume_def by (intro keeps_intros keeps_helpers; simp)

lemma keeps_switch_run [keeps_helpers]:
  "wf_interp I \<Longrightarrow> grounded I cx m \<Longrightarrow> frame_ok (m_root m) f \<Longrightarrow> keeps I cx (switch_run f m)"
  unfolding switch_run_def Let_def
  apply (intro keeps_intros)
     apply simp_all
  apply (rule nav_step)
    apply (simp add: kid_i_def)
   apply (rule nav_step)
     apply (simp add: kid_kid_i)
    apply (rule nav_kids_at)
       apply (auto intro: grounded_fits)
  done

lemma keeps_switch_match [keeps_helpers]:
  "wf_interp I \<Longrightarrow> grounded I cx m \<Longrightarrow> frame_ok (m_root m) f \<Longrightarrow> keeps I cx (switch_match gl f m)"
  unfolding switch_match_def by (intro keeps_intros keeps_helpers; simp)

subsection \<open>Calls\<close>

lemma keeps_park:
  "(\<And>c. pk = ParkOnCondition c \<Longrightarrow> keeps I cx (f c)) \<Longrightarrow> (\<And>w. pk = ParkOnWake w \<Longrightarrow> keeps I cx (g w)) \<Longrightarrow>
    keeps I cx (case pk of ParkOnCondition c \<Rightarrow> f c | ParkOnWake w \<Rightarrow> g w)"
  by (cases pk) auto

lemma keeps_perform_native [keeps_helpers]:
  assumes "wf_interp I" "grounded I cx m" "frame_ok (m_root m) f"
  shows "keeps I cx (perform_native I f hash args m)"
proof -
  have g: "grounded I cx (m\<lparr>m_heap := H, m_host := ho\<rparr>)"
    if "host_ctx ho = host_ctx (m_host m)" for H ho
    using assms(2) that by (simp add: grounded_def ctx_of_def)
  have c: "coherent I cx (m\<lparr>m_heap := H, m_host := ho, m_path := p, m_mode := ModeApply, m_val := v\<rparr>)"
    if "host_ctx ho = host_ctx (m_host m)" for H ho p v
    using g [OF that] by (simp add: coherent_def grounded_def ctx_of_def)
  have ctx: "host_ctx ho = host_ctx (m_host m)"
    if "in_fns I hash = Some fn" "fn (m_heap m) (m_host m) args = Some (H, ho, v, pk)" for fn H ho v pk
    using assms(1) that unfolding wf_interp_def native_keeps_ctx_def by blast
  show ?thesis unfolding perform_native_def Let_def
    by (intro keeps_intros keeps_park keeps_stop)
       (auto simp: zero_outcome_def dest!: ctx intro: g intro!: snapshot_ok c)
qed

lemma m_root_call: "m_root (m\<lparr>m_def := d, m_root := r, m_env := e, m_heap := H\<rparr>) = r"
  by simp

lemma keeps_perform_call [keeps_helpers]:
  assumes wf: "wf_interp I" and g: "grounded I cx m" and f: "frame_ok (m_root m) f"
  shows "keeps I cx (perform_call I f m)"
proof -
  have src: "in_src I (m_def m) = Some (m_root m)" and ne: "m_def m \<noteq> []"
    using g wf by (auto simp: grounded_def wf_interp_def)
  have call: "keeps I cx (do { body \<leftarrow> kid fn 3;
      go (set_control body (child path 3)
        ((push ((zero_frame FrRet)\<lparr>f_retdef := m_def m, f_retpath := f_path f, f_retenv := m_env m\<rparr>) m)
          \<lparr>m_def := def, m_root := root, m_env := Some act, m_heap := H\<rparr>)) })"
    if "load_ast I def = ret root" "navigate root path = Some fn" for def root path fn act H
  proof -
    have r: "in_src I def = Some root"
      using that(1) by (simp add: load_ast_def split: option.splits)
    have "grounded I cx ((push ((zero_frame FrRet)\<lparr>f_retdef := m_def m, f_retpath := f_path f,
        f_retenv := m_env m\<rparr>) m)\<lparr>m_def := def, m_root := root, m_env := Some act, m_heap := H\<rparr>)"
      using g r src ne by (simp add: grounded_def push_def zero_frame_def)
    moreover have "fits root" using r wf by (auto simp: wf_interp_def)
    ultimately show ?thesis
      by (intro keeps_intros) (auto simp: kid_kid_i intro: nav_step that)
  qed
  show ?thesis
  proof (cases "f_vals f")
    case (Cons callee args)
    show ?thesis
      unfolding perform_call_def Cons list.case Let_def
      by (cases callee; simp only: val.case; intro keeps_attempt keeps_option keeps_if keeps_prod keeps_fault keeps_perform_native)
         (use wf g f call in \<open>auto\<close>)
  qed (simp add: keeps_intros perform_call_def)
qed

lemma keeps_arg_advance [keeps_helpers]:
  "wf_interp I \<Longrightarrow> grounded I cx m \<Longrightarrow> frame_ok (m_root m) f \<Longrightarrow> keeps I cx (arg_advance I f m)"
  unfolding arg_advance_def Let_def
  by (intro keeps_intros keeps_helpers) (auto simp: kid_kid_i intro: nav_step nav_kids_at grounded_fits)

lemma keeps_call_resume [keeps_helpers]:
  "wf_interp I \<Longrightarrow> grounded I cx m \<Longrightarrow> frame_ok (m_root m) f \<Longrightarrow> keeps I cx (call_resume I f m)"
  unfolding call_resume_def by (intro keeps_intros keeps_helpers; simp)

subsection \<open>The three modes\<close>

text \<open>The top frame \<open>f\<close> over the machine \<open>m\<close> that is left when it is taken off.\<close>

definition over :: "interp \<Rightarrow> context_of_run \<Rightarrow> frame \<Rightarrow> machine \<Rightarrow> bool" where
  "over I cx f m \<longleftrightarrow> wf_interp I \<and> in_src I (m_def m) = Some (m_root m) \<and>
     frames_ok I (m_root m) (f # m_kont m) \<and> ctx_of m = cx"

lemma over_ground:
  assumes "over I cx f m" "f_kind f \<noteq> FrRet"
  shows "wf_interp I" "grounded I cx m" "frame_ok (m_root m) f"
  using assms by (auto simp: over_def grounded_def)

lemma restore_grounded:
  assumes "over I cx f m" "f_kind f = FrRet" "m_kont m \<noteq> []"
  shows "grounded I cx (restore_caller I f m)"
  using assms
  by (auto simp: over_def restore_caller_def grounded_def Let_def split: if_splits option.splits)

lemma grounded_mode [simp]: "grounded I cx (m\<lparr>m_mode := md\<rparr>) \<longleftrightarrow> grounded I cx m"
  by (simp add: grounded_def)

lemma grounded_sig [simp]: "grounded I cx (m\<lparr>m_sig := s\<rparr>) \<longleftrightarrow> grounded I cx m"
  by (simp add: grounded_def)

lemma keeps_done [keeps_intros]: "keeps I cx (stop (done_with v) m)"
  by (rule keeps_stop) (simp add: done_with_def zero_outcome_def)

lemma keeps_uncaught [keeps_intros]: "keeps I cx (uncaught m)"
  unfolding uncaught_def
  by (cases "fst (m_sig m)")
     (auto simp: keeps_done done_with_def error_with_def zero_outcome_def intro!: keeps_stop)

lemma keeps_apply_ret:
  "over I cx f m \<Longrightarrow> f_kind f = FrRet \<Longrightarrow> keeps I cx (apply_ret I f m)"
  unfolding apply_ret_def by (intro keeps_intros) (simp add: coherent_def restore_grounded)

lemma keeps_unwind_ret:
  "over I cx f m \<Longrightarrow> f_kind f = FrRet \<Longrightarrow> keeps I cx (unwind_ret I f m)"
  unfolding unwind_ret_def by (intro keeps_intros) (auto simp: coherent_def restore_grounded)

lemma keeps_apply_pieces [keeps_helpers]:
  assumes "wf_interp I" "grounded I cx m" "frame_ok (m_root m) f"
  shows "keeps I cx (apply_if f m)" "keeps I cx (apply_bin gl f m)" "keeps I cx (apply_logic f m)"
    "keeps I cx (apply_unary gl f m)" "keeps I cx (apply_member f m)" "keeps I cx (apply_index gl f m)"
    "keeps I cx (apply_array f m)" "keeps I cx (apply_var_decl gl f m)" "keeps I cx (apply_switch gl f m)"
  unfolding apply_if_def apply_bin_def apply_logic_def apply_unary_def apply_member_def
    apply_index_def apply_array_def apply_var_decl_def apply_switch_def
  by (intro keeps_intros keeps_helpers; use assms in simp)+

lemma keeps_apply_object [keeps_helpers]:
  assumes "wf_interp I" "grounded I cx m" "frame_ok (m_root m) f"
  shows "keeps I cx (apply_object gl f m)"
  unfolding apply_object_def using assms
  by (cases "f_obj f"; simp; intro keeps_intros keeps_helpers; simp)

lemma keeps_apply_finally_run [keeps_helpers]:
  "grounded I cx m \<Longrightarrow> keeps I cx (apply_finally_run f m)"
  unfolding apply_finally_run_def by (intro keeps_intros) (auto simp: coherent_def)

lemma keeps_apply_frame: "over I cx f m \<Longrightarrow> keeps I cx (apply_frame I f m)"
proof (cases "f_kind f = FrRet")
  case True
  then show "over I cx f m \<Longrightarrow> ?thesis" by (simp add: apply_frame_def keeps_apply_ret)
next
  case False
  assume "over I cx f m"
  note g = over_ground [OF this False]
  show ?thesis unfolding apply_frame_def
    by (insert False, cases "f_kind f"; simp split del: if_split; intro keeps_intros keeps_helpers) (use g in auto)
qed

lemma keeps_unwind_catch [keeps_helpers]:
  assumes "wf_interp I" "grounded I cx m" "frame_ok (m_root m) f" "m_mode m = ModeUnwind"
  shows "keeps I cx (unwind_catch gl f m)"
  unfolding unwind_catch_def Let_def
  by (intro keeps_intros)
     (use assms in \<open>auto simp: kid_kid_i coherent_def intro: nav_step grounded_fits frame_ok_node\<close>)

lemma coherent_unwinding: "grounded I cx m \<Longrightarrow> m_mode m = ModeUnwind \<Longrightarrow> coherent I cx m"
  by (simp add: coherent_def)

lemma m_mode_set_env [simp]: "m_mode (set_env e m) = m_mode m"
  by (simp add: set_env_def)

lemma keeps_unwind_loop [keeps_helpers]:
  "grounded I cx m \<Longrightarrow> m_mode m = ModeUnwind \<Longrightarrow> keeps I cx r \<Longrightarrow> keeps I cx (unwind_loop f r m)"
  unfolding unwind_loop_def
  by (cases "fst (m_sig m)") (auto intro!: keeps_intros coherent_unwinding)

lemma keeps_unwind_frame: "over I cx f m \<Longrightarrow> m_mode m = ModeUnwind \<Longrightarrow> keeps I cx (unwind_frame I f m)"
proof (cases "f_kind f = FrRet")
  case True
  then show "over I cx f m \<Longrightarrow> ?thesis" by (simp add: unwind_frame_def keeps_unwind_ret)
next
  case False
  assume "over I cx f m" and m: "m_mode m = ModeUnwind"
  note g = over_ground [OF this(1) False]
  show ?thesis unfolding unwind_frame_def
    by (insert False, cases "f_kind f"; simp split del: if_split; intro keeps_intros keeps_helpers coherent_unwinding)
       (use g m in auto)
qed

lemma keeps_eval_step:
  assumes wf: "wf_interp I" and m: "coherent I cx m" "m_mode m = ModeEval"
  shows "keeps I cx (eval_step I m)"
  unfolding eval_step_def
proof (rule keeps_bind, goal_cases)
  case (1 n)
  have at: "at_node I cx n m"
    using wf m 1 by (simp add: at_node_def coherent_def)
  have g: "grounded I cx m" using m(1) by (rule coherent_grounded)
  have nd: "nk n \<noteq> KDoWhile"
    using fits_kinds fits_navigate at_nodeD(3,4) [OF at] by blast
  have clo: "coherent I cx (set_clo d p e m)" for d p e
    by (simp add: set_clo_def new_clo_def coherent_apply g)
  note h = at_nodeD [OF at] at_node_frame [OF at]
  show ?case
    by (insert nd, cases "nk n"; simp only: kind.case Let_def simp_thms;
        intro keeps_intros keeps_helpers clo at)
       (use at g h in auto)
qed

lemma keeps_step: "wf_interp I \<Longrightarrow> coherent I cx m \<Longrightarrow> keeps I cx (cek_step I m)"
proof -
  assume wf: "wf_interp I" and m: "coherent I cx m"
  define m' where "m' = m\<lparr>m_transitions := m_transitions m + 1\<rparr>"
  have c: "coherent I cx m'" using m by (simp add: m'_def coherent_def grounded_def)
  have o: "over I cx f (m'\<lparr>m_kont := r\<rparr>)" if "m_kont m' = f # r" for f r
    using c wf that by (simp add: over_def coherent_def grounded_def)
  show ?thesis
  proof (cases "m_mode m'")
    case ModeEval
    then show ?thesis using keeps_eval_step [OF wf c ModeEval]
      by (simp add: cek_step_def Let_def m'_def)
  next
    case ModeApply
    have "keeps I cx (apply_step I m')"
      by (cases "m_kont m'") (auto simp: apply_step_def intro: keeps_intros keeps_apply_frame o)
    then show ?thesis using ModeApply by (simp add: cek_step_def Let_def m'_def)
  next
    case ModeUnwind
    have "keeps I cx (unwind_step I m')"
      by (cases "m_kont m'") (auto simp: unwind_step_def ModeUnwind intro: keeps_intros keeps_unwind_frame o)
    then show ?thesis using ModeUnwind by (simp add: cek_step_def Let_def m'_def)
  qed
qed

end
