(* ===== verification/Cek_Resume.thy ===== *)
theory Cek_Resume
  imports Cek_Coherent
begin

section \<open>Resuming gives back the parked machine\<close>

text \<open>
  A parked state is written without nodes.  \<open>erase_state\<close> drops the node of every frame, which is
  what the wire format does to it; the results here say that \<open>Resume\<close> of the erased state rebuilds
  the registers of the machine that was parked, for every machine a run can reach.
\<close>

definition erase_frame :: "frame \<Rightarrow> frame" where
  "erase_frame f = f\<lparr>f_node := None\<rparr>"

definition erase_state :: "state \<Rightarrow> state" where
  "erase_state st = st\<lparr>s_kont := map erase_frame (s_kont st)\<rparr>"

lemma frame_eta: "f_node f = x \<Longrightarrow> f\<lparr>f_node := x\<rparr> = f"
  by simp

lemma rebind_erased: "frames_ok I root fs \<Longrightarrow> rebind_frames I root (map erase_frame fs) = ret fs"
proof (induction fs arbitrary: root)
  case (Cons f fs)
  have e: "f_kind (erase_frame f) = f_kind f" "f_path (erase_frame f) = f_path f"
    "f_retdef (erase_frame f) = f_retdef f" "erase_frame f\<lparr>f_node := x\<rparr> = f\<lparr>f_node := x\<rparr>" for x
    by (simp_all add: erase_frame_def)
  show ?case
  proof (cases "f_kind f = FrRet")
    case True
    then have "f_node f = None" using Cons.prems by simp
    then have "erase_frame f = f" unfolding erase_frame_def by (rule frame_eta)
    then show ?thesis using True Cons e
      by (auto simp: load_ast_def split: if_splits option.splits)
  next
    case False
    then have "navigate root (f_path f) = f_node f" "f_node f \<noteq> None" "frames_ok I root fs"
      using Cons.prems by (auto simp: frame_ok_def)
    then show ?thesis using False Cons.IH e
      by (auto intro: frame_eta)
  qed
qed simp

text \<open>The registers of the machine that was parked, with the bookkeeping of a new host.\<close>

definition reentered :: "interp \<Rightarrow> principal \<Rightarrow> nat \<Rightarrow> machine \<Rightarrow> machine" where
  "reentered I p t m = m\<lparr>m_node := navigate (m_root m) (m_path m), m_host := new_host I p None t,
     m_transitions := 0, m_meter_alloc := 0\<rparr>"

lemma resume_machine_snapshot:
  assumes "coherent I cx m"
  shows "resume_machine I (erase_state (snapshot pk m)) p t = ret (reentered I p t m)"
proof -
  have src: "in_src I (m_def m) = Some (m_root m)" and fr: "frames_ok I (m_root m) (m_kont m)"
    using assms by (auto simp: coherent_def grounded_def)
  show ?thesis
    using src rebind_erased [OF fr]
    by (simp add: resume_machine_def rebind_nodes_def erase_state_def snapshot_def load_ast_def
        reentered_def)
qed

lemma reentered_eval_node: "coherent I cx m \<Longrightarrow> m_mode m = ModeEval \<Longrightarrow> m_node (reentered I p t m) = m_node m"
  by (simp add: reentered_def coherent_def)

subsection \<open>Every machine a run reaches is coherent\<close>

inductive reaches :: "interp \<Rightarrow> machine \<Rightarrow> machine \<Rightarrow> bool" for I where
  reaches_refl: "reaches I m m"
| reaches_step: "reaches I m m' \<Longrightarrow> cek_step I m' = Some (m'', None) \<Longrightarrow> reaches I m m''"

lemma reaches_coherent: "reaches I m m' \<Longrightarrow> wf_interp I \<Longrightarrow> coherent I cx m \<Longrightarrow> coherent I cx m'"
proof (induction rule: reaches.induct)
  case (reaches_step m m' m'')
  then show ?case using keeps_step [of I cx m'] by (simp add: keeps_def)
qed

lemma new_machine_coherent:
  assumes "wf_interp I" and "new_machine I rq H t = ret m"
  shows "coherent I (rq_tier rq, in_world I, rq_principal rq, rq_asof rq) m"
proof -
  obtain root where r: "in_src I (rq_def rq) = Some root"
    using assms(2) by (auto simp: new_machine_def load_ast_def elim!: bind_ok_retE split: option.splits)
  then have "fits root" using assms(1) by (auto simp: wf_interp_def)
  moreover have "kid root 3 = Some body \<Longrightarrow> navigate root [3] = Some body" for body
    by (simp add: kid_def)
  ultimately show ?thesis using assms(2) r
    by (auto simp: new_machine_def load_ast_def Let_def coherent_def grounded_def set_control_def
        bottom_frame_def zero_frame_def ctx_of_def host_ctx_def new_host_def
        split: if_splits elim!: bind_ok_retE)
qed

lemma run_fuel_reaches:
  "run_fuel I s m = Some out \<Longrightarrow>
     \<exists>m'. reaches I m m' \<and> (out = park_meter FuelMeter m' \<or>
        (\<exists>m'' o'. cek_step I m' = Some (m'', Some o') \<and> out = seal m'' o'))"
proof (induction I s m rule: run_fuel.induct)
  case (1 I s m)
  have head: "reaches I m m'" if "cek_step I m = Some (m1, None)" "reaches I m1 m'" for m1 m'
    using that(2,1) by (induction rule: reaches.induct) (auto intro: reaches.intros)
  show ?case
  proof (cases "0 \<le> sint (s - 1)")
    case False
    then show ?thesis using "1.prems"
      by (subst (asm) run_fuel.simps) (auto simp: fuel_tick_def Let_def intro: reaches_refl)
  next
    case True
    then consider m1 o1 where "cek_step I m = Some (m1, Some o1)" "out = seal m1 o1"
      | m1 where "cek_step I m = Some (m1, None)" "run_fuel I (s - 1) m1 = Some out"
      using "1.prems"
      by (subst (asm) run_fuel.simps) (auto simp: fuel_tick_def Let_def split: option.splits)
    then show ?thesis
    proof cases
      case 1
      then show ?thesis by (blast intro: reaches_refl)
    next
      case 2
      then show ?thesis
        using "1.IH" [of "s - 1" True "(m1, None)" m1 None] True head [OF 2(1)]
        by (auto simp: fuel_tick_def Let_def)
    qed
  qed
qed

end
