(* ===== verification/Cek_Transparent.thy ===== *)
theory Cek_Transparent
  imports Cek_Resume
begin

section \<open>A park and a resume are invisible\<close>

text \<open>
  Two machines run side by side: one that was never interrupted, and one that was parked for fuel
  and resumed, which has a new host (an empty effect trace) and counts its transitions from zero.
  \<open>bsim\<close> relates them; every transition keeps it, so they end in the same outcome.  This needs of a
  native that it only appends to the effect trace and does not look at it (\<open>native_frames\<close>).
\<close>

named_theorems sim_intros \<open>rules that reduce related steps to related end machines\<close>
named_theorems sim_helpers \<open>the helpers of the step function keep machines related\<close>

subsection \<open>The contract of a native\<close>

definition prefix_effects :: "effect list \<Rightarrow> host \<Rightarrow> host" where
  "prefix_effects E ho = ho\<lparr>ho_effects := E @ ho_effects ho\<rparr>"

definition native_frames :: "native \<Rightarrow> bool" where
  "native_frames fn \<longleftrightarrow> (\<forall>H ho E args. fn H (prefix_effects E ho) args =
     map_option (\<lambda>(H', ho', v, pk). (H', prefix_effects E ho', v, pk)) (fn H ho args))"

definition natives_frame :: "interp \<Rightarrow> bool" where
  "natives_frame I \<longleftrightarrow> (\<forall>h fn. in_fns I h = Some fn \<longrightarrow> native_frames fn)"

subsection \<open>The relation\<close>

definition bsim :: "effect list \<Rightarrow> i64 \<Rightarrow> machine \<Rightarrow> machine \<Rightarrow> bool" where
  "bsim E k m n \<longleftrightarrow>
     m_def n = m_def m \<and> m_root n = m_root m \<and> m_path n = m_path m \<and> m_env n = m_env m \<and>
     m_kont n = m_kont m \<and> m_mode n = m_mode m \<and> m_val n = m_val m \<and> m_sig n = m_sig m \<and>
     m_tier n = m_tier m \<and> m_heap n = m_heap m \<and>
     m_host m = prefix_effects E (m_host n) \<and> m_transitions m = k + m_transitions n"

definition sim :: "effect list \<Rightarrow> i64 \<Rightarrow> machine \<Rightarrow> machine \<Rightarrow> bool" where
  "sim E k m n \<longleftrightarrow> bsim E k m n \<and> (m_mode m = ModeEval \<longrightarrow> m_node n = m_node m)"

text \<open>States agree but for the budgets they were given; outcomes agree but for bookkeeping.\<close>

definition same_state :: "state \<Rightarrow> state \<Rightarrow> bool" where
  "same_state s t \<longleftrightarrow> t\<lparr>s_fuel_steps := s_fuel_steps s, s_fuel_alloc := s_fuel_alloc s\<rparr> = s"

definition same_end :: "outcome \<Rightarrow> outcome \<Rightarrow> bool" where
  "same_end a b \<longleftrightarrow>
     o_kind b = o_kind a \<and> o_value b = o_value a \<and> o_fault b = o_fault a \<and> o_err b = o_err a \<and>
     o_wake b = o_wake a \<and> rel_option same_state (o_state a) (o_state b) \<and>
     map_option cn_class (o_cond b) = map_option cn_class (o_cond a) \<and>
     map_option cn_restarts (o_cond b) = map_option cn_restarts (o_cond a)"

definition rres :: "effect list \<Rightarrow> i64 \<Rightarrow> step_result \<Rightarrow> step_result \<Rightarrow> bool" where
  "rres E k r s \<longleftrightarrow> (case r of
      None \<Rightarrow> s = None
    | Some (m, None) \<Rightarrow> (case s of Some (n, None) \<Rightarrow> sim E k m n | _ \<Rightarrow> False)
    | Some (m, Some a) \<Rightarrow>
        (case s of Some (n, Some b) \<Rightarrow> bsim E k m n \<and> same_end a b | _ \<Rightarrow> False))"

lemma bsimD:
  assumes "bsim E k m n"
  shows "m_def n = m_def m" "m_root n = m_root m" "m_path n = m_path m" "m_env n = m_env m"
    "m_kont n = m_kont m" "m_mode n = m_mode m" "m_val n = m_val m" "m_sig n = m_sig m"
    "m_tier n = m_tier m" "m_heap n = m_heap m"
  using assms by (simp_all add: bsim_def)

lemma same_end_refl: "o_state a = None \<Longrightarrow> same_end a a"
  by (simp add: same_end_def)

subsection \<open>Rules\<close>

lemma rres_go [sim_intros]: "sim E k m n \<Longrightarrow> rres E k (go m) (go n)"
  by (simp add: rres_def go_def)

lemma rres_stop [sim_intros]: "bsim E k m n \<Longrightarrow> same_end a b \<Longrightarrow> rres E k (stop a m) (stop b n)"
  by (simp add: rres_def stop_def)

lemma rres_fault [sim_intros]: "bsim E k m n \<Longrightarrow> rres E k (fault e m) (fault e n)"
  unfolding fault_def by (intro sim_intros same_end_refl) (auto simp: error_with_def zero_outcome_def)

lemma rres_None [sim_intros]: "rres E k None None"
  by (simp add: rres_def)

lemma rres_bind [sim_intros]:
  "(\<And>a. x = Some a \<Longrightarrow> rres E k (f a) (g a)) \<Longrightarrow> rres E k (Option.bind x f) (Option.bind x g)"
  by (cases x) (simp_all add: rres_None)

lemma rres_if [sim_intros]:
  "(P \<Longrightarrow> rres E k a c) \<Longrightarrow> (\<not> P \<Longrightarrow> rres E k b d) \<Longrightarrow> rres E k (if P then a else b) (if P then c else d)"
  by simp

lemma rres_attempt [sim_intros]:
  "bsim E k m n \<Longrightarrow> (\<And>a. x = ret a \<Longrightarrow> rres E k (f a) (g a)) \<Longrightarrow> rres E k (attempt x m f) (attempt x n g)"
  by (cases x rule: fallible_cases) (simp_all add: sim_intros)

lemma rres_prod [sim_intros]:
  "(\<And>a b. p = (a, b) \<Longrightarrow> rres E k (f a b) (g a b)) \<Longrightarrow>
    rres E k (case p of (a, b) \<Rightarrow> f a b) (case p of (a, b) \<Rightarrow> g a b)"
  by (cases p) simp

lemma rres_option [sim_intros]:
  "(x = None \<Longrightarrow> rres E k a b) \<Longrightarrow> (\<And>y. x = Some y \<Longrightarrow> rres E k (f y) (g y)) \<Longrightarrow>
    rres E k (case x of None \<Rightarrow> a | Some y \<Rightarrow> f y) (case x of None \<Rightarrow> b | Some y \<Rightarrow> g y)"
  by (cases x) auto

lemma bsim_moves [sim_intros]:
  "bsim E k m n \<Longrightarrow> bsim E k (set_heap H m) (set_heap H n)"
  "bsim E k m n \<Longrightarrow> bsim E k (set_env e m) (set_env e n)"
  "bsim E k m n \<Longrightarrow> bsim E k (push f m) (push f n)"
  by (simp_all add: bsim_def set_heap_def set_env_def push_def)

lemma sim_moves [sim_intros]:
  "bsim E k m n \<Longrightarrow> sim E k (apply_val v m) (apply_val v n)"
  "bsim E k m n \<Longrightarrow> sim E k (raise_sig s v m) (raise_sig s v n)"
  "bsim E k m n \<Longrightarrow> sim E k (set_control c p m) (set_control c p n)"
  by (simp_all add: sim_def bsim_def apply_val_def raise_sig_def set_control_def)

lemma bsim_apply [sim_intros]: "bsim E k m n \<Longrightarrow> bsim E k (apply_val v m) (apply_val v n)"
  using sim_moves(1) by (simp add: sim_def)

lemma rres_visit [sim_intros]: "bsim E k m n \<Longrightarrow> rres E k (visit f c p m) (visit f c p n)"
  unfolding visit_def by (intro sim_intros)

lemma rres_visit_kid [sim_intros]: "bsim E k m n \<Longrightarrow> rres E k (visit_kid f i m) (visit_kid f i n)"
  unfolding visit_kid_def by (intro sim_intros)

lemma rres_branch [sim_intros]: "bsim E k m n \<Longrightarrow> rres E k (branch f i m) (branch f i n)"
  unfolding branch_def by (intro sim_intros)

lemma rres_leave [sim_intros]: "bsim E k m n \<Longrightarrow> rres E k (leave f m) (leave f n)"
  unfolding leave_def by (intro sim_intros)

lemma rres_eval_child_of [sim_intros]:
  assumes "bsim E k m n"
  shows "rres E k (eval_child_of x i m) (eval_child_of x i n)"
  unfolding eval_child_of_def bsimD [OF assms] by (intro sim_intros assms)

lemma rres_set_child_control [sim_intros]:
  assumes "bsim E k m n"
  shows "rres E k (set_child_control x i m) (set_child_control x i n)"
  unfolding set_child_control_def
  by (intro sim_intros) (use assms in \<open>simp add: sim_def bsim_def\<close>)

lemma rres_descend [sim_intros]: "bsim E k m n \<Longrightarrow> rres E k (descend f i x m) (descend f i x n)"
  unfolding descend_def by (intro sim_intros)

subsection \<open>The helpers\<close>

lemma rres_block_advance [sim_helpers]: "bsim E k m n \<Longrightarrow> rres E k (block_advance f m) (block_advance f n)"
  unfolding block_advance_def by (intro sim_intros)

lemma rres_var_decl_loop:
  "bsim E k m n \<Longrightarrow> rres E k (var_decl_loop gl ds f m) (var_decl_loop gl ds f n)"
proof (induction ds arbitrary: f m n)
  case Nil
  show ?case unfolding var_decl_loop.simps bsimD [OF Nil] by (intro sim_intros Nil)
next
  case (Cons d ds)
  show ?case unfolding var_decl_loop.simps bsimD [OF Cons.prems]
    by (intro sim_intros Cons.IH Cons.prems)
qed

lemma rres_var_decl_advance [sim_helpers]:
  "bsim E k m n \<Longrightarrow> rres E k (var_decl_advance gl f m) (var_decl_advance gl f n)"
  unfolding var_decl_advance_def by (intro sim_intros rres_var_decl_loop)

lemma rres_template_loop:
  "bsim E k m n \<Longrightarrow> rres E k (template_loop ps ds f m) (template_loop ps ds f n)"
proof (induction ds arbitrary: f)
  case Nil
  show ?case unfolding template_loop.simps bsimD [OF Nil] by (intro sim_intros Nil)
next
  case (Cons d ds)
  show ?case unfolding template_loop.simps by (intro sim_intros Cons)
qed

lemma rres_template_advance [sim_helpers]:
  "bsim E k m n \<Longrightarrow> rres E k (template_advance f m) (template_advance f n)"
  unfolding template_advance_def by (intro sim_intros rres_template_loop)

lemma charge_alloc_sim:
  assumes "bsim E k m n" "charge_alloc c m = (m', b)" "charge_alloc c n = (n', d)"
  shows "bsim E k m' n'"
  using assms by (auto simp: charge_alloc_def bsim_def Let_def split: tier.splits)

lemma rres_array_loop:
  "bsim E k m n \<Longrightarrow> rres E k (array_loop ds f m) (array_loop ds f n)"
proof (induction ds arbitrary: f)
  case Nil
  obtain m' b n' d where c: "charge_alloc (of_nat (length (f_vals f)) * 16 + 32) m = (m', b)"
    "charge_alloc (of_nat (length (f_vals f)) * 16 + 32) n = (n', d)" by fastforce
  note s = charge_alloc_sim [OF Nil c]
  show ?case unfolding array_loop.simps c Let_def case_prod_conv bsimD [OF s]
    by (intro sim_intros s)
next
  case (Cons d ds)
  show ?case unfolding array_loop.simps Let_def by (intro sim_intros Cons)
qed

lemma rres_array_advance [sim_helpers]:
  "bsim E k m n \<Longrightarrow> rres E k (array_advance f m) (array_advance f n)"
  unfolding array_advance_def by (intro sim_intros rres_array_loop)

lemma rres_object_advance [sim_helpers]:
  "bsim E k m n \<Longrightarrow> rres E k (object_advance f m) (object_advance f n)"
  unfolding object_advance_def Let_def by (intro sim_intros)

text \<open>In Eval mode the two machines also have the same node.\<close>

definition esim :: "effect list \<Rightarrow> i64 \<Rightarrow> machine \<Rightarrow> machine \<Rightarrow> bool" where
  "esim E k m n \<longleftrightarrow> bsim E k m n \<and> m_node n = m_node m"

lemma esimD: "esim E k m n \<Longrightarrow> bsim E k m n" "esim E k m n \<Longrightarrow> m_node n = m_node m"
    "esim E k m n \<Longrightarrow> new_frame j n = new_frame j m"
  by (simp_all add: esim_def new_frame_def bsim_def)

lemma rres_eval_assign [sim_helpers]:
  assumes "esim E k m n"
  shows "rres E k (eval_assign x op m) (eval_assign x op n)"
  unfolding eval_assign_def Let_def esimD(3) [OF assms] bsimD [OF esimD(1) [OF assms]]
  by (intro sim_intros esimD(1) [OF assms])

lemma rres_eval_update [sim_helpers]:
  assumes "esim E k m n"
  shows "rres E k (eval_update x m) (eval_update x n)"
  unfolding eval_update_def Let_def esimD(3) [OF assms] bsimD [OF esimD(1) [OF assms]]
  by (intro sim_intros esimD(1) [OF assms])

lemma rres_eval_try [sim_helpers]:
  assumes "esim E k m n"
  shows "rres E k (eval_try x m) (eval_try x n)"
proof -
  have p: "bsim E k (if b then m else push f m) (if b then n else push f n)" for b f
    using esimD(1) [OF assms] by (simp add: bsim_moves)
  have q: "bsim E k (if c then (if b then m else push f m) else push g (if b then m else push f m))
      (if c then (if b then n else push f n) else push g (if b then n else push f n))" for b c f g
    using p by (simp add: bsim_moves)
  show ?thesis
    unfolding eval_try_def Let_def esimD(3) [OF assms] bsimD [OF esimD(1) [OF assms]]
    by (intro sim_intros q)
qed

lemma rres_eval_for [sim_helpers]:
  assumes "esim E k m n"
  shows "rres E k (eval_for x m) (eval_for x n)"
  unfolding eval_for_def for_eval_cond_def for_eval_body_def Let_def esimD(3) [OF assms]
    bsimD [OF esimD(1) [OF assms]]
  by (intro sim_intros esimD(1) [OF assms])

lemma rres_resumes [sim_helpers]:
  assumes b: "bsim E k m n"
  shows "rres E k (assign_resume gl f m) (assign_resume gl f n)"
    "rres E k (update_resume gl f m) (update_resume gl f n)"
    "rres E k (for_eval_incr f m) (for_eval_incr f n)"
    "rres E k (for_resume f m) (for_resume f n)"
    "rres E k (while_eval_cond f m) (while_eval_cond f n)"
    "rres E k (while_resume f m) (while_resume f n)"
    "rres E k (do_while_eval_cond f m) (do_while_eval_cond f n)"
    "rres E k (do_while_resume f m) (do_while_resume f n)"
proof -
  have a: "assigned_value gl base f n = assigned_value gl base f m" for base f
    by (simp add: assigned_value_def bsimD [OF b])
  show "rres E k (assign_resume gl f m) (assign_resume gl f n)"
    unfolding assign_resume_def Let_def a bsimD [OF b] by (intro sim_intros b)
  show "rres E k (update_resume gl f m) (update_resume gl f n)"
    unfolding update_resume_def Let_def bsimD [OF b] by (intro sim_intros b)
  show "rres E k (for_eval_incr f m) (for_eval_incr f n)"
    "rres E k (for_resume f m) (for_resume f n)"
    unfolding for_resume_def for_eval_incr_def for_eval_cond_def for_eval_body_def bsimD [OF b]
    by (intro sim_intros b)+
  show "rres E k (while_eval_cond f m) (while_eval_cond f n)"
    "rres E k (while_resume f m) (while_resume f n)"
    "rres E k (do_while_eval_cond f m) (do_while_eval_cond f n)"
    "rres E k (do_while_resume f m) (do_while_resume f n)"
    unfolding while_resume_def while_eval_cond_def do_while_resume_def do_while_eval_cond_def bsimD [OF b]
    by (intro sim_intros b)+
qed

lemma rres_trigger_finally [sim_helpers]:
  "bsim E k m n \<Longrightarrow> rres E k (trigger_finally f pn m) (trigger_finally f pn n)"
  unfolding trigger_finally_def Let_def by (intro sim_intros)

lemma rres_for_of_step [sim_helpers]:
  assumes "bsim E k m n"
  shows "rres E k (for_of_step gl f m) (for_of_step gl f n)"
  unfolding for_of_step_def bsimD [OF assms]
  by (cases "f_obj f"; simp only: val.case; intro sim_intros assms)

lemma rres_for_of_resume [sim_helpers]:
  assumes "bsim E k m n"
  shows "rres E k (for_of_resume gl f m) (for_of_resume gl f n)"
  unfolding for_of_resume_def bsimD [OF assms] by (intro sim_intros sim_helpers assms)

lemma rres_switch [sim_helpers]:
  assumes "bsim E k m n"
  shows "rres E k (switch_run f m) (switch_run f n)" "rres E k (switch_match gl f m) (switch_match gl f n)"
  unfolding switch_match_def switch_run_def Let_def bsimD [OF assms] by (intro sim_intros assms)+

subsection \<open>Calls\<close>

lemma same_end_park:
  "same_state s t \<Longrightarrow> same_end ((zero_outcome OutParked)\<lparr>o_state := Some s, o_wake := w, o_transitions := i\<rparr>)
     ((zero_outcome OutParked)\<lparr>o_state := Some t, o_wake := w, o_transitions := j\<rparr>)"
  "same_state s t \<Longrightarrow> same_end ((zero_outcome OutParked)\<lparr>o_state := Some s, o_cond := c, o_transitions := i\<rparr>)
     ((zero_outcome OutParked)\<lparr>o_state := Some t, o_cond := c, o_transitions := j\<rparr>)"
  by (simp_all add: same_end_def zero_outcome_def)

lemma same_state_snapshot: "bsim E k m n \<Longrightarrow> same_state (snapshot pk m) (snapshot pk n)"
  by (simp add: same_state_def snapshot_def bsim_def)

lemma rres_park:
  "(\<And>c. pk = ParkOnCondition c \<Longrightarrow> rres E k (f c) (f' c)) \<Longrightarrow>
   (\<And>w. pk = ParkOnWake w \<Longrightarrow> rres E k (g w) (g' w)) \<Longrightarrow>
    rres E k (case pk of ParkOnCondition c \<Rightarrow> f c | ParkOnWake w \<Rightarrow> g w)
             (case pk of ParkOnCondition c \<Rightarrow> f' c | ParkOnWake w \<Rightarrow> g' w)"
  by (cases pk) auto

lemma rres_perform_native [sim_helpers]:
  assumes fr: "natives_frame I" and b: "bsim E k m n"
  shows "rres E k (perform_native I f h args m) (perform_native I f h args n)"
proof (cases "in_fns I h")
  case None
  then show ?thesis unfolding perform_native_def by (auto intro!: sim_intros b)
next
  case (Some fn)
  have ho: "m_host m = prefix_effects E (m_host n)" and H: "m_heap n = m_heap m"
    using b by (simp_all add: bsim_def)
  have call: "fn (m_heap m) (m_host m) args =
      map_option (\<lambda>(H', ho', v, pk). (H', prefix_effects E ho', v, pk)) (fn (m_heap m) (m_host n) args)"
    using fr Some by (simp add: natives_frame_def native_frames_def ho)
  show ?thesis
  proof (cases "fn (m_heap m) (m_host n) args")
    case None
    then show ?thesis using Some call H by (simp add: perform_native_def rres_None)
  next
    case (Some r)
    obtain H' ho' v pk where r: "r = (H', ho', v, pk)" by (metis prod_cases4)
    define m1 where "m1 = m\<lparr>m_heap := H', m_host := prefix_effects E ho'\<rparr>"
    define n1 where "n1 = n\<lparr>m_heap := H', m_host := ho'\<rparr>"
    have b1: "bsim E k m1 n1" using b by (simp add: m1_def n1_def bsim_def)
    define m2 where "m2 = m1\<lparr>m_path := f_path f, m_mode := ModeApply, m_val := VUndef\<rparr>"
    define n2 where "n2 = n1\<lparr>m_path := f_path f, m_mode := ModeApply, m_val := VUndef\<rparr>"
    have b2: "bsim E k m2 n2" using b1 by (simp add: m2_def n2_def bsim_def)
    have idx: "ho_effects (prefix_effects E ho') ! length (ho_effects (m_host m)) =
        ho_effects ho' ! length (ho_effects (m_host n))"
      by (simp add: ho prefix_effects_def nth_append)
    have len: "length (ho_effects (m_host m)) < length (ho_effects (prefix_effects E ho')) \<longleftrightarrow>
        length (ho_effects (m_host n)) < length (ho_effects ho')"
      by (simp add: ho prefix_effects_def)
    show ?thesis
      unfolding perform_native_def \<open>in_fns I h = Some fn\<close> option.case Let_def call H Some r
        option.map case_prod_conv Option.bind.bind_lunit len idx
      unfolding m1_def [symmetric] n1_def [symmetric]
      unfolding m2_def [symmetric] n2_def [symmetric]
      by (intro sim_intros rres_park same_end_park same_state_snapshot [OF b2] b1 b2)
  qed
qed

lemma rres_perform_call [sim_helpers]:
  assumes fr: "natives_frame I" and b: "bsim E k m n"
  shows "rres E k (perform_call I f m) (perform_call I f n)"
proof (cases "f_vals f")
  case (Cons callee args)
  have call: "sim E k (set_control c p ((push r m)\<lparr>m_def := d, m_root := rt, m_env := e, m_heap := H\<rparr>))
      (set_control c p ((push r n)\<lparr>m_def := d, m_root := rt, m_env := e, m_heap := H\<rparr>))" for c p r d rt e H
    using b by (simp add: sim_def bsim_def push_def set_control_def)
  show ?thesis unfolding perform_call_def Cons list.case Let_def bsimD [OF b]
    by (cases callee; simp only: val.case; intro sim_intros sim_helpers fr b call)
qed (simp add: perform_call_def rres_None)

lemma rres_arg_advance [sim_helpers]:
  "natives_frame I \<Longrightarrow> bsim E k m n \<Longrightarrow> rres E k (arg_advance I f m) (arg_advance I f n)"
  unfolding arg_advance_def Let_def by (intro sim_intros sim_helpers)

lemma rres_call_resume [sim_helpers]:
  assumes "natives_frame I" "bsim E k m n"
  shows "rres E k (call_resume I f m) (call_resume I f n)"
  unfolding call_resume_def bsimD [OF assms(2)] by (intro sim_intros sim_helpers assms)

subsection \<open>The three modes\<close>

lemma restore_caller_sim: "bsim E k m n \<Longrightarrow> bsim E k (restore_caller I f m) (restore_caller I f n)"
  by (auto simp: restore_caller_def bsim_def Let_def split: option.splits)

lemma bsim_mode: "bsim E k m n \<Longrightarrow> bsim E k (m\<lparr>m_mode := md\<rparr>) (n\<lparr>m_mode := md\<rparr>)"
  by (simp add: bsim_def)

lemma sim_not_eval: "bsim E k m n \<Longrightarrow> m_mode m \<noteq> ModeEval \<Longrightarrow> sim E k m n"
  by (simp add: sim_def)

lemma same_end_done: "same_end (done_with v) (done_with v)"
  by (simp add: same_end_refl done_with_def zero_outcome_def)

lemma rres_apply_pieces [sim_helpers]:
  assumes b: "bsim E k m n"
  shows "rres E k (apply_if f m) (apply_if f n)" "rres E k (apply_bin gl f m) (apply_bin gl f n)"
    "rres E k (apply_logic f m) (apply_logic f n)" "rres E k (apply_unary gl f m) (apply_unary gl f n)"
    "rres E k (apply_member f m) (apply_member f n)" "rres E k (apply_index gl f m) (apply_index gl f n)"
    "rres E k (apply_array f m) (apply_array f n)"
    "rres E k (apply_var_decl gl f m) (apply_var_decl gl f n)"
    "rres E k (apply_switch gl f m) (apply_switch gl f n)"
  unfolding apply_if_def apply_bin_def apply_logic_def apply_unary_def apply_member_def
    apply_index_def apply_array_def apply_var_decl_def apply_switch_def bsimD [OF b]
  by (intro sim_intros sim_helpers b)+

lemma rres_apply_object [sim_helpers]:
  assumes b: "bsim E k m n"
  shows "rres E k (apply_object gl f m) (apply_object gl f n)"
  unfolding apply_object_def bsimD [OF b]
  by (cases "f_obj f"; simp only: val.case; intro sim_intros sim_helpers b)

lemma rres_apply_ret [sim_helpers]:
  assumes b: "bsim E k m n"
  shows "rres E k (apply_ret I f m) (apply_ret I f n)"
  unfolding apply_ret_def bsimD [OF b]
  by (intro sim_intros same_end_done sim_not_eval bsim_mode restore_caller_sim b) simp

lemma rres_apply_finally_run [sim_helpers]:
  assumes b: "bsim E k m n"
  shows "rres E k (apply_finally_run f m) (apply_finally_run f n)"
  unfolding apply_finally_run_def
  by (intro sim_intros b) (use b in \<open>simp add: sim_def bsim_def\<close>)

lemma rres_apply_frame:
  assumes fr: "natives_frame I" and b: "bsim E k m n"
  shows "rres E k (apply_frame I f m) (apply_frame I f n)"
  unfolding apply_frame_def bsimD [OF b]
  by (cases "f_kind f"; simp only: frame_kind.case; intro sim_intros sim_helpers fr b)

lemma rres_uncaught [sim_helpers]:
  assumes b: "bsim E k m n"
  shows "rres E k (uncaught m) (uncaught n)"
  unfolding uncaught_def bsimD [OF b]
  by (cases "fst (m_sig m)"; simp only: sig_kind.case; intro sim_intros same_end_refl b)
     (simp_all add: done_with_def error_with_def zero_outcome_def)

lemma rres_unwind_ret [sim_helpers]:
  assumes b: "bsim E k m n"
  shows "rres E k (unwind_ret I f m) (unwind_ret I f n)"
  unfolding unwind_ret_def bsimD [OF b]
  by (intro sim_intros sim_helpers same_end_done sim_not_eval bsim_mode restore_caller_sim b) simp

lemma rres_unwind_catch [sim_helpers]:
  assumes b: "bsim E k m n" and u: "m_mode m = ModeUnwind"
  shows "rres E k (unwind_catch gl f m) (unwind_catch gl f n)"
  unfolding unwind_catch_def Let_def bsimD [OF b]
  by (intro sim_intros sim_not_eval b) (simp add: u)

lemma rres_unwind_loop [sim_helpers]:
  assumes b: "bsim E k m n" and u: "m_mode m = ModeUnwind" and r: "rres E k r s"
  shows "rres E k (unwind_loop f r m) (unwind_loop f s n)"
  unfolding unwind_loop_def bsimD [OF b]
  by (cases "fst (m_sig m)"; simp only: sig_kind.case; intro sim_intros sim_not_eval b r) (simp_all add: u)

lemma rres_unwind_frame:
  assumes b: "bsim E k m n" and u: "m_mode m = ModeUnwind"
  shows "rres E k (unwind_frame I f m) (unwind_frame I f n)"
  unfolding unwind_frame_def bsimD [OF b]
  by (cases "f_kind f"; simp only: frame_kind.case; intro sim_intros sim_helpers sim_not_eval b u)
     (simp_all add: u)

lemma set_clo_sim: "bsim E k m n \<Longrightarrow> sim E k (set_clo d p e m) (set_clo d p e n)"
  by (auto simp: set_clo_def bsimD split: prod.splits intro!: sim_intros)

lemma rres_eval_step:
  assumes s: "esim E k m n"
  shows "rres E k (eval_step I m) (eval_step I n)"
proof -
  note b = esimD(1) [OF s]
  show ?thesis unfolding eval_step_def esimD(2) [OF s]
  proof (rule rres_bind, goal_cases)
    case (1 x)
    show ?case
      unfolding esimD(3) [OF s] bsimD [OF b]
      by (cases "nk x"; simp only: kind.case Let_def; intro sim_intros sim_helpers set_clo_sim b s)
  qed
qed

lemma rres_step:
  assumes fr: "natives_frame I" and s: "sim E k m n"
  shows "rres E k (cek_step I m) (cek_step I n)"
proof -
  define m' where "m' = m\<lparr>m_transitions := m_transitions m + 1\<rparr>"
  define n' where "n' = n\<lparr>m_transitions := m_transitions n + 1\<rparr>"
  have b: "bsim E k m' n'" and e: "m_mode m' = ModeEval \<Longrightarrow> esim E k m' n'"
    using s by (simp_all add: m'_def n'_def sim_def esim_def bsim_def)
  have br: "bsim E k (m'\<lparr>m_kont := r\<rparr>) (n'\<lparr>m_kont := r\<rparr>)" for r
    using b by (simp add: bsim_def)
  have steps: "cek_step I m = (case m_mode m' of ModeEval \<Rightarrow> eval_step I m'
      | ModeApply \<Rightarrow> apply_step I m' | ModeUnwind \<Rightarrow> unwind_step I m')"
    "cek_step I n = (case m_mode n' of ModeEval \<Rightarrow> eval_step I n'
      | ModeApply \<Rightarrow> apply_step I n' | ModeUnwind \<Rightarrow> unwind_step I n')"
    unfolding cek_step_def Let_def m'_def n'_def by simp_all
  show ?thesis
  proof (cases "m_mode m'")
    case ModeEval
    then show ?thesis using rres_eval_step [OF e] by (simp add: steps bsimD [OF b])
  next
    case ModeApply
    have "rres E k (apply_step I m') (apply_step I n')"
      unfolding apply_step_def bsimD [OF b]
      by (cases "m_kont m'"; simp only: list.case; intro sim_intros same_end_done rres_apply_frame fr b br)
    then show ?thesis using ModeApply by (simp add: steps bsimD [OF b])
  next
    case ModeUnwind
    have u: "m_mode (m'\<lparr>m_kont := r\<rparr>) = ModeUnwind" for r using ModeUnwind by simp
    have "rres E k (unwind_step I m') (unwind_step I n')"
      unfolding unwind_step_def bsimD [OF b]
      by (cases "m_kont m'"; simp only: list.case; intro sim_helpers rres_unwind_frame b br u)
    then show ?thesis using ModeUnwind by (simp add: steps bsimD [OF b])
  qed
qed

subsection \<open>Whole runs\<close>

text \<open>The run loop by the number of ticks its budget allows.\<close>

fun run_n :: "interp \<Rightarrow> nat \<Rightarrow> machine \<Rightarrow> outcome option" where
  "run_n I 0 m = Some (park_meter FuelMeter m)"
| "run_n I (Suc j) m = (case cek_step I m of
      None \<Rightarrow> None
    | Some (m', oc) \<Rightarrow> (case oc of Some out \<Rightarrow> Some (seal m' out) | None \<Rightarrow> run_n I j m'))"

lemma run_fuel_run_n: "run_fuel I s m = run_n I (ticks_left s) m"
proof (induction I s m rule: run_fuel.induct)
  case (1 I s m)
  show ?case
  proof (cases "0 \<le> sint (s - 1)")
    case True
    then show ?thesis
      using "1.IH" [of "s - 1" True]
      by (subst run_fuel.simps) (auto simp: fuel_tick_def Let_def ticks_left_tick split: option.splits)
  next
    case False
    then show ?thesis
      by (subst run_fuel.simps) (simp add: fuel_tick_def Let_def ticks_left_def)
  qed
qed

definition related_ends :: "effect list \<Rightarrow> i64 \<Rightarrow> outcome option \<Rightarrow> outcome option \<Rightarrow> bool" where
  "related_ends E k r s \<longleftrightarrow> rel_option (\<lambda>a b. same_end a b \<and>
     o_effects a = E @ o_effects b \<and> o_transitions a = k + o_transitions b) r s"

lemma seal_related:
  "bsim E k m n \<Longrightarrow> same_end a b \<Longrightarrow> related_ends E k (Some (seal m a)) (Some (seal n b))"
  by (simp add: related_ends_def seal_def same_end_def bsim_def prefix_effects_def)

lemma park_related:
  assumes "bsim E k m n"
  shows "related_ends E k (Some (park_meter g m)) (Some (park_meter g n))"
  using same_state_snapshot [OF assms] assms
  by (simp add: related_ends_def park_meter_def same_end_def zero_outcome_def Let_def bsim_def
      prefix_effects_def)

lemma run_n_sim:
  "natives_frame I \<Longrightarrow> sim E k m n \<Longrightarrow> related_ends E k (run_n I j m) (run_n I j n)"
proof (induction j arbitrary: m n)
  case 0
  then show ?case by (simp add: park_related sim_def)
next
  case (Suc j)
  have r: "rres E k (cek_step I m) (cek_step I n)" by (rule rres_step [OF Suc.prems])
  show ?case
  proof (cases "cek_step I m")
    case None
    then show ?thesis using r by (simp add: rres_def related_ends_def)
  next
    case (Some p)
    then show ?thesis using r Suc
      by (cases p; cases "snd p") (auto simp: rres_def seal_related split: option.splits)
  qed
qed

lemma run_n_park:
  "wf_interp I \<Longrightarrow> coherent I cx m \<Longrightarrow> run_n I i m = Some out \<Longrightarrow> o_state out = Some st \<Longrightarrow>
   s_park st = ParkFuel \<Longrightarrow>
     \<exists>m'. coherent I cx m' \<and> out = park_meter FuelMeter m' \<and> (\<forall>j. run_n I (i + j) m = run_n I j m')"
proof (induction i arbitrary: m)
  case 0
  then show ?case by auto
next
  case (Suc i)
  have k: "keeps I cx (cek_step I m)" by (rule keeps_step [OF Suc.prems(1,2)])
  obtain m1 oc where s: "cek_step I m = Some (m1, oc)"
    using Suc.prems(3) by (auto split: option.splits)
  have "oc = None"
  proof (cases oc)
    case (Some o1)
    then have "o_state o1 = Some st" using Suc.prems(3,4) s by (auto simp: seal_def)
    then show ?thesis using k s Some Suc.prems(5) by (simp add: keeps_def)
  qed
  then show ?case using Suc.IH [of m1] Suc.prems s k by (auto simp: keeps_def)
qed

lemma same_state_trans: "same_state s t \<Longrightarrow> same_state t u \<Longrightarrow> same_state s u"
  by (cases s; cases t; cases u) (simp add: same_state_def)

lemma same_end_trans: "same_end a b \<Longrightarrow> same_end b c \<Longrightarrow> same_end a c"
  by (auto simp: same_end_def option.rel_sel intro: same_state_trans)

lemma related_ends_trans:
  assumes "related_ends E k r s" and "related_ends F l s t"
  shows "related_ends (E @ F) (k + l) r t"
  using assms by (cases r; cases s; cases t) (auto simp: related_ends_def intro: same_end_trans)

lemma bsim_budget [simp]:
  "bsim E k (with_budget x y m) n \<longleftrightarrow> bsim E k m n" "bsim E k m (with_budget x y n) \<longleftrightarrow> bsim E k m n"
  by (simp_all add: bsim_def with_budget_def)

lemma sim_budget [simp]:
  "sim E k (with_budget x y m) n \<longleftrightarrow> sim E k m n" "sim E k m (with_budget x y n) \<longleftrightarrow> sim E k m n"
  by (simp_all add: sim_def) (simp_all add: with_budget_def)

lemma sim_refl: "sim [] 0 m m"
  by (simp add: sim_def bsim_def prefix_effects_def)

lemma sim_reentered:
  assumes "coherent I (tr, in_world I, p, None) m"
  shows "sim (ho_effects (m_host m)) (m_transitions m) m (reentered I p (ho_tick (m_host m)) m)"
proof -
  have "host_ctx (m_host m) = (in_world I, p, None)"
    using assms by (simp add: coherent_def grounded_def ctx_of_def)
  then show ?thesis using reentered_eval_node [OF assms]
    by (simp add: sim_def bsim_def host_ctx_def prefix_effects_def new_host_def) (simp add: reentered_def new_host_def prefix_effects_def)
qed

lemma coherent_budget [simp]: "coherent I cx (with_budget x y m) \<longleftrightarrow> coherent I cx m"
  by (simp add: coherent_def grounded_def with_budget_def ctx_of_def)

definition grant :: "i64 \<Rightarrow> delivery" where
  "grant b = \<lparr>d_restart = Some (''grant-fuel'', [(''fuel'', AnyInt64 b)]), d_value = None\<rparr>"

lemma ticks_left_pos: "0 < sint s \<Longrightarrow> ticks_left s = nat (sint s)"
  using sint_minus_1 [of s] by (simp add: ticks_left_def)

lemma sint_add_small:
  fixes a b :: i64
  assumes "0 < sint a" "0 < sint b" "sint a + sint b < 2 ^ 63"
  shows "sint (a + b) = sint a + sint b"
proof -
  have "signed_take_bit 63 (sint a + sint b) = sint a + sint b"
    using assms by (intro signed_take_bit_int_eq_self) simp_all
  then show ?thesis by (simp add: sint_word_ariths)
qed

lemma resume_fuel_park:
  assumes "coherent I (TierSandbox, in_world I, p, None) m" and "0 < sint b"
  shows "\<exists>x y. resume I (erase_state (snapshot ParkFuel m)) (grant b) p late t =
     run_n I (nat (sint b)) (with_budget x y (reentered I p t m))"
proof -
  have "m_tier m = TierSandbox" using assms(1) by (simp add: coherent_def grounded_def ctx_of_def)
  then have "s_tier (erase_state (snapshot ParkFuel m)) = TierSandbox"
    "s_park (erase_state (snapshot ParkFuel m)) = ParkFuel"
    by (simp_all add: erase_state_def snapshot_def)
  then show ?thesis using resume_machine_snapshot [OF assms(1)] assms(2)
    by (auto simp: resume_def is_abort_def grant_def deliver_def granted_fuel_def to_int64_def Let_def
        run_fuel_run_n ticks_left_pos ret_def)
qed

lemma run_cek_sandbox:
  assumes "rq_tier rq = TierSandbox" and "new_machine I rq H t = ret m" and "0 < sint a"
  shows "\<exists>x y. run_cek I (rq\<lparr>rq_fuel := a\<rparr>) H late t = run_n I (nat (sint a)) (with_budget x y m)"
proof -
  have "new_machine I (rq\<lparr>rq_fuel := a\<rparr>) H t = ret m"
    using assms(2) by (simp add: new_machine_def cong: if_cong)
  moreover have "a \<noteq> 0" using assms(3) by auto
  ultimately show ?thesis using assms(1,3)
    by (auto simp: run_cek_def ret_def Let_def or_default_def run_fuel_run_n ticks_left_pos)
qed

lemma fuel_park_transparent:
  assumes wf: "wf_interp I" "natives_frame I"
    and rq: "rq_tier rq = TierSandbox" "rq_asof rq = None"
    and nm: "new_machine I rq H t = ret m"
    and fuel: "0 < sint a" "0 < sint b" "sint a + sint b < 2 ^ 63"
    and run: "run_cek I (rq\<lparr>rq_fuel := a\<rparr>) H late t = Some out"
    and park: "o_state out = Some st" "s_park st = ParkFuel"
  shows "\<exists>t'. related_ends (o_effects out) (o_transitions out)
     (run_cek I (rq\<lparr>rq_fuel := a + b\<rparr>) H late t)
     (resume I (erase_state st) (grant b) (rq_principal rq) late' t')"
proof -
  let ?cx = "(TierSandbox, in_world I, rq_principal rq, None)"
  have cm: "coherent I ?cx m"
    using new_machine_coherent [OF wf(1) nm] rq by simp
  obtain x y where ra: "run_n I (nat (sint a)) (with_budget x y m) = Some out"
    using run_cek_sandbox [OF rq(1) nm fuel(1)] run by metis
  obtain m' where m': "coherent I ?cx m'" "out = park_meter FuelMeter m'"
    "\<And>j. run_n I (nat (sint a) + j) (with_budget x y m) = run_n I j m'"
    using run_n_park [OF wf(1) _ ra park, of ?cx] cm by auto
  have s: "sint (a + b) = sint a + sint b" by (rule sint_add_small [OF fuel])
  obtain x2 y2 where rab: "run_cek I (rq\<lparr>rq_fuel := a + b\<rparr>) H late t =
      run_n I (nat (sint a) + nat (sint b)) (with_budget x2 y2 m)"
    using run_cek_sandbox [OF rq(1) nm, where a = "a + b" and late = late] s fuel
    by (auto simp: nat_add_distrib)
  have st: "st = snapshot ParkFuel m'"
    using m'(2) park(1) by (simp add: park_meter_def breach_class_def Let_def)
  have e: "o_effects out = ho_effects (m_host m')" "o_transitions out = m_transitions m'"
    using m'(2) by (simp_all add: park_meter_def Let_def)
  let ?t = "ho_tick (m_host m')"
  obtain x3 y3 where res: "resume I (erase_state st) (grant b) (rq_principal rq) late' ?t =
      run_n I (nat (sint b)) (with_budget x3 y3 (reentered I (rq_principal rq) ?t m'))"
    using resume_fuel_park [OF m'(1) fuel(2)] st by metis
  have "related_ends [] 0 (run_cek I (rq\<lparr>rq_fuel := a + b\<rparr>) H late t) (run_n I (nat (sint b)) m')"
    unfolding rab m'(3) [symmetric] by (rule run_n_sim [OF wf(2)]) (simp add: sim_refl)
  moreover have "related_ends (ho_effects (m_host m')) (m_transitions m') (run_n I (nat (sint b)) m')
      (resume I (erase_state st) (grant b) (rq_principal rq) late' ?t)"
    unfolding res by (rule run_n_sim [OF wf(2)]) (simp add: sim_reentered [OF m'(1)])
  ultimately show ?thesis using related_ends_trans by (fastforce simp: e)
qed

end
