(* ===== verification/Cek_Natives.thy ===== *)
theory Cek_Natives
  imports Cek_Transparent
begin

section \<open>The standard natives\<close>

text \<open>
  The natives of \<open>internal/cek/native.go\<close>: capability-gated sends, contract boundary validators, keys,
  and the workflow natives that park.  \<open>gl\<close> is the Go library and \<open>mu\<close> the mutant registry
  (\<open>mutants.Active\<close>), which is off in production.  Each native is shown to satisfy the contract the
  machine's own results ask of it: it appends to the effect trace without looking at it, and leaves
  the host's context alone.
\<close>

subsection \<open>Host operations\<close>

type_synonym native_result = "(heap \<times> host \<times> val \<times> native_park option) option"

definition nret :: "val \<Rightarrow> heap \<Rightarrow> host \<Rightarrow> native_result" where
  "nret v H ho = Some (H, ho, v, None)"

definition npark :: "native_park \<Rightarrow> heap \<Rightarrow> host \<Rightarrow> native_result" where
  "npark pk H ho = Some (H, ho, VUndef, Some pk)"

definition add_effect :: "effect \<Rightarrow> host \<Rightarrow> host" where
  "add_effect e ho = ho\<lparr>ho_effects := ho_effects ho @ [e]\<rparr>"

definition record_effect :: "(string \<Rightarrow> bool) \<Rightarrow> string \<Rightarrow> any_map \<Rightarrow> host \<Rightarrow> host" where
  "record_effect mu class payload ho =
     (let e = \<lparr>ef_class = class, ef_payload = payload, ef_val = VUndef\<rparr> in
      if mu ''EVAL_EFFECT_ORDER_TRANSPOSED'' \<and> 1 \<le> length (ho_effects ho)
      then ho\<lparr>ho_effects := butlast (ho_effects ho) @ [e, last (ho_effects ho)]\<rparr>
      else add_effect e ho)"

definition record_effect_val :: "string \<Rightarrow> any_map \<Rightarrow> val \<Rightarrow> host \<Rightarrow> host" where
  "record_effect_val class payload v ho =
     add_effect \<lparr>ef_class = class, ef_payload = payload, ef_val = v\<rparr> ho"

definition signal_condition :: "string \<Rightarrow> restart list \<Rightarrow> any_map \<Rightarrow> condition" where
  "signal_condition class rs payload = \<lparr>cn_class = class, cn_payload = payload, cn_restarts = rs\<rparr>"

definition abort_only :: "restart list" where
  "abort_only = [mk_restart ''abort'' ''Abort'' []]"

definition revoked :: "string \<Rightarrow> native_park" where
  "revoked cap = ParkOnCondition (signal_condition ''capability.revoked''
     [mk_restart ''re-grant'' (''Re-grant '' @ cap) ''operator'', mk_restart ''abort'' ''Abort'' []]
     [(''capability'', AnyStr cap)])"

definition holds_cap :: "host \<Rightarrow> string \<Rightarrow> bool" where
  "holds_cap ho cap \<longleftrightarrow> p_operator (ho_principal ho) \<or> p_grants (ho_principal ho) cap"

definition wf_fault :: "string \<Rightarrow> string \<Rightarrow> native_park" where
  "wf_fault class msg = ParkOnCondition (signal_condition class abort_only [(''error'', AnyStr msg)])"

definition record_of :: "(string \<times> val) list \<Rightarrow> heap \<Rightarrow> (val \<times> heap) option" where
  "record_of kvs H = (case new_record H of (a, H1) \<Rightarrow> do {
     H2 \<leftarrow> rec_set_all a kvs H1;
     Some (VRec a, H2)
   })"

text \<open>\<open>toStr(args[i])\<close>, or the empty string when there is no such argument.\<close>

definition arg_str :: "heap \<Rightarrow> val list \<Rightarrow> nat \<Rightarrow> string option" where
  "arg_str H args i = (if i < length args then to_str H (args ! i) else Some [])"

subsection \<open>Sends and contracts\<close>

definition std_mail_send :: "(string \<Rightarrow> bool) \<Rightarrow> native" where
  "std_mail_send mu H ho args =
     (if \<not> holds_cap ho ''mail.send'' then npark (revoked ''mail.send'') H ho
      else do {
        to \<leftarrow> arg_str H args 0;
        subject \<leftarrow> arg_str H args 1;
        (v, H') \<leftarrow> record_of [(''intent'', VStr ''mail.send''), (''to'', VStr to),
          (''subject'', VStr subject)] H;
        nret v H' (record_effect mu ''mail.send'' [(''to'', AnyStr to), (''subject'', AnyStr subject)] ho)
      })"

definition first_truthy :: "val list \<Rightarrow> bool" where
  "first_truthy args \<longleftrightarrow> (case args of [] \<Rightarrow> False | v # _ \<Rightarrow> truthy v)"

definition std_contract_requires :: native where
  "std_contract_requires H ho args = nret (bool_val (first_truthy args)) H ho"

definition std_contract_ensures :: native where
  "std_contract_ensures H ho args = nret (bool_val (first_truthy args)) H ho"

definition contract_violation :: "string \<Rightarrow> native_park" where
  "contract_violation clause = ParkOnCondition (signal_condition
     (''contract.'' @ clause @ ''.violated'') abort_only [(''clause'', AnyStr clause)])"

definition std_contract_pre :: "(string \<Rightarrow> bool) \<Rightarrow> native" where
  "std_contract_pre mu H ho args =
     (if first_truthy args \<or> mu ''EVAL_PRE_ALWAYS_SATISFIED'' then nret VUndef H ho
      else npark (contract_violation ''pre'') H ho)"

definition is_num_zero :: "val list \<Rightarrow> bool" where
  "is_num_zero args \<longleftrightarrow> (case args of VF64 n # _ \<Rightarrow> feq n 0 | _ \<Rightarrow> False)"

definition std_contract_post :: "(string \<Rightarrow> bool) \<Rightarrow> native" where
  "std_contract_post mu H ho args =
     (if first_truthy args \<or> (mu ''EVAL_VALIDATOR_ZERO_ACCEPTS'' \<and> is_num_zero args) then nret VUndef H ho
      else npark (contract_violation ''post'') H ho)"

definition std_keys :: native where
  "std_keys H ho args = do {
     ks \<leftarrow> (case args of
         [VRec a] \<Rightarrow> do { (ks, mp) \<leftarrow> get_rec H a; Some ks }
       | [VArr a] \<Rightarrow> do { es \<leftarrow> get_arr H a; Some (map (\<lambda>i. int_str (int i)) [0..<length es]) }
       | _ \<Rightarrow> Some []);
     (case new_array (map VStr ks) H of (v, H') \<Rightarrow> nret v H' ho)
   }"

subsection \<open>Workflow natives\<close>

definition std_wf_sleep :: "golib \<Rightarrow> native" where
  "std_wf_sleep gl H ho args = (case args of
      VF64 n # _ \<Rightarrow> npark (ParkOnWake ((zero_wake WakeTimer)\<lparr>wk_delay := f2i gl n\<rparr>)) H ho
    | _ \<Rightarrow> npark (wf_fault ''wf.arg'' ''wf.sleep expects a number of milliseconds'') H ho)"

text \<open>The structural predicate of a receive: a path and a value to equal; both must be there.\<close>

definition receive_match :: "heap \<Rightarrow> addr \<Rightarrow> wake_match option option" where
  "receive_match H a = do {
     p \<leftarrow> rec_get H a ''path'';
     path \<leftarrow> (case p of None \<Rightarrow> Some [] | Some v \<Rightarrow> to_str H v);
     eq \<leftarrow> rec_get H a ''equals'';
     Some (case eq of
         None \<Rightarrow> None
       | Some v \<Rightarrow> if path = [] then None else Some \<lparr>wm_path = path, wm_equals = v, wm_has = True\<rparr>)
   }"

definition std_wf_receive :: native where
  "std_wf_receive H ho args = (case args of
      VStr ch # r \<Rightarrow>
        (let w = (zero_wake WakeMessage)\<lparr>wk_channel := ch\<rparr> in
         case r of
           VRec a # _ \<Rightarrow> do {
             mt \<leftarrow> receive_match H a;
             npark (ParkOnWake (w\<lparr>wk_match := mt\<rparr>)) H ho
           }
         | _ \<Rightarrow> npark (ParkOnWake w) H ho)
    | _ \<Rightarrow> npark (wf_fault ''wf.arg'' ''receive expects a channel name'') H ho)"

definition field_str :: "heap \<Rightarrow> addr \<Rightarrow> string \<Rightarrow> string option" where
  "field_str H a k = do {
     r \<leftarrow> rec_get H a k;
     (case r of None \<Rightarrow> Some [] | Some v \<Rightarrow> to_str H v)
   }"

fun signal_restarts :: "heap \<Rightarrow> val list \<Rightarrow> restart list option" where
  "signal_restarts H [] = Some []"
| "signal_restarts H (el # els) = (case el of
      VRec a \<Rightarrow> do {
        nm \<leftarrow> field_str H a ''name'';
        lb \<leftarrow> field_str H a ''label'';
        cp \<leftarrow> field_str H a ''capability'';
        r \<leftarrow> signal_restarts H els;
        Some (if nm = [] then r else mk_restart nm lb cp # r)
      }
    | _ \<Rightarrow> signal_restarts H els)"

definition value_to_any :: "heap \<Rightarrow> val \<Rightarrow> anyv option" where
  "value_to_any H v = (case v of
      VStr s \<Rightarrow> Some (AnyStr s)
    | VF64 n \<Rightarrow> Some (AnyF64 n)
    | VBool n \<Rightarrow> Some (AnyBool (bool_of n))
    | VNull \<Rightarrow> Some AnyNil
    | VUndef \<Rightarrow> Some AnyNil
    | VBig z \<Rightarrow> Some (AnyStr (int_str z))
    | _ \<Rightarrow> do { s \<leftarrow> to_str H v; Some (AnyStr s) })"

fun values_to_any :: "heap \<Rightarrow> val list \<Rightarrow> anyv list option" where
  "values_to_any H [] = Some []"
| "values_to_any H (v # vs) = do { x \<leftarrow> value_to_any H v; xs \<leftarrow> values_to_any H vs; Some (x # xs) }"

text \<open>A condition payload from a record's own keys, in key order.\<close>

definition payload_of :: "heap \<Rightarrow> addr \<Rightarrow> any_map option" where
  "payload_of H a = do {
     (ks, mp) \<leftarrow> get_rec H a;
     xs \<leftarrow> values_to_any H (map (\<lambda>k. case mp k of Some v \<Rightarrow> v | None \<Rightarrow> VUndef) ks);
     Some (zip ks xs)
   }"

definition std_taak_signal :: native where
  "std_taak_signal H ho args = (case args of
      VStr class # r \<Rightarrow> do {
        rs \<leftarrow> (case r of VArr a # _ \<Rightarrow> do { es \<leftarrow> get_arr H a; signal_restarts H es } | _ \<Rightarrow> Some []);
        payload \<leftarrow> (case r of _ # VRec a # _ \<Rightarrow> payload_of H a | _ \<Rightarrow> Some []);
        npark (ParkOnCondition (signal_condition class (if rs = [] then abort_only else rs) payload)) H ho
      }
    | _ \<Rightarrow> npark (wf_fault ''taak.arg'' ''taak.signal expects (class, restarts, payload?)'') H ho)"

definition strings_in :: "val list \<Rightarrow> string list" where
  "strings_in vs = concat (map (\<lambda>v. case v of VStr s \<Rightarrow> [s] | _ \<Rightarrow> []) vs)"

definition std_taak_on_change :: native where
  "std_taak_on_change H ho args = (case args of
      VStr res # r \<Rightarrow> do {
        ids \<leftarrow> (case r of VArr a # _ \<Rightarrow> do { es \<leftarrow> get_arr H a; Some (strings_in es) } | _ \<Rightarrow> Some []);
        npark (ParkOnWake ((zero_wake WakeEvent)\<lparr>wk_stream := res, wk_on := ids\<rparr>)) H ho
      }
    | _ \<Rightarrow> npark (wf_fault ''taak.arg'' ''taak.onChange expects (resource, keys?)'') H ho)"

text \<open>\<open>parseEveryMS\<close> accumulates in an \<open>int64\<close>, so a long digit string wraps.\<close>

fun parse_digits :: "string \<Rightarrow> i64 \<Rightarrow> i64" where
  "parse_digits [] n = n"
| "parse_digits (c # cs) n =
     (if \<not> is_digit c then 0 else parse_digits cs (n * 10 + word_of_int (digit_val c)))"

definition parse_every_ms :: "string \<Rightarrow> i64" where
  "parse_every_ms s =
     (let pre = ''@every:'' in
      if take (length pre) s \<noteq> pre then 0
      else parse_digits (drop (length pre) s) 0)"

definition std_taak_schedule :: "(string \<Rightarrow> bool) \<Rightarrow> native" where
  "std_taak_schedule mu H ho args = (case args of
      VStr schedule # VStr target # _ \<Rightarrow>
        (let ms = parse_every_ms schedule in
         if sint ms \<le> 0 then npark (wf_fault ''taak.schedule'' ''schedule must be @every:<ms> with ms>0'') H ho
         else if target = [] then npark (wf_fault ''taak.schedule'' ''target workflow name is empty'') H ho
         else nret VUndef H (record_effect mu ''cron.schedule''
           [(''schedule'', AnyStr schedule), (''target'', AnyStr target), (''interval_ms'', AnyInt64 ms)] ho))
    | _ \<Rightarrow> npark (wf_fault ''taak.arg'' ''taak.schedule expects (schedule, target)'') H ho)"

definition std_wf_send :: native where
  "std_wf_send H ho args = (case args of
      VStr ch # v # _ \<Rightarrow> nret VUndef H (record_effect_val ''channel.send'' [(''channel'', AnyStr ch)] v ho)
    | _ \<Rightarrow> npark (wf_fault ''wf.arg'' ''wf.send expects (channel, value)'') H ho)"

definition is_clo :: "val \<Rightarrow> bool" where
  "is_clo v \<longleftrightarrow> (case v of VClo _ _ _ _ \<Rightarrow> True | _ \<Rightarrow> False)"

definition wf_join :: "bool \<Rightarrow> native" where
  "wf_join race H ho args = (case args of
      VArr a # _ \<Rightarrow> do {
        es \<leftarrow> get_arr H a;
        if list_all is_clo es then
          npark (ParkOnWake ((zero_wake WakeJoin)\<lparr>wk_thunks := es,
            wk_quorum := (if race then 1 else int (length es)), wk_race := race\<rparr>)) H ho
        else npark (wf_fault ''wf.thunk'' ''join thunk is not a closure'') H ho
      }
    | _ \<Rightarrow> npark (wf_fault ''wf.arg'' ''wf.all/race expects an array of thunks'') H ho)"

definition std_wf_all :: native where "std_wf_all = wf_join False"
definition std_wf_race :: native where "std_wf_race = wf_join True"

subsection \<open>The contract\<close>

locale native_contract =
  fixes fn :: native
  assumes frames: "fn H (prefix_effects E ho) args =
      map_option (\<lambda>(H', ho', v, pk). (H', prefix_effects E ho', v, pk)) (fn H ho args)"
    and ctx: "fn H ho args = Some (H', ho', v, pk) \<Longrightarrow> host_ctx ho' = host_ctx ho"
begin

lemma framed: "native_frames fn"
  by (simp add: native_frames_def frames)

lemma keeps_ctx: "native_keeps_ctx fn"
  using ctx by (auto simp: native_keeps_ctx_def)

text \<open>What a native does to the trace is to append to it, the same whatever was there.\<close>

lemma appends:
  assumes "fn H ho args = Some (H', ho', v, pk)"
  obtains E where "ho_effects ho' = ho_effects ho @ E"
    and "\<And>F. \<exists>ho2. fn H (ho\<lparr>ho_effects := F\<rparr>) args = Some (H', ho2, v, pk) \<and> ho_effects ho2 = F @ E"
proof -
  define h0 where "h0 = ho\<lparr>ho_effects := []\<rparr>"
  have h: "ho = prefix_effects (ho_effects ho) h0" and f: "ho\<lparr>ho_effects := F\<rparr> = prefix_effects F h0" for F
    by (simp_all add: h0_def prefix_effects_def)
  obtain hz where z: "fn H h0 args = Some (H', hz, v, pk)" "ho' = prefix_effects (ho_effects ho) hz"
  proof (cases "fn H h0 args")
    case None
    with assms frames [of H "ho_effects ho" h0 args] that show ?thesis
      unfolding h [symmetric] by simp
  next
    case (Some r)
    with assms frames [of H "ho_effects ho" h0 args] that show ?thesis
      unfolding h [symmetric] by (cases r) simp
  qed
  show thesis
  proof (rule that)
    show "ho_effects ho' = ho_effects ho @ ho_effects hz" using z(2) by (simp add: prefix_effects_def)
    show "\<exists>ho2. fn H (ho\<lparr>ho_effects := F\<rparr>) args = Some (H', ho2, v, pk) \<and> ho_effects ho2 = F @ ho_effects hz"
      for F using z(1) frames [of H F h0 args] by (simp add: f prefix_effects_def)
  qed
qed

end

text \<open>A native without effects; a read-declared one has to be of this kind.\<close>

locale quiet_native = native_contract +
  assumes quiet: "fn H ho args = Some (H', ho', v, pk) \<Longrightarrow> ho_effects ho' = ho_effects ho"
begin

lemma never_trips:
  assumes "in_fns I h = Some fn"
  shows "perform_native I f h args m = do {
     (H, ho, v, park) \<leftarrow> fn (m_heap m) (m_host m) args;
     let m' = m\<lparr>m_heap := H, m_host := ho\<rparr>;
     (case park of
        None \<Rightarrow> go (apply_val v m')
      | Some pk \<Rightarrow>
          let mp = m'\<lparr>m_path := f_path f, m_mode := ModeApply, m_val := VUndef\<rparr> in
          (case pk of
             ParkOnWake w \<Rightarrow> stop ((zero_outcome OutParked)\<lparr>o_state := Some (snapshot ParkWake mp),
               o_wake := Some w, o_transitions := m_transitions mp\<rparr>) mp
           | ParkOnCondition c \<Rightarrow> stop ((zero_outcome OutParked)\<lparr>o_state := Some (snapshot ParkSignal mp),
               o_cond := Some c, o_transitions := m_transitions mp\<rparr>) mp))
   }"
  using assms quiet by (cases "fn (m_heap m) (m_host m) args") (auto simp: perform_native_def Let_def)

end

subsection \<open>Every native keeps it\<close>

text \<open>\<open>good E q ho r s\<close>: the result \<open>r\<close> on a host with the trace prefix \<open>E\<close> is the result \<open>s\<close> on
  the host without it, \<open>s\<close> keeps the context of \<open>ho\<close>, and its trace when \<open>q\<close> is set.\<close>

named_theorems good_intros \<open>rules that reduce a native's result to its returns and parks\<close>

definition good :: "effect list \<Rightarrow> bool \<Rightarrow> host \<Rightarrow> native_result \<Rightarrow> native_result \<Rightarrow> bool" where
  "good E q ho r s \<longleftrightarrow>
     r = map_option (\<lambda>(H', ho', v, pk). (H', prefix_effects E ho', v, pk)) s \<and>
     (\<forall>H' ho' v pk. s = Some (H', ho', v, pk) \<longrightarrow>
        host_ctx ho' = host_ctx ho \<and> (q \<longrightarrow> ho_effects ho' = ho_effects ho))"

lemma contractI:
  "(\<And>E H ho args. good E False ho (fn H (prefix_effects E ho) args) (fn H ho args)) \<Longrightarrow> native_contract fn"
  unfolding good_def by unfold_locales blast+

lemma quietI:
  "(\<And>E H ho args. good E True ho (fn H (prefix_effects E ho) args) (fn H ho args)) \<Longrightarrow> quiet_native fn"
  unfolding good_def by unfold_locales blast+

lemma good_nret [good_intros]:
  "h = prefix_effects E g \<Longrightarrow> host_ctx g = host_ctx ho \<Longrightarrow> (q \<Longrightarrow> ho_effects g = ho_effects ho) \<Longrightarrow>
     good E q ho (nret v H h) (nret v H g)"
  by (simp add: good_def nret_def)

lemma good_npark [good_intros]:
  "h = prefix_effects E g \<Longrightarrow> host_ctx g = host_ctx ho \<Longrightarrow> (q \<Longrightarrow> ho_effects g = ho_effects ho) \<Longrightarrow>
     good E q ho (npark pk H h) (npark pk H g)"
  by (simp add: good_def npark_def)

lemma good_None [good_intros]: "good E q ho None None"
  by (simp add: good_def)

lemma good_bind [good_intros]:
  "(\<And>a. good E q ho (f a) (g a)) \<Longrightarrow> good E q ho (Option.bind x f) (Option.bind x g)"
  by (cases x) (simp_all add: good_None)

lemma good_if [good_intros]:
  "good E q ho a c \<Longrightarrow> good E q ho b d \<Longrightarrow> good E q ho (if P then a else b) (if P then c else d)"
  by simp

lemma good_option [good_intros]:
  "good E q ho a b \<Longrightarrow> (\<And>y. good E q ho (f y) (g y)) \<Longrightarrow>
    good E q ho (case x of None \<Rightarrow> a | Some y \<Rightarrow> f y) (case x of None \<Rightarrow> b | Some y \<Rightarrow> g y)"
  by (cases x) auto

lemma good_list [good_intros]:
  "good E q ho a b \<Longrightarrow> (\<And>y ys. good E q ho (f y ys) (g y ys)) \<Longrightarrow>
    good E q ho (case x of [] \<Rightarrow> a | y # ys \<Rightarrow> f y ys) (case x of [] \<Rightarrow> b | y # ys \<Rightarrow> g y ys)"
  by (cases x) auto

lemma good_prod [good_intros]:
  "(\<And>a b. good E q ho (f a b) (g a b)) \<Longrightarrow>
    good E q ho (case x of (a, b) \<Rightarrow> f a b) (case x of (a, b) \<Rightarrow> g a b)"
  by (cases x) auto

lemma good_sum [good_intros]:
  "(\<And>a. good E q ho (f a) (f' a)) \<Longrightarrow> (\<And>b. good E q ho (g b) (g' b)) \<Longrightarrow>
    good E q ho (case x of Inl a \<Rightarrow> f a | Inr b \<Rightarrow> g b) (case x of Inl a \<Rightarrow> f' a | Inr b \<Rightarrow> g' b)"
  by (cases x) auto

lemma good_val [good_intros]:
  assumes "good E q ho a1 b1" "good E q ho a2 b2" "\<And>x. good E q ho (a3 x) (b3 x)"
    "\<And>x. good E q ho (a4 x) (b4 x)" "\<And>x. good E q ho (a5 x) (b5 x)" "\<And>x. good E q ho (a6 x) (b6 x)"
    "\<And>x. good E q ho (a7 x) (b7 x)" "\<And>x. good E q ho (a8 x) (b8 x)"
    "\<And>x y z w. good E q ho (a9 x y z w) (b9 x y z w)" "\<And>x. good E q ho (a10 x) (b10 x)"
    "\<And>x y z. good E q ho (a11 x y z) (b11 x y z)"
  shows "good E q ho (case_val a1 a2 a3 a4 a5 a6 a7 a8 a9 a10 a11 v) (case_val b1 b2 b3 b4 b5 b6 b7 b8 b9 b10 b11 v)"
  using assms by (cases v) auto

lemma holds_cap_prefix [simp]: "holds_cap (prefix_effects E ho) cap = holds_cap ho cap"
  by (simp add: holds_cap_def prefix_effects_def)

lemma host_ctx_effect [simp]: "host_ctx (record_effect mu c p ho) = host_ctx ho"
    "host_ctx (record_effect_val c p v ho) = host_ctx ho"
  by (simp_all add: record_effect_def record_effect_val_def add_effect_def host_ctx_def Let_def)

lemma effect_prefix:
  "\<not> mu ''EVAL_EFFECT_ORDER_TRANSPOSED'' \<Longrightarrow>
     record_effect mu c p (prefix_effects E ho) = prefix_effects E (record_effect mu c p ho)"
  "record_effect_val c p v (prefix_effects E ho) = prefix_effects E (record_effect_val c p v ho)"
  by (simp_all add: record_effect_def record_effect_val_def add_effect_def prefix_effects_def Let_def)

text \<open>Production: no mutant is active.\<close>

definition no_mutants :: "string \<Rightarrow> bool" where
  "no_mutants s = False"

lemma no_mutants_off [simp]: "\<not> no_mutants s"
  by (simp add: no_mutants_def)

interpretation mail_send: native_contract "std_mail_send no_mutants"
  by (rule contractI; unfold std_mail_send_def holds_cap_prefix; intro good_intros) (simp_all add: effect_prefix)

interpretation requires: quiet_native std_contract_requires
  by (rule quietI; unfold std_contract_requires_def; intro good_intros) simp_all

interpretation ensures: quiet_native std_contract_ensures
  by (rule quietI; unfold std_contract_ensures_def; intro good_intros) simp_all

interpretation contract_pre: quiet_native "std_contract_pre no_mutants"
  by (rule quietI; unfold std_contract_pre_def; intro good_intros) simp_all

interpretation contract_post: quiet_native "std_contract_post no_mutants"
  by (rule quietI; unfold std_contract_post_def; intro good_intros) simp_all

interpretation keys: quiet_native std_keys
  by (rule quietI; unfold std_keys_def; intro good_intros) simp_all

interpretation wf_sleep: quiet_native "std_wf_sleep gl"
  by (rule quietI; unfold std_wf_sleep_def; intro good_intros) simp_all

interpretation wf_receive: quiet_native std_wf_receive
  by (rule quietI; unfold std_wf_receive_def Let_def; intro good_intros) simp_all

interpretation taak_signal: quiet_native std_taak_signal
  by (rule quietI; unfold std_taak_signal_def; intro good_intros) simp_all

interpretation taak_on_change: quiet_native std_taak_on_change
  by (rule quietI; unfold std_taak_on_change_def; intro good_intros) simp_all

interpretation taak_schedule: native_contract "std_taak_schedule no_mutants"
  by (rule contractI; unfold std_taak_schedule_def Let_def; intro good_intros) (simp_all add: effect_prefix)

interpretation wf_send: native_contract std_wf_send
  by (rule contractI; unfold std_wf_send_def; intro good_intros) (simp_all add: effect_prefix)

interpretation wf_join: quiet_native "wf_join race"
  by (rule quietI; unfold wf_join_def; intro good_intros) simp_all

end
