(* ===== verification/Cek_Std_World.thy ===== *)
theory Cek_Std_World
  imports Cek_Natives "HOL-Library.List_Lexorder" "HOL-Library.Char_ord" Go_Sha
begin

section \<open>Reads and the standard world\<close>

text \<open>
  The natives of \<open>internal/cek/stdread.go\<close> (identity, parameterized SELECT) and of
  \<open>internal/cek/stdworld.go\<close> (UI constructors, money, AEAD, HTTP intents, time, log, files, i18n),
  and the dispatch table of \<open>internal/admission/image.go\<close>.  A native that reads the world takes the
  answer of its own read and advances the host's read counter.
\<close>

subsection \<open>Row reads\<close>

definition next_read :: "host \<Rightarrow> host" where
  "next_read ho = ho\<lparr>ho_tick := Suc (ho_tick ho)\<rparr>"

text \<open>\<open>recordFromCols\<close>: the columns of a Go map, taken in sorted key order.\<close>

definition record_from_cols :: "any_map \<Rightarrow> heap \<Rightarrow> (val \<times> heap) option" where
  "record_from_cols cols =
     record_of (map (\<lambda>(k, x). (k, any_to_value x)) (sort_key fst cols))"

definition identity_read :: "string \<Rightarrow> native" where
  "identity_read kd H ho args =
     (if \<not> wd_reader (ho_world ho) then nret VNull H ho
      else case wd_identity (ho_world ho) (ho_tick ho) kd (p_subject (ho_principal ho)) of
          Inl err \<Rightarrow> npark (wf_fault ''identity.error'' err) H (next_read ho)
        | Inr cols \<Rightarrow> (case cols of
              None \<Rightarrow> nret VNull H (next_read ho)
            | Some cs \<Rightarrow> do {
                (v, H') \<leftarrow> record_from_cols cs H;
                nret v H' (next_read ho)
              }))"

definition std_current_user :: native where "std_current_user = identity_read ''user''"
definition std_current_org :: native where "std_current_org = identity_read ''org''"

subsection \<open>The read-only check\<close>

definition is_prefix :: "'a list \<Rightarrow> 'a list \<Rightarrow> bool" where
  "is_prefix p s \<longleftrightarrow> take (length p) s = p"

text \<open>What follows the first occurrence of a substring (\<open>strings.Index\<close> and a slice).\<close>

fun after_sub :: "string \<Rightarrow> string \<Rightarrow> string option" where
  "after_sub p [] = (if p = [] then Some [] else None)"
| "after_sub p (c # cs) =
     (if is_prefix p (c # cs) then Some (drop (length p) (c # cs)) else after_sub p cs)"

lemma after_sub_shorter: "after_sub p s = Some t \<Longrightarrow> p \<noteq> [] \<Longrightarrow> length t < length s"
  by (induction s) (auto split: if_splits simp: is_prefix_def)

definition sql_space :: "char \<Rightarrow> bool" where
  "sql_space c \<longleftrightarrow> c \<in> set [CHR '' '', CHR 0x09, CHR 0x0A, CHR 0x0D]"

function strip_sql_lead :: "string \<Rightarrow> string" where
  "strip_sql_lead s =
     (let t = dropWhile sql_space s in
      if is_prefix ''--'' t then (case after_sub [CHR 0x0A] t of Some u \<Rightarrow> strip_sql_lead u | None \<Rightarrow> [])
      else if is_prefix ''/*'' t then (case after_sub ''*/'' t of Some u \<Rightarrow> strip_sql_lead u | None \<Rightarrow> [])
      else t)"
  by pat_completeness auto

lemma after_sub_drop:
  "after_sub p (dropWhile P s) = Some t \<Longrightarrow> p \<noteq> [] \<Longrightarrow> length t < length s"
  using after_sub_shorter length_dropWhile_le [of P s] by fastforce

termination strip_sql_lead
  by (relation "measure length") (auto dest: after_sub_drop)

declare strip_sql_lead.simps [simp del]

definition drop_trailing :: "(char \<Rightarrow> bool) \<Rightarrow> string \<Rightarrow> string" where
  "drop_trailing P s = rev (dropWhile P (rev s))"

text \<open>\<open>strings.ToLower\<close> is only asked for ASCII patterns here, and no letter of these patterns is
  the lower case of a character outside ASCII, so lowering the ASCII letters gives its verdict.\<close>

definition is_read_only_sql :: "string \<Rightarrow> bool" where
  "is_read_only_sql s \<longleftrightarrow>
     (let t = strip_sql_lead s;
          lower = lower_ascii t;
          trimmed = drop_trailing (\<lambda>c. c = CHR '';'') (drop_trailing sql_space t)
      in (is_prefix ''select '' lower \<or> is_prefix (''select'' @ [CHR 0x0A]) lower \<or>
          is_prefix (''select'' @ [CHR 0x09]) lower) \<and>
         CHR '';'' \<notin> set trimmed \<and>
         after_sub '' for update'' lower = None \<and> after_sub '' for share'' lower = None)"

fun rows_to_vals :: "any_map list \<Rightarrow> heap \<Rightarrow> (val list \<times> heap) option" where
  "rows_to_vals [] H = Some ([], H)"
| "rows_to_vals (r # rs) H = do {
     (v, H1) \<leftarrow> record_from_cols r H;
     (vs, H2) \<leftarrow> rows_to_vals rs H1;
     Some (v # vs, H2)
   }"

definition write_refused :: native_park where
  "write_refused = ParkOnCondition (signal_condition ''sql.write_refused'' abort_only
     [(''reason'', AnyStr ''sql.query is SELECT-only (read-safe by construction)'')])"

definition std_sql_query :: native where
  "std_sql_query H ho args =
     (if \<not> holds_cap ho ''sql.query'' then npark (revoked ''sql.query'') H ho
      else case args of
          _ # VStr sql # r \<Rightarrow>
            (if \<not> is_read_only_sql sql then npark write_refused H ho
             else do {
               params \<leftarrow> (case r of VArr a # _ \<Rightarrow> do { es \<leftarrow> get_arr H a; values_to_any H es } | _ \<Rightarrow> Some []);
               if \<not> wd_reader (ho_world ho)
               then npark (wf_fault ''sql.noreader'' ''no read seam wired for sql.query'') H ho
               else case wd_query (ho_world ho) (ho_tick ho) (ho_asof ho) sql params of
                   Inl err \<Rightarrow> npark (wf_fault ''sql.error'' err) H (next_read ho)
                 | Inr rows \<Rightarrow> do {
                     (vs, H1) \<leftarrow> rows_to_vals rows H;
                     case new_array vs H1 of (v, H2) \<Rightarrow> nret v H2 (next_read ho)
                   }
             })
        | _ \<Rightarrow> npark (wf_fault ''sql.arg'' ''sql.query expects (conn, sql, params)'') H ho)"

subsection \<open>UI constructors and money\<close>

definition ui_tier1 :: "string list" where
  "ui_tier1 = [''page'', ''section'', ''stack'', ''grid'', ''nav'', ''heading'', ''text'', ''label'',
     ''badge'', ''money'', ''datetime'', ''avatar'', ''icon'', ''link'', ''button'', ''field'',
     ''select'', ''checkbox'', ''dialog'', ''card'', ''list'', ''table'', ''alert'', ''spinner'', ''empty'']"

definition ui_native :: "string \<Rightarrow> native" where
  "ui_native name H ho args =
     (case new_record H of (a, H1) \<Rightarrow>
      (case new_array [] H1 of (e, H2) \<Rightarrow> do {
         let props = (case args of VRec p # _ \<Rightarrow> VRec p | _ \<Rightarrow> VRec a);
         let children = (case args of _ # VArr c # _ \<Rightarrow> VArr c | _ \<Rightarrow> e);
         (v, H3) \<leftarrow> record_of [(''component'', VStr name), (''props'', props), (''children'', children)] H2;
         nret v H3 ho
       }))"

definition std_money :: "golib \<Rightarrow> native" where
  "std_money gl H ho args =
     (let minor = (case args of VBig z # _ \<Rightarrow> z | VF64 n # _ \<Rightarrow> sint (f2i gl n) | _ \<Rightarrow> 0);
          cur = (case args of _ # VStr s # _ \<Rightarrow> s | _ \<Rightarrow> [])
      in do {
        (v, H') \<leftarrow> record_of [(''minorUnits'', VBig minor), (''currency'', VStr cur)] H;
        nret v H' ho
      })"

definition two_digits :: "int \<Rightarrow> string" where
  "two_digits n = (if n < 10 then ''0'' @ int_str n else int_str n)"

definition money_text :: "string \<Rightarrow> int \<Rightarrow> string" where
  "money_text cur minor =
     (if cur \<noteq> [] then cur @ '' '' else []) @ (if minor < 0 then ''-'' else []) @
     int_str (\<bar>minor\<bar> div 100) @ ''.'' @ two_digits (\<bar>minor\<bar> mod 100)"

definition std_money_format :: native where
  "std_money_format H ho args = (case args of
      VRec a # _ \<Rightarrow> do {
        mv \<leftarrow> rec_get H a ''minorUnits'';
        cv \<leftarrow> rec_get H a ''currency'';
        (case mv of
           Some (VBig minor) \<Rightarrow>
             nret (VStr (money_text (case cv of Some (VStr s) \<Rightarrow> s | _ \<Rightarrow> []) minor)) H ho
         | _ \<Rightarrow> nret (VStr []) H ho)
      }
    | _ \<Rightarrow> nret (VStr []) H ho)"

subsection \<open>AEAD, HTTP, time, log\<close>

text \<open>AES-256-GCM, whose nonce has 12 bytes, is the world's \<open>wd_seal\<close> and \<open>wd_open\<close>; the nonce is
  the world's too, and reading it may fail.\<close>

definition gcm_nonce_size :: nat where "gcm_nonce_size = 12"

definition aead_key :: "string \<Rightarrow> bytes" where
  "aead_key tok = sha256 (bytes_of tok)"

definition hex_digit :: "nat \<Rightarrow> char" where
  "hex_digit n = ''0123456789abcdef'' ! n"

definition hex_str :: "bytes \<Rightarrow> string" where
  "hex_str bs = concat (map (\<lambda>b. [hex_digit (unat b div 16), hex_digit (unat b mod 16)]) bs)"

fun hex_decode :: "string \<Rightarrow> bytes option" where
  "hex_decode [] = Some []"
| "hex_decode [c] = None"
| "hex_decode (c # d # s) =
     (if (is_digit c \<or> is_hex c) \<and> (is_digit d \<or> is_hex d)
      then do { bs \<leftarrow> hex_decode s; Some (word_of_int (16 * hex_val c + hex_val d) # bs) }
      else None)"

definition std_aead_seal :: native where
  "std_aead_seal H ho args = (case args of
      VStr tok # VStr plain # _ \<Rightarrow>
        (case wd_nonce (ho_world ho) (ho_tick ho) of
           None \<Rightarrow> nret VUndef H (next_read ho)
         | Some nonce \<Rightarrow> nret (VStr (hex_str
             (nonce @ wd_seal (ho_world ho) (aead_key tok) nonce (bytes_of plain)))) H (next_read ho))
    | _ \<Rightarrow> nret VUndef H ho)"

definition std_aead_open :: native where
  "std_aead_open H ho args = (case args of
      VStr tok # VStr hx # _ \<Rightarrow>
        (case hex_decode hx of
           None \<Rightarrow> nret VUndef H ho
         | Some raw \<Rightarrow>
             (if length raw < gcm_nonce_size then nret VUndef H ho
              else case wd_open (ho_world ho) (aead_key tok) (take gcm_nonce_size raw)
                       (drop gcm_nonce_size raw) of
                  None \<Rightarrow> nret VUndef H ho
                | Some pt \<Rightarrow> nret (VStr (str_of pt)) H ho))
    | _ \<Rightarrow> nret VUndef H ho)"

definition http_call :: "(string \<Rightarrow> bool) \<Rightarrow> string \<Rightarrow> native" where
  "http_call mu cap H ho args =
     (if \<not> holds_cap ho cap then npark (revoked cap) H ho
      else do {
        url \<leftarrow> arg_str H args 0;
        (v, H') \<leftarrow> record_of [(''intent'', VStr cap), (''url'', VStr url)] H;
        nret v H' (record_effect mu cap [(''url'', AnyStr url)] ho)
      })"

definition std_http_get :: "(string \<Rightarrow> bool) \<Rightarrow> native" where "std_http_get mu = http_call mu ''http.get''"
definition std_http_post :: "(string \<Rightarrow> bool) \<Rightarrow> native" where "std_http_post mu = http_call mu ''http.post''"

definition std_time_now :: native where
  "std_time_now H ho args =
     nret (VF64 (f_of_int (sint (wd_now (ho_world ho) (ho_tick ho))))) H (next_read ho)"

definition std_log_write :: "(string \<Rightarrow> bool) \<Rightarrow> native" where
  "std_log_write mu H ho args = do {
     msg \<leftarrow> arg_str H args 0;
     nret VUndef H (record_effect mu ''log.write'' [(''message'', AnyStr msg)] ho)
   }"

subsection \<open>Files and translations\<close>

definition std_files_put :: "(string \<Rightarrow> bool) \<Rightarrow> native" where
  "std_files_put mu H ho args = do {
     account \<leftarrow> arg_str H args 0;
     name \<leftarrow> arg_str H args 1;
     ctype \<leftarrow> arg_str H args 2;
     content \<leftarrow> arg_str H args 3;
     let file_id = hex_str (sha256 (bytes_of content));
     let size = length content;
     (v, H') \<leftarrow> record_of [(''id'', VStr file_id), (''name'', VStr name), (''contentType'', VStr ctype),
       (''size'', VF64 (f_of_int (int size))), (''account'', VStr account)] H;
     nret v H' (record_effect mu ''files.put''
       [(''id'', AnyStr file_id), (''account'', AnyStr account), (''name'', AnyStr name),
        (''contentType'', AnyStr ctype), (''size'', AnyInt (of_nat size)), (''content'', AnyStr content)] ho)
   }"

definition i18n_lookup :: "heap \<Rightarrow> addr \<Rightarrow> string \<Rightarrow> string \<Rightarrow> string option option" where
  "i18n_lookup H bundle locale key = do {
     lv \<leftarrow> rec_get H bundle locale;
     (case lv of
        Some (VRec r) \<Rightarrow> do {
          sv \<leftarrow> rec_get H r key;
          Some (case sv of Some (VStr s) \<Rightarrow> Some s | _ \<Rightarrow> None)
        }
      | _ \<Rightarrow> Some None)
   }"

definition std_i18n_t :: native where
  "std_i18n_t H ho args = (case args of
      VRec b # lv # kv # _ \<Rightarrow> do {
        locale \<leftarrow> to_str H lv;
        key \<leftarrow> to_str H kv;
        r1 \<leftarrow> i18n_lookup H b locale key;
        (case r1 of
           Some s \<Rightarrow> nret (VStr s) H ho
         | None \<Rightarrow> do {
             r2 \<leftarrow> i18n_lookup H b ''en'' key;
             nret (VStr (case r2 of Some s \<Rightarrow> s | None \<Rightarrow> key)) H ho
           })
      }
    | _ # _ # kv # _ \<Rightarrow> do { key \<leftarrow> to_str H kv; nret (VStr key) H ho }
    | _ \<Rightarrow> nret (VStr []) H ho)"

text \<open>\<open>nativeStub\<close>, the bindings whose behaviour comes with a later stage.\<close>

definition native_stub :: native where
  "native_stub H ho args = nret VUndef H ho"

subsection \<open>The dispatch table\<close>

text \<open>One row of the genesis roster that carries a native: where it is exported, the Go body it
  dispatches to, and the capability and effect class declared for it.\<close>

record roster_entry =
  re_module :: string
  re_export :: string
  re_native :: native
  re_cap :: string
  re_class :: string

definition entry :: "string \<Rightarrow> string \<Rightarrow> native \<Rightarrow> roster_entry" where
  "entry m x fn = \<lparr>re_module = m, re_export = x, re_native = fn, re_cap = [], re_class = []\<rparr>"

definition wf_surface :: "golib \<Rightarrow> string \<Rightarrow> roster_entry list" where
  "wf_surface gl m = [
     entry m ''sleep'' (std_wf_sleep gl), entry m ''receive'' std_wf_receive,
     entry m ''send'' std_wf_send, entry m ''all'' std_wf_all, entry m ''race'' std_wf_race]"

definition roster :: "golib \<Rightarrow> (string \<Rightarrow> bool) \<Rightarrow> roster_entry list" where
  "roster gl mu =
     [entry ''std/iter'' ''keys'' std_keys] @ wf_surface gl ''std/taak'' @
     [entry ''std/taak'' ''signal'' std_taak_signal,
      entry ''std/taak'' ''onChange'' std_taak_on_change,
      (entry ''std/taak'' ''schedule'' (std_taak_schedule mu))\<lparr>re_class := ''write''\<rparr>,
      entry ''std/contract'' ''requires'' std_contract_requires,
      entry ''std/contract'' ''ensures'' std_contract_ensures,
      entry ''std/contract'' ''pre'' (std_contract_pre mu),
      entry ''std/contract'' ''post'' (std_contract_post mu),
      entry ''std/pii'' ''mask'' native_stub,
      entry ''std/pii'' ''reveal'' native_stub,
      entry ''std/sql'' ''connect'' native_stub,
      (entry ''std/sql'' ''query'' std_sql_query)\<lparr>re_cap := ''sql.query'', re_class := ''read''\<rparr>,
      (entry ''std/mail'' ''send'' (std_mail_send mu))\<lparr>re_cap := ''mail.send'', re_class := ''external''\<rparr>,
      entry ''std/policy'' ''orgScoped'' native_stub,
      entry ''std/policy'' ''policy'' native_stub,
      entry ''std/resource'' ''resource'' native_stub] @ wf_surface gl ''std/wf'' @
     [(entry ''std/identity'' ''currentUser'' std_current_user)\<lparr>re_class := ''read''\<rparr>,
      (entry ''std/identity'' ''currentOrg'' std_current_org)\<lparr>re_class := ''read''\<rparr>,
      (entry ''std/http'' ''get'' (std_http_get mu))\<lparr>re_cap := ''http.get'', re_class := ''external''\<rparr>,
      (entry ''std/http'' ''post'' (std_http_post mu))\<lparr>re_cap := ''http.post'', re_class := ''external''\<rparr>,
      (entry ''std/time'' ''now'' std_time_now)\<lparr>re_class := ''read''\<rparr>,
      entry ''std/money'' ''money'' (std_money gl),
      entry ''std/money'' ''format'' std_money_format,
      entry ''std/crypto'' ''aeadSeal'' std_aead_seal,
      entry ''std/crypto'' ''aeadOpen'' std_aead_open,
      entry ''std/test'' ''fake'' native_stub,
      (entry ''std/log'' ''write'' (std_log_write mu))\<lparr>re_class := ''external''\<rparr>,
      (entry ''std/erf'' ''read'' native_stub)\<lparr>re_class := ''read''\<rparr>,
      (entry ''std/erf'' ''list'' native_stub)\<lparr>re_class := ''read''\<rparr>,
      (entry ''std/files'' ''put'' (std_files_put mu))\<lparr>re_class := ''external''\<rparr>,
      entry ''std/i18n'' ''t'' std_i18n_t] @
     map (\<lambda>nm. entry ''std/ui'' nm (ui_native nm)) ui_tier1"

text \<open>The image dispatches on definition hashes; \<open>row h\<close> is the roster row of the native a hash
  stands for (\<open>Image.Dispatch\<close>).\<close>

definition image_fns :: "golib \<Rightarrow> (string \<Rightarrow> bool) \<Rightarrow> (string \<Rightarrow> nat option) \<Rightarrow> string \<Rightarrow> native option" where
  "image_fns gl mu row h = do { i \<leftarrow> row h; e \<leftarrow> nth_go (roster gl mu) i; Some (re_native e) }"

definition image_class :: "golib \<Rightarrow> (string \<Rightarrow> bool) \<Rightarrow> (string \<Rightarrow> nat option) \<Rightarrow> string \<Rightarrow> string" where
  "image_class gl mu row h =
     (case Option.bind (row h) (nth_go (roster gl mu)) of None \<Rightarrow> [] | Some e \<Rightarrow> re_class e)"

subsection \<open>The natives keep the contract\<close>

lemma host_ctx_next_read [simp]: "host_ctx (next_read ho) = host_ctx ho"
  by (simp add: next_read_def host_ctx_def)

lemma effects_next_read [simp]: "ho_effects (next_read ho) = ho_effects ho"
  by (simp add: next_read_def)

lemma next_read_prefix [simp]: "next_read (prefix_effects E ho) = prefix_effects E (next_read ho)"
  by (simp add: next_read_def prefix_effects_def)

lemma prefix_effects_reads [simp]:
  "ho_world (prefix_effects E ho) = ho_world ho" "ho_tick (prefix_effects E ho) = ho_tick ho"
  "ho_principal (prefix_effects E ho) = ho_principal ho" "ho_asof (prefix_effects E ho) = ho_asof ho"
  by (simp_all add: prefix_effects_def)

interpretation identity: quiet_native "identity_read kd"
  by (rule quietI; unfold identity_read_def Let_def prefix_effects_reads; intro good_intros) simp_all

interpretation sql_query: quiet_native std_sql_query
  by (rule quietI; unfold std_sql_query_def Let_def prefix_effects_reads holds_cap_prefix; intro good_intros) simp_all

interpretation ui: quiet_native "ui_native nm"
  by (rule quietI; unfold ui_native_def Let_def prefix_effects_reads; intro good_intros) simp_all

interpretation money: quiet_native "std_money gl"
  by (rule quietI; unfold std_money_def Let_def; intro good_intros) simp_all

interpretation money_format: quiet_native std_money_format
  by (rule quietI; unfold std_money_format_def Let_def; intro good_intros) simp_all

interpretation aead_seal: quiet_native std_aead_seal
  by (rule quietI; unfold std_aead_seal_def Let_def prefix_effects_reads; intro good_intros) simp_all

interpretation aead_open: quiet_native std_aead_open
  by (rule quietI; unfold std_aead_open_def Let_def prefix_effects_reads; intro good_intros) simp_all

interpretation time_now: quiet_native std_time_now
  by (rule quietI; unfold std_time_now_def Let_def prefix_effects_reads; intro good_intros) simp_all

interpretation i18n: quiet_native std_i18n_t
  by (rule quietI; unfold std_i18n_t_def Let_def; intro good_intros) simp_all

interpretation stub: quiet_native native_stub
  by (rule quietI; unfold native_stub_def; intro good_intros) simp_all

interpretation http: native_contract "http_call no_mutants cap"
  by (rule contractI; unfold http_call_def holds_cap_prefix; intro good_intros) (simp_all add: effect_prefix)

interpretation log_write: native_contract "std_log_write no_mutants"
  by (rule contractI; unfold std_log_write_def; intro good_intros) (simp_all add: effect_prefix)

interpretation files_put: native_contract "std_files_put no_mutants"
  by (rule contractI; unfold std_files_put_def Let_def; intro good_intros) (simp_all add: effect_prefix)

subsection \<open>The roster as a whole\<close>

lemmas contract_laws =
  mail_send.native_contract_axioms requires.native_contract_axioms ensures.native_contract_axioms
  contract_pre.native_contract_axioms contract_post.native_contract_axioms keys.native_contract_axioms
  wf_sleep.native_contract_axioms wf_receive.native_contract_axioms taak_signal.native_contract_axioms
  taak_on_change.native_contract_axioms taak_schedule.native_contract_axioms
  wf_send.native_contract_axioms wf_join.native_contract_axioms identity.native_contract_axioms
  sql_query.native_contract_axioms ui.native_contract_axioms money.native_contract_axioms
  money_format.native_contract_axioms aead_seal.native_contract_axioms
  aead_open.native_contract_axioms time_now.native_contract_axioms i18n.native_contract_axioms
  stub.native_contract_axioms http.native_contract_axioms log_write.native_contract_axioms
  files_put.native_contract_axioms

lemmas roster_names = std_wf_all_def std_wf_race_def std_current_user_def std_current_org_def
  std_http_get_def std_http_post_def

lemma roster_contract: "e \<in> set (roster gl no_mutants) \<Longrightarrow> native_contract (re_native e)"
  by (auto simp: roster_def wf_surface_def entry_def roster_names contract_laws)

lemma roster_read_quiet:
  "e \<in> set (roster gl no_mutants) \<Longrightarrow> re_class e = ''read'' \<Longrightarrow> quiet_native (re_native e)"
  by (auto simp: roster_def wf_surface_def entry_def roster_names identity.quiet_native_axioms
      sql_query.quiet_native_axioms time_now.quiet_native_axioms stub.quiet_native_axioms)

lemma roster_gated:
  "e \<in> set (roster gl mu) \<Longrightarrow> re_cap e \<noteq> [] \<Longrightarrow> \<not> holds_cap ho (re_cap e) \<Longrightarrow>
     re_native e H ho args = npark (revoked (re_cap e)) H ho"
  by (auto simp: roster_def wf_surface_def entry_def roster_names std_sql_query_def std_mail_send_def
      http_call_def)

lemma image_fns_row:
  "image_fns gl mu row h = Some fn \<Longrightarrow>
     \<exists>e \<in> set (roster gl mu). re_native e = fn \<and> image_class gl mu row h = re_class e"
  by (auto simp: image_fns_def image_class_def nth_go_def split: bind_splits if_splits)

definition std_interp :: "golib \<Rightarrow> (string \<Rightarrow> nat option) \<Rightarrow> interp \<Rightarrow> bool" where
  "std_interp gl row I \<longleftrightarrow>
     in_gl I = gl \<and> in_fns I = image_fns gl no_mutants row \<and> in_class I = image_class gl no_mutants row \<and>
     in_mutant I = no_mutants"

lemma std_natives_frame: "std_interp gl row I \<Longrightarrow> natives_frame I"
  unfolding std_interp_def natives_frame_def
  using roster_contract image_fns_row native_contract.framed by metis

lemma std_natives_keep_ctx: "std_interp gl row I \<Longrightarrow> in_fns I h = Some fn \<Longrightarrow> native_keeps_ctx fn"
  unfolding std_interp_def
  using roster_contract image_fns_row native_contract.keeps_ctx by metis

text \<open>A call the principal may not make.\<close>

lemma perform_native_denied:
  assumes "in_fns I h = Some fn" "\<And>H ho as. \<not> holds_cap ho cap \<Longrightarrow> fn H ho as = npark (revoked cap) H ho"
    and "\<not> holds_cap (m_host m) cap"
  shows "\<exists>st. perform_native I f h args m =
     stop ((zero_outcome OutParked)\<lparr>o_state := Some st,
        o_cond := Some (signal_condition ''capability.revoked''
          [mk_restart ''re-grant'' (''Re-grant '' @ cap) ''operator'', mk_restart ''abort'' ''Abort'' []]
          [(''capability'', AnyStr cap)]),
        o_transitions := m_transitions m\<rparr>)
       (m\<lparr>m_path := f_path f, m_mode := ModeApply, m_val := VUndef\<rparr>)"
  using assms
  by (intro exI [where x = "snapshot ParkSignal (m\<lparr>m_path := f_path f, m_mode := ModeApply, m_val := VUndef\<rparr>)"])
     (simp add: perform_native_def npark_def revoked_def Let_def)

end
