(* ===== verification/Cek_Samples.thy ===== *)
theory Cek_Samples
  imports Cek_Std_World
begin

section \<open>Sample programs\<close>

text \<open>
  Small regel-AST programs and an image over the standard natives; the witnesses of the machine's
  properties are evaluated on them.
\<close>

definition nd :: "kind \<Rightarrow> node list \<Rightarrow> node" where
  "nd k ks = Node k [] 0 [] ks"

definition local_ref :: "u64 \<Rightarrow> node" where
  "local_ref i = Node KLocal [] i [] []"

definition str_lit :: "string \<Rightarrow> node" where
  "str_lit s = Node KStr s 0 [] []"

definition bind_id :: "string \<Rightarrow> node" where
  "bind_id s = Node KBindId s 0 [] []"

definition let_str :: "string \<Rightarrow> string \<Rightarrow> node" where
  "let_str x s = nd KVarDecl [nd KList [nd KDeclr [bind_id x, none_node, str_lit s]]]"

definition block_of :: "node list \<Rightarrow> node" where
  "block_of ss = nd KBlock [nd KList ss]"

definition func_of :: "node list \<Rightarrow> node list \<Rightarrow> node" where
  "func_of ps ss = nd KFunc [nd KList ps, none_node, none_node, block_of ss]"

text \<open>\<open>let x = 'one'; try { throw 'five' } catch (e) {} return x\<close>\<close>

definition catch_prog :: node where
  "catch_prog = func_of [] [let_str ''x'' ''one'',
     nd KTry [block_of [nd KThrow [str_lit ''five'']], Node KCatch [] 1 [] [bind_id ''e'', block_of []], none_node],
     nd KReturn [local_ref 0]]"

text \<open>\<open>let x = 'one'; return x\<close>\<close>

definition let_prog :: node where
  "let_prog = func_of [] [let_str ''x'' ''one'', nd KReturn [local_ref 0]]"

definition sample_world :: world where
  "sample_world = \<lparr>wd_reader = False, wd_identity = (\<lambda>_ _ _. Inr None), wd_query = (\<lambda>_ _ _ _. Inr []),
     wd_now = (\<lambda>_. 0), wd_nonce = (\<lambda>_. None), wd_seal = (\<lambda>_ _ _. []), wd_open = (\<lambda>_ _ _. None)\<rparr>"

definition sample_row :: "string \<Rightarrow> nat option" where
  "sample_row h = (if h = ''send'' then Some 17 else if h = ''query'' then Some 16 else None)"

definition sample_interp :: interp where
  "sample_interp = \<lparr>in_src = (\<lambda>h. if h = ''let'' then Some let_prog else if h = ''catch'' then Some catch_prog else None),
     in_fns = image_fns golib_amd64 no_mutants sample_row,
     in_class = image_class golib_amd64 no_mutants sample_row,
     in_world = sample_world, in_gl = golib_amd64, in_mutant = no_mutants\<rparr>"

definition nobody :: principal where
  "nobody = \<lparr>p_subject = [], p_grants = (\<lambda>_. False), p_operator = False\<rparr>"

definition sample_req :: "string \<Rightarrow> i64 \<Rightarrow> run_req" where
  "sample_req h fuel = \<lparr>rq_def = h, rq_args = [], rq_tier = TierSandbox, rq_fuel = fuel, rq_alloc = 0,
     rq_ceiling = 0, rq_principal = nobody, rq_env = None, rq_asof = None\<rparr>"

definition sample_run :: "string \<Rightarrow> i64 \<Rightarrow> outcome option" where
  "sample_run h fuel = run_cek sample_interp (sample_req h fuel) empty_heap (\<lambda>_. False) 0"

text \<open>A machine with nothing left to do, run by a principal without grants.\<close>

definition sample_idle :: machine where
  "sample_idle = \<lparr>m_def = [], m_root = none_node, m_node = None, m_path = [], m_env = None, m_kont = [],
     m_mode = ModeApply, m_val = VUndef, m_sig = (SigThrow, VUndef),
     m_host = \<lparr>ho_world = sample_world, ho_principal = nobody, ho_effects = [], ho_asof = None, ho_tick = 0\<rparr>,
     m_tier = TierSandbox, m_transitions = 0, m_fuel_steps = 0, m_fuel_alloc = 0, m_meter_alloc = 0,
     m_heap = empty_heap\<rparr>"

lemma sample_std: "std_interp golib_amd64 sample_row sample_interp"
  by (simp add: std_interp_def sample_interp_def)

lemma sample_wf: "wf_interp sample_interp"
proof -
  have fits: "fits let_prog" "fits catch_prog"
    by (simp_all add: let_prog_def catch_prog_def func_of_def block_of_def let_str_def nd_def str_lit_def
        local_ref_def bind_id_def none_node_def)
  have src: "in_src sample_interp h =
      (if h = ''let'' then Some let_prog else if h = ''catch'' then Some catch_prog else None)" for h
    by (simp add: sample_interp_def)
  show ?thesis unfolding wf_interp_def
    using std_natives_keep_ctx [OF sample_std] fits by (auto simp only: src split: if_splits)
qed

lemma sample_frame: "natives_frame sample_interp"
  by (rule std_natives_frame [OF sample_std])

lemma sample_parks: "\<exists>out st. sample_run ''let'' 3 = Some out \<and> o_state out = Some st \<and> s_park st = ParkFuel"
proof -
  have "case sample_run ''let'' 3 of None \<Rightarrow> False
      | Some out \<Rightarrow> (case o_state out of None \<Rightarrow> False | Some st \<Rightarrow> s_park st = ParkFuel)"
    by code_simp
  then show ?thesis by (auto split: option.splits)
qed

lemma sample_machine: "\<exists>m. new_machine sample_interp (sample_req ''let'' 0) empty_heap 0 = ret m"
proof -
  obtain out st where r: "sample_run ''let'' 3 = Some out" "o_state out = Some st"
    using sample_parks by blast
  have "new_machine sample_interp (sample_req ''let'' 0) empty_heap 0 =
      new_machine sample_interp (sample_req ''let'' 3) empty_heap 0"
    by (simp add: new_machine_def sample_req_def Let_def cong: if_cong)
  with r show ?thesis
    by (auto simp: sample_run_def run_cek_def ret_def error_with_def zero_outcome_def
        split: option.splits sum.splits)
qed

end
