(* ===== verification/Cek_Bounds.thy ===== *)
theory Cek_Bounds
  imports Cek_Samples
begin

section \<open>How long a run takes and what it leaves\<close>

text \<open>
  The meters bound every run: a sandboxed run makes at most as many transitions as its budget, a
  trusted one stops at the first multiple of 4096 above its ceiling.  A transition only adds to the
  effect trace.  String conversion is shown not to depend on the depth its model is given.
\<close>

subsection \<open>Counted transitions\<close>

fun step_n :: "interp \<Rightarrow> nat \<Rightarrow> machine \<Rightarrow> machine option" where
  "step_n I 0 m = Some m"
| "step_n I (Suc k) m = (case cek_step I m of Some (m', None) \<Rightarrow> step_n I k m' | _ \<Rightarrow> None)"

lemma step_n_Suc [simp]: "cek_step I m = Some (m', None) \<Longrightarrow> step_n I (Suc k) m = step_n I k m'"
  by simp

lemma reaches_head: "reaches I m1 x \<Longrightarrow> cek_step I m = Some (m1, None) \<Longrightarrow> reaches I m x"
  by (induction rule: reaches.induct) (auto intro: reaches.intros)

lemma reaches_ended: "reaches I m m' \<Longrightarrow> cek_step I m = Some (x, Some out) \<Longrightarrow> m' = m"
  by (induction rule: reaches.induct) auto

lemma step_n_reaches: "step_n I k m = Some m' \<Longrightarrow> reaches I m m'"
proof (induction k arbitrary: m)
  case (Suc k)
  obtain m1 where s: "cek_step I m = Some (m1, None)" "step_n I k m1 = Some m'"
    using Suc.prems by (auto split: option.splits)
  have "reaches I m1 m'" using Suc.IH s(2) by simp
  then show ?case using s(1) by (rule reaches_head)
qed (simp add: reaches_refl)

text \<open>How a run of at most \<open>n\<close> transitions can end.\<close>

definition ends_within :: "interp \<Rightarrow> nat \<Rightarrow> machine \<Rightarrow> outcome option \<Rightarrow> bool" where
  "ends_within I n m r \<longleftrightarrow> (\<exists>k m'. step_n I k m = Some m' \<and> (case r of
      None \<Rightarrow> k < n \<and> cek_step I m' = None
    | Some out \<Rightarrow> (k = n \<and> out = park_meter FuelMeter m') \<or>
        (k < n \<and> (\<exists>m'' o'. cek_step I m' = Some (m'', Some o') \<and> out = seal m'' o'))))"

lemma ends_within_step:
  assumes "cek_step I m = Some (m1, None)" "ends_within I n m1 r"
  shows "ends_within I (Suc n) m r"
proof -
  obtain k m' where k: "step_n I k m1 = Some m'" "case r of
      None \<Rightarrow> k < n \<and> cek_step I m' = None
    | Some out \<Rightarrow> (k = n \<and> out = park_meter FuelMeter m') \<or>
        (k < n \<and> (\<exists>m'' o'. cek_step I m' = Some (m'', Some o') \<and> out = seal m'' o'))"
    using assms(2) by (auto simp: ends_within_def)
  then show ?thesis unfolding ends_within_def
    by (intro exI [where x = "Suc k"] exI [where x = m']) (auto simp: assms(1) split: option.splits)
qed

lemma run_n_ends: "ends_within I n m (run_n I n m)"
proof (induction n arbitrary: m)
  case 0
  show ?case unfolding ends_within_def by (intro exI [where x = 0] exI [where x = m]) simp
next
  case (Suc n)
  have here: "step_n I 0 m = Some m" by simp
  show ?case
  proof (cases "cek_step I m")
    case None
    then show ?thesis unfolding ends_within_def
      by (intro exI [where x = 0] exI [where x = m]) simp
  next
    case (Some p)
    obtain m1 oc where p: "p = (m1, oc)" by (cases p)
    show ?thesis
    proof (cases oc)
      case None
      then show ?thesis using Some p Suc [of m1] by (simp add: ends_within_step)
    next
      case (Some out)
      then show ?thesis using \<open>cek_step I m = Some p\<close> p unfolding ends_within_def
        by (intro exI [where x = 0] exI [where x = m]) auto
    qed
  qed
qed

subsection \<open>The governor\<close>

lemma aligned_and: "uint (c :: i64) mod 4096 = 0 \<Longrightarrow> c AND 4095 = 0"
proof -
  assume "uint c mod 4096 = 0"
  then have "take_bit 12 (uint c) = 0" unfolding take_bit_eq_mod by simp
  then have "uint (take_bit 12 c) = 0" by (simp only: unsigned_take_bit_eq)
  moreover have "take_bit 12 c = c AND 4095" by (simp add: take_bit_eq_mask mask_eq_exp_minus_1)
  ultimately show ?thesis by (simp add: uint_0_iff)
qed

lemma run_gov_stops:
  assumes T: "T mod 4096 = 0" "T < 2 ^ 63" "sint ceiling < T"
    and no_panic: "\<And>m'. reaches I m m' \<Longrightarrow> cek_step I m' \<noteq> None"
    and n: "0 \<le> sint n" "sint n < T"
  shows "\<exists>out. run_gov I ceiling late n m = Some out"
  using n no_panic
proof (induction "nat (T - sint n)" arbitrary: n m rule: less_induct)
  case less
  have c: "sint (n + 1) = sint n + 1"
  proof -
    have "signed_take_bit 63 (sint n + 1) = sint n + 1"
      using less.prems(1,2) T(2) by (intro signed_take_bit_int_eq_self) simp_all
    then show ?thesis by (simp add: sint_word_ariths)
  qed
  show ?case
  proof (cases "snd (gov_tick ceiling late n)")
    case False
    then show ?thesis by (subst run_gov.simps) (auto split: prod.splits)
  next
    case True
    have "sint n + 1 \<noteq> T"
    proof
      assume e: "sint n + 1 = T"
      have "0 \<le> sint (n + 1)" using c less.prems by simp
      then have "uint (n + 1) = sint (n + 1)"
        using sint_less [of "n + 1"] by (simp add: uint_sint take_bit_int_eq_self)
      then have "(n + 1) AND 4095 = 0" using c e T(1) by (intro aligned_and) simp
      then show False using True c e T(3) by (simp add: gov_tick_def Let_def)
    qed
    then have lt: "sint (n + 1) < T" "0 \<le> sint (n + 1)" using less.prems c by auto
    obtain m' oc where s: "cek_step I m = Some (m', oc)"
      using less.prems(3) [OF reaches_refl] by auto
    have tick: "gov_tick ceiling late n = (n + 1, True)"
      using True by (simp add: gov_tick_def Let_def)
    show ?thesis
    proof (cases oc)
      case None
      have "reaches I m' x \<Longrightarrow> reaches I m x" for x
        using s [unfolded None] reaches_head by blast
      then have "\<exists>out. run_gov I ceiling late (n + 1) m' = Some out"
        using less.prems lt c by (intro less.hyps) auto
      then show ?thesis by (subst run_gov.simps) (simp add: tick s None)
    next
      case (Some out)
      then show ?thesis by (subst run_gov.simps) (simp add: tick s)
    qed
  qed
qed

subsection \<open>The effect trace\<close>

lemma step_appends:
  assumes "natives_frame I" and "cek_step I m = Some (m', oc)"
  shows "\<exists>F. ho_effects (m_host m') = ho_effects (m_host m) @ F"
proof -
  let ?n = "m\<lparr>m_host := (m_host m)\<lparr>ho_effects := []\<rparr>\<rparr>"
  have "sim (ho_effects (m_host m)) 0 m ?n"
    by (simp add: sim_def bsim_def prefix_effects_def)
  from rres_step [OF assms(1) this] show ?thesis using assms(2)
    by (auto simp: rres_def sim_def bsim_def prefix_effects_def split: option.splits prod.splits)
qed

lemma reaches_appends:
  "reaches I m m' \<Longrightarrow> natives_frame I \<Longrightarrow> \<exists>F. ho_effects (m_host m') = ho_effects (m_host m) @ F"
proof (induction rule: reaches.induct)
  case (reaches_step m m' m'')
  then show ?case using step_appends [of I m' m'' None] by fastforce
qed simp

subsection \<open>String conversion\<close>

lemma join_elems_mono:
  "join_elems f b es = Some r \<Longrightarrow> (\<And>e s. e \<in> set es \<Longrightarrow> f e = Some s \<Longrightarrow> g e = Some s) \<Longrightarrow>
     join_elems g b es = Some r"
proof (induction es arbitrary: b r)
  case (Cons e es)
  then show ?case by (fastforce split: bind_splits if_splits)
qed simp

lemma join_elems_defined: "join_elems f b es \<noteq> None \<longleftrightarrow> (\<forall>e \<in> set es. nullish e \<or> f e \<noteq> None)"
proof (induction es arbitrary: b)
  case (Cons e es)
  show ?case
    using Cons [of False] by (cases "join_elems f False es"; cases "nullish e"; cases "f e") auto
qed simp

lemma to_str_n_mono: "to_str_n k H v = Some s \<Longrightarrow> to_str_n (Suc k) H v = Some s"
proof (induction k arbitrary: v s)
  case (Suc k)
  show ?case
  proof (cases v)
    case (VArr a)
    then obtain es where es: "get_arr H a = Some es" "join_elems (to_str_n k H) True es = Some s"
      using Suc.prems by (auto split: bind_splits)
    then have "join_elems (to_str_n (Suc k) H) True es = Some s"
      by (elim join_elems_mono) (rule Suc.IH)
    then show ?thesis using VArr es(1) by (simp del: to_str_n.simps(2) add: to_str_n.simps(2) [of "Suc k"])
  qed (use Suc.prems in simp_all)
qed simp

lemma to_str_n_le: "j \<le> k \<Longrightarrow> to_str_n j H v = Some s \<Longrightarrow> to_str_n k H v = Some s"
  by (induction k rule: dec_induct) (simp_all only: to_str_n_mono)

text \<open>The arrays printed within a depth, and that they stop growing.\<close>

definition shallow :: "heap \<Rightarrow> nat \<Rightarrow> addr set" where
  "shallow H k = {a. to_str_n k H (VArr a) \<noteq> None}"

lemma shallow_mono: "shallow H k \<subseteq> shallow H (Suc k)"
  unfolding shallow_def using to_str_n_mono by blast

lemma shallow_bounded: "shallow H k \<subseteq> {..<length (h_objs H)}"
proof
  fix a assume "a \<in> shallow H k"
  then have "get_arr H a \<noteq> None" by (cases k; cases "get_arr H a") (auto simp: shallow_def)
  then show "a \<in> {..<length (h_objs H)}"
    by (simp add: get_arr_def nth_go_def split: if_splits)
qed

lemma shallow_Suc:
  "a \<in> shallow H (Suc k) \<longleftrightarrow> (\<exists>es. get_arr H a = Some es \<and> (\<forall>e \<in> set es. nullish e \<or> to_str_n k H e \<noteq> None))"
  using join_elems_defined [of "to_str_n k H" True] by (auto simp: shallow_def split: bind_splits)

lemma flat_defined: "(\<And>a. v \<noteq> VArr a) \<Longrightarrow> to_str_n (Suc k) H v \<noteq> None"
  by (cases v) auto

lemma defined_agree: "shallow H (Suc j) = shallow H (Suc k) \<Longrightarrow> to_str_n (Suc j) H e \<noteq> None \<longleftrightarrow> to_str_n (Suc k) H e \<noteq> None"
  using flat_defined [of e] by (cases "\<exists>a. e = VArr a") (auto simp: shallow_def simp del: to_str_n.simps)

lemma shallow_fix: "shallow H (Suc k) = shallow H (Suc (Suc k)) \<Longrightarrow> shallow H (Suc (Suc k)) = shallow H (Suc (Suc (Suc k)))"
  using defined_agree [of H k "Suc k"] by (auto simp: set_eq_iff shallow_Suc simp del: to_str_n.simps)

lemma shallow_stable: "shallow H (Suc k) = shallow H (Suc (Suc k)) \<Longrightarrow> shallow H (Suc (k + i)) = shallow H (Suc k)"
proof (induction i)
  case (Suc i)
  have "shallow H (Suc (k + i)) = shallow H (Suc (Suc (k + i)))" for i
    by (induction i) (use Suc.prems shallow_fix in auto)
  then show ?case using Suc by simp
qed simp

lemma shallow_stops: "\<exists>k \<le> length (h_objs H). shallow H (Suc k) = shallow H (Suc (Suc k))"
proof (rule ccontr)
  assume no: "\<not> ?thesis"
  have "j \<le> length (h_objs H) + 1 \<Longrightarrow> j \<le> card (shallow H (Suc j))" for j
  proof (induction j)
    case (Suc j)
    then have "shallow H (Suc j) \<noteq> shallow H (Suc (Suc j))" using no by auto
    then have "shallow H (Suc j) \<subset> shallow H (Suc (Suc j))" using shallow_mono [of H "Suc j"] by blast
    then have "card (shallow H (Suc j)) < card (shallow H (Suc (Suc j)))"
      using finite_subset [OF shallow_bounded] by (intro psubset_card_mono) auto
    then show ?case using Suc by simp
  qed simp
  from this [of "length (h_objs H) + 1"] have "length (h_objs H) < card (shallow H (Suc (Suc (length (h_objs H)))))"
    by simp
  moreover have "card (shallow H i) \<le> length (h_objs H)" for i
    using card_mono [OF _ shallow_bounded] by fastforce
  ultimately show False by (meson not_le)
qed

lemma to_str_deep_enough:
  assumes "to_str_n n H v = Some s"
  shows "to_str H v = Some s"
proof -
  let ?N = "length (h_objs H)"
  obtain k where k: "k \<le> ?N" "shallow H (Suc k) = shallow H (Suc (Suc k))"
    using shallow_stops by blast
  have big: "to_str_n (Suc (Suc ?N + n)) H v = Some s"
    using assms by (rule to_str_n_le [rotated]) simp
  have "shallow H (Suc (Suc ?N + n)) = shallow H (Suc (Suc ?N))"
    using shallow_stable [OF k(2), of "Suc ?N - k"] shallow_stable [OF k(2), of "Suc ?N + n - k"] k(1) by simp
  then have "to_str_n (Suc (Suc ?N)) H v \<noteq> None"
    using defined_agree [of H "Suc ?N + n" "Suc ?N" v] big by simp
  then obtain s' where "to_str_n (Suc (Suc ?N)) H v = Some s'" by auto
  moreover have "s' = s"
    using to_str_n_le [OF _ calculation, of "Suc (Suc ?N + n)"] big by simp
  ultimately show ?thesis by (simp add: to_str_def)
qed


subsection \<open>Accepted statements\<close>

lemma drop_trailing_split: "\<exists>r. s = drop_trailing P s @ r \<and> (\<forall>c \<in> set r. P c)"
proof -
  have "s = drop_trailing P s @ rev (takeWhile P (rev s))"
    unfolding drop_trailing_def rev_append [symmetric] takeWhile_dropWhile_id by simp
  then show ?thesis by (metis set_rev set_takeWhileD)
qed

lemma is_prefix_append: "is_prefix (p @ q) s \<Longrightarrow> is_prefix p s"
proof -
  assume "is_prefix (p @ q) s"
  then have "take (length p) (take (length (p @ q)) s) = p" unfolding is_prefix_def by simp
  then show ?thesis by (simp add: is_prefix_def min_def)
qed

lemma read_only_shape:
  assumes "is_read_only_sql s"
  shows "is_prefix ''select'' (lower_ascii (strip_sql_lead s)) \<and>
     (\<exists>body sep blanks. strip_sql_lead s = body @ sep @ blanks \<and> CHR '';'' \<notin> set body \<and>
        set sep \<subseteq> {CHR '';''} \<and> (\<forall>c \<in> set blanks. sql_space c))"
proof -
  let ?t = "strip_sql_lead s"
  obtain blanks where b: "?t = drop_trailing sql_space ?t @ blanks" "\<forall>c \<in> set blanks. sql_space c"
    using drop_trailing_split by blast
  let ?u = "drop_trailing sql_space ?t"
  obtain sep where sp: "?u = drop_trailing (\<lambda>c. c = CHR '';'') ?u @ sep" "\<forall>c \<in> set sep. c = CHR '';''"
    using drop_trailing_split by blast
  have "CHR '';'' \<notin> set (drop_trailing (\<lambda>c. c = CHR '';'') ?u)"
    using assms by (simp add: is_read_only_sql_def Let_def)
  moreover have "?t = drop_trailing (\<lambda>c. c = CHR '';'') ?u @ sep @ blanks"
    using b(1) sp(1) by (metis append.assoc)
  moreover have "is_prefix ''select'' (lower_ascii ?t)"
    using assms is_prefix_append [of "''select''"] by (auto simp: is_read_only_sql_def Let_def)
  ultimately show ?thesis using b(2) sp(2) by blast
qed

end
