(* ===== verification/Cek_Theorems.thy ===== *)
theory Cek_Theorems
  imports Cek_Bounds
begin

section \<open>Properties of the machine\<close>

text \<open>
  The properties of runs, parks and resumes, over the lemmas of the component theories, each with a
  witness on a sample program.
\<close>





text \<open>C17: the fuel meter is exact.  A run with budget \<open>s\<close> either parks after precisely \<open>s\<close>
  transitions, or ends (or panics) at a machine reached with fewer; it always returns.\<close>

theorem fuel_bounds_run:
  "ends_within I (ticks_left s) m (run_fuel I s m) \<and> (0 < sint s \<longrightarrow> ticks_left s = nat (sint s))"
  using run_n_ends [of I "ticks_left s" m] by (simp add: run_fuel_run_n ticks_left_pos)

lemma fuel_bounds_run_witness:
  "\<exists>m. new_machine sample_interp (sample_req ''let'' 0) empty_heap 0 = ret m \<and> ticks_left 3 = 3 \<and>
     ends_within sample_interp 3 m (run_fuel sample_interp 3 m)"
proof -
  obtain m where "new_machine sample_interp (sample_req ''let'' 0) empty_heap 0 = ret m"
    using sample_machine by blast
  then show ?thesis using fuel_bounds_run [of sample_interp 3 m] by auto
qed

text \<open>C18: a trusted run ends.  With a ceiling below \<open>2^63 - 4096\<close> the governor stops any run that no
  step panics in, whatever the clock says; \<open>run_gov\<close> is a partial function, so the result is a claim
  that it returns.\<close>

theorem governor_stops_run:
  assumes "sint ceiling < 2 ^ 63 - 4096" "\<And>m'. reaches I m m' \<Longrightarrow> cek_step I m' \<noteq> None"
  shows "\<exists>out. run_gov I ceiling late 0 m = Some out"
proof -
  define T where "T = (if sint ceiling < 0 then 4096 else 4096 * (sint ceiling div 4096 + 1))"
  have "T mod 4096 = 0" "0 < T" by (auto simp: T_def)
  moreover have "4096 * (sint ceiling div 4096) \<le> sint ceiling"
    "sint ceiling < 4096 * (sint ceiling div 4096) + 4096" by linarith+
  then have "T < 2 ^ 63" "sint ceiling < T" using assms(1) unfolding T_def
    by (cases "sint ceiling < 0"; simp)+
  ultimately show ?thesis using run_gov_stops [of T ceiling I m 0 late] assms(2) by simp
qed

text \<open>The effect trace is append-only: nothing a run does removes or rewrites an effect that
  was recorded.\<close>

theorem effects_append_only:
  assumes "std_interp gl row I" "reaches I m m'"
  shows "\<exists>F. ho_effects (m_host m') = ho_effects (m_host m) @ F"
  using reaches_appends [OF assms(2) std_natives_frame [OF assms(1)]] .

lemma effects_append_only_witness:
  "\<exists>m F. new_machine sample_interp (sample_req ''let'' 0) empty_heap 0 = ret m \<and>
     ho_effects (m_host m) = ho_effects (m_host m) @ F"
  using sample_machine effects_append_only [OF sample_std reaches_refl] by blast

text \<open>The depth \<open>to_str\<close> is cut at does not matter: whatever depth lets the conversion
  finish, \<open>to_str\<close> gives the same string.\<close>

theorem to_str_total_where_finite:
  assumes "to_str_n n H v = Some s"
  shows "to_str H v = Some s"
  using assms by (rule to_str_deep_enough)

lemma to_str_total_where_finite_witness: "to_str empty_heap VNull = Some ''null''"
  using to_str_total_where_finite [of 1 empty_heap VNull "''null''"] by simp

subsection \<open>Properties of the natives\<close>

text \<open>A native with a declared capability fails closed: called by a principal that neither is
  an operator nor holds the grant, it parks the run on \<open>capability.revoked\<close>; no effect is recorded,
  the heap is untouched and the world is not read.\<close>

theorem gated_call_denied:
  assumes "std_interp gl row I" "row h = Some i" "i < length (roster gl no_mutants)"
    and "cap = re_cap (roster gl no_mutants ! i)" "cap \<noteq> []"
    and "\<not> p_operator (ho_principal (m_host m))" "\<not> p_grants (ho_principal (m_host m)) cap"
  shows "\<exists>out m'. perform_native I f h args m = Some (m', Some out) \<and> o_kind out = OutParked \<and>
     map_option cn_class (o_cond out) = Some ''capability.revoked'' \<and>
     map_option cn_payload (o_cond out) = Some [(''capability'', AnyStr cap)] \<and>
     m_host m' = m_host m \<and> m_heap m' = m_heap m"
proof -
  have "in_fns I h = Some (re_native (roster gl no_mutants ! i))"
    using assms by (simp add: std_interp_def image_fns_def nth_go_def)
  with perform_native_denied [of I h _ cap m f args] roster_gated [of "roster gl no_mutants ! i" gl no_mutants]
  show ?thesis using assms
    by (auto simp: holds_cap_def stop_def signal_condition_def zero_outcome_def)
qed

lemma gated_call_denied_witness:
  "\<exists>out m'. perform_native sample_interp bottom_frame ''send'' [] sample_idle = Some (m', Some out) \<and>
     o_kind out = OutParked \<and> m_host m' = m_host sample_idle"
proof -
  have c: "17 < length (roster golib_amd64 no_mutants)" "''mail.send'' = re_cap (roster golib_amd64 no_mutants ! 17)"
    "sample_row ''send'' = Some 17"
    by (simp_all add: roster_def wf_surface_def entry_def sample_row_def)
  have "\<not> p_operator (ho_principal (m_host sample_idle))" "\<not> p_grants (ho_principal (m_host sample_idle)) ''mail.send''"
    by (simp_all add: sample_idle_def nobody_def)
  from gated_call_denied [OF sample_std c(3,1,2) _ this, of bottom_frame "[]"] show ?thesis by auto
qed

text \<open>The standard natives declared \<open>read\<close> never trip the kernel's conformance check, and they
  leave the effect trace as it was.\<close>

theorem read_natives_conform:
  assumes "std_interp gl row I" "in_fns I h = Some fn" "in_class I h = ''read''"
    and "perform_native I f h args m = Some (m', out)"
  shows "ho_effects (m_host m') = ho_effects (m_host m) \<and>
     (\<forall>e. out = Some e \<longrightarrow> o_err e = None)"
proof -
  obtain e where e: "e \<in> set (roster gl no_mutants)" "re_native e = fn" "re_class e = ''read''"
    using assms(1-3) image_fns_row [of gl no_mutants row h fn] by (auto simp: std_interp_def)
  note q = roster_read_quiet [OF e(1,3), unfolded e(2)]
  obtain H ho v pk where r: "fn (m_heap m) (m_host m) args = Some (H, ho, v, pk)"
    using assms(4) by (cases "fn (m_heap m) (m_host m) args") (auto simp: quiet_native.never_trips [OF q assms(2)])
  with assms(4) quiet_native.quiet [OF q r] show ?thesis
    by (cases pk; simp add: quiet_native.never_trips [OF q assms(2)] Let_def go_def apply_val_def;
        cases "the pk"; auto simp: stop_def zero_outcome_def)
qed

lemma read_natives_conform_witness:
  "\<exists>m' out. perform_native sample_interp bottom_frame ''query'' [] sample_idle = Some (m', out) \<and>
     ho_effects (m_host m') = ho_effects (m_host sample_idle)"
proof -
  have f: "in_fns sample_interp ''query'' = Some std_sql_query" "in_class sample_interp ''query'' = ''read''"
    by (simp_all add: sample_interp_def image_fns_def image_class_def sample_row_def roster_def wf_surface_def
        entry_def nth_go_def)
  have "\<not> holds_cap (m_host sample_idle) ''sql.query''"
    by (simp add: sample_idle_def nobody_def holds_cap_def)
  then obtain st where "\<exists>out m'. perform_native sample_interp bottom_frame ''query'' [] sample_idle = Some (m', out)"
    using perform_native_denied [OF f(1), of "''sql.query''" sample_idle bottom_frame "[]"]
    by (fastforce simp: std_sql_query_def stop_def)
  then show ?thesis using read_natives_conform [OF sample_std f] by blast
qed


lemma governor_stops_run_witness:
  "\<exists>out. run_gov sample_interp 8192 (\<lambda>_. False) 0 sample_idle = Some out"
proof (rule governor_stops_run)
  have s: "cek_step sample_interp sample_idle = Some (sample_idle\<lparr>m_transitions := 1\<rparr>, Some (done_with VUndef))"
    by (simp add: cek_step_def sample_idle_def apply_step_def stop_def)
  show "cek_step sample_interp m' \<noteq> None" if "reaches sample_interp sample_idle m'" for m'
    using s reaches_ended [OF that s] by simp
qed simp


subsection \<open>What the code does against its comments\<close>


text \<open>The read-only check lets only a single statement through that starts with \<open>select\<close> after
  its leading blanks and comments: a semicolon can only be followed by blanks and semicolons.\<close>

theorem read_only_single_statement:
  assumes "is_read_only_sql s"
  shows "is_prefix ''select'' (lower_ascii (strip_sql_lead s)) \<and>
     (\<exists>body sep blanks. strip_sql_lead s = body @ sep @ blanks \<and> CHR '';'' \<notin> set body \<and>
        set sep \<subseteq> {CHR '';''} \<and> (\<forall>c \<in> set blanks. sql_space c))"
  using read_only_shape [OF assms] .

lemma read_only_single_statement_witness:
  "is_prefix ''select'' (lower_ascii (strip_sql_lead ''SELECT 1;''))"
proof -
  have "is_read_only_sql ''SELECT 1;''" by code_simp
  from read_only_single_statement [OF this] show ?thesis by blast
qed

text \<open>The check misses a locking clause that a newline precedes: \<open>select 1\<close>, a newline and
  \<open>for update\<close> count as read-only, where the same text on one line does not.\<close>

theorem read_only_misses_newline_lock:
  "is_read_only_sql (''select 1'' @ [CHR 0x0A] @ ''for update'') \<and> \<not> is_read_only_sql ''select 1 for update''"
  by code_simp

end
