(* ===== verification/Ui_Codec.thy ===== *)
theory Ui_Codec
  imports Wire_Prim
begin

section \<open>The patch-frame codec\<close>

text \<open>
  \<open>internal/ui/codec.go\<close>: the binary frames a session pushes to its browser.  The decoder is modelled with
  its three results: a value with the rest of the buffer, an error, and (\<open>None\<close>) a Go panic.  A
  reader takes the unread rest; \<open>bl\<close> is the length of the whole buffer, from which the code's
  \<open>pos\<close> is recovered.
\<close>

subsection \<open>Frames\<close>

text \<open>\<open>OpKind\<close> and \<open>SpliceKind\<close> are bytes, and the decoder keeps what it reads.\<close>

definition op_set_text :: byte where "op_set_text = 1"
definition op_set_attr :: byte where "op_set_attr = 2"
definition op_set_value :: byte where "op_set_value = 3"
definition op_splice_list :: byte where "op_splice_list = 4"

definition splice_add :: byte where "splice_add = 1"
definition splice_remove :: byte where "splice_remove = 2"
definition splice_move :: byte where "splice_move = 3"

lemmas op_kinds = op_set_text_def op_set_attr_def op_set_value_def op_splice_list_def
lemmas splice_kinds = splice_add_def splice_remove_def splice_move_def

record splice =
  sp_kind :: byte
  sp_key :: string
  sp_index :: i64
  sp_html :: string

record patch_op =
  po_slot :: string
  po_kind :: byte
  po_attr :: string
  po_payload :: string
  po_splices :: "splice list"

record patch_frame =
  pf_seq :: u64
  pf_hash :: u64
  pf_ops :: "patch_op list"

definition codec_version :: byte where "codec_version = 1"

subsection \<open>Encoding\<close>

definition encode_splice :: "splice \<Rightarrow> bytes" where
  "encode_splice s = [sp_kind s] @ put_str (sp_key s) @ put_uvarint (uint (sp_index s)) @ put_str (sp_html s)"

definition encode_op_body :: "patch_op \<Rightarrow> bytes" where
  "encode_op_body p =
     (if po_kind p = op_set_text \<or> po_kind p = op_set_value then put_str (po_payload p)
      else if po_kind p = op_set_attr then put_str (po_attr p) @ put_str (po_payload p)
      else if po_kind p = op_splice_list
      then put_uvarint (int (length (po_splices p))) @ concat (map encode_splice (po_splices p))
      else [])"

definition encode_op :: "patch_op \<Rightarrow> bytes" where
  "encode_op p = [po_kind p] @ put_str (po_slot p) @ encode_op_body p"

definition encode_frame :: "patch_frame \<Rightarrow> bytes" where
  "encode_frame f = [codec_version] @ put_be64 (pf_seq f) @ put_be64 (pf_hash f) @
     put_uvarint (int (length (pf_ops f))) @ concat (map encode_op (pf_ops f))"

subsection \<open>Reading\<close>

datatype ui_error = EmptyFrame | BadVersion byte | TruncatedFrame | UnknownSplice byte | UnknownOp byte

type_synonym 'a ui_read = "(ui_error + 'a \<times> bytes) option"

definition rd_ok :: "'a \<Rightarrow> bytes \<Rightarrow> 'a ui_read" where
  "rd_ok x r = Some (Inr (x, r))"

definition rd_err :: "ui_error \<Rightarrow> 'a ui_read" where
  "rd_err e = Some (Inl e)"

definition rd_then :: "'a ui_read \<Rightarrow> ('a \<Rightarrow> bytes \<Rightarrow> 'b ui_read) \<Rightarrow> 'b ui_read" where
  "rd_then x f = (case x of None \<Rightarrow> None | Some (Inl e) \<Rightarrow> rd_err e | Some (Inr (a, r)) \<Rightarrow> f a r)"

lemma rd_then_simps [simp]:
  "rd_then (rd_ok a r) f = f a r" "rd_then (rd_err e) f = rd_err e" "rd_then None f = None"
  by (simp_all add: rd_then_def rd_ok_def rd_err_def)

text \<open>A read that ends early is the truncation error.\<close>

definition or_trunc :: "('a \<times> bytes) option \<Rightarrow> 'a ui_read" where
  "or_trunc x = (case x of None \<Rightarrow> rd_err TruncatedFrame | Some (a, r) \<Rightarrow> rd_ok a r)"

lemma or_trunc_Some [simp]: "or_trunc (Some (a, r)) = rd_ok a r"
  by (simp add: or_trunc_def)

lemma or_trunc_None [simp]: "or_trunc None = rd_err TruncatedFrame"
  by (simp add: or_trunc_def)

text \<open>\<open>dec.str\<close>: the length is converted to Go's signed \<open>int\<close>, and so is its sum with \<open>pos\<close>, before
  it is compared with the buffer's length; a negative end passes the check and the slice panics.\<close>

definition rd_str :: "nat \<Rightarrow> bytes \<Rightarrow> string ui_read" where
  "rd_str bl bs = rd_then (or_trunc (get_uvarint bs)) (\<lambda>n r.
     let pos = int bl - int (length r);
         fin = wrap64 (pos + wrap64 n)
     in if int bl < fin then rd_err TruncatedFrame
        else if fin < pos then None
        else rd_ok (str_of (take (nat (fin - pos)) r)) (drop (nat (fin - pos)) r))"

fun rd_many :: "nat \<Rightarrow> (bytes \<Rightarrow> 'a ui_read) \<Rightarrow> bytes \<Rightarrow> 'a list ui_read" where
  "rd_many 0 g bs = rd_ok [] bs"
| "rd_many (Suc n) g bs =
     rd_then (g bs) (\<lambda>x r. rd_then (rd_many n g r) (\<lambda>xs r'. rd_ok (x # xs) r'))"

definition rd_splice :: "nat \<Rightarrow> bytes \<Rightarrow> splice ui_read" where
  "rd_splice bl bs =
     rd_then (or_trunc (get_byte bs)) (\<lambda>k r1.
     rd_then (rd_str bl r1) (\<lambda>key r2.
     rd_then (or_trunc (get_uvarint r2)) (\<lambda>ix r3.
     rd_then (rd_str bl r3) (\<lambda>html r4.
       if k < splice_add \<or> splice_move < k then rd_err (UnknownSplice k)
       else rd_ok \<lparr>sp_kind = k, sp_key = key, sp_index = word_of_int ix, sp_html = html\<rparr> r4))))"

definition rd_op :: "nat \<Rightarrow> bytes \<Rightarrow> patch_op ui_read" where
  "rd_op bl bs =
     rd_then (or_trunc (get_byte bs)) (\<lambda>k r1.
     rd_then (rd_str bl r1) (\<lambda>slot r2.
       let base = \<lparr>po_slot = slot, po_kind = k, po_attr = [], po_payload = [], po_splices = []\<rparr> in
       if k = op_set_text \<or> k = op_set_value then
         rd_then (rd_str bl r2) (\<lambda>pl r. rd_ok (base\<lparr>po_payload := pl\<rparr>) r)
       else if k = op_set_attr then
         rd_then (rd_str bl r2) (\<lambda>a r3.
         rd_then (rd_str bl r3) (\<lambda>pl r. rd_ok (base\<lparr>po_attr := a, po_payload := pl\<rparr>) r))
       else if k = op_splice_list then
         rd_then (or_trunc (get_uvarint r2)) (\<lambda>n r3.
         rd_then (rd_many (nat n) (rd_splice bl) r3) (\<lambda>ss r. rd_ok (base\<lparr>po_splices := ss\<rparr>) r))
       else rd_err (UnknownOp k)))"

definition decode_frame :: "bytes \<Rightarrow> (ui_error + patch_frame) option" where
  "decode_frame bs = (case bs of
      [] \<Rightarrow> Some (Inl EmptyFrame)
    | v # r0 \<Rightarrow>
        if v \<noteq> codec_version then Some (Inl (BadVersion v))
        else map_option (map_sum id fst)
          (rd_then (or_trunc (get_be64 r0)) (\<lambda>sq r1.
           rd_then (or_trunc (get_be64 r1)) (\<lambda>hs r2.
           rd_then (or_trunc (get_uvarint r2)) (\<lambda>n r3.
           rd_then (rd_many (nat n) (rd_op (length bs)) r3) (\<lambda>ops r.
             rd_ok \<lparr>pf_seq = sq, pf_hash = hs, pf_ops = ops\<rparr> r))))))"

subsection \<open>Round trip\<close>

text \<open>What a writer and its reader owe each other inside a buffer of \<open>bl\<close> bytes.\<close>

locale framed =
  fixes ok :: "'a \<Rightarrow> bool"
    and put :: "'a \<Rightarrow> bytes"
    and get :: "nat \<Rightarrow> bytes \<Rightarrow> 'a ui_read"
  assumes get_put: "ok x \<Longrightarrow> fits_buffer bl \<Longrightarrow> length (put x @ r) \<le> bl \<Longrightarrow> get bl (put x @ r) = rd_ok x r"
    and put_nonempty: "put x \<noteq> []"
begin

lemma many_put:
  "list_all ok xs \<Longrightarrow> fits_buffer bl \<Longrightarrow> length (concat (map put xs) @ r) \<le> bl \<Longrightarrow>
     rd_many (length xs) (get bl) (concat (map put xs) @ r) = rd_ok xs r"
  by (induction xs) (simp_all add: get_put)

lemma concat_length: "length xs \<le> length (concat (map put xs))"
proof (induction xs)
  case (Cons a xs)
  then have "1 \<le> length (put a)" "length xs \<le> length (concat (map put xs))"
    using put_nonempty [of a] by (simp_all add: Suc_le_eq)
  then show ?case by (simp del: length_concat)
qed simp

text \<open>A count and the items it announces.\<close>

lemma counted_put:
  assumes "list_all ok xs" "fits_buffer bl" "length (concat (map put xs) @ r) \<le> bl"
  shows "get_uvarint (put_uvarint (int (length xs)) @ s) = Some (int (length xs), s)"
    and "rd_many (nat (int (length xs))) (get bl) (concat (map put xs) @ r) = rd_ok xs r"
proof -
  have "u64_range (int (length xs))"
    using assms(2,3) concat_length [of xs] by (simp add: u64_range_def fits_buffer_def)
  then show "get_uvarint (put_uvarint (int (length xs)) @ s) = Some (int (length xs), s)"
    by (rule get_uvarint_put)
  show "rd_many (nat (int (length xs))) (get bl) (concat (map put xs) @ r) = rd_ok xs r"
    using many_put [OF assms] by simp
qed

end

lemma wrap64_small: "0 \<le> n \<Longrightarrow> n < 2 ^ 63 \<Longrightarrow> wrap64 n = n"
  by (rule wrap64_id) auto

lemma rd_str_put:
  assumes "fits_buffer bl" "length (put_str s @ r) \<le> bl"
  shows "rd_str bl (put_str s @ r) = rd_ok s r"
proof -
  have l: "int (length s) + int (length r) \<le> int bl" "int bl < 2 ^ 63"
    using assms by (auto simp: put_str_def put_bytes_def fits_buffer_def)
  have "u64_range (int (length s))" using l by (simp add: u64_range_def)
  then have g: "get_uvarint (put_str s @ r) = Some (int (length s), bytes_of s @ r)"
    by (simp add: put_str_def put_bytes_def get_uvarint_put)
  show ?thesis using l by (simp add: rd_str_def g wrap64_small Let_def)
qed

interpretation str_frame: framed "\<lambda>_. True" put_str rd_str
  by unfold_locales (simp_all add: rd_str_put, simp add: put_str_def put_bytes_def)

definition splice_ok :: "splice \<Rightarrow> bool" where
  "splice_ok s \<longleftrightarrow> sp_kind s \<in> {splice_add, splice_remove, splice_move}"

text \<open>The fields an operation's kind does not use are empty.\<close>

definition op_ok :: "patch_op \<Rightarrow> bool" where
  "op_ok p \<longleftrightarrow>
     (if po_kind p = op_set_text \<or> po_kind p = op_set_value then po_attr p = [] \<and> po_splices p = []
      else if po_kind p = op_set_attr then po_splices p = []
      else po_kind p = op_splice_list \<and> po_attr p = [] \<and> po_payload p = [] \<and> list_all splice_ok (po_splices p))"

definition frame_wf :: "patch_frame \<Rightarrow> bool" where
  "frame_wf f \<longleftrightarrow> list_all op_ok (pf_ops f) \<and> fits_buffer (length (encode_frame f))"

lemma uint_index [simp]: "u64_range (uint (w :: u64))"
  using unsigned_less [of w, where 'a = int] by (simp add: u64_range_def)

lemma splice_eta [simp]:
  "sp_kind s = k \<Longrightarrow> \<lparr>sp_kind = k, sp_key = sp_key s, sp_index = sp_index s, sp_html = sp_html s\<rparr> = s"
  by (cases s) simp

lemma op_eta [simp]:
  "po_kind p = k \<Longrightarrow> po_attr p = a \<Longrightarrow> po_payload p = pl \<Longrightarrow> po_splices p = ss \<Longrightarrow>
     \<lparr>po_slot = po_slot p, po_kind = k, po_attr = a, po_payload = pl, po_splices = ss\<rparr> = p"
  by (cases p) simp

interpretation splice_frame: framed splice_ok encode_splice rd_splice
  by unfold_locales
    (auto simp: encode_splice_def rd_splice_def rd_str_put get_uvarint_put splice_ok_def splice_kinds)

lemma rd_op_put:
  assumes ok: "op_ok p" and b: "fits_buffer bl" and l: "length (encode_op p @ r) \<le> bl"
  shows "rd_op bl (encode_op p @ r) = rd_ok p r"
proof -
  note s = str_frame.get_put [OF TrueI b]
  consider "po_kind p = op_set_text \<or> po_kind p = op_set_value" "po_attr p = []" "po_splices p = []"
    | "po_kind p = op_set_attr" "po_splices p = []"
    | "po_kind p = op_splice_list" "po_attr p = []" "po_payload p = []" "list_all splice_ok (po_splices p)"
    using ok by (auto simp: op_ok_def split: if_splits)
  then show ?thesis
  proof cases
    case 3
    have ls: "length (concat (map encode_splice (po_splices p)) @ r) \<le> bl"
      using l 3 by (simp add: encode_op_def encode_op_body_def op_kinds)
    show ?thesis
      using l 3 splice_frame.counted_put [OF 3(4) b ls]
      by (simp add: encode_op_def encode_op_body_def rd_op_def op_kinds s)
  qed (use l in \<open>auto simp: encode_op_def encode_op_body_def rd_op_def op_kinds s\<close>)
qed

interpretation op_frame: framed op_ok encode_op rd_op
  by unfold_locales (simp_all add: rd_op_put, simp add: encode_op_def)

lemma decode_encode_frame:
  assumes "frame_wf f"
  shows "decode_frame (encode_frame f) = Some (Inr f)"
proof -
  let ?bl = "length (encode_frame f)"
  have b: "fits_buffer ?bl" and ops: "list_all op_ok (pf_ops f)"
    using assms by (auto simp: frame_wf_def)
  have l: "length (concat (map encode_op (pf_ops f)) @ []) \<le> ?bl"
    by (simp add: encode_frame_def)
  show ?thesis
    using op_frame.counted_put [OF ops b l]
    by (simp add: decode_frame_def encode_frame_def get_be64_put) (simp add: rd_ok_def)
qed

end
