(* ===== verification/Ui_View.thy ===== *)
theory Ui_View
  imports Ui_Codec Go_Strconv "HOL-Library.AList" "HOL-Library.List_Lexorder" "HOL-Library.Char_ord"
begin

section \<open>Rendering, digests and diffs of a view\<close>

text \<open>
  The pure part of \<open>internal/ui\<close>: the divergence digest (\<open>digest.go\<close>), templates (\<open>template.go\<close>), the
  first-paint renderer with its masking leaves (\<open>render.go\<close>), and the per-slot and keyed-list diffs
  (\<open>diff.go\<close>), with the row edits of the client script (\<open>internal/kernel/clientasset.go\<close>).  Go maps are
  association lists with distinct keys.
\<close>

subsection \<open>The digest\<close>

definition fnv_offset :: u64 where "fnv_offset = 14695981039346656037"
definition fnv_prime :: u64 where "fnv_prime = 1099511628211"

definition fnv1a :: "bytes \<Rightarrow> u64" where
  "fnv1a bs = foldl (\<lambda>h b. (h XOR ucast b) * fnv_prime) fnv_offset bs"

definition slot_term :: "string \<Rightarrow> string \<Rightarrow> u64" where
  "slot_term slot v = fnv1a (bytes_of slot @ [0] @ bytes_of v)"

definition full_digest :: "(string \<times> string) list \<Rightarrow> u64" where
  "full_digest snap = foldl (\<lambda>d (k, v). d + slot_term k v) 0 snap"

definition digest_set :: "u64 \<Rightarrow> string \<Rightarrow> string \<Rightarrow> string \<Rightarrow> u64" where
  "digest_set d slot old new = d - slot_term slot old + slot_term slot new"

definition digest_add :: "u64 \<Rightarrow> string \<Rightarrow> string \<Rightarrow> u64" where
  "digest_add d slot v = d + slot_term slot v"

definition digest_remove :: "u64 \<Rightarrow> string \<Rightarrow> string \<Rightarrow> u64" where
  "digest_remove d slot v = d - slot_term slot v"

subsection \<open>Templates\<close>

record slot =
  sl_id :: string
  sl_kind :: string
  sl_path :: "int list"
  sl_field :: string
  sl_leaf :: string
  sl_attr :: string
  sl_masked :: bool
  sl_mask_leaf :: string
  sl_reads :: "(string \<times> string) list"
  sl_group :: string

text \<open>A node pointer of the skeleton, possibly nil.\<close>

datatype tnode =
    TNil
  | TNode (tn_component: string) (tn_text: string) (tn_props: "(string \<times> string) list")
      (tn_children: "tnode list") (tn_slot: int) (tn_list: int) (tn_row: tnode)

record template =
  tm_version :: int
  tm_def_hash :: string
  tm_kind :: string
  tm_resource :: string
  tm_mount :: string
  tm_root :: tnode
  tm_slots :: "slot list"
  tm_group_by :: string

definition static_node :: "string \<Rightarrow> tnode list \<Rightarrow> tnode" where
  "static_node c ks = TNode c [] [] ks (-1) (-1) TNil"

definition leaf_node :: "string \<Rightarrow> int \<Rightarrow> tnode" where
  "leaf_node c s = TNode c [] [] [] s (-1) TNil"

definition lit_node :: "string \<Rightarrow> tnode" where
  "lit_node t = TNode [] t [] [] (-1) (-1) TNil"

definition keyed_list :: "string \<Rightarrow> int \<Rightarrow> tnode \<Rightarrow> tnode" where
  "keyed_list c l row = TNode c [] [] [] (-1) l row"

definition slot_by_id :: "template \<Rightarrow> string \<Rightarrow> slot option" where
  "slot_by_id t i = find (\<lambda>s. sl_id s = i) (tm_slots t)"

subsection \<open>Slot values\<close>

record materialized =
  mz_snapshot :: string
  mz_display :: string

record row_data =
  rw_key :: string
  rw_subject :: string
  rw_fields :: "(string \<times> string) list"

record render_data =
  rd_resource :: string
  rd_subject :: string
  rd_fields :: "(string \<times> string) list"
  rd_rows :: "row_data list"

text \<open>\<open>Reveal\<close> resolves a live grant to the plaintext and the grant's id; it may be nil.\<close>

record mask_ctx =
  mx_principal :: string
  mx_reveal :: "(string \<Rightarrow> string \<Rightarrow> string \<Rightarrow> (string \<times> string) option) option"

definition field_of :: "(string \<times> string) list \<Rightarrow> string \<Rightarrow> string" where
  "field_of m k = (case map_of m k of None \<Rightarrow> [] | Some v \<Rightarrow> v)"

definition plain :: "string \<Rightarrow> materialized" where
  "plain v = \<lparr>mz_snapshot = v, mz_display = v\<rparr>"

definition mask_glyph :: string where
  "mask_glyph = concat (replicate 4 (str_of [0xE2, 0x80, 0xA2]))"

definition middle_dot :: string where
  "middle_dot = str_of [0xC2, 0xB7]"

fun hex_u :: "nat \<Rightarrow> string" where
  "hex_u n = (if n < 16 then [''0123456789abcdef'' ! n]
     else hex_u (n div 16) @ [''0123456789abcdef'' ! (n mod 16)])"

declare hex_u.simps [simp del]

text \<open>\<open>MaskToken\<close>: the first six hexadecimal digits of the hash; a hash of fewer digits is a slice
  out of range.\<close>

definition mask_token :: "string \<Rightarrow> string \<Rightarrow> string \<Rightarrow> string option" where
  "mask_token resource subject field =
     (let h = hex_u (unat (fnv1a (bytes_of resource @ [0] @ bytes_of subject @ [0] @ bytes_of field)))
      in if length h < 6 then None else Some (mask_glyph @ middle_dot @ take 6 h))"

definition revealed :: "mask_ctx option \<Rightarrow> string \<Rightarrow> string \<Rightarrow> string \<Rightarrow> (string \<times> string) option" where
  "revealed mc r s f = (case mc of
      None \<Rightarrow> None
    | Some x \<Rightarrow> (case mx_reveal x of None \<Rightarrow> None | Some g \<Rightarrow> g r s f))"

definition materialize_mask :: "mask_ctx option \<Rightarrow> string \<Rightarrow> string \<Rightarrow> string \<Rightarrow> materialized option" where
  "materialize_mask mc resource subject field = do {
     tok \<leftarrow> mask_token resource subject field;
     Some (case revealed mc resource subject field of
         Some (pt, gid) \<Rightarrow> \<lparr>mz_snapshot = tok @ ''|'' @ gid, mz_display = pt\<rparr>
       | None \<Rightarrow> plain tok)
   }"

definition eval_slot :: "mask_ctx option \<Rightarrow> render_data \<Rightarrow> slot \<Rightarrow> materialized option" where
  "eval_slot mc d s =
     (if sl_masked s then materialize_mask mc (rd_resource d) (rd_subject d) (sl_field s)
      else Some (plain (field_of (rd_fields d) (sl_field s))))"

definition eval_row_slot :: "mask_ctx option \<Rightarrow> string \<Rightarrow> row_data \<Rightarrow> slot \<Rightarrow> materialized option" where
  "eval_row_slot mc resource row s =
     (if sl_masked s then materialize_mask mc resource (rw_subject row) (sl_field s)
      else Some (plain (field_of (rw_fields row) (sl_field s))))"

subsection \<open>Escaping\<close>

definition esc_char :: "char \<Rightarrow> string" where
  "esc_char c = (if c = CHR ''&'' then ''&amp;'' else if c = CHR ''<'' then ''&lt;''
     else if c = CHR ''>'' then ''&gt;'' else [c])"

definition escape_text :: "string \<Rightarrow> string" where
  "escape_text s = concat (map esc_char s)"

definition quote_char :: char where "quote_char = CHR 0x22"

definition escape_attr :: "string \<Rightarrow> string" where
  "escape_attr s = concat (map (\<lambda>c. if c = quote_char then ''&quot;'' else esc_char c) s)"

subsection \<open>Elements\<close>

type_synonym element = "string \<times> (string \<times> string) list"

definition cls :: "string \<Rightarrow> string \<times> string" where
  "cls c = (''class'', ''rg-'' @ c)"

definition element_table :: "(string \<times> element) list" where
  "element_table = [
     (''page'', (''main'', [cls ''page''])),
     (''section'', (''section'', [(''role'', ''region''), cls ''section''])),
     (''stack'', (''div'', [cls ''stack''])),
     (''grid'', (''div'', [cls ''grid''])),
     (''nav'', (''nav'', [cls ''nav''])),
     (''heading'', (''h2'', [cls ''heading''])),
     (''text'', (''span'', [cls ''text''])),
     (''label'', (''label'', [cls ''label''])),
     (''badge'', (''span'', [cls ''badge''])),
     (''money'', (''span'', [cls ''money''])),
     (''datetime'', (''time'', [cls ''datetime''])),
     (''avatar'', (''span'', [cls ''avatar''])),
     (''icon'', (''span'', [cls ''icon'', (''aria-hidden'', ''true'')])),
     (''link'', (''a'', [cls ''link''])),
     (''button'', (''button'', [(''type'', ''button''), cls ''button''])),
     (''field'', (''input'', [cls ''field''])),
     (''select'', (''select'', [cls ''select''])),
     (''checkbox'', (''input'', [(''type'', ''checkbox''), cls ''checkbox''])),
     (''dialog'', (''div'', [(''role'', ''dialog''), (''aria-modal'', ''true''), (''tabindex'', ''-1''), cls ''dialog''])),
     (''card'', (''article'', [cls ''card''])),
     (''list'', (''ul'', [cls ''list''])),
     (''table'', (''table'', [cls ''table''])),
     (''alert'', (''div'', [(''role'', ''alert''), (''aria-live'', ''assertive''), cls ''alert''])),
     (''spinner'', (''span'', [(''role'', ''status''), (''aria-live'', ''polite''), cls ''spinner''])),
     (''empty'', (''div'', [cls ''empty'']))]"

definition element_for :: "string \<Rightarrow> element" where
  "element_for c = (case map_of element_table c of Some e \<Rightarrow> e | None \<Rightarrow> (''div'', [cls ''unknown'']))"

text \<open>One attribute, with its leading blank.\<close>

definition attr_text :: "string \<Rightarrow> string \<Rightarrow> string" where
  "attr_text k v = '' '' @ k @ ''='' @ [quote_char] @ escape_attr v @ [quote_char]"

definition static_attrs :: "element \<Rightarrow> tnode \<Rightarrow> string" where
  "static_attrs el n =
     concat (map (\<lambda>(k, v). attr_text k v) (snd el)) @
     concat (map (\<lambda>k. attr_text (''data-'' @ escape_attr k) (field_of (tn_props n) k)) (sort (map fst (tn_props n))))"

definition open_tag :: "element \<Rightarrow> tnode \<Rightarrow> string \<Rightarrow> string \<Rightarrow> string" where
  "open_tag el n slot_id slot_kind =
     ''<'' @ fst el @ static_attrs el n @
     (if slot_id \<noteq> [] then attr_text ''data-slot'' slot_id @
        (if slot_kind = ''spliceList'' then attr_text ''data-list'' ''1'' else []) else []) @ ''>''"

definition close_tag :: "element \<Rightarrow> string" where
  "close_tag el = ''</'' @ fst el @ ''>''"

subsection \<open>Rendering\<close>

text \<open>The string builder and the slot state.\<close>

type_synonym paint = "string \<times> (string \<times> materialized) list"

definition emit :: "string \<Rightarrow> paint \<Rightarrow> paint" where
  "emit s p = (fst p @ s, snd p)"

definition put_slot :: "string \<Rightarrow> materialized \<Rightarrow> paint \<Rightarrow> paint" where
  "put_slot i m p = (fst p, AList.update i m (snd p))"

definition row_slot_id :: "string \<Rightarrow> string \<Rightarrow> string" where
  "row_slot_id col key = col @ ''#'' @ key"

definition bare_data :: "string \<Rightarrow> render_data" where
  "bare_data resource = \<lparr>rd_resource = resource, rd_subject = [], rd_fields = [], rd_rows = []\<rparr>"

definition shown_in :: "template \<Rightarrow> slot \<Rightarrow> row_data \<Rightarrow> bool" where
  "shown_in t ls row \<longleftrightarrow>
     \<not> (tm_group_by t \<noteq> [] \<and> sl_group ls \<noteq> [] \<and> field_of (rw_fields row) (tm_group_by t) \<noteq> sl_group ls)"

definition paint_leaf :: "tnode \<Rightarrow> slot \<Rightarrow> materialized \<Rightarrow> paint \<Rightarrow> paint" where
  "paint_leaf n s m p =
     (let el = element_for (tn_component n);
          q = emit (open_tag el n (sl_id s) (sl_kind s)) (put_slot (sl_id s) m p)
      in if sl_kind s = ''setValue'' then emit (close_tag el) q
         else emit (close_tag el) (emit (escape_text (mz_display m)) q))"

definition paint_cell :: "tnode \<Rightarrow> string \<Rightarrow> materialized \<Rightarrow> paint \<Rightarrow> paint" where
  "paint_cell c i m p =
     (let el = element_for (tn_component c);
          q = emit (''<'' @ fst el @ static_attrs el c @ attr_text ''data-slot'' i @ ''>'') (put_slot i m p)
      in emit (close_tag el) (emit (escape_text (mz_display m)) q))"

definition open_row :: "element \<Rightarrow> tnode \<Rightarrow> string \<Rightarrow> string" where
  "open_row el n key = ''<'' @ fst el @ static_attrs el n @ attr_text ''data-key'' key @ ''>''"

function (sequential)
  render_node :: "template \<Rightarrow> mask_ctx option \<Rightarrow> render_data \<Rightarrow> tnode \<Rightarrow> paint \<Rightarrow> paint option" and
  render_kids :: "template \<Rightarrow> mask_ctx option \<Rightarrow> render_data \<Rightarrow> tnode list \<Rightarrow> paint \<Rightarrow> paint option" and
  render_rows :: "template \<Rightarrow> mask_ctx option \<Rightarrow> string \<Rightarrow> slot \<Rightarrow> tnode \<Rightarrow> row_data list \<Rightarrow> paint \<Rightarrow> paint option" and
  render_row :: "template \<Rightarrow> mask_ctx option \<Rightarrow> string \<Rightarrow> row_data \<Rightarrow> tnode \<Rightarrow> paint \<Rightarrow> paint option" and
  render_cells :: "template \<Rightarrow> mask_ctx option \<Rightarrow> string \<Rightarrow> row_data \<Rightarrow> tnode list \<Rightarrow> paint \<Rightarrow> paint option"
where
  "render_node t mc d TNil p = Some p"
| "render_node t mc d (TNode c tx props ks sl li row) p =
     (let n = TNode c tx props ks sl li row; el = element_for c in
      if c = [] \<and> li < 0 then Some (emit (escape_text tx) p)
      else if 0 \<le> li then do {
        ls \<leftarrow> nth_i (tm_slots t) li;
        q \<leftarrow> render_rows t mc (rd_resource d) ls row (rd_rows d) (emit (open_tag el n (sl_id ls) ''spliceList'') p);
        Some (emit (close_tag el) q)
      }
      else if 0 \<le> sl then do {
        s \<leftarrow> nth_i (tm_slots t) sl;
        m \<leftarrow> eval_slot mc d s;
        Some (paint_leaf n s m p)
      }
      else do {
        q \<leftarrow> render_kids t mc d ks (emit (open_tag el n [] []) p);
        Some (emit (close_tag el) q)
      })"
| "render_kids t mc d [] p = Some p"
| "render_kids t mc d (k # ks) p = do { q \<leftarrow> render_node t mc d k p; render_kids t mc d ks q }"
| "render_rows t mc res ls row [] p = Some p"
| "render_rows t mc res ls row (rw # rws) p = do {
     q \<leftarrow> (if shown_in t ls rw then render_row t mc res rw row p else Some p);
     render_rows t mc res ls row rws q
   }"
| "render_row t mc res rw TNil p = Some p"
| "render_row t mc res rw (TNode c tx props ks sl li row) p =
     (let el = element_for c in do {
        q \<leftarrow> render_cells t mc res rw ks (emit (open_row el (TNode c tx props ks sl li row) (rw_key rw)) p);
        Some (emit (close_tag el) q)
      })"
| "render_cells t mc res rw [] p = Some p"
| "render_cells t mc res rw (c # cs) p = do {
     q \<leftarrow> (case c of
         TNil \<Rightarrow> None
       | TNode _ _ _ _ sl _ _ \<Rightarrow>
           if 0 \<le> sl then do {
             s \<leftarrow> nth_i (tm_slots t) sl;
             m \<leftarrow> eval_row_slot mc res rw s;
             Some (paint_cell c (row_slot_id (sl_id s) (rw_key rw)) m p)
           }
           else render_node t mc (bare_data res) c p);
     render_cells t mc res rw cs q
   }"
  by pat_completeness auto

termination
  by (relation "measures [\<lambda>x. case x of
        Inl (Inl (t, mc, d, n, p)) \<Rightarrow> 2 * size n
      | Inl (Inr (t, mc, d, ks, p)) \<Rightarrow> 2 * size_list size ks
      | Inr (Inl (t, mc, res, ls, row, rws, p)) \<Rightarrow> 2 * size row + 1
      | Inr (Inr (Inl (t, mc, res, rw, row, p))) \<Rightarrow> 2 * size row
      | Inr (Inr (Inr (t, mc, res, rw, cs, p))) \<Rightarrow> 2 * size_list size cs,
      \<lambda>x. case x of Inr (Inl (t, mc, res, ls, row, rws, p)) \<Rightarrow> length rws | _ \<Rightarrow> 0]") auto

definition render_first_paint :: "template \<Rightarrow> render_data \<Rightarrow> mask_ctx option \<Rightarrow> paint option" where
  "render_first_paint t d mc = render_node t mc d (tm_root t) ([], [])"

text \<open>The row subtree of the first keyed list, or of the one with a given slot id.\<close>

fun find_list_row :: "tnode \<Rightarrow> tnode" and find_list_rows :: "tnode list \<Rightarrow> tnode" where
  "find_list_row TNil = TNil"
| "find_list_row (TNode c tx props ks sl li row) = (if 0 \<le> li then row else find_list_rows ks)"
| "find_list_rows [] = TNil"
| "find_list_rows (k # ks) = (let r = find_list_row k in if r \<noteq> TNil then r else find_list_rows ks)"

fun find_list_row_by_id :: "template \<Rightarrow> string \<Rightarrow> tnode \<Rightarrow> tnode option"
  and find_list_rows_by_id :: "template \<Rightarrow> string \<Rightarrow> tnode list \<Rightarrow> tnode option" where
  "find_list_row_by_id t i TNil = Some TNil"
| "find_list_row_by_id t i (TNode c tx props ks sl li row) =
     (if 0 \<le> li then do {
        ls \<leftarrow> nth_i (tm_slots t) li;
        if sl_id ls = i then Some row else find_list_rows_by_id t i ks
      } else find_list_rows_by_id t i ks)"
| "find_list_rows_by_id t i [] = Some TNil"
| "find_list_rows_by_id t i (k # ks) = do {
     r \<leftarrow> find_list_row_by_id t i k;
     if r \<noteq> TNil then Some r else find_list_rows_by_id t i ks
   }"

definition render_row_of :: "template \<Rightarrow> string \<Rightarrow> row_data \<Rightarrow> mask_ctx option \<Rightarrow> paint option" where
  "render_row_of t res rw mc = render_row t mc res rw (find_list_row (tm_root t)) ([], [])"

definition render_row_for_list ::
  "template \<Rightarrow> string \<Rightarrow> string \<Rightarrow> row_data \<Rightarrow> mask_ctx option \<Rightarrow> paint option" where
  "render_row_for_list t i res rw mc = do {
     n \<leftarrow> find_list_row_by_id t i (tm_root t);
     render_row t mc res rw n ([], [])
   }"

subsection \<open>Diffs\<close>

definition base_id :: "string \<Rightarrow> string" where
  "base_id i = takeWhile (\<lambda>c. c \<noteq> CHR ''#'') i"

definition kind_for_id :: "template \<Rightarrow> string \<Rightarrow> byte" where
  "kind_for_id t i = (case slot_by_id t (base_id i) of
      None \<Rightarrow> op_set_text
    | Some s \<Rightarrow> if sl_kind s = ''setValue'' then op_set_value
        else if sl_kind s = ''setAttr'' then op_set_attr else op_set_text)"

definition attr_for_id :: "template \<Rightarrow> string \<Rightarrow> string" where
  "attr_for_id t i = (case slot_by_id t (base_id i) of None \<Rightarrow> [] | Some s \<Rightarrow> sl_attr s)"

type_synonym slot_state = "(string \<times> materialized) list"

definition diff_ids :: "slot_state \<Rightarrow> slot_state \<Rightarrow> string list" where
  "diff_ids lst nxt = sort (filter (\<lambda>i. map_of lst i \<noteq> None) (map fst nxt))"

definition diff_slot :: "template \<Rightarrow> slot_state \<Rightarrow> slot_state \<Rightarrow> string \<Rightarrow> patch_op list" where
  "diff_slot t lst nxt i = (case (map_of lst i, map_of nxt i) of
      (Some a, Some b) \<Rightarrow>
        if mz_snapshot a = mz_snapshot b then []
        else [\<lparr>po_slot = i, po_kind = kind_for_id t i, po_attr = attr_for_id t i,
               po_payload = mz_display b, po_splices = []\<rparr>]
    | _ \<Rightarrow> [])"

definition diff_view :: "template \<Rightarrow> slot_state \<Rightarrow> slot_state \<Rightarrow> patch_op list" where
  "diff_view t lst nxt = concat (map (diff_slot t lst nxt) (diff_ids lst nxt))"

type_synonym list_row = "string \<times> string"

text \<open>The index a Go map built by a loop holds for a key: the last one.\<close>

definition key_index :: "list_row list \<Rightarrow> string \<Rightarrow> nat option" where
  "key_index rows k = map_of (rev (zip (map fst rows) [0..<length rows])) k"

definition splice_for :: "list_row list \<Rightarrow> nat \<Rightarrow> list_row \<Rightarrow> splice list" where
  "splice_for lst i r = (case key_index lst (fst r) of
      None \<Rightarrow> [\<lparr>sp_kind = splice_add, sp_key = fst r, sp_index = of_nat i, sp_html = snd r\<rparr>]
    | Some j \<Rightarrow> if j \<noteq> i then [\<lparr>sp_kind = splice_move, sp_key = fst r, sp_index = of_nat i, sp_html = []\<rparr>] else [])"

definition removals :: "list_row list \<Rightarrow> list_row list \<Rightarrow> splice list" where
  "removals lst nxt = map (\<lambda>r. \<lparr>sp_kind = splice_remove, sp_key = fst r, sp_index = 0, sp_html = []\<rparr>)
     (filter (\<lambda>r. key_index nxt (fst r) = None) lst)"

definition placements :: "list_row list \<Rightarrow> list_row list \<Rightarrow> splice list" where
  "placements lst nxt = concat (map (\<lambda>(i, r). splice_for lst i r) (zip [0..<length nxt] nxt))"

definition diff_list :: "string \<Rightarrow> list_row list \<Rightarrow> list_row list \<Rightarrow> patch_op option" where
  "diff_list slot lst nxt =
     (let ss = removals lst nxt @ placements lst nxt in
      if ss = [] then None
      else Some \<lparr>po_slot = slot, po_kind = op_splice_list, po_attr = [], po_payload = [], po_splices = ss\<rparr>)"

end
