(* ===== verification/Ui_Laws.thy ===== *)
theory Ui_Laws
  imports Ui_View "HOL-Library.Multiset"
begin

section \<open>Laws of the view\<close>

text \<open>
  The incremental digest is the recomputed one; the renderer relates what related data give it (from
  which follow that plaintext stays out of the snapshot and that data cannot add markup); and what the
  client's row edits make of a list diff.
\<close>

subsection \<open>Digest edits\<close>

lemma full_digest_sum: "full_digest s = sum_list (map (\<lambda>(k, v). slot_term k v) s)"
proof -
  have "foldl (\<lambda>d (k, v). d + slot_term k v) d s = d + sum_list (map (\<lambda>(k, v). slot_term k v) s)" for d
    by (induction s arbitrary: d) (auto simp: add.assoc)
  then show ?thesis by (simp add: full_digest_def)
qed

lemma full_digest_Cons [simp]: "full_digest ((k, v) # s) = slot_term k v + full_digest s"
  by (simp add: full_digest_sum)

lemma full_digest_Nil [simp]: "full_digest [] = 0"
  by (simp add: full_digest_def)

text \<open>The order in which Go iterates over the map does not matter.\<close>

lemma full_digest_perm: "mset s = mset s' \<Longrightarrow> full_digest s = full_digest s'"
  unfolding full_digest_sum sum_mset_sum_list [symmetric] by simp

datatype edit = SetSlot string string | AddSlot string string | DropSlot string

definition edit_ok :: "(string \<times> string) list \<Rightarrow> edit \<Rightarrow> bool" where
  "edit_ok s e \<longleftrightarrow> (case e of
      SetSlot k v \<Rightarrow> map_of s k \<noteq> None
    | AddSlot k v \<Rightarrow> map_of s k = None
    | DropSlot k \<Rightarrow> map_of s k \<noteq> None)"

definition edit_snapshot :: "(string \<times> string) list \<Rightarrow> edit \<Rightarrow> (string \<times> string) list" where
  "edit_snapshot s e = (case e of
      SetSlot k v \<Rightarrow> AList.update k v s
    | AddSlot k v \<Rightarrow> AList.update k v s
    | DropSlot k \<Rightarrow> AList.delete k s)"

definition edit_digest :: "(string \<times> string) list \<Rightarrow> u64 \<Rightarrow> edit \<Rightarrow> u64" where
  "edit_digest s d e = (case e of
      SetSlot k v \<Rightarrow> digest_set d k (the (map_of s k)) v
    | AddSlot k v \<Rightarrow> digest_add d k v
    | DropSlot k \<Rightarrow> digest_remove d k (the (map_of s k)))"

fun run_edits :: "(string \<times> string) list \<Rightarrow> u64 \<Rightarrow> edit list \<Rightarrow> ((string \<times> string) list \<times> u64) option" where
  "run_edits s d [] = Some (s, d)"
| "run_edits s d (e # es) =
     (if edit_ok s e then run_edits (edit_snapshot s e) (edit_digest s d e) es else None)"

lemma digest_update:
  "map_of s k = Some old \<Longrightarrow> full_digest (AList.update k v s) = digest_set (full_digest s) k old v"
  by (induction s) (auto simp: digest_set_def algebra_simps)

lemma digest_insert: "map_of s k = None \<Longrightarrow> full_digest (AList.update k v s) = digest_add (full_digest s) k v"
  by (induction s) (auto simp: digest_add_def algebra_simps split: if_splits)

lemma digest_delete:
  "distinct (map fst s) \<Longrightarrow> map_of s k = Some old \<Longrightarrow>
     full_digest (AList.delete k s) = digest_remove (full_digest s) k old"
proof (induction s)
  case (Cons p s)
  have "k \<notin> fst ` set s \<Longrightarrow> AList.delete k s = s" by (simp add: AList.delete_eq filter_id_conv) force
  then show ?case using Cons by (cases p) (auto simp: digest_remove_def AList.delete_eq algebra_simps)
qed simp

lemma edit_digest_full:
  assumes "distinct (map fst s)" "edit_ok s e"
  shows "edit_digest s (full_digest s) e = full_digest (edit_snapshot s e)"
  using assms
  by (cases e) (auto simp: edit_ok_def edit_digest_def edit_snapshot_def digest_update digest_insert digest_delete)

lemma distinct_edit: "distinct (map fst s) \<Longrightarrow> distinct (map fst (edit_snapshot s e))"
  by (cases e) (simp_all add: edit_snapshot_def distinct_update distinct_delete)

lemma run_edits_full:
  "run_edits s (full_digest s) es = Some (s', d') \<Longrightarrow> distinct (map fst s) \<Longrightarrow> d' = full_digest s'"
proof (induction es arbitrary: s)
  case (Cons e es)
  then show ?case
    using edit_digest_full [of s e] distinct_edit [of s e] by (auto split: if_splits)
qed simp

subsection \<open>Related renderings\<close>

text \<open>
  Two renderings of one template: \<open>M\<close> relates the values of a slot, \<open>S\<close> the paint so far.  The client's
  lemma is that related data give related paints, or panic together.
\<close>

lemma bare_data_simps: "rd_resource (bare_data r) = r" "rd_rows (bare_data r) = []"
  by (simp_all add: bare_data_def)

definition cell_paint ::
  "template \<Rightarrow> mask_ctx option \<Rightarrow> string \<Rightarrow> row_data \<Rightarrow> tnode \<Rightarrow> paint \<Rightarrow> paint option" where
  "cell_paint t mc res rw c p = (case c of
      TNil \<Rightarrow> None
    | TNode _ _ _ _ sl _ _ \<Rightarrow>
        if 0 \<le> sl then do {
          s \<leftarrow> nth_i (tm_slots t) sl;
          m \<leftarrow> eval_row_slot mc res rw s;
          Some (paint_cell c (row_slot_id (sl_id s) (rw_key rw)) m p)
        }
        else render_node t mc (bare_data res) c p)"

locale paint_rel =
  fixes M :: "materialized \<Rightarrow> materialized \<Rightarrow> bool"
    and S :: "paint \<Rightarrow> paint \<Rightarrow> bool"
  assumes emit_S: "S p q \<Longrightarrow> S (emit s p) (emit s q)"
    and text_S: "M x y \<Longrightarrow> S p q \<Longrightarrow> S (emit (escape_text (mz_display x)) p) (emit (escape_text (mz_display y)) q)"
    and slot_S: "M x y \<Longrightarrow> S p q \<Longrightarrow> S (put_slot i x p) (put_slot i y q)"
begin

definition rows_agree :: "template \<Rightarrow> mask_ctx option \<Rightarrow> mask_ctx option \<Rightarrow> string \<Rightarrow> row_data \<Rightarrow> row_data \<Rightarrow> bool" where
  "rows_agree t mc mc' res a b \<longleftrightarrow> rw_key a = rw_key b \<and>
     field_of (rw_fields a) (tm_group_by t) = field_of (rw_fields b) (tm_group_by t) \<and>
     (\<forall>s \<in> set (tm_slots t). rel_option M (eval_row_slot mc res a s) (eval_row_slot mc' res b s))"

definition data_agree :: "template \<Rightarrow> mask_ctx option \<Rightarrow> mask_ctx option \<Rightarrow> render_data \<Rightarrow> render_data \<Rightarrow> bool" where
  "data_agree t mc mc' d e \<longleftrightarrow> rd_resource d = rd_resource e \<and>
     (\<forall>s \<in> set (tm_slots t). rel_option M (eval_slot mc d s) (eval_slot mc' e s)) \<and>
     (\<forall>s \<in> set (tm_slots t). rel_option M (eval_slot mc (bare_data (rd_resource d)) s)
        (eval_slot mc' (bare_data (rd_resource d)) s)) \<and>
     list_all2 (rows_agree t mc mc' (rd_resource d)) (rd_rows d) (rd_rows e)"

lemma bare_agree:
  "data_agree t mc mc' d e \<Longrightarrow> data_agree t mc mc' (bare_data (rd_resource d)) (bare_data (rd_resource d))"
  unfolding data_agree_def bare_data_simps by (elim conjE, intro conjI refl) (assumption | simp)+

lemma leaf_S: "M x y \<Longrightarrow> S p q \<Longrightarrow> S (paint_leaf n s x p) (paint_leaf n s y q)"
  by (simp add: paint_leaf_def Let_def emit_S text_S slot_S)

lemma cell_S: "M x y \<Longrightarrow> S p q \<Longrightarrow> S (paint_cell n i x p) (paint_cell n i y q)"
  by (simp add: paint_cell_def Let_def emit_S text_S slot_S)

lemma bind_S:
  "rel_option R x y \<Longrightarrow> (\<And>a b. R a b \<Longrightarrow> rel_option S (f a) (g b)) \<Longrightarrow>
     rel_option S (Option.bind x f) (Option.bind y g)"
  by (cases x; cases y) auto

lemma seq_S:
  "rel_option S x y \<Longrightarrow> (\<And>a b. x = Some a \<Longrightarrow> S a b \<Longrightarrow> rel_option S (f a) (g b)) \<Longrightarrow>
     rel_option S (Option.bind x f) (Option.bind y g)"
  by (cases x; cases y) auto

lemma close_S: "rel_option S x y \<Longrightarrow> rel_option S (x \<bind> (\<lambda>q. Some (emit s q))) (y \<bind> (\<lambda>q. Some (emit s q)))"
  by (erule seq_S) (simp add: emit_S)

lemma nth_i_set: "nth_i xs i = Some x \<Longrightarrow> x \<in> set xs"
  by (auto simp: nth_i_def nth_go_def split: if_splits)

lemma same_slot_S:
  "(\<And>s. s \<in> set (tm_slots t) \<Longrightarrow> rel_option S (f s) (g s)) \<Longrightarrow>
     rel_option S (Option.bind (nth_i (tm_slots t) i) f) (Option.bind (nth_i (tm_slots t) i) g)"
  by (cases "nth_i (tm_slots t) i") (auto dest: nth_i_set)

lemma shown_agree: "rows_agree t mc mc' res a b \<Longrightarrow> shown_in t ls a = shown_in t ls b"
  by (simp add: rows_agree_def shown_in_def)

lemma render_related:
  "data_agree t mc mc' d e \<Longrightarrow> S p q \<Longrightarrow> rel_option S (render_node t mc d n p) (render_node t mc' e n q)"
  "data_agree t mc mc' d e \<Longrightarrow> S p q \<Longrightarrow> rel_option S (render_kids t mc d ks p) (render_kids t mc' e ks q)"
  "data_agree t mc mc' (bare_data res) (bare_data res) \<Longrightarrow> list_all2 (rows_agree t mc mc' res) rws rws' \<Longrightarrow> S p q \<Longrightarrow>
     rel_option S (render_rows t mc res ls row rws p) (render_rows t mc' res ls row rws' q)"
  "data_agree t mc mc' (bare_data res) (bare_data res) \<Longrightarrow> rows_agree t mc mc' res rw rw' \<Longrightarrow> S p q \<Longrightarrow>
     rel_option S (render_row t mc res rw row p) (render_row t mc' res rw' row q)"
  "data_agree t mc mc' (bare_data res) (bare_data res) \<Longrightarrow> rows_agree t mc mc' res rw rw' \<Longrightarrow> S p q \<Longrightarrow>
     rel_option S (render_cells t mc res rw cs p) (render_cells t mc' res rw' cs q)"
proof (induction t mc d n p and t mc d ks p and t mc res ls row rws p and t mc res rw row p and t mc res rw cs p
    arbitrary: e q and e q and rws' q and rw' q and rw' q
    rule: render_node_render_kids_render_rows_render_row_render_cells.induct)
  case (2 t mc d c tx props ks sl li row p)
  let ?n = "TNode c tx props ks sl li row"
  note agree = "2.prems"(1)
  have res: "rd_resource d = rd_resource e" and rows: "list_all2 (rows_agree t mc mc' (rd_resource d)) (rd_rows d) (rd_rows e)"
    and vals: "\<And>s. s \<in> set (tm_slots t) \<Longrightarrow> rel_option M (eval_slot mc d s) (eval_slot mc' e s)"
    using agree by (auto simp: data_agree_def)
  consider "c = [] \<and> li < 0" | "\<not> (c = [] \<and> li < 0)" "0 \<le> li" | "\<not> (c = [] \<and> li < 0)" "\<not> 0 \<le> li" "0 \<le> sl"
    | "\<not> (c = [] \<and> li < 0)" "\<not> 0 \<le> li" "\<not> 0 \<le> sl" by blast
  then show ?case
  proof cases
    case 1
    then show ?thesis using "2.prems"(2) by (simp add: emit_S)
  next
    case 2
    show ?thesis
    proof (cases "nth_i (tm_slots t) li")
      case (Some ls)
      have "rel_option S
          (render_rows t mc (rd_resource d) ls row (rd_rows d) (emit (open_tag (element_for c) ?n (sl_id ls) ''spliceList'') p))
          (render_rows t mc' (rd_resource d) ls row (rd_rows e) (emit (open_tag (element_for c) ?n (sl_id ls) ''spliceList'') q))"
        using "2.IH"(1) [OF refl refl 2 Some bare_agree [OF agree] rows] "2.prems"(2) by (simp add: emit_S)
      then show ?thesis using 2 Some res by (auto simp: Let_def intro!: bind_S [of S] emit_S)
    qed (use 2 in simp)
  next
    case 3
    then show ?thesis using vals "2.prems"(2)
      by (auto simp: Let_def intro!: same_slot_S bind_S [of M] leaf_S)
  next
    case 4
    have "rel_option S (render_kids t mc d ks (emit (open_tag (element_for c) ?n [] []) p))
        (render_kids t mc' e ks (emit (open_tag (element_for c) ?n [] []) q))"
      by (rule "2.IH"(2) [OF refl refl 4 agree emit_S [OF "2.prems"(2)]])
    then show ?thesis using 4 by (auto simp: Let_def intro!: bind_S [of S] emit_S)
  qed
next
  case (4 t mc d k ks p)
  show ?case unfolding render_kids.simps
    by (rule seq_S [OF "4.IH"(1) [OF "4.prems"]]) (rule "4.IH"(2) [OF _ "4.prems"(1)])
next
  case (6 t mc res ls row rw rws p)
  then obtain b bs where b: "rws' = b # bs" "rows_agree t mc mc' res rw b" "list_all2 (rows_agree t mc mc' res) rws bs"
    by (auto simp: list_all2_Cons1)
  have "rel_option S (if shown_in t ls rw then render_row t mc res rw row p else Some p)
      (if shown_in t ls b then render_row t mc' res b row q else Some q)"
    using "6.IH"(1) [OF _ "6.prems"(1) b(2) "6.prems"(3)] shown_agree [OF b(2)] "6.prems"(3) by auto
  then show ?case unfolding b(1) render_rows.simps
    by (rule seq_S) (rule "6.IH"(2) [OF _ "6.prems"(1) b(3)])
next
  case (8 t mc res rw c tx props ks sl li row p)
  have "rw_key rw = rw_key rw'" using "8.prems"(2) by (simp add: rows_agree_def)
  then show ?case unfolding render_row.simps Let_def
    using "8.IH" [OF refl "8.prems"(1,2) emit_S [OF "8.prems"(3)]] by (simp add: close_S)
next
  case (10 t mc res rw c cs p)
  show ?case
  proof (cases c)
    case (TNode x1 x2 x3 x4 sl x6 x7)
    have vals: "\<And>s. s \<in> set (tm_slots t) \<Longrightarrow> rel_option M (eval_row_slot mc res rw s) (eval_row_slot mc' res rw' s)"
      and key: "rw_key rw = rw_key rw'"
      using "10.prems"(2) by (auto simp: rows_agree_def)
    have "rel_option S (cell_paint t mc res rw c p) (cell_paint t mc' res rw' c q)"
    proof (cases "0 \<le> sl")
      case True
      then show ?thesis using TNode vals key "10.prems"(3)
        by (auto simp: cell_paint_def intro!: same_slot_S bind_S [of M] cell_S)
    next
      case False
      then show ?thesis using TNode "10.IH"(1) [OF TNode _ "10.prems"(1,3)] by (simp add: cell_paint_def)
    qed
    then show ?thesis unfolding render_cells.simps cell_paint_def [symmetric]
      by (rule seq_S) (rule "10.IH"(2) [folded cell_paint_def, OF _ "10.prems"(1,2)])
  qed simp
qed simp_all

end


subsection \<open>What the snapshot holds and what data can add\<close>

text \<open>Two mask contexts that grant the same reveals under the same ids, whatever the plaintexts.\<close>

definition same_grants :: "mask_ctx option \<Rightarrow> mask_ctx option \<Rightarrow> bool" where
  "same_grants mc mc' \<longleftrightarrow> (\<forall>r s f. map_option snd (revealed mc r s f) = map_option snd (revealed mc' r s f))"

definition snapshots :: "paint \<Rightarrow> (string \<times> string) list" where
  "snapshots p = map (\<lambda>(i, m). (i, mz_snapshot m)) (snd p)"

lemma snapshots_update:
  "map (\<lambda>(i, m). (i, mz_snapshot m)) (AList.update i x st) = AList.update i (mz_snapshot x) (map (\<lambda>(i, m). (i, mz_snapshot m)) st)"
  by (induction st) auto

interpretation snap: paint_rel "\<lambda>x y. mz_snapshot x = mz_snapshot y" "\<lambda>p q. snapshots p = snapshots q"
  by unfold_locales (simp_all add: snapshots_def emit_def put_slot_def snapshots_update)

text \<open>The angle brackets of a text, in order.\<close>

definition brackets :: "string \<Rightarrow> string" where
  "brackets s = filter (\<lambda>c. c = CHR ''<'' \<or> c = CHR ''>'') s"

lemma brackets_append [simp]: "brackets (s @ t) = brackets s @ brackets t"
  by (simp add: brackets_def)

lemma escape_text_brackets [simp]: "brackets (escape_text s) = []"
  by (induction s) (simp_all add: brackets_def escape_text_def esc_char_def)

interpretation markup: paint_rel "\<lambda>_ _. True" "\<lambda>p q. brackets (fst p) = brackets (fst q)"
  by unfold_locales (simp_all add: emit_def put_slot_def)

lemma mask_snapshot:
  "same_grants mc mc' \<Longrightarrow> rel_option (\<lambda>x y. mz_snapshot x = mz_snapshot y)
     (materialize_mask mc r s f) (materialize_mask mc' r s f)"
proof -
  assume "same_grants mc mc'"
  then have "map_option snd (revealed mc r s f) = map_option snd (revealed mc' r s f)"
    by (simp add: same_grants_def)
  then show ?thesis
    by (cases "mask_token r s f"; cases "revealed mc r s f"; cases "revealed mc' r s f")
       (auto simp: materialize_mask_def)
qed

lemma snap_agree: "same_grants mc mc' \<Longrightarrow> snap.data_agree t mc mc' d d"
  using mask_snapshot
  by (auto simp: snap.data_agree_def snap.rows_agree_def eval_slot_def eval_row_slot_def list.rel_refl)

text \<open>Two views with the same rows, shown in the same columns.\<close>

definition same_rows :: "template \<Rightarrow> render_data \<Rightarrow> render_data \<Rightarrow> bool" where
  "same_rows t d e \<longleftrightarrow> rd_resource d = rd_resource e \<and> rd_subject d = rd_subject e \<and>
     list_all2 (\<lambda>a b. rw_key a = rw_key b \<and> rw_subject a = rw_subject b \<and>
       field_of (rw_fields a) (tm_group_by t) = field_of (rw_fields b) (tm_group_by t)) (rd_rows d) (rd_rows e)"

lemma mask_defined: "rel_option (\<lambda>_ _. True) (materialize_mask mc r s f) (materialize_mask mc' r s f)"
  by (cases "mask_token r s f") (simp_all add: materialize_mask_def)

lemma markup_agree:
  assumes "same_rows t d e"
  shows "markup.data_agree t mc mc' d e"
proof -
  have row: "markup.rows_agree t mc mc' res a b"
    if "rw_key a = rw_key b \<and> rw_subject a = rw_subject b \<and>
       field_of (rw_fields a) (tm_group_by t) = field_of (rw_fields b) (tm_group_by t)" for res a b
    using that mask_defined by (auto simp: markup.rows_agree_def eval_row_slot_def)
  then show ?thesis using assms mask_defined
    by (auto simp: markup.data_agree_def same_rows_def eval_slot_def bare_data_def elim: list_all2_mono)
qed

subsection \<open>Slot diffs\<close>

lemma diff_slot_slots: "map po_slot (diff_slot t lst nxt i) = (if diff_slot t lst nxt i = [] then [] else [i])"
  by (auto simp: diff_slot_def split: option.splits)

lemma diff_slot_op: "op \<in> set (diff_slot t lst nxt i) \<Longrightarrow> po_slot op = i"
  by (auto simp: diff_slot_def split: option.splits if_splits)

lemma sorted_distinct_sub:
  assumes "\<And>i. g i = [] \<or> g i = [i]"
  shows "sorted is \<Longrightarrow> distinct is \<Longrightarrow> sorted (concat (map g is)) \<and> distinct (concat (map g is)) \<and>
     set (concat (map g is)) \<subseteq> set is"
proof (induction "is")
  case (Cons i js)
  define c where "c = concat (map g js)"
  have c: "sorted c" "distinct c" "set c \<subseteq> set js" and j: "\<forall>x \<in> set js. i \<le> x" "i \<notin> set js"
    using Cons unfolding c_def by simp_all
  then have "\<forall>x \<in> set c. i \<le> x" "i \<notin> set c" by blast+
  with c have "sorted (i # c)" "distinct (i # c)" "set (i # c) \<subseteq> set (i # js)" "set c \<subseteq> set (i # js)" by auto
  with c show ?case using assms [of i] unfolding list.map concat.simps c_def [symmetric] by auto
qed simp

lemma diff_view_slots:
  assumes "distinct (map fst nxt)"
  shows "sorted (map po_slot (diff_view t lst nxt)) \<and> distinct (map po_slot (diff_view t lst nxt))"
proof -
  have "sorted (diff_ids lst nxt)" "distinct (diff_ids lst nxt)"
    using assms by (simp_all add: diff_ids_def)
  moreover have "map po_slot (diff_view t lst nxt) = concat (map (\<lambda>i. map po_slot (diff_slot t lst nxt i)) (diff_ids lst nxt))"
    by (simp add: diff_view_def map_concat comp_def)
  ultimately show ?thesis
    using sorted_distinct_sub [of "\<lambda>i. map po_slot (diff_slot t lst nxt i)" "diff_ids lst nxt"] diff_slot_slots
    by fastforce
qed

lemma diff_view_ops:
  assumes "distinct (map fst nxt)"
  shows "(\<exists>op \<in> set (diff_view t lst nxt). po_slot op = i \<and> po_payload op = v) \<longleftrightarrow>
     (\<exists>a b. map_of lst i = Some a \<and> map_of nxt i = Some b \<and> mz_snapshot a \<noteq> mz_snapshot b \<and> mz_display b = v)"
    (is "?L \<longleftrightarrow> ?R")
proof -
  have "?L \<longleftrightarrow> i \<in> set (diff_ids lst nxt) \<and> (\<exists>op \<in> set (diff_slot t lst nxt i). po_payload op = v)"
    unfolding diff_view_def using diff_slot_op by fastforce
  also have "i \<in> set (diff_ids lst nxt) \<longleftrightarrow> map_of lst i \<noteq> None \<and> map_of nxt i \<noteq> None"
    by (simp only: diff_ids_def set_sort set_filter map_of_eq_None_iff set_map) blast
  finally show ?thesis
    by (cases "map_of lst i"; cases "map_of nxt i") (auto simp: diff_slot_def)
qed

end
