(* ===== verification/Ui_Splices.thy ===== *)
theory Ui_Splices
  imports Ui_Laws
begin

section \<open>List diffs at the client\<close>

text \<open>
  \<open>DiffList\<close> sends keyed row edits, and the client script carries them out on the children of the list
  element one after the other (\<open>applySplice\<close>, \<open>internal/kernel/clientasset.go\<close>).  A row is its key and
  its markup; \<open>insertBefore\<close> on a child that is already in the list moves it before the reference
  child, which is looked up first.
\<close>

subsection \<open>The client\<close>

definition insert_at :: "nat \<Rightarrow> 'a \<Rightarrow> 'a list \<Rightarrow> 'a list" where
  "insert_at n x xs = take n xs @ x # drop n xs"

fun key_pos :: "string \<Rightarrow> list_row list \<Rightarrow> nat option" where
  "key_pos k [] = None"
| "key_pos k (r # rs) = (if fst r = k then Some 0 else map_option Suc (key_pos k rs))"

definition drop_at :: "nat \<Rightarrow> 'a list \<Rightarrow> 'a list" where
  "drop_at n xs = take n xs @ drop (Suc n) xs"

text \<open>\<open>list.insertBefore(existing, list.children[index] || null)\<close> for the child at position \<open>i\<close>.\<close>

definition dom_move :: "nat \<Rightarrow> nat \<Rightarrow> 'a list \<Rightarrow> 'a list" where
  "dom_move i ix xs =
     (if ix = i then xs
      else insert_at (if i < ix then ix - 1 else ix) (xs ! i) (drop_at i xs))"

definition client_splice :: "list_row list \<Rightarrow> splice \<Rightarrow> list_row list" where
  "client_splice rows s =
     (let ix = unat (sp_index s) in
      if sp_kind s = splice_remove then
        (case key_pos (sp_key s) rows of None \<Rightarrow> rows | Some i \<Rightarrow> drop_at i rows)
      else if sp_kind s = splice_add then insert_at ix (sp_key s, sp_html s) rows
      else if sp_kind s = splice_move then
        (case key_pos (sp_key s) rows of None \<Rightarrow> rows | Some i \<Rightarrow> dom_move i (min ix (length rows)) rows)
      else rows)"

definition client_apply :: "list_row list \<Rightarrow> splice list \<Rightarrow> list_row list" where
  "client_apply rows ss = foldl client_splice rows ss"

text \<open>What the client shows after the diff from \<open>lst\<close> to \<open>nxt\<close> has reached it.\<close>

definition client_update :: "list_row list \<Rightarrow> list_row list \<Rightarrow> list_row list" where
  "client_update lst nxt = client_apply lst (removals lst nxt @ placements lst nxt)"

subsection \<open>Positions\<close>

lemma key_pos_None: "key_pos k rows = None \<longleftrightarrow> k \<notin> fst ` set rows"
  by (induction rows) auto

lemma key_pos_Some: "key_pos k rows = Some i \<Longrightarrow> i < length rows \<and> fst (rows ! i) = k"
  by (induction rows arbitrary: i) (auto split: if_splits)

lemma key_pos_at: "fst r \<notin> fst ` set xs \<Longrightarrow> key_pos (fst r) (xs @ r # ys) = Some (length xs)"
  by (induction xs) auto

lemma key_pos_nth: "distinct (map fst rows) \<Longrightarrow> i < length rows \<Longrightarrow> key_pos (fst (rows ! i)) rows = Some i"
proof (induction rows arbitrary: i)
  case (Cons r rs)
  then show ?case by (cases i) (auto simp: nth_mem image_iff)
qed simp

lemma key_index_distinct:
  assumes "distinct (map fst rows)"
  shows "key_index rows k = key_pos k rows"
proof (cases "k \<in> fst ` set rows")
  case True
  then obtain i where i: "i < length rows" "fst (rows ! i) = k"
    by (auto simp: in_set_conv_nth)
  let ?ps = "zip (map fst rows) [0..<length rows]"
  have "distinct (map fst ?ps)" using assms by simp
  then have "map_of (rev ?ps) = map_of ?ps"
    by (subst map_of_inject_set) (simp_all flip: rev_map)
  moreover have "map_of ?ps k = Some i"
    using i assms by (auto simp: map_of_zip_nth [of "map fst rows" "[0..<length rows]" i, simplified])
  ultimately show ?thesis using key_pos_nth [OF assms i(1)] i(2) by (simp add: key_index_def)
next
  case False
  then have "map_of (rev (zip (map fst rows) [0..<length rows])) k = None"
    by (auto simp: map_of_eq_None_iff dest: set_zip_leftD)
  then show ?thesis using False key_pos_None [of k rows] by (simp add: key_index_def)
qed

lemma key_index_None: "distinct (map fst rows) \<Longrightarrow> key_index rows k = None \<longleftrightarrow> k \<notin> fst ` set rows"
  by (simp add: key_index_distinct key_pos_None)

lemma drop_at_filter:
  "distinct (map fst rows) \<Longrightarrow> key_pos k rows = Some i \<Longrightarrow> drop_at i rows = filter (\<lambda>r. fst r \<noteq> k) rows"
proof (induction rows arbitrary: i)
  case (Cons r rs)
  show ?case
  proof (cases "fst r = k")
    case True
    then have "k \<notin> fst ` set rs" using Cons.prems(1) by auto
    then have "\<forall>x \<in> set rs. fst x \<noteq> k" by (metis image_eqI)
    then show ?thesis using True Cons.prems by (simp add: drop_at_def filter_id_conv)
  next
    case False
    then obtain j where "i = Suc j" "key_pos k rs = Some j" using Cons.prems(2) by auto
    then show ?thesis using Cons False by (simp add: drop_at_def)
  qed
qed simp

subsection \<open>Removals\<close>

lemma client_remove:
  assumes "distinct (map fst rows)"
  shows "client_splice rows \<lparr>sp_kind = splice_remove, sp_key = k, sp_index = 0, sp_html = []\<rparr>
       = filter (\<lambda>r. fst r \<noteq> k) rows"
proof (cases "key_pos k rows")
  case None
  then have "\<forall>r \<in> set rows. fst r \<noteq> k" by (metis image_eqI key_pos_None)
  then show ?thesis using None by (simp add: client_splice_def filter_id_conv)
next
  case (Some i)
  then show ?thesis using assms by (simp add: client_splice_def drop_at_filter)
qed

lemma client_removals:
  assumes "distinct (map fst rows)"
  shows "foldl client_splice rows (map (\<lambda>r. \<lparr>sp_kind = splice_remove, sp_key = fst r, sp_index = 0, sp_html = []\<rparr>) rs)
     = filter (\<lambda>r. fst r \<notin> fst ` set rs) rows"
  using assms
proof (induction rs arbitrary: rows)
  case (Cons x xs)
  have "distinct (map fst (filter (\<lambda>r. fst r \<noteq> fst x) rows))"
    using Cons.prems by (rule distinct_map_filter)
  from Cons.IH [OF this] show ?case using Cons.prems
    by (simp add: client_remove conj_commute)
qed (simp add: filter_id_conv)

lemma after_removals:
  assumes "distinct (map fst lst)" "distinct (map fst nxt)"
  shows "client_apply lst (removals lst nxt) = filter (\<lambda>r. fst r \<in> fst ` set nxt) lst"
proof -
  let ?gone = "filter (\<lambda>r. key_index nxt (fst r) = None) lst"
  have "fst ` set ?gone = fst ` set lst - fst ` set nxt"
    unfolding key_index_None [OF assms(2)] by auto
  then have "fst r \<notin> fst ` set ?gone \<longleftrightarrow> fst r \<in> fst ` set nxt" if "r \<in> set lst" for r
    using that by simp
  then show ?thesis
    unfolding client_apply_def removals_def client_removals [OF assms(1)] by (intro filter_cong refl)
qed

subsection \<open>Placements\<close>

lemma insert_at_append [simp]: "insert_at (length xs) x (xs @ ys) = xs @ x # ys"
  by (simp add: insert_at_def)

lemma keys_insert_at: "map fst (insert_at n x xs) = insert_at n (fst x) (map fst xs)"
  by (simp add: insert_at_def take_map drop_map)

lemma mset_insert_at [simp]: "mset (insert_at n x xs) = add_mset x (mset xs)"
  by (simp add: insert_at_def union_code [symmetric]) (metis append_take_drop_id mset_append)

lemma mset_drop_at: "i < length xs \<Longrightarrow> add_mset (xs ! i) (mset (drop_at i xs)) = mset xs"
  unfolding drop_at_def by (metis id_take_nth_drop mset.simps(2) mset_append union_mset_add_mset_right)

lemma mset_dom_move: "i < length xs \<Longrightarrow> mset (dom_move i ix xs) = mset xs"
  by (simp add: dom_move_def mset_drop_at)

text \<open>One placement adds the row if its key is new and otherwise permutes.\<close>

lemma mset_placement:
  assumes "distinct (map fst lst)"
  shows "mset (map fst (foldl client_splice rows (splice_for lst i r))) =
     (if fst r \<in> fst ` set lst then mset (map fst rows) else add_mset (fst r) (mset (map fst rows)))"
proof (cases "key_index lst (fst r)")
  case None
  then have "fst r \<notin> fst ` set lst" using key_index_None [OF assms, of "fst r"] by simp
  then show ?thesis using None
    by (simp add: splice_for_def client_splice_def splice_kinds keys_insert_at)
next
  case (Some j)
  then have "fst r \<in> fst ` set lst" using key_index_None [OF assms, of "fst r"] by auto
  moreover have "mset (map fst (dom_move k ix rows)) = mset (map fst rows)" if "key_pos (fst r) rows = Some k" for k ix
    using mset_dom_move [of k rows ix] key_pos_Some [OF that] by simp
  ultimately show ?thesis using Some
    by (auto simp: splice_for_def client_splice_def splice_kinds Let_def split: option.splits)
qed

lemma mset_placements:
  assumes "distinct (map fst lst)"
  shows "mset (map fst (foldl client_splice rows (concat (map (\<lambda>(i, r). splice_for lst i r) irs)))) =
     mset (map fst rows) + filter_mset (\<lambda>k. k \<notin> fst ` set lst) (mset (map (fst \<circ> snd) irs))"
proof (induction irs arbitrary: rows)
  case (Cons ir irs)
  then show ?case using mset_placement [OF assms, of rows "fst ir" "snd ir"] by (cases ir) simp
qed simp

subsection \<open>The whole update\<close>

lemma client_update_split:
  "client_update lst nxt = foldl client_splice (client_apply lst (removals lst nxt)) (placements lst nxt)"
  by (simp add: client_update_def client_apply_def)

lemma zip_keys: "map (fst \<circ> snd) (zip [0..<length nxt] nxt) = map fst nxt"
  by (simp flip: map_map)

lemma image_filter_keys: "fst ` {r \<in> set lst. fst r \<in> N} = N \<inter> fst ` set lst"
  by (induction lst) (auto simp: image_iff)

lemma client_update_keys:
  assumes d: "distinct (map fst lst)" "distinct (map fst nxt)"
  shows "mset (map fst (client_update lst nxt)) = mset (map fst nxt)"
proof -
  let ?L = "fst ` set lst" and ?N = "fst ` set nxt"
  have kept: "mset (map fst (filter (\<lambda>r. fst r \<in> ?N) lst)) = mset (filter (\<lambda>k. k \<in> ?L) (map fst nxt))"
  proof (subst set_eq_iff_mset_eq_distinct [symmetric])
    show "distinct (map fst (filter (\<lambda>r. fst r \<in> ?N) lst))" using d(1) by (rule distinct_map_filter)
    show "distinct (filter (\<lambda>k. k \<in> ?L) (map fst nxt))" using d(2) by simp
    show "set (map fst (filter (\<lambda>r. fst r \<in> ?N) lst)) = set (filter (\<lambda>k. k \<in> ?L) (map fst nxt))"
      using image_filter_keys [of lst ?N] by auto
  qed
  have "mset (map fst (client_update lst nxt)) =
      mset (filter (\<lambda>k. k \<in> ?L) (map fst nxt)) + filter_mset (\<lambda>k. k \<notin> ?L) (mset (map fst nxt))"
    unfolding client_update_split after_removals [OF d] placements_def mset_placements [OF d(1)] zip_keys kept ..
  then show ?thesis by (simp only: mset_filter) (metis multiset_partition)
qed

lemma key_pos_keys: "map fst rows = ks @ k # ks' \<Longrightarrow> k \<notin> set ks \<Longrightarrow> key_pos k rows = Some (length ks)"
proof (induction ks arbitrary: rows)
  case Nil
  then show ?case by (cases rows) auto
next
  case (Cons x ks)
  then show ?case by (cases rows) auto
qed

lemma client_in_order:
  assumes "distinct (map fst lst)" "distinct (map fst (done @ todo))" "length (done @ todo) < 2 ^ 64"
    and "map fst rows = map fst done @ filter (\<lambda>k. k \<in> fst ` set lst) (map fst todo)"
  shows "map fst (foldl client_splice rows (concat (map (\<lambda>(i, r). splice_for lst i r)
     (zip [length done..<length (done @ todo)] todo)))) = map fst (done @ todo)"
  using assms(2-4)
proof (induction todo arbitrary: "done" rows)
  case (Cons r todo)
  let ?n = "length done"
  have ix: "unat (word_of_nat ?n :: i64) = ?n"
    using Cons.prems(2) by (simp add: unat_of_nat)
  have "map fst (foldl client_splice rows (splice_for lst ?n r)) =
      map fst (done @ [r]) @ filter (\<lambda>k. k \<in> fst ` set lst) (map fst todo)"
  proof (cases "key_index lst (fst r)")
    case None
    then have new: "fst r \<notin> fst ` set lst" using key_index_None [OF assms(1), of "fst r"] by simp
    have "map fst (insert_at ?n r rows) = insert_at (length (map fst done)) (fst r)
        (map fst done @ filter (\<lambda>k. k \<in> fst ` set lst) (map fst todo))"
      using Cons.prems(3) new by (simp add: keys_insert_at)
    then show ?thesis using None ix
      by (simp only: insert_at_append) (simp add: splice_for_def client_splice_def splice_kinds)
  next
    case (Some j)
    then have old: "fst r \<in> fst ` set lst" using key_index_None [OF assms(1), of "fst r"] by auto
    then have keys: "map fst rows = map fst done @ fst r # filter (\<lambda>k. k \<in> fst ` set lst) (map fst todo)"
      using Cons.prems(3) by simp
    moreover have "fst r \<notin> set (map fst done)" using Cons.prems(1) by auto
    ultimately have p: "key_pos (fst r) rows = Some ?n"
      using key_pos_keys [of rows "map fst done" "fst r"] by simp
    have "dom_move ?n (min ?n (length rows)) rows = rows"
      using key_pos_Some [OF p] by (simp add: dom_move_def)
    then show ?thesis using Some keys p ix
      by (simp add: splice_for_def client_splice_def splice_kinds)
  qed
  moreover have "[?n..<length (done @ r # todo)] = ?n # [length (done @ [r])..<length ((done @ [r]) @ todo)]"
    by (simp add: upt_conv_Cons del: upt_Suc)
  ultimately show ?case
    using Cons.IH [of "done @ [r]" "foldl client_splice rows (splice_for lst ?n r)"] Cons.prems(1,2)
    by (simp del: upt_Suc)
qed simp

lemma client_update_in_order:
  assumes d: "distinct (map fst lst)" "distinct (map fst nxt)" and len: "length nxt < 2 ^ 64"
    and order: "filter (\<lambda>k. k \<in> fst ` set nxt) (map fst lst) = filter (\<lambda>k. k \<in> fst ` set lst) (map fst nxt)"
  shows "map fst (client_update lst nxt) = map fst nxt"
proof -
  have "map fst (filter (\<lambda>r. fst r \<in> fst ` set nxt) lst) = filter (\<lambda>k. k \<in> fst ` set lst) (map fst nxt)"
    using order by (simp add: filter_map comp_def)
  then show ?thesis
    using client_in_order [OF d(1), of "[]" nxt] d(2) len
    by (simp add: client_update_split after_removals [OF d] placements_def)
qed

end
