(* ===== verification/Ui_Theorems.thy ===== *)
theory Ui_Theorems
  imports Ui_Splices
begin

section \<open>Properties of the reactive layer\<close>

text \<open>
  What \<open>internal/ui\<close> promises its sessions: frames survive the wire, the digest is the view's, masked
  plaintext stays out of the snapshot, data adds no markup, and diffs reproduce the next view; and where
  the code falls short of its comments.
\<close>

subsection \<open>Frames\<close>

text \<open>C22: every well-formed patch frame that fits a Go slice is read back from its encoding.\<close>

theorem frame_roundtrip:
  assumes "frame_wf f"
  shows "decode_frame (encode_frame f) = Some (Inr f)"
  using assms by (rule decode_encode_frame)

definition sample_frame :: patch_frame where
  "sample_frame = \<lparr>pf_seq = 7, pf_hash = 9, pf_ops = [\<lparr>po_slot = ''a'', po_kind = op_splice_list, po_attr = [],
     po_payload = [], po_splices = [\<lparr>sp_kind = splice_add, sp_key = ''k'', sp_index = 0, sp_html = ''<li>''\<rparr>]\<rparr>]\<rparr>"

lemma frame_roundtrip_witness: "decode_frame (encode_frame sample_frame) = Some (Inr sample_frame)"
proof (rule frame_roundtrip)
  show "frame_wf sample_frame" by code_simp
qed

text \<open>The decoder panics on a frame whose slot id announces a length of \<open>2^63\<close>: the length is
  converted to a negative \<open>int\<close>, passes the bounds check, and the slice expression fails.  The comment on
  \<open>DecodeFrame\<close> says that it never panics on hostile input.\<close>

theorem decoder_panics_on_huge_length:
  "decode_frame ([codec_version] @ replicate 16 0 @ [1, 1] @ replicate 9 0x80 @ [1]) = None"
  by code_simp

subsection \<open>The digest\<close>

text \<open>C23: a digest maintained slot by slot through any sequence of edits equals the digest recomputed
  over the resulting snapshot, in whatever order the map is iterated.\<close>

theorem digest_incremental:
  assumes "distinct (map fst s)" "run_edits s (full_digest s) es = Some (s', d')" "mset s'' = mset s'"
  shows "d' = full_digest s''"
  using run_edits_full [OF assms(2,1)] full_digest_perm [OF assms(3)] by simp

lemma digest_incremental_witness:
  "digest_set (full_digest [(''a'', ''1''), (''b'', ''2'')]) ''a'' ''1'' ''3'' = full_digest [(''b'', ''2''), (''a'', ''3'')]"
proof -
  have "run_edits [(''a'', ''1''), (''b'', ''2'')] (full_digest [(''a'', ''1''), (''b'', ''2'')]) [SetSlot ''a'' ''3''] =
      Some ([(''a'', ''3''), (''b'', ''2'')], digest_set (full_digest [(''a'', ''1''), (''b'', ''2'')]) ''a'' ''1'' ''3'')"
    by (simp add: edit_ok_def edit_snapshot_def edit_digest_def)
  from digest_incremental [OF _ this, of "[(''b'', ''2''), (''a'', ''3'')]"] show ?thesis by simp
qed

subsection \<open>Masking and escaping\<close>

text \<open>C24: plaintext never enters the snapshot: two renderings under the same grants have the same slot
  snapshots whatever the revealed values are, or panic together.\<close>

theorem snapshot_hides_plaintext:
  assumes "same_grants mc mc'"
  shows "rel_option (\<lambda>p q. snapshots p = snapshots q) (render_first_paint t d mc) (render_first_paint t d mc')"
  unfolding render_first_paint_def
  using snap.render_related(1) [OF snap_agree [OF assms]] by simp

definition sample_slot :: slot where
  "sample_slot = \<lparr>sl_id = ''d.ssn'', sl_kind = ''setText'', sl_path = [], sl_field = ''ssn'', sl_leaf = ''text'',
     sl_attr = [], sl_masked = True, sl_mask_leaf = ''text'', sl_reads = [], sl_group = []\<rparr>"

definition sample_template :: template where
  "sample_template = \<lparr>tm_version = 1, tm_def_hash = [], tm_kind = ''detail'', tm_resource = ''acct'', tm_mount = ''d'',
     tm_root = leaf_node ''text'' 0, tm_slots = [sample_slot], tm_group_by = []\<rparr>"

definition sample_mask :: "string \<Rightarrow> mask_ctx option" where
  "sample_mask v = Some \<lparr>mx_principal = ''p'', mx_reveal = Some (\<lambda>_ _ _. Some (v, ''g1''))\<rparr>"

lemma snapshot_hides_plaintext_witness:
  "rel_option (\<lambda>p q. snapshots p = snapshots q)
     (render_first_paint sample_template (bare_data ''acct'') (sample_mask ''123''))
     (render_first_paint sample_template (bare_data ''acct'') (sample_mask ''999''))"
  by (rule snapshot_hides_plaintext) (simp add: same_grants_def sample_mask_def revealed_def)

text \<open>Data cannot add markup: the sequence of angle brackets of a first paint depends only on the
  template and on the keys and columns of the rows, not on any field value, plaintext or token.\<close>

theorem data_adds_no_markup:
  assumes "same_rows t d e"
  shows "rel_option (\<lambda>p q. brackets (fst p) = brackets (fst q))
     (render_first_paint t d mc) (render_first_paint t e mc')"
  unfolding render_first_paint_def
  using markup.render_related(1) [OF markup_agree [OF assms]] by simp

lemma data_adds_no_markup_witness:
  "rel_option (\<lambda>p q. brackets (fst p) = brackets (fst q))
     (render_first_paint sample_template (bare_data ''acct'') (sample_mask ''<script>''))
     (render_first_paint sample_template (bare_data ''acct'') None)"
  by (rule data_adds_no_markup) (simp add: same_rows_def bare_data_def)

text \<open>The first paint of an interactive leaf carries no value: the markup of a \<open>setValue\<close> slot is the
  same for all values, though the comment says that the value rides an attribute.\<close>

theorem input_value_not_painted:
  assumes "sl_kind s = ''setValue''"
  shows "fst (paint_leaf n s m p) = fst (paint_leaf n s m' p)"
  using assms by (simp add: paint_leaf_def Let_def emit_def put_slot_def)

lemma input_value_not_painted_witness:
  "fst (paint_leaf (leaf_node ''field'' 0) (sample_slot\<lparr>sl_kind := ''setValue''\<rparr>) (plain ''a'') ([], [])) =
   fst (paint_leaf (leaf_node ''field'' 0) (sample_slot\<lparr>sl_kind := ''setValue''\<rparr>) (plain ''b'') ([], []))"
  by (rule input_value_not_painted) simp

subsection \<open>Diffs\<close>

text \<open>The slot diff is minimal and complete: it has one operation for each slot both snapshots hold
  whose snapshot value changed, in ascending order of the slot ids, carrying the new display value.\<close>

theorem diff_view_exact:
  assumes "distinct (map fst nxt)"
  shows "sorted (map po_slot (diff_view t lst nxt)) \<and> distinct (map po_slot (diff_view t lst nxt)) \<and>
     (\<forall>i v. (\<exists>op \<in> set (diff_view t lst nxt). po_slot op = i \<and> po_payload op = v) \<longleftrightarrow>
        (\<exists>a b. map_of lst i = Some a \<and> map_of nxt i = Some b \<and> mz_snapshot a \<noteq> mz_snapshot b \<and> mz_display b = v))"
  using diff_view_slots [OF assms] diff_view_ops [OF assms] by blast

lemma diff_view_exact_witness:
  "map po_slot (diff_view sample_template [(''a'', plain ''1''), (''b'', plain ''2'')] [(''a'', plain ''1''), (''b'', plain ''3'')]) = [''b'']"
proof -
  have "distinct (map fst [(''a'', plain ''1''), (''b'', plain ''3'')])" by simp
  from diff_view_exact [OF this, of sample_template "[(''a'', plain ''1''), (''b'', plain ''2'')]"]
  show ?thesis by (simp add: diff_view_def diff_ids_def diff_slot_def plain_def)
qed



text \<open>Reordered rows can end up in the wrong order: reversing three rows leaves the client with
  \<open>c, a, b\<close>.  The middle row is sent no move because its index is unchanged, and the digest does not cover
  the order of rows, so no resync follows.\<close>

theorem list_diff_reorder_wrong:
  "map fst (client_update [(''a'', []), (''b'', []), (''c'', [])] [(''c'', []), (''b'', []), (''a'', [])])
     = [''c'', ''a'', ''b'']"
  by code_simp

end
