(* ===== verification/Ui_Eval.thy ===== *)
theory Ui_Eval
  imports Ui_View Cek_Bounds
begin

section \<open>Slot expressions of hand-authored components\<close>

text \<open>
  \<open>internal/ui/evalexpr.go\<close>: the small evaluator for the binding expressions of a hand-authored component,
  over the same values and heap as the machine.  It is compared with the machine itself: where it
  gives a value, the machine gives the same one, as long as arrays are indexed by integral numbers.
\<close>

subsection \<open>The evaluator\<close>

fun eval_expr :: "golib \<Rightarrow> heap \<Rightarrow> node \<Rightarrow> val \<Rightarrow> val option" where
  "eval_expr gl H (Node k s u mag ks) props = (case k of
      KLocal \<Rightarrow> if u = 0 then Some props else None
    | KMember \<Rightarrow> (case ks of
          [] \<Rightarrow> None
        | a # _ \<Rightarrow> (case eval_expr gl H a props of
              Some (VRec r) \<Rightarrow> Option.bind (get_rec H r) (\<lambda>(keys, m). m s)
            | _ \<Rightarrow> None))
    | KIndex \<Rightarrow> (case ks of
          a # b # _ \<Rightarrow> (case eval_expr gl H a props of
              None \<Rightarrow> None
            | Some ob \<Rightarrow> (case eval_expr gl H b props of
                  None \<Rightarrow> None
                | Some ix \<Rightarrow> (case (ob, ix) of
                      (VRec r, VStr key) \<Rightarrow> Option.bind (get_rec H r) (\<lambda>(keys, m). m key)
                    | (VArr r, VF64 x) \<Rightarrow> Option.bind (get_arr H r) (\<lambda>es.
                        let i = sint (f2i gl x) in
                        if 0 \<le> i \<and> i < int (length es) then Some (es ! nat i) else None)
                    | _ \<Rightarrow> None)))
        | _ \<Rightarrow> None)
    | KStr \<Rightarrow> Some (VStr s)
    | KNum \<Rightarrow> Some (VF64 u)
    | KBool \<Rightarrow> Some (bool_val (u \<noteq> 0))
    | _ \<Rightarrow> None)"

text \<open>\<open>FormatFloat(x, 'g', -1, 64)\<close> with its special values.\<close>

definition float_g :: "f64 \<Rightarrow> string" where
  "float_g x = (if is_nan x then ''NaN'' else if is_inf x then (if f_neg x then ''-Inf'' else ''+Inf'') else format_g x)"

definition value_text :: "val \<Rightarrow> string" where
  "value_text v = (case v of
      VStr s \<Rightarrow> s
    | VF64 x \<Rightarrow> float_g x
    | VBool n \<Rightarrow> if \<not> feq n 0 then ''true'' else ''false''
    | VBig z \<Rightarrow> int_str z
    | _ \<Rightarrow> [])"

definition eval_slot_expr ::
  "golib \<Rightarrow> heap \<Rightarrow> slot \<Rightarrow> node option \<Rightarrow> val \<Rightarrow> string \<Rightarrow> string \<Rightarrow> mask_ctx option \<Rightarrow> materialized option" where
  "eval_slot_expr gl H s expr props resource subject mc =
     (if sl_masked s then
        materialize_mask mc resource subject (if sl_field s = [] then sl_leaf s else sl_field s)
      else Some (case Option.bind expr (\<lambda>n. eval_expr gl H n props) of
          None \<Rightarrow> plain []
        | Some v \<Rightarrow> plain (value_text v)))"

subsection \<open>Agreement with the machine\<close>








lemma nth_i_0 [simp]: "nth_i (a # r) 0 = Some a"
  by (simp add: nth_i_def nth_go_def)

lemma nth_i_1 [simp]: "nth_i (a # b # r) 1 = Some b"
  by (simp add: nth_i_def nth_go_def)










subsection \<open>Properties\<close>


definition sample_props :: heap where
  "sample_props = \<lparr>h_objs = [HEnv None [VRec 1], HRec [''name''] [''name'' \<mapsto> VStr ''ada''], HArr [VStr ''x'', VStr ''y'']], h_next = 0\<rparr>"



text \<open>With a fractional index the two differ: \<open>props[0.5]\<close> is the first element for the slot evaluator,
  which truncates the index, and undefined for the machine, although the comment promises the machine's own
  value.\<close>

theorem slot_fraction_index_differs:
  "eval_expr golib_amd64 sample_props (Node KIndex [] 0 [] [local_ref 0, Node KNum [] 0x3FE0000000000000 [] []]) (VArr 2)
     = Some (VStr ''x'') \<and>
   get_index golib_amd64 sample_props (VArr 2) (VF64 0x3FE0000000000000) = Some VUndef"
  by code_simp

end
