(* ===== verification/Cek_Walk.thy ===== *)
theory Cek_Walk
  imports Cek_Machine
begin

section \<open>The objects and values of a snapshot\<close>

text \<open>
  The two traversals of a parked state: \<open>WalkValues\<close> (\<open>internal/cek/walk.go\<close>), which visits the
  values the store revalidates, and the interning pass of the snapshot encoder
  (\<open>internal/cfr/codec.go\<close>).  Both are recursive descents that enter every heap object once; the
  recursion stack is the list of items still to visit.  They differ in the order in which the
  fields of an environment are entered, so the traversal takes that order as an argument, and what
  holds for every order is proved once, in the locale \<open>field_order\<close>.
\<close>

subsection \<open>Items\<close>

datatype item = IVal val | IEnv "addr option"

text \<open>The heap object an item leads to.\<close>

fun target :: "item \<Rightarrow> addr option" where
  "target (IVal (VArr a)) = Some a"
| "target (IVal (VRec a)) = Some a"
| "target (IVal (VClo _ _ _ e)) = e"
| "target (IVal _) = None"
| "target (IEnv e) = e"

text \<open>Go's map read \<open>r.M[k]\<close> of an absent key is the zero \<open>Value\<close>, which is undefined.\<close>

definition field_val :: "(string \<Rightarrow> val option) \<Rightarrow> string \<Rightarrow> val" where
  "field_val m k = (case m k of None \<Rightarrow> VUndef | Some v \<Rightarrow> v)"

fun intern_fields :: "obj \<Rightarrow> item list" where
  "intern_fields (HEnv p vs) = IEnv p # map IVal vs"
| "intern_fields (HArr vs) = map IVal vs"
| "intern_fields (HRec ks m) = map (\<lambda>k. IVal (field_val m k)) ks"

fun walk_fields :: "obj \<Rightarrow> item list" where
  "walk_fields (HEnv p vs) = map IVal vs @ [IEnv p]"
| "walk_fields (HArr vs) = map IVal vs"
| "walk_fields (HRec ks m) = map (\<lambda>k. IVal (field_val m k)) ks"

text \<open>The fields of a frame and of a state, in the order both traversals take them.  The code's
  continuation slice has the innermost frame last.\<close>

definition frame_items :: "frame \<Rightarrow> item list" where
  "frame_items f = [IEnv (f_env f), IEnv (f_outer f), IEnv (f_retenv f)] @ map IVal (f_vals f) @
     [IVal (f_obj f), IVal (f_idxval f)] @
     (case f_pend f of None \<Rightarrow> [] | Some (k, v) \<Rightarrow> [IVal v])"

definition state_items :: "state \<Rightarrow> item list" where
  "state_items st = [IVal (s_val st), IVal (snd (s_sig st)), IEnv (s_env st)] @
     concat (map frame_items (rev (s_kont st)))"

subsection \<open>The traversal\<close>

definition collect :: "item \<Rightarrow> val list \<Rightarrow> val list" where
  "collect it out = (case it of IVal v \<Rightarrow> out @ [v] | IEnv _ \<Rightarrow> out)"

text \<open>\<open>seen\<close> holds the objects entered so far, in order; \<open>out\<close> the values met.\<close>

function traverse :: "(obj \<Rightarrow> item list) \<Rightarrow> obj list \<Rightarrow> addr list \<Rightarrow> val list \<Rightarrow> item list
    \<Rightarrow> addr list \<times> val list" where
  "traverse fs obs seen out [] = (seen, out)"
| "traverse fs obs seen out (it # w) =
     (case target it of
        None \<Rightarrow> traverse fs obs seen (collect it out) w
      | Some a \<Rightarrow>
          if a \<in> set seen \<or> length obs \<le> a then traverse fs obs seen (collect it out) w
          else traverse fs obs (seen @ [a]) (collect it out) (fs (obs ! a) @ w))"
  by pat_completeness auto

lemma some_unseen: "a \<notin> seen \<Longrightarrow> a < (n::nat) \<Longrightarrow> 0 < card ({..<n} - seen)"
  by (auto simp: card_gt_0_iff)

termination traverse
  by (relation "measures [\<lambda>(fs, obs, seen, out, w). card ({..<length obs} - set seen),
      \<lambda>(fs, obs, seen, out, w). length w]") (auto dest: some_unseen simp: not_le)

text \<open>The induction the proofs use: an item is skipped, or leads into an object not entered yet.\<close>

abbreviation fresh :: "obj list \<Rightarrow> addr list \<Rightarrow> addr \<Rightarrow> bool" where
  "fresh obs seen a \<equiv> a \<notin> set seen \<and> a < length obs"

lemma traverse_skip [simp]:
  "(\<And>a. target it = Some a \<Longrightarrow> \<not> fresh obs seen a) \<Longrightarrow>
     traverse fs obs seen out (it # w) = traverse fs obs seen (collect it out) w"
  by (auto split: option.splits simp: not_less)

lemma traverse_enter [simp]:
  "target it = Some a \<Longrightarrow> fresh obs seen a \<Longrightarrow>
     traverse fs obs seen out (it # w) = traverse fs obs (seen @ [a]) (collect it out) (fs (obs ! a) @ w)"
  by auto

declare traverse.simps(2) [simp del]

lemma traverse_induct [case_names stop skip enter]:
  assumes d: "\<And>seen out. P seen out []"
    and s: "\<And>seen out it w. (\<And>a. target it = Some a \<Longrightarrow> \<not> fresh obs seen a) \<Longrightarrow>
      P seen (collect it out) w \<Longrightarrow> P seen out (it # w)"
    and e: "\<And>seen out it w a. target it = Some a \<Longrightarrow> fresh obs seen a \<Longrightarrow>
      P (seen @ [a]) (collect it out) (fs (obs ! a) @ w) \<Longrightarrow> P seen out (it # w)"
  shows "P seen out w"
proof -
  have "fs' = fs \<Longrightarrow> obs' = obs \<Longrightarrow> P seen out w" for fs' obs'
  proof (induction fs' obs' seen out w rule: traverse.induct)
    case (2 fs' obs' seen out it w)
    show ?case
    proof (cases "\<exists>a. target it = Some a \<and> fresh obs seen a")
      case True
      with 2 show ?thesis by (auto intro: e)
    next
      case False
      then show ?thesis using 2 by (cases "target it") (auto intro!: s)
    qed
  qed (rule d)
  then show ?thesis by simp
qed

definition walk_values :: "state \<Rightarrow> val list" where
  "walk_values st = snd (traverse walk_fields (h_objs (s_heap st)) [] [] (state_items st))"

definition cap_token :: "val \<Rightarrow> string option" where
  "cap_token v = (case v of VCap g \<Rightarrow> Some g | _ \<Rightarrow> None)"

subsection \<open>Reachability\<close>

inductive reach :: "obj list \<Rightarrow> item set \<Rightarrow> item \<Rightarrow> bool" for obs roots where
  root: "it \<in> roots \<Longrightarrow> reach obs roots it"
| field: "reach obs roots it \<Longrightarrow> target it = Some a \<Longrightarrow> a < length obs \<Longrightarrow>
    k \<in> set (intern_fields (obs ! a)) \<Longrightarrow> reach obs roots k"

lemma reach_mono: "reach obs A it \<Longrightarrow> A \<subseteq> B \<Longrightarrow> reach obs B it"
  by (induction rule: reach.induct) (auto intro: reach.intros)

lemma reach_trans: "reach obs A it \<Longrightarrow> (\<And>x. x \<in> A \<Longrightarrow> reach obs B x) \<Longrightarrow> reach obs B it"
  by (induction rule: reach.induct) (auto intro: reach.intros)

text \<open>
  During the traversal every field of an entered object is either done with (its own target is
  entered) or still on the list.
\<close>

definition entered :: "obj list \<Rightarrow> addr list \<Rightarrow> item \<Rightarrow> bool" where
  "entered obs seen it \<longleftrightarrow> (\<forall>a. target it = Some a \<longrightarrow> a < length obs \<longrightarrow> a \<in> set seen)"

definition met :: "val list \<Rightarrow> item \<Rightarrow> bool" where
  "met out it \<longleftrightarrow> (case it of IVal v \<Rightarrow> v \<in> set out | IEnv _ \<Rightarrow> True)"

definition settled :: "obj list \<Rightarrow> item set \<Rightarrow> addr list \<Rightarrow> val list \<Rightarrow> item list \<Rightarrow> bool" where
  "settled obs R seen out w \<longleftrightarrow> (\<forall>k. k \<in> R \<or> (\<exists>a\<in>set seen. k \<in> set (intern_fields (obs ! a))) \<longrightarrow>
     k \<in> set w \<or> entered obs seen k \<and> met out k)"

lemma set_collect: "set (collect it out) = set out \<union> (case it of IVal v \<Rightarrow> {v} | IEnv _ \<Rightarrow> {})"
  by (cases it) (auto simp: collect_def)

lemma met_collect: "met (collect it out) it" "met out k \<Longrightarrow> met (collect it out) k"
  by (auto simp: met_def set_collect split: item.splits)

lemma entered_more: "entered obs seen k \<Longrightarrow> entered obs (seen @ ys) k"
  by (auto simp: entered_def)

lemma settledD:
  "settled obs R seen out w \<Longrightarrow> k \<in> R \<or> (\<exists>a\<in>set seen. k \<in> set (intern_fields (obs ! a))) \<Longrightarrow>
     k \<in> set w \<or> entered obs seen k \<and> met out k"
  unfolding settled_def by blast

lemma settled_skip:
  assumes "settled obs R seen out (it # w)" "entered obs seen it"
  shows "settled obs R seen (collect it out) w"
  unfolding settled_def using settledD [OF assms(1)] assms(2) met_collect by fastforce

lemma settled_reach:
  assumes "settled obs R seen out []" "reach obs R k"
  shows "entered obs seen k \<and> met out k"
  using assms(2)
proof (induction rule: reach.induct)
  case (root it)
  with settledD [OF assms(1)] show ?case by auto
next
  case (field it a k)
  then have "a \<in> set seen" by (auto simp: entered_def)
  with field settledD [OF assms(1), of k] show ?case by auto
qed

text \<open>Nothing is met or entered that is not reachable.\<close>

definition only_reached :: "obj list \<Rightarrow> item set \<Rightarrow> addr list \<Rightarrow> val list \<Rightarrow> item list \<Rightarrow> bool" where
  "only_reached obs R seen out w \<longleftrightarrow> (\<forall>k\<in>set w. reach obs R k) \<and> (\<forall>v\<in>set out. reach obs R (IVal v)) \<and>
     (\<forall>a\<in>set seen. a < length obs \<and> (\<exists>k. reach obs R k \<and> target k = Some a))"

lemma only_reached_skip:
  "only_reached obs R seen out (it # w) \<Longrightarrow> only_reached obs R seen (collect it out) w"
  by (cases it) (auto simp: only_reached_def set_collect)

locale field_order =
  fixes fs :: "obj \<Rightarrow> item list"
  assumes same_fields: "set (fs ob) = set (intern_fields ob)"
begin

lemma settled_enter:
  assumes s: "settled obs R seen out (it # w)" and t: "target it = Some a"
  shows "settled obs R (seen @ [a]) (collect it out) (fs (obs ! a) @ w)"
  unfolding settled_def
proof (intro allI impI)
  fix k assume k: "k \<in> R \<or> (\<exists>b\<in>set (seen @ [a]). k \<in> set (intern_fields (obs ! b)))"
  show "k \<in> set (fs (obs ! a) @ w) \<or> entered obs (seen @ [a]) k \<and> met (collect it out) k"
  proof (cases "k \<in> set (intern_fields (obs ! a))")
    case False
    with k have "k \<in> R \<or> (\<exists>b\<in>set seen. k \<in> set (intern_fields (obs ! b)))" by auto
    from settledD [OF s this] consider "k = it" | "k \<in> set w" | "entered obs seen k" "met out k"
      by auto
    then show ?thesis
      by cases (use t in \<open>auto simp: entered_def met_collect entered_more\<close>)
  qed (simp add: same_fields)
qed

lemma traverse_settled:
  "settled obs R seen out w \<Longrightarrow>
     settled obs R (fst (traverse fs obs seen out w)) (snd (traverse fs obs seen out w)) []"
proof (induction seen out w rule: traverse_induct [where obs = obs and fs = fs])
  case (skip seen out it w)
  then have "entered obs seen it" by (auto simp: entered_def)
  with skip settled_skip show ?case by simp
next
  case (enter seen out it w a)
  with settled_enter show ?case by simp
qed simp

lemma only_reached_enter:
  assumes o: "only_reached obs R seen out (it # w)" and t: "target it = Some a" "a < length obs"
  shows "only_reached obs R (seen @ [a]) (collect it out) (fs (obs ! a) @ w)"
proof -
  have it: "reach obs R it" using o by (simp add: only_reached_def)
  with t have "reach obs R k" if "k \<in> set (fs (obs ! a))" for k
    using that by (auto simp: same_fields intro: reach.field)
  moreover note only_reached_skip [OF o]
  ultimately show ?thesis using it t by (auto simp: only_reached_def)
qed

lemma traverse_only:
  "only_reached obs R seen out w \<Longrightarrow>
     only_reached obs R (fst (traverse fs obs seen out w)) (snd (traverse fs obs seen out w)) []"
proof (induction seen out w rule: traverse_induct [where obs = obs and fs = fs])
  case (skip seen out it w)
  with only_reached_skip show ?case by simp
next
  case (enter seen out it w a)
  with only_reached_enter show ?case by simp
qed simp

lemma seen_distinct: "distinct seen \<Longrightarrow> distinct (fst (traverse fs obs seen out w))"
  by (induction seen out w rule: traverse_induct [where obs = obs and fs = fs]) auto

text \<open>From the empty start: exactly the reachable objects are entered and the reachable values met.\<close>

lemma start_settled: "settled obs (set w) [] [] w"
  by (simp add: settled_def)

lemma start_only: "only_reached obs (set w) [] [] w"
  by (auto simp: only_reached_def intro: reach.root)

lemma traverse_values: "set (snd (traverse fs obs [] [] w)) = {v. reach obs (set w) (IVal v)}"
proof (intro equalityI subsetI CollectI)
  fix v assume "v \<in> {v. reach obs (set w) (IVal v)}"
  with settled_reach [OF traverse_settled [OF start_settled]]
  show "v \<in> set (snd (traverse fs obs [] [] w))" by (fastforce simp: met_def)
qed (use traverse_only [OF start_only] in \<open>auto simp: only_reached_def\<close>)

lemma traverse_objects:
  "a \<in> set (fst (traverse fs obs [] [] w)) \<longleftrightarrow>
     a < length obs \<and> (\<exists>k. reach obs (set w) k \<and> target k = Some a)"
proof
  assume "a < length obs \<and> (\<exists>k. reach obs (set w) k \<and> target k = Some a)"
  with settled_reach [OF traverse_settled [OF start_settled]]
  show "a \<in> set (fst (traverse fs obs [] [] w))" by (fastforce simp: entered_def)
qed (use traverse_only [OF start_only] in \<open>auto simp: only_reached_def\<close>)

end

interpretation intern_order: field_order intern_fields
  by unfold_locales simp

interpretation walk_order: field_order walk_fields
proof
  show "set (walk_fields ob) = set (intern_fields ob)" for ob by (cases ob) auto
qed

lemma walk_values_reach:
  "set (walk_values st) = {v. reach (h_objs (s_heap st)) (set (state_items st)) (IVal v)}"
  by (simp add: walk_values_def walk_order.traverse_values)

end
