(* ===== verification/Cfr_Codec.thy ===== *)
theory Cfr_Codec
  imports Cek_Walk Cek_Run
begin

section \<open>The frozen form of a machine state\<close>

text \<open>
  \<open>internal/cfr/codec.go\<close> and \<open>decode.go\<close>: a parked state as one self-describing byte string.
  The writer interns every reachable heap object (pass 1, \<open>interned\<close>) and writes the object table,
  the registers and the frames, with a reference to an object as its index plus one.  The reader
  allocates one shell per entry of the table and then fills them.  In the model the shells are the
  addresses \<open>0, 1, \<dots>\<close> of a fresh heap; what the reader knows of a shell before it is filled is
  its type tag, so a reader takes the list of tags.  Closures and opaque handles are written in
  line; each one read is a new object, and its identity here is its offset in the blob.

  A reader of a blob of \<open>bl\<close> bytes takes the unread rest.  Every failure is an error value: no
  branch of the decoder can panic, so the \<open>recover\<close> around it has nothing to catch.
\<close>

definition format_version :: byte where
  "format_version = 1"

definition obj_tag :: "obj \<Rightarrow> byte" where
  "obj_tag ob = (case ob of HEnv _ _ \<Rightarrow> 1 | HArr _ \<Rightarrow> 2 | HRec _ _ \<Rightarrow> 3)"

subsection \<open>The closed enumerations\<close>

definition frame_kinds :: "frame_kind list" where
  "frame_kinds = [FrRet, FrBlock, FrVarDecl, FrExprStmt, FrIf, FrBin, FrLogic, FrUnary, FrUpdate,
     FrCond, FrCall, FrMember, FrIndex, FrArray, FrObject, FrReturn, FrThrow, FrCatch, FrFinally,
     FrFor, FrForOf, FrWhile, FrDoWhile, FrSwitch, FrAssign, FrAwait, FrTemplate, FrTypeof,
     FrMemberAssign, FrFinallyRun]"

definition modes :: "mode list" where "modes = [ModeEval, ModeApply, ModeUnwind]"
definition sig_kinds :: "sig_kind list" where "sig_kinds = [SigThrow, SigBreak, SigContinue, SigReturn]"
definition park_kinds :: "park_kind list" where
  "park_kinds = [ParkFuel, ParkGovernor, ParkSignal, ParkWake, ParkFresh]"
definition tiers :: "tier list" where "tiers = [TierSandbox, TierTrusted]"

text \<open>The position of an element; the value of an \<open>iota\<close> constant is its position.\<close>

fun index_in :: "'a list \<Rightarrow> 'a \<Rightarrow> nat option" where
  "index_in [] a = None"
| "index_in (x # xs) a = (if x = a then Some 0 else map_option Suc (index_in xs a))"

definition pos_in :: "'a list \<Rightarrow> 'a \<Rightarrow> nat" where
  "pos_in xs a = (case index_in xs a of None \<Rightarrow> 0 | Some i \<Rightarrow> i)"

definition enum_code :: "'a list \<Rightarrow> 'a \<Rightarrow> byte" where
  "enum_code xs x = of_nat (pos_in xs x)"

lemma index_in_Some: "index_in xs a = Some i \<Longrightarrow> i < length xs \<and> xs ! i = a"
  by (induction xs arbitrary: i) (auto split: if_splits)

lemma index_in_None [simp]: "index_in xs a = None \<longleftrightarrow> a \<notin> set xs"
  by (induction xs) auto

lemma index_in_mem: "a \<in> set xs \<Longrightarrow> index_in xs a = Some (pos_in xs a)"
  by (cases "index_in xs a") (auto simp: pos_in_def)

lemma pos_in_mem: "a \<in> set xs \<Longrightarrow> pos_in xs a < length xs \<and> xs ! pos_in xs a = a"
  by (auto dest: index_in_mem index_in_Some)

lemma pos_in_nth: "distinct xs \<Longrightarrow> i < length xs \<Longrightarrow> pos_in xs (xs ! i) = i"
  by (meson distinct_nth_inj nth_mem pos_in_mem)

subsection \<open>Pass 1: interning\<close>

definition interned :: "obj list \<Rightarrow> item list \<Rightarrow> addr list" where
  "interned obs items = fst (traverse intern_fields obs [] [] items)"

subsection \<open>Pass 2: writing\<close>

definition enc_ref :: "addr list \<Rightarrow> addr \<Rightarrow> bytes" where
  "enc_ref tab a = put_uvarint (case index_in tab a of None \<Rightarrow> 0 | Some i \<Rightarrow> int i + 1)"

definition enc_env :: "addr list \<Rightarrow> addr option \<Rightarrow> bytes" where
  "enc_env tab e = (case e of None \<Rightarrow> put_uvarint 0 | Some a \<Rightarrow> enc_ref tab a)"

definition enc_path :: "path \<Rightarrow> bytes" where
  "enc_path p = put_uvarint (int (length p)) @ put_many (\<lambda>x. put_uvarint (uint x)) p"

fun enc_val_body :: "addr list \<Rightarrow> val \<Rightarrow> bytes" where
  "enc_val_body tab (VBool n) = [if bool_of n then 1 else 0]"
| "enc_val_body tab (VF64 n) = put_be64 n"
| "enc_val_body tab (VStr s) = put_str s"
| "enc_val_body tab (VCap s) = put_str s"
| "enc_val_body tab (VBig z) = [if z < 0 then 1 else 0] @ put_bytes (big_bytes \<bar>z\<bar>)"
| "enc_val_body tab (VArr a) = enc_ref tab a"
| "enc_val_body tab (VRec a) = enc_ref tab a"
| "enc_val_body tab (VClo _ d p e) = put_str d @ enc_path p @ enc_env tab e"
| "enc_val_body tab (VOpq _ c d) = put_str c @ put_bytes d"
| "enc_val_body tab _ = []"

definition enc_val :: "addr list \<Rightarrow> val \<Rightarrow> bytes" where
  "enc_val tab v = [tag_of v] @ enc_val_body tab v"

definition enc_count :: "'a list \<Rightarrow> bytes" where
  "enc_count xs = put_uvarint (int (length xs))"

fun enc_obj :: "addr list \<Rightarrow> obj \<Rightarrow> bytes" where
  "enc_obj tab (HEnv p vs) = enc_env tab p @ enc_count vs @ put_many (enc_val tab) vs"
| "enc_obj tab (HArr vs) = enc_count vs @ put_many (enc_val tab) vs"
| "enc_obj tab (HRec ks m) =
     enc_count ks @ put_many (\<lambda>k. put_str k @ enc_val tab (field_val m k)) ks"

definition enc_heap :: "obj list \<Rightarrow> addr list \<Rightarrow> bytes" where
  "enc_heap obs tab = enc_count tab @ map (\<lambda>a. obj_tag (obs ! a)) tab @
     put_many (\<lambda>a. enc_obj tab (obs ! a)) tab"

definition enc_pend :: "addr list \<Rightarrow> signal option \<Rightarrow> bytes" where
  "enc_pend tab s = (case s of None \<Rightarrow> [0] | Some (k, v) \<Rightarrow> [1, enum_code sig_kinds k] @ enc_val tab v)"

definition enc_frame :: "addr list \<Rightarrow> frame \<Rightarrow> bytes" where
  "enc_frame tab f = [enum_code frame_kinds (f_kind f)] @ enc_path (f_path f) @
     put_svarint (f_idx f) @ put_svarint (f_aux f) @ enc_count (f_vals f) @
     put_many (enc_val tab) (f_vals f) @ enc_env tab (f_env f) @ enc_env tab (f_outer f) @
     put_str (f_retdef f) @ enc_path (f_retpath f) @ enc_env tab (f_retenv f) @
     enc_val tab (f_obj f) @ put_str (f_key f) @ enc_val tab (f_idxval f) @ enc_pend tab (f_pend f)"

definition enc_registers :: "addr list \<Rightarrow> state \<Rightarrow> bytes" where
  "enc_registers tab st = put_str (s_def st) @ enc_path (s_path st) @
     [enum_code modes (s_mode st), enum_code park_kinds (s_park st), enum_code tiers (s_tier st)] @
     put_svarint (sint (s_fuel_steps st)) @ put_svarint (sint (s_fuel_alloc st)) @
     enc_val tab (s_val st) @ [enum_code sig_kinds (fst (s_sig st))] @ enc_val tab (snd (s_sig st)) @
     enc_env tab (s_env st)"

definition encode_state :: "state \<Rightarrow> bytes" where
  "encode_state st =
     (let obs = h_objs (s_heap st); tab = interned obs (state_items st)
      in [format_version] @ enc_heap obs tab @ enc_registers tab st @
         enc_count (s_kont st) @ put_many (enc_frame tab) (rev (s_kont st)))"

definition encode_value :: "obj list \<Rightarrow> val \<Rightarrow> bytes" where
  "encode_value obs v =
     (let tab = interned obs [IVal v] in [format_version] @ enc_heap obs tab @ enc_val tab v)"


subsection \<open>Reading\<close>

datatype cfr_error =
    TruncByte | TruncUvarint | TruncVarint | TruncF64 | TruncBytes int | TruncPath int |
    PathIndex int | BadFormat byte | BadMode byte | BadPark byte | BadTier byte | BadSignal byte |
    BadPending byte | BadFrameKind byte | BadTag byte | BadObjType byte | BadRef int | NotEnv |
    NotArray | NotRecord | TooManyObjects int | TooManySlots | TooManyElems | TooManyKeys |
    TooManyFrames int | TooManyVals | Trailing nat

type_synonym 'a cfr_read = "cfr_error + 'a \<times> bytes"

definition cf_ok :: "'a \<Rightarrow> bytes \<Rightarrow> 'a cfr_read" where
  "cf_ok x r = Inr (x, r)"

definition cf_err :: "cfr_error \<Rightarrow> 'a cfr_read" where
  "cf_err e = Inl e"

definition cf_then :: "'a cfr_read \<Rightarrow> ('a \<Rightarrow> bytes \<Rightarrow> 'b cfr_read) \<Rightarrow> 'b cfr_read" where
  "cf_then x f = (case x of Inl e \<Rightarrow> cf_err e | Inr (a, r) \<Rightarrow> f a r)"

lemma cf_then_simps [simp]: "cf_then (cf_ok a r) f = f a r" "cf_then (cf_err e) f = cf_err e"
  by (simp_all add: cf_then_def cf_ok_def cf_err_def)

definition or_err :: "cfr_error \<Rightarrow> ('a \<times> bytes) option \<Rightarrow> 'a cfr_read" where
  "or_err e x = (case x of None \<Rightarrow> cf_err e | Some (a, r) \<Rightarrow> cf_ok a r)"

lemma or_err_simps [simp]: "or_err e (Some (a, r)) = cf_ok a r" "or_err e None = cf_err e"
  by (simp_all add: or_err_def)

fun rd_items :: "nat \<Rightarrow> (bytes \<Rightarrow> 'a cfr_read) \<Rightarrow> bytes \<Rightarrow> 'a list cfr_read" where
  "rd_items 0 g bs = cf_ok [] bs"
| "rd_items (Suc n) g bs =
     cf_then (g bs) (\<lambda>x r. cf_then (rd_items n g r) (\<lambda>xs r'. cf_ok (x # xs) r'))"

text \<open>A count, refused when it exceeds the length of the whole blob, and the items it announces.\<close>

definition rd_counted :: "(int \<Rightarrow> cfr_error) \<Rightarrow> nat \<Rightarrow> (bytes \<Rightarrow> 'a cfr_read) \<Rightarrow> bytes \<Rightarrow> 'a list cfr_read" where
  "rd_counted e bl g bs =
     cf_then (or_err TruncUvarint (get_uvarint bs)) (\<lambda>n r.
       if int bl < n then cf_err (e n) else rd_items (nat n) g r)"

definition rd_byte :: "bytes \<Rightarrow> byte cfr_read" where
  "rd_byte bs = or_err TruncByte (get_byte bs)"

definition rd_enum :: "(byte \<Rightarrow> cfr_error) \<Rightarrow> 'a list \<Rightarrow> bytes \<Rightarrow> 'a cfr_read" where
  "rd_enum e xs bs = cf_then (rd_byte bs) (\<lambda>b r.
     case nth_go xs (unat b) of None \<Rightarrow> cf_err (e b) | Some x \<Rightarrow> cf_ok x r)"

definition rd_bytes :: "bytes \<Rightarrow> bytes cfr_read" where
  "rd_bytes bs = cf_then (or_err TruncUvarint (get_uvarint bs)) (\<lambda>n r. or_err (TruncBytes n) (take_exact n r))"

definition rd_string :: "bytes \<Rightarrow> string cfr_read" where
  "rd_string bs = cf_then (rd_bytes bs) (\<lambda>b r. cf_ok (str_of b) r)"

definition rd_svarint :: "bytes \<Rightarrow> int cfr_read" where
  "rd_svarint bs = or_err TruncVarint (get_svarint bs)"

definition rd_path_index :: "bytes \<Rightarrow> u16 cfr_read" where
  "rd_path_index bs = cf_then (or_err TruncUvarint (get_uvarint bs)) (\<lambda>v r.
     if 0xFFFF < v then cf_err (PathIndex v) else cf_ok (word_of_int v) r)"

definition rd_path :: "bytes \<Rightarrow> path cfr_read" where
  "rd_path bs = cf_then (or_err TruncUvarint (get_uvarint bs)) (\<lambda>n r.
     if int (length r) < n then cf_err (TruncPath n) else rd_items (nat n) rd_path_index r)"

text \<open>\<open>objRefE\<close>: the reference is converted to a signed \<open>int\<close> before the bounds check.\<close>

definition rd_ref :: "byte list \<Rightarrow> bytes \<Rightarrow> addr option cfr_read" where
  "rd_ref ts bs = cf_then (or_err TruncUvarint (get_uvarint bs)) (\<lambda>ref r.
     if ref = 0 then cf_ok None r
     else let ix = wrap64 (ref - 1) in
       if ix < 0 \<or> int (length ts) \<le> ix then cf_err (BadRef ref) else cf_ok (Some (nat ix)) r)"

definition rd_env :: "byte list \<Rightarrow> bytes \<Rightarrow> addr option cfr_read" where
  "rd_env ts bs = cf_then (rd_ref ts bs) (\<lambda>x r. case x of
      None \<Rightarrow> cf_ok None r
    | Some a \<Rightarrow> if ts ! a = 1 then cf_ok (Some a) r else cf_err NotEnv)"

definition rd_obj_ref :: "byte \<Rightarrow> cfr_error \<Rightarrow> byte list \<Rightarrow> bytes \<Rightarrow> addr cfr_read" where
  "rd_obj_ref t e ts bs = cf_then (rd_ref ts bs) (\<lambda>x r. case x of
      None \<Rightarrow> cf_err e
    | Some a \<Rightarrow> if ts ! a = t then cf_ok a r else cf_err e)"

definition rd_val_body :: "byte list \<Rightarrow> nat \<Rightarrow> byte \<Rightarrow> bytes \<Rightarrow> val cfr_read" where
  "rd_val_body ts pos tag bs =
     (if tag = 0 then cf_ok VUndef bs
      else if tag = 1 then cf_ok VNull bs
      else if tag = 2 then cf_then (rd_byte bs) (\<lambda>b r. cf_ok (VBool (f_of_int (uint b))) r)
      else if tag = 3 then cf_then (or_err TruncF64 (get_be64 bs)) (\<lambda>n r. cf_ok (VF64 n) r)
      else if tag = 4 then cf_then (rd_byte bs) (\<lambda>s r. cf_then (rd_bytes r) (\<lambda>mag r'.
        cf_ok (VBig (if s = 1 then - be_value mag else be_value mag)) r'))
      else if tag = 5 then cf_then (rd_string bs) (\<lambda>s r. cf_ok (VStr s) r)
      else if tag = 6 then cf_then (rd_obj_ref 2 NotArray ts bs) (\<lambda>a r. cf_ok (VArr a) r)
      else if tag = 7 then cf_then (rd_obj_ref 3 NotRecord ts bs) (\<lambda>a r. cf_ok (VRec a) r)
      else if tag = 8 then cf_then (rd_string bs) (\<lambda>d r1. cf_then (rd_path r1) (\<lambda>p r2.
        cf_then (rd_env ts r2) (\<lambda>e r3. cf_ok (VClo pos d p e) r3)))
      else if tag = 9 then cf_then (rd_string bs) (\<lambda>s r. cf_ok (VCap s) r)
      else if tag = 10 then cf_then (rd_string bs) (\<lambda>c r1. cf_then (rd_bytes r1) (\<lambda>d r2.
        cf_ok (VOpq pos c d) r2))
      else cf_err (BadTag tag))"

definition rd_val :: "byte list \<Rightarrow> nat \<Rightarrow> bytes \<Rightarrow> val cfr_read" where
  "rd_val ts bl bs = cf_then (rd_byte bs) (\<lambda>tag r. rd_val_body ts (bl - length bs) tag r)"

definition rd_field :: "byte list \<Rightarrow> nat \<Rightarrow> bytes \<Rightarrow> (string \<times> val) cfr_read" where
  "rd_field ts bl bs = cf_then (rd_string bs) (\<lambda>k r. cf_then (rd_val ts bl r) (\<lambda>v r'. cf_ok (k, v) r'))"

text \<open>\<open>fillObject\<close>; a key that comes twice is listed twice and keeps its last value.\<close>

definition rd_obj :: "byte list \<Rightarrow> nat \<Rightarrow> byte \<Rightarrow> bytes \<Rightarrow> obj cfr_read" where
  "rd_obj ts bl t bs =
     (if t = 1 then cf_then (rd_env ts bs) (\<lambda>p r.
        cf_then (rd_counted (\<lambda>_. TooManySlots) bl (rd_val ts bl) r) (\<lambda>vs r'. cf_ok (HEnv p vs) r'))
      else if t = 2 then
        cf_then (rd_counted (\<lambda>_. TooManyElems) bl (rd_val ts bl) bs) (\<lambda>vs r. cf_ok (HArr vs) r)
      else cf_then (rd_counted (\<lambda>_. TooManyKeys) bl (rd_field ts bl) bs) (\<lambda>kvs r.
        cf_ok (HRec (map fst kvs) (map_of (rev kvs))) r))"

definition rd_obj_type :: "bytes \<Rightarrow> byte cfr_read" where
  "rd_obj_type bs = cf_then (rd_byte bs) (\<lambda>t r. if t \<in> {1, 2, 3} then cf_ok t r else cf_err (BadObjType t))"

fun rd_fill :: "byte list \<Rightarrow> nat \<Rightarrow> byte list \<Rightarrow> bytes \<Rightarrow> obj list cfr_read" where
  "rd_fill ts bl [] bs = cf_ok [] bs"
| "rd_fill ts bl (t # rest) bs =
     cf_then (rd_obj ts bl t bs) (\<lambda>ob r. cf_then (rd_fill ts bl rest r) (\<lambda>obs r'. cf_ok (ob # obs) r'))"

definition load_heap :: "nat \<Rightarrow> bytes \<Rightarrow> (byte list \<times> obj list) cfr_read" where
  "load_heap bl bs = cf_then (rd_counted TooManyObjects bl rd_obj_type bs) (\<lambda>ts r.
     cf_then (rd_fill ts bl ts r) (\<lambda>obs r'. cf_ok (ts, obs) r'))"

definition rd_pend :: "byte list \<Rightarrow> nat \<Rightarrow> bytes \<Rightarrow> signal option cfr_read" where
  "rd_pend ts bl bs = cf_then (rd_byte bs) (\<lambda>h r.
     if h = 1 then cf_then (rd_enum BadPending sig_kinds r) (\<lambda>k r1.
       cf_then (rd_val ts bl r1) (\<lambda>v r2. cf_ok (Some (k, v)) r2))
     else cf_ok None r)"

definition rd_frame :: "byte list \<Rightarrow> nat \<Rightarrow> bytes \<Rightarrow> frame cfr_read" where
  "rd_frame ts bl b0 =
     cf_then (rd_enum BadFrameKind frame_kinds b0) (\<lambda>k b1.
     cf_then (rd_path b1) (\<lambda>p b2.
     cf_then (rd_svarint b2) (\<lambda>ix b3.
     cf_then (rd_svarint b3) (\<lambda>aux b4.
     cf_then (rd_counted (\<lambda>_. TooManyVals) bl (rd_val ts bl) b4) (\<lambda>vs b5.
     cf_then (rd_env ts b5) (\<lambda>en b6.
     cf_then (rd_env ts b6) (\<lambda>oe b7.
     cf_then (rd_string b7) (\<lambda>rd b8.
     cf_then (rd_path b8) (\<lambda>rp b9.
     cf_then (rd_env ts b9) (\<lambda>re b10.
     cf_then (rd_val ts bl b10) (\<lambda>ob b11.
     cf_then (rd_string b11) (\<lambda>ke b12.
     cf_then (rd_val ts bl b12) (\<lambda>iv b13.
     cf_then (rd_pend ts bl b13) (\<lambda>pe b14.
     cf_ok \<lparr>f_kind = k, f_node = None, f_path = p, f_idx = ix, f_vals = vs, f_env = en,
       f_outer = oe, f_retdef = rd, f_retpath = rp, f_retenv = re, f_aux = aux, f_obj = ob,
       f_key = ke, f_idxval = iv, f_pend = pe\<rparr> b14))))))))))))))"

definition rd_state :: "nat \<Rightarrow> bytes \<Rightarrow> state cfr_read" where
  "rd_state bl b0 =
     cf_then (load_heap bl b0) (\<lambda>(ts, obs) b1.
     cf_then (rd_string b1) (\<lambda>d b2.
     cf_then (rd_path b2) (\<lambda>p b3.
     cf_then (rd_enum BadMode modes b3) (\<lambda>mo b4.
     cf_then (rd_enum BadPark park_kinds b4) (\<lambda>pk b5.
     cf_then (rd_enum BadTier tiers b5) (\<lambda>ti b6.
     cf_then (rd_svarint b6) (\<lambda>fs b7.
     cf_then (rd_svarint b7) (\<lambda>fa b8.
     cf_then (rd_val ts bl b8) (\<lambda>v b9.
     cf_then (rd_enum BadSignal sig_kinds b9) (\<lambda>sk b10.
     cf_then (rd_val ts bl b10) (\<lambda>sv b11.
     cf_then (rd_env ts b11) (\<lambda>en b12.
     cf_then (rd_counted TooManyFrames bl (rd_frame ts bl) b12) (\<lambda>ks b13.
     cf_ok \<lparr>s_def = d, s_path = p, s_mode = mo, s_val = v, s_sig = (sk, sv), s_env = en,
       s_kont = rev ks, s_tier = ti, s_fuel_steps = word_of_int fs, s_fuel_alloc = word_of_int fa,
       s_park = pk, s_heap = \<lparr>h_objs = obs, h_next = bl - length b13\<rparr>\<rparr> b13)))))))))))))"

text \<open>The version byte in front and the end of the blob behind.\<close>

definition rd_blob :: "(nat \<Rightarrow> bytes \<Rightarrow> 'a cfr_read) \<Rightarrow> bytes \<Rightarrow> cfr_error + 'a" where
  "rd_blob g data = map_sum id fst
     (cf_then (rd_byte data) (\<lambda>ver r.
        if ver \<noteq> format_version then cf_err (BadFormat ver)
        else cf_then (g (length data) r) (\<lambda>x rest.
          if rest = [] then cf_ok x [] else cf_err (Trailing (length rest)))))"

definition decode_state :: "bytes \<Rightarrow> cfr_error + state" where
  "decode_state data = rd_blob rd_state data"

definition rd_value :: "nat \<Rightarrow> bytes \<Rightarrow> (obj list \<times> val) cfr_read" where
  "rd_value bl bs = cf_then (load_heap bl bs) (\<lambda>(ts, obs) r.
     cf_then (rd_val ts bl r) (\<lambda>v r'. cf_ok (obs, v) r'))"

definition decode_value :: "bytes \<Rightarrow> cfr_error + obj list \<times> val" where
  "decode_value data = rd_blob rd_value data"


subsection \<open>The serializable lattice\<close>

text \<open>\<open>internal/cfr/lattice.go\<close>: the tags the value codec knows, and the tags a state holds.  The walk
  over a state is the interning walk, with the tags of the values met as its result.\<close>

definition tag_valid :: "byte \<Rightarrow> bool" where
  "tag_valid t \<longleftrightarrow> t \<le> 10"

definition encodable_tags :: "byte set" where
  "encodable_tags = Collect tag_valid"

definition state_tags :: "state \<Rightarrow> byte set" where
  "state_tags st = set (map tag_of (snd (traverse intern_fields (h_objs (s_heap st)) [] [] (state_items st))))"

lemma tag_of_valid: "tag_valid (tag_of v)"
  by (cases v) (simp_all add: tag_valid_def)

text \<open>Both walks over a state meet the same values.\<close>

lemma state_tags_walk: "state_tags st = tag_of ` set (walk_values st)"
  by (simp add: state_tags_def walk_values_def intern_order.traverse_values walk_order.traverse_values)

end
