(* ===== verification/Cfr_Roundtrip.thy ===== *)
theory Cfr_Roundtrip
  imports Cfr_Codec
begin

section \<open>Round trip of the frozen form\<close>

text \<open>
  Reading a blob back gives the state that was written, relocated to a fresh heap: the addresses
  are the indices of the object table, frames have lost their nodes (they are found again from the
  paths), and closures and opaque handles are new objects.  The locale \<open>cfr_wire\<close> is what a writer
  and its reader owe each other; each layer of the format is an interpretation.
\<close>

subsection \<open>Well-formed states\<close>

fun typed_item :: "obj list \<Rightarrow> item \<Rightarrow> bool" where
  "typed_item obs (IVal (VArr a)) \<longleftrightarrow> a < length obs \<and> obj_tag (obs ! a) = 2"
| "typed_item obs (IVal (VRec a)) \<longleftrightarrow> a < length obs \<and> obj_tag (obs ! a) = 3"
| "typed_item obs (IVal (VClo _ _ _ e)) \<longleftrightarrow> (case e of None \<Rightarrow> True | Some a \<Rightarrow> a < length obs \<and> obj_tag (obs ! a) = 1)"
| "typed_item obs (IVal _) \<longleftrightarrow> True"
| "typed_item obs (IEnv e) \<longleftrightarrow> (case e of None \<Rightarrow> True | Some a \<Rightarrow> a < length obs \<and> obj_tag (obs ! a) = 1)"

definition keys_ok :: "obj \<Rightarrow> bool" where
  "keys_ok ob \<longleftrightarrow> (case ob of HRec ks m \<Rightarrow> distinct ks \<and> dom m = set ks | _ \<Rightarrow> True)"

definition typed_obj :: "obj list \<Rightarrow> obj \<Rightarrow> bool" where
  "typed_obj obs ob \<longleftrightarrow> list_all (typed_item obs) (intern_fields ob) \<and> keys_ok ob"

definition typed_heap :: "obj list \<Rightarrow> bool" where
  "typed_heap obs \<longleftrightarrow> list_all (typed_obj obs) obs"

text \<open>What pass 1 guarantees of the items pass 2 writes.\<close>

definition stored :: "obj list \<Rightarrow> addr list \<Rightarrow> item \<Rightarrow> bool" where
  "stored obs tab it \<longleftrightarrow> fits_buffer (length tab) \<and> typed_item obs it \<and>
     (\<forall>a. target it = Some a \<longrightarrow> a \<in> set tab)"

definition stored_obj :: "obj list \<Rightarrow> addr list \<Rightarrow> obj \<Rightarrow> bool" where
  "stored_obj obs tab ob \<longleftrightarrow> list_all (stored obs tab) (intern_fields ob) \<and> keys_ok ob"

definition stored_frame :: "obj list \<Rightarrow> addr list \<Rightarrow> frame \<Rightarrow> bool" where
  "stored_frame obs tab f \<longleftrightarrow> list_all (stored obs tab) (frame_items f) \<and>
     i64_range (f_idx f) \<and> i64_range (f_aux f)"

definition tags :: "obj list \<Rightarrow> addr list \<Rightarrow> byte list" where
  "tags obs tab = map (\<lambda>a. obj_tag (obs ! a)) tab"

subsection \<open>Relocation\<close>

fun reloc_val :: "addr list \<Rightarrow> val \<Rightarrow> val" where
  "reloc_val tab (VArr a) = VArr (pos_in tab a)"
| "reloc_val tab (VRec a) = VRec (pos_in tab a)"
| "reloc_val tab (VClo _ d p e) = VClo 0 d p (map_option (pos_in tab) e)"
| "reloc_val tab (VOpq _ c d) = VOpq 0 c d"
| "reloc_val tab (VBool n) = bool_val (bool_of n)"
| "reloc_val tab v = v"

fun anon_val :: "val \<Rightarrow> val" where
  "anon_val (VClo _ d p e) = VClo 0 d p e"
| "anon_val (VOpq _ c d) = VOpq 0 c d"
| "anon_val v = v"

fun map_obj_with :: "(addr option \<Rightarrow> addr option) \<Rightarrow> (val \<Rightarrow> val) \<Rightarrow> obj \<Rightarrow> obj" where
  "map_obj_with g h (HEnv p vs) = HEnv (g p) (map h vs)"
| "map_obj_with g h (HArr vs) = HArr (map h vs)"
| "map_obj_with g h (HRec ks m) = HRec ks (\<lambda>k. map_option h (m k))"

definition map_frame_with :: "(addr option \<Rightarrow> addr option) \<Rightarrow> (val \<Rightarrow> val) \<Rightarrow> frame \<Rightarrow> frame" where
  "map_frame_with g h f = f\<lparr>f_node := None, f_vals := map h (f_vals f), f_env := g (f_env f),
     f_outer := g (f_outer f), f_retenv := g (f_retenv f), f_obj := h (f_obj f),
     f_idxval := h (f_idxval f), f_pend := map_option (map_prod id h) (f_pend f)\<rparr>"

definition map_state_with :: "(addr option \<Rightarrow> addr option) \<Rightarrow> (val \<Rightarrow> val) \<Rightarrow> obj list \<Rightarrow> state \<Rightarrow> state" where
  "map_state_with g h obs st = st\<lparr>s_val := h (s_val st), s_sig := map_prod id h (s_sig st),
     s_env := g (s_env st), s_kont := map (map_frame_with g h) (s_kont st),
     s_heap := \<lparr>h_objs = map (map_obj_with g h) obs, h_next = 0\<rparr>\<rparr>"

text \<open>The state on the fresh heap of its object table, and a state without the identities of its
  closures and opaque handles.\<close>

definition reloc_state :: "state \<Rightarrow> state" where
  "reloc_state st = (let obs = h_objs (s_heap st); tab = interned obs (state_items st) in
     map_state_with (map_option (pos_in tab)) (reloc_val tab) (map ((!) obs) tab) st)"

definition anon_state :: "state \<Rightarrow> state" where
  "anon_state st = map_state_with id anon_val (h_objs (s_heap st)) st"

definition same_val :: "addr list \<Rightarrow> val \<Rightarrow> val \<Rightarrow> bool" where
  "same_val tab v w \<longleftrightarrow> anon_val w = reloc_val tab v"

lemma same_vals: "list_all2 (same_val tab) vs ws \<longleftrightarrow> map anon_val ws = map (reloc_val tab) vs"
  by (auto simp: list_all2_conv_all_nth same_val_def list_eq_iff_nth_eq)

lemma cf_ok_eq [simp]: "cf_ok x r = cf_ok y s \<longleftrightarrow> x = y \<and> r = s"
  by (simp add: cf_ok_def)

subsection \<open>The contract of a writer and its reader\<close>

locale cfr_wire =
  fixes ok :: "'a \<Rightarrow> bool"
    and put :: "'a \<Rightarrow> bytes"
    and get :: "nat \<Rightarrow> bytes \<Rightarrow> 'b cfr_read"
    and same :: "'a \<Rightarrow> 'b \<Rightarrow> bool"
  assumes get_put: "ok x \<Longrightarrow> fits_buffer bl \<Longrightarrow> length (put x @ r) \<le> bl \<Longrightarrow>
      \<exists>y. get bl (put x @ r) = cf_ok y r \<and> same x y"
    and put_nonempty: "put x \<noteq> []"
begin

lemma items_put:
  "list_all ok xs \<Longrightarrow> fits_buffer bl \<Longrightarrow> length (put_many put xs @ r) \<le> bl \<Longrightarrow>
     \<exists>ys. rd_items (length xs) (get bl) (put_many put xs @ r) = cf_ok ys r \<and> list_all2 same xs ys"
proof (induction xs)
  case (Cons x xs)
  then obtain y where "get bl (put x @ put_many put xs @ r) = cf_ok y (put_many put xs @ r)" "same x y"
    using get_put [of x bl "put_many put xs @ r"] by auto
  with Cons show ?case by auto
qed simp

lemma count_le: "length xs \<le> length (put_many put xs)"
  by (rule put_many_length_ge) (rule put_nonempty)

lemma counted_put:
  assumes "list_all ok xs" "fits_buffer bl" "length (put_many put xs @ r) \<le> bl"
  shows "\<exists>ys. rd_counted e bl (get bl) (enc_count xs @ put_many put xs @ r) = cf_ok ys r \<and> list_all2 same xs ys"
proof -
  have l: "int (length xs) \<le> int bl" using count_le [of xs] assms(3) by simp
  then have "u64_range (int (length xs))" using assms(2) by (simp add: u64_range_def fits_buffer_def)
  then show ?thesis
    using l items_put [OF assms] by (simp add: rd_counted_def enc_count_def get_uvarint_put)
qed

end

subsection \<open>Scalars\<close>

lemma size_range:
  "fits_buffer bl \<Longrightarrow> n \<le> bl \<Longrightarrow> u64_range (int n)"
  by (simp add: fits_buffer_def u64_range_def)

lemma rd_bytes_put:
  assumes "fits_buffer bl" "length (put_bytes b @ r) \<le> bl"
  shows "rd_bytes (put_bytes b @ r) = cf_ok b r"
proof -
  have "u64_range (int (length b))" using assms by (auto intro: size_range simp: put_bytes_def)
  then show ?thesis by (simp add: rd_bytes_def put_bytes_def get_uvarint_put)
qed

lemma rd_string_put:
  "fits_buffer bl \<Longrightarrow> length (put_str s @ r) \<le> bl \<Longrightarrow> rd_string (put_str s @ r) = cf_ok s r"
  by (simp add: rd_string_def put_str_def rd_bytes_put)

lemma rd_byte_Cons [simp]: "rd_byte (b # r) = cf_ok b r"
  by (simp add: rd_byte_def)

lemma rd_svarint_put: "i64_range i \<Longrightarrow> rd_svarint (put_svarint i @ r) = cf_ok i r"
  by (simp add: rd_svarint_def get_svarint_put)

lemma rd_enum_put:
  assumes "x \<in> set xs" "length xs \<le> 256"
  shows "rd_enum e xs (enum_code xs x # r) = cf_ok x r"
proof -
  have "pos_in xs x < 256" "pos_in xs x < length xs" "xs ! pos_in xs x = x"
    using pos_in_mem [OF assms(1)] assms(2) by auto
  then have "unat (enum_code xs x) < length xs" "xs ! unat (enum_code xs x) = x"
    by (simp_all add: enum_code_def unat_of_nat)
  then show ?thesis by (simp add: rd_enum_def nth_go_def)
qed

lemma all_frame_kinds: "k \<in> set frame_kinds"
  by (cases k) (simp_all add: frame_kinds_def)

lemma all_modes: "m \<in> set modes"
  by (cases m) (simp_all add: modes_def)

lemma all_sig_kinds: "k \<in> set sig_kinds"
  by (cases k) (simp_all add: sig_kinds_def)

lemma all_park_kinds: "k \<in> set park_kinds"
  by (cases k) (simp_all add: park_kinds_def)

lemma all_tiers: "k \<in> set tiers"
  by (cases k) (simp_all add: tiers_def)

lemma enum_sizes:
  "length frame_kinds \<le> 256" "length modes \<le> 256" "length sig_kinds \<le> 256" "length park_kinds \<le> 256"
  "length tiers \<le> 256"
  by (simp_all add: frame_kinds_def modes_def sig_kinds_def park_kinds_def tiers_def)

lemmas enum_reads [simp] =
  rd_enum_put [OF all_frame_kinds enum_sizes(1)] rd_enum_put [OF all_modes enum_sizes(2)]
  rd_enum_put [OF all_sig_kinds enum_sizes(3)] rd_enum_put [OF all_park_kinds enum_sizes(4)]
  rd_enum_put [OF all_tiers enum_sizes(5)]

interpretation path_index: cfr_wire "\<lambda>_. True" "\<lambda>x. put_uvarint (uint x)" "\<lambda>_. rd_path_index" "(=)"
proof
  fix x :: u16 and bl r
  have "uint x < 2 ^ 16" using unsigned_less [of x, where 'a = int] by simp
  moreover from this have "u64_range (uint x)" by (simp add: u64_range_def)
  ultimately show "\<exists>y. rd_path_index (put_uvarint (uint x) @ r) = cf_ok y r \<and> x = y"
    by (simp add: rd_path_index_def get_uvarint_put)
qed simp

lemma rd_path_put:
  assumes "fits_buffer bl" "length (enc_path p @ r) \<le> bl"
  shows "rd_path (enc_path p @ r) = cf_ok p r"
proof -
  let ?b = "put_many (\<lambda>x. put_uvarint (uint x)) p"
  have l: "length (?b @ r) \<le> bl" using assms(2) by (simp add: enc_path_def)
  have c: "length p \<le> length (?b @ r)" using path_index.count_le [of p] by simp
  have "rd_items (length p) rd_path_index (?b @ r) = cf_ok p r"
    using path_index.items_put [of p bl r] assms(1) l by (auto simp: list.rel_eq list_all_iff)
  moreover have "u64_range (int (length p))" using size_range [OF assms(1), of "length p"] c l by simp
  ultimately show ?thesis using c by (simp add: rd_path_def enc_path_def get_uvarint_put)
qed

subsection \<open>References and values\<close>

lemma rd_ref_put:
  assumes "a \<in> set tab" "fits_buffer (length tab)"
  shows "rd_ref (tags obs tab) (enc_ref tab a @ r) = cf_ok (Some (pos_in tab a)) r"
proof -
  have p: "int (pos_in tab a) < int (length tab)" using pos_in_mem [OF assms(1)] by simp
  with assms(2) have "u64_range (int (pos_in tab a) + 1)" "wrap64 (int (pos_in tab a)) = int (pos_in tab a)"
    by (auto simp: u64_range_def fits_buffer_def intro!: wrap64_id)
  with p show ?thesis
    by (simp add: rd_ref_def enc_ref_def index_in_mem [OF assms(1)] get_uvarint_put tags_def Let_def)
qed

lemma length_tags [simp]: "length (tags obs tab) = length tab"
  by (simp add: tags_def)

lemma tags_pos: "a \<in> set tab \<Longrightarrow> tags obs tab ! pos_in tab a = obj_tag (obs ! a)"
  using pos_in_mem [of a tab] by (simp add: tags_def)

lemma rd_env_put:
  assumes "stored obs tab (IEnv e)"
  shows "rd_env (tags obs tab) (enc_env tab e @ r) = cf_ok (map_option (pos_in tab) e) r"
proof (cases e)
  case None
  then show ?thesis by (simp add: rd_env_def enc_env_def rd_ref_def get_uvarint_put u64_range_def)
next
  case (Some a)
  with assms rd_ref_put [of a tab obs r] tags_pos [of a tab obs] show ?thesis
    by (simp add: rd_env_def enc_env_def stored_def)
qed

lemma rd_obj_ref_put:
  assumes "a \<in> set tab" "fits_buffer (length tab)" "obj_tag (obs ! a) = t"
  shows "rd_obj_ref t e (tags obs tab) (enc_ref tab a @ r) = cf_ok (pos_in tab a) r"
  using rd_ref_put [OF assms(1,2), of obs r] tags_pos [OF assms(1), of obs] assms(3)
  by (simp add: rd_obj_ref_def)

lemma stored_clo: "stored obs tab (IVal (VClo i d p e)) \<longleftrightarrow> stored obs tab (IEnv e)"
  by (simp add: stored_def)

lemma rd_val_body_put:
  assumes s: "stored obs tab (IVal v)" and b: "fits_buffer bl" and l: "length (enc_val_body tab v @ r) \<le> bl"
  shows "\<exists>w. rd_val_body (tags obs tab) pos (tag_of v) (enc_val_body tab v @ r) = cf_ok w r \<and> same_val tab v w"
proof (cases v)
  case (VClo i d p e)
  with s have "stored obs tab (IEnv e)" by (simp add: stored_clo)
  with l VClo show ?thesis
    by (simp add: rd_val_body_def same_val_def rd_string_put [OF b] rd_path_put [OF b] rd_env_put)
qed (use l s in \<open>auto simp: rd_val_body_def same_val_def bool_val_def get_be64_put stored_def
      rd_string_put [OF b] rd_bytes_put [OF b] rd_obj_ref_put\<close>)

interpretation val_wire: cfr_wire "\<lambda>v. stored obs tab (IVal v)" "enc_val tab" "rd_val (tags obs tab)" "same_val tab"
  for obs tab
proof
  fix v bl r
  assume "stored obs tab (IVal v)" "fits_buffer bl" "length (enc_val tab v @ r) \<le> bl"
  then show "\<exists>w. rd_val (tags obs tab) bl (enc_val tab v @ r) = cf_ok w r \<and> same_val tab v w"
    using rd_val_body_put [of obs tab v bl r] by (simp add: rd_val_def enc_val_def)
qed (simp add: enc_val_def)


subsection \<open>Objects, frames and the heap\<close>

definition same_obj :: "addr list \<Rightarrow> obj \<Rightarrow> obj \<Rightarrow> bool" where
  "same_obj tab ob w \<longleftrightarrow>
     map_obj_with id anon_val w = map_obj_with (map_option (pos_in tab)) (reloc_val tab) ob"

lemma list_all_IVal [simp]: "list_all P (map IVal vs) \<longleftrightarrow> list_all (\<lambda>v. P (IVal v)) vs"
  by (simp add: list_all_iff)

interpretation field_wire: cfr_wire "\<lambda>(k, v). stored obs tab (IVal v)" "\<lambda>(k, v). put_str k @ enc_val tab v"
    "rd_field (tags obs tab)" "\<lambda>(k, v) (k', w). k' = k \<and> same_val tab v w"
  for obs tab
proof
  fix x :: "string \<times> val" and bl r
  obtain k v where x: "x = (k, v)" by fastforce
  assume "case x of (k, v) \<Rightarrow> stored obs tab (IVal v)" and b: "fits_buffer bl"
    and l: "length ((case x of (k, v) \<Rightarrow> put_str k @ enc_val tab v) @ r) \<le> bl"
  then have "stored obs tab (IVal v)" "length (enc_val tab v @ r) \<le> bl" by (simp_all add: x)
  with val_wire.get_put [of obs tab v bl r] b obtain w
    where "rd_val (tags obs tab) bl (enc_val tab v @ r) = cf_ok w r" "same_val tab v w" by blast
  with l show "\<exists>y. rd_field (tags obs tab) bl ((case x of (k, v) \<Rightarrow> put_str k @ enc_val tab v) @ r) = cf_ok y r \<and>
      (case x of (k, v) \<Rightarrow> \<lambda>(k', w). k' = k \<and> same_val tab v w) y"
    by (simp add: x rd_field_def rd_string_put [OF b])
qed (simp add: enc_val_def split: prod.splits)

lemma record_fields:
  "put_many (\<lambda>k. put_str k @ enc_val tab (field_val m k)) ks =
     put_many (\<lambda>(k, v). put_str k @ enc_val tab v) (map (\<lambda>k. (k, field_val m k)) ks)"
  by (simp add: put_many_def comp_def)

lemma same_fields_list:
  assumes "list_all2 (\<lambda>(k, v) (k', w). k' = k \<and> same_val tab v w) (map (\<lambda>k. (k, field_val m k)) ks) kws"
  shows "map fst kws = ks"
    and "map_option anon_val (map_of kws k) =
      (if k \<in> set ks then Some (reloc_val tab (field_val m k)) else None)"
  using assms
  by (induction ks arbitrary: kws) (auto simp: list_all2_Cons1 same_val_def)

lemma map_of_rev_distinct: "distinct (map fst xs) \<Longrightarrow> map_of (rev xs) = map_of xs"
  by (subst map_of_inject_set) (auto simp flip: rev_map)

lemma rd_obj_put:
  assumes s: "stored_obj obs tab ob" and b: "fits_buffer bl" and l: "length (enc_obj tab ob @ r) \<le> bl"
  shows "\<exists>w. rd_obj (tags obs tab) bl (obj_tag ob) (enc_obj tab ob @ r) = cf_ok w r \<and> same_obj tab ob w"
proof (cases ob)
  case (HEnv p vs)
  with s have e: "stored obs tab (IEnv p)" and v: "list_all (\<lambda>v. stored obs tab (IVal v)) vs"
    by (simp_all add: stored_obj_def)
  have "length (put_many (enc_val tab) vs @ r) \<le> bl" using l HEnv by simp
  from val_wire.counted_put [OF v b this, of "\<lambda>_. TooManySlots"] show ?thesis
    by (auto simp: HEnv rd_obj_def obj_tag_def rd_env_put [OF e] same_obj_def same_vals)
next
  case (HArr vs)
  with s have v: "list_all (\<lambda>v. stored obs tab (IVal v)) vs" by (simp add: stored_obj_def)
  have "length (put_many (enc_val tab) vs @ r) \<le> bl" using l HArr by simp
  from val_wire.counted_put [OF v b this, of "\<lambda>_. TooManyElems"] show ?thesis
    by (auto simp: HArr rd_obj_def obj_tag_def same_obj_def same_vals)
next
  case (HRec ks m)
  let ?kvs = "map (\<lambda>k. (k, field_val m k)) ks"
  have v: "list_all (\<lambda>(k, v). stored obs tab (IVal v)) ?kvs" and ks: "distinct ks" "dom m = set ks"
    using s by (simp_all add: HRec stored_obj_def list_all_iff keys_ok_def)
  have c: "enc_count ?kvs = enc_count ks" by (simp add: enc_count_def)
  have "length (put_many (\<lambda>(k, v). put_str k @ enc_val tab v) ?kvs @ r) \<le> bl"
    using l by (simp add: HRec record_fields)
  from field_wire.counted_put [OF v b this, of "\<lambda>_. TooManyKeys", unfolded c]
  obtain kws where g: "rd_counted (\<lambda>_. TooManyKeys) bl (rd_field (tags obs tab) bl)
      (enc_count ks @ put_many (\<lambda>(k, v). put_str k @ enc_val tab v) ?kvs @ r) = cf_ok kws r"
    and w: "list_all2 (\<lambda>(k, v) (k', w). k' = k \<and> same_val tab v w) ?kvs kws" by blast
  note kw = same_fields_list [OF w]
  have "map_of (rev kws) = map_of kws" using kw(1) ks(1) by (simp add: map_of_rev_distinct)
  moreover have "(if k \<in> set ks then Some (reloc_val tab (field_val m k)) else None) = map_option (reloc_val tab) (m k)" for k
    using ks(2) by (cases "m k") (auto simp: field_val_def)
  ultimately have "same_obj tab ob (HRec (map fst kws) (map_of (rev kws)))"
    using kw by (simp add: same_obj_def HRec)
  with g show ?thesis by (simp add: HRec rd_obj_def obj_tag_def record_fields)
qed

lemma rd_fill_put:
  "list_all (\<lambda>a. stored_obj obs tab (obs ! a)) as \<Longrightarrow> fits_buffer bl \<Longrightarrow>
     length (put_many (\<lambda>a. enc_obj tab (obs ! a)) as @ r) \<le> bl \<Longrightarrow>
     \<exists>ws. rd_fill (tags obs tab) bl (tags obs as) (put_many (\<lambda>a. enc_obj tab (obs ! a)) as @ r) = cf_ok ws r \<and>
       list_all2 (same_obj tab) (map ((!) obs) as) ws"
proof (induction as)
  case (Cons a as)
  let ?s = "put_many (\<lambda>a. enc_obj tab (obs ! a)) as @ r"
  have "stored_obj obs tab (obs ! a)" "length (enc_obj tab (obs ! a) @ ?s) \<le> bl" using Cons.prems by simp_all
  with rd_obj_put [of obs tab "obs ! a" bl ?s] Cons.prems obtain w
    where "rd_obj (tags obs tab) bl (obj_tag (obs ! a)) (enc_obj tab (obs ! a) @ ?s) = cf_ok w ?s"
      "same_obj tab (obs ! a) w" by blast
  with Cons show ?case by (auto simp: tags_def)
qed (simp add: tags_def)

interpretation type_wire: cfr_wire "\<lambda>t. t \<in> {1, 2, 3}" "\<lambda>t. [t]" "\<lambda>_. rd_obj_type" "(=)"
  by unfold_locales (auto simp: rd_obj_type_def)

lemma put_many_single [simp]: "put_many (\<lambda>t. [t]) xs = xs"
  by (induction xs) simp_all

lemma obj_tag_cases: "obj_tag ob \<in> {1, 2, 3}"
  by (cases ob) (simp_all add: obj_tag_def)

lemma load_heap_put:
  assumes s: "list_all (\<lambda>a. stored_obj obs tab (obs ! a)) tab" and b: "fits_buffer bl"
    and l: "length (enc_heap obs tab @ r) \<le> bl"
  shows "\<exists>ws. load_heap bl (enc_heap obs tab @ r) = cf_ok (tags obs tab, ws) r \<and>
    list_all2 (same_obj tab) (map ((!) obs) tab) ws"
proof -
  let ?fill = "put_many (\<lambda>a. enc_obj tab (obs ! a)) tab @ r"
  have c: "enc_count (tags obs tab) = enc_count tab" by (simp add: enc_count_def tags_def)
  have "list_all (\<lambda>t. t \<in> {1, 2, 3}) (tags obs tab)"
    using obj_tag_cases by (simp only: tags_def list_all_iff) auto
  from type_wire.counted_put [OF this b, of ?fill TooManyObjects]
  have t: "rd_counted TooManyObjects bl rd_obj_type (enc_count tab @ tags obs tab @ ?fill) = cf_ok (tags obs tab) ?fill"
    using l by (simp add: c enc_heap_def list.rel_eq flip: tags_def)
  have "length ?fill \<le> bl" using l by (simp add: enc_heap_def)
  from rd_fill_put [OF s b this] t show ?thesis
    by (auto simp: load_heap_def enc_heap_def simp flip: tags_def)
qed


definition same_frame :: "addr list \<Rightarrow> frame \<Rightarrow> frame \<Rightarrow> bool" where
  "same_frame tab f g \<longleftrightarrow>
     map_frame_with id anon_val g = map_frame_with (map_option (pos_in tab)) (reloc_val tab) f"

lemma rd_pend_put:
  assumes s: "\<And>k v. pe = Some (k, v) \<Longrightarrow> stored obs tab (IVal v)" and b: "fits_buffer bl"
    and l: "length (enc_pend tab pe @ r) \<le> bl"
  shows "\<exists>q. rd_pend (tags obs tab) bl (enc_pend tab pe @ r) = cf_ok q r \<and>
    map_option (map_prod id anon_val) q = map_option (map_prod id (reloc_val tab)) pe"
proof (cases pe)
  case None
  then show ?thesis by (simp add: rd_pend_def enc_pend_def)
next
  case (Some kv)
  obtain k v where kv: "kv = (k, v)" by fastforce
  have "length (enc_val tab v @ r) \<le> bl" using l by (simp add: Some kv enc_pend_def)
  with val_wire.get_put [OF s b this] show ?thesis
    by (auto simp: Some kv rd_pend_def enc_pend_def same_val_def)
qed

lemma rd_frame_put:
  assumes s: "stored_frame obs tab f" and b: "fits_buffer bl" and l: "length (enc_frame tab f @ r) \<le> bl"
  shows "\<exists>g. rd_frame (tags obs tab) bl (enc_frame tab f @ r) = cf_ok g r \<and> same_frame tab f g"
proof -
  note vw = val_wire.get_put [OF _ b, where obs = obs and tab = tab]
  have st: "list_all (\<lambda>v. stored obs tab (IVal v)) (f_vals f)" "stored obs tab (IVal (f_obj f))"
    "stored obs tab (IVal (f_idxval f))" "stored obs tab (IEnv (f_env f))" "stored obs tab (IEnv (f_outer f))"
    "stored obs tab (IEnv (f_retenv f))" "\<And>k v. f_pend f = Some (k, v) \<Longrightarrow> stored obs tab (IVal v)"
    and ix: "i64_range (f_idx f)" "i64_range (f_aux f)"
    using s by (auto simp: stored_frame_def frame_items_def)
  let ?r14 = "enc_pend tab (f_pend f) @ r"
  let ?r12 = "put_str (f_key f) @ enc_val tab (f_idxval f) @ ?r14"
  let ?r5 = "enc_env tab (f_env f) @ enc_env tab (f_outer f) @ put_str (f_retdef f) @
      enc_path (f_retpath f) @ enc_env tab (f_retenv f) @ enc_val tab (f_obj f) @ ?r12"
  have l': "length (enc_val tab (f_obj f) @ ?r12) \<le> bl" "length (enc_val tab (f_idxval f) @ ?r14) \<le> bl"
    "length (put_many (enc_val tab) (f_vals f) @ ?r5) \<le> bl" "length ?r14 \<le> bl"
    using l by (simp_all add: enc_frame_def)
  obtain ob where ob: "rd_val (tags obs tab) bl (enc_val tab (f_obj f) @ ?r12) = cf_ok ob ?r12" "same_val tab (f_obj f) ob"
    using vw [OF st(2) l'(1)] by blast
  obtain iv where iv: "rd_val (tags obs tab) bl (enc_val tab (f_idxval f) @ ?r14) = cf_ok iv ?r14" "same_val tab (f_idxval f) iv"
    using vw [OF st(3) l'(2)] by blast
  obtain vs where vs: "rd_counted (\<lambda>_. TooManyVals) bl (rd_val (tags obs tab) bl)
      (enc_count (f_vals f) @ put_many (enc_val tab) (f_vals f) @ ?r5) = cf_ok vs ?r5"
    "list_all2 (same_val tab) (f_vals f) vs"
    using val_wire.counted_put [OF st(1) b l'(3)] by blast
  obtain q where q: "rd_pend (tags obs tab) bl ?r14 = cf_ok q r"
    "map_option (map_prod id anon_val) q = map_option (map_prod id (reloc_val tab)) (f_pend f)"
    using rd_pend_put [of "f_pend f" obs tab bl r] st(7) b l'(4) by blast
  show ?thesis
    using l ob iv vs q
    by (simp add: rd_frame_def enc_frame_def rd_path_put [OF b] rd_string_put [OF b] rd_svarint_put ix
        rd_env_put st same_frame_def map_frame_with_def same_vals same_val_def)
qed

interpretation frame_wire: cfr_wire "stored_frame obs tab" "enc_frame tab" "rd_frame (tags obs tab)" "same_frame tab"
  for obs tab
  by unfold_locales (simp_all add: rd_frame_put, simp add: enc_frame_def)

subsection \<open>The whole blob\<close>

definition typed_state :: "state \<Rightarrow> bool" where
  "typed_state st \<longleftrightarrow> typed_heap (h_objs (s_heap st)) \<and>
     list_all (typed_item (h_objs (s_heap st))) (state_items st) \<and>
     list_all (\<lambda>f. i64_range (f_idx f) \<and> i64_range (f_aux f)) (s_kont st) \<and>
     fits_buffer (length (encode_state st))"

lemma interned_target:
  assumes "reach obs (set items) it" "typed_item obs it" "target it = Some a"
  shows "a \<in> set (interned obs items)"
proof -
  have "a < length obs"
    using assms(2,3) by (cases "(obs, it)" rule: typed_item.cases) (auto split: option.splits)
  with assms show ?thesis by (auto simp: interned_def intern_order.traverse_objects)
qed

lemma interned_stored:
  assumes h: "typed_heap obs" and t: "list_all (typed_item obs) items"
    and f: "fits_buffer (length (interned obs items))"
  shows "it \<in> set items \<Longrightarrow> stored obs (interned obs items) it"
    and "a \<in> set (interned obs items) \<Longrightarrow> stored_obj obs (interned obs items) (obs ! a)"
proof -
  show "it \<in> set items \<Longrightarrow> stored obs (interned obs items) it"
    using t f by (auto simp: stored_def list_all_iff intro: interned_target reach.root)
  assume "a \<in> set (interned obs items)"
  then obtain k where a: "a < length obs" and k: "reach obs (set items) k" "target k = Some a"
    by (auto simp: interned_def intern_order.traverse_objects)
  with h have ob: "typed_obj obs (obs ! a)" by (simp add: typed_heap_def list_all_length)
  have "reach obs (set items) it" if "it \<in> set (intern_fields (obs ! a))" for it
    using k a that by (rule reach.field)
  with ob f show "stored_obj obs (interned obs items) (obs ! a)"
    by (auto simp: stored_obj_def typed_obj_def stored_def list_all_iff intro: interned_target)
qed


lemma same_frames: "list_all2 (same_frame tab) fs gs \<longleftrightarrow>
    map (map_frame_with id anon_val) gs = map (map_frame_with (map_option (pos_in tab)) (reloc_val tab)) fs"
  by (auto simp: list_all2_conv_all_nth same_frame_def list_eq_iff_nth_eq)

lemma same_objs: "list_all2 (same_obj tab) obs ws \<longleftrightarrow>
    map (map_obj_with id anon_val) ws = map (map_obj_with (map_option (pos_in tab)) (reloc_val tab)) obs"
  by (auto simp: list_all2_conv_all_nth same_obj_def list_eq_iff_nth_eq)

lemma rd_blob_put:
  assumes "g (length (format_version # bs)) bs = cf_ok x []"
  shows "rd_blob g (format_version # bs) = Inr x"
  using assms by (simp add: rd_blob_def) (simp add: cf_ok_def)

lemma table_size: "length tab \<le> length (enc_heap obs tab)"
  by (simp add: enc_heap_def)

lemma decode_encode_state:
  assumes "typed_state st"
  shows "\<exists>st'. decode_state (encode_state st) = Inr st' \<and> anon_state st' = reloc_state st"
proof -
  define obs where "obs = h_objs (s_heap st)"
  define tab where "tab = interned obs (state_items st)"
  define bl where "bl = length (encode_state st)"
  let ?r12 = "enc_count (s_kont st) @ put_many (enc_frame tab) (rev (s_kont st))"
  let ?r10 = "enc_val tab (snd (s_sig st)) @ enc_env tab (s_env st) @ ?r12"
  let ?r8 = "enc_val tab (s_val st) @ [enum_code sig_kinds (fst (s_sig st))] @ ?r10"
  let ?body = "enc_heap obs tab @ enc_registers tab st @ ?r12"
  have enc: "encode_state st = format_version # ?body"
    by (simp add: encode_state_def Let_def obs_def tab_def)
  have b: "fits_buffer bl" and h: "typed_heap obs" and it: "list_all (typed_item obs) (state_items st)"
    and ix: "list_all (\<lambda>f. i64_range (f_idx f) \<and> i64_range (f_aux f)) (s_kont st)"
    using assms by (simp_all add: typed_state_def obs_def bl_def)
  have l: "length ?body \<le> bl" by (simp add: bl_def enc)
  have "fits_buffer (length tab)" using b l table_size [of tab obs] by (simp add: fits_buffer_def)
  note sto = interned_stored [OF h it this [unfolded tab_def], folded tab_def]
  have objs: "list_all (\<lambda>a. stored_obj obs tab (obs ! a)) tab" using sto(2) by (simp add: list_all_iff)
  have regs: "stored obs tab (IVal (s_val st))" "stored obs tab (IVal (snd (s_sig st)))" "stored obs tab (IEnv (s_env st))"
    using sto(1) by (simp_all add: state_items_def)
  have fr: "list_all (stored_frame obs tab) (rev (s_kont st))"
    using sto(1) ix by (auto simp: list_all_iff stored_frame_def state_items_def)
  have lens: "length (enc_val tab (s_val st) @ [enum_code sig_kinds (fst (s_sig st))] @ ?r10) \<le> bl"
    "length ?r10 \<le> bl" "length (put_many (enc_frame tab) (rev (s_kont st)) @ []) \<le> bl"
    using l by (simp_all add: enc_registers_def)
  obtain ws where ws: "load_heap bl ?body = cf_ok (tags obs tab, ws) (enc_registers tab st @ ?r12)"
    "list_all2 (same_obj tab) (map ((!) obs) tab) ws"
    using load_heap_put [OF objs b l] by blast
  obtain v where v: "rd_val (tags obs tab) bl ?r8 = cf_ok v ([enum_code sig_kinds (fst (s_sig st))] @ ?r10)"
      "same_val tab (s_val st) v"
    using val_wire.get_put [OF regs(1) b lens(1)] by blast
  obtain sv where sv: "rd_val (tags obs tab) bl ?r10 = cf_ok sv (enc_env tab (s_env st) @ ?r12)"
      "same_val tab (snd (s_sig st)) sv"
    using val_wire.get_put [OF regs(2) b lens(2)] by blast
  have "enc_count (rev (s_kont st)) = enc_count (s_kont st)" by (simp add: enc_count_def)
  with frame_wire.counted_put [OF fr b lens(3), of TooManyFrames]
  obtain ks where ks: "rd_counted TooManyFrames bl (rd_frame (tags obs tab) bl) ?r12 = cf_ok ks []"
      "list_all2 (same_frame tab) (rev (s_kont st)) ks" by auto
  let ?st = "\<lparr>s_def = s_def st, s_path = s_path st, s_mode = s_mode st, s_val = v,
     s_sig = (fst (s_sig st), sv), s_env = map_option (pos_in tab) (s_env st), s_kont = rev ks, s_tier = s_tier st,
     s_fuel_steps = s_fuel_steps st, s_fuel_alloc = s_fuel_alloc st, s_park = s_park st,
     s_heap = \<lparr>h_objs = ws, h_next = bl\<rparr>\<rparr>"
  have fuel: "i64_range (sint x)" for x :: i64
    using sint_range_size [of x] by (simp add: i64_range_def word_size)
  have "rd_state bl ?body = cf_ok ?st []"
    using l v(1) sv(1) ks(1)
    by (simp add: rd_state_def ws(1)) (simp add: enc_registers_def rd_string_put [OF b] rd_path_put [OF b]
      rd_svarint_put fuel rd_env_put [OF regs(3)])
  then have "decode_state (encode_state st) = Inr ?st"
    using rd_blob_put [of rd_state ?body ?st] by (simp add: decode_state_def enc bl_def)
  moreover have "anon_state ?st = reloc_state st"
  proof -
    have "map (map_frame_with id anon_val) (rev ks) =
        map (map_frame_with (map_option (pos_in tab)) (reloc_val tab)) (s_kont st)"
      using ks(2) by (simp add: same_frames rev_map [symmetric] rev_swap)
    with v(2) sv(2) ws(2) show ?thesis
      by (cases "s_sig st") (simp add: anon_state_def reloc_state_def map_state_with_def same_val_def same_objs
        Let_def flip: obs_def tab_def)
  qed
  ultimately show ?thesis by blast
qed

end
