(* ===== verification/Cfr_Closed.thy ===== *)
theory Cfr_Closed
  imports Cfr_Roundtrip
begin

section \<open>The decoder fails closed\<close>

text \<open>
  Two facts about every blob the decoder accepts, not only those the encoder wrote: bytes added
  behind it are refused (so no proper prefix of an accepted blob is accepted), and every reference
  in the state it yields points to an object of the right type.  Both are proved reader by reader,
  over \<open>cf_then\<close>: \<open>extends\<close> relates a read with the same read on a longer blob, \<open>yields\<close> says what
  a successful read returns.
\<close>

subsection \<open>Longer blobs\<close>

definition extends :: "bytes \<Rightarrow> 'a cfr_read \<Rightarrow> 'a cfr_read \<Rightarrow> bool" where
  "extends s A B \<longleftrightarrow> (\<forall>x r. A = cf_ok x r \<longrightarrow> B = cf_ok x (r @ s))"

named_theorems extend_intros \<open>reads on a longer blob\<close>

lemma cf_ok_not_err [simp]: "cf_err e \<noteq> cf_ok x r" "cf_ok x r \<noteq> cf_err e"
  by (simp_all add: cf_ok_def cf_err_def)

lemma cf_cases:
  obtains e where "A = cf_err e" | x r where "A = cf_ok x r"
  by (cases A) (auto simp: cf_ok_def cf_err_def)

lemma extendsD: "extends s A B \<Longrightarrow> A = cf_ok x r \<Longrightarrow> B = cf_ok x (r @ s)"
  by (simp add: extends_def)

lemma extends_ok [extend_intros]: "extends s (cf_ok x r) (cf_ok x (r @ s))"
  by (simp add: extends_def)

lemma extends_err [extend_intros]: "extends s (cf_err e) B"
  by (simp add: extends_def)

lemma extends_then [extend_intros]:
  assumes "extends s A B" "\<And>x r. extends s (f x r) (g x (r @ s))"
  shows "extends s (cf_then A f) (cf_then B g)"
  using assms by (cases A rule: cf_cases) (auto simp: extends_def)

lemma extends_if [extend_intros]:
  assumes "b \<Longrightarrow> extends s A B" "\<not> b \<Longrightarrow> extends s A' B'"
  shows "extends s (if b then A else A') (if b then B else B')"
  using assms by simp

lemma extends_option [extend_intros]:
  assumes "extends s A B" "\<And>a. extends s (f a) (g a)"
  shows "extends s (case x of None \<Rightarrow> A | Some a \<Rightarrow> f a) (case x of None \<Rightarrow> B | Some a \<Rightarrow> g a)"
  using assms by (cases x) simp_all

lemma extends_guard [extend_intros]:
  assumes "b' \<Longrightarrow> b" "\<not> b' \<Longrightarrow> extends s A B"
  shows "extends s (if b then cf_err e else A) (if b' then cf_err e' else B)"
  using assms by (auto simp: extends_def)

lemma uvarint_from_more: "uvarint_from i x bs = Some (v, r) \<Longrightarrow> uvarint_from i x (bs @ s) = Some (v, r @ s)"
  by (induction i x bs rule: uvarint_from.induct) (auto split: if_splits)

lemma extends_or_err:
  assumes "\<And>x r. A = Some (x, r) \<Longrightarrow> B = Some (x, r @ s)"
  shows "extends s (or_err e A) (or_err e' B)"
  using assms by (cases A) (auto simp: extends_def or_err_def split: option.splits)

lemma extends_uvarint [extend_intros]:
  "extends s (or_err e (get_uvarint bs)) (or_err e (get_uvarint (bs @ s)))"
  by (rule extends_or_err) (simp add: get_uvarint_def uvarint_from_more)

lemma get_svarint_more: "get_svarint bs = Some (x, r) \<Longrightarrow> get_svarint (bs @ s) = Some (x, r @ s)"
  unfolding get_svarint_def get_uvarint_def
  by (elim bind_SomeE) (auto simp: uvarint_from_more split: prod.splits)

lemma extends_svarint [extend_intros]: "extends s (rd_svarint bs) (rd_svarint (bs @ s))"
  unfolding rd_svarint_def
  by (rule extends_or_err) (elim get_svarint_more)

lemma extends_byte [extend_intros]: "extends s (rd_byte bs) (rd_byte (bs @ s))"
  unfolding rd_byte_def by (rule extends_or_err) (cases bs, auto)

lemma take_exact_more: "take_exact n bs = Some (x, r) \<Longrightarrow> take_exact n (bs @ s) = Some (x, r @ s)"
  by (auto simp: take_exact_def split: if_splits)

lemma get_be64_more: "get_be64 bs = Some (x, r) \<Longrightarrow> get_be64 (bs @ s) = Some (x, r @ s)"
  unfolding get_be64_def
  by (elim bind_SomeE) (auto simp: take_exact_more split: prod.splits)

lemma extends_be64 [extend_intros]: "extends s (or_err e (get_be64 bs)) (or_err e (get_be64 (bs @ s)))"
  by (rule extends_or_err) (elim get_be64_more)

lemma extends_take [extend_intros]:
  "extends s (or_err e (take_exact n bs)) (or_err e (take_exact n (bs @ s)))"
  by (rule extends_or_err) (rule take_exact_more)

lemma extends_items:
  assumes "\<And>bs. extends s (g bs) (h (bs @ s))"
  shows "extends s (rd_items n g bs) (rd_items n h (bs @ s))"
  by (induction n arbitrary: bs) (auto intro!: extend_intros assms)

lemma extends_enum [extend_intros]: "extends s (rd_enum e xs bs) (rd_enum e xs (bs @ s))"
  unfolding rd_enum_def by (intro extend_intros)

lemma extends_bytes [extend_intros]: "extends s (rd_bytes bs) (rd_bytes (bs @ s))"
  unfolding rd_bytes_def by (intro extend_intros)

lemma extends_string [extend_intros]: "extends s (rd_string bs) (rd_string (bs @ s))"
  unfolding rd_string_def by (intro extend_intros)

lemma extends_path_index: "extends s (rd_path_index bs) (rd_path_index (bs @ s))"
  unfolding rd_path_index_def by (intro extend_intros)

lemma extends_path [extend_intros]: "extends s (rd_path bs) (rd_path (bs @ s))"
  unfolding rd_path_def by (intro extend_intros extends_items extends_path_index) simp

lemma extends_ref [extend_intros]: "extends s (rd_ref ts bs) (rd_ref ts (bs @ s))"
  unfolding rd_ref_def Let_def by (intro extend_intros)

lemma extends_env [extend_intros]: "extends s (rd_env ts bs) (rd_env ts (bs @ s))"
  unfolding rd_env_def by (intro extend_intros)

lemma extends_obj_ref [extend_intros]: "extends s (rd_obj_ref t e ts bs) (rd_obj_ref t e ts (bs @ s))"
  unfolding rd_obj_ref_def by (intro extend_intros)

text \<open>A reader that knows the length of its blob.\<close>

locale sized_reader =
  fixes g :: "nat \<Rightarrow> bytes \<Rightarrow> 'a cfr_read"
  assumes more: "extends s (g bl bs) (g (bl + length s) (bs @ s))"
begin

lemma counted_more [extend_intros]:
  "extends s (rd_counted e bl (g bl) bs) (rd_counted e (bl + length s) (g (bl + length s)) (bs @ s))"
  unfolding rd_counted_def by (intro extend_intros extends_items more) simp

end

interpretation val_reader: sized_reader "rd_val ts" for ts
proof
  fix s bs :: bytes and bl
  have "bl + length s - length (bs @ s) = bl - length bs" by simp
  then show "extends s (rd_val ts bl bs) (rd_val ts (bl + length s) (bs @ s))"
    unfolding rd_val_def rd_val_body_def by (simp only:) (intro extend_intros)
qed

lemmas [extend_intros] = val_reader.more

interpretation field_reader: sized_reader "rd_field ts" for ts
  by unfold_locales (unfold rd_field_def, intro extend_intros)

lemma extends_obj [extend_intros]: "extends s (rd_obj ts bl t bs) (rd_obj ts (bl + length s) t (bs @ s))"
  unfolding rd_obj_def by (intro extend_intros)

lemma extends_fill [extend_intros]:
  "extends s (rd_fill ts bl us bs) (rd_fill ts (bl + length s) us (bs @ s))"
  by (induction us arbitrary: bs) (auto intro!: extend_intros)

interpretation type_reader: sized_reader "\<lambda>_. rd_obj_type"
  by unfold_locales (unfold rd_obj_type_def, intro extend_intros)

interpretation heap_reader: sized_reader load_heap
  by unfold_locales (unfold load_heap_def, intro extend_intros)

lemma extends_pend [extend_intros]: "extends s (rd_pend ts bl bs) (rd_pend ts (bl + length s) (bs @ s))"
  unfolding rd_pend_def by (intro extend_intros)

interpretation frame_reader: sized_reader "rd_frame ts" for ts
  by unfold_locales (unfold rd_frame_def, intro extend_intros)


lemma extends_prod [extend_intros]:
  assumes "\<And>a b. extends s (f a b r) (g a b r')"
  shows "extends s ((case x of (a, b) \<Rightarrow> f a b) r) ((case x of (a, b) \<Rightarrow> g a b) r')"
  using assms by (cases x) simp

lemmas sized_more [extend_intros] = heap_reader.more frame_reader.more

lemma extends_ok_eq: "x = y \<Longrightarrow> extends s (cf_ok x r) (cf_ok y (r @ s))"
  by (simp add: extends_ok)

interpretation state_reader: sized_reader rd_state
  by unfold_locales (unfold rd_state_def, intro extend_intros, rule extends_ok_eq, simp)

interpretation value_reader: sized_reader rd_value
  by unfold_locales (unfold rd_value_def, intro extend_intros)

lemma rd_blob_Inr:
  "rd_blob g data = Inr x \<longleftrightarrow> (\<exists>r. data = format_version # r \<and> g (length data) r = cf_ok x [])"
proof (cases data)
  case (Cons v r)
  then show ?thesis
    by (cases "g (length data) r" rule: cf_cases) (auto simp: rd_blob_def, auto simp: cf_ok_def cf_err_def)
qed (simp add: rd_blob_def rd_byte_def or_err_def, simp add: cf_err_def)

context sized_reader begin

lemma blob_more:
  assumes "rd_blob g p = Inr x" "s \<noteq> []"
  shows "rd_blob g (p @ s) = Inl (Trailing (length s))"
proof -
  obtain r where p: "p = format_version # r" and g: "g (length p) r = cf_ok x []"
    using assms(1) by (auto simp: rd_blob_Inr)
  from extendsD [OF more g, of s] p assms(2) show ?thesis
    by (simp add: rd_blob_def) (simp add: cf_err_def)
qed

end

subsection \<open>What an accepted blob yields\<close>

definition yields :: "('a \<Rightarrow> bool) \<Rightarrow> 'a cfr_read \<Rightarrow> bool" where
  "yields P A \<longleftrightarrow> (\<forall>x r. A = cf_ok x r \<longrightarrow> P x)"

named_theorems yield_intros \<open>what successful reads return\<close>

lemma yieldsD: "yields P A \<Longrightarrow> A = cf_ok x r \<Longrightarrow> P x"
  by (simp add: yields_def)

lemma yields_ok: "P x \<Longrightarrow> yields P (cf_ok x r)"
  by (simp add: yields_def)

lemma yields_err [yield_intros]: "yields P (cf_err e)"
  by (simp add: yields_def)

lemma yields_any: "yields (\<lambda>_. True) A"
  by (simp add: yields_def)

lemma yields_cf_then:
  assumes "yields P A" "\<And>x r. P x \<Longrightarrow> yields Q (f x r)"
  shows "yields Q (cf_then A f)"
  using assms by (cases A rule: cf_cases) (auto simp: yields_def)

lemma yields_skip: "(\<And>x r. yields Q (f x r)) \<Longrightarrow> yields Q (cf_then A f)"
  by (rule yields_cf_then [OF yields_any])

lemma yields_if [yield_intros]:
  "(b \<Longrightarrow> yields P A) \<Longrightarrow> (\<not> b \<Longrightarrow> yields P B) \<Longrightarrow> yields P (if b then A else B)"
  by simp

lemma yields_items: "(\<And>bs. yields P (g bs)) \<Longrightarrow> yields (\<lambda>xs. length xs = n \<and> list_all P xs) (rd_items n g bs)"
proof (induction n arbitrary: bs)
  case (Suc n)
  show ?case by (simp, rule yields_cf_then [OF Suc.prems], rule yields_cf_then [OF Suc.IH], rule Suc.prems)
      (rule yields_ok, simp)
qed (simp add: yields_ok)

lemma yields_counted:
  assumes "\<And>bs. yields P (g bs)"
  shows "yields (list_all P) (rd_counted e bl g bs)"
  unfolding rd_counted_def
proof (rule yields_skip, rule yields_if, rule yields_err)
  fix n :: int and r
  from yields_items [OF assms] show "yields (list_all P) (rd_items (nat n) g r)"
    by (fastforce simp: yields_def)
qed

text \<open>The tags \<open>ts\<close> give every address an item holds the type the item needs.\<close>

fun tagged_item :: "byte list \<Rightarrow> item \<Rightarrow> bool" where
  "tagged_item ts (IVal (VArr a)) \<longleftrightarrow> a < length ts \<and> ts ! a = 2"
| "tagged_item ts (IVal (VRec a)) \<longleftrightarrow> a < length ts \<and> ts ! a = 3"
| "tagged_item ts (IVal (VClo _ _ _ e)) \<longleftrightarrow> (case e of None \<Rightarrow> True | Some a \<Rightarrow> a < length ts \<and> ts ! a = 1)"
| "tagged_item ts (IVal _) \<longleftrightarrow> True"
| "tagged_item ts (IEnv e) \<longleftrightarrow> (case e of None \<Rightarrow> True | Some a \<Rightarrow> a < length ts \<and> ts ! a = 1)"

lemma typed_of_tagged: "map obj_tag obs = ts \<Longrightarrow> tagged_item ts it \<Longrightarrow> typed_item obs it"
  by (cases "(ts, it)" rule: tagged_item.cases) (auto split: option.splits)

lemma yields_ref: "yields (\<lambda>x. case x of None \<Rightarrow> True | Some a \<Rightarrow> a < length ts) (rd_ref ts bs)"
  unfolding rd_ref_def Let_def
  by (intro yields_skip yields_if yields_err) (auto intro!: yields_ok simp: not_le zless_nat_eq_int_zless)

lemma yields_env: "yields (\<lambda>e. tagged_item ts (IEnv e)) (rd_env ts bs)"
  unfolding rd_env_def by (rule yields_cf_then [OF yields_ref]) (auto intro: yields_ok yields_err split: option.splits)

lemma yields_obj_ref: "yields (\<lambda>a. a < length ts \<and> ts ! a = t) (rd_obj_ref t e ts bs)"
  unfolding rd_obj_ref_def by (rule yields_cf_then [OF yields_ref]) (auto intro: yields_ok yields_err split: option.splits)

lemma yields_val: "yields (\<lambda>v. tagged_item ts (IVal v)) (rd_val ts bl bs)"
  unfolding rd_val_def rd_val_body_def
proof (rule yields_skip, intro yields_if)
  fix r
  show "yields (\<lambda>v. tagged_item ts (IVal v)) (cf_then (rd_obj_ref 2 NotArray ts r) (\<lambda>a r. cf_ok (VArr a) r))"
    by (rule yields_cf_then [OF yields_obj_ref]) (rule yields_ok, simp)
  show "yields (\<lambda>v. tagged_item ts (IVal v)) (cf_then (rd_obj_ref 3 NotRecord ts r) (\<lambda>a r. cf_ok (VRec a) r))"
    by (rule yields_cf_then [OF yields_obj_ref]) (rule yields_ok, simp)
  show "yields (\<lambda>v. tagged_item ts (IVal v)) (cf_then (rd_string r) (\<lambda>d r1. cf_then (rd_path r1) (\<lambda>p r2.
        cf_then (rd_env ts r2) (\<lambda>e r3. cf_ok (VClo (bl - length bs) d p e) r3))))"
    by (rule yields_skip, rule yields_skip, rule yields_cf_then [OF yields_env]) (rule yields_ok, simp)
qed (intro yields_skip yields_ok yields_err; simp)+


lemma yields_field: "yields (\<lambda>(k, v). tagged_item ts (IVal v)) (rd_field ts bl bs)"
  unfolding rd_field_def
  by (rule yields_skip, rule yields_cf_then [OF yields_val]) (rule yields_ok, simp)

definition tagged_obj :: "byte list \<Rightarrow> obj \<Rightarrow> bool" where
  "tagged_obj ts ob \<longleftrightarrow> list_all (tagged_item ts) (intern_fields ob) \<and>
     (case ob of HRec ks m \<Rightarrow> dom m = set ks | _ \<Rightarrow> True)"

lemma field_val_mem: "k \<in> fst ` set kvs \<Longrightarrow> (k, field_val (map_of (rev kvs)) k) \<in> set kvs"
proof -
  assume "k \<in> fst ` set kvs"
  then obtain v where v: "map_of (rev kvs) k = Some v"
    by (metis domIff dom_map_of_conv_image_fst not_None_eq set_rev)
  then have "(k, v) \<in> set (rev kvs)" by (rule map_of_SomeD)
  with v show ?thesis by (simp add: field_val_def)
qed

lemma yields_obj:
  assumes "t \<in> {1, 2, 3}"
  shows "yields (\<lambda>ob. obj_tag ob = t \<and> tagged_obj ts ob) (rd_obj ts bl t bs)"
  unfolding rd_obj_def
proof (intro yields_if)
  assume "t = 1"
  then show "yields (\<lambda>ob. obj_tag ob = t \<and> tagged_obj ts ob) (cf_then (rd_env ts bs) (\<lambda>p r.
      cf_then (rd_counted (\<lambda>_. TooManySlots) bl (rd_val ts bl) r) (\<lambda>vs r'. cf_ok (HEnv p vs) r')))"
    by (intro yields_cf_then [OF yields_env] yields_cf_then [OF yields_counted [OF yields_val]] yields_ok)
      (simp add: obj_tag_def tagged_obj_def)
next
  assume "t = 2"
  then show "yields (\<lambda>ob. obj_tag ob = t \<and> tagged_obj ts ob)
      (cf_then (rd_counted (\<lambda>_. TooManyElems) bl (rd_val ts bl) bs) (\<lambda>vs r. cf_ok (HArr vs) r))"
    by (intro yields_cf_then [OF yields_counted [OF yields_val]] yields_ok) (simp add: obj_tag_def tagged_obj_def)
next
  assume n: "t \<noteq> 1" "t \<noteq> 2"
  show "yields (\<lambda>ob. obj_tag ob = t \<and> tagged_obj ts ob)
      (cf_then (rd_counted (\<lambda>_. TooManyKeys) bl (rd_field ts bl) bs) (\<lambda>kvs r.
        cf_ok (HRec (map fst kvs) (map_of (rev kvs))) r))"
  proof (intro yields_cf_then [OF yields_counted [OF yields_field]] yields_ok)
    fix kvs :: "(string \<times> val) list" and r
    assume "list_all (\<lambda>(k, v). tagged_item ts (IVal v)) kvs"
    then have "tagged_item ts (IVal v)" if "(k, v) \<in> set kvs" for k v using that by (auto simp: list_all_iff)
    with field_val_mem have "tagged_item ts (IVal (field_val (map_of (rev kvs)) k))" if "k \<in> fst ` set kvs" for k
      using that by blast
    moreover have "dom (map_of (rev kvs)) = fst ` set kvs" by (simp add: dom_map_of_conv_image_fst)
    ultimately show "obj_tag (HRec (map fst kvs) (map_of (rev kvs))) = t \<and>
        tagged_obj ts (HRec (map fst kvs) (map_of (rev kvs)))"
      using assms n by (auto simp: obj_tag_def tagged_obj_def list_all_iff)
  qed
qed

lemma yields_fill:
  "set us \<subseteq> {1, 2, 3} \<Longrightarrow>
     yields (\<lambda>obs. map obj_tag obs = us \<and> list_all (tagged_obj ts) obs) (rd_fill ts bl us bs)"
proof (induction us arbitrary: bs)
  case (Cons u us)
  then have u: "u \<in> {1, 2, 3}" and us: "set us \<subseteq> {1, 2, 3}" by auto
  show ?case
    by (simp, rule yields_cf_then [OF yields_obj [OF u]], rule yields_cf_then [OF Cons.IH [OF us]])
      (rule yields_ok, simp)
qed (simp add: yields_ok)

lemma yields_obj_type: "yields (\<lambda>t. t \<in> {1, 2, 3}) (rd_obj_type bs)"
  unfolding rd_obj_type_def by (intro yields_skip yields_if yields_ok yields_err)

definition tagged_heap :: "byte list \<times> obj list \<Rightarrow> bool" where
  "tagged_heap x \<longleftrightarrow> map obj_tag (snd x) = fst x \<and> list_all (tagged_obj (fst x)) (snd x)"

lemma yields_heap: "yields tagged_heap (load_heap bl bs)"
  unfolding load_heap_def
proof (rule yields_cf_then [OF yields_counted [OF yields_obj_type]])
  fix ts :: "byte list" and r assume "list_all (\<lambda>t. t \<in> {1, 2, 3}) ts"
  then have "set ts \<subseteq> {1, 2, 3}" by (auto simp: list_all_iff)
  from yields_fill [OF this, of ts bl r] show "yields tagged_heap (cf_then (rd_fill ts bl ts r) (\<lambda>obs r'. cf_ok (ts, obs) r'))"
    by (rule yields_cf_then) (rule yields_ok, simp add: tagged_heap_def)
qed

lemma yields_pend:
  "yields (\<lambda>p. case p of None \<Rightarrow> True | Some (k, v) \<Rightarrow> tagged_item ts (IVal v)) (rd_pend ts bl bs)"
  unfolding rd_pend_def
proof (rule yields_skip, rule yields_if)
  fix r
  show "yields (\<lambda>p. case p of None \<Rightarrow> True | Some (k, v) \<Rightarrow> tagged_item ts (IVal v))
      (cf_then (rd_enum BadPending sig_kinds r) (\<lambda>k r1. cf_then (rd_val ts bl r1) (\<lambda>v r2. cf_ok (Some (k, v)) r2)))"
    by (rule yields_skip, rule yields_cf_then [OF yields_val]) (rule yields_ok, simp)
qed (simp add: yields_ok)

lemma yields_frame: "yields (\<lambda>f. list_all (tagged_item ts) (frame_items f)) (rd_frame ts bl bs)"
  unfolding rd_frame_def
  by (rule yields_skip, rule yields_skip, rule yields_skip, rule yields_skip,
      rule yields_cf_then [OF yields_counted [OF yields_val]],
      rule yields_cf_then [OF yields_env], rule yields_cf_then [OF yields_env], rule yields_skip, rule yields_skip,
      rule yields_cf_then [OF yields_env], rule yields_cf_then [OF yields_val], rule yields_skip,
      rule yields_cf_then [OF yields_val], rule yields_cf_then [OF yields_pend], rule yields_ok)
    (auto simp: frame_items_def split: option.splits)

text \<open>Every address of the state, in its registers, frames and objects, is that of an object of the
  type its holder expects, and a record has exactly the keys it lists.\<close>

definition closed_heap :: "obj list \<Rightarrow> bool" where
  "closed_heap obs \<longleftrightarrow> (\<forall>ob\<in>set obs. list_all (typed_item obs) (intern_fields ob) \<and>
     (case ob of HRec ks m \<Rightarrow> dom m = set ks | _ \<Rightarrow> True))"

definition closed_state :: "state \<Rightarrow> bool" where
  "closed_state st \<longleftrightarrow> closed_heap (h_objs (s_heap st)) \<and>
     list_all (typed_item (h_objs (s_heap st))) (state_items st)"

lemma closed_of_tagged:
  assumes "tagged_heap (ts, obs)"
  shows "closed_heap obs" and "list_all (tagged_item ts) items \<Longrightarrow> list_all (typed_item obs) items"
proof -
  have m: "map obj_tag obs = ts" and o: "list_all (tagged_obj ts) obs"
    using assms by (simp_all add: tagged_heap_def)
  show "list_all (tagged_item ts) items \<Longrightarrow> list_all (typed_item obs) items" for items
    using typed_of_tagged [OF m] by (auto simp: list_all_iff)
  then show "closed_heap obs" using o by (auto simp: closed_heap_def tagged_obj_def list_all_iff)
qed

lemma yields_state: "yields closed_state (rd_state bl bs)"
proof -
  have fin: "yields closed_state (cf_then (rd_string b1) (\<lambda>d b2.
     cf_then (rd_path b2) (\<lambda>p b3.
     cf_then (rd_enum BadMode modes b3) (\<lambda>mo b4.
     cf_then (rd_enum BadPark park_kinds b4) (\<lambda>pk b5.
     cf_then (rd_enum BadTier tiers b5) (\<lambda>ti b6.
     cf_then (rd_svarint b6) (\<lambda>fs b7.
     cf_then (rd_svarint b7) (\<lambda>fa b8.
     cf_then (rd_val ts bl b8) (\<lambda>v b9.
     cf_then (rd_enum BadSignal sig_kinds b9) (\<lambda>sk b10.
     cf_then (rd_val ts bl b10) (\<lambda>sv b11.
     cf_then (rd_env ts b11) (\<lambda>en b12.
     cf_then (rd_counted TooManyFrames bl (rd_frame ts bl) b12) (\<lambda>ks b13.
     cf_ok \<lparr>s_def = d, s_path = p, s_mode = mo, s_val = v, s_sig = (sk, sv), s_env = en,
       s_kont = rev ks, s_tier = ti, s_fuel_steps = word_of_int fs, s_fuel_alloc = word_of_int fa,
       s_park = pk, s_heap = \<lparr>h_objs = obs, h_next = bl - length b13\<rparr>\<rparr> b13)))))))))))))"
    if h: "tagged_heap (ts, obs)" for ts obs b1
    by (rule yields_skip, rule yields_skip, rule yields_skip, rule yields_skip, rule yields_skip,
        rule yields_skip, rule yields_skip, rule yields_cf_then [OF yields_val], rule yields_skip,
        rule yields_cf_then [OF yields_val], rule yields_cf_then [OF yields_env],
        rule yields_cf_then [OF yields_counted [OF yields_frame]], rule yields_ok,
        unfold closed_state_def, rule conjI, simp add: closed_of_tagged(1) [OF h],
        simp only: state.simps heap.simps, rule closed_of_tagged(2) [OF h])
      (auto simp: state_items_def list_all_iff)
  show ?thesis
    unfolding rd_state_def by (rule yields_cf_then [OF yields_heap]) (use fin in \<open>auto split: prod.splits\<close>)
qed

lemma decode_closed:
  assumes "decode_state bs = Inr st"
  shows "closed_state st"
  using assms yieldsD [OF yields_state] by (auto simp: decode_state_def rd_blob_Inr)

end
