(* ===== verification/Cfr_Theorems.thy ===== *)
theory Cfr_Theorems
  imports Cfr_Closed Cek_Resume Cek_Samples
begin

section \<open>Properties of the frozen form\<close>

subsection \<open>Re-entering a frozen machine\<close>









subsection \<open>Samples\<close>

text \<open>A check that a heap without records is typed, for evaluation.\<close>

definition plain_state :: "state \<Rightarrow> bool" where
  "plain_state st \<longleftrightarrow> (let obs = h_objs (s_heap st) in
     list_all (\<lambda>ob. obj_tag ob \<noteq> 3 \<and> list_all (typed_item obs) (intern_fields ob)) obs \<and>
     list_all (typed_item obs) (state_items st) \<and>
     list_all (\<lambda>f. i64_range (f_idx f) \<and> i64_range (f_aux f)) (s_kont st) \<and>
     fits_buffer (length (encode_state st)))"

lemma plain_keys: "obj_tag ob \<noteq> 3 \<Longrightarrow> keys_ok ob"
  by (cases ob) (simp_all add: obj_tag_def keys_ok_def)

lemma plain_typed: "plain_state st \<Longrightarrow> typed_state st"
  by (auto simp: plain_state_def typed_state_def typed_heap_def typed_obj_def Let_def plain_keys list_all_iff)

text \<open>A parked array that holds one closure twice.\<close>

definition twin_state :: state where
  "twin_state = \<lparr>s_def = ''f'', s_path = [], s_mode = ModeApply, s_val = VArr 0, s_sig = (SigThrow, VUndef),
     s_env = None, s_kont = [], s_tier = TierTrusted, s_fuel_steps = 0, s_fuel_alloc = 0, s_park = ParkWake,
     s_heap = \<lparr>h_objs = [HArr [VClo 7 ''f'' [] None, VClo 7 ''f'' [] None]], h_next = 8\<rparr>\<rparr>"

lemma twin_typed: "typed_state twin_state"
  by (rule plain_typed) code_simp

lemma twin_decoded: "\<exists>st. decode_state (encode_state twin_state) = Inr st \<and>
    get_arr (s_heap st) 0 = Some [VClo 4 ''f'' [] None, VClo 9 ''f'' [] None]"
proof -
  have "case decode_state (encode_state twin_state) of Inl _ \<Rightarrow> False
      | Inr st \<Rightarrow> get_arr (s_heap st) 0 = Some [VClo 4 ''f'' [] None, VClo 9 ''f'' [] None]"
    by code_simp
  then show ?thesis by (auto split: sum.splits)
qed


subsection \<open>Properties\<close>

text \<open>C27: a parked state that is frozen and read back is the same state on a fresh heap: every
  reachable object is written once, so aliasing and cycles survive, and nothing else changes but the
  identities of closures and opaque handles and the live nodes of frames.\<close>

theorem frozen_roundtrip:
  assumes "typed_state st"
  shows "\<exists>st'. decode_state (encode_state st) = Inr st' \<and> anon_state st' = reloc_state st"
  using assms by (rule decode_encode_state)

lemma frozen_roundtrip_witness:
  "\<exists>st'. decode_state (encode_state twin_state) = Inr st' \<and> anon_state st' = reloc_state twin_state"
  using frozen_roundtrip [OF twin_typed] .



text \<open>The decoder never accepts a prefix: whatever blob it accepts, encoded or forged, it refuses
  with any bytes added behind it, so a truncated or concatenated blob yields an error and no state.\<close>

theorem frozen_no_prefix:
  assumes "decode_state bs = Inr st" and "s \<noteq> []"
  shows "decode_state (bs @ s) = Inl (Trailing (length s))"
  using assms unfolding decode_state_def by (rule state_reader.blob_more)

lemma frozen_no_prefix_witness:
  "decode_state (encode_state twin_state @ [0]) = Inl (Trailing 1)"
proof -
  obtain st where "decode_state (encode_state twin_state) = Inr st" using twin_decoded by blast
  from frozen_no_prefix [OF this, of "[0]"] show ?thesis by simp
qed

text \<open>C29: a state the decoder yields, whatever the blob, is closed and typed: every address in its
  registers, frames and objects is that of an object of the type its holder expects.\<close>

theorem decoded_state_closed:
  assumes "decode_state bs = Inr st"
  shows "closed_state st"
  using assms by (rule decode_closed)

lemma decoded_state_closed_witness:
  "\<exists>st. decode_state (encode_state twin_state) = Inr st \<and> closed_state st"
proof -
  obtain st where "decode_state (encode_state twin_state) = Inr st" using twin_decoded by blast
  with decoded_state_closed [OF this] show ?thesis by blast
qed

text \<open>Closures are written in line, so one closure held twice comes back as two: two values equal
  under \<open>===\<close> when the state was parked differ after it is read back.\<close>

theorem frozen_closure_splits:
  "\<exists>st f g f' g'. get_arr (s_heap twin_state) 0 = Some [f, g] \<and> strict_eq f g \<and>
     decode_state (encode_state twin_state) = Inr st \<and> get_arr (s_heap st) 0 = Some [f', g'] \<and>
     \<not> strict_eq f' g'"
proof -
  obtain st where st: "decode_state (encode_state twin_state) = Inr st"
      "get_arr (s_heap st) 0 = Some [VClo 4 ''f'' [] None, VClo 9 ''f'' [] None]"
    using twin_decoded by blast
  have "get_arr (s_heap twin_state) 0 = Some [VClo 7 ''f'' [] None, VClo 7 ''f'' [] None]"
    by code_simp
  moreover have "strict_eq (VClo 7 ''f'' [] None) (VClo 7 ''f'' [] None)"
    and "\<not> strict_eq (VClo 4 ''f'' [] None) (VClo 9 ''f'' [] None)"
    by (simp_all add: strict_eq_def)
  ultimately show ?thesis using st by blast
qed

end
