(* ===== verification/Cfr_Store.thy ===== *)
theory Cfr_Store
  imports Cfr_Codec Cek_Natives
begin

section \<open>The continuation store: tables and transactions\<close>

text \<open>
  The durable side of the machine (\<open>internal/cfr/store.go\<close>, \<open>step.go\<close>, \<open>park_outcome.go\<close>,
  \<open>match.go\<close>, \<open>dispatch.go\<close>).  The database is a record of tables, a table a list of rows in the
  order they were inserted, each with its primary key.  A transaction body takes the database to an
  error, which rolls everything back, or to a result and the new database; the isolation level is
  SERIALIZABLE, so committed transactions are run one after the other.  Columns that hold JSON hold
  the documents the code builds, as records of the fields it reads back.  \<open>NOTIFY\<close> only shortens the
  wait of a polling loop and is left out, as are the columns no code reads.  Time is in microseconds
  and does not leave the range of a timestamp, and the texts hold no NUL.  Of the constraints of
  \<open>internal/catalog/sql/schema.sql\<close> the shape of a condition class is checked; the uniqueness of the
  outbox key never fails, which is proved; a root definition is taken to be in the catalog.
\<close>

subsection \<open>Rows\<close>

type_synonym uid = string

datatype cont_status = Sleeping | Ready | Running | InCondition | Finished | Failed | Cancelled

text \<open>A JSON scalar; \<open>JBad\<close> is what \<open>json.Marshal\<close> leaves of a NaN or an infinity, no literal at all.\<close>

datatype scalar = JStr string | JNum f64 | JBool bool | JBad

record match_shape =
  ms_path :: string
  ms_equals :: scalar

record wake_row =
  wr_kind :: string
  wr_due :: int
  wr_channel :: string
  wr_match :: "match_shape option"
  wr_message :: uid
  wr_children :: "uid list"
  wr_quorum :: int
  wr_mode :: string
  wr_winner :: uid
  wr_stream :: string
  wr_on :: "string list"

definition wake_of_kind :: "string \<Rightarrow> wake_row" where
  "wake_of_kind k = \<lparr>wr_kind = k, wr_due = 0, wr_channel = [], wr_match = None, wr_message = [],
     wr_children = [], wr_quorum = 0, wr_mode = [], wr_winner = [], wr_stream = [], wr_on = []\<rparr>"

record principal_row =
  pr_subject :: string
  pr_operator :: bool
  pr_parent :: uid
  pr_ordinal :: nat

record cont =
  ct_kind :: string
  ct_root :: string
  ct_epoch :: int
  ct_frames :: bytes
  ct_result :: "bytes option"
  ct_wake :: wake_row
  ct_status :: cont_status
  ct_seq :: int
  ct_owner :: "uid option"
  ct_lease :: int
  ct_principal :: principal_row
  ct_updated :: int

record cond_row =
  cd_cont :: uid
  cd_class :: string
  cd_payload :: any_map
  cd_signaled :: int
  cd_open :: bool
  cd_restart :: uid
  cd_args :: any_map
  cd_by :: string

record restart_row =
  rr_cond :: uid
  rr_name :: string
  rr_label :: string
  rr_cap :: "string option"

record outbox_row =
  ob_cont :: uid
  ob_seq :: int
  ob_ordinal :: nat
  ob_class :: string
  ob_payload :: any_map
  ob_delivered :: bool

record message_row =
  mg_channel :: string
  mg_payload :: bytes
  mg_by :: string
  mg_sent :: int
  mg_claimed :: "uid option"

datatype task_pay = PayResume uid int | PayDeliver uid "uid \<times> int \<times> nat" | PayCron any_map
datatype task_status = TaskReady | TaskRunning | TaskDone | TaskDead

record task_row =
  tk_pay :: task_pay
  tk_run_at :: int
  tk_status :: task_status
  tk_attempts :: nat
  tk_owner :: "uid option"
  tk_lease :: int

record grant_row =
  gr_subject :: string
  gr_capability :: string
  gr_expires :: "int option"

type_synonym 'a table = "(uid \<times> 'a) list"

record db =
  db_conts :: "cont table"
  db_conds :: "cond_row table"
  db_restarts :: "restart_row table"
  db_outbox :: "outbox_row table"
  db_messages :: "message_row table"
  db_tasks :: "task_row table"
  db_grants :: "grant_row list"
  db_epoch :: "int option"
  db_drawn :: nat

text \<open>Who runs a transaction and when; \<open>en_uuid n\<close> is the \<open>n\<close>-th identifier \<open>uuid4\<close> draws.\<close>

record env =
  en_kernel :: uid
  en_epoch :: int
  en_lease :: int
  en_now :: int
  en_uuid :: "nat \<Rightarrow> uid"

definition lease_secs :: "env \<Rightarrow> int" where
  "lease_secs E = (if en_lease E \<le> 0 then 30 else en_lease E)"

definition epoch_or_one :: "env \<Rightarrow> int" where
  "epoch_or_one E = (if en_epoch E \<le> 0 then 1 else en_epoch E)"

definition default_fuel :: "tier \<Rightarrow> i64" where
  "default_fuel t = (if t = TierTrusted then 0 else 2 ^ 30)"

definition default_alloc :: "tier \<Rightarrow> i64" where
  "default_alloc t = (if t = TierTrusted then 0 else 2 ^ 40)"

subsection \<open>Transactions\<close>

datatype tx_error =
    ErrFence int int | ErrNotResolved | ErrRestartNotFound | ErrRefused string | ErrNotOpen uid |
    ErrLostFence uid | ErrDecode cfr_error | ErrJson | ErrPanic | ErrNoInterp | ErrThunk nat |
    ErrInitial cek_error | ErrResolved | ErrMoved | ErrNoRow | ErrCheck

type_synonym 'a tx = "db \<Rightarrow> tx_error + 'a \<times> db"

definition tx_ret :: "'a \<Rightarrow> 'a tx" where
  "tx_ret x d = Inr (x, d)"

definition tx_fail :: "tx_error \<Rightarrow> 'a tx" where
  "tx_fail e d = Inl e"

definition tx_bind :: "'a tx \<Rightarrow> ('a \<Rightarrow> 'b tx) \<Rightarrow> 'b tx" where
  "tx_bind m f d = (case m d of Inl e \<Rightarrow> Inl e | Inr (x, d') \<Rightarrow> f x d')"

definition tx_seq :: "unit tx \<Rightarrow> 'b tx \<Rightarrow> 'b tx" where
  "tx_seq m n = tx_bind m (\<lambda>_. n)"

definition tx_get :: "(db \<Rightarrow> 'a) \<Rightarrow> 'a tx" where
  "tx_get f d = Inr (f d, d)"

definition tx_put :: "(db \<Rightarrow> db) \<Rightarrow> unit tx" where
  "tx_put g d = Inr ((), g d)"

definition tx_try :: "tx_error + 'a \<Rightarrow> 'a tx" where
  "tx_try x = (case x of Inl e \<Rightarrow> tx_fail e | Inr a \<Rightarrow> tx_ret a)"

fun tx_each :: "('a \<Rightarrow> unit tx) \<Rightarrow> 'a list \<Rightarrow> unit tx" where
  "tx_each f [] = tx_ret ()"
| "tx_each f (x # xs) = tx_seq (f x) (tx_each f xs)"

text \<open>\<open>Begin \<dots> Commit\<close> around a body, with the deferred rollback.\<close>

definition commit :: "'a tx \<Rightarrow> db \<Rightarrow> (tx_error + 'a) \<times> db" where
  "commit m d = (case m d of Inl e \<Rightarrow> (Inl e, d) | Inr (x, d') \<Rightarrow> (Inr x, d'))"

subsection \<open>Statements\<close>

text \<open>\<open>UPDATE \<dots> WHERE\<close> returns the number of rows it changed.\<close>

definition matching :: "(uid \<Rightarrow> 'a \<Rightarrow> bool) \<Rightarrow> 'a table \<Rightarrow> nat" where
  "matching P t = length (filter (\<lambda>(k, r). P k r) t)"

definition upd_rows :: "(uid \<Rightarrow> 'a \<Rightarrow> bool) \<Rightarrow> ('a \<Rightarrow> 'a) \<Rightarrow> 'a table \<Rightarrow> 'a table" where
  "upd_rows P f t = map (\<lambda>(k, r). if P k r then (k, f r) else (k, r)) t"

definition update_conts :: "(uid \<Rightarrow> cont \<Rightarrow> bool) \<Rightarrow> (cont \<Rightarrow> cont) \<Rightarrow> nat tx" where
  "update_conts P f = tx_bind (tx_get (\<lambda>d. matching P (db_conts d))) (\<lambda>n.
     tx_seq (tx_put (\<lambda>d. d\<lparr>db_conts := upd_rows P f (db_conts d)\<rparr>)) (tx_ret n))"

definition update_conds :: "(uid \<Rightarrow> cond_row \<Rightarrow> bool) \<Rightarrow> (cond_row \<Rightarrow> cond_row) \<Rightarrow> nat tx" where
  "update_conds P f = tx_bind (tx_get (\<lambda>d. matching P (db_conds d))) (\<lambda>n.
     tx_seq (tx_put (\<lambda>d. d\<lparr>db_conds := upd_rows P f (db_conds d)\<rparr>)) (tx_ret n))"

definition update_messages :: "(uid \<Rightarrow> message_row \<Rightarrow> bool) \<Rightarrow> (message_row \<Rightarrow> message_row) \<Rightarrow> nat tx" where
  "update_messages P f = tx_bind (tx_get (\<lambda>d. matching P (db_messages d))) (\<lambda>n.
     tx_seq (tx_put (\<lambda>d. d\<lparr>db_messages := upd_rows P f (db_messages d)\<rparr>)) (tx_ret n))"

definition update_outbox :: "(uid \<Rightarrow> outbox_row \<Rightarrow> bool) \<Rightarrow> (outbox_row \<Rightarrow> outbox_row) \<Rightarrow> nat tx" where
  "update_outbox P f = tx_bind (tx_get (\<lambda>d. matching P (db_outbox d))) (\<lambda>n.
     tx_seq (tx_put (\<lambda>d. d\<lparr>db_outbox := upd_rows P f (db_outbox d)\<rparr>)) (tx_ret n))"

definition find_cont :: "uid \<Rightarrow> cont option tx" where
  "find_cont k = tx_get (\<lambda>d. map_of (db_conts d) k)"

definition uuid4 :: "env \<Rightarrow> uid tx" where
  "uuid4 E = tx_bind (tx_get db_drawn) (\<lambda>n.
     tx_seq (tx_put (\<lambda>d. d\<lparr>db_drawn := Suc n\<rparr>)) (tx_ret (en_uuid E n)))"

definition insert_cont :: "uid \<Rightarrow> cont \<Rightarrow> unit tx" where
  "insert_cont k r = tx_put (\<lambda>d. d\<lparr>db_conts := db_conts d @ [(k, r)]\<rparr>)"

definition insert_cond :: "uid \<Rightarrow> cond_row \<Rightarrow> unit tx" where
  "insert_cond k r = tx_put (\<lambda>d. d\<lparr>db_conds := db_conds d @ [(k, r)]\<rparr>)"

definition insert_restart :: "uid \<Rightarrow> restart_row \<Rightarrow> unit tx" where
  "insert_restart k r = tx_put (\<lambda>d. d\<lparr>db_restarts := db_restarts d @ [(k, r)]\<rparr>)"

definition insert_outbox :: "uid \<Rightarrow> outbox_row \<Rightarrow> unit tx" where
  "insert_outbox k r = tx_put (\<lambda>d. d\<lparr>db_outbox := db_outbox d @ [(k, r)]\<rparr>)"

definition insert_message :: "uid \<Rightarrow> message_row \<Rightarrow> unit tx" where
  "insert_message k r = tx_put (\<lambda>d. d\<lparr>db_messages := db_messages d @ [(k, r)]\<rparr>)"

definition insert_task :: "uid \<Rightarrow> task_row \<Rightarrow> unit tx" where
  "insert_task k r = tx_put (\<lambda>d. d\<lparr>db_tasks := db_tasks d @ [(k, r)]\<rparr>)"

definition new_task :: "env \<Rightarrow> int \<Rightarrow> task_pay \<Rightarrow> unit tx" where
  "new_task E at p = tx_bind (uuid4 E) (\<lambda>k. insert_task k
     \<lparr>tk_pay = p, tk_run_at = at, tk_status = TaskReady, tk_attempts = 0, tk_owner = None, tk_lease = 0\<rparr>)"

definition insert_resume_task :: "env \<Rightarrow> uid \<Rightarrow> int \<Rightarrow> unit tx" where
  "insert_resume_task E cid sq = new_task E (en_now E) (PayResume cid sq)"

definition enqueue_deliver_task :: "env \<Rightarrow> uid \<Rightarrow> uid \<times> int \<times> nat \<Rightarrow> unit tx" where
  "enqueue_deliver_task E intent dedup = new_task E (en_now E) (PayDeliver intent dedup)"

text \<open>Some texts are put into JSON with Go's \<open>%q\<close>, whose escapes for the control characters other than
  backspace, tab, line feed, form feed and carriage return are not JSON, so that the cast to \<open>jsonb\<close>
  fails.  Bytes above 127 are taken to be runes that Go holds printable.\<close>

definition json_quoted :: "string \<Rightarrow> bool" where
  "json_quoted s \<longleftrightarrow> list_all (\<lambda>c. let n = of_char c :: nat in 32 \<le> n \<and> n \<noteq> 127 \<or> n \<in> {8, 9, 10, 12, 13}) s"

text \<open>\<open>INSERT INTO continuation\<close> with the columns its callers give; the others are the defaults.\<close>

definition new_cont :: "env \<Rightarrow> string \<Rightarrow> string \<Rightarrow> int \<Rightarrow> bytes \<Rightarrow> wake_row \<Rightarrow> cont_status \<Rightarrow> principal_row \<Rightarrow> cont" where
  "new_cont E kind root epoch frames w st pr =
     \<lparr>ct_kind = kind, ct_root = root, ct_epoch = epoch, ct_frames = frames, ct_result = None,
      ct_wake = w, ct_status = st, ct_seq = 0, ct_owner = None, ct_lease = 0, ct_principal = pr,
      ct_updated = en_now E\<rparr>"

end
