(* ===== verification/Cfr_Deliver.thy ===== *)
theory Cfr_Deliver
  imports Cfr_Store
begin

section \<open>Messages, joins and what a resume delivers\<close>

text \<open>
  \<open>match.go\<close> and the delivery side of \<open>step.go\<close>: match predicates over decoded payloads, the oldest
  matching message for a receiver and the oldest matching receiver for a message, and the value or
  restart a resume hands to the machine.  A value read from another row comes with a heap of its own;
  \<open>adopt\<close> moves it behind the objects of the state that receives it.
\<close>

subsection \<open>Predicates\<close>

definition value_scalar :: "val \<Rightarrow> scalar option" where
  "value_scalar v = (case v of
      VStr s \<Rightarrow> Some (JStr s)
    | VF64 n \<Rightarrow> Some (JNum n)
    | VBool n \<Rightarrow> Some (JBool (bool_of n))
    | VBig z \<Rightarrow> Some (JStr (int_str z))
    | _ \<Rightarrow> None)"

text \<open>\<open>valueToJSONScalar\<close>; the error of \<open>json.Marshal\<close> on a NaN or an infinity is dropped, which
  leaves an empty literal.\<close>

definition json_scalar :: "val \<Rightarrow> scalar option" where
  "json_scalar v = (case v of
      VF64 n \<Rightarrow> Some (if is_nan n \<or> is_inf n then JBad else JNum n)
    | _ \<Rightarrow> value_scalar v)"

fun scalar_equal :: "scalar \<Rightarrow> scalar \<Rightarrow> bool" where
  "scalar_equal (JStr g) (JStr w) \<longleftrightarrow> g = w"
| "scalar_equal (JNum g) (JNum w) \<longleftrightarrow> feq g w"
| "scalar_equal (JBool g) (JBool w) \<longleftrightarrow> g = w"
| "scalar_equal _ _ \<longleftrightarrow> False"

fun split_dots :: "string \<Rightarrow> string list" where
  "split_dots [] = [[]]"
| "split_dots (c # cs) =
     (if c = CHR ''.'' then [] # split_dots cs
      else case split_dots cs of [] \<Rightarrow> [[c]] | s # ss \<Rightarrow> (c # s) # ss)"

definition value_field :: "obj list \<Rightarrow> val \<Rightarrow> string \<Rightarrow> val option" where
  "value_field obs v k = (case v of
      VRec a \<Rightarrow> (case nth_go obs a of Some (HRec ks m) \<Rightarrow> m k | _ \<Rightarrow> None)
    | _ \<Rightarrow> None)"

fun navigate_fields :: "obj list \<Rightarrow> val \<Rightarrow> string list \<Rightarrow> val option" where
  "navigate_fields obs v [] = Some v"
| "navigate_fields obs v (k # ks) = do { w \<leftarrow> value_field obs v k; navigate_fields obs w ks }"

definition message_matches :: "obj list \<Rightarrow> val \<Rightarrow> match_shape option \<Rightarrow> bool" where
  "message_matches obs payload m = (case m of
      None \<Rightarrow> True
    | Some p \<Rightarrow> ms_path p = [] \<or>
        (case Option.bind (navigate_fields obs payload (split_dots (ms_path p))) value_scalar of
           None \<Rightarrow> False
         | Some got \<Rightarrow> scalar_equal got (ms_equals p)))"

definition wake_match_row :: "wake_match option \<Rightarrow> match_shape option" where
  "wake_match_row m = (case m of
      None \<Rightarrow> None
    | Some w \<Rightarrow> if wm_path w = [] \<or> \<not> wm_has w then None
        else map_option (\<lambda>s. \<lparr>ms_path = wm_path w, ms_equals = s\<rparr>) (json_scalar (wm_equals w)))"

text \<open>The JSON of a match with an empty literal is refused by the cast to \<open>jsonb\<close>.\<close>

definition json_match :: "match_shape option \<Rightarrow> bool" where
  "json_match m \<longleftrightarrow> (case m of None \<Rightarrow> True | Some p \<Rightarrow> ms_equals p \<noteq> JBad)"

subsection \<open>Values from other heaps\<close>

fun shift_val :: "nat \<Rightarrow> nat \<Rightarrow> val \<Rightarrow> val" where
  "shift_val n i (VArr a) = VArr (n + a)"
| "shift_val n i (VRec a) = VRec (n + a)"
| "shift_val n i (VClo j d p e) = VClo (i + j) d p (map_option ((+) n) e)"
| "shift_val n i (VOpq j c d) = VOpq (i + j) c d"
| "shift_val n i v = v"

fun shift_obj :: "nat \<Rightarrow> nat \<Rightarrow> obj \<Rightarrow> obj" where
  "shift_obj n i (HEnv p vs) = HEnv (map_option ((+) n) p) (map (shift_val n i) vs)"
| "shift_obj n i (HArr vs) = HArr (map (shift_val n i) vs)"
| "shift_obj n i (HRec ks m) = HRec ks (\<lambda>k. map_option (shift_val n i) (m k))"

text \<open>\<open>room\<close> bounds the identities the adopted objects carry: the length of the blob they came from.\<close>

definition adopt :: "nat \<Rightarrow> obj list \<times> val \<Rightarrow> heap \<Rightarrow> val \<times> heap" where
  "adopt room x H = (case x of (obs, v) \<Rightarrow>
     (let n = length (h_objs H); i = h_next H in
      (shift_val n i v, \<lparr>h_objs = h_objs H @ map (shift_obj n i) obs, h_next = i + room\<rparr>)))"

subsection \<open>Channels\<close>

definition oldest :: "('a \<Rightarrow> int) \<Rightarrow> 'a table \<Rightarrow> 'a table" where
  "oldest key t = sort_key (key \<circ> snd) t"

definition receivers :: "string \<Rightarrow> db \<Rightarrow> cont table" where
  "receivers ch d = oldest ct_updated (filter (\<lambda>(k, c). ct_status c = Sleeping \<and>
     wr_kind (ct_wake c) = ''message'' \<and> wr_channel (ct_wake c) = ch) (db_conts d))"

text \<open>\<open>deliverToOldestReceiver\<close>, over the receivers still to try.\<close>

fun deliver_to :: "env \<Rightarrow> uid \<Rightarrow> obj list \<Rightarrow> val \<Rightarrow> cont table \<Rightarrow> uid option tx" where
  "deliver_to E msg obs v [] = tx_ret None"
| "deliver_to E msg obs v ((k, c) # cs) =
     (if \<not> message_matches obs v (wr_match (ct_wake c)) then deliver_to E msg obs v cs
      else tx_bind (update_messages (\<lambda>i _. i = msg) (\<lambda>m. m\<lparr>mg_claimed := Some k\<rparr>)) (\<lambda>_.
        tx_bind (update_conts (\<lambda>i r. i = k \<and> ct_status r = Sleeping)
          (\<lambda>r. r\<lparr>ct_status := Ready, ct_wake := (ct_wake r)\<lparr>wr_message := msg\<rparr>, ct_updated := en_now E\<rparr>)) (\<lambda>n.
        if n \<noteq> 1 then deliver_to E msg obs v cs
        else tx_seq (insert_resume_task E k (ct_seq c)) (tx_ret (Some k)))))"

definition deliver_to_oldest :: "env \<Rightarrow> string \<Rightarrow> uid \<Rightarrow> obj list \<Rightarrow> val \<Rightarrow> uid option tx" where
  "deliver_to_oldest E ch msg obs v = tx_bind (tx_get (receivers ch)) (deliver_to E msg obs v)"

definition waiting_messages :: "string \<Rightarrow> db \<Rightarrow> message_row table" where
  "waiting_messages ch d = oldest mg_sent (filter (\<lambda>(k, m). mg_channel m = ch \<and> mg_claimed m = None) (db_messages d))"

definition payload_matches :: "bytes \<Rightarrow> match_shape option \<Rightarrow> tx_error + bool" where
  "payload_matches b m = (case m of
      None \<Rightarrow> Inr True
    | Some _ \<Rightarrow> (case decode_value b of Inl e \<Rightarrow> Inl (ErrDecode e) | Inr (obs, v) \<Rightarrow> Inr (message_matches obs v m)))"

text \<open>\<open>claimOldestMatchingMessage\<close>, over the messages still to try.\<close>

fun claim_from :: "uid \<Rightarrow> match_shape option \<Rightarrow> message_row table \<Rightarrow> uid option tx" where
  "claim_from k m [] = tx_ret None"
| "claim_from k m ((i, r) # ms) = tx_bind (tx_try (payload_matches (mg_payload r) m)) (\<lambda>ok.
     if \<not> ok then claim_from k m ms
     else tx_bind (update_messages (\<lambda>j q. j = i \<and> mg_claimed q = None) (\<lambda>q. q\<lparr>mg_claimed := Some k\<rparr>)) (\<lambda>n.
       if n \<noteq> 1 then claim_from k m ms else tx_ret (Some i)))"

definition claim_oldest_message :: "string \<Rightarrow> match_shape option \<Rightarrow> uid \<Rightarrow> uid option tx" where
  "claim_oldest_message ch m k = tx_bind (tx_get (waiting_messages ch)) (claim_from k m)"

text \<open>\<open>SendChannel\<close>: the sender's transaction.\<close>

definition send_channel :: "env \<Rightarrow> string \<Rightarrow> obj list \<Rightarrow> val \<Rightarrow> string \<Rightarrow> uid option tx" where
  "send_channel E ch obs v by = tx_bind (uuid4 E) (\<lambda>msg.
     tx_seq (insert_message msg \<lparr>mg_channel = ch, mg_payload = encode_value obs v, mg_by = by,
       mg_sent = en_now E, mg_claimed = None\<rparr>)
     (deliver_to_oldest E ch msg obs v))"

subsection \<open>Event wakes\<close>

definition watchers :: "string \<Rightarrow> db \<Rightarrow> cont table" where
  "watchers resource d = filter (\<lambda>(k, c). ct_status c = Sleeping \<and> wr_kind (ct_wake c) = ''event'' \<and>
     wr_stream (ct_wake c) = resource) (db_conts d)"

fun wake_each :: "env \<Rightarrow> string \<Rightarrow> nat \<Rightarrow> cont table \<Rightarrow> nat tx" where
  "wake_each E row n [] = tx_ret n"
| "wake_each E row n ((k, c) # cs) =
     (if wr_on (ct_wake c) \<noteq> [] \<and> row \<notin> set (wr_on (ct_wake c)) then wake_each E row n cs
      else tx_bind (update_conts (\<lambda>i r. i = k \<and> ct_status r = Sleeping)
          (\<lambda>r. r\<lparr>ct_status := Ready, ct_updated := en_now E\<rparr>)) (\<lambda>hit.
        if hit \<noteq> 1 then wake_each E row n cs
        else tx_seq (insert_resume_task E k (ct_seq c)) (wake_each E row (Suc n) cs)))"

definition wake_events :: "env \<Rightarrow> string \<Rightarrow> string \<Rightarrow> nat tx" where
  "wake_events E resource row = tx_bind (tx_get (watchers resource)) (wake_each E row 0)"

subsection \<open>What a resume delivers\<close>

text \<open>The newest resolved condition and its restart.\<close>

definition resolved_restart :: "uid \<Rightarrow> db \<Rightarrow> (string \<times> any_map) option" where
  "resolved_restart k d =
     (case rev (oldest cd_signaled (filter (\<lambda>(i, c). cd_cont c = k \<and> \<not> cd_open c \<and>
          map_of (db_restarts d) (cd_restart c) \<noteq> None) (db_conds d))) of
        [] \<Rightarrow> None
      | (i, c) # _ \<Rightarrow> map_option (\<lambda>r. (rr_name r, cd_args c)) (map_of (db_restarts d) (cd_restart c)))"

text \<open>A blob read from a row; an absent row or an empty blob is undefined.\<close>

definition load_value :: "bytes option \<Rightarrow> heap \<Rightarrow> tx_error + val \<times> heap" where
  "load_value b H = (case b of
      None \<Rightarrow> Inr (VUndef, H)
    | Some bs \<Rightarrow> if bs = [] then Inr (VUndef, H)
        else (case decode_value bs of Inl e \<Rightarrow> Inl (ErrDecode e) | Inr x \<Rightarrow> Inr (adopt (length bs) x H)))"

definition child_blob :: "db \<Rightarrow> uid \<Rightarrow> bytes option" where
  "child_blob d k = Option.bind (map_of (db_conts d) k) ct_result"

text \<open>\<open>loadMessagePayload\<close> does not test for an empty blob: decoding one is an error.\<close>

definition load_message :: "db \<Rightarrow> uid \<Rightarrow> heap \<Rightarrow> tx_error + val \<times> heap" where
  "load_message d i H = (case map_of (db_messages d) i of
      None \<Rightarrow> Inr (VUndef, H)
    | Some m \<Rightarrow> (case decode_value (mg_payload m) of
          Inl e \<Rightarrow> Inl (ErrDecode e) | Inr x \<Rightarrow> Inr (adopt (length (mg_payload m)) x H)))"

fun load_children :: "db \<Rightarrow> uid list \<Rightarrow> heap \<Rightarrow> tx_error + val list \<times> heap" where
  "load_children d [] H = Inr ([], H)"
| "load_children d (k # ks) H = (case load_value (child_blob d k) H of
      Inl e \<Rightarrow> Inl e
    | Inr (v, H1) \<Rightarrow> (case load_children d ks H1 of Inl e \<Rightarrow> Inl e | Inr (vs, H2) \<Rightarrow> Inr (v # vs, H2)))"

definition join_result :: "db \<Rightarrow> wake_row \<Rightarrow> heap \<Rightarrow> tx_error + val \<times> heap" where
  "join_result d w H =
     (if wr_mode w = ''race'' then
        (if wr_winner w = [] then Inr (VUndef, H) else load_value (child_blob d (wr_winner w)) H)
      else case load_children d (wr_children w) H of
          Inl e \<Rightarrow> Inl e
        | Inr (vs, H') \<Rightarrow> (case alloc (HArr vs) H' of (a, H'') \<Rightarrow> Inr (VArr a, H'')))"

definition deliver_value :: "state \<Rightarrow> val \<times> heap \<Rightarrow> delivery \<times> state" where
  "deliver_value st x = (\<lparr>d_restart = None, d_value = Some (fst x)\<rparr>, st\<lparr>s_heap := snd x\<rparr>)"

definition build_delivery :: "state \<Rightarrow> wake_row \<Rightarrow> uid \<Rightarrow> db \<Rightarrow> tx_error + delivery \<times> state" where
  "build_delivery st w k d = (case s_park st of
      ParkWake \<Rightarrow> map_sum id (deliver_value st)
        (if wr_kind w = ''message'' \<and> wr_message w \<noteq> [] then load_message d (wr_message w) (s_heap st)
         else if wr_kind w = ''join'' then join_result d w (s_heap st)
         else Inr (VUndef, s_heap st))
    | ParkFresh \<Rightarrow> Inr (\<lparr>d_restart = None, d_value = None\<rparr>, st)
    | _ \<Rightarrow> (case resolved_restart k d of
          None \<Rightarrow> Inl ErrNotResolved
        | Some r \<Rightarrow> Inr (\<lparr>d_restart = Some r, d_value = None\<rparr>, st)))"

end
