(* ===== verification/Cfr_Step.thy ===== *)
theory Cfr_Step
  imports Cfr_Deliver Go_Sha
begin

section \<open>The step transaction and the condition doors\<close>

text \<open>
  \<open>ClaimAndStep\<close> with the checkpoint \<open>ParkOutcome\<close> behind it, and the doors around it: starting a
  workflow, parking a request, picking a restart, the fenced restart path, and the dispatcher's rows
  (\<open>step.go\<close>, \<open>park_outcome.go\<close>, \<open>store.go\<close>, \<open>restart.go\<close>, \<open>dispatch.go\<close>).  The interpreter is a
  parameter, as it is in the code: \<open>run\<close> is the resume closure, and returns the outcome with the heap
  its values live in; \<open>child\<close> is \<open>ChildStater.InitialState\<close> on a closure, absent on the restart path.
\<close>

type_synonym runner = "state \<Rightarrow> delivery \<Rightarrow> principal \<Rightarrow> obj list \<times> outcome"
type_synonym childer = "(obj list \<Rightarrow> val \<Rightarrow> tier \<Rightarrow> i64 \<Rightarrow> i64 \<Rightarrow> cek_error + state) option"

subsection \<open>Conditions\<close>

definition insert_restarts :: "env \<Rightarrow> uid \<Rightarrow> restart list \<Rightarrow> unit tx" where
  "insert_restarts E cond = tx_each (\<lambda>r. tx_bind (uuid4 E) (\<lambda>k. insert_restart k
     \<lparr>rr_cond = cond, rr_name = rs_name r, rr_label = rs_label r,
      rr_cap = (if rs_capability r = [] then None else Some (rs_capability r))\<rparr>))"

text \<open>The check \<open>class_shape\<close>: lower-case words with digits, joined by dots, the first one starting with a letter.\<close>

definition lower_alnum :: "char \<Rightarrow> bool" where
  "lower_alnum c \<longleftrightarrow> (let n = of_char c :: int in 97 \<le> n \<and> n \<le> 122 \<or> 48 \<le> n \<and> n \<le> 57)"

definition class_shape :: "string \<Rightarrow> bool" where
  "class_shape s \<longleftrightarrow> list_all (\<lambda>w. w \<noteq> [] \<and> list_all lower_alnum w) (split_dots s) \<and>
     (case s of [] \<Rightarrow> False | c # _ \<Rightarrow> 97 \<le> (of_char c :: int))"

definition open_condition :: "env \<Rightarrow> uid \<Rightarrow> uid \<Rightarrow> string \<Rightarrow> any_map \<Rightarrow> restart list \<Rightarrow> unit tx" where
  "open_condition E cond k class payload rs =
     (if \<not> class_shape class then tx_fail ErrCheck
      else tx_seq (insert_cond cond \<lparr>cd_cont = k, cd_class = class, cd_payload = payload, cd_signaled = en_now E,
       cd_open = True, cd_restart = [], cd_args = [], cd_by = []\<rparr>)
     (insert_restarts E cond rs))"

definition step_failed_condition :: "env \<Rightarrow> uid \<Rightarrow> string \<Rightarrow> unit tx" where
  "step_failed_condition E k msg = tx_bind (uuid4 E) (\<lambda>cond.
     if \<not> json_quoted msg then tx_fail ErrJson
     else open_condition E cond k ''step.failed'' [(''error'', AnyStr msg)] [mk_restart ''abort'' ''Abort'' []])"

definition record_step_failed :: "env \<Rightarrow> uid \<Rightarrow> string \<Rightarrow> unit tx" where
  "record_step_failed E k msg = step_failed_condition E k msg"

subsection \<open>The fences\<close>

definition check_epoch :: "env \<Rightarrow> unit tx" where
  "check_epoch E = (if en_epoch E = 0 then tx_ret ()
     else tx_bind (tx_get db_epoch) (\<lambda>e. case e of
         None \<Rightarrow> tx_ret ()
       | Some n \<Rightarrow> if n \<noteq> en_epoch E then tx_fail (ErrFence n (en_epoch E)) else tx_ret ()))"

text \<open>The guarded update of the row a step owns: exactly one running row leased to this kernel.\<close>

definition update_running :: "env \<Rightarrow> uid \<Rightarrow> (cont \<Rightarrow> cont) \<Rightarrow> unit tx" where
  "update_running E k f = tx_bind
     (update_conts (\<lambda>i r. i = k \<and> ct_status r = Running \<and> ct_owner r = Some (en_kernel E))
       (\<lambda>r. (f r)\<lparr>ct_updated := en_now E\<rparr>))
     (\<lambda>n. if n \<noteq> 1 then tx_fail (ErrLostFence k) else tx_ret ())"

definition park_capability_revoked :: "env \<Rightarrow> uid \<Rightarrow> string \<Rightarrow> unit tx" where
  "park_capability_revoked E k cap = tx_bind (uuid4 E) (\<lambda>cond.
     tx_seq (update_running E k (\<lambda>r. r\<lparr>ct_status := InCondition, ct_wake := wake_of_kind ''manual''\<rparr>))
     (if \<not> json_quoted cap then tx_fail ErrJson
      else open_condition E cond k ''capability.revoked'' [(''capability'', AnyStr cap)]
        [mk_restart ''re-grant'' (''Re-grant '' @ cap) ''operator'', mk_restart ''abort'' ''Abort'' []]))"

definition record_failed_running :: "env \<Rightarrow> uid \<Rightarrow> string \<Rightarrow> unit tx" where
  "record_failed_running E k msg =
     tx_seq (update_running E k (\<lambda>r. r\<lparr>ct_status := Failed\<rparr>)) (step_failed_condition E k msg)"

definition load_principal :: "env \<Rightarrow> principal_row \<Rightarrow> db \<Rightarrow> principal" where
  "load_principal E pr d =
     \<lparr>p_subject = pr_subject pr,
      p_grants = (\<lambda>c. pr_subject pr \<noteq> [] \<and> (\<exists>g\<in>set (db_grants d). gr_subject g = pr_subject pr \<and>
        gr_capability g = c \<and> (case gr_expires g of None \<Rightarrow> True | Some t \<Rightarrow> en_now E < t))),
      p_operator = (pr_operator pr \<or> pr_subject pr = ''operator'')\<rparr>"

text \<open>\<open>firstRevokedCapability\<close>: the walk keeps the first token that is not granted; an empty token
  name leaves \<open>bad\<close> as it is.\<close>

definition first_revoked :: "state \<Rightarrow> principal \<Rightarrow> string" where
  "first_revoked st p = foldl (\<lambda>bad v. if bad \<noteq> [] then bad
     else case cap_token v of Some c \<Rightarrow> if p_grants p c then bad else c | None \<Rightarrow> bad) [] (walk_values st)"

subsection \<open>Effects\<close>

definition eff_int :: "golib \<Rightarrow> anyv option \<Rightarrow> i64" where
  "eff_int gl v = (case v of
      Some (AnyInt64 n) \<Rightarrow> n
    | Some (AnyInt n) \<Rightarrow> n
    | Some (AnyF64 n) \<Rightarrow> f2i gl n
    | _ \<Rightarrow> 0)"

definition any_string :: "anyv option \<Rightarrow> string" where
  "any_string v = (case v of Some (AnyStr s) \<Rightarrow> s | _ \<Rightarrow> [])"

definition marshals :: "any_map \<Rightarrow> bool" where
  "marshals pl \<longleftrightarrow> list_all (\<lambda>(k, v). case v of AnyF64 n \<Rightarrow> \<not> is_nan n \<and> \<not> is_inf n | _ \<Rightarrow> True) pl"

definition external_class :: "string \<Rightarrow> bool" where
  "external_class c \<longleftrightarrow> c \<noteq> ''channel.send'' \<and> c \<noteq> ''cron.schedule''"

definition write_effect :: "env \<Rightarrow> golib \<Rightarrow> uid \<Rightarrow> int \<Rightarrow> obj list \<Rightarrow> nat \<Rightarrow> effect \<Rightarrow> unit tx" where
  "write_effect E gl k sq obs i ef =
     (if \<not> marshals (ef_payload ef) then tx_fail ErrJson
      else tx_bind (uuid4 E) (\<lambda>o_id.
        tx_seq (insert_outbox o_id \<lparr>ob_cont = k, ob_seq = sq, ob_ordinal = i, ob_class = ef_class ef,
          ob_payload = ef_payload ef, ob_delivered = False\<rparr>)
        (tx_seq (if external_class (ef_class ef) then enqueue_deliver_task E o_id (k, sq, i) else tx_ret ())
        (tx_seq (if ef_class ef = ''cron.schedule''
           then new_task E (en_now E + 1000 * sint (eff_int gl (map_of (ef_payload ef) ''interval_ms'')))
             (PayCron (ef_payload ef))
           else tx_ret ())
        (if ef_class ef = ''channel.send''
         then tx_bind (send_channel E (any_string (map_of (ef_payload ef) ''channel'')) obs (ef_val ef) k) (\<lambda>_. tx_ret ())
         else tx_ret ())))))"

fun write_effects :: "env \<Rightarrow> golib \<Rightarrow> uid \<Rightarrow> int \<Rightarrow> obj list \<Rightarrow> nat \<Rightarrow> effect list \<Rightarrow> unit tx" where
  "write_effects E gl k sq obs i [] = tx_ret ()"
| "write_effects E gl k sq obs i (ef # efs) =
     tx_seq (write_effect E gl k sq obs i ef) (write_effects E gl k sq obs (Suc i) efs)"

subsection \<open>Joins\<close>

definition join_pay :: "principal_row \<Rightarrow> uid \<Rightarrow> nat \<Rightarrow> principal_row" where
  "join_pay pr parent i = pr\<lparr>pr_parent := parent, pr_ordinal := i\<rparr>"

text \<open>The children of a join, one continuation and one resume task per thunk.\<close>

fun insert_children :: "env \<Rightarrow> (obj list \<Rightarrow> val \<Rightarrow> tier \<Rightarrow> i64 \<Rightarrow> i64 \<Rightarrow> cek_error + state) \<Rightarrow> uid \<Rightarrow> principal_row \<Rightarrow>
    obj list \<Rightarrow> state \<Rightarrow> nat \<Rightarrow> val list \<Rightarrow> uid list tx" where
  "insert_children E mk parent pr obs st i [] = tx_ret []"
| "insert_children E mk parent pr obs st i (thunk # ts) =
     (case thunk of
        VClo _ d _ _ \<Rightarrow>
          tx_bind (case mk obs thunk (s_tier st) (s_fuel_steps st) (s_fuel_alloc st) of
              Inl e \<Rightarrow> tx_fail (ErrInitial e) | Inr s \<Rightarrow> tx_ret s) (\<lambda>s.
          tx_bind (uuid4 E) (\<lambda>c.
          tx_seq (insert_cont c (new_cont E ''workflow'' d (epoch_or_one E) (encode_state s)
            ((wake_of_kind ''timer'')\<lparr>wr_due := en_now E\<rparr>) Ready (join_pay pr parent i)))
          (tx_seq (insert_resume_task E c 0)
          (tx_bind (insert_children E mk parent pr obs st (Suc i) ts) (\<lambda>cs. tx_ret (c # cs))))))
      | _ \<Rightarrow> tx_fail (ErrThunk i))"

definition count_done :: "uid list \<Rightarrow> db \<Rightarrow> nat" where
  "count_done ks d = matching (\<lambda>k r. k \<in> set ks \<and> ct_status r = Finished) (db_conts d)"

definition cancel_losers :: "env \<Rightarrow> uid list \<Rightarrow> unit tx" where
  "cancel_losers E ks = tx_bind (update_conts (\<lambda>k r. k \<in> set ks \<and> ct_status r \<in> {Sleeping, Ready, Running})
     (\<lambda>r. r\<lparr>ct_status := Cancelled, ct_updated := en_now E\<rparr>)) (\<lambda>_. tx_ret ())"

definition settle_join_parent :: "env \<Rightarrow> uid \<Rightarrow> unit tx" where
  "settle_join_parent E child_id = tx_bind (find_cont child_id) (\<lambda>c. case c of
      None \<Rightarrow> tx_ret ()
    | Some row \<Rightarrow>
        let pid = pr_parent (ct_principal row) in
        if pid = [] then tx_ret ()
        else tx_bind (find_cont pid) (\<lambda>p. case p of
            None \<Rightarrow> tx_ret ()
          | Some parent \<Rightarrow>
              let pw = ct_wake parent in
              if wr_kind pw \<noteq> ''join'' then tx_ret ()
              else tx_bind (tx_get (count_done (wr_children pw))) (\<lambda>n.
                if int n < wr_quorum pw then tx_ret ()
                else tx_bind (update_conts (\<lambda>k r. k = pid \<and> ct_status r = Sleeping)
                    (\<lambda>r. r\<lparr>ct_status := Ready,
                      ct_wake := (if wr_mode pw = ''race'' then (ct_wake r)\<lparr>wr_winner := child_id\<rparr> else ct_wake r),
                      ct_updated := en_now E\<rparr>)) (\<lambda>hit.
                  if hit \<noteq> 1 then tx_ret ()
                  else tx_seq (insert_resume_task E pid (ct_seq parent))
                    (if wr_mode pw = ''race''
                     then cancel_losers E (filter (\<lambda>k. k \<noteq> child_id) (wr_children pw))
                     else tx_ret ())))))"

subsection \<open>Checkpoints\<close>

record outcome_req =
  or_cont :: uid
  or_seq :: int
  or_principal :: principal_row
  or_child :: childer
  or_heap :: "obj list"
  or_out :: outcome

definition state_of :: "outcome \<Rightarrow> state tx" where
  "state_of out = (case o_state out of None \<Rightarrow> tx_fail ErrPanic | Some st \<Rightarrow> tx_ret st)"

definition park_done :: "env \<Rightarrow> golib \<Rightarrow> outcome_req \<Rightarrow> unit tx" where
  "park_done E gl q =
     tx_seq (update_running E (or_cont q) (\<lambda>r. r\<lparr>ct_frames := [], ct_status := Finished,
       ct_result := Some (encode_value (or_heap q) (o_value (or_out q)))\<rparr>))
     (tx_seq (write_effects E gl (or_cont q) (or_seq q) (or_heap q) 0 (o_effects (or_out q)))
     (settle_join_parent E (or_cont q)))"

definition park_join :: "env \<Rightarrow> outcome_req \<Rightarrow> state \<Rightarrow> wake \<Rightarrow> unit tx" where
  "park_join E q st w = (case or_child q of
      None \<Rightarrow> tx_fail ErrNoInterp
    | Some mk \<Rightarrow> tx_bind (insert_children E mk (or_cont q) (or_principal q) (or_heap q) st 0 (wk_thunks w)) (\<lambda>cs.
        update_running E (or_cont q) (\<lambda>r. r\<lparr>ct_frames := encode_state st, ct_status := Sleeping,
          ct_wake := (wake_of_kind ''join'')\<lparr>wr_children := cs, wr_quorum := wk_quorum w,
            wr_mode := (if wk_race w then ''race'' else ''all'')\<rparr>\<rparr>)))"

definition park_message :: "env \<Rightarrow> outcome_req \<Rightarrow> state \<Rightarrow> wake \<Rightarrow> unit tx" where
  "park_message E q st w =
     (let m = wake_match_row (wk_match w);
          row = (wake_of_kind ''message'')\<lparr>wr_channel := wk_channel w, wr_match := m\<rparr> in
      tx_bind (claim_oldest_message (wk_channel w) m (or_cont q)) (\<lambda>msg.
        if \<not> json_match m then tx_fail ErrJson
        else case msg of
            Some i \<Rightarrow> tx_seq (update_running E (or_cont q) (\<lambda>r. r\<lparr>ct_frames := encode_state st,
                ct_status := Ready, ct_wake := row\<lparr>wr_message := i\<rparr>\<rparr>))
              (insert_resume_task E (or_cont q) (or_seq q))
          | None \<Rightarrow> update_running E (or_cont q) (\<lambda>r. r\<lparr>ct_frames := encode_state st,
                ct_status := Sleeping, ct_wake := row\<rparr>)))"

definition park_wake :: "env \<Rightarrow> golib \<Rightarrow> outcome_req \<Rightarrow> wake \<Rightarrow> unit tx" where
  "park_wake E gl q w = tx_bind (state_of (or_out q)) (\<lambda>st.
     tx_seq (write_effects E gl (or_cont q) (or_seq q) (or_heap q) 0 (o_effects (or_out q)))
     (case wk_kind w of
        WakeTimer \<Rightarrow> update_running E (or_cont q) (\<lambda>r. r\<lparr>ct_frames := encode_state st, ct_status := Sleeping,
          ct_wake := (wake_of_kind ''timer'')\<lparr>wr_due := en_now E + 1000 * sint (wk_delay w)\<rparr>\<rparr>)
      | WakeMessage \<Rightarrow> park_message E q st w
      | WakeEvent \<Rightarrow> update_running E (or_cont q) (\<lambda>r. r\<lparr>ct_frames := encode_state st, ct_status := Sleeping,
          ct_wake := (wake_of_kind ''event'')\<lparr>wr_stream := wk_stream w, wr_on := wk_on w\<rparr>\<rparr>)
      | WakeJoin \<Rightarrow> park_join E q st w))"

definition park_condition :: "env \<Rightarrow> outcome_req \<Rightarrow> unit tx" where
  "park_condition E q = tx_bind (state_of (or_out q)) (\<lambda>st.
     tx_bind (uuid4 E) (\<lambda>cond.
     tx_seq (update_running E (or_cont q) (\<lambda>r. r\<lparr>ct_frames := encode_state st, ct_status := InCondition,
       ct_wake := wake_of_kind ''manual''\<rparr>))
     (case o_cond (or_out q) of
        None \<Rightarrow> tx_fail ErrPanic
      | Some c \<Rightarrow> if \<not> marshals (cn_payload c) then tx_fail ErrJson
          else open_condition E cond (or_cont q) (cn_class c) (cn_payload c) (cn_restarts c))))"

text \<open>\<open>err.Error()\<close> is a parameter: the texts are Go's.\<close>

definition failure_text :: "(cek_error \<Rightarrow> string) \<Rightarrow> outcome \<Rightarrow> string" where
  "failure_text say out = (case (o_kind out, o_err out) of
      (OutError, Some e) \<Rightarrow> say e
    | (OutFaulted, _) \<Rightarrow> ''fault: '' @ (case o_fault out of VStr s \<Rightarrow> s | _ \<Rightarrow> ''non-string fault'')
    | _ \<Rightarrow> ''step faulted'')"

definition park_failed :: "env \<Rightarrow> (cek_error \<Rightarrow> string) \<Rightarrow> outcome_req \<Rightarrow> unit tx" where
  "park_failed E say q =
     tx_seq (update_running E (or_cont q) (\<lambda>r. r\<lparr>ct_status := Failed\<rparr>))
     (step_failed_condition E (or_cont q) (failure_text say (or_out q)))"

definition park_outcome :: "env \<Rightarrow> golib \<Rightarrow> (cek_error \<Rightarrow> string) \<Rightarrow> outcome_req \<Rightarrow> unit tx" where
  "park_outcome E gl say q = (case o_kind (or_out q) of
      OutDone \<Rightarrow> park_done E gl q
    | OutParked \<Rightarrow> (case o_wake (or_out q) of Some w \<Rightarrow> park_wake E gl q w | None \<Rightarrow> park_condition E q)
    | _ \<Rightarrow> park_failed E say q)"


subsection \<open>ClaimAndStep\<close>

text \<open>What a step reports when its transaction commits: whether it won the claim, the outcome, and the
  error it returns although it commits (a blob that does not decode).\<close>

record step_report =
  sp_claimed :: bool
  sp_out :: "outcome option"
  sp_err :: "tx_error option"

definition claim_row :: "env \<Rightarrow> uid \<Rightarrow> int \<Rightarrow> nat tx" where
  "claim_row E k seen = update_conts (\<lambda>i r. i = k \<and> ct_status r = Ready \<and> ct_seq r = seen)
     (\<lambda>r. r\<lparr>ct_status := Running, ct_owner := Some (en_kernel E),
       ct_lease := en_now E + 1000000 * lease_secs E, ct_seq := ct_seq r + 1, ct_updated := en_now E\<rparr>)"

text \<open>From the decoded state on: revalidation of the capability tokens, delivery, run and checkpoint.
  \<open>say\<close> gives the text of a machine error, \<open>say_tx\<close> that of a decode error.\<close>

definition step_state :: "env \<Rightarrow> golib \<Rightarrow> (cek_error \<Rightarrow> string) \<Rightarrow> runner \<Rightarrow> childer \<Rightarrow> uid \<Rightarrow> int \<Rightarrow> cont \<Rightarrow> state \<Rightarrow>
    step_report tx" where
  "step_state E gl say run mk k sq row st =
     tx_bind (tx_get (load_principal E (ct_principal row))) (\<lambda>p.
     let bad = first_revoked st p in
     if bad \<noteq> [] then
       tx_seq (park_capability_revoked E k bad)
       (tx_seq (check_epoch E)
       (tx_ret \<lparr>sp_claimed = True,
          sp_out = Some ((zero_outcome OutParked)\<lparr>o_cond := Some \<lparr>cn_class = ''capability.revoked'', cn_payload = [],
            cn_restarts = []\<rparr>\<rparr>),
          sp_err = None\<rparr>))
     else tx_bind (tx_bind (tx_get (build_delivery st (ct_wake row) k)) tx_try) (\<lambda>(dl, st').
       case run st' dl p of (obs, out) \<Rightarrow>
       tx_seq (park_outcome E gl say \<lparr>or_cont = k, or_seq = sq, or_principal = ct_principal row,
         or_child = mk, or_heap = obs, or_out = out\<rparr>)
       (tx_seq (check_epoch E)
       (tx_ret \<lparr>sp_claimed = True, sp_out = Some out, sp_err = None\<rparr>))))"

definition claim_and_step :: "env \<Rightarrow> golib \<Rightarrow> (cek_error \<Rightarrow> string) \<Rightarrow> (cfr_error \<Rightarrow> string) \<Rightarrow> runner \<Rightarrow> childer \<Rightarrow>
    uid \<Rightarrow> int \<Rightarrow> step_report tx" where
  "claim_and_step E gl say say_cfr run mk k seen =
     tx_seq (check_epoch E)
     (tx_bind (claim_row E k seen) (\<lambda>n.
        if n \<noteq> 1 then tx_ret \<lparr>sp_claimed = False, sp_out = None, sp_err = None\<rparr>
        else tx_bind (find_cont k) (\<lambda>c. case c of
            None \<Rightarrow> tx_fail ErrNoRow
          | Some row \<Rightarrow> (case decode_state (ct_frames row) of
                Inl e \<Rightarrow> tx_seq (record_failed_running E k (say_cfr e))
                  (tx_ret \<lparr>sp_claimed = True, sp_out = None, sp_err = Some (ErrDecode e)\<rparr>)
              | Inr st \<Rightarrow> step_state E gl say run mk k (seen + 1) row st))))"

subsection \<open>The doors\<close>

definition start_workflow :: "env \<Rightarrow> string \<Rightarrow> cek_error + state \<Rightarrow> principal_row \<Rightarrow> uid tx" where
  "start_workflow E root init pr =
     tx_bind (case init of Inl e \<Rightarrow> tx_fail (ErrInitial e) | Inr st \<Rightarrow> tx_ret st) (\<lambda>st.
     tx_bind (uuid4 E) (\<lambda>k.
     tx_seq (insert_cont k (new_cont E ''workflow'' root (epoch_or_one E) (encode_state st)
       ((wake_of_kind ''timer'')\<lparr>wr_due := en_now E\<rparr>) Ready pr))
     (tx_seq (insert_resume_task E k 0) (tx_ret k))))"

definition park_request :: "env \<Rightarrow> string \<Rightarrow> string \<Rightarrow> state \<Rightarrow> string \<Rightarrow> any_map \<Rightarrow> restart list \<Rightarrow> principal_row \<Rightarrow>
    (uid \<times> uid) tx" where
  "park_request E kind root st class payload rs pr =
     tx_bind (uuid4 E) (\<lambda>k. tx_bind (uuid4 E) (\<lambda>cond.
     if \<not> marshals payload then tx_fail ErrJson
     else tx_seq (insert_cont k (new_cont E kind root 1 (encode_state st) (wake_of_kind ''manual'') InCondition pr))
       (tx_seq (open_condition E cond k class payload rs) (tx_ret (k, cond)))))"

definition restart_named :: "uid \<Rightarrow> string \<Rightarrow> db \<Rightarrow> (uid \<times> restart_row) option" where
  "restart_named cond name d =
     (case filter (\<lambda>(i, r). rr_cond r = cond \<and> rr_name r = name) (db_restarts d) of [] \<Rightarrow> None | x # _ \<Rightarrow> Some x)"

definition allow_restart :: "restart_row \<Rightarrow> string list \<Rightarrow> unit tx" where
  "allow_restart r caps = (case rr_cap r of
      None \<Rightarrow> tx_ret ()
    | Some c \<Rightarrow> if c \<noteq> [] \<and> c \<notin> set caps then tx_fail (ErrRefused c) else tx_ret ())"

definition pick_restart :: "env \<Rightarrow> uid \<Rightarrow> string \<Rightarrow> any_map \<Rightarrow> string \<Rightarrow> string list \<Rightarrow> unit tx" where
  "pick_restart E cond name args by caps =
     (if \<not> marshals args then tx_fail ErrJson
      else tx_bind (tx_get (restart_named cond name)) (\<lambda>x. case x of
        None \<Rightarrow> tx_fail ErrRestartNotFound
      | Some (rid, r) \<Rightarrow> tx_seq (allow_restart r caps)
        (tx_bind (tx_get (\<lambda>d. map_of (db_conds d) cond)) (\<lambda>c. case c of
            None \<Rightarrow> tx_fail ErrRestartNotFound
          | Some row \<Rightarrow> tx_bind (update_conds (\<lambda>i q. i = cond \<and> cd_open q)
                (\<lambda>q. q\<lparr>cd_open := False, cd_restart := rid, cd_args := args, cd_by := by\<rparr>)) (\<lambda>n.
              if n \<noteq> 1 then tx_fail (ErrNotOpen cond)
              else tx_bind (update_conts (\<lambda>i q. i = cd_cont row) (\<lambda>q. q\<lparr>ct_status := Ready, ct_updated := en_now E\<rparr>)) (\<lambda>_.
                tx_bind (find_cont (cd_cont row)) (\<lambda>q.
                  insert_resume_task E (cd_cont row) (case q of None \<Rightarrow> 0 | Some q \<Rightarrow> ct_seq q))))))))"


subsection \<open>The fenced restart path\<close>

text \<open>
  \<open>ResolveConditionFenced\<close> runs two transactions: the resolution, then the claim with the sequence
  number read between them.  \<open>hash\<close> is SHA-256 of the frames in hexadecimal; the adapter hands the
  restart of the delivery to the caller's closure, or an empty choice.
\<close>

definition hex_digit :: "int \<Rightarrow> char" where
  "hex_digit d = (if d < 10 then char_of (48 + d) else char_of (87 + d))"

definition hex_str :: "bytes \<Rightarrow> string" where
  "hex_str bs = concat (map (\<lambda>b. [hex_digit (uint b div 16), hex_digit (uint b mod 16)]) bs)"

definition frame_hash :: "cont \<Rightarrow> string" where
  "frame_hash c = hex_str (sha256 (ct_frames c))"

definition condition_frame_hash :: "uid \<Rightarrow> db \<Rightarrow> (uid \<times> bool \<times> string) option" where
  "condition_frame_hash cond d = do {
     r \<leftarrow> map_of (db_conds d) cond;
     c \<leftarrow> map_of (db_conts d) (cd_cont r);
     Some (cd_cont r, cd_open r, frame_hash c)
   }"

definition restart_only :: "(state \<Rightarrow> string \<times> any_map \<Rightarrow> obj list \<times> outcome) \<Rightarrow> runner" where
  "restart_only f st dl p = f st (case d_restart dl of None \<Rightarrow> ([], []) | Some r \<Rightarrow> r)"

definition claim_and_resume :: "env \<Rightarrow> golib \<Rightarrow> (cek_error \<Rightarrow> string) \<Rightarrow> (cfr_error \<Rightarrow> string) \<Rightarrow>
    (state \<Rightarrow> string \<times> any_map \<Rightarrow> obj list \<times> outcome) \<Rightarrow> uid \<Rightarrow> int \<Rightarrow> step_report tx" where
  "claim_and_resume E gl say say_cfr f k seen =
     claim_and_step (E\<lparr>en_epoch := 0, en_lease := 30\<rparr>) gl say say_cfr (restart_only f) None k seen"

definition seq_of :: "uid \<Rightarrow> db \<Rightarrow> int" where
  "seq_of k d = (case map_of (db_conts d) k of None \<Rightarrow> 0 | Some c \<Rightarrow> ct_seq c)"

definition resolve_fenced :: "env \<Rightarrow> golib \<Rightarrow> (cek_error \<Rightarrow> string) \<Rightarrow> (cfr_error \<Rightarrow> string) \<Rightarrow>
    (state \<Rightarrow> string \<times> any_map \<Rightarrow> obj list \<times> outcome) \<Rightarrow> uid \<Rightarrow> string \<Rightarrow> string \<Rightarrow> any_map \<Rightarrow> string \<Rightarrow>
    string list \<Rightarrow> db \<Rightarrow> (tx_error + step_report) \<times> db" where
  "resolve_fenced E gl say say_cfr f cond name expected args by caps d =
     (case condition_frame_hash cond d of
        None \<Rightarrow> (Inl ErrRestartNotFound, d)
      | Some (k, is_open, h) \<Rightarrow>
          if \<not> is_open then (Inl ErrResolved, d)
          else if expected \<noteq> [] \<and> expected \<noteq> h then (Inl ErrMoved, d)
          else (case commit (pick_restart E cond name args by caps) d of
              (Inl e, d') \<Rightarrow> (Inl e, d')
            | (Inr _, d') \<Rightarrow> commit (claim_and_resume E gl say say_cfr f k (seq_of k d')) d'))"

subsection \<open>The dispatcher's rows\<close>

record intent =
  it_id :: uid
  it_cont :: uid
  it_seq :: int
  it_ordinal :: nat
  it_class :: string
  it_payload :: any_map
  it_dedup :: "uid \<times> int \<times> nat"

definition load_intent :: "uid \<Rightarrow> db \<Rightarrow> (intent \<times> bool) option" where
  "load_intent i d = map_option (\<lambda>o_row. (\<lparr>it_id = i, it_cont = ob_cont o_row, it_seq = ob_seq o_row,
     it_ordinal = ob_ordinal o_row, it_class = ob_class o_row, it_payload = ob_payload o_row,
     it_dedup = (ob_cont o_row, ob_seq o_row, ob_ordinal o_row)\<rparr>, ob_delivered o_row)) (map_of (db_outbox d) i)"

definition mark_delivered :: "uid \<Rightarrow> bool tx" where
  "mark_delivered i = tx_bind (update_outbox (\<lambda>k r. k = i \<and> \<not> ob_delivered r) (\<lambda>r. r\<lparr>ob_delivered := True\<rparr>))
     (\<lambda>n. tx_ret (n = 1))"

subsection \<open>Retrying\<close>

text \<open>\<open>RetrySerializable\<close>: \<open>try_step n d\<close> is the \<open>n\<close>-th run of the step, \<open>Inl code\<close> an error with its
  SQLSTATE.  Only serialization failures and deadlocks are tried again, five times in all.\<close>

definition retryable :: "string \<Rightarrow> bool" where
  "retryable code \<longleftrightarrow> code = ''40001'' \<or> code = ''40P01''"

fun retry_from :: "nat \<Rightarrow> nat \<Rightarrow> (nat \<Rightarrow> 'd \<Rightarrow> (string + unit) \<times> 'd) \<Rightarrow> 'd \<Rightarrow> (string + unit) \<times> 'd" where
  "retry_from 0 n try_step d = (Inr (), d)"
| "retry_from (Suc left) n try_step d = (case try_step n d of
      (Inr u, d') \<Rightarrow> (Inr u, d')
    | (Inl e, d') \<Rightarrow> if \<not> retryable e \<or> left = 0 then (Inl e, d') else retry_from left (Suc n) try_step d')"

definition retry_serializable :: "(nat \<Rightarrow> 'd \<Rightarrow> (string + unit) \<times> 'd) \<Rightarrow> 'd \<Rightarrow> (string + unit) \<times> 'd" where
  "retry_serializable try_step d = retry_from 5 0 try_step d"

end
