(* ===== verification/Kernel_Reactor.thy ===== *)
theory Kernel_Reactor
  imports Cfr_Step
begin

section \<open>The reactor's passes\<close>

text \<open>
  One pass of each loop of \<open>internal/kernel/reactor.go\<close>: the timer scanner, the task drain, the
  heartbeat, the reaper, the dispatcher and the cron driver.  A pass is a few statements that each
  commit on their own, or a step transaction.  Rows locked by another transaction are skipped in the
  code (\<open>SKIP LOCKED\<close>); transactions here run one after the other, so none are.
\<close>

definition update_tasks :: "(uid \<Rightarrow> task_row \<Rightarrow> bool) \<Rightarrow> (task_row \<Rightarrow> task_row) \<Rightarrow> unit tx" where
  "update_tasks P f = tx_put (\<lambda>d. d\<lparr>db_tasks := upd_rows P f (db_tasks d)\<rparr>)"

subsection \<open>Timers\<close>

definition due_timers :: "env \<Rightarrow> nat \<Rightarrow> db \<Rightarrow> cont table" where
  "due_timers E batch d = take batch (oldest (\<lambda>c. wr_due (ct_wake c)) (filter (\<lambda>(k, c). ct_status c = Sleeping \<and>
     wr_kind (ct_wake c) = ''timer'' \<and> wr_due (ct_wake c) \<le> en_now E) (db_conts d)))"

definition timer_once :: "env \<Rightarrow> nat \<Rightarrow> unit tx" where
  "timer_once E batch = tx_bind (tx_get (due_timers E batch)) (\<lambda>due.
     tx_bind (update_conts (\<lambda>k _. k \<in> fst ` set due) (\<lambda>r. r\<lparr>ct_status := Ready, ct_updated := en_now E\<rparr>)) (\<lambda>_.
     tx_each (\<lambda>(k, c). insert_resume_task E k (ct_seq c)) due))"

subsection \<open>Tasks\<close>

definition is_resume :: "task_pay \<Rightarrow> bool" where
  "is_resume p \<longleftrightarrow> (case p of PayResume _ _ \<Rightarrow> True | _ \<Rightarrow> False)"

definition is_deliver :: "task_pay \<Rightarrow> bool" where
  "is_deliver p \<longleftrightarrow> (case p of PayDeliver _ _ \<Rightarrow> True | _ \<Rightarrow> False)"

definition ready_tasks :: "env \<Rightarrow> (task_pay \<Rightarrow> bool) \<Rightarrow> nat \<Rightarrow> db \<Rightarrow> task_row table" where
  "ready_tasks E kind batch d = take batch (oldest tk_run_at (filter (\<lambda>(i, t). tk_status t = TaskReady \<and>
     kind (tk_pay t) \<and> tk_run_at t \<le> en_now E) (db_tasks d)))"

text \<open>\<open>claimTasks\<close> and \<open>claimDeliverTasks\<close>: the claimed rows with their new attempt count.\<close>

definition claim_tasks :: "env \<Rightarrow> (task_pay \<Rightarrow> bool) \<Rightarrow> nat \<Rightarrow> (uid \<times> task_pay \<times> nat) list tx" where
  "claim_tasks E kind batch = tx_bind (tx_get (ready_tasks E kind batch)) (\<lambda>ts.
     tx_seq (update_tasks (\<lambda>i _. i \<in> fst ` set ts) (\<lambda>t. t\<lparr>tk_status := TaskRunning, tk_owner := Some (en_kernel E),
       tk_lease := en_now E + 1000000 * en_lease E, tk_attempts := tk_attempts t + 1\<rparr>))
     (tx_ret (map (\<lambda>(i, t). (i, tk_pay t, tk_attempts t + 1)) ts)))"

definition finish_task :: "uid \<Rightarrow> task_status \<Rightarrow> unit tx" where
  "finish_task i st = update_tasks (\<lambda>j _. j = i) (\<lambda>t. t\<lparr>tk_status := st, tk_owner := None\<rparr>)"

text \<open>\<open>deadTask\<close>: two statements, each committed on its own.\<close>

definition dead_task :: "env \<Rightarrow> uid \<Rightarrow> uid \<Rightarrow> string \<Rightarrow> db \<Rightarrow> db" where
  "dead_task E i k msg d = snd (commit (record_step_failed E k (''task exceeded attempt ceiling: '' @ msg))
     (snd (commit (finish_task i TaskDead) d)))"

text \<open>\<open>runTask\<close>: the step, then the end of the task.  A tripped fence leaves the task as it is and
  stops the reactor; a step that reports an error, even one that committed, is tried again until the
  fifth attempt.\<close>

definition after_step :: "env \<Rightarrow> (tx_error \<Rightarrow> string) \<Rightarrow> uid \<Rightarrow> uid \<Rightarrow> nat \<Rightarrow> tx_error + step_report \<Rightarrow> db \<Rightarrow> db" where
  "after_step E text i k attempts res d =
     (case (case res of Inl e \<Rightarrow> Some e | Inr rep \<Rightarrow> sp_err rep) of
        Some (ErrFence a b) \<Rightarrow> d
      | Some e \<Rightarrow> if 5 \<le> attempts then dead_task E i k (text e) d else snd (commit (finish_task i TaskReady) d)
      | None \<Rightarrow> snd (commit (finish_task i TaskDone) d))"

definition run_task :: "env \<Rightarrow> golib \<Rightarrow> (cek_error \<Rightarrow> string) \<Rightarrow> (cfr_error \<Rightarrow> string) \<Rightarrow> (tx_error \<Rightarrow> string) \<Rightarrow>
    runner \<Rightarrow> childer \<Rightarrow> uid \<Rightarrow> uid \<Rightarrow> int \<Rightarrow> nat \<Rightarrow> db \<Rightarrow> db" where
  "run_task E gl say say_cfr text run mk i k seen attempts d =
     (case commit (claim_and_step E gl say say_cfr run mk k seen) d of
        (res, d') \<Rightarrow> after_step E text i k attempts res d')"

subsection \<open>Leases\<close>

definition heartbeat_once :: "env \<Rightarrow> unit tx" where
  "heartbeat_once E = tx_seq
     (update_tasks (\<lambda>_ t. tk_owner t = Some (en_kernel E) \<and> tk_status t = TaskRunning)
       (\<lambda>t. t\<lparr>tk_lease := en_now E + 1000000 * en_lease E\<rparr>))
     (tx_bind (update_conts (\<lambda>_ r. ct_owner r = Some (en_kernel E) \<and> ct_status r = Running)
       (\<lambda>r. r\<lparr>ct_lease := en_now E + 1000000 * en_lease E\<rparr>)) (\<lambda>_. tx_ret ()))"

definition expired_tasks :: "env \<Rightarrow> nat \<Rightarrow> db \<Rightarrow> task_row table" where
  "expired_tasks E batch d = take batch (oldest tk_lease (filter (\<lambda>(i, t). tk_status t = TaskRunning \<and>
     tk_lease t < en_now E) (db_tasks d)))"

definition expired_conts :: "env \<Rightarrow> nat \<Rightarrow> db \<Rightarrow> cont table" where
  "expired_conts E batch d = take batch (oldest ct_lease (filter (\<lambda>(k, r). ct_status r = Running \<and>
     ct_lease r < en_now E) (db_conts d)))"

text \<open>\<open>reaperOnce\<close> with the batch the breaker allows; the counts it reports to the breaker are the
  re-offers and those among them that had expired before.\<close>

definition reaper_once :: "env \<Rightarrow> nat \<Rightarrow> (nat \<times> nat) tx" where
  "reaper_once E batch = (if batch = 0 then tx_ret (0, 0)
     else tx_bind (tx_get (expired_tasks E batch)) (\<lambda>ts.
       tx_seq (update_tasks (\<lambda>i _. i \<in> fst ` set ts) (\<lambda>t. t\<lparr>tk_status := TaskReady, tk_owner := None\<rparr>))
       (tx_bind (tx_get (expired_conts E (batch - length ts))) (\<lambda>cs.
         tx_bind (update_conts (\<lambda>k _. k \<in> fst ` set cs) (\<lambda>r. r\<lparr>ct_status := Ready, ct_owner := None, ct_updated := en_now E\<rparr>)) (\<lambda>_.
         tx_seq (tx_each (\<lambda>(k, c). insert_resume_task E k (ct_seq c)) cs)
         (tx_ret (length ts + length cs, length (filter (\<lambda>(i, t). 1 < tk_attempts t) ts))))))))"

subsection \<open>Delivery\<close>

text \<open>\<open>deliverTask\<close>: the sink is called between transactions; its answer, and what it did, is part of
  the outside world \<open>w\<close>.\<close>

definition deliver_task :: "(intent \<Rightarrow> 'w \<Rightarrow> bool \<times> 'w) \<Rightarrow> uid \<Rightarrow> uid \<Rightarrow> nat \<Rightarrow> db \<times> 'w \<Rightarrow> db \<times> 'w" where
  "deliver_task sink i it attempts s = (case s of (d, w) \<Rightarrow>
     let fin = (\<lambda>st d. snd (commit (finish_task i st) d)) in
     (case load_intent it d of
        None \<Rightarrow> (fin TaskDone d, w)
      | Some (x, delivered) \<Rightarrow>
          if delivered then (fin TaskDone d, w)
          else (case sink x w of
              (False, w') \<Rightarrow> (fin (if 5 \<le> attempts then TaskDead else TaskReady) d, w')
            | (True, w') \<Rightarrow> (fin TaskDone (snd (commit (mark_delivered it) d)), w'))))"

subsection \<open>Cron\<close>

definition due_cron :: "env \<Rightarrow> nat \<Rightarrow> db \<Rightarrow> task_row table" where
  "due_cron E batch d = take batch (oldest tk_run_at (filter (\<lambda>(i, t). tk_status t = TaskReady \<and>
     (case tk_pay t of PayCron _ \<Rightarrow> True | _ \<Rightarrow> False) \<and> tk_run_at t \<le> en_now E) (db_tasks d)))"

definition cron_payload :: "task_row \<Rightarrow> any_map" where
  "cron_payload t = (case tk_pay t of PayCron pl \<Rightarrow> pl | _ \<Rightarrow> [])"

text \<open>The interval in milliseconds, an integer where the schedule native writes it; absent it is 1000.\<close>

definition cron_interval :: "any_map \<Rightarrow> int" where
  "cron_interval pl = (case map_of pl ''interval_ms'' of
      Some (AnyInt64 n) \<Rightarrow> sint n | Some (AnyInt n) \<Rightarrow> sint n | _ \<Rightarrow> 1000)"

definition claim_due_cron :: "env \<Rightarrow> nat \<Rightarrow> string list tx" where
  "claim_due_cron E batch = tx_bind (tx_get (due_cron E batch)) (\<lambda>ts.
     tx_seq (update_tasks (\<lambda>i _. i \<in> fst ` set ts)
       (\<lambda>t. t\<lparr>tk_run_at := en_now E + 1000 * cron_interval (cron_payload t)\<rparr>))
     (tx_ret (map (\<lambda>(i, t). any_string (map_of (cron_payload t) ''target'')) ts)))"

end
