(* ===== verification/Kernel_System.thy ===== *)
theory Kernel_System
  imports Kernel_Reactor
begin

section \<open>The store as a transition system\<close>

text \<open>
  Everything that writes the tables of the store, as one step relation: the doors a request or an
  operator goes through, the step transaction, and the passes of the reactor of any kernel.  The
  transactions are SERIALIZABLE, so a run of the system is a sequence of these steps in some order,
  with any environment in each.  \<open>step\<close> without \<open>task\<close> is a reactor that stops between the commit of
  the step and the end of the task; \<open>outside\<close> is what other parts of the kernel do to the rows the
  store only reads.  Two statements that commit on their own count as one step where the second only
  ends the task of the first (\<open>runTask\<close>, \<open>deadTask\<close>, \<open>deliverTask\<close>), and the text of an error is one
  that Go quotes as JSON.
\<close>

text \<open>All environments draw their identifiers from one source without repetition.\<close>

definition draws :: "(nat \<Rightarrow> uid) \<Rightarrow> env \<Rightarrow> bool" where
  "draws U E \<longleftrightarrow> inj U \<and> en_uuid E = U"

definition db_init :: db where
  "db_init = \<lparr>db_conts = [], db_conds = [], db_restarts = [], db_outbox = [], db_messages = [], db_tasks = [],
     db_grants = [], db_epoch = None, db_drawn = 0\<rparr>"

inductive db_step :: "(nat \<Rightarrow> uid) \<Rightarrow> db \<Rightarrow> db \<Rightarrow> bool" for U where
  start: "draws U E \<Longrightarrow> db_step U d (snd (commit (start_workflow E root init pr) d))"
| request: "draws U E \<Longrightarrow> db_step U d (snd (commit (park_request E kind root st cl pl rs pr) d))"
| pick: "draws U E \<Longrightarrow> db_step U d (snd (commit (pick_restart E cond name args by_who caps) d))"
| fenced: "draws U E \<Longrightarrow> db_step U d (snd (resolve_fenced E gl say say_cfr f cond name h args by_who caps d))"
| send: "draws U E \<Longrightarrow> db_step U d (snd (commit (send_channel E ch obs v by_who) d))"
| event: "draws U E \<Longrightarrow> db_step U d (snd (commit (wake_events E resource row) d))"
| step: "draws U E \<Longrightarrow> db_step U d (snd (commit (claim_and_step E gl say say_cfr run mk k seen) d))"
| task: "draws U E \<Longrightarrow> (i, t) \<in> set (db_tasks d) \<Longrightarrow> tk_pay t = PayResume k seen \<Longrightarrow> (\<And>e. json_quoted (say_tx e)) \<Longrightarrow>
    db_step U d (run_task E gl say say_cfr say_tx run mk i k seen attempts d)"
| timer: "draws U E \<Longrightarrow> db_step U d (snd (commit (timer_once E batch) d))"
| claim: "draws U E \<Longrightarrow> db_step U d (snd (commit (claim_tasks E kind batch) d))"
| heartbeat: "draws U E \<Longrightarrow> db_step U d (snd (commit (heartbeat_once E) d))"
| reap: "draws U E \<Longrightarrow> db_step U d (snd (commit (reaper_once E batch) d))"
| deliver: "(i, t) \<in> set (db_tasks d) \<Longrightarrow> tk_pay t = PayDeliver it dd \<Longrightarrow>
    db_step U d (fst (deliver_task (\<lambda>x w. (sink x, w)) i it attempts (d, ())))"
| cron: "draws U E \<Longrightarrow> db_step U d (snd (commit (claim_due_cron E batch) d))"
| outside: "db_step U d (d\<lparr>db_grants := gs, db_epoch := e\<rparr>)"

definition reachable :: "(nat \<Rightarrow> uid) \<Rightarrow> db \<Rightarrow> bool" where
  "reachable U d \<longleftrightarrow> (db_step U)\<^sup>*\<^sup>* db_init d"

lemma reachable_step: "reachable U d \<Longrightarrow> db_step U d d' \<Longrightarrow> reachable U d'"
  by (auto simp: reachable_def)

lemma reachable_steps: "reachable U d \<Longrightarrow> (db_step U)\<^sup>*\<^sup>* d d' \<Longrightarrow> reachable U d'"
  by (auto simp: reachable_def)

end
