(* ===== verification/Cfr_Laws.thy ===== *)
theory Cfr_Laws
  imports Kernel_System
begin

section \<open>The invariant of the continuation store\<close>

text \<open>
  One invariant over all the tables, kept by every transaction of the store and every pass of the
  reactor: primary keys are distinct and were drawn; a message pinned in a wake is claimed by that
  continuation; the outbox has one row per continuation, step and ordinal; no committed row is
  running; and every ready continuation has a live resume task for its current step.  Inside a
  transaction it holds up to a ghost: the row being stepped, the wakes that still owe a task, the
  outbox position of the step, and the identifiers drawn and not yet used.
\<close>

subsection \<open>Triples\<close>

definition tx_triple :: "(db \<Rightarrow> bool) \<Rightarrow> 'a tx \<Rightarrow> ('a \<Rightarrow> db \<Rightarrow> bool) \<Rightarrow> bool" where
  "tx_triple P m Q \<longleftrightarrow> (\<forall>d x d'. P d \<longrightarrow> m d = Inr (x, d') \<longrightarrow> Q x d')"

lemma tripleD: "tx_triple P m Q \<Longrightarrow> P d \<Longrightarrow> m d = Inr (x, d') \<Longrightarrow> Q x d'"
  by (simp add: tx_triple_def)

lemma triple_pre: "tx_triple P m Q \<Longrightarrow> (\<And>d. P' d \<Longrightarrow> P d) \<Longrightarrow> tx_triple P' m Q"
  unfolding tx_triple_def by blast

lemma triple_post: "tx_triple P m Q \<Longrightarrow> (\<And>x d. Q x d \<Longrightarrow> Q' x d) \<Longrightarrow> tx_triple P m Q'"
  unfolding tx_triple_def by blast

lemma triple_ret: "(\<And>d. P d \<Longrightarrow> Q x d) \<Longrightarrow> tx_triple P (tx_ret x) Q"
  by (simp add: tx_triple_def tx_ret_def)

lemma triple_fail: "tx_triple P (tx_fail e) Q"
  by (simp add: tx_triple_def tx_fail_def)

lemma triple_bind:
  assumes "tx_triple P m R" "\<And>x. tx_triple (R x) (f x) Q"
  shows "tx_triple P (tx_bind m f) Q"
  unfolding tx_triple_def
proof (intro allI impI)
  fix d y d' assume "P d" "tx_bind m f d = Inr (y, d')"
  moreover from this obtain x d1 where "m d = Inr (x, d1)" "f x d1 = Inr (y, d')"
    by (auto simp: tx_bind_def split: sum.splits prod.splits)
  ultimately show "Q y d'" using assms by (blast dest: tripleD)
qed

lemma triple_seq:
  assumes "tx_triple P m (\<lambda>_. R)" "tx_triple R n Q"
  shows "tx_triple P (tx_seq m n) Q"
  unfolding tx_seq_def using assms by (rule triple_bind)

lemma triple_get: "tx_triple P (tx_get f) (\<lambda>x d. P d \<and> x = f d)"
  by (simp add: tx_triple_def tx_get_def)

lemma triple_put: "(\<And>d. P d \<Longrightarrow> Q () (g d)) \<Longrightarrow> tx_triple P (tx_put g) Q"
  by (simp add: tx_triple_def tx_put_def)

lemma triple_try: "(\<And>a d. P d \<Longrightarrow> x = Inr a \<Longrightarrow> Q a d) \<Longrightarrow> tx_triple P (tx_try x) Q"
  by (auto simp: tx_triple_def tx_try_def tx_ret_def tx_fail_def split: sum.splits)

lemma triple_if:
  "(b \<Longrightarrow> tx_triple P m Q) \<Longrightarrow> (\<not> b \<Longrightarrow> tx_triple P n Q) \<Longrightarrow> tx_triple P (if b then m else n) Q"
  by simp

lemma triple_conj_pre: "(A \<Longrightarrow> tx_triple P m Q) \<Longrightarrow> tx_triple (\<lambda>d. A \<and> P d) m Q"
  by (auto simp: tx_triple_def)

lemma triple_each:
  assumes "\<And>x. x \<in> set xs \<Longrightarrow> tx_triple P (f x) (\<lambda>_. P)"
  shows "tx_triple P (tx_each f xs) (\<lambda>_. P)"
  using assms by (induction xs) (auto intro!: triple_ret triple_seq)

subsection \<open>The invariant\<close>

record ghost =
  g_run :: "uid option"
  g_wake :: "(uid \<times> int) set"
  g_out :: "(uid \<times> int \<times> nat) option"
  g_ids :: "uid set"
  g_floor :: "(uid \<times> int) set"
  g_tasks :: "(uid \<times> task_pay) set"

definition quiet :: ghost where
  "quiet = \<lparr>g_run = None, g_wake = {}, g_out = None, g_ids = {}, g_floor = {}, g_tasks = {}\<rparr>"

definition used_keys :: "db \<Rightarrow> uid set" where
  "used_keys d = fst ` set (db_conts d) \<union> fst ` set (db_conds d) \<union> fst ` set (db_messages d) \<union> fst ` set (db_tasks d)"

definition keys_ok :: "(nat \<Rightarrow> uid) \<Rightarrow> uid set \<Rightarrow> db \<Rightarrow> bool" where
  "keys_ok U F d \<longleftrightarrow> distinct (map fst (db_conts d)) \<and> distinct (map fst (db_conds d)) \<and>
     distinct (map fst (db_messages d)) \<and> distinct (map fst (db_tasks d)) \<and>
     used_keys d \<union> F \<subseteq> U ` {..<db_drawn d} \<and> used_keys d \<inter> F = {}"

definition claims_ok :: "db \<Rightarrow> bool" where
  "claims_ok d \<longleftrightarrow> (\<forall>(k, c) \<in> set (db_conts d). wr_message (ct_wake c) \<noteq> [] \<longrightarrow>
     (\<exists>m. (wr_message (ct_wake c), m) \<in> set (db_messages d) \<and> mg_claimed m = Some k))"

definition runs_ok :: "uid option \<Rightarrow> db \<Rightarrow> bool" where
  "runs_ok r d \<longleftrightarrow> (\<forall>(k, c) \<in> set (db_conts d). ct_status c = Running \<longrightarrow> r = Some k)"

definition dedup_of :: "outbox_row \<Rightarrow> uid \<times> int \<times> nat" where
  "dedup_of r = (ob_cont r, ob_seq r, ob_ordinal r)"

definition outbox_ok :: "(uid \<times> int \<times> nat) option \<Rightarrow> db \<Rightarrow> bool" where
  "outbox_ok p d \<longleftrightarrow> distinct (map (dedup_of \<circ> snd) (db_outbox d)) \<and>
     (\<forall>(i, r) \<in> set (db_outbox d). \<exists>c. (ob_cont r, c) \<in> set (db_conts d) \<and> ob_seq r \<le> ct_seq c) \<and>
     (\<forall>k s n. p = Some (k, s, n) \<longrightarrow> (\<exists>c. (k, c) \<in> set (db_conts d) \<and> ct_seq c = s) \<and>
       (\<forall>(i, r) \<in> set (db_outbox d). ob_cont r = k \<and> ob_seq r = s \<longrightarrow> ob_ordinal r < n))"

definition live_task :: "db \<Rightarrow> uid \<Rightarrow> int \<Rightarrow> bool" where
  "live_task d k s \<longleftrightarrow> (\<exists>(i, t) \<in> set (db_tasks d). tk_pay t = PayResume k s \<and> tk_status t \<in> {TaskReady, TaskRunning})"

definition stuck_open :: "db \<Rightarrow> uid \<Rightarrow> bool" where
  "stuck_open d k \<longleftrightarrow> (\<exists>(i, q) \<in> set (db_conds d). cd_cont q = k \<and> cd_open q \<and> cd_class q = ''step.failed'')"

definition wakes_ok :: "(uid \<times> int) set \<Rightarrow> db \<Rightarrow> bool" where
  "wakes_ok W d \<longleftrightarrow> (\<forall>(k, c) \<in> set (db_conts d). ct_status c = Ready \<longrightarrow>
     (k, ct_seq c) \<in> W \<or> live_task d k (ct_seq c) \<or> stuck_open d k)"

definition floor_ok :: "(uid \<times> int) set \<Rightarrow> db \<Rightarrow> bool" where
  "floor_ok F d \<longleftrightarrow> (\<forall>(k, s) \<in> F. \<exists>c. (k, c) \<in> set (db_conts d) \<and> s \<le> ct_seq c)"

definition tasks_at :: "(uid \<times> task_pay) set \<Rightarrow> db \<Rightarrow> bool" where
  "tasks_at T d \<longleftrightarrow> (\<forall>(i, p) \<in> T. \<exists>t. (i, t) \<in> set (db_tasks d) \<and> tk_pay t = p)"

definition store_ok :: "(nat \<Rightarrow> uid) \<Rightarrow> ghost \<Rightarrow> db \<Rightarrow> bool" where
  "store_ok U g d \<longleftrightarrow> keys_ok U (g_ids g) d \<and> claims_ok d \<and> runs_ok (g_run g) d \<and>
     outbox_ok (g_out g) d \<and> wakes_ok (g_wake g) d \<and> floor_ok (g_floor g) d \<and> tasks_at (g_tasks g) d"

lemma store_okI:
  assumes "keys_ok U (g_ids g) d" "claims_ok d" "runs_ok (g_run g) d" "outbox_ok (g_out g) d" "wakes_ok (g_wake g) d"
    "floor_ok (g_floor g) d" "tasks_at (g_tasks g) d"
  shows "store_ok U g d"
  using assms by (simp add: store_ok_def)

lemma store_okD:
  assumes "store_ok U g d"
  shows "keys_ok U (g_ids g) d" "claims_ok d" "runs_ok (g_run g) d" "outbox_ok (g_out g) d" "wakes_ok (g_wake g) d"
    "floor_ok (g_floor g) d" "tasks_at (g_tasks g) d"
  using assms by (simp_all add: store_ok_def)

text \<open>A larger ghost is a weaker invariant.\<close>

definition weaker :: "ghost \<Rightarrow> ghost \<Rightarrow> bool" where
  "weaker g h \<longleftrightarrow> (g_run g = None \<or> g_run g = g_run h) \<and> g_wake g \<subseteq> g_wake h \<and>
     (g_out h = None \<or> g_out h = g_out g) \<and> g_ids h \<subseteq> g_ids g \<and> g_floor h \<subseteq> g_floor g \<and> g_tasks h \<subseteq> g_tasks g"

lemma keys_ok_less: "keys_ok U F d \<Longrightarrow> F' \<subseteq> F \<Longrightarrow> keys_ok U F' d"
  by (auto simp: keys_ok_def)

lemma runs_ok_more: "runs_ok r d \<Longrightarrow> r = None \<or> r = r' \<Longrightarrow> runs_ok r' d"
  by (auto simp: runs_ok_def)

lemma outbox_ok_more: "outbox_ok p d \<Longrightarrow> p' = None \<or> p' = p \<Longrightarrow> outbox_ok p' d"
  by (auto simp: outbox_ok_def)

lemma wakes_ok_more: "wakes_ok W d \<Longrightarrow> W \<subseteq> W' \<Longrightarrow> wakes_ok W' d"
  by (fastforce simp: wakes_ok_def)

lemma floor_ok_more: "floor_ok F d \<Longrightarrow> F' \<subseteq> F \<Longrightarrow> floor_ok F' d"
  by (auto simp: floor_ok_def)

lemma tasks_at_more: "tasks_at T d \<Longrightarrow> T' \<subseteq> T \<Longrightarrow> tasks_at T' d"
  by (auto simp: tasks_at_def)

lemma store_ok_weaker:
  assumes "store_ok U g d" "weaker g h"
  shows "store_ok U h d"
proof (rule store_okI)
  note s = store_okD [OF assms(1)]
  show "keys_ok U (g_ids h) d" using s(1) assms(2) by (auto intro: keys_ok_less simp: weaker_def)
  show "claims_ok d" by (rule s(2))
  show "runs_ok (g_run h) d" using s(3) assms(2) by (auto intro: runs_ok_more simp: weaker_def)
  show "outbox_ok (g_out h) d" using s(4) assms(2) by (auto intro: outbox_ok_more simp: weaker_def)
  show "wakes_ok (g_wake h) d" using s(5) assms(2) by (auto intro: wakes_ok_more simp: weaker_def)
  show "floor_ok (g_floor h) d" using s(6) assms(2) by (auto intro: floor_ok_more simp: weaker_def)
  show "tasks_at (g_tasks h) d" using s(7) assms(2) by (auto intro: tasks_at_more simp: weaker_def)
qed

text \<open>What the components do not look at.\<close>

lemma claims_ok_frame [simp]:
  "claims_ok (d\<lparr>db_conds := x1\<rparr>) = claims_ok d" "claims_ok (d\<lparr>db_restarts := x2\<rparr>) = claims_ok d"
  "claims_ok (d\<lparr>db_outbox := x3\<rparr>) = claims_ok d" "claims_ok (d\<lparr>db_tasks := x4\<rparr>) = claims_ok d"
  "claims_ok (d\<lparr>db_drawn := x5\<rparr>) = claims_ok d"
  by (simp_all add: claims_ok_def)

lemma runs_ok_frame [simp]:
  "runs_ok r (d\<lparr>db_conds := x1\<rparr>) = runs_ok r d" "runs_ok r (d\<lparr>db_restarts := x2\<rparr>) = runs_ok r d"
  "runs_ok r (d\<lparr>db_outbox := x3\<rparr>) = runs_ok r d" "runs_ok r (d\<lparr>db_tasks := x4\<rparr>) = runs_ok r d"
  "runs_ok r (d\<lparr>db_drawn := x5\<rparr>) = runs_ok r d" "runs_ok r (d\<lparr>db_messages := x6\<rparr>) = runs_ok r d"
  by (simp_all add: runs_ok_def)

lemma outbox_ok_frame [simp]:
  "outbox_ok p (d\<lparr>db_conds := x1\<rparr>) = outbox_ok p d" "outbox_ok p (d\<lparr>db_restarts := x2\<rparr>) = outbox_ok p d"
  "outbox_ok p (d\<lparr>db_messages := x3\<rparr>) = outbox_ok p d" "outbox_ok p (d\<lparr>db_tasks := x4\<rparr>) = outbox_ok p d"
  "outbox_ok p (d\<lparr>db_drawn := x5\<rparr>) = outbox_ok p d"
  by (simp_all add: outbox_ok_def)

lemma live_task_frame [simp]:
  "live_task (d\<lparr>db_conts := x1\<rparr>) = live_task d" "live_task (d\<lparr>db_conds := x2\<rparr>) = live_task d"
  by (simp_all add: live_task_def fun_eq_iff)

lemma stuck_open_frame [simp]:
  "stuck_open (d\<lparr>db_conts := x1\<rparr>) = stuck_open d" "stuck_open (d\<lparr>db_tasks := x2\<rparr>) = stuck_open d"
  by (simp_all add: stuck_open_def fun_eq_iff)

lemma live_task_more [simp]: "live_task (d\<lparr>db_tasks := db_tasks d @ [(k, t)]\<rparr>) i s \<longleftrightarrow>
  live_task d i s \<or> tk_pay t = PayResume i s \<and> tk_status t \<in> {TaskReady, TaskRunning}"
  by (auto simp: live_task_def)

lemma stuck_open_more [simp]: "stuck_open (d\<lparr>db_conds := db_conds d @ [(k, q)]\<rparr>) i \<longleftrightarrow>
  stuck_open d i \<or> cd_cont q = i \<and> cd_open q \<and> cd_class q = ''step.failed''"
  by (auto simp: stuck_open_def)

lemma wakes_ok_frame [simp]:
  "wakes_ok W (d\<lparr>db_restarts := x1\<rparr>) = wakes_ok W d" "wakes_ok W (d\<lparr>db_outbox := x2\<rparr>) = wakes_ok W d"
  "wakes_ok W (d\<lparr>db_messages := x3\<rparr>) = wakes_ok W d" "wakes_ok W (d\<lparr>db_drawn := x4\<rparr>) = wakes_ok W d"
  by (simp_all add: wakes_ok_def live_task_def stuck_open_def)

lemma floor_ok_frame [simp]:
  "floor_ok F (d\<lparr>db_conds := x1\<rparr>) = floor_ok F d" "floor_ok F (d\<lparr>db_restarts := x2\<rparr>) = floor_ok F d"
  "floor_ok F (d\<lparr>db_outbox := x3\<rparr>) = floor_ok F d" "floor_ok F (d\<lparr>db_tasks := x4\<rparr>) = floor_ok F d"
  "floor_ok F (d\<lparr>db_drawn := x5\<rparr>) = floor_ok F d" "floor_ok F (d\<lparr>db_messages := x6\<rparr>) = floor_ok F d"
  by (simp_all add: floor_ok_def)

lemma tasks_at_frame [simp]:
  "tasks_at T (d\<lparr>db_conts := x0\<rparr>) = tasks_at T d"
  "tasks_at T (d\<lparr>db_conds := x1\<rparr>) = tasks_at T d" "tasks_at T (d\<lparr>db_restarts := x2\<rparr>) = tasks_at T d"
  "tasks_at T (d\<lparr>db_outbox := x3\<rparr>) = tasks_at T d" "tasks_at T (d\<lparr>db_drawn := x5\<rparr>) = tasks_at T d"
  "tasks_at T (d\<lparr>db_messages := x6\<rparr>) = tasks_at T d"
  by (simp_all add: tasks_at_def)

lemma used_keys_frame [simp]:
  "used_keys (d\<lparr>db_restarts := x1\<rparr>) = used_keys d" "used_keys (d\<lparr>db_outbox := x2\<rparr>) = used_keys d"
  "used_keys (d\<lparr>db_drawn := x3\<rparr>) = used_keys d"
  by (simp_all add: used_keys_def)

lemma keys_ok_frame [simp]:
  "keys_ok U F (d\<lparr>db_restarts := x1\<rparr>) = keys_ok U F d" "keys_ok U F (d\<lparr>db_outbox := x2\<rparr>) = keys_ok U F d"
  by (simp_all add: keys_ok_def used_keys_def)

text \<open>Rows that are still there at the same step.\<close>

definition rows_kept :: "cont table \<Rightarrow> cont table \<Rightarrow> bool" where
  "rows_kept t t' \<longleftrightarrow> (\<forall>(k, c) \<in> set t. \<exists>c'. (k, c') \<in> set t' \<and> ct_seq c' = ct_seq c)"

lemma rows_keptD: "rows_kept t t' \<Longrightarrow> (k, c) \<in> set t \<Longrightarrow> \<exists>c'. (k, c') \<in> set t' \<and> ct_seq c' = ct_seq c"
  by (auto simp: rows_kept_def)

lemma outbox_ok_kept:
  assumes "outbox_ok p d" "rows_kept (db_conts d) t"
  shows "outbox_ok p (d\<lparr>db_conts := t\<rparr>)"
  unfolding outbox_ok_def
proof (intro conjI ballI allI impI)
  show "distinct (map (dedup_of \<circ> snd) (db_outbox (d\<lparr>db_conts := t\<rparr>)))" using assms(1) by (simp add: outbox_ok_def)
  show "case x of (i, r) \<Rightarrow> \<exists>c. (ob_cont r, c) \<in> set (db_conts (d\<lparr>db_conts := t\<rparr>)) \<and> ob_seq r \<le> ct_seq c"
    if "x \<in> set (db_outbox (d\<lparr>db_conts := t\<rparr>))" for x
  proof (cases x)
    case (Pair i r)
    with that assms(1) obtain c where "(ob_cont r, c) \<in> set (db_conts d)" "ob_seq r \<le> ct_seq c"
      by (fastforce simp: outbox_ok_def)
    with rows_keptD [OF assms(2) this(1)] Pair show ?thesis by force
  qed
  fix k s n assume p: "p = Some (k, s, n)"
  with assms(1) have "\<exists>c. (k, c) \<in> set (db_conts d) \<and> ct_seq c = s" by (simp add: outbox_ok_def)
  then show "\<exists>c. (k, c) \<in> set (db_conts (d\<lparr>db_conts := t\<rparr>)) \<and> ct_seq c = s" by (auto dest: rows_keptD [OF assms(2)])
  show "case x of (i, r) \<Rightarrow> ob_cont r = k \<and> ob_seq r = s \<longrightarrow> ob_ordinal r < n"
    if "x \<in> set (db_outbox (d\<lparr>db_conts := t\<rparr>))" for x
    using that p assms(1) by (fastforce simp: outbox_ok_def)
qed

lemma floor_ok_kept: "floor_ok F d \<Longrightarrow> rows_kept (db_conts d) t \<Longrightarrow> floor_ok F (d\<lparr>db_conts := t\<rparr>)"
  by (fastforce simp: floor_ok_def dest: rows_keptD)

lemma rows_kept_append: "rows_kept t (t @ u)"
  by (auto simp: rows_kept_def)

subsection \<open>Drawing identifiers and inserting rows\<close>

lemma uuid4_ok:
  assumes "inj U" "en_uuid E = U"
  shows "tx_triple (store_ok U g) (uuid4 E) (\<lambda>k d. k \<notin> g_ids g \<and> store_ok U (g\<lparr>g_ids := insert k (g_ids g)\<rparr>) d)"
  unfolding uuid4_def
proof (rule triple_bind [OF triple_get], unfold assms(2))
  fix n
  show "tx_triple (\<lambda>d. store_ok U g d \<and> n = db_drawn d) (tx_seq (tx_put (\<lambda>d. d\<lparr>db_drawn := Suc n\<rparr>)) (tx_ret (U n)))
     (\<lambda>k d. k \<notin> g_ids g \<and> store_ok U (g\<lparr>g_ids := insert k (g_ids g)\<rparr>) d)"
  proof (rule triple_seq [OF triple_put triple_ret])
    fix d assume a: "store_ok U g d \<and> n = db_drawn d"
    have f: "U n \<notin> U ` {..<n}" using assms(1) by (auto simp: inj_def)
    have s: "U ` {..<Suc n} = insert (U n) (U ` {..<n})" by (auto simp: lessThan_Suc)
    have k: "keys_ok U (g_ids g) d" using a by (simp add: store_ok_def)
    then have n: "U n \<notin> g_ids g" "U n \<notin> used_keys d" using f a by (auto simp: keys_ok_def)
    have u: "used_keys d \<union> insert (U n) (g_ids g) \<subseteq> insert (U n) (U ` {..<n})"
      using k a by (auto simp: keys_ok_def)
    have "used_keys d \<inter> insert (U n) (g_ids g) = {}" using n(2) k by (simp add: keys_ok_def)
    with u k have "keys_ok U (insert (U n) (g_ids g)) (d\<lparr>db_drawn := Suc n\<rparr>)"
      by (simp add: keys_ok_def s)
    with a n show "U n \<notin> g_ids g \<and> store_ok U (g\<lparr>g_ids := insert (U n) (g_ids g)\<rparr>) (d\<lparr>db_drawn := Suc n\<rparr>)"
      by (simp add: store_ok_def)
  qed
qed

text \<open>A row inserted under a drawn key that is not used yet.\<close>

lemma keys_ok_insert:
  assumes "keys_ok U F d" "k \<in> F"
  shows "k \<notin> used_keys d"
    and "keys_ok U (F - {k}) (d\<lparr>db_conts := db_conts d @ [(k, c)]\<rparr>)"
    and "keys_ok U (F - {k}) (d\<lparr>db_conds := db_conds d @ [(k, q)]\<rparr>)"
    and "keys_ok U (F - {k}) (d\<lparr>db_messages := db_messages d @ [(k, m)]\<rparr>)"
    and "keys_ok U (F - {k}) (d\<lparr>db_tasks := db_tasks d @ [(k, t)]\<rparr>)"
proof -
  show n: "k \<notin> used_keys d" using assms by (auto simp: keys_ok_def)
  then have nk: "k \<notin> fst ` set (db_conts d)" "k \<notin> fst ` set (db_conds d)" "k \<notin> fst ` set (db_messages d)"
    "k \<notin> fst ` set (db_tasks d)" by (auto simp: used_keys_def)
  have u: "used_keys (d\<lparr>db_conts := db_conts d @ [(k, c)]\<rparr>) = insert k (used_keys d)"
    "used_keys (d\<lparr>db_conds := db_conds d @ [(k, q)]\<rparr>) = insert k (used_keys d)"
    "used_keys (d\<lparr>db_messages := db_messages d @ [(k, m)]\<rparr>) = insert k (used_keys d)"
    "used_keys (d\<lparr>db_tasks := db_tasks d @ [(k, t)]\<rparr>) = insert k (used_keys d)"
    by (auto simp: used_keys_def)
  have s: "insert k (used_keys d) \<union> (F - {k}) \<subseteq> U ` {..<db_drawn d}" "insert k (used_keys d) \<inter> (F - {k}) = {}"
    using assms by (auto simp: keys_ok_def)
  show "keys_ok U (F - {k}) (d\<lparr>db_conts := db_conts d @ [(k, c)]\<rparr>)"
    and "keys_ok U (F - {k}) (d\<lparr>db_conds := db_conds d @ [(k, q)]\<rparr>)"
    and "keys_ok U (F - {k}) (d\<lparr>db_messages := db_messages d @ [(k, m)]\<rparr>)"
    and "keys_ok U (F - {k}) (d\<lparr>db_tasks := db_tasks d @ [(k, t)]\<rparr>)"
    unfolding keys_ok_def u using assms(1) nk s by (simp_all add: keys_ok_def)
qed

lemma insert_cont_ok:
  assumes "k \<in> g_ids g" "ct_status c \<noteq> Running" "wr_message (ct_wake c) = []"
  shows "tx_triple (store_ok U g) (insert_cont k c)
    (\<lambda>_. store_ok U (g\<lparr>g_ids := g_ids g - {k}, g_wake := insert (k, ct_seq c) (g_wake g)\<rparr>))"
  unfolding insert_cont_def
proof (rule triple_put, rule store_okI)
  fix d assume "store_ok U g d"
  note d = store_okD [OF this]
  let ?g = "g\<lparr>g_ids := g_ids g - {k}, g_wake := insert (k, ct_seq c) (g_wake g)\<rparr>"
    and ?d = "d\<lparr>db_conts := db_conts d @ [(k, c)]\<rparr>"
  show "keys_ok U (g_ids ?g) ?d" using keys_ok_insert(2) [OF d(1) assms(1)] by simp
  show "claims_ok ?d" using d(2) assms(3) by (auto simp: claims_ok_def)
  show "runs_ok (g_run ?g) ?d" using d(3) assms(2) by (auto simp: runs_ok_def)
  show "outbox_ok (g_out ?g) ?d" using d(4) by (simp add: outbox_ok_kept rows_kept_append)
  show "wakes_ok (g_wake ?g) ?d" using d(5) by (auto simp: wakes_ok_def)
  show "floor_ok (g_floor ?g) ?d" using d(6) by (simp add: floor_ok_kept rows_kept_append)
  show "tasks_at (g_tasks ?g) ?d" using d(7) by simp
qed

lemma insert_cond_ok:
  assumes "k \<in> g_ids g"
  shows "tx_triple (store_ok U g) (insert_cond k q)
    (\<lambda>_ d. store_ok U (g\<lparr>g_ids := g_ids g - {k}\<rparr>) d \<and> (k, q) \<in> set (db_conds d))"
  unfolding insert_cond_def
proof (rule triple_put, rule conjI, rule store_okI)
  fix d assume "store_ok U g d"
  note d = store_okD [OF this]
  let ?g = "g\<lparr>g_ids := g_ids g - {k}\<rparr>" and ?d = "d\<lparr>db_conds := db_conds d @ [(k, q)]\<rparr>"
  show "keys_ok U (g_ids ?g) ?d" using keys_ok_insert(3) [OF d(1) assms(1)] by simp
  show "claims_ok ?d" "runs_ok (g_run ?g) ?d" "outbox_ok (g_out ?g) ?d" "floor_ok (g_floor ?g) ?d" "tasks_at (g_tasks ?g) ?d" using d by simp_all
  show "wakes_ok (g_wake ?g) ?d" using d(5) by (fastforce simp: wakes_ok_def)
qed simp

lemma insert_restart_ok: "tx_triple (store_ok U g) (insert_restart k r) (\<lambda>_. store_ok U g)"
  unfolding insert_restart_def by (rule triple_put) (simp add: store_ok_def)

text \<open>No wake refers to the message.\<close>

definition unpinned :: "uid \<Rightarrow> db \<Rightarrow> bool" where
  "unpinned k d \<longleftrightarrow> (\<forall>(i, c)\<in>set (db_conts d). wr_message (ct_wake c) = k \<longrightarrow> k = [])"

lemma insert_message_ok:
  assumes "k \<in> g_ids g"
  shows "tx_triple (store_ok U g) (insert_message k m)
    (\<lambda>_ d. store_ok U (g\<lparr>g_ids := g_ids g - {k}\<rparr>) d \<and> k \<in> fst ` set (db_messages d) \<and> unpinned k d)"
  unfolding insert_message_def
proof (rule triple_put, intro conjI, rule store_okI)
  fix d assume "store_ok U g d"
  note d = store_okD [OF this]
  let ?g = "g\<lparr>g_ids := g_ids g - {k}\<rparr>" and ?d = "d\<lparr>db_messages := db_messages d @ [(k, m)]\<rparr>"
  show "keys_ok U (g_ids ?g) ?d" using keys_ok_insert(4) [OF d(1) assms(1)] by simp
  show "claims_ok ?d" using d(2) by (auto simp: claims_ok_def)
  show "runs_ok (g_run ?g) ?d" "outbox_ok (g_out ?g) ?d" "wakes_ok (g_wake ?g) ?d" "floor_ok (g_floor ?g) ?d" "tasks_at (g_tasks ?g) ?d" using d by simp_all
  have "k \<notin> fst ` set (db_messages d)"
    using keys_ok_insert(1) [OF d(1) assms(1)] by (simp add: used_keys_def)
  then have k: "(k, x) \<notin> set (db_messages d)" for x by (metis fst_conv image_eqI)
  have "k = []" if c: "(i, c) \<in> set (db_conts d)" "wr_message (ct_wake c) = k" for i c
  proof (rule ccontr)
    assume "k \<noteq> []"
    with c d(2) obtain x where "(k, x) \<in> set (db_messages d)" by (auto simp: claims_ok_def)
    with k show False by simp
  qed
  then show "unpinned k ?d" by (auto simp: unpinned_def)
qed simp

lemma insert_task_ok:
  assumes "k \<in> g_ids g"
  shows "tx_triple (store_ok U g) (insert_task k t) (\<lambda>_. store_ok U (g\<lparr>g_ids := g_ids g - {k},
    g_wake := {(c, s) \<in> g_wake g. tk_status t = TaskReady \<longrightarrow> tk_pay t \<noteq> PayResume c s}\<rparr>))"
  unfolding insert_task_def
proof (rule triple_put, rule store_okI)
  fix d assume "store_ok U g d"
  note d = store_okD [OF this]
  let ?g = "g\<lparr>g_ids := g_ids g - {k}, g_wake := {(c, s) \<in> g_wake g. tk_status t = TaskReady \<longrightarrow> tk_pay t \<noteq> PayResume c s}\<rparr>"
    and ?d = "d\<lparr>db_tasks := db_tasks d @ [(k, t)]\<rparr>"
  show "keys_ok U (g_ids ?g) ?d" using keys_ok_insert(5) [OF d(1) assms(1)] by simp
  show "claims_ok ?d" "runs_ok (g_run ?g) ?d" "outbox_ok (g_out ?g) ?d" "floor_ok (g_floor ?g) ?d" using d by simp_all
  show "tasks_at (g_tasks ?g) ?d" using d(7) by (auto simp: tasks_at_def)
  show "wakes_ok (g_wake ?g) ?d" using d(5) by (fastforce simp: wakes_ok_def)
qed

end
