(* ===== verification/Cfr_Keeps.thy ===== *)
theory Cfr_Keeps
  imports Cfr_Laws
begin

section \<open>Updates and parks keep the invariant\<close>

text \<open>
  The update statements, the deliveries and the checkpoints of a step against the invariant: what an
  update of continuation rows may change, the loops over receivers and messages, and each way a step
  ends, which gives up the running row and the wakes it owes.
\<close>

subsection \<open>Updates of continuation rows\<close>

lemma triple_update_conts:
  "(\<And>d. P d \<Longrightarrow> Q (matching R (db_conts d)) (d\<lparr>db_conts := upd_rows R f (db_conts d)\<rparr>)) \<Longrightarrow>
    tx_triple P (update_conts R f) Q"
  by (simp add: tx_triple_def update_conts_def tx_bind_def tx_seq_def tx_get_def tx_put_def tx_ret_def)

lemma triple_update_messages:
  "(\<And>d. P d \<Longrightarrow> Q (matching R (db_messages d)) (d\<lparr>db_messages := upd_rows R f (db_messages d)\<rparr>)) \<Longrightarrow>
    tx_triple P (update_messages R f) Q"
  by (simp add: tx_triple_def update_messages_def tx_bind_def tx_seq_def tx_get_def tx_put_def tx_ret_def)

lemma triple_update_conds:
  "(\<And>d. P d \<Longrightarrow> Q (matching R (db_conds d)) (d\<lparr>db_conds := upd_rows R f (db_conds d)\<rparr>)) \<Longrightarrow>
    tx_triple P (update_conds R f) Q"
  by (simp add: tx_triple_def update_conds_def tx_bind_def tx_seq_def tx_get_def tx_put_def tx_ret_def)

lemma triple_update_outbox:
  "(\<And>d. P d \<Longrightarrow> Q (matching R (db_outbox d)) (d\<lparr>db_outbox := upd_rows R f (db_outbox d)\<rparr>)) \<Longrightarrow>
    tx_triple P (update_outbox R f) Q"
  by (simp add: tx_triple_def update_outbox_def tx_bind_def tx_seq_def tx_get_def tx_put_def tx_ret_def)

lemma fst_upd_rows [simp]: "map fst (upd_rows R f t) = map fst t"
  by (induction t) (auto simp: upd_rows_def)

lemma set_fst_upd_rows [simp]: "fst ` set (upd_rows R f t) = fst ` set t"
  by (metis fst_upd_rows image_set)

lemma upd_rows_mem:
  "(k, r') \<in> set (upd_rows R f t) \<longleftrightarrow> (\<exists>r. (k, r) \<in> set t \<and> r' = (if R k r then f r else r))"
proof
  assume "(k, r') \<in> set (upd_rows R f t)"
  then obtain i r where "(i, r) \<in> set t" "(k, r') = (if R i r then (i, f r) else (i, r))" by (auto simp: upd_rows_def)
  then show "\<exists>r. (k, r) \<in> set t \<and> r' = (if R k r then f r else r)" by (cases "R i r") auto
next
  assume "\<exists>r. (k, r) \<in> set t \<and> r' = (if R k r then f r else r)"
  then obtain r where r: "(k, r) \<in> set t" "r' = (if R k r then f r else r)" by blast
  then have "(k, r') = (\<lambda>(k, r). if R k r then (k, f r) else (k, r)) (k, r)" by simp
  with r(1) show "(k, r') \<in> set (upd_rows R f t)" unfolding upd_rows_def set_map by (rule rev_image_eqI)
qed

lemma matching_other:
  assumes "distinct (map fst t)" "matching (\<lambda>i r. i = k \<and> Q r) t \<noteq> 1"
  shows "(k, r) \<in> set t \<Longrightarrow> \<not> Q r"
proof
  assume r: "(k, r) \<in> set t" "Q r"
  let ?m = "filter (\<lambda>(i, r). i = k \<and> Q r) t"
  have "distinct (map fst ?m)" using assms(1) by (rule distinct_map_filter)
  moreover have "set (map fst ?m) \<subseteq> {k}" by auto
  ultimately have "length (map fst ?m) \<le> 1" by (metis card_mono distinct_card finite.emptyI finite.insertI is_singletonI is_singleton_altdef)
  moreover have "(k, r) \<in> set ?m" using r by simp
  then have "?m \<noteq> []" by (metis empty_iff list.set(1))
  ultimately have "length ?m = 1" by (cases ?m) auto
  with assms(2) show False by (simp add: matching_def)
qed

lemma upd_rows_none: "(\<And>k r. (k, r) \<in> set t \<Longrightarrow> \<not> R k r) \<Longrightarrow> upd_rows R f t = t"
  unfolding upd_rows_def by (rule map_idI) auto

lemma upd_rows_same:
  assumes "distinct (map fst t)" "matching (\<lambda>i r. i = k \<and> Q r) t \<noteq> 1"
  shows "upd_rows (\<lambda>i r. i = k \<and> Q r) f t = t"
  by (rule upd_rows_none) (use matching_other [OF assms] in blast)

lemma matching_one:
  assumes "matching R t = 1"
  obtains k r where "(k, r) \<in> set t" "R k r"
proof -
  from assms have "filter (\<lambda>(k, r). R k r) t \<noteq> []" by (auto simp: matching_def)
  then have "hd (filter (\<lambda>(k, r). R k r) t) \<in> set (filter (\<lambda>(k, r). R k r) t)" by (rule hd_in_set)
  then obtain k r where "(k, r) \<in> set (filter (\<lambda>(k, r). R k r) t)" by (metis surj_pair)
  then show ?thesis using that by auto
qed

lemma matching_at:
  assumes "distinct (map fst t)" "matching (\<lambda>i r. i = k \<and> Q r) t = 1" "(k, r) \<in> set t"
  shows "Q r"
proof -
  from assms(2) obtain i r' where "(i, r') \<in> set t" "i = k \<and> Q r'" by (rule matching_one)
  with assms(1,3) show ?thesis by (metis map_of_is_SomeI option.inject)
qed

lemma row_unique: "keys_ok U F d \<Longrightarrow> (k, c) \<in> set (db_conts d) \<Longrightarrow> (k, c') \<in> set (db_conts d) \<Longrightarrow> c = c'"
  by (metis keys_ok_def map_of_is_SomeI option.inject)

text \<open>What an update of continuation rows may do: keep the step number, drop the pinned message or
  pin one the row has claimed, and make rows ready that owe a wake.\<close>

definition lawful :: "db \<Rightarrow> (uid \<times> int) set \<Rightarrow> uid \<Rightarrow> cont \<Rightarrow> cont \<Rightarrow> bool" where
  "lawful d W k c c' \<longleftrightarrow> ct_seq c' = ct_seq c \<and>
     (wr_message (ct_wake c') = [] \<or> wr_message (ct_wake c') = wr_message (ct_wake c) \<or>
       (\<exists>m. (wr_message (ct_wake c'), m) \<in> set (db_messages d) \<and> mg_claimed m = Some k)) \<and>
     (ct_status c' = Running \<longrightarrow> ct_status c = Running) \<and>
     (ct_status c' = Ready \<longrightarrow> ct_status c = Ready \<or> (k, ct_seq c) \<in> W)"

lemma rows_kept_upd:
  assumes "\<And>k c. (k, c) \<in> set t \<Longrightarrow> R k c \<Longrightarrow> ct_seq (f c) = ct_seq c"
  shows "rows_kept t (upd_rows R f t)"
  unfolding rows_kept_def
proof (safe)
  fix k c assume c: "(k, c) \<in> set t"
  then have "(k, if R k c then f c else c) \<in> set (upd_rows R f t)" by (auto simp: upd_rows_mem)
  moreover have "ct_seq (if R k c then f c else c) = ct_seq c" using assms c by simp
  ultimately show "\<exists>c'. (k, c') \<in> set (upd_rows R f t) \<and> ct_seq c' = ct_seq c" by blast
qed

lemma runs_okI: "(\<And>k c. (k, c) \<in> set (db_conts d) \<Longrightarrow> ct_status c = Running \<Longrightarrow> r = Some k) \<Longrightarrow> runs_ok r d"
  by (auto simp: runs_ok_def)

lemma wakes_okI: "(\<And>k c. (k, c) \<in> set (db_conts d) \<Longrightarrow> ct_status c = Ready \<Longrightarrow> \<not> live_task d k (ct_seq c) \<Longrightarrow>
    \<not> stuck_open d k \<Longrightarrow> (k, ct_seq c) \<in> W) \<Longrightarrow> wakes_ok W d"
  by (auto simp: wakes_ok_def)

lemma upd_conts_ok:
  assumes "store_ok U g d" and L: "\<And>k c. (k, c) \<in> set (db_conts d) \<Longrightarrow> R k c \<Longrightarrow> lawful d W k c (f c)"
  shows "store_ok U (g\<lparr>g_wake := g_wake g \<union> W\<rparr>) (d\<lparr>db_conts := upd_rows R f (db_conts d)\<rparr>)"
proof (rule store_okI)
  note d = store_okD [OF assms(1)]
  let ?g = "g\<lparr>g_wake := g_wake g \<union> W\<rparr>" and ?d = "d\<lparr>db_conts := upd_rows R f (db_conts d)\<rparr>"
  have K: "rows_kept (db_conts d) (upd_rows R f (db_conts d))"
    by (rule rows_kept_upd) (use L in \<open>auto simp: lawful_def\<close>)
  show "keys_ok U (g_ids ?g) ?d" using d(1) by (simp add: keys_ok_def used_keys_def)
  show "claims_ok ?d" unfolding claims_ok_def
  proof (safe)
    fix k c' assume c': "(k, c') \<in> set (db_conts ?d)" "wr_message (ct_wake c') \<noteq> []"
    then obtain c where "(k, c) \<in> set (db_conts d)" "c' = (if R k c then f c else c)" by (auto simp: upd_rows_mem)
    with c'(2) L [of k c] d(2)
    show "\<exists>m. (wr_message (ct_wake c'), m) \<in> set (db_messages ?d) \<and> mg_claimed m = Some k"
      by (cases "R k c") (auto simp: lawful_def claims_ok_def)
  qed
  show "runs_ok (g_run ?g) ?d"
  proof (rule runs_okI)
    fix k c' assume c': "(k, c') \<in> set (db_conts ?d)" "ct_status c' = Running"
    then obtain c where c: "(k, c) \<in> set (db_conts d)" "c' = (if R k c then f c else c)" by (auto simp: upd_rows_mem)
    with c'(2) L [of k c] have "ct_status c = Running" by (cases "R k c") (auto simp: lawful_def)
    with c(1) d(3) show "g_run ?g = Some k" by (auto simp: runs_ok_def)
  qed
  show "outbox_ok (g_out ?g) ?d" using outbox_ok_kept [OF d(4) K] by simp
  show "wakes_ok (g_wake ?g) ?d"
  proof (rule wakes_okI)
    fix k c' assume c': "(k, c') \<in> set (db_conts ?d)" "ct_status c' = Ready" "\<not> live_task ?d k (ct_seq c')" "\<not> stuck_open ?d k"
    then obtain c where "(k, c) \<in> set (db_conts d)" "c' = (if R k c then f c else c)" by (auto simp: upd_rows_mem)
    with c' L [of k c] d(5) show "(k, ct_seq c') \<in> g_wake ?g" by (auto simp: wakes_ok_def lawful_def split: if_splits)
  qed
  show "floor_ok (g_floor ?g) ?d" using floor_ok_kept [OF d(6) K] by simp
  show "tasks_at (g_tasks ?g) ?d" using d(7) by simp
qed

lemma wake_union_empty [simp]: "g\<lparr>g_wake := g_wake g \<union> {}\<rparr> = g" "g\<lparr>g_wake := g_wake g\<rparr> = g"
  by simp_all

text \<open>The row a step owns gives up running.\<close>

lemma update_running_ok:
  assumes "g_run g = Some k"
    and L: "\<And>d c. P d \<Longrightarrow> store_ok U g d \<Longrightarrow> (k, c) \<in> set (db_conts d) \<Longrightarrow> lawful d W k c (f c) \<and> ct_status (f c) \<noteq> Running"
  shows "tx_triple (\<lambda>d. store_ok U g d \<and> P d) (update_running E k f)
    (\<lambda>_. store_ok U (g\<lparr>g_run := None, g_wake := g_wake g \<union> W\<rparr>))"
  unfolding update_running_def
proof (rule triple_bind [OF triple_update_conts [where Q = "\<lambda>n d. n = 1 \<longrightarrow> store_ok U (g\<lparr>g_run := None, g_wake := g_wake g \<union> W\<rparr>) d"]])
  let ?R = "\<lambda>i r. i = k \<and> ct_status r = Running \<and> ct_owner r = Some (en_kernel E)"
    and ?f = "\<lambda>r. (f r)\<lparr>ct_updated := en_now E\<rparr>"
  show "matching ?R (db_conts d) = 1 \<longrightarrow> store_ok U (g\<lparr>g_run := None, g_wake := g_wake g \<union> W\<rparr>) (d\<lparr>db_conts := upd_rows ?R ?f (db_conts d)\<rparr>)"
    if p: "store_ok U g d \<and> P d" for d
  proof
    assume one: "matching ?R (db_conts d) = 1"
    have s: "store_ok U (g\<lparr>g_wake := g_wake g \<union> W\<rparr>) (d\<lparr>db_conts := upd_rows ?R ?f (db_conts d)\<rparr>)"
    proof (rule upd_conts_ok)
      show "store_ok U g d" using p ..
      fix i c assume c: "(i, c) \<in> set (db_conts d)" "?R i c"
      then have "lawful d W k c (f c)" using L [of d c] p by simp
      with c show "lawful d W i c (?f c)" by (simp add: lawful_def)
    qed
    have dd: "distinct (map fst (db_conts d))" using p by (simp add: store_ok_def keys_ok_def)
    have "ct_status c' \<noteq> Running" if c': "(i, c') \<in> set (upd_rows ?R ?f (db_conts d))" for i c'
    proof
      assume run: "ct_status c' = Running"
      from c' obtain c where c: "(i, c) \<in> set (db_conts d)" "c' = (if ?R i c then ?f c else c)" by (auto simp: upd_rows_mem)
      show False
      proof (cases "?R i c")
        case True
        with c run L [of d c] p show False by auto
      next
        case False
        with c run have "ct_status c = Running" by simp
        with p c(1) assms(1) have "i = k" by (auto simp: store_ok_def runs_ok_def)
        with matching_at [OF dd one] c(1) False show False by simp
      qed
    qed
    with s show "store_ok U (g\<lparr>g_run := None, g_wake := g_wake g \<union> W\<rparr>) (d\<lparr>db_conts := upd_rows ?R ?f (db_conts d)\<rparr>)"
      by (auto simp: store_ok_def runs_ok_def)
  qed
  show "tx_triple (\<lambda>d. n = 1 \<longrightarrow> store_ok U (g\<lparr>g_run := None, g_wake := g_wake g \<union> W\<rparr>) d)
     (if n \<noteq> 1 then tx_fail (ErrLostFence k) else tx_ret ()) (\<lambda>_. store_ok U (g\<lparr>g_run := None, g_wake := g_wake g \<union> W\<rparr>))" for n
    by (rule triple_if) (auto intro: triple_fail triple_ret)
qed

subsection \<open>Tasks, outbox rows, conditions\<close>

lemma triple_weaker: "tx_triple P m (\<lambda>_. store_ok U g) \<Longrightarrow> weaker g h \<Longrightarrow> tx_triple P m (\<lambda>_. store_ok U h)"
  by (erule triple_post) (rule store_ok_weaker)

lemma triple_uuid4:
  assumes "draws U E" "\<And>k. k \<notin> g_ids g \<Longrightarrow> tx_triple (store_ok U (g\<lparr>g_ids := insert k (g_ids g)\<rparr>)) (m k) Q"
  shows "tx_triple (store_ok U g) (tx_bind (uuid4 E) m) Q"
  by (rule triple_bind [OF uuid4_ok triple_conj_pre]) (use assms in \<open>auto simp: draws_def\<close>)

lemma new_task_ok:
  assumes "draws U E"
  shows "tx_triple (store_ok U g) (new_task E at p) (\<lambda>_. store_ok U (g\<lparr>g_wake := {(c, s) \<in> g_wake g. p \<noteq> PayResume c s}\<rparr>))"
  unfolding new_task_def
proof (rule triple_uuid4 [OF assms])
  fix k assume "k \<notin> g_ids g"
  then show "tx_triple (store_ok U (g\<lparr>g_ids := insert k (g_ids g)\<rparr>))
      (insert_task k \<lparr>tk_pay = p, tk_run_at = at, tk_status = TaskReady, tk_attempts = 0, tk_owner = None, tk_lease = 0\<rparr>)
      (\<lambda>_. store_ok U (g\<lparr>g_wake := {(c, s) \<in> g_wake g. p \<noteq> PayResume c s}\<rparr>))"
    by (intro triple_weaker [OF insert_task_ok]) (auto simp: weaker_def)
qed

lemma insert_resume_task_ok:
  assumes "draws U E" "g_wake g - {(k, s)} \<subseteq> g_wake h" "h = g\<lparr>g_wake := g_wake h\<rparr>"
  shows "tx_triple (store_ok U g) (insert_resume_task E k s) (\<lambda>_. store_ok U h)"
  unfolding insert_resume_task_def
  by (rule triple_weaker [OF new_task_ok [OF assms(1)]], subst assms(3)) (use assms(2) in \<open>auto simp: weaker_def\<close>)

lemma other_task_ok:
  assumes "draws U E" "\<And>c s. p \<noteq> PayResume c s"
  shows "tx_triple (store_ok U g) (new_task E at p) (\<lambda>_. store_ok U g)"
  by (rule triple_weaker [OF new_task_ok [OF assms(1)]]) (use assms(2) in \<open>auto simp: weaker_def\<close>)

lemma insert_outbox_ok:
  assumes "g_out g = Some (k, sq, i)" "dedup_of r = (k, sq, i)"
  shows "tx_triple (store_ok U g) (insert_outbox o_id r) (\<lambda>_. store_ok U (g\<lparr>g_out := Some (k, sq, Suc i)\<rparr>))"
  unfolding insert_outbox_def
proof (rule triple_put, rule store_okI)
  fix d assume "store_ok U g d"
  note d = store_okD [OF this]
  let ?g = "g\<lparr>g_out := Some (k, sq, Suc i)\<rparr>" and ?d = "d\<lparr>db_outbox := db_outbox d @ [(o_id, r)]\<rparr>"
  show "keys_ok U (g_ids ?g) ?d" "claims_ok ?d" "runs_ok (g_run ?g) ?d" "wakes_ok (g_wake ?g) ?d" "floor_ok (g_floor ?g) ?d"
    "tasks_at (g_tasks ?g) ?d"
    using d by simp_all
  from d(4) assms(1) have o: "outbox_ok (Some (k, sq, i)) d" by simp
  have r: "ob_cont r = k" "ob_seq r = sq" "ob_ordinal r = i" using assms(2) by (auto simp: dedup_of_def)
  from o have old: "ob_ordinal x < i" if "(j, x) \<in> set (db_outbox d)" "ob_cont x = k" "ob_seq x = sq" for j x
    using that by (auto simp: outbox_ok_def)
  from o obtain c where c: "(k, c) \<in> set (db_conts d)" "ct_seq c = sq" by (auto simp: outbox_ok_def)
  have "dedup_of r \<notin> set (map (dedup_of \<circ> snd) (db_outbox d))"
    using old assms(2) by (force simp: dedup_of_def)
  with o have "distinct (map (dedup_of \<circ> snd) (db_outbox ?d))" by (simp add: outbox_ok_def)
  moreover have "\<forall>(j, x) \<in> set (db_outbox ?d). \<exists>c. (ob_cont x, c) \<in> set (db_conts ?d) \<and> ob_seq x \<le> ct_seq c"
    using o c r by (auto simp: outbox_ok_def)
  moreover have "ob_ordinal x < Suc i" if "(j, x) \<in> set (db_outbox ?d)" "ob_cont x = k" "ob_seq x = sq" for j x
    using that r old [of j x] by auto
  ultimately show "outbox_ok (g_out ?g) ?d" using c by (auto simp: outbox_ok_def)
qed

lemma insert_restarts_ok:
  assumes "draws U E"
  shows "tx_triple (store_ok U g) (insert_restarts E cond rs) (\<lambda>_. store_ok U g)"
  unfolding insert_restarts_def
  by (rule triple_each, rule triple_uuid4 [OF assms], rule triple_weaker [OF insert_restart_ok]) (auto simp: weaker_def)

lemma insert_restarts_conds:
  "tx_triple (\<lambda>d. R (db_conds d)) (insert_restarts E cond rs) (\<lambda>_ d. R (db_conds d))"
  unfolding insert_restarts_def uuid4_def insert_restart_def
  by (rule triple_each, rule triple_bind [where R = "\<lambda>_ d. R (db_conds d)"])
    (auto simp: tx_triple_def tx_bind_def tx_seq_def tx_get_def tx_put_def tx_ret_def)

lemma open_condition_ok:
  assumes "draws U E" "cond \<in> g_ids g"
  shows "tx_triple (store_ok U g) (open_condition E cond k class payload rs)
    (\<lambda>_. store_ok U (g\<lparr>g_ids := g_ids g - {cond}\<rparr>))"
  unfolding open_condition_def
  by (rule triple_if [OF triple_fail], rule triple_seq [OF triple_post [OF insert_cond_ok [OF assms(2)]] insert_restarts_ok [OF assms(1)]]) simp

lemma triple_both: "tx_triple P m Q \<Longrightarrow> tx_triple P' m Q' \<Longrightarrow> tx_triple (\<lambda>d. P d \<and> P' d) m (\<lambda>x d. Q x d \<and> Q' x d)"
  by (auto simp: tx_triple_def)

lemma stuck_openI: "(i, q) \<in> set (db_conds d) \<Longrightarrow> cd_cont q = k \<Longrightarrow> cd_open q \<Longrightarrow> cd_class q = ''step.failed'' \<Longrightarrow> stuck_open d k"
  by (auto simp: stuck_open_def)

lemma step_failed_condition_ok:
  assumes "draws U E"
  shows "tx_triple (store_ok U g) (step_failed_condition E k msg) (\<lambda>_ d. store_ok U g d \<and> stuck_open d k)"
  unfolding step_failed_condition_def
proof (rule triple_uuid4 [OF assms], rule triple_if [OF triple_fail])
  fix cond assume n: "cond \<notin> g_ids g"
  let ?g = "g\<lparr>g_ids := insert cond (g_ids g)\<rparr>" and ?h = "g\<lparr>g_ids := insert cond (g_ids g) - {cond}\<rparr>"
  have "tx_triple (store_ok U ?g) (open_condition E cond k ''step.failed'' [(''error'', AnyStr msg)] [mk_restart ''abort'' ''Abort'' []])
      (\<lambda>_ d. store_ok U ?h d \<and> stuck_open d k)"
    unfolding open_condition_def
  proof (rule triple_if [OF triple_fail], rule triple_seq)
    show "tx_triple (store_ok U ?g) (insert_cond cond \<lparr>cd_cont = k, cd_class = ''step.failed'', cd_payload = [(''error'', AnyStr msg)],
        cd_signaled = en_now E, cd_open = True, cd_restart = [], cd_args = [], cd_by = []\<rparr>)
        (\<lambda>_ d. store_ok U ?h d \<and> stuck_open d k)"
      by (rule triple_post [OF insert_cond_ok]) (auto intro: stuck_openI)
    show "tx_triple (\<lambda>d. store_ok U ?h d \<and> stuck_open d k) (insert_restarts E cond [mk_restart ''abort'' ''Abort'' []])
        (\<lambda>_ d. store_ok U ?h d \<and> stuck_open d k)"
      by (rule triple_both [OF insert_restarts_ok [OF assms]])
        (use insert_restarts_conds [where R = "\<lambda>t. \<exists>(i, q)\<in>set t. cd_cont q = k \<and> cd_open q \<and> cd_class q = ''step.failed''"] in
         \<open>simp add: stuck_open_def\<close>)
  qed
  with n show "tx_triple (store_ok U ?g) (open_condition E cond k ''step.failed'' [(''error'', AnyStr msg)] [mk_restart ''abort'' ''Abort'' []])
      (\<lambda>_ d. store_ok U g d \<and> stuck_open d k)" by simp
qed

subsection \<open>Messages and event wakes\<close>

lemma upd_messages_ok:
  assumes "store_ok U g d"
    and L: "\<And>i m. (i, m) \<in> set (db_messages d) \<Longrightarrow> R i m \<Longrightarrow> unpinned i d"
  shows "store_ok U g (d\<lparr>db_messages := upd_rows R f (db_messages d)\<rparr>)"
proof (rule store_okI)
  note d = store_okD [OF assms(1)]
  let ?d = "d\<lparr>db_messages := upd_rows R f (db_messages d)\<rparr>"
  show "keys_ok U (g_ids g) ?d" using d(1) by (simp add: keys_ok_def used_keys_def)
  show "runs_ok (g_run g) ?d" "outbox_ok (g_out g) ?d" "wakes_ok (g_wake g) ?d" "floor_ok (g_floor g) ?d" "tasks_at (g_tasks g) ?d" using d by simp_all
  show "claims_ok ?d" unfolding claims_ok_def
  proof (safe)
    fix k c assume c: "(k, c) \<in> set (db_conts ?d)" "wr_message (ct_wake c) \<noteq> []"
    with d(2) obtain m where m: "(wr_message (ct_wake c), m) \<in> set (db_messages d)" "mg_claimed m = Some k"
      by (auto simp: claims_ok_def)
    with L [OF m(1)] c have "\<not> R (wr_message (ct_wake c)) m" by (auto simp: unpinned_def)
    with m have "(wr_message (ct_wake c), m) \<in> set (db_messages ?d)" by (auto simp: upd_rows_mem)
    with m(2) show "\<exists>m. (wr_message (ct_wake c), m) \<in> set (db_messages ?d) \<and> mg_claimed m = Some k" by blast
  qed
qed

definition seqs_agree :: "cont table \<Rightarrow> db \<Rightarrow> bool" where
  "seqs_agree cs d \<longleftrightarrow> (\<forall>k c c'. (k, c) \<in> set cs \<longrightarrow> (k, c') \<in> set (db_conts d) \<longrightarrow> ct_seq c' = ct_seq c)"

lemma seqs_agree_Cons: "seqs_agree (x # cs) d \<Longrightarrow> seqs_agree cs d"
  by (auto simp: seqs_agree_def)

lemma seqs_agree_hd: "seqs_agree (x # cs) d \<Longrightarrow> seqs_agree [x] d"
  unfolding seqs_agree_def by (metis empty_iff list.set(1) list.set_intros(1) set_ConsD)

lemma seqs_agree_frame [simp]: "seqs_agree cs (d\<lparr>db_messages := x\<rparr>) = seqs_agree cs d"
  "seqs_agree cs (d\<lparr>db_tasks := x1\<rparr>) = seqs_agree cs d" "seqs_agree cs (d\<lparr>db_drawn := x2\<rparr>) = seqs_agree cs d"
  by (simp_all add: seqs_agree_def)

lemma seqs_agree_sub:
  assumes "keys_ok U F d" "\<And>k c. (k, c) \<in> set cs \<Longrightarrow> (k, c) \<in> set (db_conts d)"
  shows "seqs_agree cs d"
  unfolding seqs_agree_def using assms by (blast dest: row_unique)

lemma unpinned_frame [simp]: "unpinned k (d\<lparr>db_messages := x\<rparr>) = unpinned k d"
  by (simp add: unpinned_def)

text \<open>Waking one sleeping row, the body of the delivery and event loops.\<close>

lemma wake_one:
  assumes D: "store_ok U g d" and S: "seqs_agree [(k, c)] d"
    and L: "\<And>r. (k, r) \<in> set (db_conts d) \<Longrightarrow> ct_status r = Sleeping \<Longrightarrow> lawful d {(k, ct_seq r)} k r (f r)"
  shows "(if matching (\<lambda>i r. i = k \<and> ct_status r = Sleeping) (db_conts d) \<noteq> 1
      then upd_rows (\<lambda>i r. i = k \<and> ct_status r = Sleeping) f (db_conts d) = db_conts d
      else store_ok U (g\<lparr>g_wake := insert (k, ct_seq c) (g_wake g)\<rparr>)
        (d\<lparr>db_conts := upd_rows (\<lambda>i r. i = k \<and> ct_status r = Sleeping) f (db_conts d)\<rparr>))"
proof -
  have dd: "distinct (map fst (db_conts d))" using D by (simp add: store_ok_def keys_ok_def)
  have "store_ok U (g\<lparr>g_wake := g_wake g \<union> {(k, ct_seq c)}\<rparr>)
      (d\<lparr>db_conts := upd_rows (\<lambda>i r. i = k \<and> ct_status r = Sleeping) f (db_conts d)\<rparr>)"
  proof (rule upd_conts_ok [OF D])
    fix i r assume r: "(i, r) \<in> set (db_conts d)" "i = k \<and> ct_status r = Sleeping"
    then have "ct_seq r = ct_seq c" using S by (auto simp: seqs_agree_def)
    with L [of r] r show "lawful d {(k, ct_seq c)} i r (f r)" by simp
  qed
  then show ?thesis using upd_rows_same [OF dd] by simp
qed

lemma insert_wake_ok:
  assumes "draws U E"
  shows "tx_triple (store_ok U (g\<lparr>g_wake := insert (k, s) (g_wake g)\<rparr>)) (insert_resume_task E k s) (\<lambda>_. store_ok U g)"
  by (rule insert_resume_task_ok [OF assms]) auto

lemma deliver_to_ok:
  assumes "draws U E"
  shows "tx_triple (\<lambda>d. store_ok U g d \<and> msg \<in> fst ` set (db_messages d) \<and> unpinned msg d \<and> seqs_agree cs d)
    (deliver_to E msg obs v cs) (\<lambda>_. store_ok U g)"
proof (induction cs)
  case Nil
  show ?case by (auto intro: triple_ret)
next
  case (Cons x cs)
  obtain k c where x: "x = (k, c)" by (cases x)
  let ?P = "\<lambda>cs d. store_ok U g d \<and> msg \<in> fst ` set (db_messages d) \<and> unpinned msg d \<and> seqs_agree cs d"
  let ?f = "\<lambda>r. r\<lparr>ct_status := Ready, ct_wake := (ct_wake r)\<lparr>wr_message := msg\<rparr>, ct_updated := en_now E\<rparr>"
  have skip: "tx_triple (?P (x # cs)) (deliver_to E msg obs v cs) (\<lambda>_. store_ok U g)"
    by (rule triple_pre [OF Cons.IH]) (use seqs_agree_Cons in blast)
  show ?case unfolding x deliver_to.simps
  proof (rule triple_if)
    show "tx_triple (?P ((k, c) # cs)) (deliver_to E msg obs v cs) (\<lambda>_. store_ok U g)" using skip x by simp
    have "tx_triple (?P ((k, c) # cs)) (update_messages (\<lambda>i _. i = msg) (\<lambda>m. m\<lparr>mg_claimed := Some k\<rparr>))
        (\<lambda>_ d. ?P ((k, c) # cs) d \<and> (\<exists>m. (msg, m) \<in> set (db_messages d) \<and> mg_claimed m = Some k))" (is "tx_triple _ _ (\<lambda>_. ?Q)")
    proof (rule triple_update_messages)
      fix d assume d: "?P ((k, c) # cs) d"
      let ?d = "d\<lparr>db_messages := upd_rows (\<lambda>i _. i = msg) (\<lambda>m. m\<lparr>mg_claimed := Some k\<rparr>) (db_messages d)\<rparr>"
      have "store_ok U g ?d" by (rule upd_messages_ok) (use d in auto)
      moreover from d obtain m where "(msg, m) \<in> set (db_messages d)" by auto
      then have "(msg, m\<lparr>mg_claimed := Some k\<rparr>) \<in> set (db_messages ?d)" by (auto simp: upd_rows_mem)
      then have "\<exists>m. (msg, m) \<in> set (db_messages ?d) \<and> mg_claimed m = Some k" by (auto intro!: exI [of _ "m\<lparr>mg_claimed := Some k\<rparr>"])
      ultimately show "?P ((k, c) # cs) ?d \<and> (\<exists>m. (msg, m) \<in> set (db_messages ?d) \<and> mg_claimed m = Some k)" using d by simp
    qed
    then show "tx_triple (?P ((k, c) # cs)) (tx_bind (update_messages (\<lambda>i _. i = msg) (\<lambda>m. m\<lparr>mg_claimed := Some k\<rparr>)) (\<lambda>_.
        tx_bind (update_conts (\<lambda>i r. i = k \<and> ct_status r = Sleeping) ?f) (\<lambda>n.
        if n \<noteq> 1 then deliver_to E msg obs v cs
        else tx_seq (insert_resume_task E k (ct_seq c)) (tx_ret (Some k))))) (\<lambda>_. store_ok U g)"
    proof (rule triple_bind)
      let ?R = "\<lambda>n d. if n \<noteq> (1::nat) then ?P (x # cs) d else store_ok U (g\<lparr>g_wake := insert (k, ct_seq c) (g_wake g)\<rparr>) d"
      show "tx_triple ?Q (tx_bind (update_conts (\<lambda>i r. i = k \<and> ct_status r = Sleeping) ?f) (\<lambda>n.
        if n \<noteq> 1 then deliver_to E msg obs v cs
        else tx_seq (insert_resume_task E k (ct_seq c)) (tx_ret (Some k)))) (\<lambda>_. store_ok U g)"
      proof (rule triple_bind [where R = ?R, OF triple_update_conts])
        fix d assume d: "?Q d"
        have S: "seqs_agree [(k, c)] d" by (rule seqs_agree_hd) (use d in blast)
        have L: "lawful d {(k, ct_seq r)} k r (?f r)" for r using d by (simp add: lawful_def)
        have w: "(if matching (\<lambda>i r. i = k \<and> ct_status r = Sleeping) (db_conts d) \<noteq> 1
          then upd_rows (\<lambda>i r. i = k \<and> ct_status r = Sleeping) ?f (db_conts d) = db_conts d
          else store_ok U (g\<lparr>g_wake := insert (k, ct_seq c) (g_wake g)\<rparr>)
            (d\<lparr>db_conts := upd_rows (\<lambda>i r. i = k \<and> ct_status r = Sleeping) ?f (db_conts d)\<rparr>))"
          by (rule wake_one [OF _ S L]) (use d in simp)
        show "?R (matching (\<lambda>i r. i = k \<and> ct_status r = Sleeping) (db_conts d))
           (d\<lparr>db_conts := upd_rows (\<lambda>i r. i = k \<and> ct_status r = Sleeping) ?f (db_conts d)\<rparr>)"
        proof (cases "matching (\<lambda>i r. i = k \<and> ct_status r = Sleeping) (db_conts d) = 1")
          case True
          with w show ?thesis by simp
        next
          case False
          with w have "upd_rows (\<lambda>i r. i = k \<and> ct_status r = Sleeping) ?f (db_conts d) = db_conts d" by simp
          with False d x show ?thesis by simp
        qed
      next
        fix n show "tx_triple (?R n) (if n \<noteq> 1 then deliver_to E msg obs v cs
          else tx_seq (insert_resume_task E k (ct_seq c)) (tx_ret (Some k))) (\<lambda>_. store_ok U g)"
          by (cases "n = 1") (use skip in \<open>auto intro: triple_seq [OF insert_wake_ok [OF assms]] triple_ret\<close>)
      qed
    qed
  qed
qed

lemma set_oldest [simp]: "set (oldest f t) = set t"
  by (simp add: oldest_def)

lemma deliver_to_oldest_ok:
  assumes "draws U E"
  shows "tx_triple (\<lambda>d. store_ok U g d \<and> msg \<in> fst ` set (db_messages d) \<and> unpinned msg d)
    (deliver_to_oldest E ch msg obs v) (\<lambda>_. store_ok U g)"
  unfolding deliver_to_oldest_def
proof (rule triple_bind [OF triple_get])
  fix cs
  show "tx_triple (\<lambda>d. (store_ok U g d \<and> msg \<in> fst ` set (db_messages d) \<and> unpinned msg d) \<and> cs = receivers ch d)
      (deliver_to E msg obs v cs) (\<lambda>_. store_ok U g)"
  proof (rule triple_pre [OF deliver_to_ok [OF assms]])
    fix d assume d: "(store_ok U g d \<and> msg \<in> fst ` set (db_messages d) \<and> unpinned msg d) \<and> cs = receivers ch d"
    have "seqs_agree cs d"
      by (rule seqs_agree_sub [where U = U and F = "g_ids g"]) (use d in \<open>auto simp: store_ok_def receivers_def\<close>)
    with d show "store_ok U g d \<and> msg \<in> fst ` set (db_messages d) \<and> unpinned msg d \<and> seqs_agree cs d" by simp
  qed
qed

lemma insert_drop_ids [simp]: "k \<notin> g_ids g \<Longrightarrow> g\<lparr>g_ids := insert k (g_ids g) - {k}\<rparr> = g"
  by simp

lemma send_channel_ok:
  assumes "draws U E"
  shows "tx_triple (store_ok U g) (send_channel E ch obs v by) (\<lambda>_. store_ok U g)"
  unfolding send_channel_def
proof (rule triple_uuid4 [OF assms])
  fix k assume k: "k \<notin> g_ids g"
  let ?g = "g\<lparr>g_ids := insert k (g_ids g)\<rparr>"
  have "k \<in> g_ids ?g" by simp
  from insert_message_ok [OF this, of U] k
  show "tx_triple (store_ok U ?g) (tx_seq (insert_message k \<lparr>mg_channel = ch, mg_payload = encode_value obs v, mg_by = by,
       mg_sent = en_now E, mg_claimed = None\<rparr>) (deliver_to_oldest E ch k obs v)) (\<lambda>_. store_ok U g)"
    by (intro triple_seq [OF _ deliver_to_oldest_ok [OF assms]]) simp
qed

definition pins :: "uid option \<Rightarrow> uid \<Rightarrow> db \<Rightarrow> bool" where
  "pins i k d \<longleftrightarrow> (\<forall>j. i = Some j \<longrightarrow> (\<exists>m. (j, m) \<in> set (db_messages d) \<and> mg_claimed m = Some k))"

lemma claim_from_ok:
  "tx_triple (store_ok U g) (claim_from k p ms) (\<lambda>i d. store_ok U g d \<and> pins i k d)"
proof (induction ms)
  case Nil
  show ?case by (auto intro: triple_ret simp: pins_def)
next
  case (Cons x ms)
  obtain i r where x: "x = (i, r)" by (cases x)
  let ?R = "\<lambda>j q. j = i \<and> mg_claimed q = None" and ?f = "\<lambda>q. q\<lparr>mg_claimed := Some k\<rparr>"
  have upd: "tx_triple (store_ok U g) (update_messages ?R ?f) (\<lambda>n d. store_ok U g d \<and> (n = 1 \<longrightarrow> pins (Some i) k d))"
  proof (rule triple_update_messages)
    fix d assume d: "store_ok U g d"
    let ?d = "d\<lparr>db_messages := upd_rows ?R ?f (db_messages d)\<rparr>"
    have "store_ok U g ?d"
    proof (rule upd_messages_ok [OF d])
      fix j m assume m: "(j, m) \<in> set (db_messages d)" "j = i \<and> mg_claimed m = None"
      have "distinct (map fst (db_messages d))" using d by (simp add: store_ok_def keys_ok_def)
      with m have "mg_claimed q = None" if "(j, q) \<in> set (db_messages d)" for q
        using that by (metis map_of_is_SomeI option.inject)
      with d show "unpinned j d" by (fastforce simp: unpinned_def store_ok_def claims_ok_def)
    qed
    moreover have "pins (Some i) k ?d" if "matching ?R (db_messages d) = 1"
    proof -
      from that obtain j m where "(j, m) \<in> set (db_messages d)" "?R j m" by (rule matching_one)
      then have "(i, ?f m) \<in> set (db_messages ?d)" by (auto simp: upd_rows_mem)
      moreover have "mg_claimed (?f m) = Some k" by simp
      ultimately show ?thesis unfolding pins_def by blast
    qed
    ultimately show "store_ok U g ?d \<and> (matching ?R (db_messages d) = 1 \<longrightarrow> pins (Some i) k ?d)" by simp
  qed
  have rest: "tx_triple (\<lambda>d. store_ok U g d \<and> (n = 1 \<longrightarrow> pins (Some i) k d))
      (if n \<noteq> 1 then claim_from k p ms else tx_ret (Some i)) (\<lambda>i d. store_ok U g d \<and> pins i k d)" for n :: nat
    by (rule triple_if) (auto intro: triple_pre [OF Cons.IH] triple_ret)
  show ?case unfolding x claim_from.simps
    by (rule triple_bind [OF triple_try [where Q = "\<lambda>_. store_ok U g"]], assumption, rule triple_if [OF Cons.IH triple_bind [OF upd rest]])
qed

lemma claim_oldest_message_ok:
  "tx_triple (store_ok U g) (claim_oldest_message ch p k) (\<lambda>i d. store_ok U g d \<and> pins i k d)"
  unfolding claim_oldest_message_def
  by (rule triple_bind [OF triple_get], rule triple_pre [OF claim_from_ok]) simp

lemma wake_each_ok:
  assumes "draws U E"
  shows "tx_triple (\<lambda>d. store_ok U g d \<and> seqs_agree cs d) (wake_each E row n cs) (\<lambda>_. store_ok U g)"
proof (induction cs arbitrary: n)
  case Nil
  show ?case by (auto intro: triple_ret)
next
  case (Cons x cs)
  obtain k c where x: "x = (k, c)" by (cases x)
  let ?f = "\<lambda>r. r\<lparr>ct_status := Ready, ct_updated := en_now E\<rparr>" and ?R = "\<lambda>i r. i = k \<and> ct_status r = Sleeping"
  let ?P = "\<lambda>cs d. store_ok U g d \<and> seqs_agree cs d"
  let ?Q = "\<lambda>n d. if n \<noteq> (1::nat) then ?P cs d else store_ok U (g\<lparr>g_wake := insert (k, ct_seq c) (g_wake g)\<rparr>) d \<and> seqs_agree cs d"
  have upd: "tx_triple (?P (x # cs)) (update_conts ?R ?f) ?Q"
  proof (rule triple_update_conts)
    fix d assume d: "?P (x # cs) d"
    have S: "seqs_agree [(k, c)] d" by (rule seqs_agree_hd) (use d x in blast)
    have L: "lawful d {(k, ct_seq r)} k r (?f r)" for r by (simp add: lawful_def)
    have s: "seqs_agree cs d" using d seqs_agree_Cons by blast
    then have "seqs_agree cs (d\<lparr>db_conts := upd_rows ?R ?f (db_conts d)\<rparr>)"
      unfolding seqs_agree_def by (fastforce simp: upd_rows_mem)
    with wake_one [OF conjunct1 [OF d] S L] s d
    show "?Q (matching ?R (db_conts d)) (d\<lparr>db_conts := upd_rows ?R ?f (db_conts d)\<rparr>)"
      by (cases "matching ?R (db_conts d) = 1") simp_all
  qed
  have task: "tx_triple (\<lambda>d. store_ok U (g\<lparr>g_wake := insert (k, ct_seq c) (g_wake g)\<rparr>) d \<and> seqs_agree cs d)
      (insert_resume_task E k (ct_seq c)) (\<lambda>_ d. store_ok U g d \<and> seqs_agree cs d)"
  proof (rule triple_both [OF insert_wake_ok [OF assms]])
    show "tx_triple (seqs_agree cs) (insert_resume_task E k (ct_seq c)) (\<lambda>_. seqs_agree cs)"
      by (auto simp: tx_triple_def insert_resume_task_def new_task_def uuid4_def insert_task_def tx_bind_def tx_seq_def
        tx_get_def tx_put_def tx_ret_def)
  qed
  have rest: "tx_triple (?Q hit) (if hit \<noteq> 1 then wake_each E row n cs
        else tx_seq (insert_resume_task E k (ct_seq c)) (wake_each E row (Suc n) cs)) (\<lambda>_. store_ok U g)" for hit n
    by (cases "hit = 1") (use Cons.IH in \<open>auto intro: triple_seq [OF task]\<close>)
  have skip: "tx_triple (?P (x # cs)) (wake_each E row n cs) (\<lambda>_. store_ok U g)"
    by (rule triple_pre [OF Cons.IH]) (use seqs_agree_Cons in blast)
  show ?case using triple_if [OF skip triple_bind [OF upd rest]] by (simp add: x)
qed

lemma wake_events_ok:
  assumes "draws U E"
  shows "tx_triple (store_ok U g) (wake_events E resource row) (\<lambda>_. store_ok U g)"
  unfolding wake_events_def
proof (rule triple_bind [OF triple_get])
  fix cs
  show "tx_triple (\<lambda>d. store_ok U g d \<and> cs = watchers resource d) (wake_each E row 0 cs) (\<lambda>_. store_ok U g)"
  proof (rule triple_pre [OF wake_each_ok [OF assms]])
    fix d assume d: "store_ok U g d \<and> cs = watchers resource d"
    have "seqs_agree cs d"
      by (rule seqs_agree_sub [where U = U and F = "g_ids g"]) (use d in \<open>auto simp: store_ok_def watchers_def\<close>)
    with d show "store_ok U g d \<and> seqs_agree cs d" by simp
  qed
qed

end
