(* ===== verification/Cfr_Invariant.thy ===== *)
theory Cfr_Invariant
  imports Cfr_Keeps
begin

section \<open>Steps, doors and reactor passes keep the invariant\<close>

text \<open>
  The step transaction, the doors around it and each pass of the reactor as triples over the store
  invariant, and the states the store can reach when they run one after the other in any order.
\<close>

subsection \<open>Effects\<close>

lemma write_effect_ok:
  assumes "draws U E" "g_out g = Some (k, sq, i)"
  shows "tx_triple (store_ok U g) (write_effect E gl k sq obs i ef) (\<lambda>_. store_ok U (g\<lparr>g_out := Some (k, sq, Suc i)\<rparr>))"
  unfolding write_effect_def
proof (rule triple_if [OF triple_fail], rule triple_uuid4 [OF assms(1)])
  fix o_id assume o: "o_id \<notin> g_ids g"
  let ?h = "g\<lparr>g_out := Some (k, sq, Suc i)\<rparr>"
  have out: "tx_triple (store_ok U (g\<lparr>g_ids := insert o_id (g_ids g)\<rparr>))
      (insert_outbox o_id \<lparr>ob_cont = k, ob_seq = sq, ob_ordinal = i, ob_class = ef_class ef, ob_payload = ef_payload ef,
        ob_delivered = False\<rparr>) (\<lambda>_. store_ok U ?h)"
    by (rule triple_weaker [OF insert_outbox_ok]) (use assms(2) in \<open>auto simp: dedup_of_def weaker_def\<close>)
  have task: "tx_triple (store_ok U ?h) (if b then new_task E at p else tx_ret ()) (\<lambda>_. store_ok U ?h)"
    if "\<And>c s. p \<noteq> PayResume c s" for b at p
    using other_task_ok [OF assms(1) that] by (auto intro: triple_ret)
  have send: "tx_triple (store_ok U ?h) (if b then tx_bind (send_channel E ch obs v by) (\<lambda>_. tx_ret ()) else tx_ret ())
      (\<lambda>_. store_ok U ?h)" for b ch v "by"
    using triple_bind [OF send_channel_ok [OF assms(1)] triple_ret] by (auto intro: triple_ret)
  show "tx_triple (store_ok U (g\<lparr>g_ids := insert o_id (g_ids g)\<rparr>))
      (tx_seq (insert_outbox o_id \<lparr>ob_cont = k, ob_seq = sq, ob_ordinal = i, ob_class = ef_class ef,
          ob_payload = ef_payload ef, ob_delivered = False\<rparr>)
        (tx_seq (if external_class (ef_class ef) then enqueue_deliver_task E o_id (k, sq, i) else tx_ret ())
        (tx_seq (if ef_class ef = ''cron.schedule''
           then new_task E (en_now E + 1000 * sint (eff_int gl (map_of (ef_payload ef) ''interval_ms'')))
             (PayCron (ef_payload ef))
           else tx_ret ())
        (if ef_class ef = ''channel.send''
         then tx_bind (send_channel E (any_string (map_of (ef_payload ef) ''channel'')) obs (ef_val ef) k) (\<lambda>_. tx_ret ())
         else tx_ret ())))) (\<lambda>_. store_ok U ?h)"
    unfolding enqueue_deliver_task_def by (intro triple_seq [OF out] triple_seq [OF task] send) simp_all
qed

lemma write_effects_ok:
  assumes "draws U E" "g_out g = Some (k, sq, i)"
  shows "tx_triple (store_ok U g) (write_effects E gl k sq obs i efs) (\<lambda>_ d. \<exists>n. store_ok U (g\<lparr>g_out := Some (k, sq, n)\<rparr>) d)"
  using assms(2)
proof (induction efs arbitrary: i g)
  case Nil
  have "g = g\<lparr>g_out := Some (k, sq, i)\<rparr>" using Nil by simp
  then show ?case by (auto intro!: triple_ret) metis
next
  case (Cons ef efs)
  have "tx_triple (store_ok U (g\<lparr>g_out := Some (k, sq, Suc i)\<rparr>)) (write_effects E gl k sq obs (Suc i) efs)
      (\<lambda>_ d. \<exists>n. store_ok U (g\<lparr>g_out := Some (k, sq, n)\<rparr>) d)"
    using Cons.IH [of "g\<lparr>g_out := Some (k, sq, Suc i)\<rparr>" "Suc i"] by simp
  from triple_seq [OF write_effect_ok [OF assms(1) Cons.prems] this] show ?case by simp
qed

lemma triple_ex: "(\<And>n. tx_triple (P n) m Q) \<Longrightarrow> tx_triple (\<lambda>d. \<exists>n. P n d) m Q"
  unfolding tx_triple_def by blast

subsection \<open>Joins\<close>

lemma insert_children_ok:
  assumes "draws U E"
  shows "tx_triple (store_ok U g) (insert_children E mk parent pr obs st i ts) (\<lambda>_. store_ok U g)"
proof (induction ts arbitrary: i)
  case Nil
  show ?case by (simp add: triple_ret)
next
  case (Cons t ts)
  have body: "tx_triple (store_ok U g) (tx_bind (uuid4 E) (\<lambda>c.
      tx_seq (insert_cont c (new_cont E ''workflow'' dg (epoch_or_one E) (encode_state s)
        ((wake_of_kind ''timer'')\<lparr>wr_due := en_now E\<rparr>) Ready (join_pay pr parent i)))
      (tx_seq (insert_resume_task E c 0)
      (tx_bind (insert_children E mk parent pr obs st (Suc i) ts) (\<lambda>cs. tx_ret (c # cs)))))) (\<lambda>_. store_ok U g)" for dg s
  proof (rule triple_uuid4 [OF assms])
    fix c assume c: "c \<notin> g_ids g"
    let ?g = "g\<lparr>g_ids := insert c (g_ids g)\<rparr>" and ?h = "g\<lparr>g_wake := insert (c, 0) (g_wake g)\<rparr>"
    show "tx_triple (store_ok U ?g) (tx_seq (insert_cont c (new_cont E ''workflow'' dg (epoch_or_one E) (encode_state s)
        ((wake_of_kind ''timer'')\<lparr>wr_due := en_now E\<rparr>) Ready (join_pay pr parent i)))
      (tx_seq (insert_resume_task E c 0)
      (tx_bind (insert_children E mk parent pr obs st (Suc i) ts) (\<lambda>cs. tx_ret (c # cs))))) (\<lambda>_. store_ok U g)"
    proof (rule triple_seq [where R = "store_ok U ?h", OF _ triple_seq [OF insert_wake_ok [OF assms] triple_bind [OF Cons.IH triple_ret]]])
      show "tx_triple (store_ok U ?g) (insert_cont c (new_cont E ''workflow'' dg (epoch_or_one E) (encode_state s)
        ((wake_of_kind ''timer'')\<lparr>wr_due := en_now E\<rparr>) Ready (join_pay pr parent i))) (\<lambda>_. store_ok U ?h)"
        by (rule triple_weaker [OF insert_cont_ok]) (use c in \<open>auto simp: new_cont_def wake_of_kind_def weaker_def\<close>)
    qed
  qed
  have init: "tx_triple (store_ok U g) (case mk obs t (s_tier st) (s_fuel_steps st) (s_fuel_alloc st) of
      Inl e \<Rightarrow> tx_fail (ErrInitial e) | Inr s \<Rightarrow> tx_ret s) (\<lambda>_. store_ok U g)"
    by (auto intro: triple_fail triple_ret split: sum.split)
  show ?case
  proof (cases t)
    case (VClo j dg p e)
    then show ?thesis using triple_bind [OF init body] by simp
  qed (simp_all add: triple_fail)
qed

lemma cancel_losers_ok: "tx_triple (store_ok U g) (cancel_losers E ks) (\<lambda>_. store_ok U g)"
  unfolding cancel_losers_def
proof (rule triple_bind [OF triple_update_conts triple_ret])
  fix d assume d: "store_ok U g d"
  show "store_ok U g (d\<lparr>db_conts := upd_rows (\<lambda>k r. k \<in> set ks \<and> ct_status r \<in> {Sleeping, Ready, Running})
      (\<lambda>r. r\<lparr>ct_status := Cancelled, ct_updated := en_now E\<rparr>) (db_conts d)\<rparr>)"
    using upd_conts_ok [OF d, where W = "{}"] by (simp add: lawful_def)
qed

lemma map_of_row: "keys_ok U F d \<Longrightarrow> map_of (db_conts d) k = Some c \<longleftrightarrow> (k, c) \<in> set (db_conts d)"
  by (simp add: keys_ok_def)

lemma settle_join_parent_ok:
  assumes "draws U E"
  shows "tx_triple (store_ok U g) (settle_join_parent E won) (\<lambda>_. store_ok U g)"
proof -
  have wake: "tx_triple (\<lambda>d. store_ok U g d \<and> map_of (db_conts d) pid = Some parent)
      (tx_bind (update_conts (\<lambda>k r. k = pid \<and> ct_status r = Sleeping)
          (\<lambda>r. r\<lparr>ct_status := Ready, ct_wake := (if race then (ct_wake r)\<lparr>wr_winner := won\<rparr> else ct_wake r),
            ct_updated := en_now E\<rparr>)) (\<lambda>hit.
        if hit \<noteq> 1 then tx_ret ()
        else tx_seq (insert_resume_task E pid (ct_seq parent)) (if race then cancel_losers E ks else tx_ret ())))
      (\<lambda>_. store_ok U g)" for pid parent race ks
  proof -
    let ?R = "\<lambda>k r. k = pid \<and> ct_status r = Sleeping"
      and ?f = "\<lambda>r. r\<lparr>ct_status := Ready, ct_wake := (if race then (ct_wake r)\<lparr>wr_winner := won\<rparr> else ct_wake r),
            ct_updated := en_now E\<rparr>"
    let ?Q = "\<lambda>n d. if n \<noteq> (1::nat) then store_ok U g d else store_ok U (g\<lparr>g_wake := insert (pid, ct_seq parent) (g_wake g)\<rparr>) d"
    have "tx_triple (\<lambda>d. store_ok U g d \<and> map_of (db_conts d) pid = Some parent) (update_conts ?R ?f) ?Q"
    proof (rule triple_update_conts)
      fix d assume d: "store_ok U g d \<and> map_of (db_conts d) pid = Some parent"
      have "(pid, parent) \<in> set (db_conts d)" using d by (auto dest: map_of_SomeD)
      then have S: "seqs_agree [(pid, parent)] d"
        using d by (intro seqs_agree_sub [where U = U and F = "g_ids g"]) (auto simp: store_ok_def)
      have L: "lawful d {(pid, ct_seq r)} pid r (?f r)" for r by (simp add: lawful_def)
      from wake_one [OF conjunct1 [OF d] S L] d
      show "?Q (matching ?R (db_conts d)) (d\<lparr>db_conts := upd_rows ?R ?f (db_conts d)\<rparr>)"
        by (cases "matching ?R (db_conts d) = 1") simp_all
    qed
    then show ?thesis
    proof (rule triple_bind)
      fix hit show "tx_triple (?Q hit) (if hit \<noteq> 1 then tx_ret ()
        else tx_seq (insert_resume_task E pid (ct_seq parent)) (if race then cancel_losers E ks else tx_ret ())) (\<lambda>_. store_ok U g)"
        by (cases "hit = 1") (auto intro: triple_ret triple_seq [OF insert_wake_ok [OF assms]] cancel_losers_ok)
    qed
  qed
  show ?thesis
    unfolding settle_join_parent_def find_cont_def Let_def
  proof (rule triple_bind [OF triple_get], goal_cases)
    case (1 c)
    have drop: "tx_triple (\<lambda>d. store_ok U g d \<and> A d) (tx_ret ()) (\<lambda>_. store_ok U g)" for A by (auto intro: triple_ret)
    show ?case
    proof (cases c)
      case (Some row)
      show ?thesis unfolding Some option.case
      proof (rule triple_if [OF drop], rule triple_bind [OF triple_get], goal_cases)
        case (1 p)
        show ?case
        proof (cases p)
          case (Some parent)
          show ?thesis unfolding Some option.case
          proof (rule triple_if, goal_cases)
            case 2
            show ?case
              by (rule triple_bind [OF triple_get], rule triple_if, rule triple_ret, blast, rule triple_pre [OF wake]) simp
          qed (auto intro: triple_ret)
        qed (auto intro: triple_ret)
      qed
    qed (simp add: drop)
  qed
qed

subsection \<open>Checkpoints\<close>

lemma lawful_plain:
  assumes "wr_message (ct_wake c') = []" "ct_seq c' = ct_seq c" "ct_status c' \<notin> {Running, Ready}"
  shows "lawful d W k c c'"
  using assms by (simp add: lawful_def)

lemma update_running_plain:
  assumes "g_run g = Some k" "\<And>c. wr_message (ct_wake (f c)) = [] \<or> wr_message (ct_wake (f c)) = wr_message (ct_wake c)"
    "\<And>c. ct_seq (f c) = ct_seq c" "\<And>c. ct_status (f c) \<notin> {Running, Ready}"
  shows "tx_triple (store_ok U g) (update_running E k f) (\<lambda>_. store_ok U (g\<lparr>g_run := None\<rparr>))"
proof (rule triple_pre)
  show "tx_triple (\<lambda>d. store_ok U g d \<and> True) (update_running E k f) (\<lambda>_. store_ok U (g\<lparr>g_run := None\<rparr>))"
    by (rule triple_weaker [OF update_running_ok [OF assms(1), where W = "{}"]])
      (use assms(2-4) in \<open>auto simp: lawful_def weaker_def\<close>)
qed simp

lemma wake_of_kind_message [simp]: "wr_message (wake_of_kind s) = []"
  by (simp add: wake_of_kind_def)

lemma triple_false: "(\<And>d. \<not> P d) \<Longrightarrow> tx_triple P m Q"
  by (simp add: tx_triple_def)

lemma state_of_ok: "tx_triple P (state_of out) (\<lambda>_. P)"
  by (auto simp: state_of_def intro: triple_fail triple_ret split: option.split)

text \<open>How a step ends: nothing runs, and the position in the outbox still tells the step number.\<close>

definition stepped :: "(nat \<Rightarrow> uid) \<Rightarrow> ghost \<Rightarrow> uid \<Rightarrow> int \<Rightarrow> db \<Rightarrow> bool" where
  "stepped U g k sq d \<longleftrightarrow> (\<exists>n. store_ok U (g\<lparr>g_run := None, g_out := Some (k, sq, n)\<rparr>) d)"

definition stepping :: "ghost \<Rightarrow> uid \<Rightarrow> int \<Rightarrow> nat \<Rightarrow> ghost" where
  "stepping g k sq n = g\<lparr>g_run := Some k, g_out := Some (k, sq, n)\<rparr>"

lemma stepping_simps [simp]:
  "g_run (stepping g k sq n) = Some k" "g_out (stepping g k sq n) = Some (k, sq, n)"
  "g_wake (stepping g k sq n) = g_wake g" "g_ids (stepping g k sq n) = g_ids g"
  "(stepping g k sq n)\<lparr>g_out := Some (k, sq, m)\<rparr> = stepping g k sq m"
  "(stepping g k sq n)\<lparr>g_run := None\<rparr> = g\<lparr>g_run := None, g_out := Some (k, sq, n)\<rparr>"
  by (simp_all add: stepping_def)

lemma end_step:
  "tx_triple P m (\<lambda>_. store_ok U ((stepping g k sq n)\<lparr>g_run := None\<rparr>)) \<Longrightarrow> tx_triple P m (\<lambda>_. stepped U g k sq)"
  by (erule triple_post) (auto simp: stepped_def)

lemma park_done_ok:
  assumes "draws U E" "or_cont q = k" "or_seq q = sq"
  shows "tx_triple (store_ok U (stepping g k sq 0)) (park_done E gl q) (\<lambda>_. stepped U g k sq)"
proof -
  let ?h = "\<lambda>n. g\<lparr>g_run := None, g_out := Some (k, sq, n)\<rparr>"
  have upd: "tx_triple (store_ok U (stepping g k sq 0)) (update_running E k (\<lambda>r. r\<lparr>ct_frames := [], ct_status := Finished,
       ct_result := b\<rparr>)) (\<lambda>_. store_ok U (?h 0))" for b
    using update_running_plain [where g = "stepping g k sq 0" and k = k] by simp
  have eff: "tx_triple (store_ok U (?h 0)) (write_effects E gl k sq obs 0 efs) (\<lambda>_ d. \<exists>n. store_ok U (?h n) d)" for obs efs
    using write_effects_ok [OF assms(1), where g = "?h 0"] by simp
  have "tx_triple (\<lambda>d. \<exists>n. store_ok U (?h n) d) (settle_join_parent E k) (\<lambda>_. stepped U g k sq)"
    by (rule triple_ex, rule triple_post [OF settle_join_parent_ok [OF assms(1)]]) (auto simp: stepped_def)
  then show ?thesis unfolding park_done_def assms(2,3)
    by (rule triple_seq [OF upd triple_seq [OF eff]])
qed

lemma park_join_ok:
  assumes "draws U E" "or_cont q = k"
  shows "tx_triple (store_ok U (stepping g k sq n)) (park_join E q st w) (\<lambda>_. stepped U g k sq)"
  unfolding park_join_def assms(2)
proof (cases "or_child q")
  case (Some mk)
  show "tx_triple (store_ok U (stepping g k sq n)) (case or_child q of None \<Rightarrow> tx_fail ErrNoInterp
    | Some mk \<Rightarrow> tx_bind (insert_children E mk k (or_principal q) (or_heap q) st 0 (wk_thunks w)) (\<lambda>cs.
        update_running E k (\<lambda>r. r\<lparr>ct_frames := encode_state st, ct_status := Sleeping,
          ct_wake := (wake_of_kind ''join'')\<lparr>wr_children := cs, wr_quorum := wk_quorum w,
            wr_mode := (if wk_race w then ''race'' else ''all'')\<rparr>\<rparr>))) (\<lambda>_. stepped U g k sq)"
    unfolding Some option.case
    by (rule triple_bind [OF insert_children_ok [OF assms(1)]], rule end_step, rule update_running_plain) simp_all
qed (simp add: triple_fail)

lemma step_seq_at:
  "store_ok U (stepping g k sq n) d \<Longrightarrow> (k, c) \<in> set (db_conts d) \<Longrightarrow> ct_seq c = sq"
  using row_unique [of U "g_ids g" d k] by (fastforce simp: store_ok_def outbox_ok_def)

lemma park_message_ok:
  assumes "draws U E" "or_cont q = k" "or_seq q = sq"
  shows "tx_triple (store_ok U (stepping g k sq n)) (park_message E q st w) (\<lambda>_. stepped U g k sq)"
  unfolding park_message_def Let_def assms(2,3)
proof (rule triple_bind [OF claim_oldest_message_ok], rule triple_if [OF triple_fail])
  fix msg
  let ?g = "stepping g k sq n" and ?m = "wake_match_row (wk_match w)"
  let ?row = "(wake_of_kind ''message'')\<lparr>wr_channel := wk_channel w, wr_match := ?m\<rparr>"
  let ?f = "\<lambda>i r. r\<lparr>ct_frames := encode_state st, ct_status := Ready, ct_wake := ?row\<lparr>wr_message := i\<rparr>\<rparr>"
  show "tx_triple (\<lambda>d. store_ok U ?g d \<and> pins msg k d) (case msg of
            Some i \<Rightarrow> tx_seq (update_running E k (?f i)) (insert_resume_task E k sq)
          | None \<Rightarrow> update_running E k (\<lambda>r. r\<lparr>ct_frames := encode_state st, ct_status := Sleeping, ct_wake := ?row\<rparr>))
      (\<lambda>_. stepped U g k sq)"
  proof (cases msg)
    case None
    then show ?thesis
      by (simp, intro triple_pre [OF end_step [where n = n, OF update_running_plain]]) simp_all
  next
    case (Some i)
    let ?h = "g\<lparr>g_run := None, g_out := Some (k, sq, n)\<rparr>"
    have "tx_triple (\<lambda>d. store_ok U ?g d \<and> pins (Some i) k d) (update_running E k (?f i))
        (\<lambda>_. store_ok U (?h\<lparr>g_wake := insert (k, sq) (g_wake ?h)\<rparr>))"
    proof (rule triple_weaker [OF update_running_ok [where W = "{(k, sq)}"]])
      fix d c assume d: "pins (Some i) k d" "store_ok U ?g d" "(k, c) \<in> set (db_conts d)"
      then show "lawful d {(k, sq)} k c (?f i c) \<and> ct_status (?f i c) \<noteq> Running"
        using step_seq_at [OF d(2,3)] by (auto simp: lawful_def pins_def)
    qed (auto simp: weaker_def)
    from triple_post [OF triple_seq [OF this insert_wake_ok [OF assms(1)]]] Some show ?thesis
      by (simp, elim meta_allE meta_impE) (auto simp: stepped_def)
  qed
qed

lemma park_wake_ok:
  assumes "draws U E" "or_cont q = k" "or_seq q = sq"
  shows "tx_triple (store_ok U (stepping g k sq 0)) (park_wake E gl q w) (\<lambda>_. stepped U g k sq)"
  unfolding park_wake_def assms(2,3)
proof (rule triple_bind [OF state_of_ok], rule triple_seq [OF write_effects_ok [OF assms(1)]])
  fix st
  show "tx_triple (\<lambda>d. \<exists>n. store_ok U ((stepping g k sq 0)\<lparr>g_out := Some (k, sq, n)\<rparr>) d)
     (case wk_kind w of
        WakeTimer \<Rightarrow> update_running E k (\<lambda>r. r\<lparr>ct_frames := encode_state st, ct_status := Sleeping,
          ct_wake := (wake_of_kind ''timer'')\<lparr>wr_due := en_now E + 1000 * sint (wk_delay w)\<rparr>\<rparr>)
      | WakeMessage \<Rightarrow> park_message E q st w
      | WakeEvent \<Rightarrow> update_running E k (\<lambda>r. r\<lparr>ct_frames := encode_state st, ct_status := Sleeping,
          ct_wake := (wake_of_kind ''event'')\<lparr>wr_stream := wk_stream w, wr_on := wk_on w\<rparr>\<rparr>)
      | WakeJoin \<Rightarrow> park_join E q st w) (\<lambda>_. stepped U g k sq)"
  proof (rule triple_ex, unfold stepping_simps)
    fix n :: nat
    have sleep: "tx_triple (store_ok U (stepping g k sq n)) (update_running E k (\<lambda>r. r\<lparr>ct_frames := fs, ct_status := Sleeping,
        ct_wake := wk\<rparr>)) (\<lambda>_. stepped U g k sq)" if "wr_message wk = []" for fs wk
      by (rule end_step [OF update_running_plain]) (simp_all add: that)
    show "tx_triple (store_ok U (stepping g k sq n)) (case wk_kind w of
        WakeTimer \<Rightarrow> update_running E k (\<lambda>r. r\<lparr>ct_frames := encode_state st, ct_status := Sleeping,
          ct_wake := (wake_of_kind ''timer'')\<lparr>wr_due := en_now E + 1000 * sint (wk_delay w)\<rparr>\<rparr>)
      | WakeMessage \<Rightarrow> park_message E q st w
      | WakeEvent \<Rightarrow> update_running E k (\<lambda>r. r\<lparr>ct_frames := encode_state st, ct_status := Sleeping,
          ct_wake := (wake_of_kind ''event'')\<lparr>wr_stream := wk_stream w, wr_on := wk_on w\<rparr>\<rparr>)
      | WakeJoin \<Rightarrow> park_join E q st w) (\<lambda>_. stepped U g k sq)"
      using park_message_ok [OF assms] park_join_ok [OF assms(1,2)] by (cases "wk_kind w") (simp_all add: sleep)
  qed
qed simp

lemma park_condition_ok:
  assumes "draws U E" "or_cont q = k"
  shows "tx_triple (store_ok U (stepping g k sq 0)) (park_condition E q) (\<lambda>_. stepped U g k sq)"
  unfolding park_condition_def assms(2)
proof (rule triple_bind [OF state_of_ok], rule triple_uuid4 [OF assms(1)])
  fix st cond assume c: "cond \<notin> g_ids (stepping g k sq 0)"
  let ?g = "(stepping g k sq 0)\<lparr>g_ids := insert cond (g_ids (stepping g k sq 0))\<rparr>"
  have opn: "tx_triple (store_ok U (?g\<lparr>g_run := None\<rparr>)) (open_condition E cond k cl pl rs) (\<lambda>_. stepped U g k sq)" for cl pl rs
    by (rule end_step, rule triple_weaker [OF open_condition_ok [OF assms(1)]]) (use c in \<open>auto simp: weaker_def\<close>)
  show "tx_triple (store_ok U ?g) (tx_seq (update_running E k (\<lambda>r. r\<lparr>ct_frames := encode_state st, ct_status := InCondition,
       ct_wake := wake_of_kind ''manual''\<rparr>))
     (case o_cond (or_out q) of
        None \<Rightarrow> tx_fail ErrPanic
      | Some c \<Rightarrow> if \<not> marshals (cn_payload c) then tx_fail ErrJson
          else open_condition E cond k (cn_class c) (cn_payload c) (cn_restarts c))) (\<lambda>_. stepped U g k sq)"
  proof (rule triple_seq [OF update_running_plain])
    show "tx_triple (store_ok U (?g\<lparr>g_run := None\<rparr>)) (case o_cond (or_out q) of
        None \<Rightarrow> tx_fail ErrPanic
      | Some c \<Rightarrow> if \<not> marshals (cn_payload c) then tx_fail ErrJson
          else open_condition E cond k (cn_class c) (cn_payload c) (cn_restarts c)) (\<lambda>_. stepped U g k sq)"
      using opn by (cases "o_cond (or_out q)") (simp_all add: triple_fail)
  qed simp_all
qed

lemma park_failed_ok:
  assumes "draws U E" "or_cont q = k"
  shows "tx_triple (store_ok U (stepping g k sq 0)) (park_failed E say q) (\<lambda>_. stepped U g k sq)"
  unfolding park_failed_def assms(2)
  by (rule triple_seq [OF update_running_plain], simp_all)
    (rule triple_post [OF step_failed_condition_ok [OF assms(1)]], auto simp: stepped_def)

lemma park_outcome_ok:
  assumes "draws U E" "or_cont q = k" "or_seq q = sq"
  shows "tx_triple (store_ok U (stepping g k sq 0)) (park_outcome E gl say q) (\<lambda>_. stepped U g k sq)"
  using park_done_ok [OF assms] park_wake_ok [OF assms] park_condition_ok [OF assms(1,2)] park_failed_ok [OF assms(1,2)]
  by (auto simp: park_outcome_def split: outcome_kind.split option.split)

subsection \<open>ClaimAndStep\<close>

lemma check_epoch_ok: "tx_triple P (check_epoch E) (\<lambda>_. P)"
  unfolding check_epoch_def
  by (rule triple_if [OF triple_ret], assumption, rule triple_bind [OF triple_get])
    (auto intro: triple_ret triple_fail split: option.split)

text \<open>No row is ready at the claimed step.\<close>

definition spent :: "uid \<Rightarrow> int \<Rightarrow> db \<Rightarrow> bool" where
  "spent k sq d \<longleftrightarrow> (\<forall>c. (k, c) \<in> set (db_conts d) \<longrightarrow> \<not> (ct_status c = Ready \<and> ct_seq c = sq))"

lemma claim_row_ok:
  assumes "g_run g = None"
  shows "tx_triple (store_ok U g) (claim_row E k seen)
    (\<lambda>n d. if n = 1 then store_ok U (stepping (g\<lparr>g_floor := insert (k, seen + 1) (g_floor g)\<rparr>) k (seen + 1) 0) d
      else store_ok U g d \<and> spent k seen d)"
  unfolding claim_row_def
proof (rule triple_update_conts)
  fix d assume d: "store_ok U g d"
  note s = store_okD [OF d]
  let ?R = "\<lambda>i r. i = k \<and> ct_status r = Ready \<and> ct_seq r = seen"
    and ?f = "\<lambda>r. r\<lparr>ct_status := Running, ct_owner := Some (en_kernel E),
       ct_lease := en_now E + 1000000 * lease_secs E, ct_seq := ct_seq r + 1, ct_updated := en_now E\<rparr>"
  let ?g = "stepping (g\<lparr>g_floor := insert (k, seen + 1) (g_floor g)\<rparr>) k (seen + 1) 0"
    and ?d = "d\<lparr>db_conts := upd_rows ?R ?f (db_conts d)\<rparr>"
  have dd: "distinct (map fst (db_conts d))" using s(1) by (simp add: keys_ok_def)
  show "if matching ?R (db_conts d) = 1 then store_ok U ?g ?d else store_ok U g ?d \<and> spent k seen ?d"
  proof (cases "matching ?R (db_conts d) = 1")
    case False
    have "upd_rows ?R ?f (db_conts d) = db_conts d" by (rule upd_rows_same [OF dd False])
    moreover have "spent k seen d" using matching_other [OF dd False] by (auto simp: spent_def)
    ultimately show ?thesis using False d by simp
  next
    case True
    from True obtain i c where "(i, c) \<in> set (db_conts d)" "?R i c" by (rule matching_one)
    then have c: "(k, c) \<in> set (db_conts d)" "ct_status c = Ready" "ct_seq c = seen" by auto
    have new: "(k, ?f c) \<in> set (db_conts ?d)" using c by (auto simp: upd_rows_mem)
    have only: "c' = c" if "(k, c') \<in> set (db_conts d)" for c' by (rule row_unique [OF s(1) that c(1)])
    have rows: "(j = k \<and> c' = ?f c) \<or> (j \<noteq> k \<and> (j, c') \<in> set (db_conts d))" if m: "(j, c') \<in> set (db_conts ?d)" for j c'
    proof -
      from m obtain r where r: "(j, r) \<in> set (db_conts d)" "c' = (if ?R j r then ?f r else r)" by (auto simp: upd_rows_mem)
      show ?thesis
      proof (cases "j = k")
        case True
        with r(1) only have "r = c" by blast
        with r(2) c True show ?thesis by simp
      next
        case False
        with r show ?thesis by simp
      qed
    qed
    have up: "\<exists>c''. (j, c'') \<in> set (db_conts ?d) \<and> ct_seq c' \<le> ct_seq c''" if "(j, c') \<in> set (db_conts d)" for j c'
    proof (cases "j = k")
      case True
      with that only have "c' = c" by blast
      with True new c(3) show ?thesis by (intro exI [of _ "?f c"]) simp
    next
      case False
      with that have "(j, c') \<in> set (db_conts ?d)" by (auto simp: upd_rows_mem)
      then show ?thesis by blast
    qed
    have "store_ok U ?g ?d"
    proof (rule store_okI)
      show "keys_ok U (g_ids ?g) ?d" using s(1) by (simp add: keys_ok_def used_keys_def)
      show "claims_ok ?d" unfolding claims_ok_def
      proof (safe)
        fix j c' assume j: "(j, c') \<in> set (db_conts ?d)" "wr_message (ct_wake c') \<noteq> []"
        from rows [OF j(1)] obtain c0 where "(j, c0) \<in> set (db_conts d)" "ct_wake c0 = ct_wake c'" using c(1) by fastforce
        with j(2) s(2) show "\<exists>m. (wr_message (ct_wake c'), m) \<in> set (db_messages ?d) \<and> mg_claimed m = Some j"
          by (fastforce simp: claims_ok_def)
      qed
      show "runs_ok (g_run ?g) ?d"
      proof (rule runs_okI)
        fix j c' assume "(j, c') \<in> set (db_conts ?d)" "ct_status c' = Running"
        with rows [of j c'] s(3) assms show "g_run ?g = Some j" by (auto simp: runs_ok_def)
      qed
      show "wakes_ok (g_wake ?g) ?d"
      proof (rule wakes_okI)
        fix j c' assume "(j, c') \<in> set (db_conts ?d)" "ct_status c' = Ready" "\<not> live_task ?d j (ct_seq c')" "\<not> stuck_open ?d j"
        with rows [of j c'] s(5) show "(j, ct_seq c') \<in> g_wake ?g" by (auto simp: wakes_ok_def)
      qed
      show "tasks_at (g_tasks ?g) ?d" using s(7) by (simp add: stepping_def)
      show "floor_ok (g_floor ?g) ?d" unfolding floor_ok_def
      proof (safe)
        fix j b assume "(j, b) \<in> g_floor ?g"
        then consider "j = k \<and> b = seen + 1" | "(j, b) \<in> g_floor g" by (auto simp: stepping_def)
        then show "\<exists>c. (j, c) \<in> set (db_conts ?d) \<and> b \<le> ct_seq c"
        proof cases
          case 1 with new c(3) show ?thesis by (intro exI [of _ "?f c"]) simp
        next
          case 2
          with s(6) obtain c0 where "(j, c0) \<in> set (db_conts d)" "b \<le> ct_seq c0" by (auto simp: floor_ok_def)
          with up [of j c0] show ?thesis by force
        qed
      qed
      have old: "\<exists>c. (ob_cont r, c) \<in> set (db_conts d) \<and> ob_seq r \<le> ct_seq c" if "(i, r) \<in> set (db_outbox d)" for i r
        using that s(4) by (auto simp: outbox_ok_def)
      have "\<exists>c. (ob_cont r, c) \<in> set (db_conts ?d) \<and> ob_seq r \<le> ct_seq c" if "(i, r) \<in> set (db_outbox d)" for i r
        using old [OF that] up by (meson order_trans)
      moreover have "ob_seq r \<noteq> seen + 1" if "(i, r) \<in> set (db_outbox d)" "ob_cont r = k" for i r
        using old [OF that(1)] that(2) only c(3) by fastforce
      moreover have "\<exists>c'. (k, c') \<in> set (db_conts ?d) \<and> ct_seq c' = seen + 1"
        using new c(3) by (intro exI [of _ "?f c"]) simp
      ultimately show "outbox_ok (g_out ?g) ?d" using s(4) unfolding outbox_ok_def by fastforce
    qed
    with True show ?thesis by simp
  qed
qed

lemma step_report_ok:
  "tx_triple (store_ok U (stepping g k sq 0)) m (\<lambda>_. stepped U g k sq) \<Longrightarrow>
   tx_triple (store_ok U (stepping g k sq 0)) (tx_seq m (tx_seq (check_epoch E) (tx_ret rep))) (\<lambda>x d. x = rep \<and> stepped U g k sq d)"
  by (rule triple_seq, assumption, rule triple_seq [OF check_epoch_ok triple_ret]) simp

lemma park_capability_revoked_ok:
  assumes "draws U E"
  shows "tx_triple (store_ok U (stepping g k sq 0)) (park_capability_revoked E k cap) (\<lambda>_. stepped U g k sq)"
  unfolding park_capability_revoked_def
proof (rule triple_uuid4 [OF assms])
  fix cond assume c: "cond \<notin> g_ids (stepping g k sq 0)"
  let ?g = "(stepping g k sq 0)\<lparr>g_ids := insert cond (g_ids (stepping g k sq 0))\<rparr>"
  show "tx_triple (store_ok U ?g) (tx_seq (update_running E k (\<lambda>r. r\<lparr>ct_status := InCondition, ct_wake := wake_of_kind ''manual''\<rparr>))
     (if \<not> json_quoted cap then tx_fail ErrJson
      else open_condition E cond k ''capability.revoked'' [(''capability'', AnyStr cap)]
        [mk_restart ''re-grant'' (''Re-grant '' @ cap) ''operator'', mk_restart ''abort'' ''Abort'' []])) (\<lambda>_. stepped U g k sq)"
  proof (rule triple_seq [OF update_running_plain])
    show "tx_triple (store_ok U (?g\<lparr>g_run := None\<rparr>)) (if \<not> json_quoted cap then tx_fail ErrJson
      else open_condition E cond k ''capability.revoked'' [(''capability'', AnyStr cap)]
        [mk_restart ''re-grant'' (''Re-grant '' @ cap) ''operator'', mk_restart ''abort'' ''Abort'' []]) (\<lambda>_. stepped U g k sq)"
      by (rule triple_if [OF triple_fail], rule end_step, rule triple_weaker [OF open_condition_ok [OF assms]]) (use c in \<open>auto simp: weaker_def\<close>)
  qed simp_all
qed

lemma record_failed_running_ok:
  assumes "draws U E"
  shows "tx_triple (store_ok U (stepping g k sq 0)) (record_failed_running E k msg) (\<lambda>_. stepped U g k sq)"
  unfolding record_failed_running_def
  by (rule triple_seq [OF update_running_plain], simp_all)
    (rule triple_post [OF step_failed_condition_ok [OF assms]], auto simp: stepped_def)

lemma triple_get_any: "(\<And>x. tx_triple P (m x) Q) \<Longrightarrow> tx_triple P (tx_bind (tx_get f) m) Q"
  by (rule triple_bind [OF triple_get]) (auto intro: triple_pre)

lemma step_state_ok:
  assumes "draws U E"
  shows "tx_triple (store_ok U (stepping g k sq 0)) (step_state E gl say run mk k sq row st) (\<lambda>_. stepped U g k sq)"
  unfolding step_state_def Let_def
proof (rule triple_get_any, rule triple_if, goal_cases)
  case (1 p)
  show ?case by (rule triple_post [OF step_report_ok [OF park_capability_revoked_ok [OF assms]]]) simp
next
  case (2 p)
  have dl: "tx_triple (store_ok U (stepping g k sq 0)) (tx_bind (tx_get (build_delivery st (ct_wake row) k)) tx_try)
      (\<lambda>_. store_ok U (stepping g k sq 0))"
    by (rule triple_get_any, rule triple_try)
  show ?case
    by (rule triple_bind [OF dl], clarsimp split: prod.split)
      (rule triple_post [OF step_report_ok [OF park_outcome_ok [OF assms]]], simp_all)
qed

definition after_claim :: "(nat \<Rightarrow> uid) \<Rightarrow> ghost \<Rightarrow> uid \<Rightarrow> int \<Rightarrow> step_report \<Rightarrow> db \<Rightarrow> bool" where
  "after_claim U g k seen rep d \<longleftrightarrow>
     (if sp_claimed rep then stepped U (g\<lparr>g_floor := insert (k, seen + 1) (g_floor g)\<rparr>) k (seen + 1) d
      else store_ok U g d \<and> spent k seen d)"

lemma claim_and_step_ok:
  assumes "draws U E" "g_run g = None"
  shows "tx_triple (store_ok U g) (claim_and_step E gl say say_cfr run mk k seen) (after_claim U g k seen)"
  unfolding claim_and_step_def
proof (rule triple_seq [OF check_epoch_ok], rule triple_bind [OF claim_row_ok [OF assms(2)]], rule triple_if, goal_cases)
  case (1 n)
  then show ?case by (auto intro: triple_ret simp: after_claim_def)
next
  case (2 n)
  let ?g = "g\<lparr>g_floor := insert (k, seen + 1) (g_floor g)\<rparr>"
  have fin: "tx_triple (store_ok U (stepping ?g k (seen + 1) 0)) m (after_claim U g k seen)"
    if "tx_triple (store_ok U (stepping ?g k (seen + 1) 0)) m (\<lambda>rep d. sp_claimed rep \<and> stepped U ?g k (seen + 1) d)" for m
    by (rule triple_post [OF that]) (simp add: after_claim_def)
  have rec: "tx_triple (store_ok U (stepping ?g k (seen + 1) 0)) (tx_seq (record_failed_running E k msg)
      (tx_ret \<lparr>sp_claimed = True, sp_out = None, sp_err = err\<rparr>)) (\<lambda>rep d. sp_claimed rep \<and> stepped U ?g k (seen + 1) d)" for msg err
    by (rule triple_seq [OF record_failed_running_ok [OF assms(1)] triple_ret]) simp
  have st: "tx_triple (store_ok U (stepping ?g k (seen + 1) 0)) (step_state E gl say run mk k (seen + 1) row st)
      (\<lambda>rep d. sp_claimed rep \<and> stepped U ?g k (seen + 1) d)" for row st
    unfolding tx_triple_def
  proof (intro allI impI conjI)
    fix d rep d' assume d: "store_ok U (stepping ?g k (seen + 1) 0) d"
      and r: "step_state E gl say run mk k (seen + 1) row st d = Inr (rep, d')"
    show "stepped U ?g k (seen + 1) d'" using tripleD [OF step_state_ok [OF assms(1)] d r] .
    show "sp_claimed rep" using r
      by (auto simp: step_state_def Let_def tx_bind_def tx_seq_def tx_ret_def tx_get_def split: sum.splits prod.splits if_splits)
  qed
  from 2 show ?case unfolding find_cont_def
    by (simp, intro triple_get_any fin) (auto intro: triple_fail rec st split: option.split sum.split)
qed

subsection \<open>The doors\<close>

text \<open>Between transactions nothing is owed, only the floor is kept.\<close>

abbreviation calm :: "(uid \<times> int) set \<Rightarrow> (uid \<times> task_pay) set \<Rightarrow> ghost" where
  "calm F T \<equiv> \<lparr>g_run = None, g_wake = {}, g_out = None, g_ids = {}, g_floor = F, g_tasks = T\<rparr>"

lemma stepped_calm: "stepped U (calm F T) k sq d \<Longrightarrow> store_ok U (calm F T) d"
  by (auto simp: stepped_def elim!: store_ok_weaker) (simp add: weaker_def)

lemma start_workflow_ok:
  assumes "draws U E"
  shows "tx_triple (store_ok U g) (start_workflow E root init pr) (\<lambda>_. store_ok U g)"
  unfolding start_workflow_def
proof (rule triple_bind [where R = "\<lambda>_. store_ok U g"])
  show "tx_triple (store_ok U g) (case init of Inl e \<Rightarrow> tx_fail (ErrInitial e) | Inr st \<Rightarrow> tx_ret st) (\<lambda>_. store_ok U g)"
    by (auto intro: triple_fail triple_ret split: sum.split)
  fix st
  show "tx_triple (store_ok U g) (tx_bind (uuid4 E) (\<lambda>k.
     tx_seq (insert_cont k (new_cont E ''workflow'' root (epoch_or_one E) (encode_state st)
       ((wake_of_kind ''timer'')\<lparr>wr_due := en_now E\<rparr>) Ready pr))
     (tx_seq (insert_resume_task E k 0) (tx_ret k)))) (\<lambda>_. store_ok U g)"
  proof (rule triple_uuid4 [OF assms], rule triple_seq [OF _ triple_seq [OF insert_wake_ok [OF assms] triple_ret]])
    fix k assume "k \<notin> g_ids g"
    then show "tx_triple (store_ok U (g\<lparr>g_ids := insert k (g_ids g)\<rparr>)) (insert_cont k (new_cont E ''workflow'' root (epoch_or_one E)
        (encode_state st) ((wake_of_kind ''timer'')\<lparr>wr_due := en_now E\<rparr>) Ready pr))
        (\<lambda>_. store_ok U (g\<lparr>g_wake := insert (k, 0) (g_wake g)\<rparr>))"
      by (intro triple_weaker [OF insert_cont_ok]) (auto simp: new_cont_def weaker_def)
  qed
qed

text \<open>A row that is not ready owes no wake.\<close>

lemma insert_cont_parked_ok:
  assumes "k \<in> g_ids g" "ct_status c \<notin> {Running, Ready}" "wr_message (ct_wake c) = []"
  shows "tx_triple (store_ok U g) (insert_cont k c) (\<lambda>_. store_ok U (g\<lparr>g_ids := g_ids g - {k}\<rparr>))"
  unfolding tx_triple_def
proof (intro allI impI)
  fix d x d' assume d: "store_ok U g d" "insert_cont k c d = Inr (x, d')"
  have "store_ok U (g\<lparr>g_ids := g_ids g - {k}, g_wake := insert (k, ct_seq c) (g_wake g)\<rparr>) d'"
    using tripleD [OF insert_cont_ok d] assms by simp
  moreover have d': "d' = d\<lparr>db_conts := db_conts d @ [(k, c)]\<rparr>" using d(2) by (simp add: insert_cont_def tx_put_def)
  have "wakes_ok (g_wake g) d'"
    unfolding d' using store_okD(5) [OF d(1)] assms(2) by (auto simp: wakes_ok_def)
  ultimately show "store_ok U (g\<lparr>g_ids := g_ids g - {k}\<rparr>) d'" by (simp add: store_ok_def)
qed

lemma park_request_ok:
  assumes "draws U E"
  shows "tx_triple (store_ok U g) (park_request E kind root st cl payload rs pr) (\<lambda>_. store_ok U g)"
  unfolding park_request_def
proof (rule triple_uuid4 [OF assms], rule triple_uuid4 [OF assms], rule triple_if [OF triple_fail])
  fix k c assume k: "k \<notin> g_ids g" and c: "c \<notin> g_ids (g\<lparr>g_ids := insert k (g_ids g)\<rparr>)"
  let ?g = "g\<lparr>g_ids := insert c (insert k (g_ids g))\<rparr>"
  have one: "tx_triple (store_ok U ?g) (insert_cont k (new_cont E kind root 1 (encode_state st) (wake_of_kind ''manual'') InCondition pr))
      (\<lambda>_. store_ok U (?g\<lparr>g_ids := g_ids ?g - {k}\<rparr>))"
    by (rule insert_cont_parked_ok) (simp_all add: new_cont_def)
  have two: "tx_triple (store_ok U (?g\<lparr>g_ids := g_ids ?g - {k}\<rparr>)) (open_condition E c k cl payload rs) (\<lambda>_. store_ok U g)"
    by (rule triple_weaker [OF open_condition_ok [OF assms]]) (use k c in \<open>auto simp: weaker_def\<close>)
  show "tx_triple (store_ok U (g\<lparr>g_ids := insert k (g_ids g), g_ids := insert c (g_ids (g\<lparr>g_ids := insert k (g_ids g)\<rparr>))\<rparr>))
      (tx_seq (insert_cont k (new_cont E kind root 1 (encode_state st) (wake_of_kind ''manual'') InCondition pr))
       (tx_seq (open_condition E c k cl payload rs) (tx_ret (k, c)))) (\<lambda>_. store_ok U g)"
    using triple_seq [OF one triple_seq [OF two triple_ret]] by simp
qed

text \<open>Closing a condition can leave its continuation without a wake; picking a restart makes up for it.\<close>

lemma close_cond_ok:
  assumes "store_ok U g d" "map_of (db_conds d) cond = Some row" "\<And>q. cd_cont (f q) = cd_cont q" "\<And>q. cd_class (f q) = cd_class q"
  shows "store_ok U (g\<lparr>g_wake := g_wake g \<union> {cd_cont row} \<times> UNIV\<rparr>)
    (d\<lparr>db_conds := upd_rows (\<lambda>i q. i = cond \<and> cd_open q) f (db_conds d)\<rparr>)"
proof (rule store_okI)
  note d = store_okD [OF assms(1)]
  let ?R = "\<lambda>i q. i = cond \<and> cd_open q"
  let ?g = "g\<lparr>g_wake := g_wake g \<union> {cd_cont row} \<times> UNIV\<rparr>" and ?d = "d\<lparr>db_conds := upd_rows ?R f (db_conds d)\<rparr>"
  show "keys_ok U (g_ids ?g) ?d" using d(1) by (simp add: keys_ok_def used_keys_def)
  show "claims_ok ?d" "runs_ok (g_run ?g) ?d" "outbox_ok (g_out ?g) ?d" "floor_ok (g_floor ?g) ?d" "tasks_at (g_tasks ?g) ?d" using d by simp_all
  show "wakes_ok (g_wake ?g) ?d"
  proof (rule wakes_okI)
    fix k c assume k: "(k, c) \<in> set (db_conts ?d)" "ct_status c = Ready" "\<not> live_task ?d k (ct_seq c)" "\<not> stuck_open ?d k"
    show "(k, ct_seq c) \<in> g_wake ?g"
    proof (cases "k = cd_cont row")
      case False
      have "\<not> stuck_open d k"
      proof
        assume "stuck_open d k"
        then obtain i q where q: "(i, q) \<in> set (db_conds d)" "cd_cont q = k" "cd_open q" "cd_class q = ''step.failed''"
          by (auto simp: stuck_open_def)
        have "i \<noteq> cond"
        proof
          assume "i = cond"
          moreover have "distinct (map fst (db_conds d))" using d(1) by (simp add: keys_ok_def)
          ultimately have "q = row" using q(1) assms(2) by auto
          with False q(2) show False by simp
        qed
        with q have "stuck_open ?d k" by (intro stuck_openI [of i q]) (auto simp: upd_rows_mem)
        with k(4) show False ..
      qed
      moreover have "\<not> live_task d k (ct_seq c)" using k(3) by (simp add: live_task_def)
      ultimately show ?thesis using k(1,2) d(5) by (auto simp: wakes_ok_def)
    qed simp
  qed
qed

lemma wake_narrow:
  assumes "store_ok U (g\<lparr>g_wake := W \<union> {k} \<times> UNIV\<rparr>) d"
    and "\<And>c. (k, c) \<in> set (db_conts d) \<Longrightarrow> ct_status c = Ready \<Longrightarrow> \<not> live_task d k (ct_seq c) \<Longrightarrow> \<not> stuck_open d k \<Longrightarrow>
      (k, ct_seq c) \<in> W'"
    and "W \<subseteq> W'"
  shows "store_ok U (g\<lparr>g_wake := W'\<rparr>) d"
proof -
  have "wakes_ok W' d"
  proof (rule wakes_okI)
    fix j c assume j: "(j, c) \<in> set (db_conts d)" "ct_status c = Ready" "\<not> live_task d j (ct_seq c)" "\<not> stuck_open d j"
    with assms(1) have "(j, ct_seq c) \<in> W \<union> {k} \<times> UNIV" by (auto simp: store_ok_def wakes_ok_def)
    with assms(2) [of c] assms(3) j show "(j, ct_seq c) \<in> W'" by auto
  qed
  with assms(1) show ?thesis by (simp add: store_ok_def)
qed

lemma pick_restart_ok:
  assumes "draws U E"
  shows "tx_triple (store_ok U g) (pick_restart E cond name args by_who caps) (\<lambda>_. store_ok U g)"
proof -
  have allow: "tx_triple P (allow_restart r caps) (\<lambda>_. P)" for P r
    by (auto simp: allow_restart_def intro: triple_ret triple_fail split: option.split)
  have main: "tx_triple (\<lambda>d. store_ok U g d \<and> map_of (db_conds d) cond = Some row)
      (tx_bind (update_conds (\<lambda>i q. i = cond \<and> cd_open q)
          (\<lambda>q. q\<lparr>cd_open := False, cd_restart := rid, cd_args := args, cd_by := by_who\<rparr>)) (\<lambda>n.
        if n \<noteq> 1 then tx_fail (ErrNotOpen cond)
        else tx_bind (update_conts (\<lambda>i q. i = cd_cont row) (\<lambda>q. q\<lparr>ct_status := Ready, ct_updated := en_now E\<rparr>)) (\<lambda>_.
          tx_bind (find_cont (cd_cont row)) (\<lambda>q.
            insert_resume_task E (cd_cont row) (case q of None \<Rightarrow> 0 | Some q \<Rightarrow> ct_seq q))))) (\<lambda>_. store_ok U g)" for row rid
  proof (rule triple_bind)
    let ?k = "cd_cont row"
    let ?h = "g\<lparr>g_wake := g_wake g \<union> {?k} \<times> UNIV\<rparr>"
    show "tx_triple (\<lambda>d. store_ok U g d \<and> map_of (db_conds d) cond = Some row) (update_conds (\<lambda>i q. i = cond \<and> cd_open q)
          (\<lambda>q. q\<lparr>cd_open := False, cd_restart := rid, cd_args := args, cd_by := by_who\<rparr>)) (\<lambda>_. store_ok U ?h)"
      by (rule triple_update_conds, rule close_cond_ok) simp_all
    fix n :: nat
    let ?R = "\<lambda>i q. i = ?k" and ?f = "\<lambda>q. q\<lparr>ct_status := Ready, ct_updated := en_now E\<rparr>"
    have upd: "tx_triple (store_ok U ?h) (update_conts ?R ?f) (\<lambda>_. store_ok U ?h)"
    proof (rule triple_update_conts)
      fix d assume d: "store_ok U ?h d"
      have "store_ok U (?h\<lparr>g_wake := g_wake ?h \<union> {?k} \<times> UNIV\<rparr>) (d\<lparr>db_conts := upd_rows ?R ?f (db_conts d)\<rparr>)"
        by (rule upd_conts_ok [OF d]) (simp add: lawful_def)
      then show "store_ok U ?h (d\<lparr>db_conts := upd_rows ?R ?f (db_conts d)\<rparr>)" by (simp add: Un_assoc)
    qed
    have task: "tx_triple (\<lambda>d. store_ok U ?h d \<and> q = map_of (db_conts d) ?k)
        (insert_resume_task E ?k (case q of None \<Rightarrow> 0 | Some q \<Rightarrow> ct_seq q)) (\<lambda>_. store_ok U g)" for q
    proof (rule triple_pre [OF insert_wake_ok [OF assms]])
      fix d assume d: "store_ok U ?h d \<and> q = map_of (db_conts d) ?k"
      show "store_ok U (g\<lparr>g_wake := insert (?k, case q of None \<Rightarrow> 0 | Some q \<Rightarrow> ct_seq q) (g_wake g)\<rparr>) d"
      proof (rule wake_narrow [OF conjunct1 [OF d]])
        fix c assume "(?k, c) \<in> set (db_conts d)"
        with d have "q = Some c" by (simp add: store_ok_def keys_ok_def)
        then show "(?k, ct_seq c) \<in> insert (?k, case q of None \<Rightarrow> 0 | Some q \<Rightarrow> ct_seq q) (g_wake g)" by simp
      qed blast
    qed
    show "tx_triple (store_ok U ?h) (if n \<noteq> 1 then tx_fail (ErrNotOpen cond)
        else tx_bind (update_conts ?R ?f) (\<lambda>_. tx_bind (find_cont ?k) (\<lambda>q.
            insert_resume_task E ?k (case q of None \<Rightarrow> 0 | Some q \<Rightarrow> ct_seq q)))) (\<lambda>_. store_ok U g)"
      by (rule triple_if [OF triple_fail], unfold find_cont_def) (rule triple_bind [OF upd triple_bind [OF triple_get task]])
  qed
  show ?thesis unfolding pick_restart_def
  proof (rule triple_if [OF triple_fail], rule triple_get_any, goal_cases)
    case (1 x)
    show ?case
    proof (cases x)
      case (Some y)
      obtain rid r where y: "y = (rid, r)" by (cases y)
      show ?thesis unfolding Some y option.case prod.case
      proof (rule triple_seq [OF allow triple_bind [OF triple_get]], goal_cases)
        case (1 c)
        show ?case
        proof (cases c)
          case (Some row)
          show ?thesis unfolding Some option.case by (rule triple_pre [OF main]) simp
        qed (simp add: triple_fail)
      qed
    qed (simp add: triple_fail)
  qed
qed

subsection \<open>The reactor's passes\<close>

text \<open>An update of task rows keeps a live resume task alive unless its wake is owed from then on.\<close>

lemma upd_tasks_ok:
  assumes "store_ok U g d" and P: "\<And>t. tk_pay (f t) = tk_pay t"
    and L: "\<And>i t k c. (i, t) \<in> set (db_tasks d) \<Longrightarrow> R i t \<Longrightarrow> tk_pay t = PayResume k (ct_seq c) \<Longrightarrow>
      (k, c) \<in> set (db_conts d) \<Longrightarrow> ct_status c = Ready \<Longrightarrow> tk_status t \<in> {TaskReady, TaskRunning} \<Longrightarrow>
      tk_status (f t) \<in> {TaskReady, TaskRunning} \<or> (k, ct_seq c) \<in> W"
  shows "store_ok U (g\<lparr>g_wake := g_wake g \<union> W\<rparr>) (d\<lparr>db_tasks := upd_rows R f (db_tasks d)\<rparr>)"
proof (rule store_okI)
  note d = store_okD [OF assms(1)]
  let ?g = "g\<lparr>g_wake := g_wake g \<union> W\<rparr>" and ?d = "d\<lparr>db_tasks := upd_rows R f (db_tasks d)\<rparr>"
  show "keys_ok U (g_ids ?g) ?d" using d(1) by (simp add: keys_ok_def used_keys_def)
  show "claims_ok ?d" "runs_ok (g_run ?g) ?d" "outbox_ok (g_out ?g) ?d" "floor_ok (g_floor ?g) ?d" using d by simp_all
  show "tasks_at (g_tasks ?g) ?d" unfolding tasks_at_def
  proof (safe)
    fix i p assume "(i, p) \<in> g_tasks ?g"
    with d(7) obtain t where t: "(i, t) \<in> set (db_tasks d)" "tk_pay t = p" by (auto simp: tasks_at_def)
    then have "(i, if R i t then f t else t) \<in> set (db_tasks ?d)" by (auto simp: upd_rows_mem)
    then show "\<exists>t. (i, t) \<in> set (db_tasks ?d) \<and> tk_pay t = p" using t P by (cases "R i t") auto
  qed
  show "wakes_ok (g_wake ?g) ?d"
  proof (rule wakes_okI)
    fix k c assume k: "(k, c) \<in> set (db_conts ?d)" "ct_status c = Ready" "\<not> live_task ?d k (ct_seq c)" "\<not> stuck_open ?d k"
    show "(k, ct_seq c) \<in> g_wake ?g"
    proof (cases "live_task d k (ct_seq c)")
      case False
      with k d(5) show ?thesis by (auto simp: wakes_ok_def)
    next
      case True
      then obtain i t where t: "(i, t) \<in> set (db_tasks d)" "tk_pay t = PayResume k (ct_seq c)"
        "tk_status t \<in> {TaskReady, TaskRunning}" by (auto simp: live_task_def)
      have "R i t"
      proof (rule ccontr)
        assume "\<not> R i t"
        with t(1) have "(i, t) \<in> set (db_tasks ?d)" by (auto simp: upd_rows_mem)
        with t k(3) show False by (auto simp: live_task_def)
      qed
      moreover have "tk_status (f t) \<notin> {TaskReady, TaskRunning}"
      proof
        assume f: "tk_status (f t) \<in> {TaskReady, TaskRunning}"
        have "(i, f t) \<in> set (db_tasks ?d)" using t(1) \<open>R i t\<close> by (auto simp: upd_rows_mem)
        with f P t(2) k(3) show False by (auto simp: live_task_def)
      qed
      ultimately show ?thesis using L [OF t(1) _ t(2)] k(1,2) t(3) by auto
    qed
  qed
qed

lemma update_tasks_live:
  assumes "\<And>t. tk_pay (f t) = tk_pay t" "\<And>t. tk_status t \<in> {TaskReady, TaskRunning} \<Longrightarrow> tk_status (f t) \<in> {TaskReady, TaskRunning}"
  shows "tx_triple (store_ok U g) (update_tasks R f) (\<lambda>_. store_ok U g)"
  unfolding update_tasks_def
proof (rule triple_put)
  fix d assume d: "store_ok U g d"
  show "store_ok U g (d\<lparr>db_tasks := upd_rows R f (db_tasks d)\<rparr>)"
    using upd_tasks_ok [OF d, where W = "{}"] assms by simp
qed

lemma claim_tasks_ok: "tx_triple (store_ok U g) (claim_tasks E kind batch) (\<lambda>_. store_ok U g)"
  unfolding claim_tasks_def
  by (rule triple_get_any, rule triple_seq [OF update_tasks_live triple_ret]) auto

lemma claim_due_cron_ok: "tx_triple (store_ok U g) (claim_due_cron E batch) (\<lambda>_. store_ok U g)"
  unfolding claim_due_cron_def
  by (rule triple_get_any, rule triple_seq [OF update_tasks_live triple_ret]) auto

lemma heartbeat_once_ok: "tx_triple (store_ok U g) (heartbeat_once E) (\<lambda>_. store_ok U g)"
  unfolding heartbeat_once_def
proof (rule triple_seq [OF update_tasks_live triple_bind [OF triple_update_conts triple_ret]])
  fix d assume d: "store_ok U g d"
  show "store_ok U g (d\<lparr>db_conts := upd_rows (\<lambda>_ r. ct_owner r = Some (en_kernel E) \<and> ct_status r = Running)
      (\<lambda>r. r\<lparr>ct_lease := en_now E + 1000000 * en_lease E\<rparr>) (db_conts d)\<rparr>)"
    using upd_conts_ok [OF d, where W = "{}"] by (simp add: lawful_def)
qed auto

lemma wake_all_ok:
  assumes "draws U E"
  shows "tx_triple (store_ok U (g\<lparr>g_wake := g_wake g \<union> (\<lambda>(k, c). (k, ct_seq c)) ` set cs\<rparr>))
    (tx_each (\<lambda>(k, c). insert_resume_task E k (ct_seq c)) cs) (\<lambda>_. store_ok U g)"
proof (induction cs)
  case Nil
  show ?case by (simp add: triple_ret)
next
  case (Cons x cs)
  have "tx_triple (store_ok U (g\<lparr>g_wake := g_wake g \<union> (\<lambda>(k, c). (k, ct_seq c)) ` set (x # cs)\<rparr>))
      (case x of (k, c) \<Rightarrow> insert_resume_task E k (ct_seq c))
      (\<lambda>_. store_ok U (g\<lparr>g_wake := g_wake g \<union> (\<lambda>(k, c). (k, ct_seq c)) ` set cs\<rparr>))"
    by (cases x, simp, rule insert_resume_task_ok [OF assms]) auto
  from triple_seq [OF this Cons.IH] show ?case by simp
qed

lemma rows_owed:
  assumes "keys_ok U F d" "set cs \<subseteq> set (db_conts d)" "(k, c) \<in> set (db_conts d)" "k \<in> fst ` set cs"
  shows "(k, ct_seq c) \<in> (\<lambda>(k, c). (k, ct_seq c)) ` set cs"
proof -
  from assms(4) obtain c' where c': "(k, c') \<in> set cs" by auto
  with assms(2) have "(k, c') \<in> set (db_conts d)" by blast
  with row_unique [OF assms(1) assms(3)] c' show ?thesis by force
qed

lemma timer_once_ok:
  assumes "draws U E"
  shows "tx_triple (store_ok U g) (timer_once E batch) (\<lambda>_. store_ok U g)"
  unfolding timer_once_def
proof (rule triple_bind [OF triple_get triple_bind [OF triple_update_conts wake_all_ok [OF assms]]])
  fix due d assume d: "store_ok U g d \<and> due = due_timers E batch d"
  have sub: "set due \<subseteq> set (db_conts d)" using d by (auto simp: due_timers_def dest!: in_set_takeD)
  show "store_ok U (g\<lparr>g_wake := g_wake g \<union> (\<lambda>(k, c). (k, ct_seq c)) ` set due\<rparr>)
      (d\<lparr>db_conts := upd_rows (\<lambda>k _. k \<in> fst ` set due) (\<lambda>r. r\<lparr>ct_status := Ready, ct_updated := en_now E\<rparr>) (db_conts d)\<rparr>)"
  proof (rule upd_conts_ok [OF conjunct1 [OF d]])
    fix k c assume "(k, c) \<in> set (db_conts d)" "k \<in> fst ` set due"
    with d have "(k, ct_seq c) \<in> (\<lambda>(k, c). (k, ct_seq c)) ` set due"
      by (intro rows_owed [where U = U and F = "g_ids g", OF _ sub]) (simp_all add: store_ok_def)
    then show "lawful d ((\<lambda>(k, c). (k, ct_seq c)) ` set due) k c (c\<lparr>ct_status := Ready, ct_updated := en_now E\<rparr>)"
      by (simp add: lawful_def)
  qed
qed

text \<open>No committed row is running, so the reaper's second branch finds nothing.\<close>

lemma expired_conts_none: "runs_ok None d \<Longrightarrow> expired_conts E n d = []"
proof -
  assume "runs_ok None d"
  then have "filter (\<lambda>(k, r). ct_status r = Running \<and> ct_lease r < en_now E) (db_conts d) = []"
    by (auto simp: runs_ok_def filter_empty_conv)
  then show ?thesis by (simp add: expired_conts_def oldest_def)
qed

lemma reaper_once_ok:
  assumes "draws U E"
  shows "tx_triple (store_ok U g) (reaper_once E batch) (\<lambda>_. store_ok U g)"
  unfolding reaper_once_def
proof (rule triple_if [OF triple_ret], assumption, rule triple_get_any, rule triple_seq [OF update_tasks_live], simp_all, goal_cases)
  case (1 ts)
  show ?case
  proof (rule triple_bind [OF triple_get triple_bind [OF triple_update_conts triple_seq [OF wake_all_ok [OF assms] triple_ret]]])
    fix cs d assume d: "store_ok U g d \<and> cs = expired_conts E (batch - length ts) d"
    have sub: "set cs \<subseteq> set (db_conts d)" using d by (auto simp: expired_conts_def dest!: in_set_takeD)
    show "store_ok U (g\<lparr>g_wake := g_wake g \<union> (\<lambda>(k, c). (k, ct_seq c)) ` set cs\<rparr>)
        (d\<lparr>db_conts := upd_rows (\<lambda>k _. k \<in> fst ` set cs) (\<lambda>r. r\<lparr>ct_status := Ready, ct_owner := None, ct_updated := en_now E\<rparr>) (db_conts d)\<rparr>)"
    proof (rule upd_conts_ok [OF conjunct1 [OF d]])
      fix k c assume "(k, c) \<in> set (db_conts d)" "k \<in> fst ` set cs"
      with d have "(k, ct_seq c) \<in> (\<lambda>(k, c). (k, ct_seq c)) ` set cs"
        by (intro rows_owed [where U = U and F = "g_ids g", OF _ sub]) (simp_all add: store_ok_def)
      then show "lawful d ((\<lambda>(k, c). (k, ct_seq c)) ` set cs) k c (c\<lparr>ct_status := Ready, ct_owner := None, ct_updated := en_now E\<rparr>)"
        by (simp add: lawful_def)
    qed
  qed simp
qed

subsection \<open>Ending a task\<close>

lemma finish_task_ready_ok: "tx_triple (store_ok U g) (finish_task i TaskReady) (\<lambda>_. store_ok U g)"
  unfolding finish_task_def by (rule update_tasks_live) auto

lemma task_unique: "keys_ok U F d \<Longrightarrow> (i, t) \<in> set (db_tasks d) \<Longrightarrow> (i, t') \<in> set (db_tasks d) \<Longrightarrow> t = t'"
  by (metis keys_ok_def map_of_is_SomeI option.inject)

text \<open>The task that is ended is the resume task of a step nobody is ready at any more, or no resume task.\<close>

lemma finish_task_spent:
  assumes "store_ok U g d" "(i, t) \<in> set (db_tasks d)" "\<And>k s. tk_pay t = PayResume k s \<Longrightarrow> spent k s d"
  shows "store_ok U g (d\<lparr>db_tasks := upd_rows (\<lambda>j _. j = i) (\<lambda>t. t\<lparr>tk_status := st, tk_owner := None\<rparr>) (db_tasks d)\<rparr>)"
proof -
  have "store_ok U (g\<lparr>g_wake := g_wake g \<union> {}\<rparr>)
    (d\<lparr>db_tasks := upd_rows (\<lambda>j _. j = i) (\<lambda>t. t\<lparr>tk_status := st, tk_owner := None\<rparr>) (db_tasks d)\<rparr>)"
  proof (rule upd_tasks_ok [OF assms(1)], simp)
    fix j t' k c assume j: "(j, t') \<in> set (db_tasks d)" "j = i" "tk_pay t' = PayResume k (ct_seq c)"
      "(k, c) \<in> set (db_conts d)" "ct_status c = Ready"
    have "t' = t" using task_unique [of U "g_ids g" d i t' t] assms(1,2) j(1,2) by (simp add: store_ok_def)
    with j(3) assms(3) have "spent k (ct_seq c) d" by simp
    with j(4,5) show "tk_status (t'\<lparr>tk_status := st, tk_owner := None\<rparr>) \<in> {TaskReady, TaskRunning} \<or> (k, ct_seq c) \<in> {}"
      by (auto simp: spent_def)
  qed
  then show ?thesis by simp
qed

lemma finish_task_owed:
  assumes "store_ok U g d" "(i, t) \<in> set (db_tasks d)" "tk_pay t = PayResume k s"
  shows "store_ok U (g\<lparr>g_wake := g_wake g \<union> {k} \<times> UNIV\<rparr>)
    (d\<lparr>db_tasks := upd_rows (\<lambda>j _. j = i) (\<lambda>t. t\<lparr>tk_status := st, tk_owner := None\<rparr>) (db_tasks d)\<rparr>)"
proof (rule upd_tasks_ok [OF assms(1)], simp)
  fix j t' k' c assume j: "(j, t') \<in> set (db_tasks d)" "j = i" "tk_pay t' = PayResume k' (ct_seq c)"
  have "t' = t" using task_unique [of U "g_ids g" d i t' t] assms(1,2) j(1,2) by (simp add: store_ok_def)
  with j(3) assms(3) show "tk_status (t'\<lparr>tk_status := st, tk_owner := None\<rparr>) \<in> {TaskReady, TaskRunning} \<or> (k', ct_seq c) \<in> {k} \<times> UNIV"
    by simp
qed

lemma step_failed_condition_commits:
  "json_quoted msg \<Longrightarrow> \<exists>d'. step_failed_condition E k msg d = Inr ((), d')"
  by (simp add: step_failed_condition_def uuid4_def open_condition_def class_shape_def lower_alnum_def insert_restarts_def insert_cond_def insert_restart_def
    tx_bind_def tx_seq_def tx_get_def tx_put_def tx_ret_def)

lemma dead_task_ok:
  assumes "draws U E" "store_ok U g d" "(i, t) \<in> set (db_tasks d)" "tk_pay t = PayResume k s" "json_quoted msg"
  shows "store_ok U g (dead_task E i k msg d)"
proof -
  let ?h = "g\<lparr>g_wake := g_wake g \<union> {k} \<times> UNIV\<rparr>" and ?d = "snd (commit (finish_task i TaskDead) d)"
  let ?msg = "''task exceeded attempt ceiling: '' @ msg"
  have owed: "store_ok U ?h ?d" using finish_task_owed [OF assms(2-4)]
    by (simp add: commit_def finish_task_def update_tasks_def tx_put_def)
  have "json_quoted ?msg" using assms(5) by (simp add: json_quoted_def)
  then obtain d' where d': "step_failed_condition E k ?msg ?d = Inr ((), d')" using step_failed_condition_commits by blast
  have "tx_triple (store_ok U ?h) (step_failed_condition E k ?msg) (\<lambda>_. store_ok U g)"
  proof (rule triple_post [OF step_failed_condition_ok [OF assms(1)]])
    fix d assume d: "store_ok U ?h d \<and> stuck_open d k"
    have "store_ok U (g\<lparr>g_wake := g_wake g\<rparr>) d" by (rule wake_narrow [OF conjunct1 [OF d]]) (use d in auto)
    then show "store_ok U g d" by simp
  qed
  from tripleD [OF this owed d'] d' show ?thesis by (simp add: dead_task_def record_step_failed_def commit_def)
qed

lemma commit_ok:
  assumes "tx_triple (store_ok U g) m Q" "store_ok U g d"
  shows "case commit m d of (Inl e, d') \<Rightarrow> d' = d | (Inr x, d') \<Rightarrow> Q x d'"
  using assms by (auto simp: commit_def dest: tripleD split: sum.split)

lemma commit_keeps: "tx_triple P m (\<lambda>_. P) \<Longrightarrow> P d \<Longrightarrow> P (snd (commit m d))"
  by (auto simp: commit_def dest: tripleD split: sum.split)

lemma finish_spent_ok:
  assumes "tk_pay t = PayResume k s"
  shows "tx_triple (\<lambda>d. store_ok U g d \<and> (i, t) \<in> set (db_tasks d) \<and> spent k s d) (finish_task i st) (\<lambda>_. store_ok U g)"
  unfolding finish_task_def update_tasks_def
  by (rule triple_put) (use finish_task_spent assms in \<open>metis task_pay.inject(1)\<close>)

lemma stepped_spent: "stepped U g k (seen + 1) d \<Longrightarrow> spent k seen d"
proof -
  assume "stepped U g k (seen + 1) d"
  then obtain n where n: "store_ok U (g\<lparr>g_run := None, g_out := Some (k, seen + 1, n)\<rparr>) d" by (auto simp: stepped_def)
  then obtain c where c: "(k, c) \<in> set (db_conts d)" "ct_seq c = seen + 1" by (auto simp: store_ok_def outbox_ok_def)
  have "c' = c" if "(k, c') \<in> set (db_conts d)" for c'
    by (rule row_unique [of U "g_ids g" d k]) (use n that c in \<open>simp_all add: store_ok_def\<close>)
  then have "ct_seq c' = seen + 1" if "(k, c') \<in> set (db_conts d)" for c' using that c(2) by metis
  then show ?thesis by (fastforce simp: spent_def)
qed

lemma after_claim_spent: "after_claim U g k seen rep d \<Longrightarrow> spent k seen d"
  by (auto simp: after_claim_def stepped_spent split: if_splits)

lemma after_claim_calm: "after_claim U (calm F T) k seen rep d \<Longrightarrow> store_ok U (calm F T) d"
  by (auto simp: after_claim_def stepped_def weaker_def split: if_splits elim!: store_ok_weaker)

lemma run_task_ok:
  assumes "draws U E" "store_ok U (calm F T) d" "(i, t) \<in> set (db_tasks d)" "tk_pay t = PayResume k seen"
    and "\<And>e. json_quoted (say_tx e)"
  shows "store_ok U (calm F T) (run_task E gl say say_cfr say_tx run mk i k seen attempts d)"
proof -
  let ?T = "insert (i, PayResume k seen) T" and ?m = "claim_and_step E gl say say_cfr run mk k seen"
  have start: "store_ok U (calm F ?T) d"
    using assms(2-4) by (auto simp: store_ok_def tasks_at_def)
  obtain res d' where c: "commit ?m d = (res, d')" by (cases "commit ?m d")
  have fin: "store_ok U (calm F ?T) d' \<and> (\<forall>rep. res = Inr rep \<longrightarrow> spent k seen d')"
  proof -
    have "tx_triple (store_ok U (calm F ?T)) ?m (after_claim U (calm F ?T) k seen)"
      by (rule claim_and_step_ok [OF assms(1)]) simp
    from commit_ok [OF this start] c start show ?thesis
      by (cases res) (auto dest: after_claim_spent after_claim_calm)
  qed
  from fin obtain t' where t': "(i, t') \<in> set (db_tasks d')" "tk_pay t' = PayResume k seen"
    by (auto simp: store_ok_def tasks_at_def)
  have less: "store_ok U (calm F ?T) x \<Longrightarrow> store_ok U (calm F T) x" for x
    by (erule store_ok_weaker) (auto simp: weaker_def)
  have dead: "store_ok U (calm F ?T) (dead_task E i k (say_tx e) d')" for e
    using dead_task_ok [OF assms(1) conjunct1 [OF fin] t' assms(5)] .
  have again: "store_ok U (calm F ?T) (snd (commit (finish_task i TaskReady) d'))"
    using commit_keeps [OF finish_task_ready_ok conjunct1 [OF fin]] .
  have "store_ok U (calm F ?T) (after_step E say_tx i k attempts res d')"
  proof (cases "case res of Inl e \<Rightarrow> Some e | Inr rep \<Rightarrow> sp_err rep")
    case None
    then obtain rep where "res = Inr rep" by (auto split: sum.splits)
    with fin t'(1) have "store_ok U (calm F ?T) d' \<and> (i, t') \<in> set (db_tasks d') \<and> spent k seen d'" by simp
    moreover have "commit (finish_task i TaskDone) d' = (Inr (), snd (commit (finish_task i TaskDone) d'))"
      by (simp add: commit_def finish_task_def update_tasks_def tx_put_def)
    ultimately have "store_ok U (calm F ?T) (snd (commit (finish_task i TaskDone) d'))"
      using tripleD [OF finish_spent_ok [OF t'(2)]] by (auto simp: commit_def split: sum.splits)
    with None show ?thesis by (simp add: after_step_def)
  next
    case (Some e)
    with dead again fin show ?thesis by (cases e) (simp_all add: after_step_def)
  qed
  then show ?thesis using c less by (simp add: run_task_def)
qed

lemma finish_other_ok:
  assumes "store_ok U g d" "(i, t) \<in> set (db_tasks d)" "tk_pay t = PayDeliver it dd"
  shows "store_ok U g (snd (commit (finish_task i st) d))"
  using finish_task_spent [OF assms(1,2)] assms(3) by (simp add: commit_def finish_task_def update_tasks_def tx_put_def)

lemma mark_delivered_ok: "tx_triple (store_ok U g) (mark_delivered it) (\<lambda>_. store_ok U g)"
  unfolding mark_delivered_def
proof (rule triple_bind [OF triple_update_outbox triple_ret])
  fix d assume d: "store_ok U g d"
  let ?f = "\<lambda>r. r\<lparr>ob_delivered := True\<rparr>" and ?R = "\<lambda>k r. k = it \<and> \<not> ob_delivered r"
  let ?d = "d\<lparr>db_outbox := upd_rows ?R ?f (db_outbox d)\<rparr>"
  have same: "map (dedup_of \<circ> snd) (upd_rows ?R ?f t) = map (dedup_of \<circ> snd) t" for t
    by (induction t) (auto simp: upd_rows_def dedup_of_def)
  have older: "\<exists>r'. (i, r') \<in> set (db_outbox d) \<and> dedup_of r' = dedup_of r" if "(i, r) \<in> set (db_outbox ?d)" for i r
    using that by (auto simp: upd_rows_mem dedup_of_def)
  have ob: "outbox_ok (g_out g) d" using d by (simp add: store_ok_def)
  have "outbox_ok (g_out g) ?d" unfolding outbox_ok_def
  proof (intro conjI ballI allI impI)
    show "distinct (map (dedup_of \<circ> snd) (db_outbox ?d))" using ob same by (simp add: outbox_ok_def)
    show "case x of (i, r) \<Rightarrow> \<exists>c. (ob_cont r, c) \<in> set (db_conts ?d) \<and> ob_seq r \<le> ct_seq c" if "x \<in> set (db_outbox ?d)" for x
    proof (cases x)
      case (Pair i r)
      with that older obtain r' where "(i, r') \<in> set (db_outbox d)" "dedup_of r' = dedup_of r" by blast
      with ob obtain c where "(ob_cont r', c) \<in> set (db_conts d)" "ob_seq r' \<le> ct_seq c" by (auto simp: outbox_ok_def)
      with \<open>dedup_of r' = dedup_of r\<close> Pair show ?thesis by (auto simp: dedup_of_def)
    qed
    fix k s n assume p: "g_out g = Some (k, s, n)"
    with ob show "\<exists>c. (k, c) \<in> set (db_conts ?d) \<and> ct_seq c = s" by (simp add: outbox_ok_def)
    show "case x of (i, r) \<Rightarrow> ob_cont r = k \<and> ob_seq r = s \<longrightarrow> ob_ordinal r < n" if "x \<in> set (db_outbox ?d)" for x
    proof (cases x)
      case (Pair i r)
      with that older obtain r' where "(i, r') \<in> set (db_outbox d)" "dedup_of r' = dedup_of r" by blast
      moreover from this ob p have "ob_cont r' = k \<and> ob_seq r' = s \<longrightarrow> ob_ordinal r' < n" by (auto simp: outbox_ok_def)
      ultimately show ?thesis using Pair by (auto simp: dedup_of_def)
    qed
  qed
  with d show "store_ok U g ?d" by (simp add: store_ok_def)
qed

lemma deliver_task_ok:
  assumes "store_ok U (calm F T) d" "(i, t) \<in> set (db_tasks d)" "tk_pay t = PayDeliver it dd"
  shows "store_ok U (calm F T) (fst (deliver_task sink i it attempts (d, w)))"
proof -
  let ?d = "snd (commit (mark_delivered it) d)"
  have m: "store_ok U (calm F T) ?d" using commit_keeps [OF mark_delivered_ok assms(1)] .
  have "(i, t) \<in> set (db_tasks ?d)" using assms(2)
    by (simp add: commit_def mark_delivered_def update_outbox_def tx_bind_def tx_seq_def tx_get_def tx_put_def tx_ret_def)
  then show ?thesis using finish_other_ok [OF assms] finish_other_ok [OF m _ assms(3)]
    by (auto simp: deliver_task_def Let_def split: option.split bool.split prod.split)
qed

lemma resolve_fenced_ok:
  assumes "draws U E" "store_ok U (calm F T) d"
  shows "store_ok U (calm F T) (snd (resolve_fenced E gl say say_cfr f cond name h args by_who caps d))"
proof -
  let ?E = "E\<lparr>en_epoch := 0, en_lease := 30\<rparr>" and ?d = "snd (commit (pick_restart E cond name args by_who caps) d)"
  have E: "draws U ?E" using assms(1) by (simp add: draws_def)
  have p: "store_ok U (calm F T) ?d" using commit_keeps [OF pick_restart_ok [OF assms(1)] assms(2)] .
  have "tx_triple (store_ok U (calm F T)) (claim_and_resume E gl say say_cfr f k seen) (\<lambda>_. store_ok U (calm F T))" for k seen
    unfolding claim_and_resume_def by (rule triple_post [OF claim_and_step_ok [OF E]]) (auto dest: after_claim_calm)
  then have two: "store_ok U (calm F T) (snd (commit (claim_and_resume E gl say say_cfr f k seen) ?d))" for k seen
    using p by (rule commit_keeps)
  show ?thesis
  proof (cases "commit (pick_restart E cond name args by_who caps) d")
    case (Pair r d')
    with p two assms(2) show ?thesis by (auto simp: resolve_fenced_def split: option.split sum.split)
  qed
qed

subsection \<open>Every step keeps the invariant\<close>

lemma step_keeps: "db_step U d d' \<Longrightarrow> store_ok U (calm F T) d \<Longrightarrow> store_ok U (calm F T) d'"
proof (induction rule: db_step.induct)
  case start then show ?case using commit_keeps [OF start_workflow_ok] by blast
next
  case request then show ?case using commit_keeps [OF park_request_ok] by blast
next
  case pick then show ?case using commit_keeps [OF pick_restart_ok] by blast
next
  case fenced then show ?case by (rule resolve_fenced_ok)
next
  case send then show ?case using commit_keeps [OF send_channel_ok] by blast
next
  case event then show ?case using commit_keeps [OF wake_events_ok] by blast
next
  case (step E d gl say say_cfr run mk k seen)
  have "tx_triple (store_ok U (calm F T)) (claim_and_step E gl say say_cfr run mk k seen) (\<lambda>_. store_ok U (calm F T))"
    by (rule triple_post [OF claim_and_step_ok [OF step(1)]]) (auto dest: after_claim_calm)
  then show ?case using step(2) by (rule commit_keeps)
next
  case task then show ?case by (intro run_task_ok)
next
  case timer then show ?case using commit_keeps [OF timer_once_ok] by blast
next
  case claim then show ?case using commit_keeps [OF claim_tasks_ok] by blast
next
  case heartbeat then show ?case using commit_keeps [OF heartbeat_once_ok] by blast
next
  case reap then show ?case using commit_keeps [OF reaper_once_ok] by blast
next
  case deliver then show ?case by (intro deliver_task_ok)
next
  case cron then show ?case using commit_keeps [OF claim_due_cron_ok] by blast
next
  case (outside d gs e)
  then show ?case by (simp add: store_ok_def keys_ok_def used_keys_def claims_ok_def runs_ok_def outbox_ok_def wakes_ok_def
    live_task_def stuck_open_def floor_ok_def tasks_at_def)
qed

lemma steps_keep: "(db_step U)\<^sup>*\<^sup>* d d' \<Longrightarrow> store_ok U (calm F T) d \<Longrightarrow> store_ok U (calm F T) d'"
  by (induction rule: rtranclp_induct) (auto intro: step_keeps)

lemma reachable_ok: "reachable U d \<Longrightarrow> store_ok U (calm {} {}) d"
proof -
  have "store_ok U (calm {} {}) db_init"
    by (simp add: db_init_def store_ok_def keys_ok_def used_keys_def claims_ok_def runs_ok_def outbox_ok_def wakes_ok_def
      floor_ok_def tasks_at_def)
  then show "reachable U d \<Longrightarrow> store_ok U (calm {} {}) d" unfolding reachable_def by (rule steps_keep [rotated])
qed

end
