(* ===== verification/Kernel_Samples.thy ===== *)
theory Kernel_Samples
  imports Kernel_System Cek_Samples
begin

section \<open>A store to evaluate on\<close>

text \<open>One workflow started and stepped once, with interpreters that answer a fixed outcome.\<close>

definition ex_uuid :: "nat \<Rightarrow> uid" where
  "ex_uuid n = replicate (Suc n) CHR ''u''"

lemma ex_uuid_inj: "inj ex_uuid"
  by (rule injI) (simp add: ex_uuid_def)

definition ex_env :: env where
  "ex_env = \<lparr>en_kernel = ''k1'', en_epoch = 1, en_lease = 30, en_now = 1000, en_uuid = ex_uuid\<rparr>"

lemma ex_draws: "draws ex_uuid ex_env"
  by (simp add: draws_def ex_uuid_inj ex_env_def)

definition ex_state :: "park_kind \<Rightarrow> val \<Rightarrow> state" where
  "ex_state pk v = \<lparr>s_def = ''f'', s_path = [], s_mode = ModeApply, s_val = v, s_sig = (SigThrow, VUndef),
     s_env = None, s_kont = [], s_tier = TierTrusted, s_fuel_steps = 0, s_fuel_alloc = 0, s_park = pk,
     s_heap = empty_heap\<rparr>"

definition ex_principal :: principal_row where
  "ex_principal = \<lparr>pr_subject = ''alice'', pr_operator = False, pr_parent = [], pr_ordinal = 0\<rparr>"

text \<open>The workflow's register holds a capability token of the given name.\<close>

definition ex_started :: "string \<Rightarrow> db" where
  "ex_started cap = snd (commit (start_workflow ex_env ''f'' (Inr (ex_state ParkFresh (VCap cap))) ex_principal) db_init)"

definition ex_effects :: "effect list" where
  "ex_effects = [\<lparr>ef_class = ''email.send'', ef_payload = [], ef_val = VUndef\<rparr>,
     \<lparr>ef_class = ''channel.send'', ef_payload = [(''channel'', AnyStr ''inbox'')], ef_val = VUndef\<rparr>]"

definition ex_done :: runner where
  "ex_done st dl p = ([], (zero_outcome OutDone)\<lparr>o_effects := ex_effects\<rparr>)"

definition ex_signal :: runner where
  "ex_signal st dl p = ([], (zero_outcome OutParked)\<lparr>o_state := Some st, o_effects := ex_effects,
     o_cond := Some \<lparr>cn_class = ''approval'', cn_payload = [], cn_restarts = []\<rparr>\<rparr>)"

definition ex_receive :: runner where
  "ex_receive st dl p = ([], (zero_outcome OutParked)\<lparr>o_state := Some (st\<lparr>s_park := ParkWake\<rparr>),
     o_wake := Some ((zero_wake WakeMessage)\<lparr>wk_channel := ''inbox''\<rparr>)\<rparr>)"

definition ex_claim :: "runner \<Rightarrow> int \<Rightarrow> step_report tx" where
  "ex_claim run seen = claim_and_step ex_env golib_amd64 (\<lambda>_. ''machine'') (\<lambda>_. ''codec'') run None ''u'' seen"

definition ex_step :: "runner \<Rightarrow> int \<Rightarrow> db \<Rightarrow> db" where
  "ex_step run seen d = snd (commit (ex_claim run seen) d)"

definition ex_send :: "db \<Rightarrow> db" where
  "ex_send d = snd (commit (send_channel ex_env ''inbox'' [] (VStr ''hello'') ''bob'') d)"

lemma ex_started_reachable: "reachable ex_uuid (ex_started cap)"
proof (rule reachable_step)
  show "reachable ex_uuid db_init" by (simp add: reachable_def)
  show "db_step ex_uuid db_init (ex_started cap)" unfolding ex_started_def by (rule start [OF ex_draws])
qed

lemma ex_step_db_step: "db_step ex_uuid d (ex_step run seen d)"
  unfolding ex_step_def ex_claim_def by (rule step [OF ex_draws])

lemma ex_step_reachable: "reachable ex_uuid d \<Longrightarrow> reachable ex_uuid (ex_step run seen d)"
  by (erule reachable_step) (rule ex_step_db_step)

lemma ex_send_reachable: "reachable ex_uuid d \<Longrightarrow> reachable ex_uuid (ex_send d)"
  by (erule reachable_step) (simp add: ex_send_def send [OF ex_draws])

end
