(* ===== verification/Kernel_Theorems.thy ===== *)
theory Kernel_Theorems
  imports Cfr_Invariant Kernel_Samples
begin

section \<open>What the store promises\<close>

text \<open>
  The invariant read off at the reachable stores, the claim and the capability fence at a single step,
  and the places where the store does something else than its comments say.
\<close>

text \<open>C12: the deduplication key of an outbox row, the continuation, its step and the ordinal of the
  effect, is unique in every reachable store, whatever steps ran, failed, lost their claim or were
  tried again.\<close>

theorem outbox_keys_unique:
  assumes "reachable U d"
  shows "distinct (map (dedup_of \<circ> snd) (db_outbox d))"
  using reachable_ok [OF assms] by (simp add: store_ok_def outbox_ok_def)

lemma outbox_keys_unique_witness:
  "distinct (map (dedup_of \<circ> snd) (db_outbox (ex_step ex_done 0 (ex_started ''db'')))) \<and>
   length (db_outbox (ex_step ex_done 0 (ex_started []))) = 2"
proof
  show "distinct (map (dedup_of \<circ> snd) (db_outbox (ex_step ex_done 0 (ex_started ''db''))))"
    by (rule outbox_keys_unique [OF ex_step_reachable [OF ex_started_reachable]])
  show "length (db_outbox (ex_step ex_done 0 (ex_started []))) = 2" by code_simp
qed

text \<open>C15: a message is delivered to one continuation only.  In every reachable store the message a
  wake names exists, is claimed by that continuation, and no other continuation names it.\<close>

theorem message_pinned_once:
  assumes "reachable U d" "(k, c) \<in> set (db_conts d)" "wr_message (ct_wake c) \<noteq> []"
  shows "(\<exists>m. (wr_message (ct_wake c), m) \<in> set (db_messages d) \<and> mg_claimed m = Some k) \<and>
    {i. \<exists>c'. (i, c') \<in> set (db_conts d) \<and> wr_message (ct_wake c') = wr_message (ct_wake c)} = {k}"
proof
  have s: "keys_ok U {} d" "claims_ok d" using reachable_ok [OF assms(1)] by (simp_all add: store_ok_def)
  have claim: "\<exists>m. (wr_message (ct_wake c'), m) \<in> set (db_messages d) \<and> mg_claimed m = Some i"
    if "(i, c') \<in> set (db_conts d)" "wr_message (ct_wake c') \<noteq> []" for i c'
    using that s(2) by (auto simp: claims_ok_def)
  show "\<exists>m. (wr_message (ct_wake c), m) \<in> set (db_messages d) \<and> mg_claimed m = Some k" using claim [OF assms(2,3)] .
  then obtain m where m: "(wr_message (ct_wake c), m) \<in> set (db_messages d)" "mg_claimed m = Some k" by blast
  have "i = k" if i: "(i, c') \<in> set (db_conts d)" "wr_message (ct_wake c') = wr_message (ct_wake c)" for i c'
  proof -
    obtain m' where "(wr_message (ct_wake c), m') \<in> set (db_messages d)" "mg_claimed m' = Some i"
      using claim [OF i(1)] i(2) assms(3) by auto
    with m s(1) show ?thesis unfolding keys_ok_def by (metis map_of_is_SomeI option.inject)
  qed
  with assms(2) show "{i. \<exists>c'. (i, c') \<in> set (db_conts d) \<and> wr_message (ct_wake c') = wr_message (ct_wake c)} = {k}" by blast
qed

lemma message_pinned_once_witness:
  "\<exists>c. map_of (db_conts (ex_send (ex_step ex_receive 0 (ex_started [])))) ''u'' = Some c \<and>
     wr_message (ct_wake c) = ex_uuid 2 \<and>
     {i. \<exists>c'. (i, c') \<in> set (db_conts (ex_send (ex_step ex_receive 0 (ex_started [])))) \<and>
       wr_message (ct_wake c') = wr_message (ct_wake c)} = {''u''}"
proof -
  let ?d = "ex_send (ex_step ex_receive 0 (ex_started []))"
  have "map_option (wr_message \<circ> ct_wake) (map_of (db_conts ?d) ''u'') = Some (ex_uuid 2)" by code_simp
  then obtain c where c: "map_of (db_conts ?d) ''u'' = Some c" "wr_message (ct_wake c) = ex_uuid 2" by auto
  have "reachable ex_uuid ?d" by (intro ex_send_reachable ex_step_reachable ex_started_reachable)
  from message_pinned_once [OF this map_of_SomeD [OF c(1)]] c show ?thesis by (simp add: ex_uuid_def)
qed



lemma claim_lost:
  assumes "distinct (map fst (db_conts d))" "spent k seen d"
  shows "(\<exists>a b. commit (claim_and_step E gl say say_cfr run mk k seen) d = (Inl (ErrFence a b), d)) \<or>
    commit (claim_and_step E gl say say_cfr run mk k seen) d = (Inr \<lparr>sp_claimed = False, sp_out = None, sp_err = None\<rparr>, d)"
proof -
  let ?R = "\<lambda>i r. i = k \<and> ct_status r = Ready \<and> ct_seq r = seen"
  have none: "\<And>i r. (i, r) \<in> set (db_conts d) \<Longrightarrow> \<not> ?R i r" using assms(2) by (auto simp: spent_def)
  then have "matching ?R (db_conts d) = 0" by (auto simp: matching_def filter_empty_conv)
  moreover have "upd_rows ?R f (db_conts d) = db_conts d" for f by (rule upd_rows_none) (use none in blast)
  ultimately have c: "claim_row E k seen d = Inr (0, d)"
    by (simp add: claim_row_def update_conts_def tx_bind_def tx_seq_def tx_get_def tx_put_def tx_ret_def)
  have e: "check_epoch E d = Inr ((), d) \<or> (\<exists>a b. check_epoch E d = Inl (ErrFence a b))"
    by (auto simp: check_epoch_def tx_bind_def tx_get_def tx_ret_def tx_fail_def split: option.split)
  then show ?thesis using c
    by (auto simp: claim_and_step_def commit_def tx_bind_def tx_seq_def tx_ret_def)
qed

text \<open>C13: a step of a continuation is claimed at most once.  After a claim of the pair of continuation
  and sequence number has committed, no later claim of the same pair wins, whatever the store does in
  between and whichever kernel asks; it meets the epoch fence or reports that it lost, and changes
  nothing.\<close>

theorem claimed_once:
  assumes "draws U E" "reachable U d" "(db_step U)\<^sup>*\<^sup>* d1 d2"
    and "commit (claim_and_step E gl say say_cfr run mk k seen) d = (Inr rep, d1)" "sp_claimed rep"
  shows "(\<exists>a b. commit (claim_and_step E' gl' say' say_cfr' run' mk' k seen) d2 = (Inl (ErrFence a b), d2)) \<or>
    commit (claim_and_step E' gl' say' say_cfr' run' mk' k seen) d2 =
      (Inr \<lparr>sp_claimed = False, sp_out = None, sp_err = None\<rparr>, d2)"
proof (rule claim_lost)
  have "tx_triple (store_ok U (calm {} {})) (claim_and_step E gl say say_cfr run mk k seen) (after_claim U (calm {} {}) k seen)"
    by (rule claim_and_step_ok [OF assms(1)]) simp
  from commit_ok [OF this reachable_ok [OF assms(2)]] assms(4) have "after_claim U (calm {} {}) k seen rep d1" by simp
  then obtain n where "store_ok U ((calm {(k, seen + 1)} {})\<lparr>g_out := n\<rparr>) d1"
    using assms(5) by (auto simp: after_claim_def stepped_def)
  then have "store_ok U (calm {(k, seen + 1)} {}) d1" by (rule store_ok_weaker) (simp add: weaker_def)
  then have d2: "store_ok U (calm {(k, seen + 1)} {}) d2" by (rule steps_keep [OF assms(3)])
  then show "distinct (map fst (db_conts d2))" by (simp add: store_ok_def keys_ok_def)
  from d2 obtain c where c: "(k, c) \<in> set (db_conts d2)" "seen + 1 \<le> ct_seq c" by (auto simp: store_ok_def floor_ok_def)
  have "ct_seq c' \<noteq> seen" if "(k, c') \<in> set (db_conts d2)" for c'
    using row_unique [of U "{}" d2, OF _ that c(1)] d2 c(2) by (simp add: store_ok_def)
  then show "spent k seen d2" by (auto simp: spent_def)
qed

lemma claimed_once_witness:
  "\<exists>rep. commit (ex_claim ex_done 0) (ex_started []) = (Inr rep, ex_step ex_done 0 (ex_started [])) \<and> sp_claimed rep \<and>
     ((\<exists>a b. commit (ex_claim ex_receive 0) (ex_send (ex_step ex_done 0 (ex_started []))) =
        (Inl (ErrFence a b), ex_send (ex_step ex_done 0 (ex_started [])))) \<or>
      commit (ex_claim ex_receive 0) (ex_send (ex_step ex_done 0 (ex_started []))) =
        (Inr \<lparr>sp_claimed = False, sp_out = None, sp_err = None\<rparr>, ex_send (ex_step ex_done 0 (ex_started []))))"
proof -
  have "case fst (commit (ex_claim ex_done 0) (ex_started [])) of Inl e \<Rightarrow> False | Inr rep \<Rightarrow> sp_claimed rep" by code_simp
  then obtain rep where rep: "fst (commit (ex_claim ex_done 0) (ex_started [])) = Inr rep" "sp_claimed rep"
    by (auto split: sum.splits)
  then have c: "commit (ex_claim ex_done 0) (ex_started []) = (Inr rep, ex_step ex_done 0 (ex_started []))"
    by (simp add: ex_step_def prod_eq_iff)
  have s: "(db_step ex_uuid)\<^sup>*\<^sup>* (ex_step ex_done 0 (ex_started [])) (ex_send (ex_step ex_done 0 (ex_started [])))"
    unfolding ex_send_def by (rule r_into_rtranclp, rule send, rule ex_draws)
  from claimed_once [OF ex_draws ex_started_reachable s c [unfolded ex_claim_def] rep(2)] c rep(2)
  show ?thesis unfolding ex_claim_def by blast
qed

lemma first_revoked_found:
  assumes "v \<in> set (walk_values st)" "cap_token v = Some c" "c \<noteq> []" "\<not> p_grants p c"
  shows "first_revoked st p \<noteq> []"
proof -
  let ?f = "\<lambda>bad v. if bad \<noteq> [] then bad
     else case cap_token v of Some c \<Rightarrow> if p_grants p c then bad else c | None \<Rightarrow> bad"
  obtain xs ys where w: "walk_values st = xs @ v # ys" using assms(1) by (meson split_list)
  have keep: "foldl ?f bad zs = bad" if "bad \<noteq> []" for bad zs
    using that by (induction zs) simp_all
  have bad: "?f (foldl ?f [] xs) v \<noteq> []" using assms(2-4) by simp
  have "foldl ?f [] (xs @ v # ys) = foldl ?f (?f (foldl ?f [] xs) v) ys" by (simp only: foldl_append foldl_Cons)
  also have "\<dots> = ?f (foldl ?f [] xs) v" by (rule keep [OF bad])
  finally have "first_revoked st p = ?f (foldl ?f [] xs) v" unfolding first_revoked_def w .
  with bad show ?thesis by (rule ssubst [rotated])
qed

lemma map_of_upd_rows: "map_of (upd_rows R f t) k = map_option (\<lambda>r. if R k r then f r else r) (map_of t k)"
  by (induction t) (auto simp: upd_rows_def)

lemma claim_row_eq:
  "claim_row E k seen d = Inr (matching (\<lambda>i r. i = k \<and> ct_status r = Ready \<and> ct_seq r = seen) (db_conts d),
     d\<lparr>db_conts := upd_rows (\<lambda>i r. i = k \<and> ct_status r = Ready \<and> ct_seq r = seen)
       (\<lambda>r. r\<lparr>ct_status := Running, ct_owner := Some (en_kernel E), ct_lease := en_now E + 1000000 * lease_secs E,
         ct_seq := ct_seq r + 1, ct_updated := en_now E\<rparr>) (db_conts d)\<rparr>)"
  by (simp add: claim_row_def update_conts_def tx_bind_def tx_seq_def tx_get_def tx_put_def tx_ret_def)

text \<open>Rows a transaction does not touch.\<close>

definition sends_none :: "db \<Rightarrow> db \<Rightarrow> bool" where
  "sends_none d d' \<longleftrightarrow> db_outbox d' = db_outbox d \<and> db_messages d' = db_messages d \<and> db_tasks d' = db_tasks d"

lemma sends_none_frame [simp]:
  "sends_none d0 (d\<lparr>db_conts := x1\<rparr>) = sends_none d0 d" "sends_none d0 (d\<lparr>db_conds := x2\<rparr>) = sends_none d0 d"
  "sends_none d0 (d\<lparr>db_restarts := x3\<rparr>) = sends_none d0 d" "sends_none d0 (d\<lparr>db_drawn := x4\<rparr>) = sends_none d0 d"
  by (simp_all add: sends_none_def)

lemma sends_none_update_conts: "tx_triple (sends_none d0) (update_conts R f) (\<lambda>_. sends_none d0)"
  by (rule triple_update_conts) simp

lemma sends_none_update_running: "tx_triple (sends_none d0) (update_running E k f) (\<lambda>_. sends_none d0)"
  unfolding update_running_def by (rule triple_bind [OF sends_none_update_conts]) (auto intro: triple_fail triple_ret)

lemma sends_none_uuid4: "tx_triple (sends_none d0) (uuid4 E) (\<lambda>_. sends_none d0)"
  unfolding uuid4_def by (rule triple_get_any, rule triple_seq [OF triple_put triple_ret]) simp_all

lemma sends_none_open_condition: "tx_triple (sends_none d0) (open_condition E cond k cl pl rs) (\<lambda>_. sends_none d0)"
  unfolding open_condition_def insert_cond_def insert_restarts_def insert_restart_def
  by (rule triple_if [OF triple_fail triple_seq [OF triple_put triple_each [OF triple_bind [OF sends_none_uuid4 triple_put]]]])
    simp_all

lemma sends_none_step_failed: "tx_triple (sends_none d0) (step_failed_condition E k msg) (\<lambda>_. sends_none d0)"
  unfolding step_failed_condition_def
  by (rule triple_bind [OF sends_none_uuid4 triple_if [OF triple_fail sends_none_open_condition]])

lemma sends_none_revoked: "tx_triple (sends_none d0) (park_capability_revoked E k cap) (\<lambda>_. sends_none d0)"
  unfolding park_capability_revoked_def
  by (rule triple_bind [OF sends_none_uuid4 triple_seq [OF sends_none_update_running triple_if [OF triple_fail sends_none_open_condition]]])

lemma sends_none_commit: "tx_triple (sends_none d) m (\<lambda>_. sends_none d) \<Longrightarrow> sends_none d (snd (commit m d))"
  by (erule commit_keeps) (simp add: sends_none_def)

text \<open>A step either loses its claim or goes on with the row it updated.\<close>

lemma check_epoch_cases:
  obtains (fence) a b where "check_epoch E d = Inl (ErrFence a b)" | (pass) "check_epoch E d = Inr ((), d)"
proof (cases "en_epoch E = 0")
  case True
  with pass show ?thesis by (simp add: check_epoch_def tx_ret_def)
next
  case False
  have "check_epoch E d = (case db_epoch d of None \<Rightarrow> Inr ((), d)
      | Some n \<Rightarrow> if n \<noteq> en_epoch E then Inl (ErrFence n (en_epoch E)) else Inr ((), d))"
    using False by (auto simp: check_epoch_def tx_bind_def tx_get_def tx_ret_def tx_fail_def split: option.split)
  with fence pass show ?thesis by (cases "db_epoch d"; cases "the (db_epoch d) = en_epoch E") auto
qed

lemma claim_and_step_at:
  assumes "distinct (map fst (db_conts d))" "map_of (db_conts d) k = Some row" "decode_state (ct_frames row) = Inr st"
  obtains (lost) r where "\<And>gl say say_cfr run mk. commit (claim_and_step E gl say say_cfr run mk k seen) d = (r, d)"
  | (won) row' d' where "db_grants d' = db_grants d" "sends_none d d'" "ct_principal row' = ct_principal row"
      "ct_wake row' = ct_wake row"
      "\<And>gl say say_cfr run mk. commit (claim_and_step E gl say say_cfr run mk k seen) d =
         (case step_state E gl say run mk k (seen + 1) row' st d' of Inl e \<Rightarrow> (Inl e, d) | Inr (x, d'') \<Rightarrow> (Inr x, d''))"
proof (cases rule: check_epoch_cases [of E d])
  case (fence a b)
  then have "commit (claim_and_step E gl say say_cfr run mk k seen) d = (Inl (ErrFence a b), d)" for gl say say_cfr run mk
    by (simp add: claim_and_step_def tx_seq_def tx_bind_def commit_def)
  then show ?thesis by (rule lost)
next
  case pass
  let ?R = "\<lambda>i r. i = k \<and> ct_status r = Ready \<and> ct_seq r = seen"
  let ?f = "\<lambda>r. r\<lparr>ct_status := Running, ct_owner := Some (en_kernel E), ct_lease := en_now E + 1000000 * lease_secs E,
         ct_seq := ct_seq r + 1, ct_updated := en_now E\<rparr>"
  let ?d = "d\<lparr>db_conts := upd_rows ?R ?f (db_conts d)\<rparr>" and ?row = "if ?R k row then ?f row else row"
  have c: "claim_row E k seen d = Inr (matching ?R (db_conts d), ?d)" by (rule claim_row_eq)
  show ?thesis
  proof (cases "matching ?R (db_conts d) = 1")
    case True
    define row' where "row' = ?row"
    define d' where "d' = ?d"
    have m: "map_of (db_conts d') k = Some row'" using assms(2) by (simp add: map_of_upd_rows d'_def row'_def)
    have fr: "ct_frames row' = ct_frames row" "ct_principal row' = ct_principal row" "ct_wake row' = ct_wake row"
      by (simp_all add: row'_def)
    have same: "db_grants d' = db_grants d" "sends_none d d'" by (simp_all add: d'_def sends_none_def)
    have c': "claim_row E k seen d = Inr (1, d')" using c True by (simp add: d'_def)
    have "claim_and_step E gl say say_cfr run mk k seen d = step_state E gl say run mk k (seen + 1) row' st d'" for gl say say_cfr run mk
      using pass c' m fr(1) assms(3) by (simp add: claim_and_step_def tx_seq_def tx_bind_def find_cont_def tx_get_def)
    then have "commit (claim_and_step E gl say say_cfr run mk k seen) d =
         (case step_state E gl say run mk k (seen + 1) row' st d' of Inl e \<Rightarrow> (Inl e, d) | Inr (x, d'') \<Rightarrow> (Inr x, d''))"
      for gl say say_cfr run mk by (simp only: commit_def)
    then show ?thesis by (rule won [OF same fr(2,3)])
  next
    case False
    then have "?d = d" using upd_rows_same [OF assms(1) False] by simp
    then have "commit (claim_and_step E gl say say_cfr run mk k seen) d = (Inr \<lparr>sp_claimed = False, sp_out = None, sp_err = None\<rparr>, d)"
      for gl say say_cfr run mk
      using pass c False by (simp add: claim_and_step_def tx_seq_def tx_bind_def commit_def tx_ret_def)
    then show ?thesis by (rule lost)
  qed
qed

text \<open>C16: a kernel whose grants were revoked runs nothing.  When the state of the claimed row holds a
  capability token with a name that its principal is not granted, anywhere the walk reaches, the step
  ends the same whatever the interpreter would have done, and neither the outbox nor a message nor a
  task is written.\<close>

theorem revoked_runs_nothing:
  assumes "reachable U d" "map_of (db_conts d) k = Some row" "decode_state (ct_frames row) = Inr st"
    and "v \<in> set (walk_values st)" "cap_token v = Some c" "c \<noteq> []" "\<not> p_grants (load_principal E (ct_principal row) d) c"
  shows "commit (claim_and_step E gl say say_cfr run mk k seen) d = commit (claim_and_step E gl' say' say_cfr' run' mk' k seen) d \<and>
    sends_none d (snd (commit (claim_and_step E gl say say_cfr run mk k seen) d))"
proof -
  have dd: "distinct (map fst (db_conts d))" using reachable_ok [OF assms(1)] by (simp add: store_ok_def keys_ok_def)
  from dd assms(2,3) show ?thesis
  proof (cases rule: claim_and_step_at [where E = E and seen = seen])
    case (lost r)
    then show ?thesis by (simp add: sends_none_def)
  next
    case (won row' d')
    let ?p = "load_principal E (ct_principal row') d'"
    have p: "?p = load_principal E (ct_principal row) d" using won(1,3) by (simp add: load_principal_def)
    have bad: "first_revoked st ?p \<noteq> []" unfolding p by (rule first_revoked_found [OF assms(4-7)])
    have step: "step_state E gl say run mk k (seen + 1) row' st d' =
       tx_seq (park_capability_revoked E k (first_revoked st ?p)) (tx_seq (check_epoch E)
       (tx_ret \<lparr>sp_claimed = True,
          sp_out = Some ((zero_outcome OutParked)\<lparr>o_cond := Some \<lparr>cn_class = ''capability.revoked'', cn_payload = [],
            cn_restarts = []\<rparr>\<rparr>),
          sp_err = None\<rparr>)) d'" for gl say run mk
      unfolding step_state_def Let_def tx_bind_def tx_get_def sum.case prod.case if_P [OF bad] ..
    have t: "tx_triple (sends_none d) (tx_seq (park_capability_revoked E k (first_revoked st ?p)) (tx_seq (check_epoch E)
       (tx_ret rep))) (\<lambda>_. sends_none d)" for rep
      by (rule triple_seq [OF sends_none_revoked triple_seq [OF check_epoch_ok triple_ret]])
    show ?thesis unfolding won(5) step
      by (auto simp: sends_none_def [of d d] split: sum.split intro: tripleD [OF t won(2)])
  qed
qed

lemma revoked_runs_nothing_witness:
  "commit (ex_claim ex_done 0) (ex_started ''db'') = commit (ex_claim ex_receive 0) (ex_started ''db'') \<and>
   db_outbox (ex_step ex_done 0 (ex_started ''db'')) = [] \<and>
   map (ct_status \<circ> snd) (db_conts (ex_step ex_done 0 (ex_started ''db''))) = [InCondition]"
proof -
  let ?d = "ex_started ''db''"
  have "case map_of (db_conts ?d) ''u'' of None \<Rightarrow> False
    | Some row \<Rightarrow> (case decode_state (ct_frames row) of Inl e \<Rightarrow> False | Inr st \<Rightarrow> VCap ''db'' \<in> set (walk_values st) \<and>
        \<not> p_grants (load_principal ex_env (ct_principal row) ?d) ''db'')" by code_simp
  then obtain row st where row: "map_of (db_conts ?d) ''u'' = Some row" "decode_state (ct_frames row) = Inr st"
      "VCap ''db'' \<in> set (walk_values st)" "\<not> p_grants (load_principal ex_env (ct_principal row) ?d) ''db''"
    by (auto split: option.splits sum.splits)
  have "cap_token (VCap ''db'') = Some ''db''" "(''db'' :: string) \<noteq> []" by (simp_all add: cap_token_def)
  from revoked_runs_nothing [OF ex_started_reachable row(1-3) this row(4)]
  have n: "commit (ex_claim ex_done 0) ?d = commit (ex_claim ex_receive 0) ?d" "sends_none ?d (ex_step ex_done 0 ?d)"
    unfolding ex_claim_def ex_step_def by blast+
  have "db_outbox ?d = []" by code_simp
  moreover have "map (ct_status \<circ> snd) (db_conts (ex_step ex_done 0 ?d)) = [InCondition]" by code_simp
  ultimately show ?thesis
    using n unfolding sends_none_def by metis
qed


lemma sends_none_park_condition: "tx_triple (sends_none d) (park_condition E q) (\<lambda>_. sends_none d)"
  unfolding park_condition_def
proof (rule triple_bind [OF state_of_ok triple_bind [OF sends_none_uuid4 triple_seq [OF sends_none_update_running]]])
  fix c show "tx_triple (sends_none d) (case o_cond (or_out q) of None \<Rightarrow> tx_fail ErrPanic
    | Some c' \<Rightarrow> if \<not> marshals (cn_payload c') then tx_fail ErrJson
        else open_condition E c (or_cont q) (cn_class c') (cn_payload c') (cn_restarts c')) (\<lambda>_. sends_none d)"
    by (auto intro: triple_fail sends_none_open_condition split: option.split)
qed

lemma sends_none_step_state:
  assumes "\<And>st dl p. o_kind (snd (run st dl p)) = OutParked \<and> o_wake (snd (run st dl p)) = None"
  shows "tx_triple (sends_none d) (step_state E gl say run mk k sq row st) (\<lambda>_. sends_none d)"
  unfolding step_state_def Let_def
proof (rule triple_get_any, rule triple_if)
  let ?P = "sends_none d"
  fix p
  show "tx_triple ?P (tx_seq (park_capability_revoked E k (first_revoked st p)) (tx_seq (check_epoch E) (tx_ret rep))) (\<lambda>_. ?P)" for rep
    by (rule triple_seq [OF sends_none_revoked triple_seq [OF check_epoch_ok triple_ret]])
  have dl: "tx_triple ?P (tx_bind (tx_get (build_delivery st (ct_wake row) k)) tx_try) (\<lambda>_. ?P)"
    by (rule triple_get_any, rule triple_try)
  show "tx_triple ?P (tx_bind (tx_bind (tx_get (build_delivery st (ct_wake row) k)) tx_try) (\<lambda>(dl, st').
     case run st' dl p of (obs, out) \<Rightarrow>
     tx_seq (park_outcome E gl say \<lparr>or_cont = k, or_seq = sq, or_principal = ct_principal row,
       or_child = mk, or_heap = obs, or_out = out\<rparr>)
     (tx_seq (check_epoch E)
     (tx_ret \<lparr>sp_claimed = True, sp_out = Some out, sp_err = None\<rparr>)))) (\<lambda>_. ?P)"
  proof (rule triple_bind [OF dl], clarsimp split: prod.split)
    fix dl st' obs out assume r: "run st' dl p = (obs, out)"
    have "park_outcome E gl say q = park_condition E q" if "or_out q = out" for q
      using that assms [of st' dl p] r by (simp add: park_outcome_def)
    then show "tx_triple ?P (tx_seq (park_outcome E gl say \<lparr>or_cont = k, or_seq = sq, or_principal = ct_principal row,
       or_child = mk, or_heap = obs, or_out = out\<rparr>) (tx_seq (check_epoch E)
       (tx_ret \<lparr>sp_claimed = True, sp_out = Some out, sp_err = None\<rparr>))) (\<lambda>_. ?P)"
      by (simp, intro triple_seq [OF sends_none_park_condition triple_seq [OF check_epoch_ok triple_ret]])
  qed
qed

lemma sends_none_failed: "tx_triple (sends_none d) (tx_seq (record_failed_running E k msg) (tx_ret rep)) (\<lambda>_. sends_none d)"
  unfolding record_failed_running_def
  by (rule triple_seq [OF triple_seq [OF sends_none_update_running sends_none_step_failed] triple_ret])

text \<open>C30: a signal loses the effects recorded before it.  Whatever effects the outcome carries, a step
  that parks on a condition writes no outbox row, message or task, and the checkpoint of the state does
  not hold them either: they are gone when the machine is resumed.\<close>

theorem signal_drops_effects:
  assumes "\<And>st dl p. o_kind (snd (run st dl p)) = OutParked \<and> o_wake (snd (run st dl p)) = None"
  shows "sends_none d (snd (commit (claim_and_step E gl say say_cfr run mk k seen) d))"
proof (rule sends_none_commit)
  show "tx_triple (sends_none d) (claim_and_step E gl say say_cfr run mk k seen) (\<lambda>_. sends_none d)"
    unfolding claim_and_step_def claim_row_def find_cont_def
    by (rule triple_seq [OF check_epoch_ok triple_bind [OF sends_none_update_conts]], rule triple_if [OF triple_ret], assumption,
        rule triple_get_any)
      (auto intro: triple_fail sends_none_failed sends_none_step_state [OF assms] split: option.split sum.split)
qed

lemma signal_drops_effects_witness:
  "(\<forall>st dl p. o_effects (snd (ex_signal st dl p)) = ex_effects) \<and> length ex_effects = 2 \<and>
   sends_none (ex_started []) (ex_step ex_signal 0 (ex_started [])) \<and>
   map (ct_status \<circ> snd) (db_conts (ex_step ex_signal 0 (ex_started []))) = [InCondition]"
proof -
  have "map (ct_status \<circ> snd) (db_conts (ex_step ex_signal 0 (ex_started []))) = [InCondition]" by code_simp
  moreover have "sends_none (ex_started []) (ex_step ex_signal 0 (ex_started []))"
    unfolding ex_step_def ex_claim_def by (rule signal_drops_effects) (simp add: ex_signal_def zero_outcome_def)
  ultimately show ?thesis by (simp add: ex_signal_def ex_effects_def zero_outcome_def)
qed

definition manual_at :: "uid \<Rightarrow> db \<Rightarrow> bool" where
  "manual_at k d \<longleftrightarrow> (\<forall>r. map_of (db_conts d) k = Some r \<longrightarrow> ct_wake r = wake_of_kind ''manual'')"

lemma manual_at_frame [simp]:
  "manual_at k (d\<lparr>db_conds := x2\<rparr>) = manual_at k d" "manual_at k (d\<lparr>db_restarts := x3\<rparr>) = manual_at k d"
  "manual_at k (d\<lparr>db_drawn := x4\<rparr>) = manual_at k d"
  by (simp_all add: manual_at_def)

lemma park_capability_revoked_manual:
  "tx_triple (\<lambda>d. distinct (map fst (db_conts d))) (park_capability_revoked E k cap) (\<lambda>_. manual_at k)"
  unfolding park_capability_revoked_def
proof (rule triple_bind)
  let ?D = "\<lambda>d. distinct (map fst (db_conts d))"
  show "tx_triple ?D (uuid4 E) (\<lambda>_. ?D)"
    unfolding uuid4_def by (rule triple_get_any, rule triple_seq [OF triple_put triple_ret]) simp_all
  fix cond
  let ?R = "\<lambda>i r. i = k \<and> ct_status r = Running \<and> ct_owner r = Some (en_kernel E)"
  let ?f = "\<lambda>r. (r\<lparr>ct_status := InCondition, ct_wake := wake_of_kind ''manual''\<rparr>)\<lparr>ct_updated := en_now E\<rparr>"
  have uuid: "tx_triple (manual_at k) (uuid4 E) (\<lambda>_. manual_at k)"
    unfolding uuid4_def by (rule triple_get_any, rule triple_seq [OF triple_put triple_ret]) simp_all
  have cond: "tx_triple (manual_at k) (open_condition E cond k cl pl rs) (\<lambda>_. manual_at k)" for cl pl rs
    unfolding open_condition_def insert_cond_def insert_restarts_def insert_restart_def
    by (rule triple_if [OF triple_fail triple_seq [OF triple_put triple_each [OF triple_bind [OF uuid triple_put]]]]) simp_all
  have upd: "tx_triple ?D (update_running E k (\<lambda>r. r\<lparr>ct_status := InCondition, ct_wake := wake_of_kind ''manual''\<rparr>)) (\<lambda>_. manual_at k)"
    unfolding update_running_def
  proof (rule triple_bind [OF triple_update_conts [where Q = "\<lambda>n d. n = 1 \<longrightarrow> manual_at k d"]])
    fix d :: db assume D: "?D d"
    show "matching ?R (db_conts d) = 1 \<longrightarrow> manual_at k (d\<lparr>db_conts := upd_rows ?R ?f (db_conts d)\<rparr>)"
    proof
      assume one: "matching ?R (db_conts d) = 1"
      have "ct_status r = Running \<and> ct_owner r = Some (en_kernel E)" if "map_of (db_conts d) k = Some r" for r
        using matching_at [OF D one map_of_SomeD [OF that]] .
      then have "map_of (upd_rows ?R ?f (db_conts d)) k = map_option ?f (map_of (db_conts d) k)"
        by (cases "map_of (db_conts d) k") (simp_all add: map_of_upd_rows)
      then show "manual_at k (d\<lparr>db_conts := upd_rows ?R ?f (db_conts d)\<rparr>)"
        by (cases "map_of (db_conts d) k") (simp_all add: manual_at_def)
    qed
  next
    fix n show "tx_triple (\<lambda>d. n = 1 \<longrightarrow> manual_at k d) (if n \<noteq> 1 then tx_fail (ErrLostFence k) else tx_ret ()) (\<lambda>_. manual_at k)"
      by (rule triple_if) (auto intro: triple_fail triple_ret)
  qed
  show "tx_triple ?D (tx_seq (update_running E k (\<lambda>r. r\<lparr>ct_status := InCondition, ct_wake := wake_of_kind ''manual''\<rparr>))
     (if \<not> json_quoted cap then tx_fail ErrJson
      else open_condition E cond k ''capability.revoked'' [(''capability'', AnyStr cap)]
        [mk_restart ''re-grant'' (''Re-grant '' @ cap) ''operator'', mk_restart ''abort'' ''Abort'' []])) (\<lambda>_. manual_at k)"
    by (rule triple_seq [OF upd triple_if [OF triple_fail cond]])
qed

text \<open>C31: a continuation that had a message or a join result delivered when its capability was found
  revoked loses it: the park overwrites the wake, so the next resume hands the machine undefined and no
  restart, whichever restart the operator picked in between, \<open>abort\<close> included.\<close>

theorem revoked_message_lost:
  assumes "distinct (map fst (db_conts d))" "park_capability_revoked E k cap d = Inr ((), d')"
    and "map_of (db_conts d') k = Some row" "s_park st = ParkWake"
  shows "build_delivery st (ct_wake row) k d'' = Inr (\<lparr>d_restart = None, d_value = Some VUndef\<rparr>, st)"
proof -
  have "ct_wake row = wake_of_kind ''manual''"
    using tripleD [OF park_capability_revoked_manual assms(1,2)] assms(3) by (simp add: manual_at_def)
  with assms(4) show ?thesis by (simp add: build_delivery_def deliver_value_def wake_of_kind_def)
qed

text \<open>A workflow that waits on a channel, gets its message, and is claimed.\<close>

definition ex_delivered :: db where
  "ex_delivered = ex_send (ex_step ex_receive 0 (ex_started []))"

definition ex_running :: db where
  "ex_running = (case claim_row ex_env ''u'' 1 ex_delivered of Inl e \<Rightarrow> ex_delivered | Inr (n, d) \<Rightarrow> d)"

lemma revoked_message_lost_witness:
  "\<exists>d' row. park_capability_revoked ex_env ''u'' ''db'' ex_running = Inr ((), d') \<and> map_of (db_conts d') ''u'' = Some row \<and>
     build_delivery (ex_state ParkWake VUndef) (ct_wake row) ''u'' d' =
       Inr (\<lparr>d_restart = None, d_value = Some VUndef\<rparr>, ex_state ParkWake VUndef) \<and>
     (case map_of (db_conts ex_running) ''u'' of None \<Rightarrow> False
      | Some r \<Rightarrow> (case build_delivery (ex_state ParkWake VUndef) (ct_wake r) ''u'' ex_running of Inl e \<Rightarrow> False
         | Inr (dl, st) \<Rightarrow> d_value dl = Some (VStr ''hello'')))"
proof -
  have "case park_capability_revoked ex_env ''u'' ''db'' ex_running of Inl e \<Rightarrow> False
     | Inr (u, d') \<Rightarrow> map_of (db_conts d') ''u'' \<noteq> None" by code_simp
  then obtain d' row where p: "park_capability_revoked ex_env ''u'' ''db'' ex_running = Inr ((), d')"
      "map_of (db_conts d') ''u'' = Some row" by (auto split: sum.splits)
  have "map fst (db_conts ex_running) = [''u'']" by code_simp
  then have d: "distinct (map fst (db_conts ex_running))" by simp
  have "s_park (ex_state ParkWake VUndef) = ParkWake" by (simp add: ex_state_def)
  from revoked_message_lost [OF d p this, of d']
  have b: "build_delivery (ex_state ParkWake VUndef) (ct_wake row) ''u'' d' =
       Inr (\<lparr>d_restart = None, d_value = Some VUndef\<rparr>, ex_state ParkWake VUndef)" .
  have "case map_of (db_conts ex_running) ''u'' of None \<Rightarrow> False
      | Some r \<Rightarrow> (case build_delivery (ex_state ParkWake VUndef) (ct_wake r) ''u'' ex_running of Inl e \<Rightarrow> False
         | Inr (dl, st) \<Rightarrow> d_value dl = Some (VStr ''hello''))" by code_simp
  with p b show ?thesis by blast
qed

text \<open>No committed continuation is running, so no lease of one ever expires.  A pass of the reaper
  over a reachable store changes no continuation row; what it re-offers are tasks only.\<close>

theorem reaper_finds_no_continuation:
  assumes "reachable U d" "reaper_once E batch d = Inr (r, d')"
  shows "(\<forall>(k, c) \<in> set (db_conts d). ct_status c \<noteq> Running) \<and> db_conts d' = db_conts d"
proof
  have q: "runs_ok None d" using reachable_ok [OF assms(1)] by (simp add: store_ok_def)
  then show "\<forall>(k, c) \<in> set (db_conts d). ct_status c \<noteq> Running" by (auto simp: runs_ok_def)
  let ?P = "\<lambda>d'. db_conts d' = db_conts d"
  have none: "upd_rows (\<lambda>k _. k \<in> fst ` set []) f t = t" for f and t :: "cont table" by (simp add: upd_rows_none)
  have "tx_triple ?P (reaper_once E batch) (\<lambda>_. ?P)"
    unfolding reaper_once_def update_tasks_def
  proof (rule triple_if [OF triple_ret], assumption, rule triple_get_any, rule triple_seq [where R = "?P", OF triple_put], goal_cases)
    case (2 ts)
    show ?case
    proof (rule triple_bind [OF triple_get])
      fix cs
      let ?A = "\<lambda>d'. db_conts d' = db_conts d \<and> cs = expired_conts E (batch - length ts) d'"
      show "tx_triple ?A (tx_bind (update_conts (\<lambda>k _. k \<in> fst ` set cs) (\<lambda>r. r\<lparr>ct_status := Ready, ct_owner := None, ct_updated := en_now E\<rparr>))
         (\<lambda>_. tx_seq (tx_each (\<lambda>(k, c). insert_resume_task E k (ct_seq c)) cs)
           (tx_ret (length ts + length cs, length (filter (\<lambda>(i, t). 1 < tk_attempts t) ts))))) (\<lambda>_. ?P)"
      proof (cases "cs = []")
        case True
        then show ?thesis
          by (simp, intro triple_bind [OF triple_update_conts [where Q = "\<lambda>_. ?P"]] triple_seq [OF triple_ret [where Q = "\<lambda>_. ?P"]] triple_ret)
            (auto simp: upd_rows_none)
      next
        case False
        have "\<not> ?A d'" for d'
        proof
          assume "?A d'"
          then have "runs_ok None d'" using q by (simp add: runs_ok_def)
          with expired_conts_none \<open>?A d'\<close> False show False by blast
        qed
        then show ?thesis by (rule triple_false)
      qed
    qed
  qed simp
  from tripleD [OF this refl assms(2)] show "db_conts d' = db_conts d" .
qed

lemma reaper_finds_no_continuation_witness:
  "\<exists>r d'. reaper_once ex_env 10 ex_delivered = Inr (r, d') \<and> db_conts d' = db_conts ex_delivered"
proof -
  have "case reaper_once ex_env 10 ex_delivered of Inl e \<Rightarrow> False | Inr x \<Rightarrow> True" by code_simp
  then obtain r d' where d': "reaper_once ex_env 10 ex_delivered = Inr (r, d')" by (auto split: sum.splits)
  have "reachable ex_uuid ex_delivered"
    unfolding ex_delivered_def by (intro ex_send_reachable ex_step_reachable ex_started_reachable)
  from reaper_finds_no_continuation [OF this d'] d' show ?thesis by blast
qed

end
