(* ===== verification/Cfr_Sink.thy ===== *)
theory Cfr_Sink
  imports Cfr_Step Go_Strconv
begin

section \<open>Delivery sinks\<close>

text \<open>
  Where the dispatcher pushes an intent to (\<open>internal/cfr/sink.go\<close>): the file spool a local kernel
  uses and the HTTP sink in front of it.  The directory is a map from file names to the record written,
  \<open>None\<close> for a file that was created and not filled; the time stamp of a record is left out.  What the
  operating system answers to each call is a parameter, as is the HTTP client.
\<close>

subsection \<open>File names\<close>

definition dedup_key :: "intent \<Rightarrow> string" where
  "dedup_key x = it_cont x @ '':'' @ int_str (it_seq x) @ '':'' @ int_str (int (it_ordinal x))"

definition safe_char :: "char \<Rightarrow> bool" where
  "safe_char c \<longleftrightarrow> (let n = of_char c :: int in 97 \<le> n \<and> n \<le> 122 \<or> 65 \<le> n \<and> n \<le> 90 \<or> 48 \<le> n \<and> n \<le> 57 \<or> n = 45 \<or> n = 95)"

text \<open>\<open>sanitizeKey\<close> on ASCII keys, where a rune is a byte.\<close>

definition sanitize_key :: "string \<Rightarrow> string" where
  "sanitize_key k = map (\<lambda>c. if safe_char c then c else CHR ''_'') k"

definition spool_name :: "intent \<Rightarrow> string" where
  "spool_name x = sanitize_key (dedup_key x) @ ''.json''"

subsection \<open>The file sink\<close>

record spool =
  sp_files :: "string \<rightharpoonup> (string \<times> string \<times> any_map) option"
  sp_fail :: "string \<Rightarrow> nat"

text \<open>What the operating system answers: all calls succeed, the directory cannot be made, the file
  cannot be opened although it does not exist, or the record cannot be written.\<close>

datatype disk = DiskOk | DiskNoDir | DiskNoOpen | DiskNoWrite

definition spool_record :: "intent \<Rightarrow> string \<times> string \<times> any_map" where
  "spool_record x = (dedup_key x, it_class x, it_payload x)"

definition file_deliver :: "disk \<Rightarrow> intent \<Rightarrow> spool \<Rightarrow> bool \<times> spool" where
  "file_deliver dk x s =
     (let k = dedup_key x; f = spool_name x in
      if 0 < sp_fail s k then (False, s\<lparr>sp_fail := (sp_fail s)(k := sp_fail s k - 1)\<rparr>)
      else if dk = DiskNoDir then (False, s)
      else if f \<in> dom (sp_files s) then (True, s)
      else case dk of
          DiskNoOpen \<Rightarrow> (False, s)
        | DiskNoWrite \<Rightarrow> (False, s\<lparr>sp_files := (sp_files s)(f \<mapsto> None)\<rparr>)
        | _ \<Rightarrow> (True, s\<lparr>sp_files := (sp_files s)(f \<mapsto> Some (spool_record x))\<rparr>))"

definition fail_once :: "string \<Rightarrow> spool \<Rightarrow> spool" where
  "fail_once k s = s\<lparr>sp_fail := (sp_fail s)(k := sp_fail s k + 1)\<rparr>"

definition delivered_files :: "string \<Rightarrow> spool \<Rightarrow> nat" where
  "delivered_files k s = (if sanitize_key k @ ''.json'' \<in> dom (sp_files s) then 1 else 0)"

fun file_deliveries :: "(disk \<times> intent) list \<Rightarrow> spool \<Rightarrow> spool" where
  "file_deliveries [] s = s"
| "file_deliveries ((dk, x) # xs) s = file_deliveries xs (snd (file_deliver dk x s))"

subsection \<open>The HTTP sink\<close>

datatype http_method = HttpGet | HttpPost

text \<open>The client takes the method, the URL, the body and the idempotency key; \<open>None\<close> is a transport failure
  or a URL it refuses, otherwise the answer is a status.\<close>

definition do_http :: "(http_method \<Rightarrow> string \<Rightarrow> string option \<Rightarrow> string \<Rightarrow> nat option) \<Rightarrow> intent \<Rightarrow> bool" where
  "do_http client x =
     (let url = any_string (map_of (it_payload x) ''url'');
          post = it_class x = ''http.post'';
          body = (if post then (case map_of (it_payload x) ''body'' of Some (AnyStr b) \<Rightarrow> Some b | _ \<Rightarrow> None) else None) in
      if url = [] then False
      else case client (if post then HttpPost else HttpGet) url body (dedup_key x) of
          None \<Rightarrow> False
        | Some status \<Rightarrow> status < 500)"

definition http_deliver :: "(http_method \<Rightarrow> string \<Rightarrow> string option \<Rightarrow> string \<Rightarrow> nat option) \<Rightarrow> disk \<Rightarrow> intent \<Rightarrow> spool \<Rightarrow> bool \<times> spool" where
  "http_deliver client dk x s =
     (if it_class x = ''http.get'' \<or> it_class x = ''http.post'' then (do_http client x, s) else file_deliver dk x s)"

subsection \<open>One file for one intent\<close>

text \<open>The identifiers \<open>uuid4\<close> draws: hexadecimal digits and dashes.\<close>

definition uuid_like :: "string \<Rightarrow> bool" where
  "uuid_like s \<longleftrightarrow> list_all (\<lambda>c. safe_char c \<and> c \<noteq> CHR ''_'') s"

lemma digit_safe: "is_digit c \<Longrightarrow> safe_char c \<and> c \<noteq> CHR ''_''"
  by (auto simp: is_digit_def safe_char_def Let_def)

lemma digits_uuid_like: "uuid_like (int_str i)"
proof -
  have d: "uuid_like (dec_digits n)" if "0 \<le> n" for n
    using dec_digits_props [OF that] digit_safe by (auto simp: uuid_like_def list_all_iff)
  moreover have "uuid_like ''-''" by (simp add: uuid_like_def safe_char_def)
  ultimately show ?thesis by (simp add: int_str_def uuid_like_def)
qed

lemma split_at_sep:
  assumes "a @ c # b = a' @ c # b'" "c \<notin> set a" "c \<notin> set a'"
  shows "a = a' \<and> b = b'"
  using assms by (simp add: append_eq_append_conv2) (auto simp: append_eq_Cons_conv Cons_eq_append_conv)

lemma sanitize_uuid_like: "uuid_like s \<Longrightarrow> sanitize_key s = s"
  by (simp add: uuid_like_def sanitize_key_def list_all_iff map_idI)

lemma spool_name_inject:
  assumes "uuid_like (it_cont x)" "uuid_like (it_cont y)" "spool_name x = spool_name y"
  shows "it_cont x = it_cont y \<and> it_seq x = it_seq y \<and> it_ordinal x = it_ordinal y"
proof -
  have us: "uuid_like s \<Longrightarrow> CHR ''_'' \<notin> set s" for s by (auto simp: uuid_like_def list_all_iff)
  have name: "spool_name z = it_cont z @ CHR ''_'' # int_str (it_seq z) @ CHR ''_'' # int_str (int (it_ordinal z)) @ ''.json''"
    if "uuid_like (it_cont z)" for z
    using sanitize_uuid_like [OF that] sanitize_uuid_like [OF digits_uuid_like]
    by (simp add: spool_name_def dedup_key_def sanitize_key_def safe_char_def)
  from assms(3) have "it_cont x = it_cont y \<and> int_str (it_seq x) @ CHR ''_'' # int_str (int (it_ordinal x)) @ ''.json'' =
      int_str (it_seq y) @ CHR ''_'' # int_str (int (it_ordinal y)) @ ''.json''"
    unfolding name [OF assms(1)] name [OF assms(2)] by (rule split_at_sep) (use us assms in auto)
  moreover from this have "int_str (it_seq x) = int_str (it_seq y) \<and>
      int_str (int (it_ordinal x)) @ ''.json'' = int_str (int (it_ordinal y)) @ ''.json''"
    by (intro split_at_sep) (use us digits_uuid_like in auto)
  ultimately show ?thesis by (simp add: int_str_inject)
qed

text \<open>A file, once there, stays as it is.\<close>

lemma file_deliver_keeps: "sp_files s f = Some r \<Longrightarrow> sp_files (snd (file_deliver dk x s)) f = Some r"
  by (auto simp: file_deliver_def Let_def split: disk.split)

lemma file_deliveries_keeps: "sp_files s f = Some r \<Longrightarrow> sp_files (file_deliveries xs s) f = Some r"
proof (induction xs arbitrary: s)
  case (Cons a xs)
  then show ?case by (cases a) (simp add: file_deliver_keeps)
qed simp

lemma file_deliver_new:
  "sp_files (snd (file_deliver dk x s)) f = Some (Some r) \<Longrightarrow> sp_files s f = Some (Some r) \<or> f = spool_name x \<and> r = spool_record x"
  by (auto simp: file_deliver_def Let_def split: if_splits disk.splits)

lemma file_deliveries_new:
  "sp_files (file_deliveries xs s) f = Some (Some r) \<Longrightarrow> sp_files s f = None \<Longrightarrow>
   \<exists>x \<in> snd ` set xs. f = spool_name x \<and> r = spool_record x"
proof (induction xs arbitrary: s)
  case (Cons a xs)
  obtain dk x where a: "a = (dk, x)" by (cases a)
  let ?s = "snd (file_deliver dk x s)"
  from Cons.prems(1) have l: "sp_files (file_deliveries xs ?s) f = Some (Some r)" by (simp add: a)
  show ?case
  proof (cases "sp_files ?s f")
    case None
    from Cons.IH [OF l this] show ?thesis by (auto simp: a)
  next
    case (Some r')
    with file_deliveries_keeps l have "sp_files ?s f = Some (Some r)" by metis
    with file_deliver_new Cons.prems(2) show ?thesis by (fastforce simp: a)
  qed
qed simp

lemma file_deliver_done: "fst (file_deliver dk x s) \<Longrightarrow> spool_name x \<in> dom (sp_files (snd (file_deliver dk x s)))"
  by (auto simp: file_deliver_def Let_def split: if_splits disk.splits)

end
