(* ===== verification/Kernel_Breaker.thy ===== *)
theory Kernel_Breaker
  imports Kernel_Reactor
begin

section \<open>The reaper's breaker\<close>

text \<open>
  The circuit breaker that paces the reaper (\<open>internal/kernel/breaker.go\<close>).  Times and durations are
  integers on one clock; the event it prints is left out.  The re-expiry ratio is compared with one half,
  its fixed threshold: the counts are at most a batch, so the division in floating point decides whether
  twice the re-expiries exceed the re-offers.
\<close>

datatype breaker_state = Closed | Open | HalfOpen

record breaker =
  bk_window :: int
  bk_cooldown :: int
  bk_rate_max :: nat
  bk_probe :: nat
  bk_full :: nat
  bk_state :: breaker_state
  bk_reoffers :: "int list"
  bk_opened :: int
  bk_gauge :: nat
  bk_trips :: nat
  bk_lag :: int

text \<open>\<open>newReaperBreaker\<close>; a configured value that is not positive takes the default.\<close>

definition positive_or :: "int \<Rightarrow> int \<Rightarrow> int" where
  "positive_or x d = (if x \<le> 0 then d else x)"

definition new_breaker :: "int \<Rightarrow> int \<Rightarrow> int \<Rightarrow> int \<Rightarrow> nat \<Rightarrow> breaker" where
  "new_breaker window cooldown rate probe full =
     \<lparr>bk_window = positive_or window 60000000000, bk_cooldown = positive_or cooldown 30000000000,
      bk_rate_max = nat (positive_or rate 1000), bk_probe = nat (positive_or probe 10), bk_full = full,
      bk_state = Closed, bk_reoffers = [], bk_opened = 0, bk_gauge = 0, bk_trips = 0, bk_lag = 0\<rparr>"

definition allowed_batch :: "int \<Rightarrow> breaker \<Rightarrow> nat \<times> breaker" where
  "allowed_batch now b = (case bk_state b of
      Open \<Rightarrow> if bk_cooldown b \<le> now - bk_opened b then (bk_probe b, b\<lparr>bk_state := HalfOpen\<rparr>) else (0, b)
    | HalfOpen \<Rightarrow> (bk_probe b, b)
    | Closed \<Rightarrow> (bk_full b, b))"

definition trip :: "int \<Rightarrow> breaker \<Rightarrow> breaker" where
  "trip now b = b\<lparr>bk_state := Open, bk_opened := now, bk_gauge := 1, bk_trips := bk_trips b + 1\<rparr>"

definition slide :: "int \<Rightarrow> nat \<Rightarrow> breaker \<Rightarrow> breaker" where
  "slide now reoffered b = b\<lparr>bk_reoffers := filter (\<lambda>t. now - bk_window b < t) (bk_reoffers b) @ replicate reoffered now\<rparr>"

definition observe :: "int \<Rightarrow> nat \<Rightarrow> nat \<Rightarrow> int \<Rightarrow> breaker \<Rightarrow> breaker" where
  "observe now reoffered reexpired lag b0 =
     (let b = slide now reoffered (b0\<lparr>bk_lag := lag\<rparr>);
          over_rate = bk_rate_max b < length (bk_reoffers b);
          over_ratio = reoffered < 2 * reexpired \<and> 0 < reoffered in
      case bk_state b of
        Closed \<Rightarrow> if over_rate \<or> over_ratio then trip now b else b
      | HalfOpen \<Rightarrow> if reoffered = 0 \<or> \<not> over_ratio \<and> reoffered < bk_probe b
          then b\<lparr>bk_state := Closed, bk_gauge := 0, bk_reoffers := []\<rparr> else trip now b
      | Open \<Rightarrow> b)"

text \<open>A pass of the reaper with its breaker around it; the lag is measured before the pass.\<close>

definition reaper_pass :: "env \<Rightarrow> int \<Rightarrow> breaker \<times> db \<Rightarrow> breaker \<times> db" where
  "reaper_pass E lag s = (case s of (b, d) \<Rightarrow>
     (case allowed_batch (en_now E) b of (batch, b1) \<Rightarrow>
       if batch = 0 then (observe (en_now E) 0 0 lag b1, d)
       else (case reaper_once E batch d of
           Inl e \<Rightarrow> (b1, d)
         | Inr ((reoffered, reexpired), d') \<Rightarrow> (observe (en_now E) reoffered reexpired lag b1, d'))))"

subsection \<open>What the breaker keeps\<close>

text \<open>A closed breaker has recorded at most \<open>rateMax\<close> re-offers in its window, and the gauge shows its state.\<close>

definition breaker_ok :: "breaker \<Rightarrow> bool" where
  "breaker_ok b \<longleftrightarrow> (bk_state b = Closed \<longrightarrow> length (bk_reoffers b) \<le> bk_rate_max b) \<and>
     (bk_gauge b = 0 \<longleftrightarrow> bk_state b = Closed)"

lemma breaker_ok_new: "breaker_ok (new_breaker window cooldown rate probe full)"
  by (simp add: breaker_ok_def new_breaker_def)

lemma allowed_batch_ok: "breaker_ok b \<Longrightarrow> breaker_ok (snd (allowed_batch now b))"
  by (auto simp: breaker_ok_def allowed_batch_def split: breaker_state.split)

lemma observe_ok: "breaker_ok b \<Longrightarrow> breaker_ok (observe now r x lag b)"
  by (auto simp: breaker_ok_def observe_def Let_def slide_def trip_def split: breaker_state.split)

lemma reaper_pass_ok: "breaker_ok b \<Longrightarrow> breaker_ok (fst (reaper_pass E lag (b, d)))"
proof -
  assume "breaker_ok b"
  then have "breaker_ok (snd (allowed_batch (en_now E) b))" by (rule allowed_batch_ok)
  then show ?thesis
    by (cases "allowed_batch (en_now E) b") (auto simp: reaper_pass_def intro: observe_ok split: sum.split)
qed

text \<open>While it is open and cooling down, a pass changes no row.\<close>

lemma reaper_pass_paused:
  assumes "bk_state b = Open" "en_now E - bk_opened b < bk_cooldown b"
  shows "snd (reaper_pass E lag (b, d)) = d" "bk_state (fst (reaper_pass E lag (b, d))) = Open"
    "bk_opened (fst (reaper_pass E lag (b, d))) = bk_opened b" "bk_cooldown (fst (reaper_pass E lag (b, d))) = bk_cooldown b"
  using assms by (simp_all add: reaper_pass_def allowed_batch_def observe_def Let_def slide_def)

fun reaper_passes :: "(env \<times> int) list \<Rightarrow> breaker \<times> db \<Rightarrow> breaker \<times> db" where
  "reaper_passes [] s = s"
| "reaper_passes ((E, lag) # es) s = reaper_passes es (reaper_pass E lag s)"

lemma reaper_passes_ok: "breaker_ok b \<Longrightarrow> breaker_ok (fst (reaper_passes es (b, d)))"
proof (induction es arbitrary: b d)
  case (Cons e es)
  obtain E lag where "e = (E, lag)" by (cases e)
  with Cons.IH [of "fst (reaper_pass E lag (b, d))" "snd (reaper_pass E lag (b, d))"] reaper_pass_ok [OF Cons.prems]
  show ?case by simp
qed simp

lemma reaper_passes_paused:
  assumes "bk_state b = Open" "\<forall>(E, lag) \<in> set es. en_now E - bk_opened b < bk_cooldown b"
  shows "snd (reaper_passes es (b, d)) = d"
  using assms
proof (induction es arbitrary: b)
  case (Cons e es)
  obtain E lag where e: "e = (E, lag)" by (cases e)
  with Cons.prems have p: "en_now E - bk_opened b < bk_cooldown b" by simp
  note q = reaper_pass_paused [OF Cons.prems(1) p, of lag d]
  have "snd (reaper_passes es (fst (reaper_pass E lag (b, d)), d)) = d"
    by (rule Cons.IH) (use q Cons.prems(2) in simp_all)
  moreover have "reaper_pass E lag (b, d) = (fst (reaper_pass E lag (b, d)), d)" using q(1) by (simp add: prod_eq_iff)
  ultimately show ?case by (simp add: e)
qed simp

text \<open>A probe that fills its batch opens the breaker again, even when nothing in it had expired before:
  a backlog of more than a probe batch drains one batch per cooldown.\<close>

lemma full_probe_reopens:
  assumes "bk_state b = HalfOpen" "0 < bk_probe b"
  shows "bk_state (observe now (bk_probe b) 0 lag b) = Open"
  using assms by (simp add: observe_def Let_def slide_def trip_def)

end
