(* ===== verification/Kernel_Delivery.thy ===== *)
theory Kernel_Delivery
  imports Cfr_Sink Kernel_Breaker Kernel_Samples
begin

section \<open>Delivery and pacing\<close>

text \<open>The file sink under redelivery, alone and below the dispatcher, and the breaker around the reaper.\<close>

text \<open>C32: the file sink is idempotent under the deduplication key.  Whatever is delivered in whatever
  order and with whatever answers of the operating system, a file holds the record of an intent with the
  same continuation, step and ordinal as the intent it is named after, and an acknowledged delivery makes
  every later one of the same intent an acknowledged no-op.\<close>

theorem spool_delivers_once:
  assumes "\<forall>y \<in> snd ` set xs. uuid_like (it_cont y)" "sp_files s = Map.empty" "x \<in> snd ` set xs"
    and "s' = file_deliveries xs s"
  shows "(\<forall>r. sp_files s' (spool_name x) = Some (Some r) \<longrightarrow>
      (\<exists>y \<in> snd ` set xs. r = spool_record y \<and> it_cont y = it_cont x \<and> it_seq y = it_seq x \<and> it_ordinal y = it_ordinal x)) \<and>
    (\<forall>dk dk' ys. let t = file_deliveries ys (snd (file_deliver dk x s')) in
      fst (file_deliver dk x s') \<longrightarrow> dk' \<noteq> DiskNoDir \<longrightarrow> sp_fail t (dedup_key x) = 0 \<longrightarrow> file_deliver dk' x t = (True, t))"
proof (unfold Let_def, intro conjI allI impI)
  fix r assume "sp_files s' (spool_name x) = Some (Some r)"
  with file_deliveries_new [of xs s "spool_name x" r] assms(2,4)
  obtain y where y: "y \<in> snd ` set xs" "spool_name x = spool_name y" "r = spool_record y" by auto
  moreover have "it_cont x = it_cont y \<and> it_seq x = it_seq y \<and> it_ordinal x = it_ordinal y"
    by (rule spool_name_inject) (use y assms(1,3) in auto)
  ultimately show "\<exists>y \<in> snd ` set xs. r = spool_record y \<and> it_cont y = it_cont x \<and> it_seq y = it_seq x \<and> it_ordinal y = it_ordinal x"
    by metis
next
  fix dk dk' ys
  let ?t = "file_deliveries ys (snd (file_deliver dk x s'))"
  assume "fst (file_deliver dk x s')" and d: "dk' \<noteq> DiskNoDir" and f: "sp_fail ?t (dedup_key x) = 0"
  then obtain r where "sp_files (snd (file_deliver dk x s')) (spool_name x) = Some r" using file_deliver_done by blast
  then have "spool_name x \<in> dom (sp_files ?t)" using file_deliveries_keeps by blast
  with d f show "file_deliver dk' x ?t = (True, ?t)" by (simp add: file_deliver_def Let_def)
qed

definition ex_intent :: "nat \<Rightarrow> intent" where
  "ex_intent n = \<lparr>it_id = ''o'', it_cont = ''a1-b2'', it_seq = 3, it_ordinal = n, it_class = ''email.send'', it_payload = [],
     it_dedup = (''a1-b2'', 3, n)\<rparr>"

definition ex_spool :: spool where
  "ex_spool = \<lparr>sp_files = Map.empty, sp_fail = (\<lambda>_. 0)\<rparr>"

lemma spool_delivers_once_witness:
  "\<exists>r. sp_files (file_deliveries [(DiskOk, ex_intent 0), (DiskOk, ex_intent 1), (DiskOk, ex_intent 0)] ex_spool)
       (spool_name (ex_intent 0)) = Some (Some r) \<and>
     (\<exists>y \<in> {ex_intent 0, ex_intent 1}. r = spool_record y \<and> it_ordinal y = 0)"
proof -
  let ?xs = "[(DiskOk, ex_intent 0), (DiskOk, ex_intent 1), (DiskOk, ex_intent 0)]"
  let ?s = "file_deliveries ?xs ex_spool"
  have "sp_files ?s (spool_name (ex_intent 0)) \<noteq> None \<and> sp_files ?s (spool_name (ex_intent 0)) \<noteq> Some None" by code_simp
  then obtain r where r: "sp_files ?s (spool_name (ex_intent 0)) = Some (Some r)" by auto
  have u: "\<forall>y \<in> snd ` set ?xs. uuid_like (it_cont y)" by (simp add: ex_intent_def uuid_like_def safe_char_def)
  have e: "sp_files ex_spool = Map.empty" by (simp add: ex_spool_def)
  have m: "ex_intent 0 \<in> snd ` set ?xs" by simp
  from spool_delivers_once [OF u e m refl] r show ?thesis by (force simp: ex_intent_def)
qed

lemma load_intent_finish: "load_intent it (snd (commit (finish_task i st) d)) = load_intent it d"
  by (simp add: commit_def finish_task_def update_tasks_def tx_put_def load_intent_def)

lemma load_intent_marked:
  "load_intent it d = Some (x, b) \<Longrightarrow> map_option snd (load_intent it (snd (commit (mark_delivered it) d))) = Some True"
proof -
  assume "load_intent it d = Some (x, b)"
  then obtain r where r: "map_of (db_outbox d) it = Some r" by (auto simp: load_intent_def)
  have "map_of (upd_rows R f t) k = map_option (\<lambda>r. if R k r then f r else r) (map_of t k)" for R f and t :: "outbox_row table" and k
    by (induction t) (auto simp: upd_rows_def)
  with r show ?thesis
    by (simp add: load_intent_def commit_def mark_delivered_def update_outbox_def tx_bind_def tx_seq_def tx_get_def tx_put_def tx_ret_def)
qed

text \<open>A failed write loses the intent.  When the file of an intent is created but its record cannot
  be written, the dispatcher tries again, finds the file, and marks the outbox row delivered although the
  file holds nothing.\<close>

theorem spool_write_error_loses_intent:
  assumes "load_intent it d = Some (x, False)" "spool_name x \<notin> dom (sp_files s)" "sp_fail s (dedup_key x) = 0"
    and "deliver_task (file_deliver DiskNoWrite) i it 1 (d, s) = (d1, s1)"
    and "deliver_task (file_deliver DiskOk) i it 2 (d1, s1) = (d2, s2)"
  shows "map_option snd (load_intent it d2) = Some True \<and> sp_files s2 (spool_name x) = Some None"
proof -
  let ?s = "s\<lparr>sp_files := (sp_files s)(spool_name x \<mapsto> None)\<rparr>"
  have w: "file_deliver DiskNoWrite x s = (False, ?s)" using assms(2,3) by (simp add: file_deliver_def Let_def)
  have one: "d1 = snd (commit (finish_task i TaskReady) d)" "s1 = ?s"
    using assms(1,4) w by (simp_all add: deliver_task_def)
  have l: "load_intent it d1 = Some (x, False)" using assms(1) one by (simp add: load_intent_finish)
  have "file_deliver DiskOk x ?s = (True, ?s)" using assms(3) by (simp add: file_deliver_def)
  with l assms(5) one have "d2 = snd (commit (finish_task i TaskDone) (snd (commit (mark_delivered it) d1)))" "s2 = ?s"
    by (simp_all add: deliver_task_def)
  then show ?thesis using load_intent_marked [OF l] by (simp add: load_intent_finish)
qed

lemma spool_write_error_loses_intent_witness:
  "\<exists>d2 s2. deliver_task (file_deliver DiskOk) ''t'' ''uuu'' 2
       (deliver_task (file_deliver DiskNoWrite) ''t'' ''uuu'' 1 (ex_step ex_done 0 (ex_started []), ex_spool)) = (d2, s2) \<and>
     map_option snd (load_intent ''uuu'' d2) = Some True \<and> ran (sp_files s2) = {None}"
proof -
  let ?d = "ex_step ex_done 0 (ex_started [])"
  have "map_option snd (load_intent ''uuu'' ?d) = Some False" by code_simp
  then obtain x where l: "load_intent ''uuu'' ?d = Some (x, False)" by (auto simp: snd_def split: prod.splits)
  obtain d1 s1 where one: "deliver_task (file_deliver DiskNoWrite) ''t'' ''uuu'' 1 (?d, ex_spool) = (d1, s1)" by fastforce
  obtain d2 s2 where two: "deliver_task (file_deliver DiskOk) ''t'' ''uuu'' 2 (d1, s1) = (d2, s2)" by fastforce
  have e: "spool_name x \<notin> dom (sp_files ex_spool)" "sp_fail ex_spool (dedup_key x) = 0" by (simp_all add: ex_spool_def)
  have w: "file_deliver DiskNoWrite x ex_spool = (False, ex_spool\<lparr>sp_files := [spool_name x \<mapsto> None]\<rparr>)"
    by (simp add: file_deliver_def Let_def ex_spool_def)
  have "s2 = ex_spool\<lparr>sp_files := [spool_name x \<mapsto> None]\<rparr>"
    using one two l w by (auto simp: deliver_task_def load_intent_finish file_deliver_def Let_def ex_spool_def)
  with spool_write_error_loses_intent [OF l e one two] one two show ?thesis by simp
qed



text \<open>A step whose error text holds a control character and that reaches its last attempt leaves its
  continuation ready with neither a task nor a condition: the task is dead before the condition is refused.\<close>

lemma dead_task_strands:
  "case dead_task ex_env (ex_uuid 1) ''u'' [CHR 0x01] (ex_started []) of d \<Rightarrow>
     map (ct_status \<circ> snd) (db_conts d) = [Ready] \<and> map (tk_status \<circ> snd) (db_tasks d) = [TaskDead] \<and> length (db_conds d) = 0"
  by code_simp

end
