(* ===== verification/Adm_Image.thy ===== *)
theory Adm_Image
  imports Rast_Node Go_Strconv
begin

section \<open>Admission: definitions, the genesis image as a lookup table, diagnostics\<close>

text \<open>
  What the admission verifiers read.  \<open>lowered\<close> is \<open>lower.Definition\<close> with the catalog name
  \<open>loweredDef\<close> adds (\<open>internal/admission/pipeline.go\<close>); its \<open>Body\<close> is never nil here, a missing
  body is the \<open>KNone\<close> node.  \<open>image\<close> holds the four hash-keyed maps of \<open>admission.Image\<close>
  (\<open>image.go\<close>) that the verifiers consult.  A diagnostic keeps the fields a caller can switch on;
  its message text is fixed by its code up to the value \<open>dg_about\<close> that is spliced into it.  The
  test-only mutant switches (\<open>mutants.Active\<close>) are off.
\<close>

subsection \<open>Nodes of a body\<close>

lemma size_nkids [simp]: "x \<in> set (nkids n) \<Longrightarrow> size x < size n"
  by (cases n) (auto dest: size_list_estimation' [where f = size, OF _ order_refl])

lemma size_nkids_Cons: "nkids p = a # ks \<Longrightarrow> size_list size ks + size a < size p"
  by (cases p) simp

lemma size_list_nkids [simp]: "size_list size (nkids n) < size n"
  by (cases n) simp

lemma size_list_nkids_le: "size n \<le> m \<Longrightarrow> size_list size (nkids n) < m"
  using size_list_nkids [of n] by linarith

lemma size_nkids_nkids: "x \<in> set (nkids y) \<Longrightarrow> y \<in> set (nkids n) \<Longrightarrow> size x < size n"
  using size_nkids less_trans by blast

lemma size_in_kids [termination_simp]: "x \<in> set ks \<Longrightarrow> size x < Suc (size_list size ks)"
  by (auto dest: size_list_estimation' [where f = size, OF _ order_refl])

lemma size_in_nkids [termination_simp]:
  "x \<in> set (nkids y) \<Longrightarrow> y \<in> set ks \<Longrightarrow> size x < Suc (size_list size ks)"
  by (meson less_trans size_in_kids size_nkids)

subsection \<open>Definitions\<close>

datatype (plugins only: size code) defkind = DefFunc | DefValue | DefType | DefInterface | DefNative

record dep =
  dp_name :: string
  dp_module :: string
  dp_hash :: string

record lowered =
  ld_catalog :: string
  ld_name :: string
  ld_exported :: bool
  ld_kind :: defkind
  ld_body :: node
  ld_hash :: string
  ld_deps :: "dep list"
  ld_names :: "string list"

subsection \<open>The image\<close>

record std_entry =
  se_module :: string
  se_export :: string
  se_intrinsic :: string

record image =
  im_entry :: "string \<Rightarrow> std_entry option"
  im_cap :: "string \<Rightarrow> string option"
  im_effect :: "string \<Rightarrow> string"
  im_nonserial :: "string \<Rightarrow> bool"

text \<open>\<open>stdIntrinsicOf\<close>: the std intrinsic a callee resolves to, or the empty string.\<close>

definition std_intrinsic_of :: "image \<Rightarrow> node \<Rightarrow> string" where
  "std_intrinsic_of im callee =
     (if nk callee = KRef then
        (case im_entry im (nstr callee) of Some e \<Rightarrow> se_intrinsic e | None \<Rightarrow> [])
      else [])"

text \<open>\<open>uiComponentOf\<close>: the \<open>std/ui\<close> component a callee constructs, or the empty string.\<close>

definition ui_component_of :: "image \<Rightarrow> node \<Rightarrow> string" where
  "ui_component_of im callee =
     (if nk callee = KRef then
        (case im_entry im (nstr callee) of
           Some e \<Rightarrow> if se_module e = ''std/ui'' then se_export e else []
         | None \<Rightarrow> [])
      else [])"

text \<open>\<open>cek.MaskingLeaves\<close>.\<close>

definition masking_leaves :: "string list" where
  "masking_leaves = [''text'', ''badge'', ''money'', ''avatar'', ''field'', ''table'']"

subsection \<open>Diagnostics\<close>

record diag =
  dg_stage :: string
  dg_code :: string
  dg_subject :: string
  dg_def :: string
  dg_about :: string

subsection \<open>Walks the verifiers share\<close>

text \<open>\<open>isLiteralNode\<close>.\<close>

definition is_literal_node :: "node \<Rightarrow> bool" where
  "is_literal_node n \<longleftrightarrow> nk n \<in> {KNum, KBigInt, KStr, KBool, KRegex, KTemplate}"

text \<open>\<open>collectBindIds\<close>: the binder leaves of a pattern, in pre-order.\<close>

fun collect_bind_ids :: "node \<Rightarrow> node list" where
  "collect_bind_ids (Node k s u m ks) =
     (if k = KBindId then [Node k s u m ks] else concat (map collect_bind_ids ks))"

text \<open>\<open>containsAwait\<close>.\<close>

fun contains_await :: "node \<Rightarrow> bool" where
  "contains_await (Node k s u m ks) \<longleftrightarrow> k = KAwait \<or> list_ex contains_await ks"

text \<open>
  \<open>defInfo.nameOf\<close> maps each \<open>KBindId\<close> node of the body, by pointer, to a display name: the binders
  are numbered in pre-order, the \<open>i\<close>-th takes the \<open>i\<close>-th display name and falls back to \<open>_v<i>\<close>.
  No node of a body is shared, so the map is written here onto the node itself: \<open>name_binds\<close> puts
  each binder's name into the string field a \<open>KBindId\<close> does not use.
\<close>

definition binder_name :: "string list \<Rightarrow> nat \<Rightarrow> string" where
  "binder_name names i =
     (let nm = (if i < length names then names ! i else []) in
      if nm = [] then ''_v'' @ int_str (int i) else nm)"

fun name_binds :: "string list \<Rightarrow> nat \<Rightarrow> node \<Rightarrow> node \<times> nat"
  and name_binds_list :: "string list \<Rightarrow> nat \<Rightarrow> node list \<Rightarrow> node list \<times> nat" where
  "name_binds names vc (Node k s u m ks) =
     (let (s', vc') = (if k = KBindId then (binder_name names vc, vc + 1) else (s, vc));
          (ks', vc'') = name_binds_list names vc' ks
      in (Node k s' u m ks', vc''))"
| "name_binds_list names vc [] = ([], vc)"
| "name_binds_list names vc (n # ns) =
     (let (n', vc') = name_binds names vc n;
          (ns', vc'') = name_binds_list names vc' ns
      in (n' # ns', vc''))"

text \<open>\<open>newDefInfo\<close>: the type hashes this definition imports as \<open>Vault\<close> and as \<open>Conn\<close>.\<close>

definition pii_type_hashes :: "lowered \<Rightarrow> string list" where
  "pii_type_hashes d = map dp_hash (filter (\<lambda>p. dp_module p = ''std/pii'' \<and> dp_name p = ''Vault'')
     (ld_deps d))"

definition conn_type_hashes :: "lowered \<Rightarrow> string list" where
  "conn_type_hashes d = map dp_hash (filter (\<lambda>p. dp_module p = ''std/sql'' \<and> dp_name p = ''Conn'')
     (ld_deps d))"

text \<open>\<open>isPiiType\<close> and \<open>isConnType\<close>.\<close>

definition is_type_in :: "string list \<Rightarrow> node \<Rightarrow> bool" where
  "is_type_in hashes typ \<longleftrightarrow> nk typ = TCatRef \<and> nstr typ \<in> set hashes"

text \<open>
  \<open>funcParts\<close>: parameters, declared result type and body of a function definition.
\<close>

definition func_parts :: "defkind \<Rightarrow> node \<Rightarrow> (node list \<times> node \<times> node) option" where
  "func_parts k b =
     (if k = DefFunc \<and> nk b = KFunc then
        (case nkids b of ps # _ # ret # body # _ \<Rightarrow> Some (nkids ps, ret, body) | _ \<Rightarrow> None)
      else None)"

lemma nk_name_binds [simp]: "nk (fst (name_binds names vc n)) = nk n"
  by (cases n) (simp add: case_prod_beta Let_def)

end
