(* ===== verification/Adm_Pii.thy ===== *)
theory Adm_Pii
  imports Adm_Image
begin

section \<open>V2: the pii taint walk\<close>

text \<open>
  \<open>internal/admission/flow.go\<close>, first half: the \<open>v2walk\<close> over a function body.  Binders are pushed
  in De Bruijn order, the innermost first here (Go appends at the end and looks up from the end).
  The walk threads the record \<open>v2\<close>; \<open>None\<close> is an index-out-of-range panic on a statement with too
  few children, which the lowering does not produce.  Where the code ranges over an expression
  without changing the scope, the diagnostics and the names it adds are computed as lists and
  appended.
\<close>

record scoped =
  b_name :: string
  b_pii :: bool

text \<open>\<open>v2_im\<close>, \<open>v2_types\<close>, \<open>v2_exported\<close>, \<open>v2_hash\<close>, \<open>v2_cat\<close> and \<open>v2_returns\<close> are the walker's constant
  fields; \<open>v2_returns\<close> is \<open>piiReturn\<close>.\<close>

record v2ctx =
  v2_im :: image
  v2_types :: "string list"
  v2_exported :: bool
  v2_hash :: string
  v2_cat :: string
  v2_returns :: "string list"

record v2 =
  v2_env :: "scoped list"
  v2_diags :: "diag list"
  v2_touched :: "string set"

text \<open>\<open>v2walk.push\<close>, \<open>v2walk.lookup\<close> and \<open>v2walk.report\<close>.\<close>

definition v2_push :: "string \<Rightarrow> bool \<Rightarrow> v2 \<Rightarrow> v2" where
  "v2_push nm pii w = w\<lparr>v2_env := \<lparr>b_name = nm, b_pii = pii\<rparr> # v2_env w\<rparr>"

definition v2_lookup :: "'b list \<Rightarrow> u64 \<Rightarrow> 'b option" where
  "v2_lookup env u = nth_go env (unat u)"

definition v2_diag :: "v2ctx \<Rightarrow> string \<Rightarrow> string \<Rightarrow> diag" where
  "v2_diag C code about = \<lparr>dg_stage = ''V2'', dg_code = code, dg_subject = v2_cat C,
     dg_def = v2_hash C, dg_about = about\<rparr>"

definition v2_report :: "v2ctx \<Rightarrow> string \<Rightarrow> string \<Rightarrow> v2 \<Rightarrow> v2" where
  "v2_report C code about w = w\<lparr>v2_diags := v2_diags w @ [v2_diag C code about]\<rparr>"

subsection \<open>Taint of an expression\<close>

definition sanitizers :: "string list" where
  "sanitizers = [''std/pii.mask'', ''std/pii.reveal'']"

text \<open>What \<open>taintedCall\<close> decides from the callee alone: a call the walk takes for clean whatever its
  arguments are, and a call it takes for tainted.\<close>

definition cleans :: "image \<Rightarrow> node \<Rightarrow> bool" where
  "cleans im callee \<longleftrightarrow>
     std_intrinsic_of im callee \<in> set sanitizers \<or> ui_component_of im callee \<noteq> []"

definition returns_pii :: "string list \<Rightarrow> node \<Rightarrow> bool" where
  "returns_pii rets callee \<longleftrightarrow> nk callee = KRef \<and> nstr callee \<in> set rets"

text \<open>\<open>tainted\<close> with \<open>taintedCall\<close> and \<open>flatKids\<close>.\<close>

function tainted :: "v2ctx \<Rightarrow> scoped list \<Rightarrow> node \<Rightarrow> bool" where
  "tainted C env (Node k s u m ks) = (case k of
     KLocal \<Rightarrow> (case v2_lookup env u of None \<Rightarrow> False | Some b \<Rightarrow> b_pii b)
   | KCall \<Rightarrow> (case ks of
       callee # args # _ \<Rightarrow>
         if cleans (v2_im C) callee then False
         else if returns_pii (v2_returns C) callee then True
         else list_ex (tainted C env) (nkids args)
     | _ \<Rightarrow> False)
   | KMember \<Rightarrow> (case ks of x # _ \<Rightarrow> tainted C env x | [] \<Rightarrow> False)
   | KIndex \<Rightarrow> (case ks of x # _ \<Rightarrow> tainted C env x | [] \<Rightarrow> False)
   | KAwait \<Rightarrow> (case ks of x # _ \<Rightarrow> tainted C env x | [] \<Rightarrow> False)
   | KAsConst \<Rightarrow> (case ks of x # _ \<Rightarrow> tainted C env x | [] \<Rightarrow> False)
   | KSatisfy \<Rightarrow> (case ks of x # _ \<Rightarrow> tainted C env x | [] \<Rightarrow> False)
   | KUnary \<Rightarrow> (case ks of x # _ \<Rightarrow> tainted C env x | [] \<Rightarrow> False)
   | KBinary \<Rightarrow> list_ex (tainted C env) ks
   | KCond \<Rightarrow> list_ex (tainted C env) ks
   | KTemplate \<Rightarrow> (case ks of l # _ \<Rightarrow> list_ex (tainted C env) (nkids l) | [] \<Rightarrow> False)
   | KArray \<Rightarrow> (case ks of l # _ \<Rightarrow> list_ex (tainted C env) (nkids l) | [] \<Rightarrow> False)
   | KObject \<Rightarrow> (case ks of
       l # _ \<Rightarrow> list_ex (\<lambda>p. nk p = KProp \<and>
         (case nkids p of _ # v # _ \<Rightarrow> tainted C env v | _ \<Rightarrow> False)) (nkids l)
     | [] \<Rightarrow> False)
   | _ \<Rightarrow> False)"
  by pat_completeness auto

termination tainted
  by (relation "measure (\<lambda>(_, _, n). size n)")
    (auto dest!: size_nkids size_nkids_Cons dest: size_in_kids)

subsection \<open>Sinks\<close>

text \<open>\<open>isBoundarySink\<close>.\<close>

definition is_boundary_sink :: "image \<Rightarrow> string \<Rightarrow> bool" where
  "is_boundary_sink im h \<longleftrightarrow> im_cap im h \<noteq> None \<or> im_effect im h = ''external''"

text \<open>The component a call constructs when it is one where pii may not bind.\<close>

definition nonleaf_component :: "image \<Rightarrow> node \<Rightarrow> string" where
  "nonleaf_component im callee =
     (let comp = ui_component_of im callee in if comp \<in> set masking_leaves then [] else comp)"

text \<open>\<open>collectPiiRefs\<close>: the names of the pii variables an expression refers to.\<close>

fun pii_refs :: "scoped list \<Rightarrow> node \<Rightarrow> string set" where
  "pii_refs env (Node k s u m ks) =
     (if k = KLocal then
        (case v2_lookup env u of
           Some b \<Rightarrow> if b_pii b \<and> b_name b \<noteq> [] then {b_name b} else {}
         | None \<Rightarrow> {})
      else {}) \<union> \<Union> (set (map (pii_refs env) ks))"

text \<open>What \<open>checkExpr\<close> reports and records at a call, and over a whole expression.\<close>

definition call_diags :: "v2ctx \<Rightarrow> scoped list \<Rightarrow> node \<Rightarrow> node list \<Rightarrow> diag list" where
  "call_diags C env callee args =
     (if nk callee = KRef then
        (if is_boundary_sink (v2_im C) (nstr callee) then
           map (\<lambda>_. v2_diag C ''PII_ESCAPE'' (std_intrinsic_of (v2_im C) callee))
             (filter (tainted C env) args)
         else []) @
        (if nonleaf_component (v2_im C) callee \<noteq> [] then
           map (\<lambda>_. v2_diag C ''PII_NONLEAF_BIND'' (nonleaf_component (v2_im C) callee))
             (filter (tainted C env) args)
         else [])
      else [])"

fun expr_diags :: "v2ctx \<Rightarrow> scoped list \<Rightarrow> node \<Rightarrow> diag list" where
  "expr_diags C env (Node k s u m ks) =
     (if k = KCall then
        (case ks of callee # args # _ \<Rightarrow> call_diags C env callee (nkids args) | _ \<Rightarrow> [])
      else []) @ concat (map (expr_diags C env) ks)"

fun expr_touched :: "v2ctx \<Rightarrow> scoped list \<Rightarrow> node \<Rightarrow> string set" where
  "expr_touched C env (Node k s u m ks) =
     (if k = KCall then
        (case ks of
           callee # args # _ \<Rightarrow>
             if nk callee = KRef \<and> is_boundary_sink (v2_im C) (nstr callee)
             then \<Union> (set (map (pii_refs env) (nkids args))) else {}
         | _ \<Rightarrow> {})
      else {}) \<union> \<Union> (set (map (expr_touched C env) ks))"

definition check_expr :: "v2ctx \<Rightarrow> node \<Rightarrow> v2 \<Rightarrow> v2" where
  "check_expr C n w = w\<lparr>v2_diags := v2_diags w @ expr_diags C (v2_env w) n,
     v2_touched := v2_touched w \<union> expr_touched C (v2_env w) n\<rparr>"

subsection \<open>Throws\<close>

text \<open>\<open>provablyCleanThrow\<close> and \<open>throwsPossiblyPii\<close>.\<close>

function clean_throw :: "node \<Rightarrow> bool" where
  "clean_throw (Node k s u m ks) = (
     if k \<in> {KNum, KBigInt, KStr, KBool, KNull, KUndefined, KRegex} then True
     else if k = KTemplate then
       (case ks of [] \<Rightarrow> True
        | l # _ \<Rightarrow> list_all (\<lambda>p. nk p = KStrPart \<or> clean_throw p) (nkids l))
     else if k \<in> {KBinary, KUnary, KCond, KTypeof, KAsConst} then list_all clean_throw ks
     else if k = KSatisfy then (case ks of [] \<Rightarrow> False | x # _ \<Rightarrow> clean_throw x)
     else if k = KArray then
       (case ks of [] \<Rightarrow> True
        | l # _ \<Rightarrow> list_all (\<lambda>x. nk x \<noteq> KSpread \<and> clean_throw x) (nkids l))
     else if k = KObject then
       (case ks of [] \<Rightarrow> True
        | l # _ \<Rightarrow> list_all (\<lambda>p. nk p = KProp \<and> \<not> flag0 p \<and>
            (case nkids p of _ # v # _ \<Rightarrow> clean_throw v | _ \<Rightarrow> False)) (nkids l))
     else False)"
  by pat_completeness auto

termination clean_throw
  by (relation "measure size") (auto dest!: size_nkids size_nkids_Cons dest: size_in_kids)

fun throws_possibly_pii :: "node \<Rightarrow> bool" where
  "throws_possibly_pii (Node k s u m ks) \<longleftrightarrow>
     (case ks of e # _ \<Rightarrow> k = KThrow \<and> \<not> clean_throw e | [] \<Rightarrow> False) \<or>
     list_ex throws_possibly_pii ks"

subsection \<open>Statements\<close>

definition v2_bind :: "node \<Rightarrow> bool \<Rightarrow> v2 \<Rightarrow> v2" where
  "v2_bind pat pii w = foldl (\<lambda>w b. v2_push (nstr b) pii w) w (collect_bind_ids pat)"

text \<open>\<open>w.env = w.env[:base]\<close>: the walk only appends, so truncating to the length at entry restores
  the scope at entry.\<close>

definition v2_leave :: "v2 \<Rightarrow> v2 \<Rightarrow> v2" where
  "v2_leave w0 w = w\<lparr>v2_env := v2_env w0\<rparr>"

definition v2_declr :: "v2ctx \<Rightarrow> node \<Rightarrow> v2 \<Rightarrow> v2" where
  "v2_declr C d w =
     (if nk d = KDeclr then
        (case nkids d of
           pat # typ # init # _ \<Rightarrow>
             let pii_type = is_type_in (v2_types C) typ;
                 w = (if pii_type \<and> is_literal_node init then v2_report C ''PII_LITERAL'' [] w else w);
                 w = check_expr C init w
             in v2_bind pat (pii_type \<or> tainted C (v2_env w) init) w
         | _ \<Rightarrow> w)
      else w)"

text \<open>\<open>returnedName\<close>.\<close>

definition returned_name :: "scoped list \<Rightarrow> node \<Rightarrow> string" where
  "returned_name env n =
     (case (nk n, v2_lookup env (nu n)) of
        (KLocal, Some b) \<Rightarrow> if b_name b \<noteq> [] then b_name b else ''value''
      | _ \<Rightarrow> ''value'')"

definition v2_return :: "v2ctx \<Rightarrow> node \<Rightarrow> v2 \<Rightarrow> v2" where
  "v2_return C e w =
     (let w = check_expr C e w in
      if v2_exported C then
        let w = w\<lparr>v2_touched := v2_touched w \<union> pii_refs (v2_env w) e\<rparr> in
        if tainted C (v2_env w) e
        then v2_report C ''PII_ESCAPE'' (returned_name (v2_env w) e) w else w
      else w)"

definition check_unless_none :: "v2ctx \<Rightarrow> node \<Rightarrow> v2 \<Rightarrow> v2" where
  "check_unless_none C n w = (if is_none n then w else check_expr C n w)"

text \<open>The pattern of a for-of: \<open>st.Kids[0].Kids[0].Kids[0].Kids[0]\<close>.\<close>

definition loop_pattern :: "node \<Rightarrow> node option" where
  "loop_pattern d = do { l \<leftarrow> kid d 0; x \<leftarrow> kid l 0; kid x 0 }"

text \<open>\<open>walkStmt\<close>, \<open>walkStmts\<close> and the clause loop of a switch.\<close>

function (sequential) walk_stmt :: "v2ctx \<Rightarrow> node \<Rightarrow> v2 \<Rightarrow> v2 option"
  and walk_seq :: "v2ctx \<Rightarrow> node list \<Rightarrow> v2 \<Rightarrow> v2 option"
  and walk_clauses :: "v2ctx \<Rightarrow> node list \<Rightarrow> v2 \<Rightarrow> v2 option" where
  "walk_stmt C (Node k s u m ks) w = (case k of
     KVarDecl \<Rightarrow> (case ks of l # _ \<Rightarrow> Some (fold (v2_declr C) (nkids l) w) | [] \<Rightarrow> Some w)
   | KReturn \<Rightarrow> (case ks of
       e # _ \<Rightarrow> Some (if is_none e then w else v2_return C e w) | [] \<Rightarrow> Some w)
   | KExprStmt \<Rightarrow> (case ks of e # _ \<Rightarrow> Some (check_expr C e w) | [] \<Rightarrow> Some w)
   | KThrow \<Rightarrow> (case ks of e # _ \<Rightarrow> Some (check_expr C e w) | [] \<Rightarrow> Some w)
   | KIf \<Rightarrow> (case ks of
       c # t # r \<Rightarrow> do {
         w \<leftarrow> walk_stmt C t (check_expr C c w);
         (case r of e # _ \<Rightarrow> if is_none e then Some w else walk_stmt C e w | [] \<Rightarrow> Some w) }
     | _ \<Rightarrow> Some w)
   | KBlock \<Rightarrow> (case ks of
       l # _ \<Rightarrow> do { w' \<leftarrow> walk_seq C (nkids l) w; Some (v2_leave w w') } | [] \<Rightarrow> Some w)
   | KFor \<Rightarrow> (case ks of
       i # c # n # b # _ \<Rightarrow> do {
         w' \<leftarrow> (if is_none i then Some w
                else if nk i = KVarDecl then walk_stmt C i w else Some (check_expr C i w));
         w' \<leftarrow> walk_stmt C b (check_unless_none C n (check_unless_none C c w'));
         Some (v2_leave w w') }
     | _ \<Rightarrow> None)
   | KForOf \<Rightarrow> (case ks of
       d # it # b # _ \<Rightarrow> do {
         pat \<leftarrow> loop_pattern d;
         w' \<leftarrow> walk_stmt C b (v2_bind pat (tainted C (v2_env w) it) (check_expr C it w));
         Some (v2_leave w w') }
     | _ \<Rightarrow> None)
   | KWhile \<Rightarrow> (case ks of c # b # _ \<Rightarrow> walk_stmt C b (check_expr C c w) | _ \<Rightarrow> None)
   | KDoWhile \<Rightarrow> (case ks of
       b # c # _ \<Rightarrow> do { w \<leftarrow> walk_stmt C b w; Some (check_expr C c w) } | _ \<Rightarrow> None)
   | KSwitch \<Rightarrow> (case ks of
       d # l # _ \<Rightarrow> walk_clauses C (nkids l) (check_expr C d w) | _ \<Rightarrow> None)
   | KTry \<Rightarrow> (case ks of
       b # c # f # _ \<Rightarrow> do {
         w \<leftarrow> walk_stmt C b w;
         w \<leftarrow> (if is_none c then Some w
               else (case nkids c of
                 p # h # _ \<Rightarrow> do {
                   w' \<leftarrow> walk_stmt C h
                     (if flag0 c then v2_bind p (throws_possibly_pii b) w else w);
                   Some (v2_leave w w') }
               | _ \<Rightarrow> None));
         if is_none f then Some w else walk_stmt C f w }
     | _ \<Rightarrow> None)
   | _ \<Rightarrow> Some w)"
| "walk_seq C [] w = Some w"
| "walk_seq C (st # sts) w = do { w \<leftarrow> walk_stmt C st w; walk_seq C sts w }"
| "walk_clauses C [] w = Some w"
| "walk_clauses C (cl # cls) w =
     (case nkids cl of
        t # b # _ \<Rightarrow> do {
          let w = (if flag0 cl then w else check_unless_none C t w);
          w' \<leftarrow> walk_seq C (nkids b) w;
          walk_clauses C cls (v2_leave w w') }
      | _ \<Rightarrow> None)"
  by pat_completeness auto

termination
  by (relation "measure (\<lambda>x. case x of
      Inl (_, n, _) \<Rightarrow> size n
    | Inr (Inl (_, ns, _)) \<Rightarrow> size_list size ns
    | Inr (Inr (_, ns, _)) \<Rightarrow> size_list size ns)")
    (auto dest!: size_nkids_Cons intro!: size_list_nkids_le)

subsection \<open>The verifier\<close>

text \<open>\<open>verifyV2Def\<close>; the panic \<open>None\<close> aside, a definition that is not a function passes unread, and
  so does a function whose body is an expression.\<close>

definition v2_param :: "v2ctx \<Rightarrow> node \<Rightarrow> v2 \<Rightarrow> v2" where
  "v2_param C prm w =
     (if nk prm = KParam then
        (case nkids prm of pat # typ # _ \<Rightarrow> v2_bind pat (is_type_in (v2_types C) typ) w | _ \<Rightarrow> w)
      else w)"

definition v2_ctx :: "image \<Rightarrow> string list \<Rightarrow> lowered \<Rightarrow> v2ctx" where
  "v2_ctx im rets d = \<lparr>v2_im = im, v2_types = pii_type_hashes d, v2_exported = ld_exported d,
     v2_hash = ld_hash d, v2_cat = ld_catalog d, v2_returns = rets\<rparr>"

definition v2_start :: v2 where
  "v2_start = \<lparr>v2_env = [], v2_diags = [], v2_touched = {}\<rparr>"

definition named_body :: "lowered \<Rightarrow> node" where
  "named_body d = fst (name_binds (ld_names d) 0 (ld_body d))"

definition verify_v2_def :: "image \<Rightarrow> string list \<Rightarrow> lowered \<Rightarrow> (diag list \<times> string set) option" where
  "verify_v2_def im rets d =
     (case func_parts (ld_kind d) (named_body d) of
        None \<Rightarrow> Some ([], {})
      | Some (params, _, body) \<Rightarrow>
          let C = v2_ctx im rets d; w = fold (v2_param C) params v2_start in
          (case (nk body, nkids body) of
             (KBlock, l # _) \<Rightarrow> do {
               w' \<leftarrow> walk_seq C (nkids l) w;
               Some (v2_diags w', v2_touched w') }
           | _ \<Rightarrow> Some (v2_diags w, v2_touched w)))"

text \<open>\<open>piiReturnMap\<close>: the definitions of the patch whose declared result type is a pii type.\<close>

definition pii_return_map :: "lowered list \<Rightarrow> string list" where
  "pii_return_map ds = map ld_hash (filter (\<lambda>d.
     case func_parts (ld_kind d) (ld_body d) of
       Some (_, ret, _) \<Rightarrow> is_type_in (pii_type_hashes d) ret | None \<Rightarrow> False) ds)"

text \<open>\<open>verifyV2\<close> and \<open>collectPiiTouched\<close>.\<close>

fun run_v2 :: "image \<Rightarrow> string list \<Rightarrow> lowered list \<Rightarrow> (diag list \<times> string set) option" where
  "run_v2 im rets [] = Some ([], {})"
| "run_v2 im rets (d # ds) = do {
     (x, t) \<leftarrow> verify_v2_def im rets d;
     (y, t') \<leftarrow> run_v2 im rets ds;
     Some (x @ y, t \<union> t') }"

definition verify_v2 :: "image \<Rightarrow> lowered list \<Rightarrow> diag list option" where
  "verify_v2 im ds = map_option fst (run_v2 im (pii_return_map ds) ds)"

definition collect_pii_touched :: "image \<Rightarrow> lowered list \<Rightarrow> string set option" where
  "collect_pii_touched im ds = map_option snd (run_v2 im (pii_return_map ds) ds)"

end
