(* ===== verification/Adm_Paths.thy ===== *)
theory Adm_Paths
  imports Adm_Pii Cek_Control
begin

section \<open>Paths through a body, and what they send to a sink\<close>

text \<open>
  The specification V2 is measured against: the data that flows along one path through a body.  A
  world \<open>interp\<close> gives a value to every operator, call, pattern variable and element; it is a
  parameter, so a fact about all worlds holds whatever the operators and the callees compute.  The
  list of decisions names the path: which branch an \<open>if\<close> takes, whether a loop goes round again,
  which element a for-of is at, which clause a switch enters.  Two runs with the same decisions and
  different pii values therefore compare what explicitly flows from the pii, the relation a taint
  analysis is about; what the choice of the path itself reveals is outside it.

  \<open>exec\<close> runs a statement for at most \<open>n\<close> nested steps; \<open>None\<close> means the steps or the decisions
  have run out.
\<close>

record 'v interp =
  it_op :: "kind \<Rightarrow> string \<Rightarrow> u64 \<Rightarrow> bytes \<Rightarrow> 'v list \<Rightarrow> 'v"
  it_call :: "node \<Rightarrow> 'v list \<Rightarrow> 'v"
  it_bind :: "node \<Rightarrow> nat \<Rightarrow> 'v \<Rightarrow> 'v list \<Rightarrow> 'v"
  it_elem :: "nat \<Rightarrow> 'v \<Rightarrow> 'v"

text \<open>A variable of a pattern may depend on the scope, through a default it declares.\<close>

subsection \<open>Expressions\<close>

text \<open>A closure's value depends on every variable in scope, a call's on the callee too.\<close>

function eval :: "'v interp \<Rightarrow> 'v list \<Rightarrow> node \<Rightarrow> 'v" where
  "eval I vs (Node k s u m ks) = (
     if k = KLocal then (if unat u < length vs then vs ! unat u else it_op I k s u m [])
     else if k = KFunc then it_op I k s u m vs
     else if k = KCall then
       (case ks of
          callee # args # _ \<Rightarrow> it_call I callee (eval I vs callee # map (eval I vs) (nkids args))
        | _ \<Rightarrow> it_op I k s u m [])
     else if k = KSatisfy then (case ks of x # _ \<Rightarrow> eval I vs x | [] \<Rightarrow> it_op I k s u m [])
     else it_op I k s u m (map (eval I vs) ks))"
  by pat_completeness auto

termination eval
  by (relation "measure (\<lambda>(_, _, n). size n)") (auto dest!: size_nkids dest: size_in_kids)

type_synonym 'v event = "string \<times> 'v list"

text \<open>The calls of an expression that reach a sink of V2, with the values they are given.\<close>

definition is_sink :: "image \<Rightarrow> node \<Rightarrow> bool" where
  "is_sink im callee \<longleftrightarrow> nk callee = KRef \<and>
     (is_boundary_sink im (nstr callee) \<or> nonleaf_component im callee \<noteq> [])"

fun sunk :: "'v interp \<Rightarrow> image \<Rightarrow> 'v list \<Rightarrow> node \<Rightarrow> 'v event list" where
  "sunk I im vs (Node k s u m ks) =
     (if k = KCall then
        (case ks of
           callee # args # _ \<Rightarrow>
             if is_sink im callee then [(nstr callee, map (eval I vs) (nkids args))] else []
         | _ \<Rightarrow> [])
      else []) @ concat (map (sunk I im vs) ks)"

text \<open>The assignment an expression statement makes to a local variable.\<close>

definition effect :: "'v interp \<Rightarrow> node \<Rightarrow> 'v list \<Rightarrow> 'v list" where
  "effect I e vs =
     (case (nk e, nkids e) of
        (KUpdate, [x]) \<Rightarrow>
          if nk x = KLocal
          then vs[unat (nu x) := it_op I (nk e) (nstr e) (nu e) (nmag e) [eval I vs x]] else vs
      | (KBinary, [x, r]) \<Rightarrow>
          if nk x = KLocal \<and> is_assign_op (op_of (nu e))
          then vs[unat (nu x) := it_op I (nk e) (nstr e) (nu e) (nmag e) [eval I vs x, eval I vs r]]
          else vs
      | _ \<Rightarrow> vs)"

subsection \<open>Statements\<close>

datatype 'v ending = Fell | Ret 'v | Thr 'v | Brk | Cnt

text \<open>The events so far, the outcome, the variables in scope, the decisions left.\<close>

type_synonym 'v run = "'v event list \<times> 'v ending \<times> 'v list \<times> nat list"

definition bind_vars :: "'v interp \<Rightarrow> node \<Rightarrow> 'v \<Rightarrow> 'v list \<Rightarrow> 'v list" where
  "bind_vars I pat v vs =
     rev (map (\<lambda>j. it_bind I pat j v vs) [0..<length (collect_bind_ids pat)]) @ vs"

definition leave :: "'v list \<Rightarrow> 'v list \<Rightarrow> 'v list" where
  "leave vs vs' = drop (length vs' - length vs) vs'"

definition exec_declr :: "'v interp \<Rightarrow> image \<Rightarrow> node \<Rightarrow> 'v event list \<times> 'v list \<Rightarrow> 'v event list \<times> 'v list"
where
  "exec_declr I im d r =
     (case (r, nkids d) of
        ((evs, vs), pat # _ # init # _) \<Rightarrow>
          if nk d = KDeclr then (evs @ sunk I im vs init, bind_vars I pat (eval I vs init) vs)
          else r
      | _ \<Rightarrow> r)"

definition opt_sunk :: "'v interp \<Rightarrow> image \<Rightarrow> 'v list \<Rightarrow> node \<Rightarrow> 'v event list" where
  "opt_sunk I im vs e = (if is_none e then [] else sunk I im vs e)"

definition opt_effect :: "'v interp \<Rightarrow> node \<Rightarrow> 'v list \<Rightarrow> 'v list" where
  "opt_effect I e vs = (if is_none e then vs else effect I e vs)"

definition add_events :: "'v event list \<Rightarrow> 'v run \<Rightarrow> 'v run" where
  "add_events evs r = (evs @ fst r, snd r)"

text \<open>The result of one run feeding the next: \<open>seq_run\<close> goes on only where the first fell through,
  \<open>loop_run\<close> also after a \<open>continue\<close>, and a \<open>break\<close> ends the loop.\<close>

definition seq_run :: "'v run option \<Rightarrow> ('v list \<Rightarrow> nat list \<Rightarrow> 'v run option) \<Rightarrow> 'v run option" where
  "seq_run x f = do {
     (evs, out, vs, ds) \<leftarrow> x;
     (case out of Fell \<Rightarrow> map_option (add_events evs) (f vs ds) | _ \<Rightarrow> Some (evs, out, vs, ds)) }"

definition loop_run ::
  "'v list \<Rightarrow> 'v run option \<Rightarrow> ('v list \<Rightarrow> nat list \<Rightarrow> 'v run option) \<Rightarrow> 'v run option" where
  "loop_run vs0 x f = do {
     (evs, out, vs, ds) \<leftarrow> x;
     (case out of
        Fell \<Rightarrow> map_option (add_events evs) (f (leave vs0 vs) ds)
      | Cnt \<Rightarrow> map_option (add_events evs) (f (leave vs0 vs) ds)
      | Brk \<Rightarrow> Some (evs, Fell, leave vs0 vs, ds)
      | _ \<Rightarrow> Some (evs, out, leave vs0 vs, ds)) }"

definition block_run :: "'v list \<Rightarrow> 'v run option \<Rightarrow> 'v run option" where
  "block_run vs0 x = do { (evs, out, vs, ds) \<leftarrow> x; Some (evs, out, leave vs0 vs, ds) }"

definition catch_run :: "bool \<Rightarrow> 'v list \<Rightarrow> 'v run option \<Rightarrow>
  ('v \<Rightarrow> 'v list \<Rightarrow> nat list \<Rightarrow> 'v run option) \<Rightarrow> 'v run option" where
  "catch_run no_catch vs0 x f = do {
     (evs, out, vs, ds) \<leftarrow> x;
     (case out of
        Thr v \<Rightarrow> if no_catch then Some (evs, out, leave vs0 vs, ds)
          else block_run vs0 (map_option (add_events evs) (f v (leave vs0 vs) ds))
      | _ \<Rightarrow> Some (evs, out, leave vs0 vs, ds)) }"

definition clause_run ::
  "'v list \<Rightarrow> 'v run option \<Rightarrow> ('v list \<Rightarrow> nat list \<Rightarrow> 'v run option) \<Rightarrow> 'v run option" where
  "clause_run vs0 x f = do {
     (evs, out, vs, ds) \<leftarrow> x;
     (case out of
        Fell \<Rightarrow> map_option (add_events evs) (f (leave vs0 vs) ds)
      | Brk \<Rightarrow> Some (evs, Fell, leave vs0 vs, ds)
      | _ \<Rightarrow> Some (evs, out, leave vs0 vs, ds)) }"

definition finally_run ::
  "'v list \<Rightarrow> 'v run option \<Rightarrow> ('v list \<Rightarrow> nat list \<Rightarrow> 'v run option) \<Rightarrow> 'v run option" where
  "finally_run vs0 x f = do {
     (evs, out, vs, ds) \<leftarrow> x;
     (evs', out', vs', ds') \<leftarrow> f (leave vs0 vs) ds;
     Some (evs @ evs', (case out' of Fell \<Rightarrow> out | _ \<Rightarrow> out'), leave vs0 vs', ds') }"

text \<open>The tests a switch evaluates before it enters clause \<open>d\<close>: those up to \<open>d\<close>, or all of them
  when no test holds.\<close>

definition clause_tests :: "node list \<Rightarrow> nat \<Rightarrow> node list" where
  "clause_tests cls d =
     (let cls' = (if d < length cls \<and> \<not> flag0 (cls ! d) then take (Suc d) cls else cls)
      in concat (map (\<lambda>cl. if flag0 cl then [] else take 1 (nkids cl)) cls'))"

text \<open>What there is to run: a statement, a statement list, the clauses from the one entered on, a loop
  with its test and update, the rest of a for-of over a value.\<close>

datatype 'v job = Stmt node | Seq "node list" | Clauses "node list" | Loop node node node
  | Each node 'v node

type_synonym 'v runner = "'v job \<Rightarrow> 'v list \<Rightarrow> nat list \<Rightarrow> 'v run option"

text \<open>One step of each, with \<open>R\<close> running the parts.\<close>

definition exec_stmt :: "'v interp \<Rightarrow> image \<Rightarrow> 'v runner \<Rightarrow> node \<Rightarrow> 'v list \<Rightarrow> nat list \<Rightarrow> 'v run option"
where
  "exec_stmt I im R st vs ds = (case nk st of
     KVarDecl \<Rightarrow> (case nkids st of
       l # _ \<Rightarrow>
         (let (evs, vs') = fold (exec_declr I im) (nkids l) ([], vs) in Some (evs, Fell, vs', ds))
     | [] \<Rightarrow> Some ([], Fell, vs, ds))
   | KReturn \<Rightarrow> (case nkids st of
       e # _ \<Rightarrow> Some (opt_sunk I im vs e, Ret (eval I vs e), vs, ds)
     | [] \<Rightarrow> Some ([], Ret (eval I vs none_node), vs, ds))
   | KThrow \<Rightarrow> (case nkids st of
       e # _ \<Rightarrow> Some (sunk I im vs e, Thr (eval I vs e), vs, ds) | [] \<Rightarrow> None)
   | KExprStmt \<Rightarrow> (case nkids st of
       e # _ \<Rightarrow> Some (sunk I im vs e, Fell, effect I e vs, ds) | [] \<Rightarrow> None)
   | KBreak \<Rightarrow> Some ([], Brk, vs, ds)
   | KContinue \<Rightarrow> Some ([], Cnt, vs, ds)
   | KBlock \<Rightarrow> (case nkids st of
       l # _ \<Rightarrow> block_run vs (R (Seq (nkids l)) vs ds) | [] \<Rightarrow> None)
   | KIf \<Rightarrow> (case nkids st of
       c # t # r \<Rightarrow> (case ds of
           [] \<Rightarrow> None
         | d # ds \<Rightarrow> map_option (add_events (sunk I im vs c))
             (if d = 0 then R (Stmt t) vs ds
              else (case r of e # _ \<Rightarrow> R (Stmt e) vs ds | [] \<Rightarrow> Some ([], Fell, vs, ds))))
     | _ \<Rightarrow> None)
   | KFor \<Rightarrow> (case nkids st of
       i # c # u # b # _ \<Rightarrow>
         block_run vs (seq_run
           (if nk i = KVarDecl then R (Stmt i) vs ds
            else Some (opt_sunk I im vs i, Fell, opt_effect I i vs, ds))
           (R (Loop c u b)))
     | _ \<Rightarrow> None)
   | KForOf \<Rightarrow> (case nkids st of
       d # it # b # _ \<Rightarrow> do {
         pat \<leftarrow> loop_pattern d;
         map_option (add_events (sunk I im vs it)) (R (Each pat (eval I vs it) b) vs ds) }
     | _ \<Rightarrow> None)
   | KWhile \<Rightarrow> (case nkids st of
       c # b # _ \<Rightarrow> R (Loop c none_node b) vs ds | _ \<Rightarrow> None)
   | KDoWhile \<Rightarrow> (case nkids st of
       b # c # _ \<Rightarrow> loop_run vs (R (Stmt b) vs ds) (R (Loop c none_node b))
     | _ \<Rightarrow> None)
   | KSwitch \<Rightarrow> (case nkids st of
       d # l # _ \<Rightarrow> (case ds of
           [] \<Rightarrow> None
         | j # ds \<Rightarrow> map_option (add_events
               (sunk I im vs d @ concat (map (opt_sunk I im vs) (clause_tests (nkids l) j))))
             (R (Clauses (drop j (nkids l))) vs ds))
     | _ \<Rightarrow> None)
   | KTry \<Rightarrow> (case nkids st of
       b # c # f # _ \<Rightarrow>
         finally_run vs
           (catch_run (is_none c) vs (R (Stmt b) vs ds) (\<lambda>v vs' ds'.
              (case nkids c of
                 p # h # _ \<Rightarrow> R (Stmt h) (if flag0 c then bind_vars I p v vs' else vs') ds'
               | _ \<Rightarrow> None)))
           (\<lambda>vs' ds'. if is_none f then Some ([], Fell, vs', ds') else R (Stmt f) vs' ds')
     | _ \<Rightarrow> None)
   | _ \<Rightarrow> Some ([], Fell, vs, ds))"

definition exec_seq :: "'v runner \<Rightarrow> node list \<Rightarrow> 'v list \<Rightarrow> nat list \<Rightarrow> 'v run option" where
  "exec_seq R sts vs ds = (case sts of
     [] \<Rightarrow> Some ([], Fell, vs, ds)
   | st # sts \<Rightarrow> seq_run (R (Stmt st) vs ds) (R (Seq sts)))"

definition exec_clauses :: "'v runner \<Rightarrow> node list \<Rightarrow> 'v list \<Rightarrow> nat list \<Rightarrow> 'v run option" where
  "exec_clauses R cls vs ds = (case cls of
     [] \<Rightarrow> Some ([], Fell, vs, ds)
   | cl # cls \<Rightarrow> (case nkids cl of
       _ # b # _ \<Rightarrow> clause_run vs (R (Seq (nkids b)) vs ds) (R (Clauses cls))
     | _ \<Rightarrow> None))"

definition exec_loop ::
  "'v interp \<Rightarrow> image \<Rightarrow> 'v runner \<Rightarrow> node \<Rightarrow> node \<Rightarrow> node \<Rightarrow> 'v list \<Rightarrow> nat list \<Rightarrow> 'v run option"
where
  "exec_loop I im R c u b vs ds = (case ds of
     [] \<Rightarrow> None
   | d # ds \<Rightarrow> map_option (add_events (opt_sunk I im vs c))
       (if d = 0 then Some ([], Fell, vs, ds)
        else loop_run vs (R (Stmt b) vs ds) (\<lambda>vs' ds'.
          map_option (add_events (opt_sunk I im vs' u)) (R (Loop c u b) (opt_effect I u vs') ds'))))"

definition exec_each ::
  "'v interp \<Rightarrow> 'v runner \<Rightarrow> node \<Rightarrow> 'v \<Rightarrow> node \<Rightarrow> 'v list \<Rightarrow> nat list \<Rightarrow> 'v run option" where
  "exec_each I R pat v b vs ds = (case ds of
     [] \<Rightarrow> None
   | d # ds \<Rightarrow>
       if d = 0 then Some ([], Fell, vs, ds)
       else loop_run vs (R (Stmt b) (bind_vars I pat (it_elem I d v) vs) ds) (R (Each pat v b)))"

primrec exec :: "nat \<Rightarrow> 'v interp \<Rightarrow> image \<Rightarrow> 'v runner" where
  "exec 0 I im jb vs ds = None"
| "exec (Suc n) I im jb vs ds = (case jb of
     Stmt st \<Rightarrow> exec_stmt I im (exec n I im) st vs ds
   | Seq sts \<Rightarrow> exec_seq (exec n I im) sts vs ds
   | Clauses cls \<Rightarrow> exec_clauses (exec n I im) cls vs ds
   | Loop c u b \<Rightarrow> exec_loop I im (exec n I im) c u b vs ds
   | Each pat v b \<Rightarrow> exec_each I (exec n I im) pat v b vs ds)"

text \<open>A call of the definition with one value per parameter: the events and, where the definition
  is served, the value it returns.\<close>

definition bind_params :: "'v interp \<Rightarrow> node list \<Rightarrow> 'v list \<Rightarrow> 'v list" where
  "bind_params I params args =
     fold (\<lambda>(p, v) vs. bind_vars I (hd (nkids p)) v vs) (zip params args) []"

definition observed :: "bool \<Rightarrow> 'v run \<Rightarrow> 'v event list \<times> 'v option" where
  "observed exported r =
     (case r of (evs, out, _, _) \<Rightarrow> (evs, case out of Ret v \<Rightarrow> if exported then Some v else None | _ \<Rightarrow> None))"

definition run_def ::
  "nat \<Rightarrow> 'v interp \<Rightarrow> image \<Rightarrow> lowered \<Rightarrow> 'v list \<Rightarrow> nat list \<Rightarrow> ('v event list \<times> 'v option) option"
where
  "run_def n I im d args ds =
     (case func_parts (ld_kind d) (named_body d) of
        Some (params, _, body) \<Rightarrow>
          map_option (observed (ld_exported d)) (exec n I im (Stmt body) (bind_params I params args) ds)
      | None \<Rightarrow> None)"

end
