(* ===== verification/Adm_Pii_Sound.thy ===== *)
theory Adm_Pii_Sound
  imports Adm_Paths
begin

section \<open>V2 misses no flow of the forms it covers\<close>

text \<open>
  \<open>flow.go\<close> claims its analyses are sound for the forms they cover.  \<open>covered_stmt\<close> writes those
  forms down: every statement of the grammar, and every expression except closures, spreads, computed
  keys, method calls, nested or data-carrying assignments, destructuring defaults and an index that
  is itself a variable.  The main lemma runs the walk and two executions of the same path side by
  side.
\<close>

subsection \<open>The covered forms\<close>

text \<open>Nothing in the tree reads a variable, calls or closes over anything.\<close>

fun local_free :: "node \<Rightarrow> bool" where
  "local_free (Node k s u m ks) \<longleftrightarrow> k \<notin> {KLocal, KFunc, KCall} \<and> list_all local_free ks"

inductive covered_expr :: "node \<Rightarrow> bool" where
  free: "local_free n \<Longrightarrow> covered_expr n"
| local_var: "covered_expr (Node KLocal s u m [])"
| call: "local_free callee \<Longrightarrow> \<forall>x \<in> set as. covered_expr x \<Longrightarrow>
    covered_expr (Node KCall s u m [callee, Node KList s' u' m' as])"
| unary: "k \<in> {KMember, KAwait, KAsConst, KUnary} \<Longrightarrow> covered_expr x \<Longrightarrow>
    covered_expr (Node k s u m [x])"
| index: "covered_expr x \<Longrightarrow> local_free i \<Longrightarrow> covered_expr (Node KIndex s u m [x, i])"
| satisfy: "covered_expr x \<Longrightarrow> \<forall>t \<in> set ts. local_free t \<Longrightarrow>
    covered_expr (Node KSatisfy s u m (x # ts))"
| binary: "\<not> is_assign_op (op_of u) \<Longrightarrow> \<forall>x \<in> set xs. covered_expr x \<Longrightarrow>
    covered_expr (Node KBinary s u m xs)"
| cond: "\<forall>x \<in> set xs. covered_expr x \<Longrightarrow> covered_expr (Node KCond s u m xs)"
| elems: "k \<in> {KTemplate, KArray} \<Longrightarrow> \<forall>x \<in> set xs. covered_expr x \<Longrightarrow>
    covered_expr (Node k s u m [Node KList s' u' m' xs])"
| object: "\<forall>p \<in> set ps. \<exists>sp up mp key v. p = Node KProp sp up mp [key, v] \<and> local_free key \<and> covered_expr v \<Longrightarrow>
    covered_expr (Node KObject s u m [Node KList s' u' m' ps])"

text \<open>The right-hand side of an update reads no variable but the one it updates.\<close>

fun reads_only :: "u64 \<Rightarrow> node \<Rightarrow> bool" where
  "reads_only i (Node k s u m ks) \<longleftrightarrow>
     k \<notin> {KFunc, KCall} \<and> (k = KLocal \<longrightarrow> u = i) \<and> list_all (reads_only i) ks"

definition covered_update :: "node \<Rightarrow> bool" where
  "covered_update e \<longleftrightarrow>
     (if nk e = KUpdate then (case nkids e of [x] \<Rightarrow> nk x = KLocal \<and> nkids x = [] | _ \<Rightarrow> False)
      else nk e = KBinary \<and> is_assign_op (op_of (nu e)) \<and>
        (case nkids e of [x, r] \<Rightarrow> nk x = KLocal \<and> nkids x = [] \<and> reads_only (nu x) r | _ \<Rightarrow> False))"

definition covered_eff :: "node \<Rightarrow> bool" where
  "covered_eff e \<longleftrightarrow> covered_expr e \<or> covered_update e"

definition covered_declr :: "node \<Rightarrow> bool" where
  "covered_declr d \<longleftrightarrow>
     (case nkids d of [pat, typ, init] \<Rightarrow> local_free pat \<and> covered_expr init | _ \<Rightarrow> False)"

inductive covered_stmt :: "node \<Rightarrow> bool" and covered_body :: "node \<Rightarrow> bool" where
  var_decl: "\<forall>d \<in> set ds. covered_declr d \<Longrightarrow>
    covered_stmt (Node KVarDecl s u m [Node KList s' u' m' ds])"
| body: "covered_body st \<Longrightarrow> covered_stmt st"
| return: "covered_expr e \<Longrightarrow> covered_body (Node KReturn s u m [e])"
| throw: "covered_expr e \<Longrightarrow> covered_body (Node KThrow s u m [e])"
| expr: "covered_eff e \<Longrightarrow> covered_body (Node KExprStmt s u m [e])"
| if_then: "covered_expr c \<Longrightarrow> covered_body t \<Longrightarrow> \<forall>e \<in> set r. covered_body e \<Longrightarrow>
    covered_body (Node KIf s u m (c # t # r))"
| block: "\<forall>st \<in> set sts. covered_stmt st \<Longrightarrow>
    covered_body (Node KBlock s u m [Node KList s' u' m' sts])"
| for_loop: "(if nk i = KVarDecl then covered_stmt i else covered_eff i) \<Longrightarrow> covered_expr c \<Longrightarrow>
    covered_eff n \<Longrightarrow> covered_body b \<Longrightarrow> covered_body (Node KFor s u m [i, c, n, b])"
| for_of: "loop_pattern d = Some pat \<Longrightarrow> local_free pat \<Longrightarrow> covered_expr it \<Longrightarrow> covered_body b \<Longrightarrow>
    covered_body (Node KForOf s u m [d, it, b])"
| while_loop: "covered_expr c \<Longrightarrow> covered_body b \<Longrightarrow> covered_body (Node KWhile s u m [c, b])"
| do_while: "covered_expr c \<Longrightarrow> covered_body b \<Longrightarrow> covered_body (Node KDoWhile s u m [b, c])"
| switch: "covered_expr d \<Longrightarrow>
    \<forall>cl \<in> set cls. \<exists>t b. nkids cl = [t, b] \<and> covered_expr t \<and> (\<forall>st \<in> set (nkids b). covered_stmt st) \<Longrightarrow>
    covered_body (Node KSwitch s u m [d, Node KList s' u' m' cls])"
| try_catch: "covered_body b \<Longrightarrow> local_free p \<Longrightarrow> covered_body h \<Longrightarrow> covered_body f \<Longrightarrow>
    covered_body (Node KTry s u m [b, Node KCatch s' u' m' [p, h], f])"
| try_finally: "covered_body b \<Longrightarrow> is_none c \<Longrightarrow> covered_body f \<Longrightarrow>
    covered_body (Node KTry s u m [b, c, f])"
| jump: "k \<in> {KBreak, KContinue, KNone} \<Longrightarrow> covered_body (Node k s u m [])"

subsection \<open>Two worlds\<close>

text \<open>
  The worlds differ in what a call that returns pii yields.  A call that cleans (\<open>mask\<close>, \<open>reveal\<close>, a
  \<open>std/ui\<close> constructor) is what the program is allowed to show, so its result is taken as equal on
  both sides.  Everything else is a function of its operands.
\<close>

definition same_world :: "v2ctx \<Rightarrow> 'v interp \<Rightarrow> 'v interp \<Rightarrow> bool" where
  "same_world C I I' \<longleftrightarrow>
     it_op I = it_op I' \<and> it_elem I = it_elem I' \<and>
     (\<forall>pat j v vs vs'. local_free pat \<longrightarrow> it_bind I pat j v vs = it_bind I' pat j v vs') \<and>
     (\<forall>callee as as'. cleans (v2_im C) callee \<longrightarrow> it_call I callee as = it_call I' callee as') \<and>
     (\<forall>callee as. \<not> returns_pii (v2_returns C) callee \<longrightarrow> it_call I callee as = it_call I' callee as)"

definition agree :: "scoped list \<Rightarrow> 'v list \<Rightarrow> 'v list \<Rightarrow> bool" where
  "agree env vs vs' \<longleftrightarrow> length vs = length env \<and> length vs' = length env \<and>
     (\<forall>i < length env. \<not> b_pii (env ! i) \<longrightarrow> vs ! i = vs' ! i)"

lemma same_world_ops:
  assumes "same_world C I I'"
  shows "it_op I = it_op I'" and "it_elem I = it_elem I'"
  using assms unfolding same_world_def by blast+

lemma same_world_bind:
  "same_world C I I' \<Longrightarrow> local_free pat \<Longrightarrow> it_bind I pat j v vs = it_bind I' pat j v vs'"
  unfolding same_world_def by blast

lemma same_world_clean:
  "same_world C I I' \<Longrightarrow> cleans (v2_im C) callee \<Longrightarrow> it_call I callee as = it_call I' callee as'"
  unfolding same_world_def by blast

lemma same_world_call:
  "same_world C I I' \<Longrightarrow> \<not> returns_pii (v2_returns C) callee \<Longrightarrow>
   it_call I callee as = it_call I' callee as"
  unfolding same_world_def by blast

lemma agree_length: "agree env vs vs' \<Longrightarrow> length vs = length env \<and> length vs' = length env"
  by (simp add: agree_def)

lemma agree_nth:
  "agree env vs vs' \<Longrightarrow> \<not> b_pii (env ! i) \<Longrightarrow> i < length env \<Longrightarrow> vs ! i = vs' ! i"
  by (simp add: agree_def)

lemma agree_append:
  "length xs = length ys \<Longrightarrow> length zs = length ys \<Longrightarrow>
   (\<And>i. i < length ys \<Longrightarrow> \<not> b_pii (ys ! i) \<Longrightarrow> xs ! i = zs ! i) \<Longrightarrow> agree env vs vs' \<Longrightarrow>
   agree (ys @ env) (xs @ vs) (zs @ vs')"
  by (auto simp: agree_def nth_append)

lemma agree_update:
  assumes "agree env vs vs'" and "i < length env \<Longrightarrow> \<not> b_pii (env ! i) \<Longrightarrow> x = y"
  shows "agree env (vs[i := x]) (vs'[i := y])"
proof -
  have "vs[i := x] ! j = vs'[i := y] ! j" if "j < length env" "\<not> b_pii (env ! j)" for j
  proof (cases "i = j")
    case True
    then show ?thesis using assms(1) assms(2) that by (simp add: agree_def)
  next
    case False
    then show ?thesis using assms(1) that by (simp add: agree_def)
  qed
  then show ?thesis using assms(1) by (simp add: agree_def)
qed

subsection \<open>Expressions\<close>

lemma eval_local_free:
  assumes "same_world C I I'"
  shows "local_free n \<Longrightarrow> eval I vs n = eval I' vs' n"
proof (induction n rule: local_free.induct)
  case (1 k s u m ks)
  then have e: "map (eval I vs) ks = map (eval I' vs') ks"
    by (simp add: list_all_iff)
  then have "eval I vs (hd ks) = eval I' vs' (hd ks)" if "ks \<noteq> []"
    using that by (cases ks) auto
  moreover have "k \<noteq> KLocal" "k \<noteq> KFunc" "k \<noteq> KCall" using 1 by auto
  moreover have "it_op I = it_op I'" using assms by (rule same_world_ops)
  ultimately show ?case
    using e by (simp only: eval.simps if_False) (simp split: list.split)
qed

lemma sunk_local_free: "local_free n \<Longrightarrow> sunk I im vs n = []"
  by (induction n rule: local_free.induct) (auto simp: list_all_iff split: kind.split)

lemma text_untainted [simp]: "nk p = KStrPart \<Longrightarrow> \<not> tainted C env p"
  by (cases p) simp

lemma clean_throw_untainted: "clean_throw e \<Longrightarrow> \<not> tainted C env e"
proof (induction e rule: clean_throw.induct)
  case (1 k s u m ks)
  
  have P: "clean_throw (Node k s u m ks)" by fact
  then consider
      "k \<in> {KNum, KBigInt, KStr, KBool, KNull, KUndefined, KRegex, KTypeof}"
    | "k = KTemplate" | "k = KBinary" | "k = KCond" | "k = KUnary" | "k = KAsConst" | "k = KSatisfy"
    | "k = KArray" | "k = KObject"
    by (cases k) simp_all
  then show ?case
  proof cases
    case 2
    have "\<not> tainted C env p" if "ks = l # r" "p \<in> set (nkids l)" for l r p
      using that P 2 1(1) [of l r p] by (cases "nk p = KStrPart") (auto simp: list_all_iff)
    then show ?thesis using 2 by (auto simp: list_ex_iff split: list.splits)
  next
    case 3
    then show ?thesis using P 1(2) by (auto simp: list_all_iff list_ex_iff)
  next
    case 4
    then show ?thesis using P 1(2) by (auto simp: list_all_iff list_ex_iff)
  next
    case 5
    then show ?thesis using P 1(2) by (cases ks) simp_all
  next
    case 6
    then show ?thesis using P 1(2) by (cases ks) simp_all
  next
    case 7
    then show ?thesis using P 1(3) by (cases ks) simp_all
  next
    case 8
    then show ?thesis using P 1(4) by (cases ks) (auto simp: list_all_iff list_ex_iff)
  next
    case 9
    have no: "\<not> (nk p = KProp \<and> (case nkids p of _ # v # _ \<Rightarrow> tainted C env v | _ \<Rightarrow> False))"
      if "ks = l # r" "p \<in> set (nkids l)" for l r p
    proof -
      have "nk p = KProp \<and> (case nkids p of key # v # _ \<Rightarrow> clean_throw v | _ \<Rightarrow> False)"
        using that P 9 by (simp add: list_all_iff)
      then show ?thesis using that 9 1(5) [of l r p] by (auto split: list.splits)
    qed
    have "\<not> list_ex (\<lambda>p. nk p = KProp \<and>
        (case nkids p of _ # v # _ \<Rightarrow> tainted C env v | _ \<Rightarrow> False)) (nkids l)" if "ks = l # r" for l r
      unfolding list_ex_iff using no [OF that] by blast
    then show ?thesis using 9 by (cases ks) auto
  qed auto
qed

lemma eval_agree:
  assumes W: "same_world C I I'" and "agree env vs vs'"
  shows "covered_expr e \<Longrightarrow> \<not> tainted C env e \<Longrightarrow> eval I vs e = eval I' vs' e"
proof (induction e rule: covered_expr.induct)
  case (free n)
  then show ?case using eval_local_free W by blast
next
  case (local_var s u m)
  then show ?case using assms(2) same_world_ops [OF W]
    by (simp add: v2_lookup_def agree_def nth_go_def split: if_splits)
next
  case (call callee as s u m s' u' m')
  have c: "eval I vs callee = eval I' vs' callee"
    using call.hyps eval_local_free W by blast
  show ?case
  proof (cases "cleans (v2_im C) callee")
    case True
    then show ?thesis by (simp add: same_world_clean [OF W])
  next
    case False
    then have r: "\<not> returns_pii (v2_returns C) callee" and "\<forall>x \<in> set as. \<not> tainted C env x"
      using call.prems by (auto simp: list_ex_iff split: if_splits)
    then have "map (eval I vs) as = map (eval I' vs') as" using call.IH by simp
    then show ?thesis using c by (simp add: same_world_call [OF W r] cong: map_cong)
  qed
next
  case (unary k x s u m)
  then show ?case using same_world_ops [OF W] by auto
next
  case (index x i s u m)
  then show ?case using same_world_ops [OF W] eval_local_free [OF W, of i vs vs'] by auto
next
  case (satisfy x ts s u m)
  then show ?case by simp
next
  case (binary u xs s m)
  then have "map (eval I vs) xs = map (eval I' vs') xs" by (auto simp: list_ex_iff)
  then show ?case using same_world_ops [OF W] by (simp cong: map_cong)
next
  case (cond xs s u m)
  then have "map (eval I vs) xs = map (eval I' vs') xs" by (auto simp: list_ex_iff)
  then show ?case using same_world_ops [OF W] by (simp cong: map_cong)
next
  case (elems k xs s' u' m' s u m)
  then have "map (eval I vs) xs = map (eval I' vs') xs" by (auto simp: list_ex_iff)
  then show ?case using same_world_ops [OF W] elems.hyps by (auto cong: map_cong)
next
  case (object ps s' u' m' s u m)
  have "eval I vs p = eval I' vs' p" if pin: "p \<in> set ps" for p
  proof -
    obtain sp up mp key v where p: "p = Node KProp sp up mp [key, v]" "local_free key"
      and v: "\<not> tainted C env v \<longrightarrow> eval I vs v = eval I' vs' v"
      using bspec [OF object.IH pin] by blast
    then have "\<not> tainted C env v" using object.prems pin by (fastforce simp: list_ex_iff)
    then show ?thesis
      using p v same_world_ops [OF W] eval_local_free [OF W, of key vs vs'] by simp
  qed
  then have "map (eval I vs) ps = map (eval I' vs') ps" by simp
  then show ?case using same_world_ops [OF W] by (simp cong: map_cong)
qed


lemma sunk_other: "k \<noteq> KCall \<Longrightarrow> sunk I im vs (Node k s u m ks) = concat (map (sunk I im vs) ks)"
  by simp

lemma expr_diags_other:
  "k \<noteq> KCall \<Longrightarrow> expr_diags C env (Node k s u m ks) = concat (map (expr_diags C env) ks)"
  by simp

lemma call_diags_clean:
  "call_diags C env callee as = [] \<Longrightarrow> is_sink (v2_im C) callee \<Longrightarrow> x \<in> set as \<Longrightarrow> \<not> tainted C env x"
  by (auto simp: call_diags_def is_sink_def filter_empty_conv split: if_splits)

lemma sunk_agree:
  assumes W: "same_world C I I'" and A: "agree env vs vs'"
  shows "covered_expr e \<Longrightarrow> expr_diags C env e = [] \<Longrightarrow> sunk I (v2_im C) vs e = sunk I' (v2_im C) vs' e"
proof (induction e rule: covered_expr.induct)
  case (free n)
  then show ?case by (simp add: sunk_local_free)
next
  case (call callee as s u m s' u' m')
  then have d: "call_diags C env callee as = []" and "\<forall>x \<in> set as. expr_diags C env x = []"
    by simp_all
  then have s: "map (sunk I (v2_im C) vs) as = map (sunk I' (v2_im C) vs') as"
    using call.IH by simp
  have "map (eval I vs) as = map (eval I' vs') as" if "is_sink (v2_im C) callee"
    using eval_agree [OF W A] call.IH call_diags_clean [OF d that] by simp
  then show ?case
    using s by (simp add: sunk_local_free call.hyps cong: map_cong)
next
  case (object ps s' u' m' s u m)
  have "sunk I (v2_im C) vs p = sunk I' (v2_im C) vs' p" if pin: "p \<in> set ps" for p
  proof -
    obtain sp up mp key v where p: "p = Node KProp sp up mp [key, v]" "local_free key"
      and v: "expr_diags C env v = [] \<longrightarrow> sunk I (v2_im C) vs v = sunk I' (v2_im C) vs' v"
      using bspec [OF object.IH pin] by blast
    then have "expr_diags C env v = []" using object.prems pin by fastforce
    then show ?thesis using p v by (simp add: sunk_local_free)
  qed
  then have "map (sunk I (v2_im C) vs) ps = map (sunk I' (v2_im C) vs') ps" by simp
  then show ?case by (simp cong: map_cong)
next
  case (unary k x s u m)
  then have "k \<noteq> KCall" by auto
  then show ?case using unary by (simp add: sunk_other expr_diags_other)
next
  case (index x i s u m)
  then show ?case by (simp add: sunk_other expr_diags_other sunk_local_free)
next
  case (satisfy x ts s u m)
  then have "map (sunk I (v2_im C) vs) ts = map (sunk I' (v2_im C) vs') ts"
    by (simp add: sunk_local_free)
  then show ?case using satisfy by (simp add: sunk_other expr_diags_other cong: map_cong)
next
  case (binary u xs s m)
  then have "map (sunk I (v2_im C) vs) xs = map (sunk I' (v2_im C) vs') xs" by simp
  then show ?case by (simp add: sunk_other cong: map_cong)
next
  case (cond xs s u m)
  then have "map (sunk I (v2_im C) vs) xs = map (sunk I' (v2_im C) vs') xs" by simp
  then show ?case by (simp add: sunk_other cong: map_cong)
next
  case (elems k xs s' u' m' s u m)
  then have "map (sunk I (v2_im C) vs) xs = map (sunk I' (v2_im C) vs') xs" and "k \<noteq> KCall"
    by (auto simp: expr_diags_other)
  then show ?case by (simp add: sunk_other cong: map_cong)
qed (simp add: sunk_other)

subsection \<open>Updates and bindings\<close>

lemma eval_reads_only:
  assumes W: "same_world C I I'" and L: "length vs = length vs'"
  shows "reads_only i n \<Longrightarrow> unat i < length vs \<longrightarrow> vs ! unat i = vs' ! unat i \<Longrightarrow>
    eval I vs n = eval I' vs' n"
proof (induction i n rule: reads_only.induct)
  case (1 i k s u m ks)
  then have e: "map (eval I vs) ks = map (eval I' vs') ks"
    by (simp add: list_all_iff)
  then have "eval I vs (hd ks) = eval I' vs' (hd ks)" if "ks \<noteq> []"
    using that by (cases ks) auto
  then show ?case
    using 1 e L same_world_ops(1) [OF W] by (auto split: list.split cong: map_cong)
qed

lemma sunk_reads_only: "reads_only i n \<Longrightarrow> sunk I im vs n = []"
  by (induction n rule: reads_only.induct) (auto simp: list_all_iff sunk_other)

lemma local_free_kind: "local_free n \<Longrightarrow> nk n \<noteq> KLocal"
  by (cases n) simp

lemma effect_other:
  "nk e \<noteq> KUpdate \<Longrightarrow> nk e \<noteq> KBinary \<Longrightarrow> effect I e vs = vs"
  by (cases "nk e") (simp_all add: effect_def)

lemma effect_no_local:
  "\<forall>x \<in> set (nkids e). nk x \<noteq> KLocal \<Longrightarrow> effect I e vs = vs"
  by (cases "nk e") (auto simp: effect_def split: list.split)

lemma eff_agree:
  fixes I I' :: "'v interp"
  assumes W: "same_world C I I'" and A: "agree env vs vs'" and "covered_eff e"
    and "expr_diags C env e = []"
  shows "sunk I (v2_im C) vs e = sunk I' (v2_im C) vs' e"
    and "agree env (effect I e vs) (effect I' e vs')"
proof -
  consider (expr) "covered_expr e" | (upd) "\<not> covered_expr e" "covered_update e"
    using assms(3) by (auto simp: covered_eff_def)
  then have "sunk I (v2_im C) vs e = sunk I' (v2_im C) vs' e \<and>
    agree env (effect I e vs) (effect I' e vs')"
  proof cases
    case expr
    have "effect I e vs = vs \<and> effect I' e vs' = vs'"
      using expr
    proof cases
      case free
      then show ?thesis
        by (cases e) (auto simp: list_all_iff local_free_kind intro!: effect_no_local)
    qed (auto simp: effect_other effect_def split: list.split)
    then show ?thesis using A sunk_agree [OF W A expr assms(4)] by simp
  next
    case upd
    show ?thesis
    proof (cases "nk e = KUpdate")
      case True
      then obtain x where x: "nkids e = [x]" "nk x = KLocal" "nkids x = []"
        using upd by (auto simp: covered_update_def split: list.splits)
      have "sunk J (v2_im C) us e = []" for J :: "'v interp" and us
        using True x by (cases e; cases x) simp
      moreover have "eval I vs x = eval I' vs' x" if "unat (nu x) < length env" "\<not> b_pii (env ! unat (nu x))"
        using x that A by (cases x) (simp add: agree_def)
      then have "agree env (effect I e vs) (effect I' e vs')"
        using True x A same_world_ops [OF W] by (auto simp: effect_def intro!: agree_update)
      ultimately show ?thesis by simp
    next
      case False
      then obtain x r where x: "nk e = KBinary" "nkids e = [x, r]" "nk x = KLocal" "nkids x = []"
          "reads_only (nu x) r"
        using upd by (auto simp: covered_update_def split: list.splits)
      have "sunk J (v2_im C) us e = []" for J :: "'v interp" and us
        using x by (cases e; cases x) (simp add: sunk_reads_only)
      moreover have "eval I vs x = eval I' vs' x \<and> eval I vs r = eval I' vs' r"
        if "unat (nu x) < length env" "\<not> b_pii (env ! unat (nu x))"
      proof
        show "eval I vs x = eval I' vs' x" using x that A by (cases x) (simp add: agree_def)
        show "eval I vs r = eval I' vs' r"
          using x that A by (intro eval_reads_only [OF W _ x(5)]) (simp_all add: agree_def)
      qed
      then have "agree env (effect I e vs) (effect I' e vs')"
        using x A same_world_ops [OF W] by (auto simp: effect_def intro!: agree_update)
      ultimately show ?thesis by simp
    qed
  qed
  then show "sunk I (v2_im C) vs e = sunk I' (v2_im C) vs' e"
    and "agree env (effect I e vs) (effect I' e vs')" by simp_all
qed

end
