(* ===== verification/Adm_Pii_Stmts.thy ===== *)
theory Adm_Pii_Stmts
  imports Adm_Pii_Sound
begin

section \<open>Two runs of one path, statement by statement\<close>

text \<open>
  The walk only appends diagnostics and only extends the scope, so a walk that ends without a
  diagnostic had none at any point.  Under that fact the two runs of a covered body keep the
  variables the walk holds for clean equal, and send the same values to every sink.
\<close>

subsection \<open>The walk grows its state\<close>

definition same_scope :: "v2 \<Rightarrow> v2 \<Rightarrow> bool" where
  "same_scope w w' \<longleftrightarrow> v2_env w' = v2_env w \<and> (v2_diags w' = [] \<longrightarrow> v2_diags w = [])"

definition grows :: "v2 \<Rightarrow> v2 \<Rightarrow> bool" where
  "grows w w' \<longleftrightarrow> (\<exists>ys. v2_env w' = ys @ v2_env w) \<and> (v2_diags w' = [] \<longrightarrow> v2_diags w = [])"

lemma grows_refl [simp, intro]: "grows w w" by (simp add: grows_def)

lemma same_scope_refl [simp, intro]: "same_scope w w" by (simp add: same_scope_def)

lemma same_scope_grows: "same_scope w w' \<Longrightarrow> grows w w'"
  by (simp add: grows_def same_scope_def)

lemma grows_trans [trans]: "grows a b \<Longrightarrow> grows b c \<Longrightarrow> grows a c"
  by (auto simp: grows_def)

lemma same_scope_trans [trans]: "same_scope a b \<Longrightarrow> same_scope b c \<Longrightarrow> same_scope a c"
  by (auto simp: same_scope_def)

lemma grows_leave: "grows w w' \<Longrightarrow> same_scope w (v2_leave w w')"
  by (auto simp: grows_def same_scope_def v2_leave_def)

lemma leave_same: "same_scope a b \<Longrightarrow> v2_leave a = v2_leave b"
  by (auto simp: same_scope_def v2_leave_def)

lemma check_expr_scope [simp]: "same_scope w (check_expr C e w)"
  by (simp add: same_scope_def check_expr_def)

lemma check_unless_scope [simp]: "same_scope w (check_unless_none C e w)"
  by (simp add: check_unless_none_def)

lemma env_check [simp]: "v2_env (check_expr C e w) = v2_env w"
  "v2_env (check_unless_none C e w) = v2_env w" "v2_env (v2_report C code a w) = v2_env w"
  by (simp_all add: check_expr_def check_unless_none_def v2_report_def)

lemma diags_check [simp]: "v2_diags (check_expr C e w) = v2_diags w @ expr_diags C (v2_env w) e"
  "v2_diags (v2_report C code a w) = v2_diags w @ [v2_diag C code a]"
  by (simp_all add: check_expr_def v2_report_def)

definition vars_of :: "node \<Rightarrow> bool \<Rightarrow> scoped list" where
  "vars_of pat pii = rev (map (\<lambda>b. \<lparr>b_name = nstr b, b_pii = pii\<rparr>) (collect_bind_ids pat))"

lemma foldl_push: "foldl (\<lambda>w b. v2_push (nstr b) pii w) w bs =
    w\<lparr>v2_env := rev (map (\<lambda>b. \<lparr>b_name = nstr b, b_pii = pii\<rparr>) bs) @ v2_env w\<rparr>"
  by (induction bs arbitrary: w) (simp_all add: v2_push_def)

lemma v2_bind_eq: "v2_bind pat pii w = w\<lparr>v2_env := vars_of pat pii @ v2_env w\<rparr>"
  by (simp add: v2_bind_def foldl_push vars_of_def)

lemma bind_grows [simp]: "grows w (v2_bind pat pii w)"
  by (simp add: grows_def v2_bind_eq)

lemma declr_grows: "grows w (v2_declr C d w)"
  by (auto simp: v2_declr_def grows_def v2_bind_eq Let_def split: list.split)

lemma declrs_grow: "grows w (fold (v2_declr C) ds w)"
  by (induction ds arbitrary: w) (auto intro: grows_trans declr_grows)

lemma return_scope: "same_scope w (v2_return C e w)"
  by (auto simp: v2_return_def same_scope_def Let_def)

lemma walk_seq_grows:
  "(\<And>st w w'. st \<in> set sts \<Longrightarrow> walk_stmt C st w = Some w' \<Longrightarrow> grows w w') \<Longrightarrow>
   walk_seq C sts w = Some w' \<Longrightarrow> grows w w'"
proof (induction sts arbitrary: w)
  case (Cons st sts)
  then obtain w1 where "walk_stmt C st w = Some w1" "walk_seq C sts w1 = Some w'"
    by (auto elim: bind_SomeE)
  with Cons show ?case by (metis grows_trans list.set_intros)
qed simp

lemma walk_clauses_scope:
  "(\<And>cl t b st w w'. cl \<in> set cls \<Longrightarrow> nkids cl = [t, b] \<Longrightarrow> st \<in> set (nkids b) \<Longrightarrow>
      walk_stmt C st w = Some w' \<Longrightarrow> grows w w') \<Longrightarrow>
   \<forall>cl \<in> set cls. \<exists>t b. nkids cl = [t, b] \<Longrightarrow>
   walk_clauses C cls w = Some w' \<Longrightarrow> same_scope w w'"
proof (induction cls arbitrary: w)
  case (Cons cl cls)
  then obtain t b where tb: "nkids cl = [t, b]" by auto
  define w0 where "w0 = (if flag0 cl then w else check_unless_none C t w)"
  have "same_scope w w0" by (simp add: w0_def)
  moreover obtain w1 where w1: "walk_seq C (nkids b) w0 = Some w1"
      "walk_clauses C cls (v2_leave w0 w1) = Some w'"
    using Cons.prems tb by (auto simp: w0_def Let_def elim!: bind_SomeE)
  have "grows w0 w1"
    by (rule walk_seq_grows [OF _ w1(1)]) (rule Cons.prems(1) [OF list.set_intros(1) tb])
  then have "same_scope w0 (v2_leave w0 w1)" by (rule grows_leave)
  moreover have "same_scope (v2_leave w0 w1) w'"
  proof (rule Cons.IH [OF _ _ w1(2)])
    show "grows v v'" if "cl' \<in> set cls" "nkids cl' = [t', b']" "st \<in> set (nkids b')"
        "walk_stmt C st v = Some v'" for cl' t' b' st v v'
      by (rule Cons.prems(1) [OF list.set_intros(2) [OF that(1)] that(2-4)])
  qed (use Cons.prems(2) in simp)
  ultimately show ?case using same_scope_trans by blast
qed simp

lemma walk_grows:
  "covered_stmt st \<Longrightarrow> walk_stmt C st w = Some w' \<Longrightarrow> grows w w'"
  "covered_body bd \<Longrightarrow> walk_stmt C bd v = Some v' \<Longrightarrow> same_scope v v'"
proof (induction arbitrary: w w' and v v' rule: covered_stmt_covered_body.inducts)
  case (var_decl ds s u m s' u' m')
  then show ?case using declrs_grow by auto
next
  case (body st)
  then show ?case by (simp add: same_scope_grows)
next
  case (return e s u m)
  then show ?case by (auto simp: return_scope)
next
  case (if_then c t r s u m)
  then obtain v1 where 1: "walk_stmt C t (check_expr C c v) = Some v1"
      "(case r of e # _ \<Rightarrow> if is_none e then Some v1 else walk_stmt C e v1 | [] \<Rightarrow> Some v1) = Some v'"
    by (auto elim: bind_SomeE)
  have "same_scope v v1" using same_scope_trans [OF check_expr_scope if_then.IH(1) [OF 1(1)]] .
  moreover have "same_scope v1 v'"
    using 1(2) if_then.IH(2) by (auto split: list.splits if_splits)
  ultimately show ?case using same_scope_trans by blast
next
  case (block sts s u m s' u' m')
  then show ?case by (auto elim!: bind_SomeE intro!: grows_leave intro: walk_seq_grows)
next
  case (for_loop i c n b s u m)
  then obtain v1 v2 where 1: "(if is_none i then Some v
        else if nk i = KVarDecl then walk_stmt C i v else Some (check_expr C i v)) = Some v1"
      "walk_stmt C b (check_unless_none C n (check_unless_none C c v1)) = Some v2"
      "v' = v2_leave v v2"
    by (auto elim!: bind_SomeE)
  have "grows v v1"
    using 1(1) for_loop.IH(1) check_expr_scope same_scope_grows by (auto split: if_splits)
  moreover have "grows v1 v2"
    by (rule same_scope_grows, rule same_scope_trans [OF check_unless_scope],
        rule same_scope_trans [OF check_unless_scope], rule for_loop.IH(2) [OF 1(2)])
  ultimately show ?case using 1(3) grows_leave [OF grows_trans] by blast
next
  case (for_of d pat it b s u m)
  then obtain v1 where 1: "walk_stmt C b (v2_bind pat (tainted C (v2_env v) it) (check_expr C it v)) = Some v1"
      "v' = v2_leave v v1"
    by (auto elim!: bind_SomeE)
  have "grows v (check_expr C it v)" by (simp add: same_scope_grows)
  also have "grows \<dots> (v2_bind pat (tainted C (v2_env v) it) (check_expr C it v))" by simp
  also have "grows \<dots> v1" using for_of.IH [OF 1(1)] by (rule same_scope_grows)
  finally show ?case using 1(2) by (simp add: grows_leave)
next
  case (while_loop c b s u m)
  then show ?case using check_expr_scope same_scope_trans by fastforce
next
  case (do_while c b s u m)
  then show ?case using check_expr_scope same_scope_trans by (fastforce elim!: bind_SomeE)
next
  case (switch d cls s u m s' u' m')
  then have "walk_clauses C cls (check_expr C d v) = Some v'" by simp
  then have "same_scope (check_expr C d v) v'"
    by (rule walk_clauses_scope [rotated 2]) (use switch.IH in \<open>force+\<close>)
  then show ?case by (rule same_scope_trans [OF check_expr_scope])
next
  case (try_catch b p h f s u m s' u' m')
  then obtain v1 v2 where 1: "walk_stmt C b v = Some v1"
      "walk_stmt C h (if flag0 (Node KCatch s' u' m' [p, h])
         then v2_bind p (throws_possibly_pii b) v1 else v1) = Some v2"
      "(if is_none f then Some (v2_leave v1 v2) else walk_stmt C f (v2_leave v1 v2)) = Some v'"
    by (auto elim!: bind_SomeE simp: is_none_def)
  have "grows v1 v2"
    using try_catch.IH(2) [OF 1(2)]
    by (auto split: if_splits intro: grows_trans [OF bind_grows] same_scope_grows)
  then have "same_scope v (v2_leave v1 v2)"
    using try_catch.IH(1) [OF 1(1)] grows_leave same_scope_trans by blast
  then show ?case using 1(3) try_catch.IH(3) same_scope_trans by (auto split: if_splits)
next
  case (try_finally b c f s u m)
  then obtain v1 where 1: "walk_stmt C b v = Some v1"
      "(if is_none f then Some v1 else walk_stmt C f v1) = Some v'"
    by (auto elim!: bind_SomeE)
  then show ?case
    using try_finally.IH(1) [OF 1(1)]
    by (auto split: if_splits intro: same_scope_trans dest!: try_finally.IH(2))
qed auto

subsection \<open>Results of the two runs\<close>

text \<open>\<open>q\<close> says that every throw of the statement is provably clean; then the thrown values agree.  A
  returned value is compared where the definition is served.\<close>

inductive same_out :: "v2ctx \<Rightarrow> bool \<Rightarrow> 'v ending \<Rightarrow> 'v ending \<Rightarrow> bool" for C q where
  fell [intro]: "same_out C q Fell Fell"
| brk [intro]: "same_out C q Brk Brk"
| cnt [intro]: "same_out C q Cnt Cnt"
| ret [intro]: "(v2_exported C \<Longrightarrow> v = v') \<Longrightarrow> same_out C q (Ret v) (Ret v')"
| thr [intro]: "(q \<Longrightarrow> v = v') \<Longrightarrow> same_out C q (Thr v) (Thr v')"

inductive_cases same_outE: "same_out C q x y"

inductive same_run :: "v2ctx \<Rightarrow> bool \<Rightarrow> scoped list \<Rightarrow> scoped list \<Rightarrow> 'v run \<Rightarrow> 'v run \<Rightarrow> bool"
  for C q env env' where
  "same_out C q out out' \<Longrightarrow> agree (xs @ env) vs vs' \<Longrightarrow> (out = Fell \<Longrightarrow> agree env' vs vs') \<Longrightarrow>
   same_run C q env env' (evs, out, vs, ds) (evs, out', vs', ds)"

inductive_cases same_runE: "same_run C q env env' x y"

abbreviation same_runs where
  "same_runs C q env env' \<equiv> rel_option (same_run C q env env')"

lemma same_run_fell [intro]: "agree env vs vs' \<Longrightarrow> same_run C q env env (evs, Fell, vs, ds) (evs, Fell, vs', ds)"
  by (rule same_run.intros [where xs = "[]"]) auto

lemma same_out_mono: "same_out C q x y \<Longrightarrow> (q' \<Longrightarrow> q) \<Longrightarrow> same_out C q' x y"
  by (auto elim!: same_outE)

lemma same_run_mono:
  "same_run C q env env' x y \<Longrightarrow> (q' \<Longrightarrow> q) \<Longrightarrow> same_run C q' env env' x y"
  by (auto elim!: same_runE intro!: same_run.intros intro: same_out_mono)

lemma same_runs_mono:
  "same_runs C q env env' x y \<Longrightarrow> (q' \<Longrightarrow> q) \<Longrightarrow> same_runs C q' env env' x y"
  by (auto elim!: option.rel_mono_strong intro: same_run_mono)

lemma agree_leave:
  assumes "agree (xs @ env) vs vs'" "agree env us us'"
  shows "agree env (leave us vs) (leave us' vs')"
proof -
  have "length us = length env" "length us' = length env" "length vs = length xs + length env"
    "length vs' = length xs + length env"
    using assms by (auto simp: agree_def)
  moreover from this have "drop (length xs) vs ! i = drop (length xs) vs' ! i"
    if "i < length env" "\<not> b_pii (env ! i)" for i
    using that assms(1) agree_nth [of "xs @ env" vs vs' "length xs + i"] by (simp add: nth_append)
  ultimately show ?thesis by (simp add: agree_def leave_def)
qed

lemma agree_vars:
  assumes W: "same_world C I I'" and "local_free pat" and "agree env vs vs'" and "\<not> pii \<Longrightarrow> v = v'"
  shows "agree (vars_of pat pii @ env) (bind_vars I pat v vs) (bind_vars I' pat v' vs')"
proof -
  have "it_bind I pat j v vs = it_bind I' pat j v' vs'" if "\<not> pii" for j
    using same_world_bind [OF W assms(2)] assms(4) that by simp
  then show ?thesis
    using assms(3) unfolding bind_vars_def vars_of_def
    by (intro agree_append) (auto simp: rev_nth)
qed

lemma same_run_events: "same_run C q env env' x y \<Longrightarrow> same_run C q env env' (add_events evs x) (add_events evs y)"
  by (auto elim!: same_runE simp: add_events_def intro!: same_run.intros)

lemma same_runs_events:
  "same_runs C q env env' x y \<Longrightarrow> evs = evs' \<Longrightarrow>
   same_runs C q env env' (map_option (add_events evs) x) (map_option (add_events evs') y)"
  by (auto simp: option.rel_map elim!: option.rel_mono_strong intro: same_run_events)

text \<open>Weakening the scope a result is measured against.\<close>

lemma same_run_outer: "same_run C q (ys @ env) env' x y \<Longrightarrow> same_run C q env env' x y"
  by (auto elim!: same_runE intro: same_run.intros [where xs = "_ @ ys"])

lemma same_runs_outer: "same_runs C q (ys @ env) env' x y \<Longrightarrow> same_runs C q env env' x y"
  by (auto elim!: option.rel_mono_strong intro: same_run_outer)

text \<open>The combinators keep the relation.\<close>

lemma same_runsE:
  assumes "same_runs C q env env' x y"
  obtains "x = None" "y = None"
  | evs out out' vs vs' ds xs where "x = Some (evs, out, vs, ds)" "y = Some (evs, out', vs', ds)"
    "same_out C q out out'" "agree (xs @ env) vs vs'" "out = Fell \<Longrightarrow> agree env' vs vs'"
  using assms by (cases x; cases y) (auto elim!: same_runE)

lemma same_seq_run:
  assumes "same_runs C q env env1 x y" and "env1 = ys @ env"
    and F: "\<And>vs vs' ds. agree env1 vs vs' \<Longrightarrow> same_runs C q env1 env2 (f vs ds) (g vs' ds)"
  shows "same_runs C q env env2 (seq_run x f) (seq_run y g)"
  using assms(1)
proof (cases rule: same_runsE)
  case (2 evs out out' vs vs' ds xs)
  show ?thesis
  proof (cases "out = Fell")
    case True
    then have "out' = Fell" using 2(3) by (auto elim: same_outE)
    moreover have "same_runs C q env env2 (f vs ds) (g vs' ds)"
      using F [OF 2(5) [OF True], of ds] assms(2)
      by (auto elim!: option.rel_mono_strong intro: same_run_outer)
    ultimately show ?thesis using 2 True by (simp add: seq_run_def same_runs_events)
  next
    case False
    then have "seq_run x f = x" "seq_run y g = y"
      using 2 by (auto simp: seq_run_def elim!: same_outE)
    then show ?thesis using 2 False by (auto intro!: same_run.intros)
  qed
qed (simp add: seq_run_def)

lemma same_block_run:
  assumes "same_runs C q env env1 x y" and A: "agree env us us'"
  shows "same_runs C q env env (block_run us x) (block_run us' y)"
  using assms(1)
proof (cases rule: same_runsE)
  case (2 evs out out' vs vs' ds xs)
  then show ?thesis
    using agree_leave [OF 2(4) A]
    by (auto simp: block_run_def intro!: same_run.intros [where xs = "[]"])
qed (simp add: block_run_def)

lemma same_loop_run:
  assumes "same_runs C q env env1 x y" and A: "agree env us us'"
    and F: "\<And>vs vs' ds. agree env vs vs' \<Longrightarrow> same_runs C q env env (f vs ds) (g vs' ds)"
  shows "same_runs C q env env (loop_run us x f) (loop_run us' y g)"
  using assms(1)
proof (cases rule: same_runsE)
  case (2 evs out out' vs vs' ds xs)
  note L = agree_leave [OF 2(4) A]
  from 2(3) show ?thesis
    by cases (use 2(1,2) L F [OF L, of ds] in
      \<open>auto simp: loop_run_def intro!: same_runs_events same_run.intros [where xs = "[]"]\<close>)
qed (simp add: loop_run_def)

lemma same_clause_run:
  assumes "same_runs C q env env1 x y" and A: "agree env us us'"
    and F: "\<And>vs vs' ds. agree env vs vs' \<Longrightarrow> same_runs C q env env (f vs ds) (g vs' ds)"
  shows "same_runs C q env env (clause_run us x f) (clause_run us' y g)"
  using assms(1)
proof (cases rule: same_runsE)
  case (2 evs out out' vs vs' ds xs)
  note L = agree_leave [OF 2(4) A]
  from 2(3) show ?thesis
    by cases (use 2(1,2) L F [OF L, of ds] in
      \<open>auto simp: clause_run_def intro!: same_runs_events same_run.intros [where xs = "[]"]\<close>)
qed (simp add: clause_run_def)

lemma same_catch_run:
  assumes "same_runs C qb env env1 x y" and A: "agree env us us'" and "q \<Longrightarrow> qb"
    and F: "\<And>v v' vs vs' ds. \<not> nc \<Longrightarrow> (qb \<Longrightarrow> v = v') \<Longrightarrow> agree env vs vs' \<Longrightarrow>
      same_runs C q env env2 (f v vs ds) (g v' vs' ds)"
  shows "same_runs C q env env (catch_run nc us x f) (catch_run nc us' y g)"
  using assms(1)
proof (cases rule: same_runsE)
  case (2 evs out out' vs vs' ds xs)
  note L = agree_leave [OF 2(4) A]
  from 2(3) show ?thesis
  proof cases
    case (thr v v')
    show ?thesis
    proof (cases nc)
      case True
      then show ?thesis using thr 2(1,2) L assms(3)
        by (auto simp: catch_run_def intro!: same_run.intros [where xs = "[]"])
    next
      case False
      have "same_runs C q env env (block_run us (map_option (add_events evs) (f v (leave us vs) ds)))
          (block_run us' (map_option (add_events evs) (g v' (leave us' vs') ds)))"
        by (rule same_block_run [OF same_runs_events [OF F [OF False _ L]] A]) (use thr in auto)
      then show ?thesis using False thr 2(1,2) by (simp add: catch_run_def)
    qed
  qed (use 2(1,2) L in \<open>auto simp: catch_run_def intro!: same_run.intros [where xs = "[]"]\<close>)
qed (simp add: catch_run_def)

lemma same_finally_run:
  assumes "same_runs C q env env1 x y" and A: "agree env us us'"
    and F: "\<And>vs vs' ds. agree env vs vs' \<Longrightarrow> same_runs C q env env2 (f vs ds) (g vs' ds)"
  shows "same_runs C q env env (finally_run us x f) (finally_run us' y g)"
  using assms(1)
proof (cases rule: same_runsE)
  case (2 evs out out' vs vs' ds xs)
  from F [OF agree_leave [OF 2(4) A], of ds] show ?thesis
  proof (cases rule: same_runsE)
    case 1
    then show ?thesis using 2(1,2) by (simp add: finally_run_def)
  next
    case b: (2 evs1 out1 out1' vs1 vs1' ds1 xs1)
    note L = agree_leave [OF b(4) A]
    from b(3) show ?thesis
      by cases (use 2(1,2,3) b(1,2) L in
        \<open>auto simp: finally_run_def intro!: same_run.intros [where xs = "[]"]\<close>)
  qed
qed (simp add: finally_run_def)

end
