(* ===== verification/Adm_Pii_Runs.thy ===== *)
theory Adm_Pii_Runs
  imports Adm_Pii_Stmts
begin

section \<open>The main lemma of V2\<close>

text \<open>
  \<open>related\<close> ties what two executions run to the walk over it: the walk ended without a diagnostic,
  and the forms are covered.  \<open>exec_same\<close> then carries the agreement through any number of steps.
\<close>

inductive related ::
  "v2ctx \<Rightarrow> bool \<Rightarrow> scoped list \<Rightarrow> scoped list \<Rightarrow> 'v job \<Rightarrow> 'v job \<Rightarrow> bool" for C where
  stmt: "covered_stmt st \<Longrightarrow> walk_stmt C st w = Some w' \<Longrightarrow> v2_diags w' = [] \<Longrightarrow>
    (q \<Longrightarrow> \<not> throws_possibly_pii st) \<Longrightarrow>
    related C q (v2_env w) (v2_env w') (Stmt st) (Stmt st)"
| seq: "\<forall>st \<in> set sts. covered_stmt st \<and> (q \<longrightarrow> \<not> throws_possibly_pii st) \<Longrightarrow>
    walk_seq C sts w = Some w' \<Longrightarrow> v2_diags w' = [] \<Longrightarrow>
    related C q (v2_env w) (v2_env w') (Seq sts) (Seq sts)"
| clauses: "\<forall>cl \<in> set cls. \<exists>t b. nkids cl = [t, b] \<and> covered_expr t \<and>
      (\<forall>st \<in> set (nkids b). covered_stmt st \<and> (q \<longrightarrow> \<not> throws_possibly_pii st)) \<Longrightarrow>
    walk_clauses C cls w = Some w' \<Longrightarrow> v2_diags w' = [] \<Longrightarrow>
    related C q (v2_env w) (v2_env w) (Clauses cls) (Clauses cls)"
| loop: "covered_expr c \<Longrightarrow> is_none c \<or> expr_diags C (v2_env w) c = [] \<Longrightarrow> covered_eff u \<Longrightarrow>
    is_none u \<or> expr_diags C (v2_env w) u = [] \<Longrightarrow> covered_body b \<Longrightarrow>
    walk_stmt C b w = Some w' \<Longrightarrow> v2_diags w' = [] \<Longrightarrow> (q \<Longrightarrow> \<not> throws_possibly_pii b) \<Longrightarrow>
    related C q (v2_env w) (v2_env w) (Loop c u b) (Loop c u b)"
| each: "local_free pat \<Longrightarrow> covered_body b \<Longrightarrow> v2_env w = vars_of pat pii @ env \<Longrightarrow>
    walk_stmt C b w = Some w' \<Longrightarrow> v2_diags w' = [] \<Longrightarrow> (q \<Longrightarrow> \<not> throws_possibly_pii b) \<Longrightarrow>
    (\<not> pii \<Longrightarrow> v = v') \<Longrightarrow>
    related C q env env (Each pat v b) (Each pat v' b)"

definition runs_agree :: "v2ctx \<Rightarrow> 'v runner \<Rightarrow> 'v runner \<Rightarrow> bool" where
  "runs_agree C R R' \<longleftrightarrow> (\<forall>q env env' jb jb' vs vs' ds. related C q env env' jb jb' \<longrightarrow>
     agree env vs vs' \<longrightarrow> same_runs C q env env' (R jb vs ds) (R' jb' vs' ds))"

lemma runs_agreeD:
  "runs_agree C R R' \<Longrightarrow> related C q env env' jb jb' \<Longrightarrow> agree env vs vs' \<Longrightarrow>
   same_runs C q env env' (R jb vs ds) (R' jb' vs' ds)"
  by (simp add: runs_agree_def)

lemma throws_kid: "\<not> throws_possibly_pii n \<Longrightarrow> x \<in> set (nkids n) \<Longrightarrow> \<not> throws_possibly_pii x"
  by (cases n) (auto simp: list_ex_iff)

lemma throws_kid_kid:
  "\<not> throws_possibly_pii n \<Longrightarrow> l \<in> set (nkids n) \<Longrightarrow> x \<in> set (nkids l) \<Longrightarrow> \<not> throws_possibly_pii x"
  using throws_kid by blast

subsection \<open>Lists, loops, clauses\<close>

lemma seq_same:
  assumes R: "runs_agree C R R'" and A: "agree (v2_env w) vs vs'"
    and S: "\<forall>st \<in> set sts. covered_stmt st \<and> (q \<longrightarrow> \<not> throws_possibly_pii st)"
    and W: "walk_seq C sts w = Some w'" "v2_diags w' = []"
  shows "same_runs C q (v2_env w) (v2_env w') (exec_seq R sts vs ds) (exec_seq R' sts vs' ds)"
proof (cases sts)
  case Nil
  then show ?thesis using A W by (auto simp: exec_seq_def)
next
  case (Cons st sts')
  then obtain w1 where w1: "walk_stmt C st w = Some w1" "walk_seq C sts' w1 = Some w'"
    using W by (auto elim: bind_SomeE)
  have st: "covered_stmt st" and S': "\<forall>st \<in> set sts'. covered_stmt st \<and> (q \<longrightarrow> \<not> throws_possibly_pii st)"
    using S Cons by auto
  have "grows w1 w'"
    using walk_seq_grows [OF _ w1(2)] S' walk_grows(1) by blast
  then have d: "v2_diags w1 = []" using W(2) by (simp add: grows_def)
  obtain ys where ys: "v2_env w1 = ys @ v2_env w"
    using walk_grows(1) [OF st w1(1)] by (auto simp: grows_def)
  have "related C q (v2_env w) (v2_env w1) (Stmt st) (Stmt st)"
    by (rule related.stmt [OF st w1(1) d]) (use S Cons in auto)
  then have "same_runs C q (v2_env w) (v2_env w1) (R (Stmt st) vs ds) (R' (Stmt st) vs' ds)"
    by (rule runs_agreeD [OF R _ A])
  then show ?thesis
    unfolding exec_seq_def Cons list.case
    by (rule same_seq_run [OF _ ys])
      (rule runs_agreeD [OF R related.seq [OF S' w1(2) W(2)]])
qed

lemma opt_sunk_same:
  assumes "same_world C I I'" "agree env vs vs'" "covered_expr e" "is_none e \<or> expr_diags C env e = []"
  shows "opt_sunk I (v2_im C) vs e = opt_sunk I' (v2_im C) vs' e"
  using assms sunk_agree by (auto simp: opt_sunk_def)

lemma opt_eff_same:
  assumes "same_world C I I'" "agree env vs vs'" "covered_eff e" "is_none e \<or> expr_diags C env e = []"
  shows "opt_sunk I (v2_im C) vs e = opt_sunk I' (v2_im C) vs' e"
    and "agree env (opt_effect I e vs) (opt_effect I' e vs')"
  using assms eff_agree by (auto simp: opt_sunk_def opt_effect_def)

lemma clauses_same:
  assumes R: "runs_agree C R R'" and A: "agree (v2_env w) vs vs'"
    and S: "\<forall>cl \<in> set cls. \<exists>t b. nkids cl = [t, b] \<and> covered_expr t \<and>
      (\<forall>st \<in> set (nkids b). covered_stmt st \<and> (q \<longrightarrow> \<not> throws_possibly_pii st))"
    and W: "walk_clauses C cls w = Some w'" "v2_diags w' = []"
  shows "same_runs C q (v2_env w) (v2_env w) (exec_clauses R cls vs ds) (exec_clauses R' cls vs' ds)"
proof (cases cls)
  case Nil
  then show ?thesis using A by (auto simp: exec_clauses_def)
next
  case (Cons cl cls')
  then obtain t b where tb: "nkids cl = [t, b]"
      and B: "\<forall>st \<in> set (nkids b). covered_stmt st \<and> (q \<longrightarrow> \<not> throws_possibly_pii st)"
    using S by auto
  have S': "\<forall>cl \<in> set cls'. \<exists>t b. nkids cl = [t, b] \<and> covered_expr t \<and>
      (\<forall>st \<in> set (nkids b). covered_stmt st \<and> (q \<longrightarrow> \<not> throws_possibly_pii st))"
    using S Cons by auto
  define w0 where "w0 = (if flag0 cl then w else check_unless_none C t w)"
  then have e: "v2_env w0 = v2_env w" by simp
  obtain w1 where w1: "walk_seq C (nkids b) w0 = Some w1"
      "walk_clauses C cls' (v2_leave w0 w1) = Some w'"
    using W Cons tb by (auto simp: w0_def Let_def elim!: bind_SomeE)
  have "same_scope (v2_leave w0 w1) w'"
    by (rule walk_clauses_scope [OF _ _ w1(2)]) (use S' walk_grows(1) in force)+
  then have d: "v2_diags w1 = []" using W(2) by (simp add: same_scope_def v2_leave_def)
  have l: "v2_env (v2_leave w0 w1) = v2_env w" by (simp add: v2_leave_def e)
  have "same_runs C q (v2_env w) (v2_env w1) (R (Seq (nkids b)) vs ds) (R' (Seq (nkids b)) vs' ds)"
    using runs_agreeD [OF R related.seq [OF B w1(1) d]] A e by metis
  then show ?thesis
    unfolding exec_clauses_def Cons list.case tb
    by (rule same_clause_run [OF _ A])
      (use runs_agreeD [OF R related.clauses [OF S' w1(2) W(2)]] l in simp)
qed

lemma loop_same:
  fixes I I' :: "'v interp" and R R' :: "'v runner"
  assumes R: "runs_agree C R R'" and W: "same_world C I I'" and A: "agree env vs vs'"
    and L: "related C q env env (Loop c u b :: 'v job) (Loop c u b)"
  shows "same_runs C q env env (exec_loop I (v2_im C) R c u b vs ds)
    (exec_loop I' (v2_im C) R' c u b vs' ds)"
  using L
proof cases
  case (loop w w')
  have T: "same_runs C q env env
      (map_option (add_events (opt_sunk I (v2_im C) us u)) (R (Loop c u b) (opt_effect I u us) ds))
      (map_option (add_events (opt_sunk I' (v2_im C) us' u)) (R' (Loop c u b) (opt_effect I' u us') ds))"
    if "agree env us us'" for us us' ds
    using opt_eff_same [OF W that loop(5)] loop(1,6) runs_agreeD [OF R L]
    by (intro same_runs_events) auto
  have "same_runs C q env env (R (Stmt b) vs ds) (R' (Stmt b) vs' ds)" for ds
  proof -
    have "related C q (v2_env w) (v2_env w') (Stmt b) (Stmt b)"
      using loop by (intro related.stmt) (auto intro: covered_stmt_covered_body.intros)
    then show ?thesis
      using runs_agreeD [OF R _ A] loop(1) walk_grows(2) [OF loop(7,8)] by (simp add: same_scope_def)
  qed
  then have "same_runs C q env env
     (loop_run vs (R (Stmt b) vs ds) (\<lambda>us ds. map_option (add_events (opt_sunk I (v2_im C) us u))
        (R (Loop c u b) (opt_effect I u us) ds)))
     (loop_run vs' (R' (Stmt b) vs' ds) (\<lambda>us ds. map_option (add_events (opt_sunk I' (v2_im C) us u))
        (R' (Loop c u b) (opt_effect I' u us) ds)))" for ds
    by (rule same_loop_run [OF _ A T])
  then show ?thesis
    using opt_sunk_same [OF W A loop(3)] loop(1,4) A
    by (auto simp: exec_loop_def split: list.split
        intro!: same_runs_events same_run_events same_run_fell)
qed

lemma each_same:
  assumes R: "runs_agree C R R'" and W: "same_world C I I'" and A: "agree env vs vs'"
    and L: "related C q env env (Each pat v b) (Each pat v' b)"
  shows "same_runs C q env env (exec_each I R pat v b vs ds) (exec_each I' R' pat v' b vs' ds)"
  using L
proof cases
  case (each w pii w')
  have "same_runs C q env (v2_env w') (R (Stmt b) (bind_vars I pat (it_elem I d v) vs) ds)
     (R' (Stmt b) (bind_vars I' pat (it_elem I' d v') vs') ds)" for d ds
  proof -
    have r: "related C q (v2_env w) (v2_env w') (Stmt b) (Stmt b)"
      using each by (intro related.stmt) (auto intro: covered_stmt_covered_body.intros)
    have "agree (v2_env w) (bind_vars I pat (it_elem I d v) vs) (bind_vars I' pat (it_elem I' d v') vs')"
      unfolding each(3) by (rule agree_vars [OF W each(1) A]) (use each same_world_ops [OF W] in simp)
    from runs_agreeD [OF R r this] have "same_runs C q (vars_of pat pii @ env) (v2_env w')
      (R (Stmt b) (bind_vars I pat (it_elem I d v) vs) ds)
      (R' (Stmt b) (bind_vars I' pat (it_elem I' d v') vs') ds)"
      by (simp add: each(3))
    then show ?thesis by (rule same_runs_outer)
  qed
  then show ?thesis
    unfolding exec_each_def
    by (auto split: list.split intro!: same_loop_run [OF _ A] runs_agreeD [OF R L] simp: A)
qed

subsection \<open>Statements\<close>

lemma declr_same:
  assumes W: "same_world C I I'" and A: "agree (v2_env w) vs vs'" and "covered_declr d"
    and N: "v2_diags (v2_declr C d w) = []"
  shows "\<exists>evs' us us'. exec_declr I (v2_im C) d (evs, vs) = (evs', us) \<and>
    exec_declr I' (v2_im C) d (evs, vs') = (evs', us') \<and> agree (v2_env (v2_declr C d w)) us us'"
proof (cases "nk d = KDeclr")
  case True
  obtain pat ty init where d: "nkids d = [pat, ty, init]" "local_free pat" "covered_expr init"
    using assms(3) by (auto simp: covered_declr_def split: list.splits)
  have x: "expr_diags C (v2_env w) init = []"
    using N d True by (auto simp: v2_declr_def v2_bind_eq Let_def split: if_splits)
  have "agree (vars_of pat (is_type_in (v2_types C) ty \<or> tainted C (v2_env w) init) @ v2_env w)
      (bind_vars I pat (eval I vs init) vs) (bind_vars I' pat (eval I' vs' init) vs')"
    by (rule agree_vars [OF W d(2) A]) (use eval_agree [OF W A d(3)] in auto)
  moreover have "v2_env (v2_declr C d w) =
      vars_of pat (is_type_in (v2_types C) ty \<or> tainted C (v2_env w) init) @ v2_env w"
    using True d by (simp add: v2_declr_def v2_bind_eq Let_def)
  ultimately show ?thesis
    using True d sunk_agree [OF W A d(3) x] by (simp add: exec_declr_def)
next
  case False
  then show ?thesis using A by (simp add: exec_declr_def v2_declr_def split: list.split)
qed

lemma declrs_same:
  assumes W: "same_world C I I'"
  shows "agree (v2_env w) vs vs' \<Longrightarrow> \<forall>d \<in> set ds. covered_declr d \<Longrightarrow>
    v2_diags (fold (v2_declr C) ds w) = [] \<Longrightarrow>
    \<exists>evs' us us'. fold (exec_declr I (v2_im C)) ds (evs, vs) = (evs', us) \<and>
      fold (exec_declr I' (v2_im C)) ds (evs, vs') = (evs', us') \<and>
      agree (v2_env (fold (v2_declr C) ds w)) us us'"
proof (induction ds arbitrary: w evs vs vs')
  case (Cons d ds)
  have "v2_diags (v2_declr C d w) = []"
    using Cons.prems(3) declrs_grow [of "v2_declr C d w" C ds] by (simp add: grows_def)
  then obtain evs1 us us' where 1: "exec_declr I (v2_im C) d (evs, vs) = (evs1, us)"
      "exec_declr I' (v2_im C) d (evs, vs') = (evs1, us')" "agree (v2_env (v2_declr C d w)) us us'"
    using declr_same [OF W Cons.prems(1), of d evs] Cons.prems(2) by auto
  show ?case using Cons.IH [OF 1(3), of evs1] Cons.prems 1 by simp
qed simp

lemma return_same:
  assumes W: "same_world C I I'" and A: "agree (v2_env w) vs vs'" and "covered_expr e"
    and N: "is_none e \<or> v2_diags (v2_return C e w) = []"
  shows "same_run C q (v2_env w) env' (opt_sunk I (v2_im C) vs e, Ret (eval I vs e), vs, ds)
    (opt_sunk I' (v2_im C) vs' e, Ret (eval I' vs' e), vs', ds)"
proof -
  have d: "is_none e \<or> expr_diags C (v2_env w) e = []"
    using N by (auto simp: v2_return_def Let_def split: if_splits)
  have "\<not> tainted C (v2_env w) e" if "v2_exported C"
    using N
  proof
    assume "is_none e"
    then show ?thesis by (cases e) (simp add: is_none_def)
  next
    assume "v2_diags (v2_return C e w) = []"
    then show ?thesis using that
      by (cases "tainted C (v2_env w) e") (simp_all add: v2_return_def Let_def del: tainted.simps)
  qed
  then show ?thesis
    using opt_sunk_same [OF W A assms(3) d] eval_agree [OF W A assms(3)] A
    by (auto intro!: same_run.intros [where xs = "[]"])
qed

lemma clauses_drop:
  assumes "\<forall>cl \<in> set cls. \<exists>t b. nkids cl = [t, b] \<and> (\<forall>st \<in> set (nkids b). covered_stmt st)"
  shows "walk_clauses C cls w = Some w' \<Longrightarrow>
    \<exists>w1. v2_env w1 = v2_env w \<and> walk_clauses C (drop j cls) w1 = Some w'"
  using assms
proof (induction cls arbitrary: w j)
  case (Cons cl cls)
  then obtain t b where tb: "nkids cl = [t, b]" by auto
  then obtain w1 where w1: "walk_clauses C cls (v2_leave (if flag0 cl then w else check_unless_none C t w) w1) = Some w'"
    using Cons.prems by (auto simp: Let_def elim!: bind_SomeE)
  show ?case
  proof (cases j)
    case 0
    then show ?thesis using Cons.prems by auto
  next
    case (Suc i)
    show ?thesis
      using Cons.IH [OF w1, of i] Cons.prems Suc by (auto simp: v2_leave_def split: if_splits)
  qed
qed auto

lemma clauses_tests:
  assumes "\<forall>cl \<in> set cls. \<exists>t b. nkids cl = [t, b] \<and> (\<forall>st \<in> set (nkids b). covered_stmt st)"
  shows "walk_clauses C cls w = Some w' \<Longrightarrow> v2_diags w' = [] \<Longrightarrow> cl \<in> set cls \<Longrightarrow> \<not> flag0 cl \<Longrightarrow>
    nkids cl = [t, b] \<Longrightarrow> is_none t \<or> expr_diags C (v2_env w) t = []"
  using assms
proof (induction cls arbitrary: w)
  case (Cons cl' cls)
  then obtain t' b' where tb: "nkids cl' = [t', b']" by auto
  define w0 where "w0 = (if flag0 cl' then w else check_unless_none C t' w)"
  obtain w1 where w1: "walk_seq C (nkids b') w0 = Some w1"
      "walk_clauses C cls (v2_leave w0 w1) = Some w'"
    using Cons.prems(1) tb by (auto simp: w0_def Let_def elim!: bind_SomeE)
  have "grows w0 w1"
    by (rule walk_seq_grows [OF _ w1(1)]) (use Cons.prems(6) tb walk_grows(1) in force)
  moreover have "same_scope (v2_leave w0 w1) w'"
    by (rule walk_clauses_scope [OF _ _ w1(2)]) (use Cons.prems(6) walk_grows(1) in force)+
  ultimately have d: "v2_diags w0 = []"
    using Cons.prems(2) by (simp add: grows_def same_scope_def v2_leave_def)
  have e: "v2_env (v2_leave w0 w1) = v2_env w" by (simp add: w0_def v2_leave_def)
  show ?case
  proof (cases "cl = cl'")
    case True
    then show ?thesis
      using d tb Cons.prems(4,5) by (auto simp: w0_def check_unless_none_def split: if_splits)
  next
    case False
    then show ?thesis using Cons.IH [OF w1(2)] Cons.prems e by auto
  qed
qed simp

text \<open>The clause entered and the tests before it.\<close>

lemma switch_same:
  assumes R: "runs_agree C R R'" and W: "same_world C I I'" and A: "agree (v2_env w) vs vs'"
    and S: "\<forall>cl \<in> set cls. \<exists>t b. nkids cl = [t, b] \<and> covered_expr t \<and>
      (\<forall>st \<in> set (nkids b). covered_stmt st)"
    and Q: "\<And>cl b st. q \<Longrightarrow> cl \<in> set cls \<Longrightarrow> b \<in> set (nkids cl) \<Longrightarrow> st \<in> set (nkids b) \<Longrightarrow>
      \<not> throws_possibly_pii st"
    and K: "walk_clauses C cls w = Some w'" "v2_diags w' = []"
  shows "map (opt_sunk I (v2_im C) vs) (clause_tests cls j) =
      map (opt_sunk I' (v2_im C) vs') (clause_tests cls j)"
    and "same_runs C q (v2_env w) (v2_env w) (R (Clauses (drop j cls)) vs ds)
      (R' (Clauses (drop j cls)) vs' ds)"
proof -
  have S': "\<forall>cl \<in> set cls. \<exists>t b. nkids cl = [t, b] \<and> (\<forall>st \<in> set (nkids b). covered_stmt st)"
    using S by blast
  have "opt_sunk I (v2_im C) vs t = opt_sunk I' (v2_im C) vs' t" if "t \<in> set (clause_tests cls j)" for t
  proof -
    from that obtain cl where cl: "cl \<in> set cls" "\<not> flag0 cl" "t \<in> set (take 1 (nkids cl))"
      by (auto simp: clause_tests_def Let_def split: if_splits dest: in_set_takeD)
    then obtain b where b: "nkids cl = [t, b]" "covered_expr t" using S by fastforce
    show ?thesis
      by (rule opt_sunk_same [OF W A b(2) clauses_tests [OF S' K cl(1,2) b(1)]])
  qed
  then show "map (opt_sunk I (v2_im C) vs) (clause_tests cls j) =
      map (opt_sunk I' (v2_im C) vs') (clause_tests cls j)" by simp
  obtain w1 where w1: "v2_env w1 = v2_env w" "walk_clauses C (drop j cls) w1 = Some w'"
    using clauses_drop [OF S' K(1)] by blast
  have "\<forall>cl \<in> set (drop j cls). \<exists>t b. nkids cl = [t, b] \<and> covered_expr t \<and>
      (\<forall>st \<in> set (nkids b). covered_stmt st \<and> (q \<longrightarrow> \<not> throws_possibly_pii st))"
  proof
    fix cl
    assume "cl \<in> set (drop j cls)"
    then have cl: "cl \<in> set cls" by (rule in_set_dropD)
    then obtain t b where "nkids cl = [t, b]" "covered_expr t" "\<forall>st \<in> set (nkids b). covered_stmt st"
      using S by blast
    then show "\<exists>t b. nkids cl = [t, b] \<and> covered_expr t \<and>
        (\<forall>st \<in> set (nkids b). covered_stmt st \<and> (q \<longrightarrow> \<not> throws_possibly_pii st))"
      using Q [OF _ cl] by auto
  qed
  from runs_agreeD [OF R related.clauses [OF this w1(2) K(2)]] A w1(1)
  show "same_runs C q (v2_env w) (v2_env w) (R (Clauses (drop j cls)) vs ds)
      (R' (Clauses (drop j cls)) vs' ds)" by simp
qed

lemma body_runs:
  assumes "runs_agree C R R'" "covered_body st" "walk_stmt C st w = Some w'" "v2_diags w' = []"
    and "q \<Longrightarrow> \<not> throws_possibly_pii st" "agree (v2_env w) vs vs'"
  shows "same_runs C q (v2_env w) (v2_env w) (R (Stmt st) vs ds) (R' (Stmt st) vs' ds)"
proof -
  have "related C q (v2_env w) (v2_env w') (Stmt st) (Stmt st)"
    using assms by (intro related.stmt) (auto intro: covered_stmt_covered_body.intros)
  then show ?thesis
    using runs_agreeD [OF assms(1) _ assms(6)] walk_grows(2) [OF assms(2,3)]
    by (simp add: same_scope_def)
qed

lemma loop_runs:
  assumes "runs_agree C R R'" "covered_expr c" "is_none c \<or> expr_diags C (v2_env w) c = []"
    and "covered_eff u" "is_none u \<or> expr_diags C (v2_env w) u = []" "covered_body b"
    and "walk_stmt C b w = Some w'" "v2_diags w' = []" "q \<Longrightarrow> \<not> throws_possibly_pii b"
    and "agree (v2_env w) vs vs'"
  shows "same_runs C q (v2_env w) (v2_env w) (R (Loop c u b) vs ds) (R' (Loop c u b) vs' ds)"
  by (rule runs_agreeD [OF assms(1) related.loop [OF assms(2-9)] assms(10)])

lemma covered_none [simp]: "covered_expr none_node" "covered_eff none_node" "is_none none_node"
  by (simp_all add: covered_eff_def none_node_def is_none_def covered_expr.free)

lemma for_same:
  assumes R: "runs_agree C R R'" and W: "same_world C I I'" and A: "agree (v2_env w) vs vs'"
    and c: "if nk i = KVarDecl then covered_stmt i else covered_eff i" "covered_expr c"
      "covered_eff n" "covered_body b"
    and K: "walk_stmt C (Node KFor s u m [i, c, n, b]) w = Some w'" "v2_diags w' = []"
    and Q: "q \<Longrightarrow> \<not> throws_possibly_pii (Node KFor s u m [i, c, n, b])"
  shows "same_runs C q (v2_env w) (v2_env w) (exec_stmt I (v2_im C) R (Node KFor s u m [i, c, n, b]) vs ds)
    (exec_stmt I' (v2_im C) R' (Node KFor s u m [i, c, n, b]) vs' ds)"
proof -
  obtain w1 w2 where 1: "(if is_none i then Some w
        else if nk i = KVarDecl then walk_stmt C i w else Some (check_expr C i w)) = Some w1"
      "walk_stmt C b (check_unless_none C n (check_unless_none C c w1)) = Some w2"
      "w' = v2_leave w w2"
    using K(1) by (auto elim!: bind_SomeE)
  have q: "\<not> throws_possibly_pii x" if q "x \<in> {i, b}" for x
    using throws_kid [OF Q [OF that(1)], of x] that(2) by auto
  have "same_scope (check_unless_none C n (check_unless_none C c w1)) w2"
    by (rule walk_grows(2) [OF c(4) 1(2)])
  then have d: "v2_diags (check_unless_none C n (check_unless_none C c w1)) = []"
    using K(2) 1(3) by (simp add: same_scope_def v2_leave_def)
  then have d1: "v2_diags w1 = []" "is_none c \<or> expr_diags C (v2_env w1) c = []"
      "is_none n \<or> expr_diags C (v2_env w1) n = []"
    by (auto simp: check_unless_none_def split: if_splits)
  define x where "x = (if nk i = KVarDecl then R (Stmt i) vs ds
    else Some (opt_sunk I (v2_im C) vs i, Fell, opt_effect I i vs, ds))"
  define y where "y = (if nk i = KVarDecl then R' (Stmt i) vs' ds
    else Some (opt_sunk I' (v2_im C) vs' i, Fell, opt_effect I' i vs', ds))"
  have xy: "same_runs C q (v2_env w) (v2_env w1) x y \<and> (\<exists>ys. v2_env w1 = ys @ v2_env w)"
  proof (cases "nk i = KVarDecl")
    case True
    then have i: "walk_stmt C i w = Some w1" "covered_stmt i" using 1(1) c(1) by (simp_all add: is_none_def)
    have "related C q (v2_env w) (v2_env w1) (Stmt i) (Stmt i)"
      by (rule related.stmt [OF i(2,1) d1(1)]) (use q in auto)
    then show ?thesis
      using True runs_agreeD [OF R _ A] walk_grows(1) [OF i(2,1)] by (simp add: x_def y_def grows_def)
  next
    case False
    then have i: "w1 = check_unless_none C i w" using 1(1) by (auto simp: check_unless_none_def split: if_splits)
    then have "is_none i \<or> expr_diags C (v2_env w) i = []"
      using d1(1) by (auto simp: check_unless_none_def split: if_splits)
    from opt_eff_same [OF W A _ this] show ?thesis
      using False c(1) i by (auto simp: x_def y_def)
  qed
  have L: "same_runs C q (v2_env w1) (v2_env w1) (R (Loop c n b) us es) (R' (Loop c n b) us' es)"
    if "agree (v2_env w1) us us'" for us us' es
    using loop_runs [OF R c(2) _ c(3) _ c(4) 1(2)] d1 K(2) 1(3) q that by (simp add: v2_leave_def)
  obtain ys where "v2_env w1 = ys @ v2_env w" using xy by blast
  then have "same_runs C q (v2_env w) (v2_env w) (block_run vs (seq_run x (R (Loop c n b))))
      (block_run vs' (seq_run y (R' (Loop c n b))))"
    using xy by (intro same_block_run [OF same_seq_run [OF _ _ L] A]) auto
  then show ?thesis by (simp add: exec_stmt_def x_def y_def)
qed

lemma try_same:
  assumes R: "runs_agree C R R'" and W: "same_world C I I'" and A: "agree (v2_env w) vs vs'"
    and c: "covered_body b" "local_free p" "covered_body h" "covered_body f"
    and st: "st = Node KTry s u m [b, Node KCatch s' u' m' [p, h], f]"
    and K: "walk_stmt C st w = Some w'" "v2_diags w' = []"
    and Q: "q \<Longrightarrow> \<not> throws_possibly_pii st"
  shows "same_runs C q (v2_env w) (v2_env w) (exec_stmt I (v2_im C) R st vs ds)
    (exec_stmt I' (v2_im C) R' st vs' ds)"
proof -
  let ?c = "Node KCatch s' u' m' [p, h]"
  define t where "t = throws_possibly_pii b"
  obtain w1 w2 where "walk_stmt C b w = Some w1"
      "walk_stmt C h (if flag0 ?c then v2_bind p (throws_possibly_pii b) w1 else w1) = Some w2"
      "(if is_none f then Some (v2_leave w1 w2) else walk_stmt C f (v2_leave w1 w2)) = Some w'"
    using K(1) st by (auto elim!: bind_SomeE simp: is_none_def)
  note 1 = this [folded t_def]
  have e1: "v2_env w1 = v2_env w" using walk_grows(2) [OF c(1) 1(1)] by (simp add: same_scope_def)
  have "same_scope (v2_leave w1 w2) w'"
    using 1(3) walk_grows(2) [OF c(4)] by (auto split: if_splits)
  then have d2: "v2_diags w2 = []"
    using K(2) by (simp add: same_scope_def v2_leave_def)
  have "same_scope (if flag0 ?c then v2_bind p t w1 else w1) w2" by (rule walk_grows(2) [OF c(3) 1(2)])
  then have d1: "v2_diags w1 = []"
    using d2 by (auto simp: same_scope_def v2_bind_eq split: if_splits)
  have qf: "\<not> throws_possibly_pii f" "\<not> throws_possibly_pii h" "\<not> t" if q
    using Q [OF that] st by (auto simp: t_def)
  have B: "same_runs C (\<not> t) (v2_env w) (v2_env w) (R (Stmt b) vs ds) (R' (Stmt b) vs' ds)"
    by (rule body_runs [OF R c(1) 1(1) d1 _ A]) (simp add: t_def)
  define w3 where "w3 = (if flag0 ?c then v2_bind p t w1 else w1)"
  have "\<exists>xs. v2_env w3 = xs @ v2_env w"
    by (cases "flag0 ?c") (simp_all add: w3_def v2_bind_eq e1)
  then obtain xs where xs: "v2_env w3 = xs @ v2_env w" by blast
  have H: "same_runs C q (v2_env w) (v2_env w3)
      (R (Stmt h) (if flag0 ?c then bind_vars I p v us else us) es)
      (R' (Stmt h) (if flag0 ?c then bind_vars I' p v' us' else us') es)"
    if "\<not> t \<Longrightarrow> v = v'" "agree (v2_env w) us us'" for v v' us us' es
  proof -
    have "agree (vars_of p t @ v2_env w) (bind_vars I p v us) (bind_vars I' p v' us')"
      by (rule agree_vars [OF W c(2) that(2,1)])
    then have "agree (v2_env w3) (if flag0 ?c then bind_vars I p v us else us)
        (if flag0 ?c then bind_vars I' p v' us' else us')"
      using that(2) by (simp add: w3_def v2_bind_eq e1)
    then have "same_runs C q (v2_env w3) (v2_env w3)
        (R (Stmt h) (if flag0 ?c then bind_vars I p v us else us) es)
        (R' (Stmt h) (if flag0 ?c then bind_vars I' p v' us' else us') es)"
      by (rule body_runs [OF R c(3) 1(2) [folded w3_def] d2, rotated]) (rule qf(2))
    then show ?thesis unfolding xs by (rule same_runs_outer)
  qed
  have F: "same_runs C q (v2_env w) (v2_env w)
      (if is_none f then Some ([], Fell, us, es) else R (Stmt f) us es)
      (if is_none f then Some ([], Fell, us', es) else R' (Stmt f) us' es)"
    if "agree (v2_env w) us us'" for us us' es
    using 1(3) that e1 qf(1) body_runs [OF R c(4) _ K(2), of "v2_leave w1 w2" q us us' es]
    by (auto simp: v2_leave_def intro!: same_run_fell split: if_splits)
  have "same_runs C q (v2_env w) (v2_env w)
     (catch_run (is_none ?c) vs (R (Stmt b) vs ds)
        (\<lambda>v us es. R (Stmt h) (if flag0 ?c then bind_vars I p v us else us) es))
     (catch_run (is_none ?c) vs' (R' (Stmt b) vs' ds)
        (\<lambda>v us es. R' (Stmt h) (if flag0 ?c then bind_vars I' p v us else us) es))"
    by (rule same_catch_run [OF B A qf(3) H])
  from same_finally_run [OF this A F] show ?thesis by (simp add: exec_stmt_def st)
qed

lemma body_same:
  assumes R: "runs_agree C R R'" and W: "same_world C I I'" and A: "agree (v2_env w) vs vs'"
    and B: "covered_body st" and K: "walk_stmt C st w = Some w'" "v2_diags w' = []"
    and Q: "q \<Longrightarrow> \<not> throws_possibly_pii st"
  shows "same_runs C q (v2_env w) (v2_env w) (exec_stmt I (v2_im C) R st vs ds)
    (exec_stmt I' (v2_im C) R' st vs' ds)"
  using B
proof cases
  case (return e s u m)
  then show ?thesis
    using K return_same [OF W A return(2)] by (auto simp: exec_stmt_def split: if_splits)
next
  case (throw e s u m)
  then have d: "expr_diags C (v2_env w) e = []" using K by auto
  have "eval I vs e = eval I' vs' e" if q
    using Q [OF that] throw eval_agree [OF W A throw(2)] clean_throw_untainted by auto
  then show ?thesis
    using throw sunk_agree [OF W A throw(2) d] A
    by (auto simp: exec_stmt_def intro!: same_run.intros [where xs = "[]"])
next
  case (expr e s u m)
  then have d: "expr_diags C (v2_env w) e = []" using K by auto
  then show ?thesis using expr eff_agree [OF W A expr(2) d] by (auto simp: exec_stmt_def)
next
  case (if_then c t r s u m)
  then obtain w1 where 1: "walk_stmt C t (check_expr C c w) = Some w1"
      "(case r of e # _ \<Rightarrow> if is_none e then Some w1 else walk_stmt C e w1 | [] \<Rightarrow> Some w1) = Some w'"
    using K(1) by (auto elim: bind_SomeE)
  have "same_scope w1 w'"
    using 1(2) if_then(4) walk_grows(2) by (auto split: list.splits if_splits)
  then have d1: "v2_diags w1 = []" using K(2) by (simp add: same_scope_def)
  have s1: "same_scope (check_expr C c w) w1" by (rule walk_grows(2) [OF if_then(3) 1(1)])
  then have d: "expr_diags C (v2_env w) c = []" "v2_env w1 = v2_env w"
    using d1 by (simp_all add: same_scope_def)
  have T: "same_runs C q (v2_env w) (v2_env w) (R (Stmt t) vs es) (R' (Stmt t) vs' es)" for es
    using body_runs [OF R if_then(3) 1(1) d1, of q vs vs' es] Q if_then(1) A by auto
  have E: "same_runs C q (v2_env w) (v2_env w) (R (Stmt e) vs es) (R' (Stmt e) vs' es)"
    if e: "r = e # r'" for e r' es
  proof -
    have "walk_stmt C e w1 = Some w'"
      using 1(2) e by (cases e) (auto simp: is_none_def split: if_splits)
    then show ?thesis
      using body_runs [OF R _ _ K(2), of e w1 q vs vs' es] Q if_then(1,4) A d(2) e by auto
  qed
  show ?thesis
    using if_then(1) T E sunk_agree [OF W A if_then(2) d(1)] A
    by (auto simp: exec_stmt_def split: list.split intro!: same_runs_events same_run_events same_run_fell)
next
  case (block sts s u m s' u' m')
  then obtain w1 where w1: "walk_seq C sts w = Some w1" "w' = v2_leave w w1"
    using K(1) by (auto elim!: bind_SomeE)
  have "related C q (v2_env w) (v2_env w1) (Seq sts) (Seq sts)"
    by (rule related.seq [OF _ w1(1)]) (use block K(2) w1(2) Q in \<open>auto simp: v2_leave_def list_ex_iff\<close>)
  then show ?thesis
    using block(1) same_block_run [OF runs_agreeD [OF R _ A] A] by (simp add: exec_stmt_def)
next
  case (for_loop i c n b s u m)
  then show ?thesis using for_same [OF R W A] K Q by simp
next
  case (for_of d pat it b s u m)
  then obtain w1 where w1: "walk_stmt C b (v2_bind pat (tainted C (v2_env w) it) (check_expr C it w)) = Some w1"
      "w' = v2_leave w w1"
    using K(1) by (auto elim!: bind_SomeE)
  define w0 where "w0 = v2_bind pat (tainted C (v2_env w) it) (check_expr C it w)"
  have "same_scope w0 w1" using walk_grows(2) [OF for_of(5)] w1 by (simp add: w0_def)
  then have d0: "v2_diags w0 = []" using K(2) w1(2) by (simp add: same_scope_def v2_leave_def)
  then have d: "expr_diags C (v2_env w) it = []" by (simp add: w0_def v2_bind_eq)
  have e: "v2_env w0 = vars_of pat (tainted C (v2_env w) it) @ v2_env w"
    by (simp add: w0_def v2_bind_eq)
  have "related C q (v2_env w) (v2_env w) (Each pat (eval I vs it) b) (Each pat (eval I' vs' it) b)"
    by (rule related.each [OF for_of(3,5) e])
      (use w1 w0_def K(2) Q for_of eval_agree [OF W A for_of(4)] in \<open>auto simp: v2_leave_def\<close>)
  then show ?thesis
    using for_of(1,2) runs_agreeD [OF R _ A] sunk_agree [OF W A for_of(4) d]
    by (simp add: exec_stmt_def same_runs_events)
next
  case (while_loop c b s u m)
  then have w1: "walk_stmt C b (check_expr C c w) = Some w'" using K(1) by simp
  then have d: "expr_diags C (v2_env w) c = []"
    using walk_grows(2) [OF while_loop(3) w1] K(2) by (simp add: same_scope_def)
  show ?thesis
    using while_loop(1) loop_runs [OF R while_loop(2) _ covered_none(2) _ while_loop(3) w1 K(2)] d Q A
    by (simp add: exec_stmt_def)
next
  case (do_while c b s u m)
  then obtain w1 where w1: "walk_stmt C b w = Some w1" "w' = check_expr C c w1"
    using K(1) by (auto elim!: bind_SomeE)
  have e: "v2_env w1 = v2_env w" using walk_grows(2) [OF do_while(3) w1(1)] by (simp add: same_scope_def)
  have d: "v2_diags w1 = []" "expr_diags C (v2_env w) c = []" using K(2) w1(2) e by simp_all
  have L: "same_runs C q (v2_env w) (v2_env w) (R (Loop c none_node b) us es) (R' (Loop c none_node b) us' es)"
    if "agree (v2_env w) us us'" for us us' es
    using loop_runs [OF R do_while(2) _ covered_none(2) _ do_while(3) w1(1)] d Q do_while(1) that by simp
  have "same_runs C q (v2_env w) (v2_env w) (R (Stmt b) vs ds) (R' (Stmt b) vs' ds)"
    using body_runs [OF R do_while(3) w1(1) d(1) _ A] Q do_while(1) by simp
  from same_loop_run [OF this A L] show ?thesis using do_while(1) by (simp add: exec_stmt_def)
next
  case (switch d cls s u m s' u' m')
  then have k: "walk_clauses C cls (check_expr C d w) = Some w'" using K(1) by simp
  have S': "\<forall>cl \<in> set cls. \<exists>t b. nkids cl = [t, b]" using switch(3) by blast
  have "same_scope (check_expr C d w) w'"
    by (rule walk_clauses_scope [OF _ S' k]) (use switch(3) walk_grows(1) in force)
  then have e: "expr_diags C (v2_env w) d = []" using K(2) by (simp add: same_scope_def)
  have q: "\<not> throws_possibly_pii st'"
    if "q" "cl \<in> set cls" "b \<in> set (nkids cl)" "st' \<in> set (nkids b)" for cl b st'
  proof -
    have "\<not> throws_possibly_pii cl" using Q [OF that(1)] switch(1) that(2) by (auto simp: list_ex_iff)
    then show ?thesis using throws_kid_kid that(3,4) by blast
  qed
  have A': "agree (v2_env (check_expr C d w)) vs vs'" using A by simp
  have "concat (map (opt_sunk I (v2_im C) vs) (clause_tests cls j)) =
      concat (map (opt_sunk I' (v2_im C) vs') (clause_tests cls j))" for j
    by (rule arg_cong [where f = concat], rule switch_same(1) [OF R W A' switch(3) _ k K(2)]) (rule q)
  moreover have "same_runs C q (v2_env w) (v2_env w) (R (Clauses (drop j cls)) vs es)
      (R' (Clauses (drop j cls)) vs' es)" for j es
    using switch_same(2) [OF R W A' switch(3) _ k K(2), of q j es] q by simp
  ultimately show ?thesis
    using switch(1) sunk_agree [OF W A switch(2) e]
    by (auto simp: exec_stmt_def split: list.split intro!: same_runs_events)
next
  case (try_catch b p h f s u m s' u' m')
  then show ?thesis using try_same [OF R W A] K Q by blast
next
  case (try_finally b c f s u m)
  then obtain w1 where w1: "walk_stmt C b w = Some w1"
      "(if is_none f then Some w1 else walk_stmt C f w1) = Some w'"
    using K(1) by (auto elim!: bind_SomeE)
  have e: "v2_env w1 = v2_env w" using walk_grows(2) [OF try_finally(2) w1(1)] by (simp add: same_scope_def)
  have d: "v2_diags w1 = []"
    using w1(2) K(2) walk_grows(2) [OF try_finally(4)] by (auto simp: same_scope_def split: if_splits)
  have F: "same_runs C q (v2_env w) (v2_env w)
      (if is_none f then Some ([], Fell, us, es) else R (Stmt f) us es)
      (if is_none f then Some ([], Fell, us', es) else R' (Stmt f) us' es)"
    if "agree (v2_env w) us us'" for us us' es
    using w1(2) that e body_runs [OF R try_finally(4) _ K(2), of w1 q us us' es] Q try_finally(1)
    by (auto intro!: same_run_fell split: if_splits)
  have B: "same_runs C q (v2_env w) (v2_env w) (R (Stmt b) vs ds) (R' (Stmt b) vs' ds)"
    using body_runs [OF R try_finally(2) w1(1) d _ A] Q try_finally(1) by simp
  have "same_runs C q (v2_env w) (v2_env w)
     (catch_run True vs (R (Stmt b) vs ds) f1) (catch_run True vs' (R' (Stmt b) vs' ds) f2)" for f1 f2
    by (rule same_catch_run [OF B A]) auto
  from same_finally_run [OF this A F] show ?thesis
    using try_finally(1,3) by (simp add: exec_stmt_def)
next
  case (jump k s u m)
  then show ?thesis using A by (auto simp: exec_stmt_def intro!: same_run.intros [where xs = "[]"])
qed

lemma var_decl_same:
  assumes W: "same_world C I I'" and A: "agree (v2_env w) vs vs'"
    and "\<forall>d \<in> set ds. covered_declr d" and K: "walk_stmt C st w = Some w'" "v2_diags w' = []"
    and st: "st = Node KVarDecl s u m [Node KList s' u' m' ds]"
  shows "same_runs C q (v2_env w) (v2_env w') (exec_stmt I (v2_im C) R st vs es)
    (exec_stmt I' (v2_im C) R' st vs' es)"
proof -
  have w': "w' = fold (v2_declr C) ds w" using K(1) st by simp
  then obtain ys where ys: "v2_env w' = ys @ v2_env w"
    using declrs_grow [of w C ds] by (auto simp: grows_def)
  obtain evs us us' where "fold (exec_declr I (v2_im C)) ds ([], vs) = (evs, us)"
      "fold (exec_declr I' (v2_im C)) ds ([], vs') = (evs, us')" "agree (v2_env w') us us'"
    using declrs_same [OF W A assms(3), of "[]"] K(2) w' by auto
  then show ?thesis
    using ys by (auto simp: exec_stmt_def st intro!: same_run.intros [where xs = ys])
qed

subsection \<open>Any number of steps\<close>

lemma exec_same:
  fixes I I' :: "'v interp"
  assumes W: "same_world C I I'"
  shows "runs_agree C (exec n I (v2_im C)) (exec n I' (v2_im C))"
proof (induction n)
  case 0
  then show ?case by (simp add: runs_agree_def)
next
  case (Suc n)
  show ?case
    unfolding runs_agree_def
  proof (intro allI impI)
    fix q env env' ds and jb jb' :: "'v job" and vs vs' :: "'v list"
    assume J: "related C q env env' jb jb'" and A: "agree env vs vs'"
    from J show "same_runs C q env env' (exec (Suc n) I (v2_im C) jb vs ds)
        (exec (Suc n) I' (v2_im C) jb' vs' ds)"
    proof cases
      case (stmt st w w')
      from stmt(5) show ?thesis
      proof cases
        case (var_decl dcls s u m s' u' m')
        then show ?thesis
          using var_decl_same [OF W _ var_decl(2) stmt(6,7) var_decl(1)] A stmt(1-4) by simp
      next
        case body
        have "same_scope w w'" by (rule walk_grows(2) [OF body stmt(6)])
        then show ?thesis
          using body_same [OF Suc W _ body stmt(6,7,8)] A stmt(1-4) by (simp add: same_scope_def)
      qed
    next
      case (seq sts w w')
      then show ?thesis using seq_same [OF Suc _ seq(5-7)] A by simp
    next
      case (clauses cls w w')
      then show ?thesis using clauses_same [OF Suc _ clauses(5-7)] A by simp
    next
      case (loop c w u b w')
      then show ?thesis using loop_same [OF Suc W A] J by simp
    next
      case each
      then show ?thesis using each_same [OF Suc W A] J by simp
    qed
  qed
qed

end
