(* ===== verification/Adm_Samples.thy ===== *)
theory Adm_Samples
  imports Adm_Paths
begin

section \<open>Sample definitions for the admission verifiers\<close>

text \<open>
  An image with \<open>mail.send\<close> (a capability), \<open>log.write\<close> (an external effect), \<open>mask\<close> and
  \<open>sql.connect\<close> (a host resource), function definitions over it, and a world in which a value is the
  list of the secrets it was computed from.
\<close>

definition nd :: "kind \<Rightarrow> string \<Rightarrow> nat \<Rightarrow> node list \<Rightarrow> node" where
  "nd k s u ks = Node k s (of_nat u) [] ks"

definition nref :: "string \<Rightarrow> node" where "nref h = nd KRef h 0 []"
definition nlocal :: "nat \<Rightarrow> node" where "nlocal i = nd KLocal [] i []"
definition nstrlit :: "string \<Rightarrow> node" where "nstrlit s = nd KStr s 0 []"
definition nvar :: node where "nvar = nd KBindId [] 0 []"
definition nlist :: "node list \<Rightarrow> node" where "nlist ks = nd KList [] 0 ks"
definition ncall :: "node \<Rightarrow> node list \<Rightarrow> node" where "ncall f as = nd KCall [] 0 [f, nlist as]"
definition nreturn :: "node \<Rightarrow> node" where "nreturn e = nd KReturn [] 0 [e]"
definition nexpr :: "node \<Rightarrow> node" where "nexpr e = nd KExprStmt [] 0 [e]"
definition nblock :: "node list \<Rightarrow> node" where "nblock sts = nd KBlock [] 0 [nlist sts]"
definition ndecl :: "node \<Rightarrow> node \<Rightarrow> node" where
  "ndecl ty init = nd KVarDecl [] 0 [nlist [nd KDeclr [] 0 [nvar, ty, init]]]"
definition nparam :: "node \<Rightarrow> node" where "nparam ty = nd KParam [] 0 [nvar, ty, none_node]"
definition nfunc :: "node list \<Rightarrow> node list \<Rightarrow> node" where
  "nfunc ps sts = nd KFunc [] 0 [nlist ps, nlist [], none_node, nblock sts]"
definition nassign :: "node \<Rightarrow> node \<Rightarrow> node" where "nassign x e = nd KBinary [] 40 [x, e]"
definition nawait :: "node \<Rightarrow> node" where "nawait e = nd KAwait [] 0 [e]"

lemmas nd_defs = nd_def nref_def nlocal_def nstrlit_def nvar_def nlist_def ncall_def nreturn_def
  nexpr_def nblock_def ndecl_def nparam_def nfunc_def nassign_def nawait_def none_node_def

definition tvault :: node where "tvault = nd TCatRef ''#vault'' 0 []"
definition tconn :: node where "tconn = nd TCatRef ''#conn'' 0 []"

definition ex_image :: image where
  "ex_image = \<lparr>
     im_entry = map_of [
       (''#send'', \<lparr>se_module = ''std/mail'', se_export = ''send'', se_intrinsic = ''std/mail.send''\<rparr>),
       (''#log'', \<lparr>se_module = ''std/log'', se_export = ''write'', se_intrinsic = ''std/log.write''\<rparr>),
       (''#mask'', \<lparr>se_module = ''std/pii'', se_export = ''mask'', se_intrinsic = ''std/pii.mask''\<rparr>),
       (''#connect'', \<lparr>se_module = ''std/sql'', se_export = ''connect'', se_intrinsic = ''std/sql.connect''\<rparr>)],
     im_cap = [''#send'' \<mapsto> ''mail.send''],
     im_effect = (\<lambda>h. if h \<in> {''#send'', ''#log''} then ''external'' else []),
     im_nonserial = (\<lambda>h. h = ''#connect'')\<rparr>"

definition ex_fun :: "node list \<Rightarrow> node list \<Rightarrow> lowered" where
  "ex_fun ps sts = \<lparr>ld_catalog = ''app/crm/f'', ld_name = ''f'', ld_exported = True, ld_kind = DefFunc,
     ld_body = nfunc ps sts, ld_hash = ''#f'',
     ld_deps = [\<lparr>dp_name = ''Vault'', dp_module = ''std/pii'', dp_hash = ''#vault''\<rparr>,
       \<lparr>dp_name = ''Conn'', dp_module = ''std/sql'', dp_hash = ''#conn''\<rparr>],
     ld_names = [''owner'']\<rparr>"

text \<open>A value is the list of secrets that went into it; a call that cleans yields none.\<close>

definition prov_world :: "image \<Rightarrow> nat list interp" where
  "prov_world im = \<lparr>
     it_op = (\<lambda>k s u m vs. concat vs),
     it_call = (\<lambda>callee vs. if cleans im callee then [] else concat vs),
     it_bind = (\<lambda>pat j v vs. v),
     it_elem = (\<lambda>j v. v)\<rparr>"

text \<open>
  \<open>for (const r of rows) { send(r, mask(owner)); }
   try { throw "bad"; } catch (e) { write(e); }
   return rows;\<close>
\<close>

definition masked_loop :: lowered where
  "masked_loop = ex_fun [nparam tvault, nparam none_node]
     [nd KForOf [] 0
        [nd KVarDecl [] 0 [nlist [nd KDeclr [] 0 [nvar, none_node, none_node]]],
         nlocal 0,
         nblock [nexpr (ncall (nref ''#send'') [nlocal 0, ncall (nref ''#mask'') [nlocal 2]])]],
      nd KTry [] 0
        [nblock [nd KThrow [] 0 [nstrlit ''bad'']],
         nd KCatch [] 1 [nvar, nblock [nexpr (ncall (nref ''#log'') [nlocal 0])]],
         none_node],
      nreturn (nlocal 0)]"

text \<open>Bodies of \<open>f(owner: Vault<string>)\<close> that return \<open>owner\<close>: through an assignment, as the receiver
  of a method call, spread into an array, captured by a closure, as an index.\<close>

definition leaks :: "node list list" where
  "leaks = [
     [ndecl none_node (nstrlit []), nexpr (nassign (nlocal 0) (nlocal 1)), nreturn (nlocal 0)],
     [nreturn (ncall (nd KMember ''trim'' 0 [nlocal 0]) [])],
     [nreturn (nd KArray [] 0 [nlist [nd KSpread [] 0 [nlocal 0]]])],
     [nreturn (nd KFunc [] 2 [nlist [], nlist [], none_node, nlocal 0])],
     [nreturn (nd KIndex [] 0 [nref ''#table'', nlocal 0])]]"

end
