(* ===== verification/Adm_Pii_Theorems.thy ===== *)
theory Adm_Pii_Theorems
  imports Adm_Pii_Runs Adm_Samples
begin

section \<open>What V2 shows, and what it lets through\<close>

subsection \<open>Calls of a definition\<close>








subsection \<open>The sample\<close>




subsection \<open>Properties\<close>




end
