(* ===== verification/Adm_Patch.thy ===== *)
theory Adm_Patch
  imports Adm_Image "HOL-Library.List_Lexorder" "HOL-Library.Char_ord"
begin

section \<open>The admission envelope, the capability audit (V1) and contract purity (V4)\<close>

text \<open>
  \<open>internal/admission/patch.go\<close>, \<open>verifyV1\<close> and \<open>verifyV4\<close> of \<open>verifier.go\<close> and
  \<open>contracts.go\<close>.  A Go \<open>map[string]bool\<close> that is only tested and listed in order is the list of
  its keys; \<open>sorted_keys\<close> gives the keys in byte order, each once.
\<close>

subsection \<open>Envelope and principal\<close>

record scope_ref =
  sc_kind :: nat
  sc_id :: string

record module_src =
  md_name :: string
  md_source :: string

record read_entry =
  re_kind :: string
  re_ref :: string
  re_scope :: scope_ref
  re_by :: string

record patch =
  pt_modules :: "module_src list"
  pt_declared :: "string \<Rightarrow> string list option"
  pt_default :: "string list"
  pt_tier :: "string \<Rightarrow> string"
  pt_intent :: string
  pt_scope :: scope_ref
  pt_base :: "string \<Rightarrow> string option"
  pt_token :: string
  pt_reads :: "read_entry list"

record scope_chain =
  ch_user :: string
  ch_team :: string
  ch_org :: string
  ch_package :: string

record submitter =
  sb_kind :: string
  sb_id :: string
  sb_via :: string
  sb_chain :: scope_chain

definition subject_of :: "submitter \<Rightarrow> string" where
  "subject_of a = sb_kind a @ '':'' @ sb_id a"

text \<open>\<open>normalizeCapability\<close> and \<open>declaredFor\<close>.\<close>

definition normalize_capability :: "string \<Rightarrow> string" where
  "normalize_capability c = (if take 4 c = ''std/'' then drop 4 c else c)"

definition declared_for :: "patch \<Rightarrow> string \<Rightarrow> string list" where
  "declared_for p name =
     map normalize_capability (case pt_declared p name of Some cs \<Rightarrow> cs | None \<Rightarrow> pt_default p)"

text \<open>\<open>setOf\<close> drops the empty string; \<open>sortedKeys\<close>.\<close>

definition set_of :: "string list \<Rightarrow> string list" where
  "set_of xs = filter (\<lambda>x. x \<noteq> []) xs"

definition sorted_keys :: "string list \<Rightarrow> string list" where
  "sorted_keys xs = sort (remdups xs)"

lemma set_sorted_keys [simp]: "set (sorted_keys xs) = set xs"
  by (simp add: sorted_keys_def)

lemma set_set_of [simp]: "set (set_of xs) = set xs - {[]}"
  by (auto simp: set_of_def)

subsection \<open>V1\<close>

text \<open>\<open>namedCapabilities\<close>: what the definition's dependency edges reach.\<close>

definition named_capabilities :: "image \<Rightarrow> lowered \<Rightarrow> string list" where
  "named_capabilities im d = List.map_filter (\<lambda>p. im_cap im (dp_hash p)) (ld_deps d)"

definition cap_ungranted :: "lowered \<Rightarrow> string \<Rightarrow> diag" where
  "cap_ungranted d cap = \<lparr>dg_stage = ''V1'', dg_code = ''CAP_UNGRANTED'', dg_subject = ld_catalog d,
     dg_def = ld_hash d, dg_about = cap\<rparr>"

definition verify_v1_def :: "patch \<Rightarrow> string set \<Rightarrow> image \<Rightarrow> lowered \<Rightarrow> diag list" where
  "verify_v1_def p grants im d =
     (let named = named_capabilities im d; declared = set_of (declared_for p (ld_catalog d)) in
      map (cap_ungranted d) (filter (\<lambda>c. c \<notin> set declared) (sorted_keys named)) @
      map (cap_ungranted d) (filter (\<lambda>c. c \<notin> grants) (sorted_keys declared)))"

definition verify_v1 :: "lowered list \<Rightarrow> patch \<Rightarrow> string set \<Rightarrow> image \<Rightarrow> diag list" where
  "verify_v1 ds p grants im = concat (map (verify_v1_def p grants im) ds)"

subsection \<open>V4\<close>

text \<open>\<open>contractClause\<close>: the kind and the predicate, absent when the call has no argument.\<close>

record contract_clause =
  cc_kind :: string
  cc_clause :: "node option"

text \<open>\<open>firstArg\<close>, on the children of the call.\<close>

definition first_arg :: "node list \<Rightarrow> node option" where
  "first_arg ks = (case ks of _ # args # _ \<Rightarrow>
     (case nkids args of a # _ \<Rightarrow> Some a | [] \<Rightarrow> None) | _ \<Rightarrow> None)"

definition clause_at :: "image \<Rightarrow> node list \<Rightarrow> contract_clause list" where
  "clause_at im ks = (case ks of
     callee # args # _ \<Rightarrow>
       if std_intrinsic_of im callee = ''std/contract.pre''
       then [\<lparr>cc_kind = ''pre'', cc_clause = first_arg ks\<rparr>]
       else if std_intrinsic_of im callee = ''std/contract.post''
       then [\<lparr>cc_kind = ''post'', cc_clause = first_arg ks\<rparr>]
       else []
   | _ \<Rightarrow> [])"

fun clauses_in :: "image \<Rightarrow> node \<Rightarrow> contract_clause list" where
  "clauses_in im (Node k s u m ks) =
     (if k = KCall then clause_at im ks else []) @ concat (map (clauses_in im) ks)"

text \<open>\<open>findContractClauses\<close>.\<close>

definition find_contract_clauses :: "image \<Rightarrow> lowered \<Rightarrow> contract_clause list" where
  "find_contract_clauses im d =
     (case func_parts (ld_kind d) (ld_body d) of
        Some (_, _, body) \<Rightarrow> clauses_in im body | None \<Rightarrow> [])"

text \<open>\<open>isGovernanceIntrinsic\<close>.\<close>

definition has_prefix :: "string \<Rightarrow> string \<Rightarrow> bool" where
  "has_prefix s p \<longleftrightarrow> take (length p) s = p"

definition is_governance :: "string \<Rightarrow> bool" where
  "is_governance i \<longleftrightarrow> list_ex (has_prefix i) [''std/policy.'', ''std/resource.'', ''std/sql.'']"

text \<open>\<open>classifyClause\<close>: the walk fills \<open>effSym\<close> and \<open>malSym\<close>, each with the first symbol it finds.\<close>

definition classify_ref :: "image \<Rightarrow> string \<Rightarrow> string \<times> string \<Rightarrow> string \<times> string" where
  "classify_ref im h st = (case st of (eff, mal) \<Rightarrow>
     if im_cap im h \<noteq> None \<and> eff = [] then (the (im_cap im h), mal)
     else (case im_entry im h of
        Some e \<Rightarrow> if mal = [] \<and> is_governance (se_intrinsic e) then (eff, se_export e) else (eff, mal)
      | None \<Rightarrow> (eff, mal)))"

text \<open>The references of a node in pre-order, the order of the walk.\<close>

fun refs_of :: "node \<Rightarrow> string list" where
  "refs_of (Node k s u m ks) = (if k = KRef then [s] else []) @ concat (map refs_of ks)"

definition classify_clause :: "image \<Rightarrow> node option \<Rightarrow> bool \<times> bool \<times> string" where
  "classify_clause im clause =
     (case fold (classify_ref im) (case clause of Some n \<Rightarrow> refs_of n | None \<Rightarrow> []) ([], []) of (eff, mal) \<Rightarrow>
        if eff \<noteq> [] then (True, False, eff)
        else if mal \<noteq> [] then (False, True, mal)
        else (False, False, []))"

definition contract_diag :: "lowered \<Rightarrow> string \<Rightarrow> string \<Rightarrow> diag" where
  "contract_diag d code about = \<lparr>dg_stage = ''V4'', dg_code = code, dg_subject = ld_catalog d,
     dg_def = ld_hash d, dg_about = about\<rparr>"

definition clause_diags :: "image \<Rightarrow> lowered \<Rightarrow> contract_clause \<Rightarrow> diag list" where
  "clause_diags im d c = (case classify_clause im (cc_clause c) of (effectful, malformed, about) \<Rightarrow>
     if effectful then [contract_diag d ''CONTRACT_EFFECTFUL'' about]
     else if malformed then [contract_diag d ''CONTRACT_MALFORMED'' about]
     else [])"

text \<open>\<open>verifyV4Def\<close> and \<open>verifyV4\<close>.\<close>

definition verify_v4_def :: "image \<Rightarrow> lowered \<Rightarrow> diag list" where
  "verify_v4_def im d = concat (map (clause_diags im d) (find_contract_clauses im d))"

definition verify_v4 :: "image \<Rightarrow> lowered list \<Rightarrow> diag list" where
  "verify_v4 im ds = concat (map (verify_v4_def im) ds)"

subsection \<open>What the two verifiers accept\<close>

lemma verify_v1_def_empty:
  "verify_v1_def p grants im d = [] \<longleftrightarrow>
     set (named_capabilities im d) \<subseteq> set (declared_for p (ld_catalog d)) - {[]} \<and>
     set (declared_for p (ld_catalog d)) - {[]} \<subseteq> grants"
  by (auto simp: verify_v1_def_def Let_def filter_empty_conv)

text \<open>An image whose capability tokens and export names are not empty, as \<open>buildImage\<close> makes them.\<close>

definition named_image :: "image \<Rightarrow> bool" where
  "named_image im \<longleftrightarrow> (\<forall>h. im_cap im h \<noteq> Some []) \<and> (\<forall>h e. im_entry im h = Some e \<longrightarrow> se_export e \<noteq> [])"

definition pure_ref :: "image \<Rightarrow> string \<Rightarrow> bool" where
  "pure_ref im h \<longleftrightarrow> im_cap im h = None \<and>
     (case im_entry im h of Some e \<Rightarrow> \<not> is_governance (se_intrinsic e) | None \<Rightarrow> True)"

lemma classify_refs:
  assumes "named_image im"
  shows "fold (classify_ref im) hs ([], []) = ([], []) \<longleftrightarrow> (\<forall>h\<in>set hs. pure_ref im h)"
proof -
  have eff: "fst (fold (classify_ref im) hs st) \<noteq> []" if "fst st \<noteq> []" for hs st
    using that by (induction hs arbitrary: st)
      (auto simp: classify_ref_def split: prod.splits option.splits)
  have mal: "snd (fold (classify_ref im) hs st) \<noteq> []" if "snd st \<noteq> []" for hs st
    using that by (induction hs arbitrary: st)
      (auto simp: classify_ref_def split: prod.splits option.splits)
  show ?thesis
  proof (induction hs)
    case (Cons h hs)
    show ?case
    proof (cases "pure_ref im h")
      case True
      then have "classify_ref im h ([], []) = ([], [])"
        by (auto simp: classify_ref_def pure_ref_def split: option.splits)
      then show ?thesis using Cons True by simp
    next
      case False
      then have "fst (classify_ref im h ([], [])) \<noteq> [] \<or> snd (classify_ref im h ([], [])) \<noteq> []"
        using assms by (auto simp: classify_ref_def pure_ref_def named_image_def split: option.splits)
      with eff [of "classify_ref im h ([], [])" hs] mal [of "classify_ref im h ([], [])" hs] False
      show ?thesis by auto
    qed
  qed simp
qed

lemma clause_diags_empty:
  assumes "named_image im"
  shows "clause_diags im d c = [] \<longleftrightarrow> (\<forall>n. cc_clause c = Some n \<longrightarrow> (\<forall>h\<in>set (refs_of n). pure_ref im h))"
  using classify_refs [OF assms, of "case cc_clause c of Some n \<Rightarrow> refs_of n | None \<Rightarrow> []"]
  by (cases "fold (classify_ref im) (case cc_clause c of Some n \<Rightarrow> refs_of n | None \<Rightarrow> []) ([], [])")
    (auto simp: clause_diags_def classify_clause_def split: option.splits if_splits)

lemma verify_v4_def_empty:
  assumes "named_image im"
  shows "verify_v4_def im d = [] \<longleftrightarrow> (\<forall>c\<in>set (find_contract_clauses im d).
    \<forall>n. cc_clause c = Some n \<longrightarrow> (\<forall>h\<in>set (refs_of n). pure_ref im h))"
  by (auto simp: verify_v4_def_def clause_diags_empty [OF assms])

end
