(* ===== verification/Adm_Fields.thy ===== *)
theory Adm_Fields
  imports Adm_Patch
begin

section \<open>Field types and resource declarations\<close>

text \<open>
  \<open>internal/admission/fieldtypes.go\<close>, the closed table of field types and the columns each derives,
  and the parsing half of \<open>derive.go\<close>: a \<open>resource(...)\<close> declaration read off the body of a value
  definition.
\<close>

subsection \<open>The closed table\<close>

record field_bundle =
  bu_validator :: string
  bu_input :: string
  bu_render :: string
  bu_leaf :: string
  bu_ordered :: bool

definition field_bundles :: "string \<Rightarrow> field_bundle option" where
  "field_bundles = map_of [
     (''text'', \<lparr>bu_validator = ''string'', bu_input = ''field'', bu_render = ''text'', bu_leaf = ''text'', bu_ordered = False\<rparr>),
     (''longtext'', \<lparr>bu_validator = ''string'', bu_input = ''field'', bu_render = ''text'', bu_leaf = ''text'', bu_ordered = False\<rparr>),
     (''number'', \<lparr>bu_validator = ''number'', bu_input = ''field'', bu_render = ''text'', bu_leaf = ''text'', bu_ordered = False\<rparr>),
     (''money'', \<lparr>bu_validator = ''money'', bu_input = ''field'', bu_render = ''money'', bu_leaf = ''money'', bu_ordered = False\<rparr>),
     (''boolean'', \<lparr>bu_validator = ''boolean'', bu_input = ''checkbox'', bu_render = ''text'', bu_leaf = ''text'', bu_ordered = False\<rparr>),
     (''date'', \<lparr>bu_validator = ''date'', bu_input = ''field'', bu_render = ''datetime'', bu_leaf = ''text'', bu_ordered = False\<rparr>),
     (''timestamp'', \<lparr>bu_validator = ''timestamp'', bu_input = ''field'', bu_render = ''datetime'', bu_leaf = ''text'', bu_ordered = False\<rparr>),
     (''email'', \<lparr>bu_validator = ''email'', bu_input = ''field'', bu_render = ''text'', bu_leaf = ''text'', bu_ordered = False\<rparr>),
     (''phone'', \<lparr>bu_validator = ''phone'', bu_input = ''field'', bu_render = ''text'', bu_leaf = ''text'', bu_ordered = False\<rparr>),
     (''url'', \<lparr>bu_validator = ''url'', bu_input = ''field'', bu_render = ''text'', bu_leaf = ''text'', bu_ordered = False\<rparr>),
     (''address'', \<lparr>bu_validator = ''address'', bu_input = ''field'', bu_render = ''text'', bu_leaf = [], bu_ordered = False\<rparr>),
     (''select'', \<lparr>bu_validator = ''enum'', bu_input = ''select'', bu_render = ''badge'', bu_leaf = ''badge'', bu_ordered = False\<rparr>),
     (''states'', \<lparr>bu_validator = ''enum'', bu_input = ''select'', bu_render = ''badge'', bu_leaf = ''badge'', bu_ordered = True\<rparr>),
     (''relation'', \<lparr>bu_validator = ''reference'', bu_input = ''select'', bu_render = ''text'', bu_leaf = [], bu_ordered = False\<rparr>)]"

text \<open>A Go map access of an absent key yields the zero bundle.\<close>

definition bundle_of :: "string \<Rightarrow> field_bundle" where
  "bundle_of base = (case field_bundles base of Some b \<Rightarrow> b
     | None \<Rightarrow> \<lparr>bu_validator = [], bu_input = [], bu_render = [], bu_leaf = [], bu_ordered = False\<rparr>)"

definition known_base :: "string \<Rightarrow> bool" where
  "known_base base \<longleftrightarrow> field_bundles base \<noteq> None"

definition pii_wrappable :: "string \<Rightarrow> bool" where
  "pii_wrappable base \<longleftrightarrow> known_base base \<and> bu_leaf (bundle_of base) \<noteq> []"

definition mask_leaf_for :: "string \<Rightarrow> string" where
  "mask_leaf_for base = bu_leaf (bundle_of base)"

record field_spec =
  f_name :: string
  f_base :: string
  f_pii :: bool
  f_params :: "string list"

definition maskable :: "field_spec \<Rightarrow> bool" where
  "maskable f = (if f_pii f then pii_wrappable (f_base f) else known_base (f_base f))"

lemma maskable_cases: "maskable f \<longleftrightarrow> known_base (f_base f) \<and> (f_pii f \<longrightarrow> pii_wrappable (f_base f))"
  by (auto simp: maskable_def pii_wrappable_def)

subsection \<open>Columns\<close>

record column =
  co_name :: string
  co_type :: string
  co_check :: string

text \<open>\<open>strings.ReplaceAll\<close> of a one-character string by two of it.\<close>

definition double_char :: "char \<Rightarrow> string \<Rightarrow> string" where
  "double_char c s = concat (map (\<lambda>x. if x = c then [c, c] else [x]) s)"

definition dquote :: char where "dquote = CHR 0x22"

definition quote_ident :: "string \<Rightarrow> string" where
  "quote_ident s = dquote # double_char dquote s @ [dquote]"

definition sql_literal :: "string \<Rightarrow> string" where
  "sql_literal v = CHR 0x27 # double_char (CHR 0x27) v @ [CHR 0x27]"

fun join_with :: "string \<Rightarrow> string list \<Rightarrow> string" where
  "join_with sep [] = []"
| "join_with sep [x] = x"
| "join_with sep (x # y # r) = x @ sep @ join_with sep (y # r)"

definition rel_kind :: "field_spec \<Rightarrow> string" where
  "rel_kind f = (case f_params f of k # _ \<Rightarrow> if k \<noteq> [] then k else ''belongsTo'' | [] \<Rightarrow> ''belongsTo'')"

definition rel_target :: "field_spec \<Rightarrow> string" where
  "rel_target f = (case f_params f of _ # t # _ \<Rightarrow> t | _ \<Rightarrow> [])"

definition address_parts :: "string list" where
  "address_parts = [''line1'', ''line2'', ''city'', ''region'', ''postal'', ''country'']"

definition col_scalar_type :: "string \<Rightarrow> string" where
  "col_scalar_type base =
     (if base = ''number'' then ''numeric'' else if base = ''boolean'' then ''boolean''
      else if base = ''date'' then ''date'' else if base = ''timestamp'' then ''timestamptz''
      else ''text'')"

definition enum_check :: "field_spec \<Rightarrow> string" where
  "enum_check f = (if f_params f = [] then []
     else quote_ident (f_name f) @ '' IN ('' @ join_with '', '' (map sql_literal (f_params f)) @ '')'')"

definition plain_column :: "string \<Rightarrow> string \<Rightarrow> column" where
  "plain_column n t = \<lparr>co_name = n, co_type = t, co_check = []\<rparr>"

definition columns_for :: "field_spec \<Rightarrow> column list" where
  "columns_for f =
     (if f_pii f then []
      else if f_base f = ''money'' then
        [plain_column (f_name f) ''bigint'', plain_column (f_name f @ ''_currency'') ''text'']
      else if f_base f = ''address'' then
        map (\<lambda>p. plain_column (f_name f @ ''_'' @ p) ''text'') address_parts
      else if f_base f = ''select'' \<or> f_base f = ''states'' then
        [\<lparr>co_name = f_name f, co_type = ''text'', co_check = enum_check f\<rparr>]
      else if f_base f = ''relation'' then
        (if rel_kind f = ''hasMany'' then [] else [plain_column (f_name f @ ''_id'') ''bigint''])
      else [plain_column (f_name f) (col_scalar_type (f_base f))])"

subsection \<open>Parsing a declaration\<close>

record resource_decl =
  rs_name :: string
  rs_hash :: string
  rs_fields :: "field_spec list"
  rs_policy :: string
  rs_policy_name :: string

record policy_artifact =
  pa_name :: string
  pa_hash :: string

definition unwrap_value :: "node \<Rightarrow> node" where
  "unwrap_value n = (if nk n = KSatisfy then (case nkids n of x # _ \<Rightarrow> x | [] \<Rightarrow> n) else n)"

text \<open>\<open>stdCallIntrinsic\<close>: the intrinsic and the argument list.\<close>

definition std_call :: "image \<Rightarrow> node \<Rightarrow> (string \<times> node) option" where
  "std_call im body =
     (let b = unwrap_value body in
      if nk b \<noteq> KCall then None
      else (case nkids b of
        callee # args # _ \<Rightarrow>
          if nk callee = KRef then map_option (\<lambda>e. (se_intrinsic e, args)) (im_entry im (nstr callee))
          else None
      | _ \<Rightarrow> None))"

definition obj_props :: "node \<Rightarrow> node list" where
  "obj_props obj = (case nkids obj of l # _ \<Rightarrow> filter (\<lambda>k. nk k = KProp) (nkids l) | [] \<Rightarrow> [])"

text \<open>\<open>propKV\<close>: the key, empty when it is not a constant, and the value.\<close>

definition prop_kv :: "node \<Rightarrow> string \<times> node option" where
  "prop_kv p = (case nkids p of
      k # v # _ \<Rightarrow> (if nk k = KStrPart \<or> nk k = KStr then nstr k else [], Some v)
    | _ \<Rightarrow> ([], None))"

text \<open>\<open>strings.IndexByte\<close> and \<open>strings.Split\<close> at one character.\<close>

definition cut_at :: "char \<Rightarrow> string \<Rightarrow> string \<times> string" where
  "cut_at c s = (takeWhile (\<lambda>x. x \<noteq> c) s, drop 1 (dropWhile (\<lambda>x. x \<noteq> c) s))"

fun split_at :: "char \<Rightarrow> string \<Rightarrow> string list" where
  "split_at c [] = [[]]"
| "split_at c (x # s) = (if x = c then [] # split_at c s
     else (case split_at c s of w # ws \<Rightarrow> (x # w) # ws | [] \<Rightarrow> [[x]]))"

definition parse_field_spec :: "string \<Rightarrow> string \<Rightarrow> field_spec" where
  "parse_field_spec name spec0 =
     (let pii = has_prefix spec0 ''pii:'';
          spec = (if pii then drop 4 spec0 else spec0);
          (base, rest) = cut_at (CHR '':'') spec
      in if base = ''select'' \<or> base = ''states'' then
           \<lparr>f_name = name, f_base = base, f_pii = pii,
            f_params = (if rest = [] then [] else split_at (CHR ''|'') rest)\<rparr>
         else if base = ''belongsTo'' \<or> base = ''hasMany'' then
           \<lparr>f_name = name, f_base = ''relation'', f_pii = pii, f_params = [base, rest]\<rparr>
         else \<lparr>f_name = name, f_base = base, f_pii = pii, f_params = []\<rparr>)"

definition field_props :: "node \<Rightarrow> field_spec list" where
  "field_props v = List.map_filter (\<lambda>p. case prop_kv p of
       (fname, Some fval) \<Rightarrow>
         if fname = [] \<or> nk fval \<noteq> KStr then None else Some (parse_field_spec fname (nstr fval))
     | (_, None) \<Rightarrow> None) (obj_props v)"

text \<open>The loop over the properties of the argument, and \<open>parseResource\<close>.\<close>

definition resource_prop :: "node \<Rightarrow> resource_decl \<Rightarrow> resource_decl" where
  "resource_prop p rd = (case prop_kv p of
      (key, Some v) \<Rightarrow>
        if key = ''fields'' \<and> nk v = KObject then rd\<lparr>rs_fields := rs_fields rd @ field_props v\<rparr>
        else if key = ''policy'' \<and> nk v = KRef then rd\<lparr>rs_policy := nstr v\<rparr>
        else rd
    | (_, None) \<Rightarrow> rd)"

definition policy_display :: "image \<Rightarrow> (string \<Rightarrow> string option) \<Rightarrow> string \<Rightarrow> string" where
  "policy_display im names h =
     (if h = [] then []
      else (case im_entry im h of Some e \<Rightarrow> se_export e
        | None \<Rightarrow> (case names h of Some n \<Rightarrow> n | None \<Rightarrow> h)))"

definition sort_fields :: "field_spec list \<Rightarrow> field_spec list" where
  "sort_fields fs = sort_key f_name fs"

definition parse_resource ::
  "image \<Rightarrow> (string \<Rightarrow> string option) \<Rightarrow> lowered \<Rightarrow> resource_decl option" where
  "parse_resource im names d =
     (if ld_kind d \<noteq> DefValue then None
      else (case std_call im (ld_body d) of
        Some (i, args) \<Rightarrow>
          if i = ''std/resource.resource'' \<and> nk args = KList then
            (case nkids args of
               obj # _ \<Rightarrow>
                 if nk obj = KObject then
                   let rd = fold resource_prop (obj_props obj)
                         \<lparr>rs_name = ld_catalog d, rs_hash = ld_hash d, rs_fields = [],
                          rs_policy = [], rs_policy_name = []\<rparr>
                   in Some (rd\<lparr>rs_fields := sort_fields (rs_fields rd),
                        rs_policy_name := policy_display im names (rs_policy rd)\<rparr>)
                 else None
             | [] \<Rightarrow> None)
          else None
      | None \<Rightarrow> None))"

definition parse_policy :: "image \<Rightarrow> lowered \<Rightarrow> policy_artifact option" where
  "parse_policy im d =
     (if ld_kind d \<noteq> DefValue then None
      else (case std_call im (ld_body d) of
        Some (i, _) \<Rightarrow> if i = ''std/policy.policy'' then Some \<lparr>pa_name = ld_catalog d, pa_hash = ld_hash d\<rparr> else None
      | None \<Rightarrow> None))"

subsection \<open>Laws\<close>

lemma split_at_nonempty [simp]: "split_at c s \<noteq> []"
  by (induction c s rule: split_at.induct) (auto split: list.splits)

lemma pii_no_columns [simp]: "f_pii f \<Longrightarrow> columns_for f = []"
  by (simp add: columns_for_def)

end
