(* ===== verification/Adm_Derive.thy ===== *)
theory Adm_Derive
  imports Adm_Fields Go_Strconv
begin

section \<open>The derivation plan (step 5a), V3 and V6\<close>

text \<open>
  \<open>buildPlan\<close> of \<open>internal/admission/derive.go\<close>: the additive DDL, the destructive statements, the
  totality gaps and the vault routes each declared resource derives against its recorded shape, and
  the verifiers over the plan.  An additive statement is a value of \<open>ddl\<close>; \<open>ddl_text\<close> is the text the
  code builds.  A Go \<open>map[string]fieldSpec\<close> is the list of its entries in name order, each name once.
\<close>

subsection \<open>Statements\<close>

datatype ddl =
    CreateTable string "column list"
  | AddColumn string column
  | AddVersion string
  | CreateHistory string
  | HistoryColumn string column
  | HistoryFunction string "column list"
  | DropTrigger string
  | CreateTrigger string

definition nl :: string where "nl = [CHR 0x0A]"

definition check_clause :: "column \<Rightarrow> string" where
  "check_clause c = (if co_check c = [] then [] else '' CHECK ('' @ co_check c @ '')'')"

definition column_text :: "column \<Rightarrow> string" where
  "column_text c = quote_ident (co_name c) @ '' '' @ co_type c"

definition history_insert :: "string \<Rightarrow> column list \<Rightarrow> string" where
  "history_insert pre cols = (let ns = map (\<lambda>c. pre @ quote_ident (co_name c)) cols in
     if ns = [] then [] else join_with '', '' ns @ '', '')"

fun ddl_text :: "ddl \<Rightarrow> string" where
  "ddl_text (CreateTable t cs) = ''CREATE TABLE IF NOT EXISTS '' @ t @ '' ('' @ nl @ ''  id bigserial PRIMARY KEY'' @
     (if cs = [] then [] else '','' @ nl @
        join_with ('','' @ nl) (map (\<lambda>c. ''  '' @ column_text c @ check_clause c) cs)) @ nl @ '');''"
| "ddl_text (AddColumn t c) = ''ALTER TABLE '' @ t @ '' ADD COLUMN IF NOT EXISTS '' @ column_text c @
     check_clause c @ '';''"
| "ddl_text (AddVersion t) = ''ALTER TABLE '' @ t @
     '' ADD COLUMN IF NOT EXISTS row_version bigint NOT NULL DEFAULT 0;''"
| "ddl_text (CreateHistory t) = ''CREATE TABLE IF NOT EXISTS '' @ t @ ''_history ('' @ nl @
     ''  history_id bigserial PRIMARY KEY,'' @ nl @ ''  id bigint NOT NULL,'' @ nl @
     ''  op text NOT NULL,'' @ nl @ ''  valid_from timestamptz NOT NULL DEFAULT now()'' @ nl @ '');''"
| "ddl_text (HistoryColumn t c) = ''ALTER TABLE '' @ t @ ''_history ADD COLUMN IF NOT EXISTS '' @
     column_text c @ '';''"
| "ddl_text (HistoryFunction t cs) = ''CREATE OR REPLACE FUNCTION '' @ t @
     ''_hist() RETURNS trigger SECURITY DEFINER AS $$'' @ nl @ ''BEGIN'' @ nl @ ''  INSERT INTO '' @ t @
     ''_history (id, '' @ history_insert [] cs @ ''op) VALUES (OLD.id, '' @ history_insert ''OLD.'' cs @
     ''TG_OP);'' @ nl @ ''  RETURN OLD;'' @ nl @ ''END; $$ LANGUAGE plpgsql;''"
| "ddl_text (DropTrigger t) = ''DROP TRIGGER IF EXISTS '' @ t @ ''_hist_trg ON '' @ t @ '';''"
| "ddl_text (CreateTrigger t) = ''CREATE TRIGGER '' @ t @ ''_hist_trg AFTER UPDATE OR DELETE ON '' @ t @
     '' FOR EACH ROW EXECUTE FUNCTION '' @ t @ ''_hist();''"

text \<open>\<open>historyDDL\<close> and \<open>nonPiiColumns\<close>.\<close>

definition history_ddl :: "string \<Rightarrow> column list \<Rightarrow> ddl list" where
  "history_ddl t cols = CreateHistory t # map (HistoryColumn t) cols @
     [HistoryFunction t cols, DropTrigger t, CreateTrigger t]"

definition non_pii_columns :: "field_spec list \<Rightarrow> column list" where
  "non_pii_columns fs = concat (map columns_for (filter (\<lambda>f. \<not> f_pii f) fs))"

text \<open>\<open>tableSlug\<close>: \<open>strings.ToLower\<close> goes by rune; the runes it maps into ASCII are the upper-case
  letters, the dotted capital I and the Kelvin sign.\<close>

definition to_ascii_lower :: "int \<Rightarrow> int" where
  "to_ascii_lower r = (if 65 \<le> r \<and> r \<le> 90 then r + 32 else if r = 0x130 then 105
     else if r = 0x212A then 107 else r)"

definition slug_char :: "int \<Rightarrow> char" where
  "slug_char r0 = (let r = to_ascii_lower r0 in
     if 97 \<le> r \<and> r \<le> 122 \<or> 48 \<le> r \<and> r \<le> 57 then char_of r else CHR ''_'')"

definition table_slug :: "string \<Rightarrow> string" where
  "table_slug name = ''res_'' @ map slug_char (runes_of name)"

subsection \<open>The plan\<close>

type_synonym shape = "field_spec list"

record derived_shape =
  ds_fields :: shape
  ds_table :: string
  ds_policy :: string

record resource_plan =
  rp_decl :: resource_decl
  rp_table :: string
  rp_shape :: shape
  rp_additive :: "ddl list"
  rp_destructive :: "string list"
  rp_partials :: "string list"
  rp_retired :: "string list"
  rp_policy :: string
  rp_routes :: "string list"
  rp_passes :: "string list"

record derivation_plan =
  pl_resources :: "resource_plan list"
  pl_policies :: "policy_artifact list"
  pl_wired :: "string set"
  pl_sql :: string

definition required_passes :: "string list" where
  "required_passes = [''schema'', ''history'', ''validator'', ''policy'', ''vault'', ''horizon'',
     ''components'', ''openapi'', ''mcptools'', ''catalog'', ''template'']"

definition shape_get :: "shape \<Rightarrow> string \<Rightarrow> field_spec option" where
  "shape_get sh n = find (\<lambda>f. f_name f = n) sh"

text \<open>\<open>NewShape\<close>: filled in field order, so the last entry of a name stays.\<close>

definition new_shape :: "field_spec list \<Rightarrow> shape" where
  "new_shape fs = List.map_filter (\<lambda>n. find (\<lambda>f. f_name f = n) (List.rev fs)) (sorted_keys (map f_name fs))"

text \<open>What a field the recorded shape does not have becomes, in a new table or an existing one.\<close>

datatype fate = Gap | Vaulted | Stored "column list"

definition fate_of :: "field_spec \<Rightarrow> fate" where
  "fate_of f =
     (if f_name f = ''id'' \<or> \<not> known_base (f_base f) then Gap
      else if f_pii f then (if pii_wrappable (f_base f) then Vaulted else Gap)
      else Stored (columns_for f))"

definition gap_names :: "field_spec list \<Rightarrow> string list" where
  "gap_names fs = map f_name (filter (\<lambda>f. fate_of f = Gap) fs)"

definition vault_names :: "field_spec list \<Rightarrow> string list" where
  "vault_names fs = map f_name (filter (\<lambda>f. fate_of f = Vaulted) fs)"

definition stored_columns :: "field_spec list \<Rightarrow> column list" where
  "stored_columns fs = concat (map (\<lambda>f. case fate_of f of Stored cs \<Rightarrow> cs | _ \<Rightarrow> []) fs)"

text \<open>The arrow of the code's message is three bytes.\<close>

definition rewrite_stmt :: "string \<Rightarrow> field_spec \<Rightarrow> field_spec \<Rightarrow> string" where
  "rewrite_stmt t old f = ''ALTER TABLE '' @ t @ '' ALTER COLUMN '' @ quote_ident (f_name f) @
     '' TYPE (rewrite of '' @ f_base old @ [CHR 0xE2, CHR 0x86, CHR 0x92] @ f_base f @ '');''"

definition drop_stmts :: "string \<Rightarrow> field_spec \<Rightarrow> string list" where
  "drop_stmts t old = (if columns_for old = []
     then [''-- retire required: derived field '' @ quote_ident (f_name old) @ '' removal drops vault/relation state'']
     else map (\<lambda>c. ''ALTER TABLE '' @ t @ '' DROP COLUMN '' @ quote_ident (co_name c) @ '';'') (columns_for old))"

definition is_added :: "shape \<Rightarrow> field_spec \<Rightarrow> bool" where
  "is_added sh f \<longleftrightarrow> shape_get sh (f_name f) = None"

definition is_removed :: "field_spec list \<Rightarrow> field_spec \<Rightarrow> bool" where
  "is_removed fs old \<longleftrightarrow> f_name old \<notin> f_name ` set fs"

definition changed_stmts :: "string \<Rightarrow> shape \<Rightarrow> field_spec \<Rightarrow> string list" where
  "changed_stmts t sh f = (case shape_get sh (f_name f) of
      Some old \<Rightarrow> if f_base old \<noteq> f_base f \<or> f_pii old \<noteq> f_pii f then [rewrite_stmt t old f] else []
    | None \<Rightarrow> [])"

definition is_routed :: "shape \<Rightarrow> field_spec \<Rightarrow> bool" where
  "is_routed sh f \<longleftrightarrow> (if is_added sh f then fate_of f = Vaulted else f_pii f \<and> pii_wrappable (f_base f))"

text \<open>The schema pass over a recorded shape and without one, as updates of the plan record.\<close>

definition plan_create :: "field_spec list \<Rightarrow> resource_plan \<Rightarrow> resource_plan" where
  "plan_create fs rp = rp\<lparr>rp_additive := rp_additive rp @ [CreateTable (rp_table rp) (stored_columns fs)],
     rp_partials := rp_partials rp @ gap_names fs, rp_routes := rp_routes rp @ vault_names fs\<rparr>"

definition plan_alter :: "string \<Rightarrow> shape \<Rightarrow> field_spec list \<Rightarrow> resource_plan \<Rightarrow> resource_plan" where
  "plan_alter intent sh fs rp =
     (let added = filter (is_added sh) fs; gone = filter (is_removed fs) sh; t = rp_table rp in
      rp\<lparr>rp_additive := rp_additive rp @ map (AddColumn t) (stored_columns added),
         rp_destructive := rp_destructive rp @ concat (map (changed_stmts t sh) fs) @
           (if intent = ''retire'' then [] else concat (map (drop_stmts t) gone)),
         rp_partials := rp_partials rp @ gap_names added,
         rp_retired := rp_retired rp @ (if intent = ''retire'' then map f_name gone else []),
         rp_routes := rp_routes rp @ map f_name (filter (is_routed sh) fs)\<rparr>)"

definition plan_tiers :: "field_spec list \<Rightarrow> resource_plan \<Rightarrow> resource_plan" where
  "plan_tiers fs rp =
     (if rp_partials rp = []
      then rp\<lparr>rp_additive := rp_additive rp @ AddVersion (rp_table rp) #
          history_ddl (rp_table rp) (non_pii_columns fs)\<rparr>
      else rp)\<lparr>rp_passes := required_passes\<rparr>"

definition policy_or_default :: "string \<Rightarrow> string" where
  "policy_or_default n = (if n = [] then ''orgScoped'' else n)"

definition plan_resource :: "(string \<Rightarrow> derived_shape option) \<Rightarrow> string \<Rightarrow> resource_decl \<Rightarrow> resource_plan" where
  "plan_resource base intent rd0 =
     (let fs = sort_fields (rs_fields rd0);
          rd = rd0\<lparr>rs_fields := fs\<rparr>;
          t = (case base (rs_name rd) of
                 Some sh \<Rightarrow> if ds_table sh \<noteq> [] then ds_table sh else table_slug (rs_name rd)
               | None \<Rightarrow> table_slug (rs_name rd));
          rp = \<lparr>rp_decl = rd, rp_table = t, rp_shape = new_shape fs, rp_additive = [],
                rp_destructive = [], rp_partials = [], rp_retired = [],
                rp_policy = policy_or_default (rs_policy_name rd), rp_routes = [], rp_passes = []\<rparr>
      in plan_tiers fs (case base (rs_name rd) of
           None \<Rightarrow> plan_create fs rp
         | Some sh \<Rightarrow> plan_alter intent (ds_fields sh) fs rp))"

definition plan_ddl :: "resource_plan list \<Rightarrow> ddl list" where
  "plan_ddl rps = concat (map rp_additive rps)"

text \<open>\<open>buildPlan\<close>.\<close>

definition build_plan ::
  "resource_decl list \<Rightarrow> policy_artifact list \<Rightarrow> (string \<Rightarrow> derived_shape option) \<Rightarrow> string \<Rightarrow> derivation_plan" where
  "build_plan rds pas base intent =
     (let rps = map (plan_resource base intent) (sort_key rs_name rds) in
      \<lparr>pl_resources = rps, pl_policies = pas, pl_wired = set (map rs_policy rds) - {[]},
       pl_sql = join_with nl (map ddl_text (plan_ddl rps))\<rparr>)"

subsection \<open>V3 and V6\<close>

definition verify_v3 :: "derivation_plan \<Rightarrow> diag list" where
  "verify_v3 pl = map (\<lambda>p. \<lparr>dg_stage = ''V3'', dg_code = ''PARITY_UNWIRED'', dg_subject = pa_name p,
       dg_def = pa_hash p, dg_about = pa_name p\<rparr>)
     (filter (\<lambda>p. pa_hash p \<notin> pl_wired pl) (sort_key pa_name (pl_policies pl)))"

definition v6_diag :: "resource_plan \<Rightarrow> string \<Rightarrow> string \<Rightarrow> diag" where
  "v6_diag rp code about = \<lparr>dg_stage = ''V6'', dg_code = code, dg_subject = rs_name (rp_decl rp),
     dg_def = rs_hash (rp_decl rp), dg_about = about\<rparr>"

definition v6_totality :: "resource_plan \<Rightarrow> diag list" where
  "v6_totality rp = map (v6_diag rp ''DERIVE_PARTIAL'') (rp_partials rp) @
     map (\<lambda>f. v6_diag rp ''DERIVE_PARTIAL'' (f_name f))
       (filter (\<lambda>f. f_pii f \<and> pii_wrappable (f_base f) \<and> f_name f \<notin> set (set_of (rp_routes rp))) (rp_shape rp)) @
     map (v6_diag rp ''DERIVE_PARITY'') (filter (\<lambda>p. p \<notin> set (set_of (rp_passes rp))) required_passes)"

definition verify_v6 :: "derivation_plan \<Rightarrow> diag list" where
  "verify_v6 pl = concat (map v6_totality (pl_resources pl)) @
     concat (map (\<lambda>rp. map (v6_diag rp ''DDL_DESTRUCTIVE'') (rp_destructive rp)) (pl_resources pl))"

end
