(* ===== verification/Adm_Schema.thy ===== *)
theory Adm_Schema
  imports Adm_Derive
begin

section \<open>The physical schema behind the derivation plans\<close>

text \<open>
  What the additive statements do to the database: which tables exist with which columns, and which
  columns each table's history trigger copies.  PostgreSQL looks at a function body only when it runs,
  so a trigger can be installed that fails on every update; \<open>updates_ok\<close> says that it does not.
  \<open>derive_step\<close> is a whole admission seen from the resources: the plan, V6, the upsert of
  \<open>derived_resource\<close> (\<open>writeDerivedRows\<close>) and the migration.
\<close>

subsection \<open>Statements on a schema\<close>

record schema =
  sm_tables :: "string \<Rightarrow> (string \<times> string) list option"
  sm_hist :: "string \<Rightarrow> string list option"

definition history_of :: "string \<Rightarrow> string" where "history_of t = t @ ''_history''"

definition create_table :: "string \<Rightarrow> (string \<times> string) list \<Rightarrow> schema \<Rightarrow> schema option" where
  "create_table t cs S =
     (if sm_tables S t \<noteq> None then Some S
      else if distinct (map fst cs) then Some (S\<lparr>sm_tables := (sm_tables S)(t \<mapsto> cs)\<rparr>) else None)"

definition add_column :: "string \<Rightarrow> string \<times> string \<Rightarrow> schema \<Rightarrow> schema option" where
  "add_column t c S = (case sm_tables S t of
      None \<Rightarrow> None
    | Some cs \<Rightarrow> Some (if fst c \<in> fst ` set cs then S else S\<lparr>sm_tables := (sm_tables S)(t \<mapsto> cs @ [c])\<rparr>))"

definition col_of :: "column \<Rightarrow> string \<times> string" where
  "col_of c = (co_name c, co_type c)"

fun apply_ddl :: "ddl \<Rightarrow> schema \<Rightarrow> schema option" where
  "apply_ddl (CreateTable t cs) S = create_table t ((''id'', ''bigserial'') # map col_of cs) S"
| "apply_ddl (AddColumn t c) S = add_column t (col_of c) S"
| "apply_ddl (AddVersion t) S = add_column t (''row_version'', ''bigint'') S"
| "apply_ddl (CreateHistory t) S = create_table (history_of t)
     [(''history_id'', ''bigserial''), (''id'', ''bigint''), (''op'', ''text''), (''valid_from'', ''timestamptz'')] S"
| "apply_ddl (HistoryColumn t c) S = add_column (history_of t) (col_of c) S"
| "apply_ddl (HistoryFunction t cs) S = Some (S\<lparr>sm_hist := (sm_hist S)(t \<mapsto> map co_name cs)\<rparr>)"
| "apply_ddl (DropTrigger t) S = (if sm_tables S t = None then None else Some S)"
| "apply_ddl (CreateTrigger t) S = (if sm_tables S t = None then None else Some S)"

fun apply_ddls :: "ddl list \<Rightarrow> schema \<Rightarrow> schema option" where
  "apply_ddls [] S = Some S"
| "apply_ddls (d # ds) S = apply_ddl d S \<bind> apply_ddls ds"

lemma apply_ddls_append: "apply_ddls (xs @ ys) S = apply_ddls xs S \<bind> apply_ddls ys"
  by (induction xs arbitrary: S) (auto split: option.splits bind_splits)

definition columns_in :: "schema \<Rightarrow> string \<Rightarrow> string set" where
  "columns_in S t = (case sm_tables S t of None \<Rightarrow> {} | Some cs \<Rightarrow> fst ` set cs)"

definition updates_ok :: "schema \<Rightarrow> string \<Rightarrow> bool" where
  "updates_ok S t \<longleftrightarrow> (case sm_hist S t of
      None \<Rightarrow> True
    | Some ns \<Rightarrow> distinct (''id'' # ns @ [''op'']) \<and> insert ''id'' (set ns) \<subseteq> columns_in S t \<and>
        {''id'', ''op''} \<union> set ns \<subseteq> columns_in S (history_of t))"

subsection \<open>An admission\<close>

record derived_state =
  st_shapes :: "string \<times> scope_ref \<Rightarrow> derived_shape option"
  st_schema :: schema

text \<open>\<open>writeDerivedRows\<close>: the upsert of one plan.\<close>

definition record_shape :: "scope_ref \<Rightarrow> resource_plan \<Rightarrow> (string \<times> scope_ref \<Rightarrow> derived_shape option) \<Rightarrow>
    (string \<times> scope_ref \<Rightarrow> derived_shape option)" where
  "record_shape sc rp m = m((rs_name (rp_decl rp), sc) \<mapsto>
     \<lparr>ds_fields = rp_shape rp, ds_table = rp_table rp, ds_policy = rp_policy rp\<rparr>)"

definition derive_step :: "scope_ref \<Rightarrow> resource_decl list \<Rightarrow> string \<Rightarrow> derived_state \<Rightarrow> derived_state option" where
  "derive_step sc rds intent st =
     (let pl = build_plan rds [] (\<lambda>n. st_shapes st (n, sc)) intent in
      if verify_v6 pl \<noteq> [] then None
      else map_option (\<lambda>S. \<lparr>st_shapes = fold (record_shape sc) (pl_resources pl) (st_shapes st), st_schema = S\<rparr>)
        (apply_ddls (plan_ddl (pl_resources pl)) (st_schema st)))"

subsection \<open>Columns only grow\<close>

definition grows :: "schema \<Rightarrow> schema \<Rightarrow> bool" where
  "grows S S' \<longleftrightarrow> (\<forall>t cs. sm_tables S t = Some cs \<longrightarrow> (\<exists>ds. sm_tables S' t = Some (cs @ ds)))"

lemma schema_grows_refl [simp]: "grows S S" by (simp add: grows_def)

lemma schema_grows_trans: "grows S S' \<Longrightarrow> grows S' S'' \<Longrightarrow> grows S S''"
  by (fastforce simp: grows_def)

lemma grows_columns: "grows S S' \<Longrightarrow> columns_in S t \<subseteq> columns_in S' t"
  by (fastforce simp: grows_def columns_in_def split: option.splits)

lemma create_table_grows: "create_table t cs S = Some S' \<Longrightarrow> grows S S'"
  by (auto simp: create_table_def grows_def split: if_splits)

lemma add_column_grows: "add_column t c S = Some S' \<Longrightarrow> grows S S'"
  by (auto simp: add_column_def grows_def split: option.splits if_splits)

lemma apply_ddl_grows: "apply_ddl d S = Some S' \<Longrightarrow> grows S S'"
  by (cases d) (auto simp: create_table_grows add_column_grows grows_def split: if_splits
    dest: create_table_grows add_column_grows)

lemma apply_ddls_grows: "apply_ddls ds S = Some S' \<Longrightarrow> grows S S'"
  by (induction ds arbitrary: S) (auto split: bind_splits dest: apply_ddl_grows intro: schema_grows_trans)

text \<open>A migration reaches the end only over existing tables, and leaves the other tables alone.\<close>

fun ddl_table :: "ddl \<Rightarrow> string" where
  "ddl_table (CreateTable t _) = t"
| "ddl_table (AddColumn t _) = t"
| "ddl_table (AddVersion t) = t"
| "ddl_table (CreateHistory t) = history_of t"
| "ddl_table (HistoryColumn t _) = history_of t"
| "ddl_table (HistoryFunction t _) = t"
| "ddl_table (DropTrigger t) = t"
| "ddl_table (CreateTrigger t) = t"

lemma apply_ddl_other:
  "apply_ddl d S = Some S' \<Longrightarrow> ddl_table d \<noteq> t \<Longrightarrow> sm_tables S' t = sm_tables S t \<and> sm_hist S' t = sm_hist S t"
  by (cases d) (auto simp: create_table_def add_column_def split: option.splits if_splits)

lemma apply_ddls_other:
  "apply_ddls ds S = Some S' \<Longrightarrow> \<forall>d\<in>set ds. ddl_table d \<noteq> t \<Longrightarrow>
    sm_tables S' t = sm_tables S t \<and> sm_hist S' t = sm_hist S t"
  by (induction ds arbitrary: S) (auto split: bind_splits dest!: apply_ddl_other)

lemma create_table_has: "create_table t cs S = Some S' \<Longrightarrow> sm_tables S t = None \<Longrightarrow> columns_in S' t = fst ` set cs"
  by (clarsimp simp: create_table_def columns_in_def split: if_splits)

lemma add_column_has: "add_column t c S = Some S' \<Longrightarrow> fst c \<in> columns_in S' t"
  by (auto simp: add_column_def columns_in_def split: option.splits if_splits)

lemma add_columns_have:
  "apply_ddls (map (AddColumn t) cs) S = Some S' \<Longrightarrow> co_name ` set cs \<subseteq> columns_in S' t"
proof (induction cs arbitrary: S)
  case (Cons c cs)
  then obtain S1 where s: "add_column t (col_of c) S = Some S1" "apply_ddls (map (AddColumn t) cs) S1 = Some S'"
    by (auto split: bind_splits)
  then have "co_name c \<in> columns_in S1 t" using add_column_has [OF s(1)] by (simp add: col_of_def)
  then show ?case using Cons.IH [OF s(2)] grows_columns [OF apply_ddls_grows [OF s(2)]] by auto
qed simp

lemma history_columns_have:
  "apply_ddls (map (HistoryColumn t) cs) S = Some S' \<Longrightarrow> co_name ` set cs \<subseteq> columns_in S' (history_of t)"
proof (induction cs arbitrary: S)
  case (Cons c cs)
  then obtain S1 where s: "add_column (history_of t) (col_of c) S = Some S1"
      "apply_ddls (map (HistoryColumn t) cs) S1 = Some S'"
    by (auto split: bind_splits)
  then have "co_name c \<in> columns_in S1 (history_of t)" using add_column_has [OF s(1)] by (simp add: col_of_def)
  then show ?case using Cons.IH [OF s(2)] grows_columns [OF apply_ddls_grows [OF s(2)]] by auto
qed simp

end
