(* ===== verification/Adm_Schema_Laws.thy ===== *)
theory Adm_Schema_Laws
  imports Adm_Schema
begin

section \<open>Accepted admissions keep shapes, tables and triggers together\<close>

subsection \<open>The invariant\<close>

text \<open>A recorded resource is served by a schema when its table has every column its fields store and
  its history trigger works.\<close>

definition served :: "schema \<Rightarrow> string \<Rightarrow> derived_shape \<Rightarrow> bool" where
  "served S n sh \<longleftrightarrow> ds_table sh = table_slug n \<and> sm_hist S (table_slug n) \<noteq> None \<and>
     updates_ok S (table_slug n) \<and>
     (\<forall>f\<in>set (ds_fields sh). co_name ` set (columns_for f) \<subseteq> columns_in S (table_slug n))"

definition owned :: "(string \<times> scope_ref \<Rightarrow> derived_shape option) \<Rightarrow> schema \<Rightarrow> bool" where
  "owned m S \<longleftrightarrow> (\<forall>t. sm_tables S t \<noteq> None \<longrightarrow>
     (\<exists>n sc. m (n, sc) \<noteq> None \<and> (t = table_slug n \<or> t = history_of (table_slug n))))"

definition consistent :: "(string \<times> scope_ref \<Rightarrow> derived_shape option) \<Rightarrow> schema \<Rightarrow> bool" where
  "consistent m S \<longleftrightarrow> owned m S \<and> (\<forall>n sc sh. m (n, sc) = Some sh \<longrightarrow> served S n sh)"

subsection \<open>The guards\<close>

text \<open>Two resources that do not meet in the schema.\<close>

definition apart :: "string \<Rightarrow> string \<Rightarrow> bool" where
  "apart n n' \<longleftrightarrow> table_slug n \<noteq> table_slug n' \<and> table_slug n \<noteq> history_of (table_slug n') \<and>
     history_of (table_slug n) \<noteq> table_slug n'"

text \<open>A declaration whose columns do not collide with each other or with the history tier.\<close>

definition clash_free :: "resource_decl \<Rightarrow> bool" where
  "clash_free rd \<longleftrightarrow> distinct (map f_name (sort_fields (rs_fields rd))) \<and>
     distinct (''id'' # map co_name (non_pii_columns (sort_fields (rs_fields rd))) @ [''op''])"

text \<open>A declaration that does not turn a relation around.\<close>

definition steady :: "derived_shape option \<Rightarrow> resource_decl \<Rightarrow> bool" where
  "steady sh0 rd \<longleftrightarrow> (case sh0 of None \<Rightarrow> True | Some sh \<Rightarrow>
     list_all (\<lambda>f. case shape_get (ds_fields sh) (f_name f) of
        Some old \<Rightarrow> f_base f = ''relation'' \<longrightarrow> rel_kind f = rel_kind old | None \<Rightarrow> True) (rs_fields rd))"

definition tame :: "scope_ref \<Rightarrow> resource_decl list \<Rightarrow> (string \<times> scope_ref \<Rightarrow> derived_shape option) \<Rightarrow> bool" where
  "tame sc rds m \<longleftrightarrow> distinct (map rs_name rds) \<and>
     (\<forall>rd\<in>set rds. clash_free rd \<and> steady (m (rs_name rd, sc)) rd \<and>
        (\<forall>n sc'. (n, sc') \<noteq> (rs_name rd, sc) \<longrightarrow> m (n, sc') \<noteq> None \<or> sc' = sc \<and> n \<in> rs_name ` set rds \<longrightarrow>
           apart (rs_name rd) n))"

subsection \<open>Facts about a plan\<close>

lemma set_sort_fields [simp]: "set (sort_fields fs) = set fs"
  by (simp add: sort_fields_def)

lemma find_name: "f \<in> set fs \<Longrightarrow> distinct (map f_name fs) \<Longrightarrow> find (\<lambda>g. f_name g = f_name f) fs = Some f"
  by (induction fs) (auto simp: image_iff)

lemma set_map_filter_Some: "set (List.map_filter F xs) = {y. \<exists>x\<in>set xs. F x = Some y}"
  by (induction xs) (auto simp: List.map_filter_simps split: option.splits)

lemma set_new_shape:
  assumes "distinct (map f_name fs)"
  shows "set (new_shape fs) = set fs"
proof -
  have f: "find (\<lambda>g. f_name g = f_name f) (List.rev fs) = Some f" if "f \<in> set fs" for f
    using find_name [of f "List.rev fs"] that assms by (simp add: rev_map [symmetric])
  have "set (new_shape fs) = {g. \<exists>f\<in>set fs. find (\<lambda>g. f_name g = f_name f) (List.rev fs) = Some g}"
    by (auto simp: new_shape_def set_map_filter_Some)
  then show ?thesis using f by auto
qed

lemma columns_names:
  assumes "f_base f = f_base old" "f_pii f = f_pii old" "f_name f = f_name old"
    and "f_base f = ''relation'' \<Longrightarrow> rel_kind f = rel_kind old"
  shows "map co_name (columns_for f) = map co_name (columns_for old)"
  using assms by (auto simp: columns_for_def plain_column_def)

lemma stored_no_gaps: "gap_names fs = [] \<Longrightarrow> stored_columns fs = non_pii_columns fs"
  by (induction fs) (auto simp: gap_names_def stored_columns_def non_pii_columns_def fate_of_def split: if_splits)

lemma shape_get_SomeD: "shape_get sh n = Some old \<Longrightarrow> old \<in> set sh \<and> f_name old = n"
  by (auto simp: shape_get_def find_Some_iff)

definition plan_clean :: "resource_plan \<Rightarrow> bool" where
  "plan_clean rp \<longleftrightarrow> rp_partials rp = [] \<and> rp_destructive rp = []"

lemma v6_clean: "verify_v6 pl = [] \<Longrightarrow> rp \<in> set (pl_resources pl) \<Longrightarrow> plan_clean rp"
  by (auto simp: verify_v6_def plan_clean_def v6_totality_def)

subsection \<open>One resource\<close>

definition schema_ddl :: "string \<Rightarrow> derived_shape option \<Rightarrow> field_spec list \<Rightarrow> ddl list" where
  "schema_ddl t sh0 fs = (case sh0 of
      None \<Rightarrow> [CreateTable t (stored_columns fs)]
    | Some sh \<Rightarrow> map (AddColumn t) (stored_columns (filter (is_added (ds_fields sh)) fs)))"

definition kept_fields :: "derived_shape option \<Rightarrow> field_spec list \<Rightarrow> bool" where
  "kept_fields sh0 fs \<longleftrightarrow> (case sh0 of
      None \<Rightarrow> gap_names fs = []
    | Some sh \<Rightarrow> gap_names (filter (is_added (ds_fields sh)) fs) = [] \<and>
        (\<forall>f\<in>set fs. \<forall>old. shape_get (ds_fields sh) (f_name f) = Some old \<longrightarrow>
           f_base old = f_base f \<and> f_pii old = f_pii f))"

lemma plan_parts:
  assumes "plan_clean (plan_resource base intent rd)"
    and "\<And>sh. base (rs_name rd) = Some sh \<Longrightarrow> ds_table sh = table_slug (rs_name rd)"
  defines "t \<equiv> table_slug (rs_name rd)" and "fs \<equiv> sort_fields (rs_fields rd)"
  shows "rp_additive (plan_resource base intent rd) = schema_ddl t (base (rs_name rd)) fs @
      AddVersion t # history_ddl t (non_pii_columns fs)"
    and "rp_table (plan_resource base intent rd) = t" and "rp_shape (plan_resource base intent rd) = new_shape fs"
    and "rs_name (rp_decl (plan_resource base intent rd)) = rs_name rd"
    and "kept_fields (base (rs_name rd)) fs"
  using assms by (auto simp: plan_resource_def plan_clean_def plan_create_def plan_alter_def plan_tiers_def Let_def
      schema_ddl_def kept_fields_def changed_stmts_def table_slug_def split: option.splits if_splits)

lemma schema_ddl_table: "d \<in> set (schema_ddl t sh0 fs) \<Longrightarrow> ddl_table d = t"
  by (auto simp: schema_ddl_def split: option.splits)

lemma schema_ddl_hist: "d \<in> set (schema_ddl t sh0 fs @ [AddVersion t]) \<Longrightarrow> apply_ddl d S = Some S' \<Longrightarrow> sm_hist S' = sm_hist S"
  by (auto simp: schema_ddl_def create_table_def add_column_def split: option.splits if_splits)

lemma history_ddl_table: "d \<in> set (history_ddl t cs) \<Longrightarrow> ddl_table d = t \<or> ddl_table d = history_of t"
  by (auto simp: history_ddl_def)

definition ready :: "schema \<Rightarrow> string \<Rightarrow> derived_shape option \<Rightarrow> field_spec list \<Rightarrow> bool" where
  "ready S t sh0 fs \<longleftrightarrow> (case sh0 of
      None \<Rightarrow> sm_tables S t = None
    | Some sh \<Rightarrow> ''id'' \<in> columns_in S t \<and>
        (\<forall>f\<in>set (ds_fields sh). co_name ` set (columns_for f) \<subseteq> columns_in S t) \<and>
        (\<forall>f\<in>set fs. \<forall>old. shape_get (ds_fields sh) (f_name f) = Some old \<longrightarrow> f_base f = ''relation'' \<longrightarrow>
           rel_kind f = rel_kind old))"

lemma base_columns:
  assumes A: "apply_ddls (schema_ddl t sh0 fs) S = Some S'" and K: "kept_fields sh0 fs"
    and N: "ready S t sh0 fs"
  shows "''id'' \<in> columns_in S' t \<and> (\<forall>f\<in>set fs. co_name ` set (columns_for f) \<subseteq> columns_in S' t)"
  proof (cases sh0)
    case None
    then have "create_table t ((''id'', ''bigserial'') # map col_of (stored_columns fs)) S = Some S'"
      using A by (auto simp: schema_ddl_def split: bind_splits)
    from create_table_has [OF this] N K None
    have "columns_in S' t = insert ''id'' (co_name ` set (non_pii_columns fs))"
      by (auto simp: ready_def kept_fields_def stored_no_gaps col_of_def image_iff)
    then show ?thesis by (fastforce simp: non_pii_columns_def)
  next
    case (Some sh)
    let ?new = "filter (is_added (ds_fields sh)) fs"
    have a: "apply_ddls (map (AddColumn t) (non_pii_columns ?new)) S = Some S'"
      using A K Some by (simp add: schema_ddl_def kept_fields_def stored_no_gaps)
    have g: "columns_in S t \<subseteq> columns_in S' t"
      by (rule grows_columns [OF apply_ddls_grows [OF a]])
    have "co_name ` set (columns_for f) \<subseteq> columns_in S' t" if f: "f \<in> set fs" for f
    proof (cases "shape_get (ds_fields sh) (f_name f)")
      case None
      then have "f_pii f \<or> set (columns_for f) \<subseteq> set (non_pii_columns ?new)"
        using f by (auto simp: non_pii_columns_def is_added_def)
      then show ?thesis using add_columns_have [OF a] by auto
    next
      case (Some old)
      have "\<forall>f\<in>set fs. \<forall>old. shape_get (ds_fields sh) (f_name f) = Some old \<longrightarrow>
          f_base old = f_base f \<and> f_pii old = f_pii f"
        using K \<open>sh0 = _\<close> by (simp add: kept_fields_def)
      then have e: "f_base f = f_base old" "f_pii f = f_pii old" using f Some by fastforce+
      have "f_name f = f_name old" using shape_get_SomeD [OF Some] by simp
      with e have "map co_name (columns_for f) = map co_name (columns_for old)"
        by (rule columns_names) (use N \<open>sh0 = _\<close> f Some in \<open>auto simp: ready_def\<close>)
      then have "co_name ` set (columns_for f) = co_name ` set (columns_for old)"
        by (metis list.set_map)
      moreover have "co_name ` set (columns_for old) \<subseteq> columns_in S t"
        using N \<open>sh0 = _\<close> shape_get_SomeD [OF Some] by (simp add: ready_def)
      ultimately show ?thesis using g by blast
    qed
    moreover have "''id'' \<in> columns_in S t" using N Some by (simp add: ready_def)
    ultimately show ?thesis using g by blast
  qed

lemma history_tier:
  assumes A: "apply_ddls (history_ddl t cols) S = Some S'"
    and B: "distinct (''id'' # map co_name cols @ [''op''])" "insert ''id'' (co_name ` set cols) \<subseteq> columns_in S t"
    and H: "sm_tables S (history_of t) \<noteq> None \<Longrightarrow> {''id'', ''op''} \<subseteq> columns_in S (history_of t)"
  shows "updates_ok S' t" and "sm_hist S' t = Some (map co_name cols)"
proof -
  obtain S1 S2 where s: "apply_ddl (CreateHistory t) S = Some S1" "apply_ddls (map (HistoryColumn t) cols) S1 = Some S2"
      "S' = S2\<lparr>sm_hist := (sm_hist S2)(t \<mapsto> map co_name cols)\<rparr>"
    using A by (auto simp: history_ddl_def apply_ddls_append split: bind_splits if_splits)
  have c [simp]: "columns_in S' u = columns_in S2 u" for u
    by (simp add: columns_in_def s(3))
  have i: "{''id'', ''op''} \<subseteq> columns_in S1 (history_of t)"
    using s(1) H by (cases "sm_tables S (history_of t)") (auto simp: create_table_def columns_in_def)
  have "{''id'', ''op''} \<union> co_name ` set cols \<subseteq> columns_in S2 (history_of t)"
    by (rule Un_least [OF order_trans [OF i grows_columns [OF apply_ddls_grows [OF s(2)]]] history_columns_have [OF s(2)]])
  moreover have "insert ''id'' (co_name ` set cols) \<subseteq> columns_in S2 t"
    by (rule order_trans [OF order_trans [OF B(2) grows_columns [OF apply_ddl_grows [OF s(1)]]]
        grows_columns [OF apply_ddls_grows [OF s(2)]]])
  moreover show h: "sm_hist S' t = Some (map co_name cols)" by (simp add: s(3))
  ultimately show "updates_ok S' t" using B(1) by (simp add: updates_ok_def)
qed

lemma resource_tables:
  assumes "apply_ddls (schema_ddl t sh0 fs @ AddVersion t # history_ddl t cols) S = Some S'"
    and "u \<noteq> t" "u \<noteq> history_of t"
  shows "sm_tables S' u = sm_tables S u" "sm_hist S' u = sm_hist S u"
  using apply_ddls_other [OF assms(1), of u] assms(2,3) schema_ddl_table history_ddl_table
  by (metis Un_iff ddl_table.simps(3) set_ConsD set_append)+

lemma resource_served:
  assumes A: "apply_ddls (schema_ddl t sh0 fs @ AddVersion t # history_ddl t (non_pii_columns fs)) S = Some S'"
    and K: "kept_fields sh0 fs" and N: "ready S t sh0 fs"
    and H: "sm_tables S (history_of t) \<noteq> None \<Longrightarrow> {''id'', ''op''} \<subseteq> columns_in S (history_of t)"
    and D: "distinct (''id'' # map co_name (non_pii_columns fs) @ [''op''])"
  shows "updates_ok S' t \<and> sm_hist S' t \<noteq> None \<and> (\<forall>f\<in>set fs. co_name ` set (columns_for f) \<subseteq> columns_in S' t)"
proof -
  obtain S1 S2 where s: "apply_ddls (schema_ddl t sh0 fs) S = Some S1"
      "add_column t (''row_version'', ''bigint'') S1 = Some S2"
      "apply_ddls (history_ddl t (non_pii_columns fs)) S2 = Some S'"
    using A by (auto simp: apply_ddls_append split: bind_splits)
  have g: "columns_in S1 t \<subseteq> columns_in S2 t" "columns_in S2 t \<subseteq> columns_in S' t"
    by (rule grows_columns, rule add_column_grows [OF s(2)], rule grows_columns, rule apply_ddls_grows [OF s(3)])
  have b: "''id'' \<in> columns_in S1 t" "\<And>f. f \<in> set fs \<Longrightarrow> co_name ` set (columns_for f) \<subseteq> columns_in S1 t"
    using base_columns [OF s(1) K N] by blast+
  have ht: "t \<noteq> history_of t" by (simp add: history_of_def)
  have "sm_tables S1 (history_of t) = sm_tables S (history_of t)"
    using apply_ddls_other [OF s(1), of "history_of t"] schema_ddl_table ht by metis
  then have "sm_tables S2 (history_of t) = sm_tables S (history_of t)"
    using s(2) ht by (auto simp: add_column_def split: option.splits if_splits)
  then have h: "sm_tables S2 (history_of t) \<noteq> None \<Longrightarrow> {''id'', ''op''} \<subseteq> columns_in S2 (history_of t)"
    using H by (simp add: columns_in_def)
  have "co_name ` set (non_pii_columns fs) \<subseteq> columns_in S2 t"
    using b(2) g(1) by (fastforce simp: non_pii_columns_def)
  then have "insert ''id'' (co_name ` set (non_pii_columns fs)) \<subseteq> columns_in S2 t"
    using b(1) g(1) by simp blast
  from history_tier [OF s(3) D this h] b(2) g show ?thesis by blast
qed

lemma consistent_resource:
  assumes C: "consistent m S" and P: "plan_clean (plan_resource base intent rd)"
    and B: "base (rs_name rd) = m (rs_name rd, sc)"
    and A: "apply_ddls (rp_additive (plan_resource base intent rd)) S = Some S'"
    and F: "clash_free rd" and T: "steady (m (rs_name rd, sc)) rd"
    and X: "\<And>n sc'. (n, sc') \<noteq> (rs_name rd, sc) \<Longrightarrow> m (n, sc') \<noteq> None \<Longrightarrow> apart (rs_name rd) n"
  shows "consistent (record_shape sc (plan_resource base intent rd) m) S'"
proof -
  define t where "t = table_slug (rs_name rd)"
  define fs where "fs = sort_fields (rs_fields rd)"
  define sh0 where "sh0 = m (rs_name rd, sc)"
  have sv: "served S (rs_name rd) sh" if "sh0 = Some sh" for sh
    using C that by (simp add: consistent_def sh0_def)
  then have dt: "base (rs_name rd) = Some sh \<Longrightarrow> ds_table sh = table_slug (rs_name rd)" for sh
    using B by (simp add: served_def sh0_def)
  note p = plan_parts [OF P dt, folded t_def fs_def, unfolded B, folded sh0_def]
  have a: "apply_ddls (schema_ddl t sh0 fs @ AddVersion t # history_ddl t (non_pii_columns fs)) S = Some S'"
    using A p(1) by simp
  have O: "''id'' \<in> columns_in S t \<and> {''id'', ''op''} \<subseteq> columns_in S (history_of t) \<and>
      (\<forall>f\<in>set (ds_fields sh). co_name ` set (columns_for f) \<subseteq> columns_in S t)" if "sh0 = Some sh" for sh
    using sv [OF that] by (auto simp: served_def updates_ok_def t_def split: option.splits)
  have own: "(u = t \<or> u = history_of t) \<Longrightarrow> sm_tables S u \<noteq> None \<Longrightarrow> sh0 \<noteq> None" for u
    using C X unfolding consistent_def owned_def apart_def t_def sh0_def
    by (metis append_same_eq history_of_def)
  have R: "ready S t sh0 fs"
  proof (cases sh0)
    case None
    then show ?thesis using own [of t] by (cases "sm_tables S t") (auto simp: ready_def)
  next
    case (Some sh)
    have "\<forall>f\<in>set fs. \<forall>old. shape_get (ds_fields sh) (f_name f) = Some old \<longrightarrow> f_base f = ''relation'' \<longrightarrow>
        rel_kind f = rel_kind old"
      using T Some by (auto simp: steady_def sh0_def fs_def list_all_iff)
    then show ?thesis using O [OF Some] Some by (simp add: ready_def)
  qed
  have H: "sm_tables S (history_of t) \<noteq> None \<Longrightarrow> {''id'', ''op''} \<subseteq> columns_in S (history_of t)"
    using own O by blast
  have D: "distinct (''id'' # map co_name (non_pii_columns fs) @ [''op''])" and dn: "distinct (map f_name fs)"
    using F by (auto simp: clash_free_def fs_def)
  have new: "updates_ok S' t \<and> sm_hist S' t \<noteq> None \<and> (\<forall>f\<in>set fs. co_name ` set (columns_for f) \<subseteq> columns_in S' t)"
    by (rule resource_served [OF a p(5) R H D])
  show ?thesis unfolding consistent_def
  proof (intro conjI allI impI)
    show "owned (record_shape sc (plan_resource base intent rd) m) S'"
      unfolding owned_def
    proof (intro allI impI)
      fix u assume u: "sm_tables S' u \<noteq> None"
      show "\<exists>n sc'. record_shape sc (plan_resource base intent rd) m (n, sc') \<noteq> None \<and>
          (u = table_slug n \<or> u = history_of (table_slug n))"
      proof (cases "u = t \<or> u = history_of t")
        case True
        then show ?thesis by (auto simp: record_shape_def p(4) t_def)
      next
        case False
        with u have "sm_tables S u \<noteq> None" using resource_tables [OF a] by simp
        with C obtain n sc' where "m (n, sc') \<noteq> None" "u = table_slug n \<or> u = history_of (table_slug n)"
          unfolding consistent_def owned_def by metis
        then show ?thesis
          by (intro exI [of _ n] exI [of _ sc']) (auto simp: record_shape_def)
      qed
    qed
  next
    fix n sc' sh assume r: "record_shape sc (plan_resource base intent rd) m (n, sc') = Some sh"
    show "served S' n sh"
    proof (cases "(n, sc') = (rs_name rd, sc)")
      case True
      with r have "sh = \<lparr>ds_fields = new_shape fs, ds_table = t, ds_policy = rp_policy (plan_resource base intent rd)\<rparr>"
        by (simp add: record_shape_def p(2,3,4))
      with new True show ?thesis by (simp add: served_def t_def set_new_shape [OF dn])
    next
      case False
      with r have s: "m (n, sc') = Some sh" by (auto simp: record_shape_def p(4) split: if_splits)
      then have "apart (rs_name rd) n" using X False by blast
      then have e: "columns_in S' u = columns_in S u" "sm_hist S' u = sm_hist S u"
        if "u = table_slug n \<or> u = history_of (table_slug n)" for u
        using resource_tables [OF a, of u] that by (auto simp: apart_def t_def history_of_def columns_in_def)
      have "served S n sh" using C s by (simp add: consistent_def)
      then show ?thesis by (simp add: served_def updates_ok_def e split: option.splits)
    qed
  qed
qed

subsection \<open>A whole admission\<close>

lemma consistent_resources:
  assumes "consistent m S" and "\<And>rd. rd \<in> set rds \<Longrightarrow> plan_clean (plan_resource base intent rd)"
    and "distinct (map rs_name rds)"
    and "\<And>rd. rd \<in> set rds \<Longrightarrow> base (rs_name rd) = m (rs_name rd, sc)"
    and "apply_ddls (plan_ddl (map (plan_resource base intent) rds)) S = Some S'"
    and "\<And>rd. rd \<in> set rds \<Longrightarrow> clash_free rd \<and> steady (m (rs_name rd, sc)) rd"
    and "\<And>rd n sc'. rd \<in> set rds \<Longrightarrow> (n, sc') \<noteq> (rs_name rd, sc) \<Longrightarrow>
      m (n, sc') \<noteq> None \<or> sc' = sc \<and> n \<in> rs_name ` set rds \<Longrightarrow> apart (rs_name rd) n"
  shows "consistent (fold (record_shape sc) (map (plan_resource base intent) rds) m) S'"
  using assms
proof (induction rds arbitrary: m S)
  case (Cons rd rds)
  let ?rp = "plan_resource base intent rd"
  obtain S1 where s: "apply_ddls (rp_additive ?rp) S = Some S1"
      "apply_ddls (plan_ddl (map (plan_resource base intent) rds)) S1 = Some S'"
    using Cons.prems(5) by (auto simp: plan_ddl_def apply_ddls_append split: bind_splits)
  have c: "consistent (record_shape sc ?rp m) S1"
    by (rule consistent_resource [OF Cons.prems(1) _ _ s(1)]) (use Cons.prems in auto)
  have n: "rs_name (rp_decl ?rp) = rs_name rd"
    by (simp add: plan_resource_def Let_def plan_tiers_def plan_create_def plan_alter_def split: option.splits)
  have o: "record_shape sc ?rp m (k, sc') = (if (k, sc') = (rs_name rd, sc) then Some
      \<lparr>ds_fields = rp_shape ?rp, ds_table = rp_table ?rp, ds_policy = rp_policy ?rp\<rparr> else m (k, sc'))" for k sc'
    by (auto simp: record_shape_def n)
  have d: "rs_name rd \<notin> rs_name ` set rds" using Cons.prems(3) by simp
  have "consistent (fold (record_shape sc) (map (plan_resource base intent) rds) (record_shape sc ?rp m)) S'"
  proof (rule Cons.IH [OF c _ _ _ s(2)])
    fix q n sc' assume q: "q \<in> set rds" "(n, sc') \<noteq> (rs_name q, sc)"
      "record_shape sc ?rp m (n, sc') \<noteq> None \<or> sc' = sc \<and> n \<in> rs_name ` set rds"
    then have "m (n, sc') \<noteq> None \<or> sc' = sc \<and> n \<in> rs_name ` set (rd # rds)"
      by (auto simp: o split: if_splits)
    then show "apart (rs_name q) n" using Cons.prems(7) [of q n sc'] q by simp
  qed (use Cons.prems d in \<open>auto simp: o image_iff\<close>)
  then show ?case by simp
qed (simp add: plan_ddl_def)

lemma consistent_step:
  assumes "consistent (st_shapes st) (st_schema st)" and "tame sc rds (st_shapes st)"
    and "derive_step sc rds intent st = Some st'"
  shows "consistent (st_shapes st') (st_schema st')"
proof -
  let ?base = "\<lambda>n. st_shapes st (n, sc)" and ?s = "sort_key rs_name rds"
  let ?rps = "map (plan_resource ?base intent) ?s"
  have v: "verify_v6 (build_plan rds [] ?base intent) = []" and rps: "pl_resources (build_plan rds [] ?base intent) = ?rps"
    using assms(3) by (auto simp: derive_step_def Let_def build_plan_def split: if_splits)
  obtain S where S: "apply_ddls (plan_ddl ?rps) (st_schema st) = Some S"
      "st' = \<lparr>st_shapes = fold (record_shape sc) ?rps (st_shapes st), st_schema = S\<rparr>"
    using assms(3) v rps by (auto simp: derive_step_def Let_def)
  have "distinct (map rs_name ?s)"
    using assms(2) by (simp add: tame_def distinct_map)
  then have "consistent (fold (record_shape sc) ?rps (st_shapes st)) S"
  proof (rule consistent_resources [OF assms(1) _ _ refl S(1), rotated])
    show "clash_free rd \<and> steady (st_shapes st (rs_name rd, sc)) rd" if "rd \<in> set ?s" for rd
      using that assms(2) by (simp add: tame_def)
    show "apart (rs_name rd) n" if "rd \<in> set ?s" "(n, sc') \<noteq> (rs_name rd, sc)"
        "st_shapes st (n, sc') \<noteq> None \<or> sc' = sc \<and> n \<in> rs_name ` set ?s" for rd n sc'
      using that assms(2) unfolding tame_def by (metis set_sort)
  qed (use v6_clean [OF v] rps in auto)
  then show ?thesis by (simp add: S(2))
qed

text \<open>Any number of accepted admissions.\<close>

inductive admits :: "derived_state \<Rightarrow> derived_state \<Rightarrow> bool" where
  start: "admits st st"
| step: "admits st st1 \<Longrightarrow> tame sc rds (st_shapes st1) \<Longrightarrow> derive_step sc rds intent st1 = Some st2 \<Longrightarrow> admits st st2"

lemma admits_consistent:
  "admits st st' \<Longrightarrow> consistent (st_shapes st) (st_schema st) \<Longrightarrow> consistent (st_shapes st') (st_schema st')"
  by (induction rule: admits.induct) (auto intro: consistent_step)

definition no_resources :: derived_state where
  "no_resources = \<lparr>st_shapes = (\<lambda>_. None), st_schema = \<lparr>sm_tables = (\<lambda>_. None), sm_hist = (\<lambda>_. None)\<rparr>\<rparr>"

lemma consistent_start: "consistent (st_shapes no_resources) (st_schema no_resources)"
  by (simp add: no_resources_def consistent_def owned_def)

subsection \<open>Fields that hold pii\<close>

definition without_pii :: "resource_decl \<Rightarrow> resource_decl" where
  "without_pii rd = rd\<lparr>rs_fields := filter (\<lambda>f. \<not> f_pii f) (rs_fields rd)\<rparr>"

lemma stored_without_pii: "stored_columns (filter (\<lambda>f. \<not> f_pii f) fs) = stored_columns fs"
  by (induction fs) (auto simp: stored_columns_def fate_of_def)

lemma stored_added_without_pii:
  "stored_columns (filter (\<lambda>f. \<not> f_pii f \<and> P f) fs) = stored_columns (filter P fs)"
  by (induction fs) (auto simp: stored_columns_def fate_of_def)

lemma gaps_without_pii: "gap_names (filter P fs) = [] \<Longrightarrow> gap_names (filter (\<lambda>f. \<not> f_pii f \<and> P f) fs) = []"
  by (induction fs) (auto simp: gap_names_def split: if_splits)

lemma columns_without_pii: "non_pii_columns (filter (\<lambda>f. \<not> f_pii f) fs) = non_pii_columns fs"
  by (simp add: non_pii_columns_def)

lemma plan_without_pii:
  assumes "rp_partials (plan_resource base intent rd) = []"
  shows "rp_additive (plan_resource base intent (without_pii rd)) = rp_additive (plan_resource base intent rd)"
proof -
  have s: "sort_fields (filter (\<lambda>f. \<not> f_pii f) fs) = filter (\<lambda>f. \<not> f_pii f) (sort_fields fs)" for fs
    by (simp add: sort_fields_def filter_sort)
  show ?thesis
    using assms gaps_without_pii [of "\<lambda>_. True"] gaps_without_pii
    by (auto simp: plan_resource_def without_pii_def s Let_def plan_tiers_def plan_create_def plan_alter_def
        stored_without_pii stored_added_without_pii columns_without_pii split: option.splits if_splits)
qed

lemma sort_without_pii: "sort_key rs_name (map without_pii rds) = map without_pii (sort_key rs_name rds)"
proof -
  have "insort_key rs_name (without_pii x) (map without_pii xs) = map without_pii (insort_key rs_name x xs)" for x xs
    by (induction xs) (simp_all add: without_pii_def)
  then show ?thesis by (induction rds) (simp_all add: sort_key_def)
qed

end
