(* ===== verification/Adm_Derive_Theorems.thy ===== *)
theory Adm_Derive_Theorems
  imports Adm_Schema_Laws
begin

section \<open>Properties of derived resources\<close>

subsection \<open>Samples\<close>

definition fld :: "string \<Rightarrow> string \<Rightarrow> field_spec" where
  "fld n spec = parse_field_spec n spec"

definition res :: "string \<Rightarrow> field_spec list \<Rightarrow> resource_decl" where
  "res n flds = \<lparr>rs_name = n, rs_hash = n, rs_fields = flds, rs_policy = [], rs_policy_name = []\<rparr>"

definition product :: scope_ref where "product = \<lparr>sc_kind = 0, sc_id = []\<rparr>"



definition contact :: resource_decl where
  "contact = res ''app/Contact'' [fld ''ssn'' ''pii:text'', fld ''name'' ''text'', fld ''stage'' ''states:new|won'']"






subsection \<open>Properties\<close>

text \<open>C35: a pii field leaves nothing in the database schema.  The migration of an accepted plan is, byte
  for byte, the migration of the same declarations with every pii field erased.\<close>
theorem pii_leaves_no_column:
  assumes "verify_v6 (build_plan rds pas base intent) = []"
  shows "pl_sql (build_plan (map without_pii rds) pas base intent) = pl_sql (build_plan rds pas base intent)"
proof -
  have "rp_additive (plan_resource base intent (without_pii rd)) = rp_additive (plan_resource base intent rd)"
    if "rd \<in> set rds" for rd
  proof -
    have "plan_resource base intent rd \<in> set (pl_resources (build_plan rds pas base intent))"
      using that by (simp add: build_plan_def Let_def)
    from v6_clean [OF assms this] show ?thesis by (simp add: plan_clean_def plan_without_pii)
  qed
  then have "map (\<lambda>rd. rp_additive (plan_resource base intent (without_pii rd))) (sort_key rs_name rds) =
      map (\<lambda>rd. rp_additive (plan_resource base intent rd)) (sort_key rs_name rds)"
    by simp
  then show ?thesis
    by (simp add: build_plan_def Let_def sort_without_pii plan_ddl_def comp_def del: map_eq_conv)
qed

lemma pii_leaves_no_column_witness:
  "pl_sql (build_plan [res ''app/Contact'' [fld ''name'' ''text'', fld ''stage'' ''states:new|won'']] [] (\<lambda>_. None) []) =
   pl_sql (build_plan [contact] [] (\<lambda>_. None) [])"
proof -
  have "verify_v6 (build_plan [contact] [] (\<lambda>_. None) []) = []" by code_simp
  from pii_leaves_no_column [OF this] show ?thesis
    by (simp add: without_pii_def contact_def res_def fld_def parse_field_spec_def has_prefix_def cut_at_def)
qed

text \<open>C36: after any sequence of accepted admissions whose declarations do not clash, every recorded
  resource has a table with all the columns its fields store, and its history trigger copies columns
  that exist, each once, so that updates and deletes go through.\<close>
theorem admitted_tables_work:
  assumes "admits no_resources st" and "st_shapes st (n, sc) = Some sh"
  shows "updates_ok (st_schema st) (ds_table sh) \<and> sm_hist (st_schema st) (ds_table sh) \<noteq> None \<and>
    (\<forall>f\<in>set (ds_fields sh). co_name ` set (columns_for f) \<subseteq> columns_in (st_schema st) (ds_table sh))"
  using admits_consistent [OF assms(1) consistent_start] assms(2) by (auto simp: consistent_def served_def)

lemma admitted_tables_work_witness:
  "\<exists>(st :: derived_state) sh. st_shapes st (''app/Contact'', product) = Some sh \<and> ds_table sh = ''res_app_contact'' \<and>
     updates_ok (st_schema st) ''res_app_contact''"
proof -
  have t: "tame product [contact] (st_shapes no_resources)"
    unfolding tame_def no_resources_def steady_def by simp (code_simp, simp?)
  have "derive_step product [contact] [] no_resources \<noteq> None"
    by code_simp
  then obtain st where s: "derive_step product [contact] [] no_resources = Some st" by blast
  have "map_option (\<lambda>st. map_option ds_table (st_shapes st (''app/Contact'', product)))
      (derive_step product [contact] [] no_resources) = Some (Some ''res_app_contact'')"
    by code_simp
  then obtain sh where sh: "st_shapes st (''app/Contact'', product) = Some sh" "ds_table sh = ''res_app_contact''"
    by (auto simp: s)
  from admitted_tables_work [OF admits.step [OF admits.start t s] sh(1)]
  have "updates_ok (st_schema st) ''res_app_contact''" unfolding sh(2) by (rule conjunct1)
  with sh show ?thesis by (intro exI [of _ st] exI [of _ sh] conjI)
qed


end
