(* ===== verification/Adm_Template.thy ===== *)
theory Adm_Template
  imports Adm_Derive Ui_Laws
begin

section \<open>Render templates of derived and hand-authored surfaces\<close>

text \<open>
  \<open>internal/admission/template.go\<close>: the detail, form, table, dashboard and board templates a resource
  derives, and \<open>component_lower.go\<close>: the template of a component a definition composes.  A template is
  the record the renderer of \<open>internal/ui\<close> reads (theory \<open>Ui_View\<close>).  Slots are appended while the tree is
  built; the lists below are the ones the loops build, slot \<open>i\<close> next to the node that refers to it.
\<close>

subsection \<open>Slots\<close>

definition template_version :: int where "template_version = 1"

definition slot_id_for :: "string \<Rightarrow> nat \<Rightarrow> string" where
  "slot_id_for mount i = mount @ ''.'' @ int_str (int i)"

definition blank_slot :: "string \<Rightarrow> string \<Rightarrow> slot" where
  "blank_slot i k = \<lparr>sl_id = i, sl_kind = k, sl_path = [], sl_field = [], sl_leaf = [], sl_attr = [],
     sl_masked = False, sl_mask_leaf = [], sl_reads = [], sl_group = []\<rparr>"

definition bundle_for :: "field_spec \<Rightarrow> field_bundle" where
  "bundle_for f = bundle_of (f_base f)"

definition mask_leaf_if :: "field_spec \<Rightarrow> string" where
  "mask_leaf_if f = (if f_pii f then bu_leaf (bundle_for f) else [])"

definition field_slot :: "string \<Rightarrow> string \<Rightarrow> string \<Rightarrow> string \<Rightarrow> string \<Rightarrow> nat \<Rightarrow> field_spec \<Rightarrow> slot" where
  "field_slot res mount kind leaf reads i f = (blank_slot (slot_id_for mount i) kind)\<lparr>sl_field := f_name f,
     sl_leaf := leaf, sl_masked := f_pii f, sl_mask_leaf := mask_leaf_if f, sl_reads := [(res, reads)]\<rparr>"

definition label_of :: "string \<Rightarrow> tnode" where
  "label_of s = static_node ''label'' [lit_node s]"

definition surface :: "resource_plan \<Rightarrow> string \<Rightarrow> tnode \<Rightarrow> slot list \<Rightarrow> template" where
  "surface rp mount root slots = \<lparr>tm_version = template_version, tm_def_hash = rs_hash (rp_decl rp),
     tm_kind = mount, tm_resource = rs_name (rp_decl rp), tm_mount = mount, tm_root = root,
     tm_slots = slots, tm_group_by = []\<rparr>"

definition indexed :: "'a list \<Rightarrow> (nat \<times> 'a) list" where
  "indexed xs = zip [0..<length xs] xs"

subsection \<open>Detail, form, table\<close>

definition lower_detail :: "resource_plan \<Rightarrow> field_spec list \<Rightarrow> template" where
  "lower_detail rp fs = surface rp ''detail''
     (static_node ''card'' (map (\<lambda>(i, f). static_node ''stack''
        [label_of (f_name f), leaf_node (bu_render (bundle_for f)) (int i)]) (indexed fs)))
     (map (\<lambda>(i, f). field_slot (rs_name (rp_decl rp)) ''detail'' ''setText'' (bu_render (bundle_for f)) ''rowId'' i f)
        (indexed fs))"

definition lower_form :: "resource_plan \<Rightarrow> field_spec list \<Rightarrow> template" where
  "lower_form rp fs = surface rp ''form''
     (static_node ''section'' (map (\<lambda>(i, f). static_node ''stack''
        [label_of (f_name f), leaf_node (bu_input (bundle_for f)) (int i)]) (indexed fs) @
        [leaf_node ''alert'' (int (length fs))]))
     (map (\<lambda>(i, f). field_slot (rs_name (rp_decl rp)) ''form'' ''setValue'' (bu_input (bundle_for f)) ''rowId'' i f)
        (indexed fs) @
      [(blank_slot (slot_id_for ''form'' (length fs)) ''setText'')\<lparr>sl_field := ''__alert__'', sl_leaf := ''alert'',
         sl_reads := [(rs_name (rp_decl rp), ''rowId'')]\<rparr>])"

text \<open>\<open>curateFields\<close>: the first of \<open>name\<close>, \<open>title\<close>, \<open>label\<close> that is a plain field leads.\<close>

definition lead_names :: "string list" where
  "lead_names = [''name'', ''title'', ''label'']"

definition is_lead :: "string \<Rightarrow> field_spec \<Rightarrow> bool" where
  "is_lead w f \<longleftrightarrow> f_name f = w \<and> \<not> f_pii f"

definition curate_fields :: "field_spec list \<Rightarrow> field_spec list" where
  "curate_fields fs = (case find (\<lambda>w. list_ex (is_lead w) fs) lead_names of
      None \<Rightarrow> fs
    | Some w \<Rightarrow> filter (is_lead w) fs @ filter (\<lambda>f. \<not> is_lead w f) fs)"

definition horizon_read :: "resource_plan \<Rightarrow> (string \<times> string) list" where
  "horizon_read rp = [(rs_name (rp_decl rp), ''horizon'')]"

definition lower_table :: "resource_plan \<Rightarrow> field_spec list \<Rightarrow> template" where
  "lower_table rp fs0 = (let fs = curate_fields fs0 in surface rp ''table''
     (static_node ''table''
        [static_node ''nav'' (map (\<lambda>f. label_of (f_name f)) fs),
         keyed_list ''list'' 0 (static_node ''stack''
           (map (\<lambda>(i, f). leaf_node (bu_render (bundle_for f)) (int i + 1)) (indexed fs)))])
     ((blank_slot (slot_id_for ''table'' 0) ''spliceList'')\<lparr>sl_reads := horizon_read rp\<rparr> #
      map (\<lambda>(i, f). field_slot (rs_name (rp_decl rp)) ''table'' ''setText'' (bu_render (bundle_for f)) ''horizon'' (i + 1) f)
        (indexed fs)))"

subsection \<open>Dashboard\<close>

text \<open>The tiles: caption, synthetic field, leaf.  The sum sign is two bytes.\<close>

definition sum_caption :: "string \<Rightarrow> string" where
  "sum_caption n = [CHR 0xCE, CHR 0xA3] @ '' '' @ n"

definition dashboard_tiles :: "field_spec list \<Rightarrow> (string \<times> string \<times> string) list" where
  "dashboard_tiles fs = (''total'', ''count:__total__'', ''text'') #
     concat (map (\<lambda>f. if f_base f = ''states'' \<or> f_base f = ''select''
       then map (\<lambda>m. (f_name f @ '': '' @ m, ''count:'' @ f_name f @ '':'' @ m, ''text'')) (f_params f) else []) fs) @
     map (\<lambda>f. (sum_caption (f_name f), ''sum:'' @ f_name f, ''money''))
       (filter (\<lambda>f. f_base f = ''money'' \<and> \<not> f_pii f) fs)"

definition lower_dashboard :: "resource_plan \<Rightarrow> field_spec list \<Rightarrow> template" where
  "lower_dashboard rp fs = surface rp ''dashboard''
     (static_node ''grid'' (map (\<lambda>(i, cap, _, leaf). static_node ''card'' [label_of cap, leaf_node leaf (int i)])
        (indexed (dashboard_tiles fs))))
     (map (\<lambda>(i, _, fld, leaf). (blank_slot (slot_id_for ''dashboard'' i) ''setText'')\<lparr>sl_field := fld,
         sl_leaf := leaf, sl_reads := horizon_read rp\<rparr>) (indexed (dashboard_tiles fs)))"

subsection \<open>Board\<close>

definition states_field :: "field_spec list \<Rightarrow> field_spec option" where
  "states_field fs = find (\<lambda>f. f_base f = ''states'') fs"

definition shows_text :: "field_spec \<Rightarrow> bool" where
  "shows_text f \<longleftrightarrow> bu_render (bundle_for f) = ''text''"

definition board_title_field :: "field_spec list \<Rightarrow> field_spec \<Rightarrow> string" where
  "board_title_field fs sf =
     (case List.map_filter (\<lambda>w. find (\<lambda>f. is_lead w f \<and> shows_text f) fs) lead_names of
        f # _ \<Rightarrow> f_name f
      | [] \<Rightarrow> (case find (\<lambda>f. \<not> (f_pii f \<or> f_name f = f_name sf \<or> f_name f = ''org'') \<and> shows_text f) fs of
          Some f \<Rightarrow> f_name f | None \<Rightarrow> []))"

definition board_badge_field :: "field_spec list \<Rightarrow> field_spec \<Rightarrow> field_spec option" where
  "board_badge_field fs sf =
     (case find (\<lambda>f. \<not> (f_pii f \<or> f_name f = f_name sf \<or> f_name f = ''org'') \<and> f_base f = ''select'') fs of
        Some f \<Rightarrow> Some f
      | None \<Rightarrow> find (\<lambda>f. \<not> (f_pii f \<or> f_name f = ''org'') \<and> f_base f = ''money'') fs)"

text \<open>The title field and the badge's field and leaf; an alternative badge needs a title and a name.\<close>

definition board_badge :: "field_spec list \<Rightarrow> field_spec \<Rightarrow> string \<times> string" where
  "board_badge fs sf = (let own = (f_name sf, bu_render (bundle_for sf)) in
     if board_title_field fs sf = [] then own
     else (case board_badge_field fs sf of
        Some f \<Rightarrow> if f_name f \<noteq> [] then (f_name f, bu_render (bundle_for f)) else own
      | None \<Rightarrow> own))"

text \<open>One column: its slots and its node, with \<open>n\<close> slots before it.\<close>

definition board_column :: "resource_plan \<Rightarrow> field_spec list \<Rightarrow> field_spec \<Rightarrow> nat \<Rightarrow> string \<Rightarrow> nat \<Rightarrow> slot list \<times> tnode" where
  "board_column rp fs sf j member n =
     (let title = board_title_field fs sf; (badge, leaf) = board_badge fs sf; has = (title \<noteq> []);
          list_slot = (blank_slot (slot_id_for ''board.col'' j) ''spliceList'')\<lparr>sl_reads := horizon_read rp, sl_group := member\<rparr>;
          title_slot = (blank_slot (slot_id_for ''board.title'' j) ''setText'')\<lparr>sl_field := title, sl_leaf := ''text'', sl_reads := horizon_read rp\<rparr>;
          badge_slot = (blank_slot (slot_id_for ''board.badge'' j) ''setText'')\<lparr>sl_field := badge, sl_leaf := leaf, sl_reads := horizon_read rp\<rparr>;
          cells = (if has then [leaf_node ''text'' (int n + 1), leaf_node leaf (int n + 2)] else [leaf_node leaf (int n + 1)])
      in (list_slot # (if has then [title_slot] else []) @ [badge_slot],
          static_node ''section'' [static_node ''heading'' [lit_node member],
            keyed_list ''list'' (int n) (static_node ''card'' cells)]))"

fun board_columns :: "resource_plan \<Rightarrow> field_spec list \<Rightarrow> field_spec \<Rightarrow> nat \<Rightarrow> string list \<Rightarrow> nat \<Rightarrow> slot list \<times> tnode list" where
  "board_columns rp fs sf j [] n = ([], [])"
| "board_columns rp fs sf j (mb # mbs) n =
     (let (ss, col) = board_column rp fs sf j mb n; (ss', cols) = board_columns rp fs sf (j + 1) mbs (n + length ss)
      in (ss @ ss', col # cols))"

definition lower_board :: "resource_plan \<Rightarrow> field_spec list \<Rightarrow> field_spec \<Rightarrow> template" where
  "lower_board rp fs sf = (let (ss, cols) = board_columns rp fs sf 0 (f_params sf) 0 in
     (surface rp ''board'' (static_node ''grid'' cols) ss)\<lparr>tm_group_by := f_name sf\<rparr>)"

text \<open>\<open>lowerTemplates\<close>.\<close>

definition lower_templates :: "resource_plan \<Rightarrow> field_spec list \<Rightarrow> (string \<times> template) list" where
  "lower_templates rp fs =
     [(''detail'', lower_detail rp fs), (''form'', lower_form rp fs), (''table'', lower_table rp fs),
      (''dashboard'', lower_dashboard rp fs)] @
     (case states_field fs of Some sf \<Rightarrow> [(''board'', lower_board rp fs sf)] | None \<Rightarrow> [])"

end
