(* ===== verification/Adm_Template_Laws.thy ===== *)
theory Adm_Template_Laws
  imports Adm_Template
begin

section \<open>Derived surfaces and pii fields\<close>

text \<open>A first paint is determined by the slots: data that agree wherever a slot of the template reads
  them unmasked give the same paint, or panic together.\<close>

interpretation same_paint: paint_rel "(=)" "(=)"
  by unfold_locales simp_all

definition pii_names :: "field_spec list \<Rightarrow> string set" where
  "pii_names fs = set (map f_name (filter f_pii fs))"

definition agree_fields :: "string set \<Rightarrow> (string \<times> string) list \<Rightarrow> (string \<times> string) list \<Rightarrow> bool" where
  "agree_fields P m m' \<longleftrightarrow> (\<forall>k. k \<notin> P \<longrightarrow> field_of m k = field_of m' k)"

definition agree_rows :: "string set \<Rightarrow> row_data \<Rightarrow> row_data \<Rightarrow> bool" where
  "agree_rows P a b \<longleftrightarrow> rw_key a = rw_key b \<and> rw_subject a = rw_subject b \<and> agree_fields P (rw_fields a) (rw_fields b)"

definition agree_data :: "string set \<Rightarrow> render_data \<Rightarrow> render_data \<Rightarrow> bool" where
  "agree_data P d e \<longleftrightarrow> rd_resource d = rd_resource e \<and> rd_subject d = rd_subject e \<and>
     agree_fields P (rd_fields d) (rd_fields e) \<and> list_all2 (agree_rows P) (rd_rows d) (rd_rows e)"

definition slots_mask :: "string set \<Rightarrow> template \<Rightarrow> bool" where
  "slots_mask P t \<longleftrightarrow> tm_group_by t \<notin> P \<and> (\<forall>s\<in>set (tm_slots t). sl_masked s \<or> sl_field s \<notin> P)"

lemma masked_paint:
  assumes "slots_mask P t" "agree_data P d e"
  shows "render_first_paint t d mc = render_first_paint t e mc"
proof -
  have row: "same_paint.rows_agree t mc mc res a b" if "agree_rows P a b" for res a b
    using that assms(1)
    by (auto simp: same_paint.rows_agree_def agree_rows_def agree_fields_def slots_mask_def eval_row_slot_def
        option.rel_eq)
  have "same_paint.data_agree t mc mc d e"
    using assms row
    by (auto simp: same_paint.data_agree_def agree_data_def slots_mask_def agree_fields_def eval_slot_def
        option.rel_eq elim: list_all2_mono)
  from same_paint.render_related(1) [OF this refl] show ?thesis
    by (simp add: render_first_paint_def option.rel_eq)
qed

definition proper_fields :: "field_spec list \<Rightarrow> bool" where
  "proper_fields fs \<longleftrightarrow> distinct (map f_name fs) \<and> [] \<notin> pii_names fs \<and> ''__alert__'' \<notin> pii_names fs"

lemma not_pii_name: "distinct (map f_name fs) \<Longrightarrow> f \<in> set fs \<Longrightarrow> \<not> f_pii f \<Longrightarrow> f_name f \<notin> pii_names fs"
  by (auto simp: pii_names_def distinct_map inj_on_def)

lemma indexed_set: "(i, x) \<in> set (indexed xs) \<Longrightarrow> x \<in> set xs"
  by (auto simp: indexed_def dest: set_zip_rightD)

lemma set_curate [simp]: "set (curate_fields fs) = set fs"
  by (auto simp: curate_fields_def split: option.splits)

lemma field_slot_simps [simp]:
  "sl_masked (field_slot res mount kind leaf reads i f) = f_pii f"
  "sl_field (field_slot res mount kind leaf reads i f) = f_name f"
  by (simp_all add: field_slot_def)

lemma surfaces_mask:
  assumes "proper_fields fs" "t \<in> {lower_detail rp fs, lower_form rp fs, lower_table rp fs}"
  shows "slots_mask (pii_names fs) t"
  using assms not_pii_name
  by (auto simp: slots_mask_def lower_detail_def lower_form_def lower_table_def surface_def Let_def
      blank_slot_def proper_fields_def dest!: indexed_set)

subsection \<open>Properties\<close>

definition contact_fields :: "field_spec list" where
  "contact_fields = sort_fields [parse_field_spec ''name'' ''text'', parse_field_spec ''ssn'' ''pii:text'']"

definition contact_plan :: resource_plan where
  "contact_plan = plan_resource (\<lambda>_. None) [] \<lparr>rs_name = ''app/Contact'', rs_hash = ''#c'', rs_fields = contact_fields,
     rs_policy = [], rs_policy_name = []\<rparr>"

definition contact_row :: "string \<Rightarrow> render_data" where
  "contact_row ssn = \<lparr>rd_resource = ''app/Contact'', rd_subject = ''7'',
     rd_fields = [(''name'', ''Ann''), (''ssn'', ssn)], rd_rows = []\<rparr>"

text \<open>C37: the detail, form and table surfaces a resource derives paint the same bytes whatever the values
  of its pii fields are: data that differ only in pii fields, of the record and of its rows, give the
  same markup and the same slot snapshots, or panic together, under any mask context.\<close>
theorem derived_surfaces_hide_pii:
  assumes "proper_fields fs" "t \<in> {lower_detail rp fs, lower_form rp fs, lower_table rp fs}"
    and "agree_data (pii_names fs) d e"
  shows "render_first_paint t d mc = render_first_paint t e mc"
  using masked_paint [OF surfaces_mask [OF assms(1,2)] assms(3)] .

lemma derived_surfaces_hide_pii_witness:
  "render_first_paint (lower_detail contact_plan contact_fields) (contact_row ''123'') None =
   render_first_paint (lower_detail contact_plan contact_fields) (contact_row ''999'') None"
proof (rule derived_surfaces_hide_pii [where rp = contact_plan])
  have p: "pii_names contact_fields = {''ssn''}"
    by code_simp
  show "proper_fields contact_fields" unfolding proper_fields_def p by code_simp
  show "agree_data (pii_names contact_fields) (contact_row ''123'') (contact_row ''999'')"
    unfolding p by (simp add: agree_data_def contact_row_def agree_fields_def field_of_def)
qed simp

text \<open>The board does not mask: on a resource whose states field is pii, the badge slot of every
  column is bound to that field and unmasked, the board is grouped by it, and the dashboard counts its
  members, though the same field is masked on the table.\<close>
theorem board_binds_pii_states:
  "(let fs = [parse_field_spec ''stage'' ''pii:states:new|won'']; t = lower_board contact_plan fs (hd fs) in
     map sl_field (filter (\<lambda>s. sl_kind s = ''setText'') (tm_slots t)) = [''stage'', ''stage''] \<and>
     list_ex sl_masked (tm_slots t) = False \<and> tm_group_by t = ''stage'' \<and>
     map sl_field (tm_slots (lower_dashboard contact_plan fs)) =
       [''count:__total__'', ''count:stage:new'', ''count:stage:won''] \<and>
     map sl_masked (tm_slots (lower_table contact_plan fs)) = [False, True])"
  by code_simp

end
