(* ===== verification/Adm_Component.thy ===== *)
theory Adm_Component
  imports Adm_Template Adm_Samples
begin

section \<open>Hand-authored components\<close>

text \<open>
  \<open>internal/admission/component_lower.go\<close>: the template of a definition that composes the \<open>std/ui\<close>
  vocabulary.  The walk appends a slot for every leaf that binds the props parameter; \<open>ss\<close> is the slot
  list so far.
\<close>

definition bind_keys :: "string list" where
  "bind_keys = [''value'', ''text'', ''title'', ''label'']"

text \<open>\<open>referencesProps\<close> and \<open>memberField\<close>: the props parameter is taken to be the variable of index 0.\<close>

fun references_props :: "node \<Rightarrow> bool" where
  "references_props (Node k s u m ks) =
     (if k = KLocal then u = 0
      else if k = KMember \<or> k = KIndex then (case ks of x # _ \<Rightarrow> references_props x | [] \<Rightarrow> False)
      else False)"

definition member_field :: "node \<Rightarrow> string" where
  "member_field n = (case nkids n of
      x # _ \<Rightarrow> if nk n = KMember \<and> nk x = KLocal \<and> nu x = 0 then nstr n else []
    | [] \<Rightarrow> [])"

text \<open>\<open>valueBind\<close> and \<open>literalValue\<close> look for a binding prop in the first argument of the call.\<close>

definition binding_props :: "node \<Rightarrow> node list" where
  "binding_props args = (case nkids args of
      obj # _ \<Rightarrow> if nk obj = KObject then List.map_filter (\<lambda>p. case prop_kv p of
          (key, Some v) \<Rightarrow> if key \<in> set bind_keys then Some v else None | _ \<Rightarrow> None) (obj_props obj)
        else []
    | [] \<Rightarrow> [])"

definition value_bind :: "node \<Rightarrow> node option" where
  "value_bind args = find references_props (binding_props args)"

definition literal_value :: "node \<Rightarrow> string option" where
  "literal_value args = map_option nstr (find (\<lambda>v. nk v = KStr) (binding_props args))"

definition child_args :: "node \<Rightarrow> node list" where
  "child_args args = (case nkids args of
      _ # arr # _ \<Rightarrow> if nk arr = KArray then (case nkids arr of l # _ \<Rightarrow> nkids l | [] \<Rightarrow> []) else []
    | _ \<Rightarrow> [])"

definition component_slot :: "string \<Rightarrow> node \<Rightarrow> nat \<Rightarrow> slot" where
  "component_slot elem v i = (blank_slot (slot_id_for ''component'' i)
       (if elem \<in> {''field'', ''select'', ''checkbox''} then ''setValue'' else ''setText''))
     \<lparr>sl_field := member_field v, sl_leaf := elem\<rparr>"

lemma size_child_args: "nkids n = c # args # r \<Longrightarrow> size_list size (child_args args) < size n"
proof -
  assume a: "nkids n = c # args # r"
  have "size_list size (child_args args) \<le> size args"
  proof (cases "\<exists>x arr q l t. nkids args = x # arr # q \<and> nkids arr = l # t \<and> nk arr = KArray")
    case True
    then obtain x arr q l t where x: "nkids args = x # arr # q" "nkids arr = l # t" "nk arr = KArray" by blast
    then have "size arr < size args" "size l < size arr" by (auto intro: size_nkids)
    moreover have c: "child_args args = nkids l" using x by (simp add: child_args_def)
    ultimately show ?thesis unfolding c using size_list_nkids [of l] by linarith
  next
    case False
    then have "child_args args = []" by (auto simp: child_args_def split: list.splits)
    then show ?thesis by simp
  qed
  moreover have "size args < size n" using a by (auto intro: size_nkids)
  ultimately show ?thesis by linarith
qed

function (sequential) lower_comp :: "image \<Rightarrow> node \<Rightarrow> slot list \<Rightarrow> (tnode \<times> slot list) option"
  and lower_comps :: "image \<Rightarrow> node list \<Rightarrow> slot list \<Rightarrow> (tnode list \<times> slot list) option" where
  "lower_comp im n ss =
     (if nk n \<noteq> KCall then None
      else (case nkids n of
        callee # args # _ \<Rightarrow>
          let elem = ui_component_of im callee in
          if elem = [] then None
          else (case value_bind args of
            Some v \<Rightarrow> Some (leaf_node elem (int (length ss)), ss @ [component_slot elem v (length ss)])
          | None \<Rightarrow> (case literal_value args of
              Some lit \<Rightarrow> Some (static_node elem [lit_node lit], ss)
            | None \<Rightarrow> do {
                (ks, ss') \<leftarrow> lower_comps im (child_args args) ss;
                Some (static_node elem ks, ss') }))
      | _ \<Rightarrow> None))"
| "lower_comps im [] ss = Some ([], ss)"
| "lower_comps im (x # xs) ss = do {
     (k, ss1) \<leftarrow> lower_comp im x ss;
     (ks, ss2) \<leftarrow> lower_comps im xs ss1;
     Some (k # ks, ss2) }"
  by pat_completeness auto

termination
  by (relation "measure (\<lambda>x. case x of Inl (_, n, _) \<Rightarrow> size n | Inr (_, ns, _) \<Rightarrow> size_list size ns)")
    (auto simp: size_child_args)

text \<open>\<open>componentReturn\<close>.\<close>

definition returned_expr :: "node \<Rightarrow> node option" where
  "returned_expr st = (case nkids st of
      e # _ \<Rightarrow> if nk st = KReturn \<and> nk e \<noteq> KNone then Some e else None | [] \<Rightarrow> None)"

definition component_return :: "node \<Rightarrow> node option" where
  "component_return body0 =
     (let body = unwrap_value body0 in
      if nk body \<noteq> KFunc then None
      else (case nkids body of
        _ # _ # _ # b # _ \<Rightarrow>
          if nu body AND 2 \<noteq> 0 then (if nk b \<noteq> KNone then Some b else None)
          else if nk b = KBlock then
            (case nkids b of
               l # _ \<Rightarrow> (case List.map_filter returned_expr (nkids l) of e # _ \<Rightarrow> Some e | [] \<Rightarrow> None)
             | [] \<Rightarrow> None)
          else None
      | _ \<Rightarrow> None))"

text \<open>\<open>calleeOf\<close> and \<open>lowerComponent\<close>.\<close>

definition callee_of :: "node \<Rightarrow> node option" where
  "callee_of n = (case nkids n of c # _ \<Rightarrow> if nk n = KCall then Some c else None | [] \<Rightarrow> None)"

definition lower_component :: "image \<Rightarrow> lowered \<Rightarrow> template option" where
  "lower_component im d = do {
     ret \<leftarrow> component_return (ld_body d);
     callee \<leftarrow> callee_of ret;
     if ui_component_of im callee = [] then None else do {
       (root, ss) \<leftarrow> lower_comp im ret [];
       Some \<lparr>tm_version = template_version, tm_def_hash = ld_hash d, tm_kind = ''component'', tm_resource = [],
         tm_mount = ''component'', tm_root = root, tm_slots = ss, tm_group_by = []\<rparr> } }"

subsection \<open>The closed roster\<close>

text \<open>A tree of \<open>std/ui\<close> elements and literal texts whose slots are among the first \<open>N\<close>.\<close>

inductive roster_tree :: "image \<Rightarrow> nat \<Rightarrow> tnode \<Rightarrow> bool" for im N where
  literal: "roster_tree im N (lit_node s)"
| leaf: "ui_component_of im (Node KRef h u m []) = c \<Longrightarrow> c \<noteq> [] \<Longrightarrow> i < N \<Longrightarrow> roster_tree im N (leaf_node c (int i))"
| container: "ui_component_of im (Node KRef h u m []) = c \<Longrightarrow> c \<noteq> [] \<Longrightarrow> \<forall>k\<in>set ks. roster_tree im N k \<Longrightarrow>
    roster_tree im N (static_node c ks)"

lemma roster_mono: "roster_tree im N t \<Longrightarrow> N \<le> N' \<Longrightarrow> roster_tree im N' t"
  by (induction rule: roster_tree.induct) (auto intro: roster_tree.intros)

lemma component_ref: "ui_component_of im callee \<noteq> [] \<Longrightarrow>
    ui_component_of im callee = ui_component_of im (Node KRef (nstr callee) 0 [] [])"
  by (auto simp: ui_component_of_def split: if_splits)

lemma lower_comp_roster:
  "lower_comp im n ss = Some (t, ss') \<Longrightarrow> roster_tree im (length ss') t \<and> length ss \<le> length ss'"
  "lower_comps im ns ss = Some (ts, ss') \<Longrightarrow> (\<forall>t\<in>set ts. roster_tree im (length ss') t) \<and> length ss \<le> length ss'"
proof (induction im n ss and im ns ss arbitrary: t ss' and ts ss' rule: lower_comp_lower_comps.induct)
  case (1 im n ss)
  then obtain callee args r where n: "nk n = KCall" "nkids n = callee # args # r"
      "ui_component_of im callee \<noteq> []"
    by (auto split: if_splits list.splits simp: Let_def)
  note c = component_ref [OF n(3), symmetric]
  show ?case
  proof (cases "value_bind args")
    case (Some v)
    then show ?thesis using 1(2) n by (auto simp: Let_def intro!: roster_tree.leaf [OF c])
  next
    case None
    show ?thesis
    proof (cases "literal_value args")
      case (Some lit)
      then show ?thesis using 1(2) n None
        by (auto simp: Let_def intro!: roster_tree.container [OF c] roster_tree.literal)
    next
      case b: None
      then obtain ks where k: "lower_comps im (child_args args) ss = Some (ks, ss')" "t = static_node (ui_component_of im callee) ks"
        using 1(2) n None by (auto simp: Let_def split: bind_splits)
      from 1(1) [OF _ n(2) refl refl n(3) None b k(1)] n(1)
      have "(\<forall>t\<in>set ks. roster_tree im (length ss') t) \<and> length ss \<le> length ss'" by simp
      then show ?thesis unfolding k(2) using roster_tree.container [OF c n(3)] by blast
    qed
  qed
next
  case (3 im x xs ss)
  then obtain k ks ss1 where s: "lower_comp im x ss = Some (k, ss1)" "lower_comps im xs ss1 = Some (ks, ss')" "ts = k # ks"
    by (auto split: bind_splits)
  from 3(1) [OF s(1)] 3(2) [OF s(1) refl s(2)] s(3) show ?case
    by (auto intro: roster_mono)
qed auto

text \<open>Such a tree paints, whatever the data.\<close>

lemma mask_token_some: "mask_token r s f = None \<Longrightarrow> materialize_mask mc r s f = None"
  by (simp add: materialize_mask_def)

lemma roster_paints:
  assumes "roster_tree im N t" "N \<le> length (tm_slots tm)" "\<forall>s\<in>set (tm_slots tm). \<not> sl_masked s"
  shows "\<exists>q. render_node tm mc d t p = Some q"
  using assms
proof (induction arbitrary: p rule: roster_tree.induct)
  case (literal s)
  then show ?case by (simp add: lit_node_def)
next
  case (leaf h u m c i)
  then have "\<not> sl_masked (tm_slots tm ! i)" by (simp add: nth_mem)
  with leaf show ?case by (simp add: leaf_node_def nth_i_def nth_go_def eval_slot_def Let_def)
next
  case (container h u m c ks)
  have "\<exists>q. render_kids tm mc d xs p = Some q" if "set xs \<subseteq> set ks" for xs p
    using that
  proof (induction xs arbitrary: p)
    case (Cons x xs)
    then obtain q where "render_node tm mc d x p = Some q" using container by (metis insert_subset list.simps(15))
    with Cons show ?case by simp
  qed simp
  then obtain q where "render_kids tm mc d ks
      (emit (open_tag (element_for c) (TNode c [] [] ks (- 1) (- 1) TNil) [] []) p) = Some q" by blast
  with container show ?case by (simp add: static_node_def Let_def)
qed

lemma lower_comp_unmasked:
  "lower_comp im n ss = Some (t, ss') \<Longrightarrow> \<forall>s\<in>set ss. \<not> sl_masked s \<Longrightarrow> \<forall>s\<in>set ss'. \<not> sl_masked s"
  "lower_comps im ns ss = Some (ts, ss') \<Longrightarrow> \<forall>s\<in>set ss. \<not> sl_masked s \<Longrightarrow> \<forall>s\<in>set ss'. \<not> sl_masked s"
proof (induction im n ss and im ns ss arbitrary: t ss' and ts ss' rule: lower_comp_lower_comps.induct)
  case (1 im n ss)
  then show ?case
    by (auto simp: Let_def component_slot_def blank_slot_def split: if_splits list.splits option.splits bind_splits)
next
  case (3 im x xs ss)
  then show ?case by (fastforce split: bind_splits)
qed auto

subsection \<open>Properties\<close>

text \<open>A lowered component is closed and paints.  Every element of its tree is a \<open>std/ui\<close> component
  or a literal text, every slot index is in range, and the first paint returns whatever the data and
  the mask context are: no panic of the renderer is reachable.\<close>
theorem component_paints:
  assumes "lower_component im d = Some t"
  shows "roster_tree im (length (tm_slots t)) (tm_root t) \<and> (\<exists>q. render_first_paint t data mc = Some q)"
proof -
  obtain ret root ss where r: "lower_comp im ret [] = Some (root, ss)" "tm_root t = root" "tm_slots t = ss"
    using assms by (auto simp: lower_component_def simp del: lower_comp.simps elim!: bind_SomeE split: if_splits)
  have "roster_tree im (length (tm_slots t)) (tm_root t)" using lower_comp_roster(1) [OF r(1)] r by simp
  moreover have "\<forall>s\<in>set (tm_slots t). \<not> sl_masked s" using lower_comp_unmasked(1) [OF r(1)] r by simp
  ultimately show ?thesis using roster_paints [of im _ "tm_root t" t] by (auto simp: render_first_paint_def)
qed

definition ui_image :: image where
  "ui_image = ex_image\<lparr>im_entry := map_of [
     (''#card'', \<lparr>se_module = ''std/ui'', se_export = ''card'', se_intrinsic = ''std/ui.card''\<rparr>),
     (''#text'', \<lparr>se_module = ''std/ui'', se_export = ''text'', se_intrinsic = ''std/ui.text''\<rparr>)]\<rparr>"

definition nprop :: "string \<Rightarrow> node \<Rightarrow> node" where
  "nprop k v = nd KObject [] 0 [nlist [nd KProp [] 0 [nd KStrPart k 0 [], v]]]"

definition nprops_field :: "nat \<Rightarrow> string \<Rightarrow> node" where
  "nprops_field i f = nd KMember f 0 [nlocal i]"

text \<open>\<open>text({value: props.name})\<close>, with the props parameter at index \<open>i\<close>, and a card around it.\<close>

definition name_text :: "nat \<Rightarrow> node" where
  "name_text i = ncall (nref ''#text'') [nprop ''value'' (nprops_field i ''name'')]"

definition name_card :: "string \<Rightarrow> node" where
  "name_card caption = ncall (nref ''#card'')
     [nprop (if caption = [] then ''tone'' else ''title'') (nstrlit caption), nd KArray [] 0 [nlist [name_text 0]]]"

lemma component_paints_witness:
  "\<exists>t q. lower_component ui_image (ex_fun [nparam none_node] [nreturn (name_card [])]) = Some t \<and>
     render_first_paint t (bare_data ''app/Contact'') None = Some q"
proof -
  have "lower_component ui_image (ex_fun [nparam none_node] [nreturn (name_card [])]) \<noteq> None" by code_simp
  then obtain t where t: "lower_component ui_image (ex_fun [nparam none_node] [nreturn (name_card [])]) = Some t" by blast
  from component_paints [OF t, of "bare_data ''app/Contact''" None] t show ?thesis by blast
qed

text \<open>What the lowering loses.  A container with a caption drops its children; a component that
  declares a local before it returns loses its bindings of the props, and binds the members of the
  local as if they were fields of the record.\<close>
theorem component_drops_content:
  "map_option (\<lambda>t. (map sl_field (tm_slots t), tn_children (tm_root t)))
     (lower_component ui_image (ex_fun [nparam none_node] [nreturn (name_card ''Deal'')])) =
     Some ([], [lit_node ''Deal'']) \<and>
   map_option (\<lambda>t. (map sl_field (tm_slots t), tn_children (tm_root t)))
     (lower_component ui_image (ex_fun [nparam none_node] [ndecl none_node (nstrlit ''x''), nreturn (name_text 1)])) =
     Some ([], []) \<and>
   map_option (\<lambda>t. map sl_field (tm_slots t))
     (lower_component ui_image (ex_fun [nparam none_node] [ndecl none_node (nref ''#config''), nreturn (name_text 0)])) =
     Some [''name'']"
  by code_simp

end
