(* ===== verification/Cat_Store.thy ===== *)
theory Cat_Store
  imports Adm_Patch Rast_Address
begin

section \<open>The catalog: definitions, scoped name pointers, history\<close>

text \<open>
  \<open>internal/catalog\<close>: \<open>definition.go\<close> and \<open>resolve.go\<close> with the triggers of \<open>sql/schema.sql\<close> that run
  inside their statements.  Times are the values \<open>clock_timestamp()\<close> yields, as natural numbers; a
  history window \<open>[from, to)\<close> is open while \<open>hr_to\<close> is \<open>None\<close>.  Canonical text, contract mirror and
  docstring columns are left out: nothing here reads them back.
\<close>

subsection \<open>Tables\<close>

record def_row =
  dr_kind :: string
  dr_ast :: bytes
  dr_deps :: "string list"
  dr_admission :: nat

record ptr_row =
  pr_kind :: string
  pr_vis :: string
  pr_hash :: string
  pr_admission :: nat

record hist_row =
  hr_name :: string
  hr_scope :: scope_ref
  hr_hash :: string
  hr_vis :: string
  hr_from :: nat
  hr_to :: "nat option"
  hr_admission :: nat

record catalog =
  ct_defs :: "string \<Rightarrow> def_row option"
  ct_ptrs :: "string \<times> scope_ref \<Rightarrow> ptr_row option"
  ct_hist :: "hist_row list"

text \<open>\<open>catalog.Pointer\<close>.\<close>

record pointer =
  pp_name :: string
  pp_scope :: scope_ref
  pp_kind :: string
  pp_vis :: string
  pp_hash :: string
  pp_admission :: nat

datatype sql_error = VerifyFailed | ForeignKey | Exclusion | BadRange

subsection \<open>Definitions\<close>

text \<open>The verify hook of \<open>insertDefinitions\<close>, the dependency trigger, which runs before the conflict
  check, and \<open>InsertDefinition\<close>; the result says whether the row is new.\<close>

definition rehashes :: "string \<Rightarrow> bytes \<Rightarrow> bool" where
  "rehashes h ast = (case decode_node ast of Some n \<Rightarrow> verify_address n h | None \<Rightarrow> False)"

definition insert_definition :: "string \<Rightarrow> def_row \<Rightarrow> catalog \<Rightarrow> sql_error + bool \<times> catalog" where
  "insert_definition h d c =
     (if \<not> rehashes h (dr_ast d) then Inl VerifyFailed
      else if \<not> list_all (\<lambda>x. ct_defs c x \<noteq> None) (dr_deps d) then Inl ForeignKey
      else if ct_defs c h \<noteq> None then Inr (False, c)
      else Inr (True, c\<lparr>ct_defs := (ct_defs c)(h \<mapsto> d)\<rparr>))"

subsection \<open>History\<close>

definition same_key :: "string \<times> scope_ref \<Rightarrow> hist_row \<Rightarrow> bool" where
  "same_key k h \<longleftrightarrow> hr_name h = fst k \<and> hr_scope h = snd k"

definition window_of :: "nat \<Rightarrow> pointer \<Rightarrow> hist_row" where
  "window_of ts p = \<lparr>hr_name = pp_name p, hr_scope = pp_scope p, hr_hash = pp_hash p, hr_vis = pp_vis p,
     hr_from = ts, hr_to = None, hr_admission = pp_admission p\<rparr>"

definition close_window :: "nat \<Rightarrow> string \<times> scope_ref \<Rightarrow> hist_row \<Rightarrow> hist_row" where
  "close_window ts k h = (if same_key k h \<and> hr_to h = None then h\<lparr>hr_to := Some ts\<rparr> else h)"

text \<open>\<open>tstzrange(from, to)\<close>: an end before the start is an error, an empty range overlaps nothing.\<close>

definition range_ok :: "hist_row \<Rightarrow> bool" where
  "range_ok h \<longleftrightarrow> (case hr_to h of None \<Rightarrow> True | Some t \<Rightarrow> hr_from h \<le> t)"

definition overlaps_from :: "nat \<Rightarrow> hist_row \<Rightarrow> bool" where
  "overlaps_from ts h \<longleftrightarrow> (case hr_to h of None \<Rightarrow> True | Some t \<Rightarrow> ts < t \<and> hr_from h < t)"

text \<open>\<open>regel_write_history\<close> with the exclusion constraint of the table.\<close>

definition write_history :: "nat \<Rightarrow> bool \<Rightarrow> pointer \<Rightarrow> hist_row list \<Rightarrow> sql_error + hist_row list" where
  "write_history ts upd p hist =
     (let k = (pp_name p, pp_scope p); closed = (if upd then map (close_window ts k) hist else hist) in
      if \<not> list_all range_ok closed then Inl BadRange
      else if list_ex (\<lambda>h. same_key k h \<and> overlaps_from ts h) closed then Inl Exclusion
      else Inr (closed @ [window_of ts p]))"

subsection \<open>Pointers\<close>

definition row_of :: "pointer \<Rightarrow> ptr_row" where
  "row_of p = \<lparr>pr_kind = pp_kind p, pr_vis = pp_vis p, pr_hash = pp_hash p, pr_admission = pp_admission p\<rparr>"

definition move_pointer :: "nat \<Rightarrow> bool \<Rightarrow> pointer \<Rightarrow> catalog \<Rightarrow> sql_error + bool \<times> catalog" where
  "move_pointer ts upd p c =
     (case write_history ts upd p (ct_hist c) of
        Inl e \<Rightarrow> Inl e
      | Inr hist \<Rightarrow>
          if ct_defs c (pp_hash p) = None then Inl ForeignKey
          else Inr (True, c\<lparr>ct_hist := hist, ct_ptrs := (ct_ptrs c)((pp_name p, pp_scope p) \<mapsto> row_of p)\<rparr>))"

text \<open>\<open>UpsertPointerCAS\<close>: no base is insert-if-absent, a base is a compare-and-set on the head.\<close>

definition upsert_pointer_cas :: "nat \<Rightarrow> pointer \<Rightarrow> string option \<Rightarrow> catalog \<Rightarrow> sql_error + bool \<times> catalog" where
  "upsert_pointer_cas ts p base c =
     (case (base, ct_ptrs c (pp_name p, pp_scope p)) of
        (None, None) \<Rightarrow> move_pointer ts False p c
      | (None, Some _) \<Rightarrow> Inr (False, c)
      | (Some b, Some r) \<Rightarrow> if pr_hash r = b then move_pointer ts True p c else Inr (False, c)
      | (Some b, None) \<Rightarrow> Inr (False, c))"

subsection \<open>Resolution\<close>

text \<open>\<open>moduleOf\<close>: everything before the last slash.\<close>

definition module_of :: "string \<Rightarrow> string" where
  "module_of name = (if CHR ''/'' \<in> set name
     then List.rev (drop 1 (dropWhile (\<lambda>c. c \<noteq> CHR ''/'') (List.rev name))) else [])"

definition chain_scopes :: "scope_chain \<Rightarrow> scope_ref list" where
  "chain_scopes c = [\<lparr>sc_kind = 4, sc_id = ch_user c\<rparr>, \<lparr>sc_kind = 3, sc_id = ch_team c\<rparr>,
     \<lparr>sc_kind = 2, sc_id = ch_org c\<rparr>, \<lparr>sc_kind = 1, sc_id = ch_package c\<rparr>, \<lparr>sc_kind = 0, sc_id = []\<rparr>]"

definition visible_to :: "string \<Rightarrow> string \<Rightarrow> string \<Rightarrow> bool" where
  "visible_to vis name caller \<longleftrightarrow> vis = ''exported'' \<or> vis = ''private'' \<and> module_of name = caller"

record resolved =
  rv_hash :: string
  rv_kind :: string
  rv_scope :: nat

definition live_at :: "catalog \<Rightarrow> string \<Rightarrow> string \<Rightarrow> scope_ref \<Rightarrow> resolved option" where
  "live_at c name caller sc = (case ct_ptrs c (name, sc) of
      Some r \<Rightarrow> if visible_to (pr_vis r) name caller
        then Some \<lparr>rv_hash = pr_hash r, rv_kind = pr_kind r, rv_scope = sc_kind sc\<rparr> else None
    | None \<Rightarrow> None)"

fun first_some :: "('a \<Rightarrow> 'b option) \<Rightarrow> 'a list \<Rightarrow> 'b option" where
  "first_some f [] = None"
| "first_some f (x # xs) = (case f x of Some y \<Rightarrow> Some y | None \<Rightarrow> first_some f xs)"

text \<open>\<open>Resolve\<close>, live and as of a time; the kind of a past resolution is the definition's.\<close>

definition resolve :: "catalog \<Rightarrow> string \<Rightarrow> scope_chain \<Rightarrow> string \<Rightarrow> resolved option" where
  "resolve c name chain caller = first_some (live_at c name caller) (chain_scopes chain)"

definition holds_at :: "nat \<Rightarrow> hist_row \<Rightarrow> bool" where
  "holds_at t h \<longleftrightarrow> hr_from h \<le> t \<and> (case hr_to h of None \<Rightarrow> True | Some e \<Rightarrow> t < e)"

definition past_at :: "catalog \<Rightarrow> string \<Rightarrow> string \<Rightarrow> nat \<Rightarrow> scope_ref \<Rightarrow> resolved option" where
  "past_at c name caller t sc =
     (case filter (\<lambda>h. same_key (name, sc) h \<and> visible_to (hr_vis h) name caller \<and> holds_at t h \<and>
         ct_defs c (hr_hash h) \<noteq> None) (ct_hist c) of
        h # _ \<Rightarrow> Some \<lparr>rv_hash = hr_hash h, rv_kind = dr_kind (the (ct_defs c (hr_hash h))), rv_scope = sc_kind sc\<rparr>
      | [] \<Rightarrow> None)"

definition resolve_as_of :: "catalog \<Rightarrow> string \<Rightarrow> scope_chain \<Rightarrow> string \<Rightarrow> nat \<Rightarrow> resolved option" where
  "resolve_as_of c name chain caller t = first_some (past_at c name caller t) (chain_scopes chain)"

end
