(* ===== verification/Cat_Laws.thy ===== *)
theory Cat_Laws
  imports Cat_Store
begin

section \<open>History tells the live catalog of every past time\<close>

subsection \<open>Runs of pointer operations\<close>

type_synonym pointer_op = "nat \<times> pointer \<times> string option"

text \<open>A failing statement aborts its transaction and leaves the catalog as it was.\<close>

definition cas_step :: "pointer_op \<Rightarrow> catalog \<Rightarrow> catalog" where
  "cas_step x c = (case x of (ts, p, b) \<Rightarrow> (case upsert_pointer_cas ts p b c of Inl _ \<Rightarrow> c | Inr (_, c') \<Rightarrow> c'))"

definition run_ops :: "pointer_op list \<Rightarrow> catalog \<Rightarrow> catalog" where
  "run_ops xs c = fold cas_step xs c"

definition clocked :: "pointer_op list \<Rightarrow> bool" where
  "clocked xs \<longleftrightarrow> sorted_wrt (<) (map fst xs)"

subsection \<open>The invariant\<close>

definition view :: "catalog \<Rightarrow> string \<times> scope_ref \<Rightarrow> nat \<Rightarrow> (string \<times> string) list" where
  "view c k t = map (\<lambda>h. (hr_hash h, hr_vis h)) (filter (\<lambda>h. same_key k h \<and> holds_at t h) (ct_hist c))"

definition live_view :: "catalog \<Rightarrow> string \<times> scope_ref \<Rightarrow> (string \<times> string) list" where
  "live_view c k = (case ct_ptrs c k of None \<Rightarrow> [] | Some r \<Rightarrow> [(pr_hash r, pr_vis r)])"

definition open_view :: "hist_row list \<Rightarrow> string \<times> scope_ref \<Rightarrow> (string \<times> string) list" where
  "open_view hist k = map (\<lambda>h. (hr_hash h, hr_vis h)) (filter (\<lambda>h. same_key k h \<and> hr_to h = None) hist)"

text \<open>Every window ended by time \<open>T\<close> or is open, and the open windows are the live pointers.\<close>

definition hist_ok :: "catalog \<Rightarrow> nat \<Rightarrow> bool" where
  "hist_ok c T \<longleftrightarrow>
     (\<forall>h\<in>set (ct_hist c). hr_from h \<le> T \<and> ct_defs c (hr_hash h) \<noteq> None \<and>
        (case hr_to h of None \<Rightarrow> True | Some e \<Rightarrow> hr_from h < e \<and> e \<le> T)) \<and>
     (\<forall>k. open_view (ct_hist c) k = live_view c k)"

lemma hist_ok_open: "hist_ok c T \<Longrightarrow> open_view (ct_hist c) k = live_view c k"
  unfolding hist_ok_def by blast

lemma hist_ok_view: "hist_ok c T \<Longrightarrow> T \<le> t \<Longrightarrow> view c k t = live_view c k"
proof -
  assume H: "hist_ok c T" and t: "T \<le> t"
  then have "holds_at t h \<longleftrightarrow> hr_to h = None" if "h \<in> set (ct_hist c)" for h
    using that by (fastforce simp: hist_ok_def holds_at_def split: option.splits)
  then have "filter (\<lambda>h. same_key k h \<and> holds_at t h) (ct_hist c) = filter (\<lambda>h. same_key k h \<and> hr_to h = None) (ct_hist c)"
    by (auto intro: filter_cong)
  then show ?thesis using hist_ok_open [OF H, of k] by (simp add: view_def open_view_def)
qed

lemma hist_ok_later: "hist_ok c T \<Longrightarrow> T \<le> T' \<Longrightarrow> hist_ok c T'"
  by (fastforce simp: hist_ok_def split: option.splits)

lemma close_simps [simp]:
  "same_key k (close_window ts k' h) = same_key k h"
  "hr_hash (close_window ts k' h) = hr_hash h" "hr_vis (close_window ts k' h) = hr_vis h"
  "hr_from (close_window ts k' h) = hr_from h"
  by (auto simp: close_window_def same_key_def)

lemma holds_close: "t < ts \<Longrightarrow> holds_at t (close_window ts k h) = holds_at t h"
  by (auto simp: close_window_def holds_at_def)

lemma window_simps [simp]:
  "same_key k (window_of ts p) \<longleftrightarrow> k = (pp_name p, pp_scope p)" "hr_to (window_of ts p) = None"
  "hr_hash (window_of ts p) = pp_hash p" "hr_vis (window_of ts p) = pp_vis p" "hr_from (window_of ts p) = ts"
  by (auto simp: window_of_def same_key_def)

lemma move_pointer_hist:
  assumes "move_pointer ts upd p c = Inr (b, c')"
  shows "ct_hist c' = (if upd then map (close_window ts (pp_name p, pp_scope p)) (ct_hist c) else ct_hist c) @ [window_of ts p]"
    and "ct_ptrs c' = (ct_ptrs c)((pp_name p, pp_scope p) \<mapsto> row_of p)" and "ct_defs c' = ct_defs c"
    and "ct_defs c (pp_hash p) \<noteq> None"
  using assms by (auto simp: move_pointer_def write_history_def Let_def split: sum.splits if_splits)

lemma close_view: "open_view (map (close_window ts k') hist) k = (if k = k' then [] else open_view hist k)"
  by (induction hist) (auto simp: open_view_def close_window_def same_key_def prod_eq_iff)

lemma move_pointer_view:
  assumes "move_pointer ts upd p c = Inr (b, c')" "t < ts"
  shows "view c' k t = view c k t"
  using assms(2) unfolding view_def move_pointer_hist(1) [OF assms(1)]
  by (auto simp: filter_map comp_def holds_close) (auto simp: holds_at_def)

lemma move_pointer_ok:
  assumes H: "hist_ok c T" "T < ts" and M: "move_pointer ts upd p c = Inr (b, c')"
    and U: "upd \<longleftrightarrow> ct_ptrs c (pp_name p, pp_scope p) \<noteq> None"
  shows "hist_ok c' ts"
  unfolding hist_ok_def
proof (intro conjI ballI allI)
  note m = move_pointer_hist [OF M]
  show "open_view (ct_hist c') k = live_view c' k" for k
  proof -
    have o: "open_view (ct_hist c) k = live_view c k" for k by (rule hist_ok_open [OF H(1)])
    have "open_view (xs @ [window_of ts p]) k = open_view xs k @ (if k = (pp_name p, pp_scope p) then [(pp_hash p, pp_vis p)] else [])" for xs
      by (simp add: open_view_def)
    then show ?thesis using U
      by (auto simp: m close_view o live_view_def row_of_def split: option.splits)
  qed
  fix h assume "h \<in> set (ct_hist c')"
  then consider "h = window_of ts p" | g where "g \<in> set (ct_hist c)" "h = g \<or> h = close_window ts (pp_name p, pp_scope p) g"
    by (auto simp: m split: if_splits)
  then have "hr_from h \<le> ts \<and> ct_defs c' (hr_hash h) \<noteq> None \<and> (case hr_to h of None \<Rightarrow> True | Some e \<Rightarrow> hr_from h < e \<and> e \<le> ts)"
  proof cases
    case 1
    then show ?thesis using m by simp
  next
    case (2 g)
    then show ?thesis using H m by (fastforce simp: hist_ok_def close_window_def split: option.splits)
  qed
  then show "hr_from h \<le> ts" "ct_defs c' (hr_hash h) \<noteq> None"
    "case hr_to h of None \<Rightarrow> True | Some e \<Rightarrow> hr_from h < e \<and> e \<le> ts" by auto
qed

lemma cas_step_cases:
  assumes "P c" and "\<And>upd b c'. upd \<longleftrightarrow> ct_ptrs c (pp_name p, pp_scope p) \<noteq> None \<Longrightarrow>
    move_pointer ts upd p c = Inr (b, c') \<Longrightarrow> P c'"
  shows "P (cas_step (ts, p, base) c)"
  using assms(1) assms(2) [of False] assms(2) [of True]
  by (auto simp: cas_step_def upsert_pointer_cas_def split: option.splits sum.splits prod.splits if_splits)

lemma cas_step_ok: "hist_ok c T \<Longrightarrow> T < ts \<Longrightarrow> hist_ok (cas_step (ts, p, base) c) ts"
  by (rule cas_step_cases) (auto intro: hist_ok_later move_pointer_ok)

lemma cas_step_view: "t < ts \<Longrightarrow> view (cas_step (ts, p, base) c) k t = view c k t"
  by (rule cas_step_cases) (auto intro: move_pointer_view)

lemma run_ops_snoc: "run_ops (xs @ [x]) c = cas_step x (run_ops xs c)"
  by (simp add: run_ops_def)

lemma clocked_snoc: "clocked (xs @ [x]) \<longleftrightarrow> clocked xs \<and> (\<forall>y\<in>set xs. fst y < fst x)"
  by (auto simp: clocked_def sorted_wrt_append)

definition fresh_catalog :: "catalog \<Rightarrow> bool" where
  "fresh_catalog c \<longleftrightarrow> ct_ptrs c = (\<lambda>_. None) \<and> ct_hist c = []"

lemma fresh_ok: "fresh_catalog c \<Longrightarrow> hist_ok c 0"
  by (simp add: fresh_catalog_def hist_ok_def live_view_def open_view_def)

lemma run_ops_ok:
  assumes "fresh_catalog c" "clocked xs" "\<forall>x\<in>set xs. 0 < fst x \<and> fst x \<le> T"
  shows "hist_ok (run_ops xs c) T"
  using assms(2,3)
proof (induction xs arbitrary: T rule: rev_induct)
  case Nil
  then show ?case using hist_ok_later [OF fresh_ok [OF assms(1)]] by (simp add: run_ops_def)
next
  case (snoc x xs)
  obtain ts p b where x: "x = (ts, p, b)" by (cases x)
  have "hist_ok (run_ops xs c) (ts - 1)"
    by (rule snoc.IH) (use snoc.prems x in \<open>fastforce simp: clocked_snoc\<close>)+
  then have "hist_ok (run_ops (xs @ [x]) c) ts"
    unfolding run_ops_snoc x by (rule cas_step_ok) (use snoc.prems x in simp)
  then show ?case using snoc.prems x by (auto intro: hist_ok_later)
qed

lemma run_ops_view:
  assumes "fresh_catalog c" "clocked xs" "\<forall>x\<in>set xs. 0 < fst x"
  shows "view (run_ops xs c) k t = live_view (run_ops (takeWhile (\<lambda>x. fst x \<le> t) xs) c) k"
  using assms(2,3)
proof (induction xs rule: rev_induct)
  case Nil
  show ?case using hist_ok_view [OF fresh_ok [OF assms(1)]] by (simp add: run_ops_def)
next
  case (snoc x xs)
  obtain ts p b where x: "x = (ts, p, b)" by (cases x)
  show ?case
  proof (cases "ts \<le> t")
    case True
    then have "takeWhile (\<lambda>x. fst x \<le> t) (xs @ [x]) = xs @ [x]"
      using snoc.prems x by (fastforce simp: clocked_snoc takeWhile_eq_all_conv)
    moreover have "hist_ok (run_ops (xs @ [x]) c) t"
      by (rule run_ops_ok [OF assms(1) snoc.prems(1)]) (use snoc.prems True x in \<open>fastforce simp: clocked_snoc\<close>)
    ultimately show ?thesis by (simp add: hist_ok_view)
  next
    case False
    then have "takeWhile (\<lambda>x. fst x \<le> t) (xs @ [x]) = takeWhile (\<lambda>x. fst x \<le> t) xs"
      using x by (induction xs) auto
    moreover have "view (run_ops (xs @ [x]) c) k t = view (run_ops xs c) k t"
      unfolding run_ops_snoc x using False by (intro cas_step_view) simp
    ultimately show ?thesis using snoc by (simp add: clocked_snoc)
  qed
qed

subsection \<open>Resolution\<close>

definition hit :: "resolved \<Rightarrow> string \<times> nat" where
  "hit r = (rv_hash r, rv_scope r)"

definition pick :: "string \<Rightarrow> string \<Rightarrow> scope_ref \<Rightarrow> (string \<times> string) list \<Rightarrow> (string \<times> nat) option" where
  "pick name caller sc vs = (case filter (\<lambda>(h, v). visible_to v name caller) vs of
     (h, _) # _ \<Rightarrow> Some (h, sc_kind sc) | [] \<Rightarrow> None)"

lemma live_pick: "map_option hit (live_at c name caller sc) = pick name caller sc (live_view c (name, sc))"
  by (auto simp: live_at_def live_view_def pick_def hit_def split: option.splits)

lemma past_pick:
  assumes "\<forall>h\<in>set (ct_hist c). ct_defs c (hr_hash h) \<noteq> None"
  shows "map_option hit (past_at c name caller t sc) = pick name caller sc (view c (name, sc) t)"
proof -
  have "filter (\<lambda>h. same_key (name, sc) h \<and> visible_to (hr_vis h) name caller \<and> holds_at t h \<and>
       ct_defs c (hr_hash h) \<noteq> None) (ct_hist c) =
     filter (\<lambda>h. visible_to (hr_vis h) name caller) (filter (\<lambda>h. same_key (name, sc) h \<and> holds_at t h) (ct_hist c))"
    using assms by (auto intro: filter_cong)
  then show ?thesis
    by (auto simp: past_at_def pick_def view_def filter_map comp_def hit_def split: list.splits)
qed

lemma first_some_map:
  "(\<And>x. map_option f (g x) = map_option f (g' x)) \<Longrightarrow> map_option f (first_some g xs) = map_option f (first_some g' xs)"
proof (induction xs)
  case (Cons x xs)
  then show ?case using Cons.prems [of x] by (cases "g x"; cases "g' x") auto
qed simp

lemma as_of_agrees:
  assumes "fresh_catalog c" "clocked xs" "\<forall>x\<in>set xs. 0 < fst x"
  shows "map_option hit (resolve_as_of (run_ops xs c) name chain caller t) =
    map_option hit (resolve (run_ops (takeWhile (\<lambda>x. fst x \<le> t) xs) c) name chain caller)"
proof -
  obtain T where "\<forall>x\<in>set xs. fst x \<le> T"
    by (metis finite_set finite_imageI finite_nat_set_iff_bounded_le image_eqI)
  then have "hist_ok (run_ops xs c) T" using run_ops_ok [OF assms(1,2)] assms(3) by blast
  then have "\<forall>h\<in>set (ct_hist (run_ops xs c)). ct_defs (run_ops xs c) (hr_hash h) \<noteq> None"
    by (simp add: hist_ok_def)
  from past_pick [OF this] show ?thesis
    unfolding resolve_as_of_def resolve_def
    by (intro first_some_map) (simp add: live_pick run_ops_view [OF assms])
qed

end
