(* ===== verification/Cat_Theorems.thy ===== *)
theory Cat_Theorems
  imports Cat_Laws
begin

section \<open>Time travel over the catalog\<close>

text \<open>C34: reading the catalog as of a past time is a refinement of having looked then: after any run of
  pointer writes at increasing times, \<open>Resolve\<close> with \<open>as_of t\<close> over the history gives, for every name,
  scope chain and caller, the hash and scope the live resolution gave after the writes up to \<open>t\<close>,
  shadowing and visibility included; failed compare-and-sets leave no trace.\<close>

theorem resolve_as_of_refines:
  assumes "fresh_catalog c" "clocked xs" "\<forall>x\<in>set xs. 0 < fst x"
  shows "map_option hit (resolve_as_of (run_ops xs c) name chain caller t) =
    map_option hit (resolve (run_ops (takeWhile (\<lambda>x. fst x \<le> t) xs) c) name chain caller)"
  by (rule as_of_agrees [OF assms])

definition two_defs :: catalog where
  "two_defs = \<lparr>ct_defs = [''h1'' \<mapsto> \<lparr>dr_kind = ''function'', dr_ast = [], dr_deps = [], dr_admission = 1\<rparr>,
     ''h2'' \<mapsto> \<lparr>dr_kind = ''function'', dr_ast = [], dr_deps = [], dr_admission = 2\<rparr>], ct_ptrs = (\<lambda>_. None), ct_hist = []\<rparr>"

definition head_to :: "nat \<Rightarrow> string \<Rightarrow> string \<Rightarrow> pointer" where
  "head_to k i h = \<lparr>pp_name = ''app/f'', pp_scope = \<lparr>sc_kind = k, sc_id = i\<rparr>, pp_kind = ''function'', pp_vis = ''exported'',
     pp_hash = h, pp_admission = 1\<rparr>"

text \<open>Moved from \<open>h1\<close> to \<open>h2\<close> at time 5, a lost race at 6, an organisation's own version at 8.\<close>

definition head_run :: "pointer_op list" where
  "head_run = [(2, head_to 0 [] ''h1'', None), (5, head_to 0 [] ''h2'', Some ''h1''), (6, head_to 0 [] ''h1'', Some ''h1''),
     (8, head_to 2 ''acme'' ''h1'', None)]"

lemma resolve_as_of_refines_witness:
  "map_option hit (resolve_as_of (run_ops head_run two_defs) ''app/f'' \<lparr>ch_user = [], ch_team = [], ch_org = ''acme'', ch_package = []\<rparr> [] 4) =
     Some (''h1'', 0) \<and>
   map_option hit (resolve_as_of (run_ops head_run two_defs) ''app/f'' \<lparr>ch_user = [], ch_team = [], ch_org = ''acme'', ch_package = []\<rparr> [] 7) =
     Some (''h2'', 0) \<and>
   map_option hit (resolve_as_of (run_ops head_run two_defs) ''app/f'' \<lparr>ch_user = [], ch_team = [], ch_org = ''acme'', ch_package = []\<rparr> [] 9) =
     Some (''h1'', 2)"
proof -
  let ?ch = "\<lparr>ch_user = [], ch_team = [], ch_org = ''acme'', ch_package = []\<rparr>"
  have h: "fresh_catalog two_defs" "clocked head_run" "\<forall>x\<in>set head_run. 0 < fst x"
    by (simp_all add: fresh_catalog_def two_defs_def clocked_def head_run_def)
  have w: "map_option hit (resolve (run_ops (takeWhile (\<lambda>x. fst x \<le> 4) head_run) two_defs) ''app/f'' ?ch []) = Some (''h1'', 0)"
    "map_option hit (resolve (run_ops (takeWhile (\<lambda>x. fst x \<le> 7) head_run) two_defs) ''app/f'' ?ch []) = Some (''h2'', 0)"
    "map_option hit (resolve (run_ops (takeWhile (\<lambda>x. fst x \<le> 9) head_run) two_defs) ''app/f'' ?ch []) = Some (''h1'', 2)"
    by code_simp+
  show ?thesis unfolding resolve_as_of_refines [OF h] using w by simp
qed

end
