(* ===== verification/Adm_Capture.thy ===== *)
theory Adm_Capture
  imports Adm_Pii Cfr_Codec
begin

section \<open>V5: the capture walk\<close>

text \<open>
  \<open>internal/admission/flow.go\<close>, second half, and \<open>verifyV5Def\<close> of \<open>verifier.go\<close>: a workflow may not
  refer to a live host resource after an await it was in scope at.  The walk keeps the scope and the
  set \<open>v5_risk\<close> of variables some earlier await has crossed; a variable is named by the number
  \<open>c_id\<close> it was pushed under.
\<close>

record held =
  c_id :: nat
  c_name :: string
  c_nonser :: bool

record v5ctx =
  v5_im :: image
  v5_conns :: "string list"
  v5_hash :: string
  v5_cat :: string

record v5 =
  v5_env :: "held list"
  v5_next :: nat
  v5_risk :: "nat set"
  v5_diags :: "diag list"

definition v5_push :: "string \<Rightarrow> bool \<Rightarrow> v5 \<Rightarrow> v5" where
  "v5_push nm nonser w = w\<lparr>v5_env := \<lparr>c_id = v5_next w, c_name = nm, c_nonser = nonser\<rparr> # v5_env w,
     v5_next := v5_next w + 1\<rparr>"

definition v5_bind :: "node \<Rightarrow> bool \<Rightarrow> v5 \<Rightarrow> v5" where
  "v5_bind pat nonser w = foldl (\<lambda>w b. v5_push (nstr b) nonser w) w (collect_bind_ids pat)"

text \<open>\<open>nonSerInit\<close>.\<close>

definition nonser_init :: "image \<Rightarrow> node \<Rightarrow> bool" where
  "nonser_init im n \<longleftrightarrow> nk n = KCall \<and>
     (case nkids n of callee # _ \<Rightarrow> nk callee = KRef \<and> im_nonserial im (nstr callee) | [] \<Rightarrow> False)"

text \<open>\<open>hostResourceTag\<close>: a tag the frame codec does not encode.\<close>

definition host_resource_tag :: byte where
  "host_resource_tag = 0xFF"

definition capture_diag :: "v5ctx \<Rightarrow> string \<Rightarrow> diag" where
  "capture_diag C about = \<lparr>dg_stage = ''V5'', dg_code = ''CAPTURE_UNSERIALIZABLE'',
     dg_subject = v5_cat C, dg_def = v5_hash C, dg_about = about\<rparr>"

text \<open>\<open>refsAtRisk\<close>.\<close>

fun risk_diags :: "v5ctx \<Rightarrow> held list \<Rightarrow> nat set \<Rightarrow> node \<Rightarrow> diag list" where
  "risk_diags C env risk (Node k s u m ks) =
     (if k = KLocal then
        (case v2_lookup env u of
           Some b \<Rightarrow> if c_nonser b \<and> c_id b \<in> risk \<and> host_resource_tag \<notin> encodable_tags
                    then [capture_diag C (c_name b)] else []
         | None \<Rightarrow> [])
      else []) @ concat (map (risk_diags C env risk) ks)"

definition refs_at_risk :: "v5ctx \<Rightarrow> node \<Rightarrow> v5 \<Rightarrow> v5" where
  "refs_at_risk C n w = w\<lparr>v5_diags := v5_diags w @ risk_diags C (v5_env w) (v5_risk w) n\<rparr>"

text \<open>\<open>snapshotAtRisk\<close>, and its use after an expression that awaits.\<close>

definition snapshot :: "v5 \<Rightarrow> v5" where
  "snapshot w = w\<lparr>v5_risk := v5_risk w \<union> c_id ` {b \<in> set (v5_env w). c_nonser b}\<rparr>"

definition snapshot_if :: "node \<Rightarrow> v5 \<Rightarrow> v5" where
  "snapshot_if n w = (if contains_await n then snapshot w else w)"

definition v5_expr :: "v5ctx \<Rightarrow> node \<Rightarrow> v5 \<Rightarrow> v5" where
  "v5_expr C n w = snapshot_if n (refs_at_risk C n w)"

definition refs_unless_none :: "v5ctx \<Rightarrow> node \<Rightarrow> v5 \<Rightarrow> v5" where
  "refs_unless_none C n w = (if is_none n then w else refs_at_risk C n w)"

definition v5_leave :: "v5 \<Rightarrow> v5 \<Rightarrow> v5" where
  "v5_leave w0 w = w\<lparr>v5_env := v5_env w0\<rparr>"

definition holds_resource :: "v5ctx \<Rightarrow> node \<Rightarrow> node \<Rightarrow> bool" where
  "holds_resource C typ init \<longleftrightarrow> is_type_in (v5_conns C) typ \<or> nonser_init (v5_im C) init"

definition v5_declr :: "v5ctx \<Rightarrow> node \<Rightarrow> v5 \<Rightarrow> v5" where
  "v5_declr C d w =
     (if nk d = KDeclr then
        (case nkids d of
           pat # typ # init # _ \<Rightarrow>
             v5_bind pat (holds_resource C typ init) (v5_expr C init w)
         | _ \<Rightarrow> w)
      else w)"

function (sequential) v5_stmt :: "v5ctx \<Rightarrow> node \<Rightarrow> v5 \<Rightarrow> v5 option"
  and v5_seq :: "v5ctx \<Rightarrow> node list \<Rightarrow> v5 \<Rightarrow> v5 option"
  and v5_clauses :: "v5ctx \<Rightarrow> node list \<Rightarrow> v5 \<Rightarrow> v5 option" where
  "v5_stmt C (Node k s u m ks) w = (case k of
     KVarDecl \<Rightarrow> (case ks of l # _ \<Rightarrow> Some (fold (v5_declr C) (nkids l) w) | [] \<Rightarrow> Some w)
   | KReturn \<Rightarrow> (case ks of
       e # _ \<Rightarrow> Some (if is_none e then w else v5_expr C e w) | [] \<Rightarrow> Some w)
   | KExprStmt \<Rightarrow> (case ks of e # _ \<Rightarrow> Some (v5_expr C e w) | [] \<Rightarrow> Some w)
   | KThrow \<Rightarrow> (case ks of e # _ \<Rightarrow> Some (v5_expr C e w) | [] \<Rightarrow> Some w)
   | KIf \<Rightarrow> (case ks of
       c # t # r \<Rightarrow> do {
         w \<leftarrow> v5_stmt C t (v5_expr C c w);
         (case r of e # _ \<Rightarrow> if is_none e then Some w else v5_stmt C e w | [] \<Rightarrow> Some w) }
     | _ \<Rightarrow> Some w)
   | KBlock \<Rightarrow> (case ks of
       l # _ \<Rightarrow> do { w' \<leftarrow> v5_seq C (nkids l) w; Some (v5_leave w w') } | [] \<Rightarrow> Some w)
   | KFor \<Rightarrow> (case ks of
       i # c # n # b # _ \<Rightarrow> do {
         let w1 = snapshot_if (Node k s u m ks) w;
         w' \<leftarrow> (if is_none i then Some w1
                else if nk i = KVarDecl then v5_stmt C i w1 else Some (refs_at_risk C i w1));
         w' \<leftarrow> v5_stmt C b (refs_unless_none C n (refs_unless_none C c w'));
         Some (v5_leave w w') }
     | _ \<Rightarrow> None)
   | KForOf \<Rightarrow> (case ks of
       d # it # b # _ \<Rightarrow> do {
         pat \<leftarrow> loop_pattern d;
         w' \<leftarrow> v5_stmt C b (v5_bind pat False
           (refs_at_risk C it (snapshot_if (Node k s u m ks) w)));
         Some (v5_leave w w') }
     | _ \<Rightarrow> None)
   | KWhile \<Rightarrow> (case ks of
       c # b # _ \<Rightarrow> v5_stmt C b (refs_at_risk C c (snapshot_if (Node k s u m ks) w)) | _ \<Rightarrow> None)
   | KDoWhile \<Rightarrow> (case ks of
       b # c # _ \<Rightarrow> do {
         w \<leftarrow> v5_stmt C b (snapshot_if (Node k s u m ks) w);
         Some (refs_at_risk C c w) }
     | _ \<Rightarrow> None)
   | KSwitch \<Rightarrow> (case ks of
       d # l # _ \<Rightarrow> v5_clauses C (nkids l) (v5_expr C d w) | _ \<Rightarrow> None)
   | KTry \<Rightarrow> (case ks of
       b # c # f # _ \<Rightarrow> do {
         w \<leftarrow> v5_stmt C b w;
         w \<leftarrow> (if is_none c then Some w
               else (case nkids c of
                 p # h # _ \<Rightarrow> do {
                   w' \<leftarrow> v5_stmt C h (if flag0 c then v5_bind p False w else w);
                   Some (v5_leave w w') }
               | _ \<Rightarrow> None));
         if is_none f then Some w else v5_stmt C f w }
     | _ \<Rightarrow> None)
   | _ \<Rightarrow> Some w)"
| "v5_seq C [] w = Some w"
| "v5_seq C (st # sts) w = do { w \<leftarrow> v5_stmt C st w; v5_seq C sts w }"
| "v5_clauses C [] w = Some w"
| "v5_clauses C (cl # cls) w =
     (case nkids cl of
        t # b # _ \<Rightarrow> do {
          let w = (if flag0 cl then w else refs_unless_none C t w);
          w' \<leftarrow> v5_seq C (nkids b) w;
          v5_clauses C cls (v5_leave w w') }
      | _ \<Rightarrow> None)"
  by pat_completeness auto

termination
  by (relation "measure (\<lambda>x. case x of
      Inl (_, n, _) \<Rightarrow> size n
    | Inr (Inl (_, ns, _)) \<Rightarrow> size_list size ns
    | Inr (Inr (_, ns, _)) \<Rightarrow> size_list size ns)")
    (auto dest!: size_nkids_Cons intro!: size_list_nkids_le)

text \<open>\<open>verifyV5Def\<close> and \<open>verifyV5\<close>.  The parameters of the function are not pushed.\<close>

definition v5_ctx :: "image \<Rightarrow> lowered \<Rightarrow> v5ctx" where
  "v5_ctx im d = \<lparr>v5_im = im, v5_conns = conn_type_hashes d, v5_hash = ld_hash d,
     v5_cat = ld_catalog d\<rparr>"

definition v5_start :: v5 where
  "v5_start = \<lparr>v5_env = [], v5_next = 0, v5_risk = {}, v5_diags = []\<rparr>"

definition verify_v5_def :: "image \<Rightarrow> lowered \<Rightarrow> diag list option" where
  "verify_v5_def im d =
     (case func_parts (ld_kind d) (named_body d) of
        None \<Rightarrow> Some []
      | Some (_, _, body) \<Rightarrow>
          (case (nk body, nkids body) of
             (KBlock, l # _) \<Rightarrow> map_option v5_diags (v5_seq (v5_ctx im d) (nkids l) v5_start)
           | _ \<Rightarrow> Some []))"

fun verify_v5 :: "image \<Rightarrow> (string \<Rightarrow> string) \<Rightarrow> lowered list \<Rightarrow> diag list option" where
  "verify_v5 im tier [] = Some []"
| "verify_v5 im tier (d # ds) = do {
     x \<leftarrow> (if tier (ld_catalog d) = ''workflow'' then verify_v5_def im d else Some []);
     y \<leftarrow> verify_v5 im tier ds;
     Some (x @ y) }"

end
