(* ===== verification/Adm_Gate.thy ===== *)
theory Adm_Gate
  imports Cat_Store Adm_Pii Adm_Capture Adm_Schema Adm_Component
begin

section \<open>The gate's tables, scope policy, seeders and delta\<close>

text \<open>
  The state an admission reads and writes, with the parts of \<open>internal/admission\<close> around the pipeline:
  \<open>verdict.go\<close>, the scope policy and approval tokens of \<open>agentplane.go\<close>, seeders and blast radius of
  \<open>delta.go\<close>.  Stage timings are left out of a verdict, times are natural numbers.
\<close>

subsection \<open>Verdicts\<close>

record seeder =
  se_source :: string
  se_ref :: string
  se_scope :: scope_ref
  se_seeded_by :: string

record delta =
  dl_requested :: "string list"
  dl_granted :: "string list"
  dl_caps_added :: "string list"
  dl_pii_touched :: "string list"
  dl_pii_added :: "string list"
  dl_statements :: "string list"
  dl_additive :: bool
  dl_ddl_added :: "string list"

definition no_delta :: delta where
  "no_delta = \<lparr>dl_requested = [], dl_granted = [], dl_caps_added = [], dl_pii_touched = [], dl_pii_added = [],
     dl_statements = [], dl_additive = False, dl_ddl_added = []\<rparr>"

record verdict =
  vd_outcome :: string
  vd_hashes :: "(string \<times> string) list"
  vd_stages :: "(string \<times> string) list"
  vd_diags :: "diag list"
  vd_refusal :: string
  vd_admission :: nat
  vd_retry_after :: "(nat \<times> string) option"
  vd_delta :: delta
  vd_approved_by :: string
  vd_dry :: bool
  vd_seeders :: "seeder list"

definition non_green :: "string \<Rightarrow> bool" where
  "non_green outc \<longleftrightarrow> outc \<noteq> ''admitted'' \<and> outc \<noteq> ''already-admitted''"

definition http_status :: "string \<Rightarrow> nat" where
  "http_status outc =
     (if outc = ''admitted'' \<or> outc = ''already-admitted'' then 200 else if outc = ''stale-base'' then 409
      else if outc = ''rejected'' then 422 else if outc = ''busy'' \<or> outc = ''budget-exhausted'' then 429 else 500)"

subsection \<open>Tables\<close>

record token_row =
  tk_bound :: "string list"
  tk_by :: string
  tk_for :: string
  tk_scope :: string
  tk_expires :: nat
  tk_consumed :: "nat option"

record adm_row =
  ad_subject :: string
  ad_via :: string
  ad_hashes :: "string list"
  ad_report :: "verdict option"
  ad_sql :: string

record refusal_row =
  rf_id :: string
  rf_principal :: string
  rf_scope :: string
  rf_hashes :: "string list"
  rf_outcome :: string
  rf_verdict :: verdict

text \<open>\<open>g_next\<close> is the sequence behind \<open>admission.id\<close>, which a rollback does not wind back; an artifact
  row is its admission, definition, and pass.\<close>

record gate_db =
  g_cat :: catalog
  g_derived :: derived_state
  g_artifacts :: "(nat \<times> string \<times> string) list"
  g_admissions :: "nat \<Rightarrow> adm_row option"
  g_next :: nat
  g_refusals :: "refusal_row list"
  g_tokens :: "string \<Rightarrow> token_row option"
  g_grants :: "string \<Rightarrow> string set"

subsection \<open>Scope policy\<close>

text \<open>\<open>scopeKey\<close>, \<open>isProductScope\<close>, \<open>agentOverlayScope\<close>, \<open>sortedHashes\<close>, \<open>sameStringSet\<close>.\<close>

definition scope_key :: "scope_ref \<Rightarrow> string" where
  "scope_key s = int_str (int (sc_kind s)) @ '':'' @ sc_id s"

definition is_product_scope :: "scope_ref \<Rightarrow> bool" where
  "is_product_scope s \<longleftrightarrow> sc_kind s = 0 \<and> sc_id s = []"

definition agent_overlay_scope :: "submitter \<Rightarrow> scope_ref" where
  "agent_overlay_scope a = \<lparr>sc_kind = 2, sc_id = ch_org (sb_chain a)\<rparr>"

definition sorted_hashes :: "lowered list \<Rightarrow> string list" where
  "sorted_hashes ds = sort (map ld_hash ds)"

definition same_string_set :: "string list \<Rightarrow> string list \<Rightarrow> bool" where
  "same_string_set a b \<longleftrightarrow> sort a = sort b"

definition policy_diag :: "string \<Rightarrow> string \<Rightarrow> string \<Rightarrow> diag" where
  "policy_diag code subject about = \<lparr>dg_stage = ''V1'', dg_code = code, dg_subject = subject, dg_def = [], dg_about = about\<rparr>"

text \<open>\<open>validateApprovalToken\<close>: a diagnostic, or the minter.\<close>

definition validate_token ::
  "gate_db \<Rightarrow> nat \<Rightarrow> string \<Rightarrow> submitter \<Rightarrow> scope_ref \<Rightarrow> string list \<Rightarrow> diag + string" where
  "validate_token db now tok a sc hashes =
     (let bad = (\<lambda>why. Inl (policy_diag ''APPROVAL_INVALID'' (subject_of a) why)) in
      case g_tokens db tok of
        None \<Rightarrow> bad ''no such token''
      | Some r \<Rightarrow>
          if tk_expires r \<le> now then bad ''expired''
          else if tk_consumed r \<noteq> None then bad ''consumed''
          else if tk_for r \<noteq> subject_of a then bad ''principal''
          else if tk_scope r \<noteq> scope_key sc then bad ''scope''
          else if \<not> same_string_set (tk_bound r) hashes then bad ''drift''
          else Inr (tk_by r))"

text \<open>\<open>checkScopePolicy\<close>: a refusal, or the token to consume with its minter.\<close>

definition check_scope_policy ::
  "gate_db \<Rightarrow> nat \<Rightarrow> patch \<Rightarrow> submitter \<Rightarrow> scope_ref \<Rightarrow> lowered list \<Rightarrow> diag + (string \<times> string) option" where
  "check_scope_policy db now p a sc ds =
     (let own = agent_overlay_scope a; escalation = Inl (policy_diag ''CAP_UNGRANTED'' (subject_of a) (scope_key sc)) in
      if sb_kind a \<noteq> ''agent'' then Inr None
      else if sc_id own \<noteq> [] \<and> sc_kind sc = sc_kind own \<and> sc_id sc = sc_id own then Inr None
      else if is_product_scope sc then
        (if pt_token p = [] then escalation
         else (case validate_token db now (pt_token p) a sc (sorted_hashes ds) of
            Inl d \<Rightarrow> Inl d | Inr minter \<Rightarrow> Inr (Some (pt_token p, minter))))
      else escalation)"

text \<open>\<open>consumeApprovalToken\<close> and \<open>MintApprovalToken\<close>, whose minter's grant \<open>HoldsProductWrite\<close> checks.\<close>

definition consume_token :: "string \<Rightarrow> nat \<Rightarrow> gate_db \<Rightarrow> gate_db option" where
  "consume_token tok aid db = (case g_tokens db tok of
      Some r \<Rightarrow> if tk_consumed r = None
        then Some (db\<lparr>g_tokens := (g_tokens db)(tok \<mapsto> r\<lparr>tk_consumed := Some aid\<rparr>)\<rparr>) else None
    | None \<Rightarrow> None)"

definition mint_token :: "string \<Rightarrow> string \<Rightarrow> string \<Rightarrow> scope_ref \<Rightarrow> string list \<Rightarrow> nat \<Rightarrow> gate_db \<Rightarrow> gate_db" where
  "mint_token tok minter agent sc hashes until db = db\<lparr>g_tokens := (g_tokens db)(tok \<mapsto>
     \<lparr>tk_bound = sort hashes, tk_by = minter, tk_for = agent, tk_scope = scope_key sc, tk_expires = until,
      tk_consumed = None\<rparr>)\<rparr>"

definition holds_product_write :: "gate_db \<Rightarrow> string \<Rightarrow> bool" where
  "holds_product_write db subject \<longleftrightarrow> ''product.write'' \<in> g_grants db subject"

subsection \<open>Seeders\<close>

definition seeder_in_chain :: "scope_ref \<Rightarrow> scope_chain \<Rightarrow> bool" where
  "seeder_in_chain s c \<longleftrightarrow> sc_kind s = 0 \<or>
     list_ex (\<lambda>i. i \<noteq> [] \<and> i = sc_id s) [ch_user c, ch_team c, ch_org c, ch_package c]"

definition seeder_of :: "read_entry \<Rightarrow> seeder" where
  "seeder_of e = \<lparr>se_source = re_kind e, se_ref = re_ref e, se_scope = re_scope e,
     se_seeded_by = (if re_kind e = ''external'' \<or> re_by e = [] then ''unattributed'' else re_by e)\<rparr>"

definition validate_seeders :: "patch \<Rightarrow> submitter \<Rightarrow> diag + seeder list" where
  "validate_seeders p a =
     (if sb_via a \<noteq> ''mcp'' then Inr []
      else (case find (\<lambda>e. \<not> seeder_in_chain (re_scope e) (sb_chain a)) (pt_reads p) of
         Some e \<Rightarrow> Inl \<lparr>dg_stage = ''2a'', dg_code = ''SEEDER_OUT_OF_CHAIN'', dg_subject = re_ref e, dg_def = [], dg_about = []\<rparr>
       | None \<Rightarrow> Inr (map seeder_of (pt_reads p))))"

subsection \<open>Blast radius\<close>

text \<open>\<open>defChanged\<close>: is the definition new or moved, and the base head.\<close>

definition head_of :: "catalog \<Rightarrow> scope_ref \<Rightarrow> string \<Rightarrow> string option" where
  "head_of c sc name = map_option pr_hash (ct_ptrs c (name, sc))"

definition def_changed :: "catalog \<Rightarrow> scope_ref \<Rightarrow> lowered \<Rightarrow> bool" where
  "def_changed c sc d \<longleftrightarrow> head_of c sc (ld_catalog d) \<noteq> Some (ld_hash d)"

text \<open>\<open>baseNamedCaps\<close>: what the base head's stored dependencies reach.\<close>

definition base_named_caps :: "image \<Rightarrow> catalog \<Rightarrow> scope_ref \<Rightarrow> lowered \<Rightarrow> string list" where
  "base_named_caps im c sc d = (case head_of c sc (ld_catalog d) of
      None \<Rightarrow> []
    | Some h \<Rightarrow> (case ct_defs c h of Some r \<Rightarrow> List.map_filter (im_cap im) (dr_deps r) | None \<Rightarrow> []))"

text \<open>\<open>computeDelta\<close>.\<close>

definition compute_delta ::
  "image \<Rightarrow> catalog \<Rightarrow> scope_ref \<Rightarrow> patch \<Rightarrow> string set \<Rightarrow> derivation_plan \<Rightarrow> string list \<Rightarrow> lowered list \<Rightarrow> delta" where
  "compute_delta im c sc p grants pl touched ds =
     (let requested = concat (map (\<lambda>d. set_of (declared_for p (ld_catalog d))) ds);
          changed = filter (def_changed c sc) ds;
          added = concat (map (\<lambda>d. filter (\<lambda>x. x \<notin> set (base_named_caps im c sc d)) (named_capabilities im d)) changed);
          additive = map ddl_text (plan_ddl (pl_resources pl))
      in \<lparr>dl_requested = sorted_keys requested, dl_granted = filter (\<lambda>x. x \<in> grants) (sorted_keys requested),
          dl_caps_added = sorted_keys added, dl_pii_touched = sorted_keys touched,
          dl_pii_added = (if changed = [] then [] else sorted_keys touched),
          dl_statements = sort (additive @ concat (map rp_destructive (pl_resources pl))),
          dl_additive = list_all (\<lambda>rp. rp_destructive rp = []) (pl_resources pl),
          dl_ddl_added = sort additive\<rparr>)"

end
