(* ===== verification/Adm_Pipeline.thy ===== *)
theory Adm_Pipeline
  imports Adm_Gate
begin

section \<open>The admission pipeline\<close>

text \<open>
  \<open>internal/admission/pipeline.go\<close> and the pre-BEGIN door of \<open>backpressure.go\<close>.  One attempt runs on a
  snapshot \<open>db0\<close> of the tables; its statements change \<open>db\<close>, and a rollback returns to \<open>db0\<close> but for the
  sequence of admission ids.  Lowering (\<open>internal/lower\<close>), the type-graph budget and the typechecker
  (\<open>internal/tsx\<close>), the random refusal id and the clock are fields of \<open>env\<close>; \<open>e_conflict i point\<close> says
  that attempt \<open>i\<close> meets a serialization failure at a point, which SERIALIZABLE allows at any statement.
  A fault is an internal error returned to the caller, a panic of the V2 or V5 walk included.
\<close>

subsection \<open>Lowering a patch\<close>

datatype check_result = CheckOk | CheckErrors "diag list" | CheckTimeout | CheckFault

record env =
  e_image :: image
  e_now :: nat
  e_clock :: "nat \<Rightarrow> nat"
  e_uuid :: string
  e_budget :: "module_src list \<Rightarrow> diag list"
  e_lower :: "(string \<Rightarrow> string option) \<Rightarrow> module_src \<Rightarrow> diag list + lowered list"
  e_check :: "patch \<Rightarrow> lowered list \<Rightarrow> catalog \<Rightarrow> check_result"
  e_conflict :: "nat \<Rightarrow> string \<Rightarrow> bool"

text \<open>\<open>qualifiedToCatalogName\<close>: the last dot becomes a slash.\<close>

definition qualified_to_catalog_name :: "string \<Rightarrow> string" where
  "qualified_to_catalog_name q = (if CHR ''.'' \<in> set q
     then (let r = List.rev q in
       List.rev (drop 1 (dropWhile (\<lambda>c. c \<noteq> CHR ''.'') r)) @ ''/'' @ List.rev (takeWhile (\<lambda>c. c \<noteq> CHR ''.'') r))
     else q)"

definition no_chain :: scope_chain where
  "no_chain = \<lparr>ch_user = [], ch_team = [], ch_org = [], ch_package = []\<rparr>"

text \<open>The resolver of \<open>lowerPatch\<close>: the modules lowered so far, then the catalog.\<close>

definition patch_resolver :: "catalog \<Rightarrow> (string \<Rightarrow> string option) \<Rightarrow> string \<Rightarrow> string option" where
  "patch_resolver c inp q = (let name = qualified_to_catalog_name q in
     case inp name of Some h \<Rightarrow> Some h
     | None \<Rightarrow> map_option rv_hash (resolve c name no_chain []))"

definition catalogued :: "module_src \<Rightarrow> lowered \<Rightarrow> lowered" where
  "catalogued m d = d\<lparr>ld_catalog := md_name m @ ''/'' @ ld_name d\<rparr>"

fun lower_modules :: "env \<Rightarrow> catalog \<Rightarrow> module_src list \<Rightarrow> (string \<Rightarrow> string option) \<Rightarrow> diag list + lowered list" where
  "lower_modules E c [] inp = Inr []"
| "lower_modules E c (m # ms) inp =
     (case e_lower E (patch_resolver c inp) m of
        Inl ds \<Rightarrow> Inl ds
      | Inr ds0 \<Rightarrow>
          let ds = map (catalogued m) ds0 in
          case lower_modules E c ms (fold (\<lambda>d f. f(ld_catalog d \<mapsto> ld_hash d)) ds inp) of
            Inl e \<Rightarrow> Inl e | Inr rest \<Rightarrow> Inr (ds @ rest))"

text \<open>\<open>depInsertOrder\<close>: depth-first from each definition in turn; the fuel bounds the depth of the
  recursion by the number of definitions, since every nested visit turns a white definition gray.\<close>

datatype colour = White | Gray | Black

definition index_of :: "lowered list \<Rightarrow> string \<Rightarrow> nat option" where
  "index_of ds h = (case filter (\<lambda>i. ld_hash (ds ! i) = h) (List.rev [0..<length ds]) of i # _ \<Rightarrow> Some i | [] \<Rightarrow> None)"

definition dep_children :: "lowered list \<Rightarrow> nat \<Rightarrow> nat list" where
  "dep_children ds i = filter (\<lambda>j. j \<noteq> i)
     (List.map_filter (\<lambda>p. index_of ds (dp_hash p)) (sort_key dp_hash (ld_deps (ds ! i))))"

type_synonym dfs = "(nat \<Rightarrow> colour) \<times> nat list \<times> bool"

fun visit :: "nat \<Rightarrow> lowered list \<Rightarrow> nat \<Rightarrow> dfs \<Rightarrow> dfs" where
  "visit 0 ds i (col, out, ok) = (col, out, False)"
| "visit (Suc n) ds i (col, out, ok) =
     (case col i of
        Black \<Rightarrow> (col, out, ok)
      | Gray \<Rightarrow> (col, out, False)
      | White \<Rightarrow> (case fold (visit n ds) (dep_children ds i) (col(i := Gray), out, ok) of
          (col', out', ok') \<Rightarrow> (col'(i := Black), out' @ [i], ok')))"

definition dep_insert_order :: "lowered list \<Rightarrow> lowered list" where
  "dep_insert_order ds =
     (case fold (visit (length ds + 1) ds) [0..<length ds] (\<lambda>_. White, [], True) of
        (_, out, ok) \<Rightarrow> if \<not> ok \<or> length out \<noteq> length ds then ds else map (\<lambda>i. ds ! i) out)"

definition lower_patch :: "env \<Rightarrow> catalog \<Rightarrow> patch \<Rightarrow> diag list + lowered list" where
  "lower_patch E c p = (case lower_modules E c (pt_modules p) (\<lambda>_. None) of
     Inl ds \<Rightarrow> Inl ds | Inr ds \<Rightarrow> Inr (dep_insert_order ds))"

subsection \<open>Writes\<close>

definition catalog_kind :: "defkind \<Rightarrow> string" where
  "catalog_kind k = (if k = DefType \<or> k = DefInterface then ''type'' else ''function'')"

definition visibility_of :: "bool \<Rightarrow> string" where
  "visibility_of exported = (if exported then ''exported'' else ''private'')"

definition dep_hashes :: "dep list \<Rightarrow> string list" where
  "dep_hashes ds = sorted_keys (map dp_hash ds)"

definition insert_admission :: "submitter \<Rightarrow> string list \<Rightarrow> gate_db \<Rightarrow> nat \<times> gate_db" where
  "insert_admission a hashes db = (g_next db, db\<lparr>g_next := g_next db + 1,
     g_admissions := (g_admissions db)(g_next db \<mapsto> \<lparr>ad_subject = subject_of a, ad_via = sb_via a,
       ad_hashes = hashes, ad_report = None, ad_sql = []\<rparr>)\<rparr>)"

definition def_row_of :: "nat \<Rightarrow> lowered \<Rightarrow> def_row" where
  "def_row_of aid d = \<lparr>dr_kind = catalog_kind (ld_kind d), dr_ast = encode_node (ld_body d),
     dr_deps = dep_hashes (ld_deps d), dr_admission = aid\<rparr>"

fun insert_definitions :: "nat \<Rightarrow> lowered list \<Rightarrow> catalog \<Rightarrow> sql_error + catalog" where
  "insert_definitions aid [] c = Inr c"
| "insert_definitions aid (d # ds) c =
     (case insert_definition (ld_hash d) (def_row_of aid d) c of
        Inl e \<Rightarrow> Inl e | Inr (_, c') \<Rightarrow> insert_definitions aid ds c')"

definition is_noop :: "catalog \<Rightarrow> scope_ref \<Rightarrow> lowered list \<Rightarrow> bool" where
  "is_noop c sc ds \<longleftrightarrow> list_all (\<lambda>d. head_of c sc (ld_catalog d) = Some (ld_hash d)) ds"

definition record_report :: "nat \<Rightarrow> string \<Rightarrow> verdict \<Rightarrow> gate_db \<Rightarrow> gate_db" where
  "record_report aid sql v db = db\<lparr>g_admissions := (\<lambda>i. if i = aid
     then map_option (\<lambda>r. r\<lparr>ad_report := Some v, ad_sql := sql\<rparr>) (g_admissions db i) else g_admissions db i)\<rparr>"

text \<open>\<open>deriveResources\<close>: the plan, its recorded shapes and artifacts, those of contracts and components.\<close>

definition patch_names :: "lowered list \<Rightarrow> string \<Rightarrow> string option" where
  "patch_names ds = fold (\<lambda>d f. f(ld_hash d \<mapsto> ld_catalog d)) ds (\<lambda>_. None)"

definition patch_plan :: "image \<Rightarrow> derived_state \<Rightarrow> scope_ref \<Rightarrow> string \<Rightarrow> lowered list \<Rightarrow> derivation_plan" where
  "patch_plan im st sc intent ds = build_plan (List.map_filter (parse_resource im (patch_names ds)) ds)
     (List.map_filter (parse_policy im) ds) (\<lambda>n. st_shapes st (n, sc)) intent"

definition plan_artifacts :: "derivation_plan \<Rightarrow> (string \<times> string) list" where
  "plan_artifacts pl = concat (map (\<lambda>rp. map (Pair (rs_name (rp_decl rp)))
     (rp_passes rp @ (if rp_retired rp = [] then [] else [''retire'']))) (pl_resources pl))"

definition extra_artifacts :: "image \<Rightarrow> lowered list \<Rightarrow> (string \<times> string) list" where
  "extra_artifacts im ds =
     map (\<lambda>d. (ld_catalog d, ''validator'')) (filter (\<lambda>d. find_contract_clauses im d \<noteq> []) ds) @
     map (\<lambda>d. (ld_catalog d, ''component_template'')) (filter (\<lambda>d. lower_component im d \<noteq> None) ds)"

definition write_derived :: "nat \<Rightarrow> scope_ref \<Rightarrow> image \<Rightarrow> derivation_plan \<Rightarrow> lowered list \<Rightarrow> gate_db \<Rightarrow> gate_db" where
  "write_derived aid sc im pl ds db = db\<lparr>
     g_derived := (g_derived db)\<lparr>st_shapes := fold (record_shape sc) (pl_resources pl) (st_shapes (g_derived db))\<rparr>,
     g_artifacts := g_artifacts db @ map (Pair aid) (plan_artifacts pl @ extra_artifacts im ds)\<rparr>"

text \<open>Step 7: one compare-and-set per declaration; \<open>None\<close> in the second place is success, a name is the
  pointer that did not move.\<close>

definition pointer_for :: "nat \<Rightarrow> scope_ref \<Rightarrow> lowered \<Rightarrow> pointer" where
  "pointer_for aid sc d = \<lparr>pp_name = ld_catalog d, pp_scope = sc, pp_kind = catalog_kind (ld_kind d),
     pp_vis = visibility_of (ld_exported d), pp_hash = ld_hash d, pp_admission = aid\<rparr>"

definition base_for :: "patch \<Rightarrow> lowered \<Rightarrow> string option" where
  "base_for p d = (case pt_base p (ld_catalog d) of Some b \<Rightarrow> if b = [] then None else Some b | None \<Rightarrow> None)"

fun move_pointers :: "(nat \<Rightarrow> nat) \<Rightarrow> nat \<Rightarrow> scope_ref \<Rightarrow> patch \<Rightarrow> lowered list \<Rightarrow> catalog \<Rightarrow> sql_error + string option \<times> catalog" where
  "move_pointers clk aid sc p [] c = Inr (None, c)"
| "move_pointers clk aid sc p (d # ds) c =
     (case upsert_pointer_cas (clk 0) (pointer_for aid sc d) (base_for p d) c of
        Inl e \<Rightarrow> Inl e
      | Inr (False, _) \<Rightarrow> Inr (Some (ld_catalog d), c)
      | Inr (True, c') \<Rightarrow> move_pointers (\<lambda>i. clk (i + 1)) aid sc p ds c')"

subsection \<open>Ends of an attempt\<close>

datatype attempt = Settled verdict gate_db | Again gate_db | Fault gate_db

definition rolled_back :: "gate_db \<Rightarrow> gate_db \<Rightarrow> gate_db" where
  "rolled_back db0 db = db0\<lparr>g_next := g_next db\<rparr>"

text \<open>\<open>finishRefusal\<close>: the ledger row holds the verdict, refusal id included.\<close>

definition refusal_of :: "submitter \<Rightarrow> patch \<Rightarrow> verdict \<Rightarrow> refusal_row" where
  "refusal_of a p v = \<lparr>rf_id = vd_refusal v, rf_principal = subject_of a, rf_scope = scope_key (pt_scope p),
     rf_hashes = sort (map snd (vd_hashes v)), rf_outcome = vd_outcome v, rf_verdict = v\<rparr>"

definition finish_refusal :: "env \<Rightarrow> submitter \<Rightarrow> patch \<Rightarrow> verdict \<Rightarrow> gate_db \<Rightarrow> verdict \<times> gate_db" where
  "finish_refusal E a p v0 db = (let v = v0\<lparr>vd_refusal := e_uuid E\<rparr> in
     (v, if non_green (vd_outcome v) then db\<lparr>g_refusals := g_refusals db @ [refusal_of a p v]\<rparr> else db))"

record job =
  j_env :: env
  j_patch :: patch
  j_auth :: submitter
  j_commit :: bool
  j_try :: nat
  j_db0 :: gate_db

definition passed :: "string \<Rightarrow> verdict \<Rightarrow> verdict" where
  "passed stage v = v\<lparr>vd_stages := vd_stages v @ [(stage, ''pass'')]\<rparr>"

definition failed :: "string \<Rightarrow> verdict \<Rightarrow> verdict" where
  "failed stage v = v\<lparr>vd_stages := vd_stages v @ [(stage, ''fail'')]\<rparr>"

definition refuse :: "job \<Rightarrow> string \<Rightarrow> string \<Rightarrow> diag list \<Rightarrow> verdict \<Rightarrow> gate_db \<Rightarrow> attempt" where
  "refuse J outc stage ds v db =
     (case finish_refusal (j_env J) (j_auth J) (j_patch J)
         ((failed stage v)\<lparr>vd_outcome := outc, vd_diags := ds\<rparr>) (rolled_back (j_db0 J) db) of
        (v', db') \<Rightarrow> Settled v' db')"

text \<open>\<open>reject\<close> and \<open>staleBase\<close>.\<close>

definition reject :: "job \<Rightarrow> string \<Rightarrow> diag list \<Rightarrow> verdict \<Rightarrow> gate_db \<Rightarrow> attempt" where
  "reject J = refuse J ''rejected''"

definition stale_base :: "job \<Rightarrow> string \<Rightarrow> verdict \<Rightarrow> gate_db \<Rightarrow> attempt" where
  "stale_base J name = refuse J ''stale-base'' ''cas''
     [\<lparr>dg_stage = ''cas'', dg_code = ''STALE_BASE'', dg_subject = name, dg_def = [], dg_about = []\<rparr>]"

definition again :: "job \<Rightarrow> gate_db \<Rightarrow> attempt" where
  "again J db = Again (rolled_back (j_db0 J) db)"

definition fault :: "job \<Rightarrow> gate_db \<Rightarrow> attempt" where
  "fault J db = Fault (rolled_back (j_db0 J) db)"

definition conflict :: "job \<Rightarrow> string \<Rightarrow> bool" where
  "conflict J point = e_conflict (j_env J) (j_try J) point"

text \<open>\<open>isSerialization\<close> on the errors the catalog functions raise.\<close>

definition sql_stop :: "job \<Rightarrow> sql_error \<Rightarrow> gate_db \<Rightarrow> attempt" where
  "sql_stop J e db = (if e = Exclusion then again J db else fault J db)"

text \<open>\<open>finalizeTxn\<close>.\<close>

definition finalize_txn :: "job \<Rightarrow> verdict \<Rightarrow> gate_db \<Rightarrow> attempt" where
  "finalize_txn J v db =
     (if \<not> j_commit J then Settled (v\<lparr>vd_admission := 0\<rparr>) (rolled_back (j_db0 J) db)
      else if conflict J ''commit'' then again J db
      else Settled v db)"

subsection \<open>One attempt\<close>

text \<open>\<open>admitOnce\<close>, its stages in reverse: consuming the token and recording the report; the pointer
  moves; delta and migration; derivation and the verifier suite; the typecheck; the inserts; the
  admission row and the no-op exit; the checks before any row is written.\<close>

definition stage_record :: "job \<Rightarrow> nat \<Rightarrow> string \<Rightarrow> (string \<times> string) option \<Rightarrow> verdict \<Rightarrow> gate_db \<Rightarrow> attempt" where
  "stage_record J aid sql tok v0 db0 =
     (let go = (\<lambda>db. let v = (passed ''approval'' v0)\<lparr>vd_outcome := ''admitted'', vd_admission := aid, vd_diags := []\<rparr> in
        if conflict J ''report'' then again J db else finalize_txn J v (record_report aid sql v db))
      in case tok of
        Some (t, _) \<Rightarrow>
          if \<not> j_commit J then go db0
          else if conflict J ''approval'' then again J db0
          else (case consume_token t aid db0 of
             Some db1 \<Rightarrow> go db1
           | None \<Rightarrow> reject J ''approval'' [policy_diag ''APPROVAL_REPLAY'' [] []] v0 db0)
      | None \<Rightarrow> go db0)"

definition stage_cas :: "job \<Rightarrow> lowered list \<Rightarrow> nat \<Rightarrow> string \<Rightarrow> (string \<times> string) option \<Rightarrow> verdict \<Rightarrow> gate_db \<Rightarrow> attempt" where
  "stage_cas J ds aid sql tok v db =
     (if conflict J ''cas'' then again J db
      else (case move_pointers (e_clock (j_env J)) aid (pt_scope (j_patch J)) (j_patch J) ds (g_cat db) of
         Inl e \<Rightarrow> sql_stop J e db
       | Inr (Some name, _) \<Rightarrow> stale_base J name v db
       | Inr (None, c) \<Rightarrow> stage_record J aid sql tok (passed ''cas'' v) (db\<lparr>g_cat := c\<rparr>)))"

definition stage_migrate :: "job \<Rightarrow> lowered list \<Rightarrow> nat \<Rightarrow> (string \<times> string) option \<Rightarrow> derivation_plan \<Rightarrow> verdict \<Rightarrow> gate_db \<Rightarrow> attempt" where
  "stage_migrate J ds aid tok pl v db =
     (let sc = pt_scope (j_patch J); im = e_image (j_env J) in
      case collect_pii_touched im ds of
        None \<Rightarrow> fault J db
      | Some touched \<Rightarrow>
          if conflict J ''delta'' then again J db
          else let v = v\<lparr>vd_delta := compute_delta im (g_cat db) sc (j_patch J)
                 (g_grants (j_db0 J) (subject_of (j_auth J))) pl (sorted_list_of_set touched) ds\<rparr> in
            if pl_sql pl \<noteq> [] \<and> conflict J ''migrate'' then again J db
            else (case apply_ddls (plan_ddl (pl_resources pl)) (st_schema (g_derived db)) of
               None \<Rightarrow> fault J db
             | Some S \<Rightarrow> stage_cas J ds aid (pl_sql pl) tok (passed ''migrate'' v)
                 (db\<lparr>g_derived := (g_derived db)\<lparr>st_schema := S\<rparr>\<rparr>)))"

fun run_verifiers :: "job \<Rightarrow> (string \<times> diag list option) list \<Rightarrow> verdict \<Rightarrow> gate_db \<Rightarrow> (verdict \<Rightarrow> attempt) \<Rightarrow> attempt" where
  "run_verifiers J [] v db k = k v"
| "run_verifiers J ((name, None) # vs) v db k = fault J db"
| "run_verifiers J ((name, Some ds) # vs) v db k =
     (if ds \<noteq> [] then reject J name ds v db else run_verifiers J vs (passed name v) db k)"

definition verifiers :: "job \<Rightarrow> lowered list \<Rightarrow> derivation_plan \<Rightarrow> (string \<times> diag list option) list" where
  "verifiers J ds pl = (let im = e_image (j_env J); p = j_patch J in [
     (''V1'', Some (verify_v1 ds p (g_grants (j_db0 J) (subject_of (j_auth J))) im)),
     (''V2'', verify_v2 im ds), (''V3'', Some (verify_v3 pl)), (''V4'', Some (verify_v4 im ds)),
     (''V5'', verify_v5 im (pt_tier p) ds), (''V6'', Some (verify_v6 pl))])"

definition stage_derive :: "job \<Rightarrow> lowered list \<Rightarrow> nat \<Rightarrow> (string \<times> string) option \<Rightarrow> verdict \<Rightarrow> gate_db \<Rightarrow> attempt" where
  "stage_derive J ds aid tok v db =
     (let sc = pt_scope (j_patch J); im = e_image (j_env J);
          pl = patch_plan im (g_derived db) sc (pt_intent (j_patch J)) ds;
          db1 = write_derived aid sc im pl ds db
      in if conflict J ''derive'' then again J db
         else run_verifiers J (verifiers J ds pl) (passed ''derive'' v) db1 (\<lambda>v. stage_migrate J ds aid tok pl v db1))"

definition tsgo_diag :: "string \<Rightarrow> diag" where
  "tsgo_diag code = \<lparr>dg_stage = ''tsgo'', dg_code = code, dg_subject = [], dg_def = [], dg_about = []\<rparr>"

definition stage_check :: "job \<Rightarrow> lowered list \<Rightarrow> nat \<Rightarrow> (string \<times> string) option \<Rightarrow> verdict \<Rightarrow> gate_db \<Rightarrow> attempt" where
  "stage_check J ds aid tok v db =
     (if conflict J ''world'' then again J db
      else (case e_check (j_env J) (j_patch J) ds (g_cat db) of
         CheckFault \<Rightarrow> fault J db
       | CheckTimeout \<Rightarrow> reject J ''tsgo'' [tsgo_diag ''TYPECHECK_TIMEOUT''] v db
       | CheckErrors es \<Rightarrow> if es \<noteq> [] then reject J ''tsgo'' es v db else stage_derive J ds aid tok (passed ''tsgo'' v) db
       | CheckOk \<Rightarrow> stage_derive J ds aid tok (passed ''tsgo'' v) db))"

definition stage_insert :: "job \<Rightarrow> lowered list \<Rightarrow> nat \<Rightarrow> (string \<times> string) option \<Rightarrow> verdict \<Rightarrow> gate_db \<Rightarrow> attempt" where
  "stage_insert J ds aid tok v db =
     (if conflict J ''insert'' then again J db
      else (case insert_definitions aid ds (g_cat db) of
         Inl e \<Rightarrow> sql_stop J e db
       | Inr c \<Rightarrow> stage_check J ds aid tok (passed ''insert'' v) (db\<lparr>g_cat := c\<rparr>)))"

definition stage_noop :: "job \<Rightarrow> nat \<Rightarrow> verdict \<Rightarrow> gate_db \<Rightarrow> attempt" where
  "stage_noop J aid v0 db =
     (let v = (passed ''already-admitted'' v0)\<lparr>vd_outcome := ''already-admitted'', vd_admission := aid,
          vd_diags := [], vd_delta := no_delta\<rparr>
      in if conflict J ''report'' then again J db else finalize_txn J v (record_report aid [] v db))"

definition stage_admission :: "job \<Rightarrow> lowered list \<Rightarrow> (string \<times> string) option \<Rightarrow> verdict \<Rightarrow> attempt" where
  "stage_admission J ds tok v =
     (if conflict J ''grants'' \<or> conflict J ''admission'' then again J (j_db0 J)
      else (case insert_admission (j_auth J) (map ld_hash ds) (j_db0 J) of (aid, db) \<Rightarrow>
        if conflict J ''noop'' then again J db
        else if is_noop (g_cat db) (pt_scope (j_patch J)) ds then stage_noop J aid v db
        else stage_insert J ds aid tok v db))"

definition hashes_of :: "lowered list \<Rightarrow> (string \<times> string) list" where
  "hashes_of ds = (let m = fold (\<lambda>d f. f(ld_catalog d \<mapsto> ld_hash d)) ds (\<lambda>_. None) in
     List.map_filter (\<lambda>n. map_option (Pair n) (m n)) (sorted_keys (map ld_catalog ds)))"

definition first_verdict :: "bool \<Rightarrow> verdict" where
  "first_verdict dry = \<lparr>vd_outcome = [], vd_hashes = [], vd_stages = [], vd_diags = [], vd_refusal = [], vd_admission = 0,
     vd_retry_after = None, vd_delta = no_delta, vd_approved_by = [], vd_dry = dry, vd_seeders = []\<rparr>"

definition stage_policy :: "job \<Rightarrow> lowered list \<Rightarrow> verdict \<Rightarrow> attempt" where
  "stage_policy J ds v =
     (case validate_seeders (j_patch J) (j_auth J) of
        Inl d \<Rightarrow> reject J ''seeders'' [d] v (j_db0 J)
      | Inr seeders \<Rightarrow> (let v = v\<lparr>vd_seeders := seeders\<rparr> in
          if conflict J ''scope-policy'' then again J (j_db0 J)
          else (case check_scope_policy (j_db0 J) (e_now (j_env J)) (j_patch J) (j_auth J) (pt_scope (j_patch J)) ds of
             Inl d \<Rightarrow> reject J ''scope-policy'' [d] v (j_db0 J)
           | Inr tok \<Rightarrow> stage_admission J ds tok
               (case tok of Some (_, minter) \<Rightarrow> v\<lparr>vd_approved_by := minter\<rparr> | None \<Rightarrow> v))))"

definition admit_once :: "job \<Rightarrow> attempt" where
  "admit_once J =
     (let v = first_verdict (\<not> j_commit J); bs = e_budget (j_env J) (pt_modules (j_patch J)) in
      if bs \<noteq> [] then reject J ''typecheck-budget'' bs v (j_db0 J)
      else if conflict J ''lower'' then again J (j_db0 J)
      else (case lower_patch (j_env J) (g_cat (j_db0 J)) (j_patch J) of
         Inl ds \<Rightarrow> reject J ''lower'' ds v (j_db0 J)
       | Inr ds \<Rightarrow> stage_policy J ds (passed ''lower'' (v\<lparr>vd_hashes := hashes_of ds\<rparr>))))"

subsection \<open>Retries\<close>

definition max_retries :: nat where "max_retries = 3"

definition retries_verdict :: verdict where
  "retries_verdict = (first_verdict False)\<lparr>vd_outcome := ''retry-exhausted'', vd_stages := [(''serialize'', ''fail'')],
     vd_retry_after := Some (25, ''serialization''),
     vd_diags := [\<lparr>dg_stage = ''serialize'', dg_code = ''SERIALIZATION_RETRY_EXHAUSTED'', dg_subject = [],
       dg_def = [], dg_about = []\<rparr>]\<rparr>"

datatype answer = Answer verdict gate_db | Broken gate_db

text \<open>\<open>admitWithRetries\<close>, \<open>n\<close> attempts left.\<close>

fun retry_admission :: "env \<Rightarrow> patch \<Rightarrow> submitter \<Rightarrow> bool \<Rightarrow> nat \<Rightarrow> gate_db \<Rightarrow> answer" where
  "retry_admission E p a commit 0 db =
     (case finish_refusal E a p retries_verdict db of (v, db') \<Rightarrow> Answer v db')"
| "retry_admission E p a commit (Suc n) db =
     (case admit_once \<lparr>j_env = E, j_patch = p, j_auth = a, j_commit = commit, j_try = max_retries - Suc n, j_db0 = db\<rparr> of
        Settled v db' \<Rightarrow> Answer v db'
      | Fault db' \<Rightarrow> Broken db'
      | Again db' \<Rightarrow> retry_admission E p a commit n db')"

definition admit_with_retries :: "env \<Rightarrow> patch \<Rightarrow> submitter \<Rightarrow> bool \<Rightarrow> gate_db \<Rightarrow> answer" where
  "admit_with_retries E p a commit db = retry_admission E p a commit max_retries db"

end
