(* ===== verification/Adm_Pipeline_Laws.thy ===== *)
theory Adm_Pipeline_Laws
  imports Adm_Pipeline
begin

section \<open>What the pipeline keeps\<close>

lemmas stage_defs = stage_record_def stage_cas_def stage_migrate_def stage_derive_def stage_check_def
  stage_insert_def stage_noop_def stage_admission_def stage_policy_def admit_once_def

lemma rolled_back_simps [simp]:
  "g_next (rolled_back db0 db) = g_next db" "g_refusals (rolled_back db0 db) = g_refusals db0"
  "rolled_back db0 (db\<lparr>g_cat := c\<rparr>) = rolled_back db0 db"
  "rolled_back db0 (db\<lparr>g_derived := d\<rparr>) = rolled_back db0 db"
  "rolled_back db0 (db\<lparr>g_tokens := t\<rparr>) = rolled_back db0 db"
  "rolled_back db0 (write_derived aid sc im pl ds db) = rolled_back db0 db"
  "rolled_back db0 (record_report aid sql v db) = rolled_back db0 db"
  by (simp_all add: rolled_back_def write_derived_def record_report_def)

lemma stage_marks [simp]:
  "vd_outcome (passed s v) = vd_outcome v" "vd_dry (passed s v) = vd_dry v" "vd_hashes (passed s v) = vd_hashes v"
  by (simp_all add: passed_def)

subsection \<open>Refusals leave the tables alone\<close>

definition kept :: "job \<Rightarrow> attempt \<Rightarrow> bool" where
  "kept J att \<longleftrightarrow> (case att of
      Settled v db \<Rightarrow>
        (if non_green (vd_outcome v)
         then db = (rolled_back (j_db0 J) db)\<lparr>g_refusals := g_refusals (j_db0 J) @ [refusal_of (j_auth J) (j_patch J) v]\<rparr>
         else j_commit J \<or> db = rolled_back (j_db0 J) db)
    | Again db \<Rightarrow> db = rolled_back (j_db0 J) db
    | Fault db \<Rightarrow> db = rolled_back (j_db0 J) db)"

lemma kept_refuse: "non_green outc \<Longrightarrow> kept J (refuse J outc stage ds v db)"
  by (simp add: kept_def refuse_def finish_refusal_def Let_def rolled_back_def)

lemma kept_ends [simp]:
  "kept J (reject J stage ds v db)" "kept J (stale_base J name v db)" "kept J (again J db)" "kept J (fault J db)"
  "kept J (sql_stop J e db)"
  by (auto simp: reject_def stale_base_def sql_stop_def kept_refuse non_green_def)
    (simp_all add: kept_def again_def fault_def rolled_back_def)

lemma kept_finalize: "\<not> non_green (vd_outcome v) \<Longrightarrow> kept J (finalize_txn J v db)"
  by (auto simp: finalize_txn_def) (auto simp: kept_def rolled_back_def)

lemma kept_record: "kept J (stage_record J aid sql tok v db)"
  by (auto simp: stage_record_def Let_def non_green_def split: option.splits intro!: kept_finalize)

lemma kept_cas: "kept J (stage_cas J ds aid sql tok v db)"
  by (auto simp: stage_cas_def kept_record split: sum.splits option.splits prod.splits)

lemma kept_migrate: "kept J (stage_migrate J ds aid tok pl v db)"
  by (auto simp: stage_migrate_def Let_def kept_cas split: option.splits)

lemma kept_verifiers: "(\<And>v. kept J (k v)) \<Longrightarrow> kept J (run_verifiers J vs v db k)"
  by (induction J vs v db k rule: run_verifiers.induct) auto

lemma kept_derive: "kept J (stage_derive J ds aid tok v db)"
  by (auto simp: stage_derive_def Let_def intro!: kept_verifiers kept_migrate)

lemma kept_check: "kept J (stage_check J ds aid tok v db)"
  by (auto simp: stage_check_def kept_derive split: check_result.splits)

lemma kept_insert: "kept J (stage_insert J ds aid tok v db)"
  by (auto simp: stage_insert_def kept_check split: sum.splits)

lemma kept_noop: "kept J (stage_noop J aid v db)"
  by (auto simp: stage_noop_def Let_def non_green_def intro!: kept_finalize)

lemma kept_admission: "kept J (stage_admission J ds tok v)"
  by (auto simp: stage_admission_def kept_noop kept_insert split: prod.splits)

lemma kept_policy: "kept J (stage_policy J ds v)"
  by (auto simp: stage_policy_def Let_def kept_admission split: sum.splits)

lemma kept_once: "kept J (admit_once J)"
  by (auto simp: admit_once_def Let_def kept_policy split: sum.splits)

text \<open>Two states with the same tables, the sequence of admission ids aside.\<close>

definition same_tables :: "gate_db \<Rightarrow> gate_db \<Rightarrow> bool" where
  "same_tables db db' \<longleftrightarrow> db' = db\<lparr>g_next := g_next db'\<rparr>"

lemma same_tables_refl [simp]: "same_tables db db"
  by (simp add: same_tables_def)

lemma same_tables_trans: "same_tables a b \<Longrightarrow> same_tables b c \<Longrightarrow> same_tables a c"
  unfolding same_tables_def by (metis gate_db.surjective gate_db.update_convs(5))

lemma same_tables_fields:
  assumes "same_tables db db'"
  shows "g_cat db' = g_cat db" "g_derived db' = g_derived db" "g_tokens db' = g_tokens db"
    "g_grants db' = g_grants db" "g_refusals db' = g_refusals db" "g_admissions db' = g_admissions db"
  using assms unfolding same_tables_def by (metis gate_db.surjective gate_db.select_convs gate_db.update_convs(5))+

definition job_of :: "env \<Rightarrow> patch \<Rightarrow> submitter \<Rightarrow> bool \<Rightarrow> nat \<Rightarrow> gate_db \<Rightarrow> job" where
  "job_of E p a commit i db = \<lparr>j_env = E, j_patch = p, j_auth = a, j_commit = commit, j_try = i, j_db0 = db\<rparr>"

text \<open>An answer comes from an attempt over the same tables, or from running out of attempts.\<close>

lemma retry_admission_cases:
  assumes "retry_admission E p a commit n db = Answer v db'"
  shows "(\<exists>i db1. same_tables db db1 \<and> admit_once (job_of E p a commit i db1) = Settled v db') \<or>
    (\<exists>db1. same_tables db db1 \<and> (v, db') = finish_refusal E a p retries_verdict db1)"
  using assms
proof (induction n arbitrary: db)
  case (Suc n)
  show ?case
  proof (cases "admit_once (job_of E p a commit (max_retries - Suc n) db)")
    case (Settled v1 db1)
    then show ?thesis using Suc.prems by (fastforce simp: job_of_def)
  next
    case (Again db1)
    have "same_tables db db1"
      using kept_once [of "job_of E p a commit (max_retries - Suc n) db"] Again
      by (simp add: kept_def job_of_def rolled_back_def same_tables_def)
    moreover have "retry_admission E p a commit n db1 = Answer v db'"
      using Suc.prems Again by (simp add: job_of_def)
    ultimately show ?thesis using Suc.IH same_tables_trans by meson
  next
    case (Fault db1)
    then show ?thesis using Suc.prems by (simp add: job_of_def)
  qed
next
  case 0
  then have "(v, db') = finish_refusal E a p retries_verdict db" by (simp split: prod.splits)
  then show ?case using same_tables_refl by blast
qed

lemma refusal_trace:
  assumes "admit_with_retries E p a commit db = Answer v db'" "non_green (vd_outcome v)"
  shows "db' = db\<lparr>g_next := g_next db', g_refusals := g_refusals db @ [refusal_of a p v]\<rparr>"
proof -
  from retry_admission_cases [OF assms(1) [unfolded admit_with_retries_def]] show ?thesis
  proof (elim disjE exE conjE)
    fix i db1 assume s: "same_tables db db1" "admit_once (job_of E p a commit i db1) = Settled v db'"
    from kept_once [of "job_of E p a commit i db1"] s(2) assms(2)
    have "db' = db1\<lparr>g_next := g_next db', g_refusals := g_refusals db1 @ [refusal_of a p v]\<rparr>"
      by (simp add: kept_def job_of_def rolled_back_def)
    moreover have "db1 = db\<lparr>g_next := g_next db1\<rparr>" using s(1) by (simp add: same_tables_def)
    ultimately show ?thesis by (metis gate_db.surjective gate_db.update_convs(5,6) gate_db.select_convs(6))
  next
    fix db1 assume s: "same_tables db db1" "(v, db') = finish_refusal E a p retries_verdict db1"
    then have "db' = db1\<lparr>g_refusals := g_refusals db1 @ [refusal_of a p v]\<rparr>"
      by (auto simp: finish_refusal_def Let_def retries_verdict_def non_green_def)
    moreover have "db1 = db\<lparr>g_next := g_next db1\<rparr>" using s(1) by (simp add: same_tables_def)
    ultimately show ?thesis by (metis gate_db.surjective gate_db.update_convs(5,6) gate_db.select_convs(5,6))
  qed
qed

subsection \<open>What an admission does\<close>

definition token_effect :: "(string \<times> string) option \<Rightarrow> nat \<Rightarrow> (string \<Rightarrow> token_row option) \<Rightarrow> (string \<Rightarrow> token_row option) \<Rightarrow> bool" where
  "token_effect tok aid m m' \<longleftrightarrow> (case tok of
      None \<Rightarrow> m' = m
    | Some (t, _) \<Rightarrow> \<exists>r. m t = Some r \<and> tk_consumed r = None \<and> m' = m(t \<mapsto> r\<lparr>tk_consumed := Some aid\<rparr>))"

text \<open>The attempt settles on an admission.\<close>

definition admits :: "attempt \<Rightarrow> verdict \<Rightarrow> gate_db \<Rightarrow> bool" where
  "admits att v db \<longleftrightarrow> att = Settled v db \<and> vd_outcome v = ''admitted''"

lemma admits_if [simp]: "admits (if b then x else y) v db = (if b then admits x v db else admits y v db)"
  by simp

lemma admits_refuse: "admits (refuse J outc stage dg v db) v' db' \<Longrightarrow> outc = ''admitted''"
  by (auto simp: admits_def refuse_def finish_refusal_def Let_def)

lemma admits_ends [simp]:
  "\<not> admits (reject J stage dg v db) v' db'" "\<not> admits (stale_base J name v db) v' db'"
  "\<not> admits (again J db) v' db'" "\<not> admits (fault J db) v' db'" "\<not> admits (sql_stop J e db) v' db'"
proof -
  show "\<not> admits (reject J stage dg v db) v' db'" "\<not> admits (stale_base J name v db) v' db'"
    using admits_refuse [of J "''rejected''"] admits_refuse [of J "''stale-base''"]
    by (auto simp: reject_def stale_base_def)
  show ag: "\<not> admits (again J db) v' db'" and fa: "\<not> admits (fault J db) v' db'"
    by (auto simp: admits_def again_def fault_def)
  show "\<not> admits (sql_stop J e db) v' db'" using ag fa by (simp add: sql_stop_def)
qed

lemma admits_finalize:
  assumes "admits (finalize_txn J v db) v' db'" "j_commit J"
  shows "v' = v \<and> db' = db"
proof (cases "conflict J ''commit''")
  case True
  then show ?thesis using assms by (simp add: finalize_txn_def)
next
  case False
  then show ?thesis using assms by (simp add: finalize_txn_def admits_def)
qed

definition effect :: "job \<Rightarrow> lowered list \<Rightarrow> (string \<times> string) option \<Rightarrow> nat \<Rightarrow> catalog \<Rightarrow> (string \<Rightarrow> token_row option) \<Rightarrow>
    verdict \<Rightarrow> gate_db \<Rightarrow> bool" where
  "effect J ds tok aid c toks v db' \<longleftrightarrow>
     move_pointers (e_clock (j_env J)) aid (pt_scope (j_patch J)) (j_patch J) ds c = Inr (None, g_cat db') \<and>
     token_effect tok aid toks (g_tokens db') \<and> vd_admission v = aid"

lemma record_report_tables [simp]:
  "g_cat (record_report aid sql v db) = g_cat db" "g_tokens (record_report aid sql v db) = g_tokens db"
  by (simp_all add: record_report_def)

lemma consume_token_effect:
  "consume_token t aid db = Some db1 \<Longrightarrow> g_cat db1 = g_cat db \<and> token_effect (Some (t, m)) aid (g_tokens db) (g_tokens db1)"
  by (auto simp: consume_token_def token_effect_def split: option.splits if_splits)

lemma record_effect:
  assumes "admits (stage_record J aid sql tok v db) v' db'" "j_commit J"
  shows "g_cat db' = g_cat db \<and> token_effect tok aid (g_tokens db) (g_tokens db') \<and> vd_admission v' = aid"
proof -
  define w where "w = (passed ''approval'' v)\<lparr>vd_outcome := ''admitted'', vd_admission := aid, vd_diags := []\<rparr>"
  define go where "go db1 = (if conflict J ''report'' then again J db1 else finalize_txn J w (record_report aid sql w db1))" for db1
  have go: "v' = w \<and> db' = record_report aid sql w db1" if "admits (go db1) v' db'" for db1
    using that admits_finalize [OF _ assms(2)] by (simp add: go_def split: if_splits)
  have w: "vd_admission w = aid" by (simp add: w_def)
  show ?thesis
  proof (cases tok)
    case None
    then have "stage_record J aid sql tok v db = go db" by (simp add: stage_record_def go_def w_def Let_def)
    then have "admits (go db) v' db'" using assms(1) by simp
    from go [OF this] w None show ?thesis by (simp add: token_effect_def)
  next
    case (Some x)
    obtain t m where x: "x = (t, m)" by (cases x)
    obtain db1 where d: "consume_token t aid db = Some db1" "admits (go db1) v' db'"
      using assms Some x by (auto simp: stage_record_def go_def w_def Let_def split: if_splits option.splits)
    from go [OF d(2)] w Some x consume_token_effect [OF d(1), of m] show ?thesis by simp
  qed
qed

lemma cas_effect:
  assumes "admits (stage_cas J ds aid sql tok v db) v' db'" "j_commit J"
  shows "effect J ds tok aid (g_cat db) (g_tokens db) v' db'"
proof -
  obtain c where m: "move_pointers (e_clock (j_env J)) aid (pt_scope (j_patch J)) (j_patch J) ds (g_cat db) = Inr (None, c)"
      and r: "admits (stage_record J aid sql tok (passed ''cas'' v) (db\<lparr>g_cat := c\<rparr>)) v' db'"
    using assms(1) by (auto simp: stage_cas_def split: if_splits sum.splits prod.splits option.splits)
  from record_effect [OF r assms(2)] m show ?thesis by (simp add: effect_def)
qed

lemma migrate_effect:
  assumes "admits (stage_migrate J ds aid tok pl v db) v' db'" "j_commit J"
  shows "effect J ds tok aid (g_cat db) (g_tokens db) v' db'"
proof -
  obtain sql v1 x where "admits (stage_cas J ds aid sql tok v1 (db\<lparr>g_derived := x\<rparr>)) v' db'"
    using assms(1) by (auto simp: stage_migrate_def Let_def split: if_splits option.splits)
  from cas_effect [OF this assms(2)] show ?thesis by simp
qed

lemma run_verifiers_admits:
  "admits (run_verifiers J vs v db k) v' db' \<Longrightarrow> (\<forall>x\<in>set vs. snd x = Some []) \<and> (\<exists>v1. admits (k v1) v' db')"
  by (induction J vs v db k rule: run_verifiers.induct) (auto split: if_splits)

definition verified :: "job \<Rightarrow> lowered list \<Rightarrow> bool" where
  "verified J ds \<longleftrightarrow> (\<forall>x\<in>set (verifiers J ds (patch_plan (e_image (j_env J)) (g_derived (j_db0 J)) (pt_scope (j_patch J))
      (pt_intent (j_patch J)) ds)). snd x = Some [])"

lemma derive_effect:
  assumes "admits (stage_derive J ds aid tok v db) v' db'" "j_commit J"
    and "g_derived db = g_derived (j_db0 J)"
  shows "verified J ds \<and> effect J ds tok aid (g_cat db) (g_tokens db) v' db'"
proof -
  let ?pl = "patch_plan (e_image (j_env J)) (g_derived db) (pt_scope (j_patch J)) (pt_intent (j_patch J)) ds"
  let ?db = "write_derived aid (pt_scope (j_patch J)) (e_image (j_env J)) ?pl ds db"
  have "admits (run_verifiers J (verifiers J ds ?pl) (passed ''derive'' v) ?db (\<lambda>v. stage_migrate J ds aid tok ?pl v ?db)) v' db'"
    using assms(1) by (simp add: stage_derive_def Let_def split: if_splits)
  from run_verifiers_admits [OF this] obtain v1 where
    k: "\<forall>x\<in>set (verifiers J ds ?pl). snd x = Some []" "admits (stage_migrate J ds aid tok ?pl v1 ?db) v' db'" by blast
  show ?thesis using k(1) assms(3) migrate_effect [OF k(2) assms(2)] by (simp add: verified_def write_derived_def)
qed

lemma check_effect:
  assumes "admits (stage_check J ds aid tok v db) v' db'" "j_commit J" "g_derived db = g_derived (j_db0 J)"
  shows "verified J ds \<and> effect J ds tok aid (g_cat db) (g_tokens db) v' db'"
  using assms(1) derive_effect [OF _ assms(2,3)]
  by (auto simp: stage_check_def split: if_splits check_result.splits)

text \<open>The admitted definitions, over the tables before the attempt.\<close>

definition admission_of :: "env \<Rightarrow> patch \<Rightarrow> submitter \<Rightarrow> gate_db \<Rightarrow> lowered list \<Rightarrow> (string \<times> string) option \<Rightarrow> nat \<Rightarrow> gate_db \<Rightarrow> bool" where
  "admission_of E p a db ds tok aid db' \<longleftrightarrow>
     lower_patch E (g_cat db) p = Inr ds \<and> verified (job_of E p a True 0 db) ds \<and>
     check_scope_policy db (e_now E) p a (pt_scope p) ds = Inr tok \<and>
     (\<exists>c. insert_definitions aid ds (g_cat db) = Inr c \<and>
        move_pointers (e_clock E) aid (pt_scope p) p ds c = Inr (None, g_cat db')) \<and>
     token_effect tok aid (g_tokens db) (g_tokens db')"

lemma verified_job: "verified (job_of E p a b i db) ds = verified (job_of E p a True 0 db) ds"
  by (simp add: verified_def verifiers_def job_of_def)

lemma insert_sound:
  assumes "admits (stage_insert J ds aid tok v db) v' db'" "j_commit J" "g_derived db = g_derived (j_db0 J)"
  shows "verified J ds \<and> (\<exists>c. insert_definitions aid ds (g_cat db) = Inr c \<and> effect J ds tok aid c (g_tokens db) v' db')"
proof -
  obtain c where c: "insert_definitions aid ds (g_cat db) = Inr c"
      "admits (stage_check J ds aid tok (passed ''insert'' v) (db\<lparr>g_cat := c\<rparr>)) v' db'"
    using assms(1) by (auto simp: stage_insert_def split: sum.splits if_splits)
  from check_effect [OF c(2) assms(2)] assms(3) c(1) show ?thesis by simp
qed

lemma noop_not_admitted [simp]: "\<not> admits (stage_noop J aid v db) v' db'"
  by (auto simp: stage_noop_def Let_def finalize_txn_def) (auto simp: admits_def)

lemma once_admitted:
  assumes "admits (admit_once (job_of E p a True i db)) v db'"
  shows "\<exists>ds tok. admission_of E p a db ds tok (vd_admission v) db'"
proof -
  let ?J = "job_of E p a True i db"
  have J: "j_env ?J = E" "j_patch ?J = p" "j_auth ?J = a" "j_db0 ?J = db" "j_commit ?J" by (simp_all add: job_of_def)
  obtain ds v1 where l: "lower_patch E (g_cat db) p = Inr ds" "admits (stage_policy ?J ds v1) v db'"
    using assms by (auto simp: admit_once_def Let_def J split: sum.splits if_splits)
  obtain tok v2 where t: "check_scope_policy db (e_now E) p a (pt_scope p) ds = Inr tok"
      "admits (stage_admission ?J ds tok v2) v db'"
    using l(2) by (auto simp: stage_policy_def Let_def J split: sum.splits if_splits)
  let ?db = "snd (insert_admission a (map ld_hash ds) db)"
  have s: "admits (stage_insert ?J ds (g_next db) tok v2 ?db) v db'"
    using t(2) by (auto simp: stage_admission_def J insert_admission_def split: if_splits)
  have d: "g_derived ?db = g_derived (j_db0 ?J)" "g_cat ?db = g_cat db" "g_tokens ?db = g_tokens db"
    by (simp_all add: J insert_admission_def)
  from insert_sound [OF s J(5) d(1)] obtain c where
    "verified ?J ds" "insert_definitions (g_next db) ds (g_cat db) = Inr c" "effect ?J ds tok (g_next db) c (g_tokens db) v db'"
    unfolding d by blast
  with l(1) t(1) show ?thesis
    unfolding admission_of_def effect_def J using verified_job [of E p a True i db ds] by metis
qed

lemma admission_of_same:
  assumes "same_tables db db1"
  shows "admission_of E p a db1 ds tok aid db' = admission_of E p a db ds tok aid db'"
proof -
  note f = same_tables_fields [OF assms]
  have "check_scope_policy db1 n p a sc ds = check_scope_policy db n p a sc ds" for n sc
    by (simp add: check_scope_policy_def validate_token_def f Let_def)
  moreover have "verified (job_of E p a True 0 db1) ds = verified (job_of E p a True 0 db) ds"
    by (simp add: verified_def verifiers_def job_of_def f)
  ultimately show ?thesis by (simp add: admission_of_def f)
qed

lemma gate_admitted:
  assumes "admit_with_retries E p a True db = Answer v db'" "vd_outcome v = ''admitted''"
  shows "\<exists>ds tok. admission_of E p a db ds tok (vd_admission v) db'"
proof -
  from retry_admission_cases [OF assms(1) [unfolded admit_with_retries_def]] show ?thesis
  proof (elim disjE exE conjE)
    fix i db1 assume s: "same_tables db db1" "admit_once (job_of E p a True i db1) = Settled v db'"
    from once_admitted [of E p a i db1 v db'] s(2) assms(2) show ?thesis
      unfolding admits_def using admission_of_same [OF s(1)] by metis
  next
    fix db1 assume "(v, db') = finish_refusal E a p retries_verdict db1"
    then show ?thesis using assms(2) by (simp add: finish_refusal_def Let_def retries_verdict_def)
  qed
qed

end
