(* ===== verification/Adm_Gate_Laws.thy ===== *)
theory Adm_Gate_Laws
  imports Adm_Pipeline_Laws Cat_Laws
begin

section \<open>Catalog effects of an admission\<close>

text \<open>
  What the inserts and the pointer moves of one admission do to the catalog, and the attempts that end in
  \<open>already-admitted\<close>.
\<close>

subsection \<open>Content addressing\<close>

definition addressed :: "catalog \<Rightarrow> bool" where
  "addressed c \<longleftrightarrow>
     (\<forall>h r. ct_defs c h = Some r \<longrightarrow> rehashes h (dr_ast r) \<and> (\<forall>x\<in>set (dr_deps r). ct_defs c x \<noteq> None)) \<and>
     (\<forall>k r. ct_ptrs c k = Some r \<longrightarrow> ct_defs c (pr_hash r) \<noteq> None)"

lemma addressedI:
  assumes "\<And>h r. ct_defs c h = Some r \<Longrightarrow> rehashes h (dr_ast r)"
    and "\<And>h r x. ct_defs c h = Some r \<Longrightarrow> x \<in> set (dr_deps r) \<Longrightarrow> ct_defs c x \<noteq> None"
    and "\<And>k r. ct_ptrs c k = Some r \<Longrightarrow> ct_defs c (pr_hash r) \<noteq> None"
  shows "addressed c"
  unfolding addressed_def using assms by blast

lemma addressedD:
  assumes "addressed c"
  shows "ct_defs c h = Some r \<Longrightarrow> rehashes h (dr_ast r)"
    and "ct_defs c h = Some r \<Longrightarrow> x \<in> set (dr_deps r) \<Longrightarrow> ct_defs c x \<noteq> None"
    and "ct_ptrs c k = Some q \<Longrightarrow> ct_defs c (pr_hash q) \<noteq> None"
  using assms unfolding addressed_def by blast+

lemma insert_definition_cases:
  assumes "insert_definition h d c = Inr (nw, c')"
  shows "rehashes h (dr_ast d)" "\<forall>x\<in>set (dr_deps d). ct_defs c x \<noteq> None"
    "c' = c \<and> ct_defs c h \<noteq> None \<or> c' = c\<lparr>ct_defs := (ct_defs c)(h \<mapsto> d)\<rparr> \<and> ct_defs c h = None"
  using assms by (auto simp: insert_definition_def list_all_iff split: if_splits)

definition extends_defs :: "catalog \<Rightarrow> catalog \<Rightarrow> bool" where
  "extends_defs c c' \<longleftrightarrow> (\<forall>h r. ct_defs c h = Some r \<longrightarrow> ct_defs c' h = Some r)"

lemma extends_refl [simp]: "extends_defs c c"
  by (simp add: extends_defs_def)

lemma extends_trans: "extends_defs a b \<Longrightarrow> extends_defs b c \<Longrightarrow> extends_defs a c"
  by (simp add: extends_defs_def)

lemma extends_defsD: "extends_defs c c' \<Longrightarrow> ct_defs c h \<noteq> None \<Longrightarrow> ct_defs c' h \<noteq> None"
  by (auto simp: extends_defs_def)

lemma insert_one:
  assumes "insert_definition h d c = Inr (nw, c')"
  shows "ct_ptrs c' = ct_ptrs c \<and> extends_defs c c' \<and> ct_defs c' h \<noteq> None \<and> (addressed c \<longrightarrow> addressed c')"
  using insert_definition_cases(3) [OF assms]
proof
  assume a: "c' = c\<lparr>ct_defs := (ct_defs c)(h \<mapsto> d)\<rparr> \<and> ct_defs c h = None"
  then have e: "extends_defs c c'" by (auto simp: extends_defs_def)
  have "addressed c'" if c: "addressed c"
  proof (rule addressedI)
    show "rehashes g (dr_ast r)" if "ct_defs c' g = Some r" for g r
      using that a insert_definition_cases(1) [OF assms] addressedD(1) [OF c] by (auto split: if_splits)
    show "ct_defs c' x \<noteq> None" if "ct_defs c' g = Some r" "x \<in> set (dr_deps r)" for g r x
    proof (rule extends_defsD [OF e])
      show "ct_defs c x \<noteq> None"
        using that a insert_definition_cases(2) [OF assms] addressedD(2) [OF c] by (auto split: if_splits)
    qed
    show "ct_defs c' (pr_hash q) \<noteq> None" if "ct_ptrs c' k = Some q" for k q
      using that a extends_defsD [OF e] addressedD(3) [OF c] by auto
  qed
  with a e show ?thesis by simp
qed auto

lemma insert_all:
  assumes "insert_definitions aid ds c = Inr c'"
  shows "ct_ptrs c' = ct_ptrs c \<and> extends_defs c c' \<and> (addressed c \<longrightarrow> addressed c') \<and>
    (\<forall>d\<in>set ds. ct_defs c' (ld_hash d) \<noteq> None \<and> rehashes (ld_hash d) (encode_node (ld_body d)))"
  using assms
proof (induction aid ds c rule: insert_definitions.induct)
  case (2 aid d ds c)
  then obtain nw c1 where i: "insert_definition (ld_hash d) (def_row_of aid d) c = Inr (nw, c1)"
      "insert_definitions aid ds c1 = Inr c'"
    by (auto split: sum.splits)
  note one = insert_one [OF i(1)]
  have re: "rehashes (ld_hash d) (encode_node (ld_body d))"
    using insert_definition_cases(1) [OF i(1)] by (simp add: def_row_of_def)
  have rest: "ct_ptrs c' = ct_ptrs c1 \<and> extends_defs c1 c' \<and> (addressed c1 \<longrightarrow> addressed c') \<and>
      (\<forall>d\<in>set ds. ct_defs c' (ld_hash d) \<noteq> None \<and> rehashes (ld_hash d) (encode_node (ld_body d)))"
    using "2.IH" [OF i(1) refl i(2)] .
  show ?case using one rest re extends_trans extends_defsD by (metis set_ConsD)
qed simp

subsection \<open>Pointer moves\<close>

lemma move_pointer_effect:
  assumes "move_pointer ts upd p c = Inr (b, c')"
  shows "ct_defs c' = ct_defs c \<and> ct_defs c (pp_hash p) \<noteq> None \<and>
    ct_ptrs c' = (ct_ptrs c)((pp_name p, pp_scope p) \<mapsto> row_of p)"
  using assms by (auto simp: move_pointer_def split: sum.splits if_splits)

lemma cas_moves:
  assumes "upsert_pointer_cas ts p base c = Inr (True, c')"
  shows "map_option pr_hash (ct_ptrs c (pp_name p, pp_scope p)) = base \<and> ct_defs c' = ct_defs c \<and>
    ct_defs c (pp_hash p) \<noteq> None \<and> ct_ptrs c' = (ct_ptrs c)((pp_name p, pp_scope p) \<mapsto> row_of p)"
  using assms by (auto simp: upsert_pointer_cas_def dest!: move_pointer_effect split: option.splits if_splits)

definition put_head :: "nat \<Rightarrow> scope_ref \<Rightarrow> lowered \<Rightarrow> (string \<times> scope_ref \<Rightarrow> ptr_row option) \<Rightarrow> string \<times> scope_ref \<Rightarrow> ptr_row option" where
  "put_head aid sc d m = m((ld_catalog d, sc) \<mapsto> row_of (pointer_for aid sc d))"

lemma put_head_apply: "put_head aid sc d m k = (if k = (ld_catalog d, sc) then Some (row_of (pointer_for aid sc d)) else m k)"
  by (simp add: put_head_def)

lemma move_all:
  assumes "move_pointers clk aid sc p ds c = Inr (None, c')"
  shows "ct_defs c' = ct_defs c \<and> (\<forall>d\<in>set ds. ct_defs c (ld_hash d) \<noteq> None) \<and>
    (\<forall>d\<in>set ds. head_of c sc (ld_catalog d) = base_for p d) \<and>
    ct_ptrs c' = fold (put_head aid sc) ds (ct_ptrs c)"
  using assms
proof (induction clk aid sc p ds c rule: move_pointers.induct)
  case (2 clk aid sc p d ds c)
  then obtain c1 where u: "upsert_pointer_cas (clk 0) (pointer_for aid sc d) (base_for p d) c = Inr (True, c1)"
      "move_pointers (\<lambda>i. clk (i + 1)) aid sc p ds c1 = Inr (None, c')"
    by (auto split: sum.splits prod.splits bool.splits)
  have one: "head_of c sc (ld_catalog d) = base_for p d" "ct_defs c1 = ct_defs c" "ct_defs c (ld_hash d) \<noteq> None"
      "ct_ptrs c1 = put_head aid sc d (ct_ptrs c)"
    using cas_moves [OF u(1)] by (simp_all add: head_of_def pointer_for_def put_head_def)
  have rest: "ct_defs c' = ct_defs c1 \<and> (\<forall>d\<in>set ds. ct_defs c1 (ld_hash d) \<noteq> None) \<and>
      (\<forall>d\<in>set ds. head_of c1 sc (ld_catalog d) = base_for p d) \<and>
      ct_ptrs c' = fold (put_head aid sc) ds (ct_ptrs c1)"
    using "2.IH" [OF u(1) refl refl u(2)] .
  have "head_of c sc (ld_catalog e) = base_for p e" if "e \<in> set ds" for e
  proof (cases "ld_catalog e = ld_catalog d")
    case True
    then show ?thesis using one(1) by (simp add: base_for_def)
  next
    case False
    then have "head_of c1 sc (ld_catalog e) = head_of c sc (ld_catalog e)" by (simp add: head_of_def one(4) put_head_apply)
    then show ?thesis using rest that by metis
  qed
  then show ?case using one rest by simp
qed simp

lemma fold_heads_other:
  "(\<forall>d\<in>set ds. ld_catalog d \<noteq> n) \<or> sc' \<noteq> sc \<Longrightarrow>
    fold (put_head aid sc) ds m0 (n, sc') = m0 (n, sc')"
  by (induction ds arbitrary: m0) (auto simp: put_head_apply)

lemma fold_heads:
  "distinct (map ld_catalog ds) \<Longrightarrow> d \<in> set ds \<Longrightarrow>
    fold (put_head aid sc) ds m0 (ld_catalog d, sc) =
      Some (row_of (pointer_for aid sc d))"
proof (induction ds arbitrary: m0)
  case (Cons e ds)
  show ?case
  proof (cases "d = e")
    case True
    then have "\<forall>x\<in>set ds. ld_catalog x \<noteq> ld_catalog e" using Cons.prems(1) by (metis distinct.simps(2) image_eqI list.simps(9) set_map)
    then show ?thesis using True fold_heads_other [of ds "ld_catalog e" sc sc aid "put_head aid sc e m0"]
        put_head_apply [of aid sc e m0 "(ld_catalog e, sc)"] by simp
  qed (use Cons in auto)
qed simp

lemma fold_heads_row:
  "fold (put_head aid sc) ds m0 k = Some q \<Longrightarrow>
    m0 k = Some q \<or> (\<exists>d\<in>set ds. pr_hash q = ld_hash d)"
  by (induction ds arbitrary: m0) (fastforce simp: put_head_apply row_of_def pointer_for_def split: if_splits)+

lemma move_addressed:
  assumes "move_pointers clk aid sc p ds c = Inr (None, c')" "addressed c"
  shows "addressed c'"
proof (rule addressedI)
  have d: "ct_defs c' = ct_defs c" and h: "\<And>d. d \<in> set ds \<Longrightarrow> ct_defs c (ld_hash d) \<noteq> None"
    and f: "ct_ptrs c' = fold (put_head aid sc) ds (ct_ptrs c)"
    using move_all [OF assms(1)] by blast+
  show "rehashes g (dr_ast r)" if "ct_defs c' g = Some r" for g r
    using that addressedD(1) [OF assms(2), of g r] by (simp add: d)
  show "ct_defs c' x \<noteq> None" if "ct_defs c' g = Some r" "x \<in> set (dr_deps r)" for g r x
    using that addressedD(2) [OF assms(2), of g r x] by (simp add: d)
  show "ct_defs c' (pr_hash q) \<noteq> None" if "ct_ptrs c' k = Some q" for k q
    using fold_heads_row [OF that [unfolded f]]
  proof
    assume "ct_ptrs c k = Some q"
    then show ?thesis using addressedD(3) [OF assms(2), of k q] by (simp add: d)
  next
    assume "\<exists>d\<in>set ds. pr_hash q = ld_hash d"
    then show ?thesis using h by (auto simp: d)
  qed
qed

subsection \<open>Attempts that end in already-admitted\<close>

definition idles :: "attempt \<Rightarrow> verdict \<Rightarrow> gate_db \<Rightarrow> bool" where
  "idles att v db \<longleftrightarrow> att = Settled v db \<and> vd_outcome v = ''already-admitted''"

lemma idles_if [simp]: "idles (if b then x else y) v db = (if b then idles x v db else idles y v db)"
  by simp

lemma idles_ends [simp]:
  "\<not> idles (reject J stage dg v db) v' db'" "\<not> idles (stale_base J name v db) v' db'"
  "\<not> idles (again J db) v' db'" "\<not> idles (fault J db) v' db'" "\<not> idles (sql_stop J e db) v' db'"
  by (auto simp: idles_def reject_def stale_base_def refuse_def finish_refusal_def Let_def again_def fault_def sql_stop_def
      split: if_splits)

lemma idles_finalize:
  "idles (finalize_txn J v db) v' db' \<Longrightarrow> vd_outcome v = ''already-admitted'' \<and> (j_commit J \<longrightarrow> db' = db)"
  by (auto simp: finalize_txn_def idles_def again_def split: if_splits)

lemma idles_record [simp]: "\<not> idles (stage_record J aid sql tok v db) v' db'"
  by (auto simp: stage_record_def Let_def dest: idles_finalize split: option.splits)

lemma idles_cas [simp]: "\<not> idles (stage_cas J ds aid sql tok v db) v' db'"
  by (auto simp: stage_cas_def split: sum.splits option.splits prod.splits)

lemma idles_migrate [simp]: "\<not> idles (stage_migrate J ds aid tok pl v db) v' db'"
  by (auto simp: stage_migrate_def Let_def split: option.splits)

lemma idles_verifiers: "(\<And>v. \<not> idles (k v) v' db') \<Longrightarrow> \<not> idles (run_verifiers J vs v db k) v' db'"
  by (induction J vs v db k rule: run_verifiers.induct) auto

lemma idles_derive [simp]: "\<not> idles (stage_derive J ds aid tok v db) v' db'"
  by (simp add: stage_derive_def Let_def idles_verifiers)

lemma idles_check [simp]: "\<not> idles (stage_check J ds aid tok v db) v' db'"
  by (simp add: stage_check_def split: check_result.splits)

lemma idles_insert [simp]: "\<not> idles (stage_insert J ds aid tok v db) v' db'"
  by (simp add: stage_insert_def split: sum.splits)

lemma idles_noop:
  "idles (stage_noop J aid v db) v' db' \<Longrightarrow> j_commit J \<Longrightarrow> \<exists>w. db' = record_report aid [] w db"
  by (auto simp: stage_noop_def Let_def dest!: idles_finalize split: if_splits)

lemma idle_once:
  assumes "idles (admit_once (job_of E p a True i db)) v db'"
  shows "\<exists>ds w aid. lower_patch E (g_cat db) p = Inr ds \<and> is_noop (g_cat db) (pt_scope p) ds \<and>
    db' = record_report aid [] w (snd (insert_admission a (map ld_hash ds) db))"
proof -
  let ?J = "job_of E p a True i db"
  have J: "j_env ?J = E" "j_patch ?J = p" "j_auth ?J = a" "j_db0 ?J = db" "j_commit ?J" by (simp_all add: job_of_def)
  obtain ds v1 where l: "lower_patch E (g_cat db) p = Inr ds" "idles (stage_policy ?J ds v1) v db'"
    using assms by (auto simp: admit_once_def Let_def J split: sum.splits if_splits)
  obtain tok v2 where t: "idles (stage_admission ?J ds tok v2) v db'"
    using l(2) by (auto simp: stage_policy_def Let_def J split: sum.splits if_splits)
  let ?db = "snd (insert_admission a (map ld_hash ds) db)"
  have "g_cat ?db = g_cat db" by (simp add: insert_admission_def)
  with t have "is_noop (g_cat db) (pt_scope p) ds" "idles (stage_noop ?J (g_next db) v2 ?db) v db'"
    by (auto simp: stage_admission_def J insert_admission_def split: if_splits)
  with idles_noop [OF this(2) J(5)] l(1) show ?thesis by blast
qed

lemma admits_not_noop:
  assumes "admits (admit_once (job_of E p a True i db)) v db'" "lower_patch E (g_cat db) p = Inr ds"
  shows "\<not> is_noop (g_cat db) (pt_scope p) ds"
proof -
  let ?J = "job_of E p a True i db"
  have J: "j_env ?J = E" "j_patch ?J = p" "j_auth ?J = a" "j_db0 ?J = db" by (simp_all add: job_of_def)
  obtain v1 where "admits (stage_policy ?J ds v1) v db'"
    using assms by (auto simp: admit_once_def Let_def J split: if_splits)
  then obtain tok v2 where "admits (stage_admission ?J ds tok v2) v db'"
    by (auto simp: stage_policy_def Let_def J split: sum.splits if_splits)
  moreover have "g_cat (snd (insert_admission a (map ld_hash ds) db)) = g_cat db" by (simp add: insert_admission_def)
  ultimately show ?thesis by (auto simp: stage_admission_def J insert_admission_def split: if_splits)
qed

end
