(* ===== verification/Adm_Parity.thy ===== *)
theory Adm_Parity
  imports Adm_Pipeline_Laws
begin

section \<open>A dry run answers as the commit would\<close>

text \<open>
  \<open>Gate.DryRun\<close> runs the same pipeline as \<open>Gate.Admit\<close> and rolls back.  Two verdicts are alike when
  they differ at most in the admission id and the dry-run mark.
\<close>

definition alike :: "verdict \<Rightarrow> verdict \<Rightarrow> bool" where
  "alike v w \<longleftrightarrow> w = v\<lparr>vd_admission := vd_admission w, vd_dry := vd_dry w\<rparr>"

lemma alike_refl [simp]: "alike v v"
  by (simp add: alike_def)

lemma alike_iff: "alike v w \<longleftrightarrow> vd_outcome v = vd_outcome w \<and> vd_hashes v = vd_hashes w \<and> vd_stages v = vd_stages w \<and>
    vd_diags v = vd_diags w \<and> vd_refusal v = vd_refusal w \<and> vd_retry_after v = vd_retry_after w \<and>
    vd_delta v = vd_delta w \<and> vd_approved_by v = vd_approved_by w \<and> vd_seeders v = vd_seeders w"
  unfolding alike_def by (cases v; cases w) auto

definition dry :: "job \<Rightarrow> job" where
  "dry J = J\<lparr>j_commit := False\<rparr>"

lemma dry_simps [simp]:
  "j_env (dry J) = j_env J" "j_patch (dry J) = j_patch J" "j_auth (dry J) = j_auth J" "j_try (dry J) = j_try J"
  "j_db0 (dry J) = j_db0 J" "\<not> j_commit (dry J)" "conflict (dry J) = conflict J" "again (dry J) = again J"
  "fault (dry J) = fault J" "sql_stop (dry J) = sql_stop J" "verifiers (dry J) = verifiers J"
proof -
  show "j_env (dry J) = j_env J" "j_patch (dry J) = j_patch J" "j_auth (dry J) = j_auth J" "j_try (dry J) = j_try J"
    and d: "j_db0 (dry J) = j_db0 J" and "\<not> j_commit (dry J)"
    and "conflict (dry J) = conflict J" "verifiers (dry J) = verifiers J"
    by (simp_all add: dry_def conflict_def [abs_def] verifiers_def [abs_def])
  show a: "again (dry J) = again J" and f: "fault (dry J) = fault J"
    by (simp_all add: d again_def [abs_def] fault_def [abs_def])
  show "sql_stop (dry J) = sql_stop J" by (intro ext) (simp add: sql_stop_def a f)
qed

definition agree :: "attempt \<Rightarrow> attempt \<Rightarrow> bool" where
  "agree x y \<longleftrightarrow> (case x of
      Settled v _ \<Rightarrow> (case y of Settled w _ \<Rightarrow> alike v w | _ \<Rightarrow> False)
    | Again db \<Rightarrow> y = Again db
    | Fault db \<Rightarrow> y = Fault db)"

lemma agree_ends [simp]:
  "agree (again J db) (again J db)" "agree (fault J db) (fault J db)" "agree (sql_stop J e db) (sql_stop J e db)"
  by (simp_all add: agree_def again_def fault_def sql_stop_def)

lemma agree_refuse: "alike v w \<Longrightarrow> agree (refuse J outc stage ds v db) (refuse (dry J) outc stage ds w db)"
  by (simp add: agree_def refuse_def finish_refusal_def Let_def failed_def alike_iff)

lemma agree_reject [simp]:
  "alike v w \<Longrightarrow> agree (reject J stage ds v db) (reject (dry J) stage ds w db)"
  "alike v w \<Longrightarrow> agree (stale_base J name v db) (stale_base (dry J) name w db)"
  by (simp_all add: reject_def stale_base_def agree_refuse)

lemma alike_passed: "alike v w \<Longrightarrow> alike (passed s v) (passed s w)"
  by (simp add: alike_iff passed_def)

text \<open>The commit run meets no serialization failure at the two points a dry run does not reach.\<close>

definition calm :: "job \<Rightarrow> bool" where
  "calm J \<longleftrightarrow> \<not> conflict J ''commit'' \<and> \<not> conflict J ''approval''"

lemma agree_finalize:
  assumes "alike v w" "j_commit J" "calm J"
  shows "agree (finalize_txn J v db) (finalize_txn (dry J) w db')"
  using assms by (simp add: finalize_txn_def calm_def agree_def alike_iff)

lemma again_tokens [simp]: "again J (db\<lparr>g_tokens := t\<rparr>) = again J db"
  by (simp add: again_def)

definition live_token :: "(string \<times> string) option \<Rightarrow> gate_db \<Rightarrow> bool" where
  "live_token tok db \<longleftrightarrow> (case tok of None \<Rightarrow> True | Some (t, _) \<Rightarrow> (\<exists>r. g_tokens db t = Some r \<and> tk_consumed r = None))"

lemma live_token_keeps [simp]:
  "live_token tok (db\<lparr>g_cat := c\<rparr>) = live_token tok db" "live_token tok (db\<lparr>g_derived := d\<rparr>) = live_token tok db"
  "live_token tok (write_derived aid sc im pl ds db) = live_token tok db"
  "live_token tok (snd (insert_admission a hs db)) = live_token tok db"
  by (auto simp: live_token_def write_derived_def insert_admission_def split: option.splits)

lemma agree_record:
  assumes "alike v w" "j_commit J" "calm J" "live_token tok db"
  shows "agree (stage_record J aid sql tok v db) (stage_record (dry J) aid sql tok w db)"
proof -
  have up: "alike ((passed ''approval'' v)\<lparr>vd_outcome := ''admitted'', vd_admission := aid, vd_diags := []\<rparr>)
      ((passed ''approval'' w)\<lparr>vd_outcome := ''admitted'', vd_admission := aid, vd_diags := []\<rparr>)"
    using assms(1) by (simp add: alike_iff passed_def)
  note fin = agree_finalize [OF up assms(2,3)]
  show ?thesis
  proof (cases tok)
    case None
    then show ?thesis by (simp add: stage_record_def Let_def fin)
  next
    case (Some x)
    obtain t m where x: "x = (t, m)" by (cases x)
    then obtain r where r: "g_tokens db t = Some r" "tk_consumed r = None"
      using assms(4) Some by (auto simp: live_token_def)
    then show ?thesis using assms(2,3) by (simp add: Some x stage_record_def Let_def fin consume_token_def calm_def)
  qed
qed

lemma agree_cas:
  assumes "alike v w" "j_commit J" "calm J" "live_token tok db"
  shows "agree (stage_cas J ds aid sql tok v db) (stage_cas (dry J) ds aid sql tok w db)"
proof -
  have "agree (stage_record J aid sql tok (passed ''cas'' v) (db\<lparr>g_cat := c\<rparr>))
      (stage_record (dry J) aid sql tok (passed ''cas'' w) (db\<lparr>g_cat := c\<rparr>))" for c
    using assms by (intro agree_record alike_passed) auto
  then show ?thesis using assms(1) by (auto simp: stage_cas_def split: sum.splits option.splits prod.splits)
qed

lemma agree_migrate:
  assumes "alike v w" "j_commit J" "calm J" "live_token tok db"
  shows "agree (stage_migrate J ds aid tok pl v db) (stage_migrate (dry J) ds aid tok pl w db)"
proof -
  have "agree (stage_cas J ds aid sql tok (passed ''migrate'' (v\<lparr>vd_delta := d\<rparr>)) (db\<lparr>g_derived := x\<rparr>))
      (stage_cas (dry J) ds aid sql tok (passed ''migrate'' (w\<lparr>vd_delta := d\<rparr>)) (db\<lparr>g_derived := x\<rparr>))" for sql d x
    using assms by (intro agree_cas alike_passed) (auto simp: alike_iff)
  then show ?thesis by (simp add: stage_migrate_def Let_def split: option.splits)
qed

lemma agree_verifiers:
  assumes "\<And>v w. alike v w \<Longrightarrow> agree (k v) (k' w)"
  shows "alike v w \<Longrightarrow> agree (run_verifiers J vs v db k) (run_verifiers (dry J) vs w db k')"
proof (induction vs arbitrary: v w)
  case Nil
  then show ?case using assms by simp
next
  case (Cons x vs)
  obtain name r where x: "x = (name, r)" by (cases x)
  show ?case using Cons alike_passed by (cases r) (simp_all add: x)
qed

lemma agree_derive:
  assumes "alike v w" "j_commit J" "calm J" "live_token tok db"
  shows "agree (stage_derive J ds aid tok v db) (stage_derive (dry J) ds aid tok w db)"
  unfolding stage_derive_def Let_def using assms
  by (auto intro!: agree_verifiers agree_migrate alike_passed)

lemma agree_check:
  assumes "alike v w" "j_commit J" "calm J" "live_token tok db"
  shows "agree (stage_check J ds aid tok v db) (stage_check (dry J) ds aid tok w db)"
proof -
  have "agree (stage_derive J ds aid tok (passed ''tsgo'' v) db) (stage_derive (dry J) ds aid tok (passed ''tsgo'' w) db)"
    using assms by (intro agree_derive alike_passed)
  then show ?thesis using assms(1) by (auto simp: stage_check_def split: check_result.splits)
qed

lemma agree_insert:
  assumes "alike v w" "j_commit J" "calm J" "live_token tok db"
  shows "agree (stage_insert J ds aid tok v db) (stage_insert (dry J) ds aid tok w db)"
proof -
  have "agree (stage_check J ds aid tok (passed ''insert'' v) (db\<lparr>g_cat := c\<rparr>))
      (stage_check (dry J) ds aid tok (passed ''insert'' w) (db\<lparr>g_cat := c\<rparr>))" for c
    using assms by (intro agree_check alike_passed) auto
  then show ?thesis by (simp add: stage_insert_def split: sum.splits)
qed

lemma agree_noop:
  assumes "alike v w" "j_commit J" "calm J"
  shows "agree (stage_noop J aid v db) (stage_noop (dry J) aid w db)"
proof -
  have "alike ((passed ''already-admitted'' v)\<lparr>vd_outcome := ''already-admitted'', vd_admission := aid, vd_diags := [], vd_delta := no_delta\<rparr>)
      ((passed ''already-admitted'' w)\<lparr>vd_outcome := ''already-admitted'', vd_admission := aid, vd_diags := [], vd_delta := no_delta\<rparr>)"
    using assms(1) by (simp add: alike_iff passed_def)
  from agree_finalize [OF this assms(2,3)] show ?thesis by (simp add: stage_noop_def Let_def)
qed

lemma agree_admission:
  assumes "alike v w" "j_commit J" "calm J" "live_token tok (j_db0 J)"
  shows "agree (stage_admission J ds tok v) (stage_admission (dry J) ds tok w)"
proof -
  obtain aid db where i: "insert_admission (j_auth J) (map ld_hash ds) (j_db0 J) = (aid, db)" by fastforce
  then have "live_token tok db" using assms(4) live_token_keeps(4) [of tok "j_auth J" "map ld_hash ds" "j_db0 J"] by simp
  then show ?thesis using assms(1-3) by (auto simp: stage_admission_def i intro!: agree_noop agree_insert)
qed

lemma policy_live_token: "check_scope_policy db n p a sc ds = Inr tok \<Longrightarrow> live_token tok db"
  by (auto simp: check_scope_policy_def validate_token_def live_token_def Let_def split: if_splits option.splits sum.splits)

lemma agree_policy:
  assumes "alike v w" "j_commit J" "calm J"
  shows "agree (stage_policy J ds v) (stage_policy (dry J) ds w)"
proof (cases "validate_seeders (j_patch J) (j_auth J)")
  case (Inr ss)
  have a: "alike (v\<lparr>vd_seeders := ss\<rparr>) (w\<lparr>vd_seeders := ss\<rparr>)" using assms(1) by (simp add: alike_iff)
  show ?thesis
  proof (cases "check_scope_policy (j_db0 J) (e_now (j_env J)) (j_patch J) (j_auth J) (pt_scope (j_patch J)) ds")
    case (Inr tok)
    note t = policy_live_token [OF Inr]
    have "agree (stage_admission J ds tok (case tok of Some (_, m) \<Rightarrow> v\<lparr>vd_seeders := ss, vd_approved_by := m\<rparr> | None \<Rightarrow> v\<lparr>vd_seeders := ss\<rparr>))
        (stage_admission (dry J) ds tok (case tok of Some (_, m) \<Rightarrow> w\<lparr>vd_seeders := ss, vd_approved_by := m\<rparr> | None \<Rightarrow> w\<lparr>vd_seeders := ss\<rparr>))"
      using a assms t by (intro agree_admission) (auto simp: alike_iff split: option.splits prod.splits)
    with Inr \<open>validate_seeders _ _ = Inr ss\<close> show ?thesis by (simp add: stage_policy_def Let_def)
  qed (use a \<open>validate_seeders _ _ = Inr ss\<close> in \<open>simp add: stage_policy_def Let_def\<close>)
qed (use assms(1) in \<open>simp add: stage_policy_def\<close>)

lemma agree_once:
  assumes "j_commit J" "calm J"
  shows "agree (admit_once J) (admit_once (dry J))"
proof -
  have a: "alike (first_verdict (\<not> j_commit J)) (first_verdict True)" by (simp add: alike_iff first_verdict_def)
  have b: "alike (passed ''lower'' (first_verdict (\<not> j_commit J)\<lparr>vd_hashes := h\<rparr>)) (passed ''lower'' (first_verdict True\<lparr>vd_hashes := h\<rparr>))" for h
    by (intro alike_passed) (simp add: alike_iff first_verdict_def)
  show ?thesis unfolding admit_once_def Let_def using a agree_policy [OF b assms] assms(1)
    by (auto split: sum.splits)
qed

lemma dry_job: "dry (job_of E p a True i db) = job_of E p a False i db"
  by (simp add: dry_def job_of_def)

definition same_answer :: "answer \<Rightarrow> answer \<Rightarrow> bool" where
  "same_answer x y \<longleftrightarrow> (case x of
      Answer v _ \<Rightarrow> (case y of Answer w _ \<Rightarrow> alike v w | Broken _ \<Rightarrow> False)
    | Broken db \<Rightarrow> y = Broken db)"

lemma retry_agrees:
  assumes "\<And>i. \<not> e_conflict E i ''commit'' \<and> \<not> e_conflict E i ''approval''"
  shows "same_answer (retry_admission E p a True n db) (retry_admission E p a False n db)"
proof (induction n arbitrary: db)
  case 0
  show ?case by (simp add: same_answer_def finish_refusal_def Let_def)
next
  case (Suc n)
  let ?J = "job_of E p a True (max_retries - Suc n) db"
  have "agree (admit_once ?J) (admit_once (dry ?J))"
    by (rule agree_once) (use assms in \<open>auto simp: job_of_def calm_def conflict_def\<close>)
  then have "agree (admit_once ?J) (admit_once (job_of E p a False (max_retries - Suc n) db))" by (simp only: dry_job)
  then show ?case using Suc.IH
    by (auto simp: agree_def same_answer_def job_of_def split: attempt.splits)
qed

subsection \<open>A green dry run changes no table\<close>

lemma dry_green:
  assumes "admit_with_retries E p a False db = Answer v db'" "\<not> non_green (vd_outcome v)"
  shows "same_tables db db'"
  using retry_admission_cases [OF assms(1) [unfolded admit_with_retries_def]]
proof (elim disjE exE conjE)
  fix i db1 assume s: "same_tables db db1" "admit_once (job_of E p a False i db1) = Settled v db'"
  from kept_once [of "job_of E p a False i db1"] s(2) assms(2) have "same_tables db1 db'"
    by (simp add: kept_def job_of_def rolled_back_def same_tables_def split: if_splits)
  with s(1) show ?thesis by (rule same_tables_trans)
next
  fix db1 assume "(v, db') = finish_refusal E a p retries_verdict db1"
  then show ?thesis using assms(2) by (simp add: finish_refusal_def Let_def retries_verdict_def non_green_def)
qed

end
