(* ===== verification/Adm_Door.thy ===== *)
theory Adm_Door
  imports Complex_Main Adm_Pipeline_Laws Go_Strconv
begin

section \<open>Backpressure and the verdict ledger\<close>

text \<open>
  \<open>internal/admission/backpressure.go\<close>, the door around the pipeline, and \<open>verdict_get.go\<close>.  The fuel
  columns are of type \<open>numeric\<close>, hence rationals; times are seconds.  \<open>do_busy\<close> counts the admissions
  of other connections that hold the semaphore when a call arrives.  A stored verdict is read back as it
  was written.
\<close>

record fuel_row =
  fu_capacity :: rat
  fu_tokens :: rat
  fu_refill :: rat
  fu_at :: rat

record door =
  do_fuel :: "string \<Rightarrow> fuel_row option"
  do_kinds :: "string \<Rightarrow> (rat \<times> rat) option"
  do_busy :: nat
  do_bound :: nat

text \<open>\<open>fuelCheck\<close>: provision, refill by elapsed time, read.\<close>

definition provision :: "rat \<Rightarrow> submitter \<Rightarrow> door \<Rightarrow> door" where
  "provision now a D = (case (do_fuel D (subject_of a), do_kinds D (sb_kind a)) of
      (None, Some (cap, rate)) \<Rightarrow> D\<lparr>do_fuel := (do_fuel D)(subject_of a \<mapsto>
        \<lparr>fu_capacity = cap, fu_tokens = cap, fu_refill = rate, fu_at = now\<rparr>)\<rparr>
    | _ \<Rightarrow> D)"

definition refilled :: "rat \<Rightarrow> fuel_row \<Rightarrow> fuel_row" where
  "refilled now r = r\<lparr>fu_tokens := min (fu_capacity r) (fu_tokens r + fu_refill r * (now - fu_at r)), fu_at := now\<rparr>"

definition backoff_ms :: "fuel_row \<Rightarrow> nat" where
  "backoff_ms r = (if fu_refill r \<le> 0 then 60000 else max 1 (nat \<lceil>(1 - fu_tokens r) / fu_refill r * 1000\<rceil>))"

definition fuel_check :: "rat \<Rightarrow> submitter \<Rightarrow> door \<Rightarrow> nat option \<times> door" where
  "fuel_check now a D0 = (let D = provision now a D0 in
     case do_fuel D (subject_of a) of
       None \<Rightarrow> (None, D)
     | Some r0 \<Rightarrow> (let r = refilled now r0 in
         (if 1 \<le> fu_tokens r then None else Some (backoff_ms r), D\<lparr>do_fuel := (do_fuel D)(subject_of a \<mapsto> r)\<rparr>)))"

text \<open>\<open>stageCost\<close>, \<open>chargeForVerdict\<close> and \<open>fuelCharge\<close>.\<close>

definition stage_cost :: "string \<Rightarrow> rat" where
  "stage_cost s = (if s \<in> {[], ''typecheck-budget'', ''lower'', ''seeders''} then 1
     else if s = ''insert'' then 2 else if s = ''tsgo'' then 3 else 5)"

definition charge_for :: "verdict \<Rightarrow> rat" where
  "charge_for v = stage_cost (if vd_stages v = [] then [] else fst (last (vd_stages v)))"

definition fuel_charge :: "submitter \<Rightarrow> rat \<Rightarrow> door \<Rightarrow> door" where
  "fuel_charge a cost D = (case do_fuel D (subject_of a) of
      Some r \<Rightarrow> if cost \<le> 0 then D
        else D\<lparr>do_fuel := (do_fuel D)(subject_of a \<mapsto> r\<lparr>fu_tokens := max 0 (fu_tokens r - cost)\<rparr>)\<rparr>
    | None \<Rightarrow> D)"

text \<open>\<open>preRefuse\<close> and \<open>admitCore\<close>, with \<open>newSemaphore\<close> and \<open>tryAcquire\<close>.\<close>

definition pre_refuse :: "env \<Rightarrow> patch \<Rightarrow> submitter \<Rightarrow> string \<Rightarrow> string \<Rightarrow> nat \<times> string \<Rightarrow> gate_db \<Rightarrow> answer" where
  "pre_refuse E p a outc code retry db =
     (case finish_refusal E a p ((first_verdict False)\<lparr>vd_outcome := outc, vd_retry_after := Some retry,
         vd_diags := [\<lparr>dg_stage = ''admission-control'', dg_code = code, dg_subject = [], dg_def = [], dg_about = []\<rparr>]\<rparr>) db of
        (v, db') \<Rightarrow> Answer v db')"

definition try_acquire :: "door \<Rightarrow> bool" where
  "try_acquire D \<longleftrightarrow> do_busy D < max 1 (do_bound D)"

definition admit_core :: "rat \<Rightarrow> env \<Rightarrow> patch \<Rightarrow> submitter \<Rightarrow> bool \<Rightarrow> door \<Rightarrow> gate_db \<Rightarrow> answer \<times> door" where
  "admit_core now E p a commit D0 db =
     (case fuel_check now a D0 of
        (Some ms, D) \<Rightarrow> (pre_refuse E p a ''budget-exhausted'' ''ADMISSION_BUDGET'' (ms, ''budget-refill'') db, D)
      | (None, D) \<Rightarrow>
          if \<not> try_acquire D then (pre_refuse E p a ''busy'' ''ADMISSION_BUSY'' (25, ''admission-busy'') db, D)
          else (case admit_with_retries E p a commit db of
             Broken db' \<Rightarrow> (Broken db', D)
           | Answer v db' \<Rightarrow> (Answer v db', fuel_charge a (charge_for v) D)))"

text \<open>\<open>FetchVerdict\<close>.\<close>

definition looks_like_uuid :: "string \<Rightarrow> bool" where
  "looks_like_uuid s \<longleftrightarrow> length s = 36 \<and>
     list_all (\<lambda>i. if i \<in> {8, 13, 18, 23} then s ! i = CHR ''-'' else is_digit (s ! i) \<or> is_hex (s ! i)) [0..<36]"

definition fetch_verdict :: "gate_db \<Rightarrow> string \<Rightarrow> string \<Rightarrow> verdict option" where
  "fetch_verdict db i caller =
     (if looks_like_uuid i
      then map_option rf_verdict (find (\<lambda>r. rf_id r = i \<and> rf_principal r = caller) (g_refusals db))
      else (case atoi i of
          Some n \<Rightarrow> (case g_admissions db (nat n) of
              Some r \<Rightarrow> if 0 \<le> n \<and> ad_subject r = caller then ad_report r else None
            | None \<Rightarrow> None)
        | None \<Rightarrow> None))"

subsection \<open>The bucket\<close>

text \<open>The calls of every principal in order, each with its time and the load it meets; how many of a
  subject's calls were answered by the pipeline.\<close>

record call =
  ca_now :: rat
  ca_busy :: nat
  ca_env :: env
  ca_patch :: patch
  ca_by :: submitter
  ca_commit :: bool

definition answered :: "answer \<Rightarrow> bool" where
  "answered x \<longleftrightarrow> (case x of Answer v _ \<Rightarrow> vd_outcome v \<noteq> ''budget-exhausted'' \<and> vd_outcome v \<noteq> ''busy'' | Broken _ \<Rightarrow> False)"

definition after_call :: "answer \<Rightarrow> gate_db" where
  "after_call x = (case x of Answer _ db \<Rightarrow> db | Broken db \<Rightarrow> db)"

definition serve :: "call \<Rightarrow> door \<Rightarrow> gate_db \<Rightarrow> answer \<times> door" where
  "serve c D db = admit_core (ca_now c) (ca_env c) (ca_patch c) (ca_by c) (ca_commit c) (D\<lparr>do_busy := ca_busy c\<rparr>) db"

fun answers :: "string \<Rightarrow> call list \<Rightarrow> door \<Rightarrow> gate_db \<Rightarrow> nat" where
  "answers s [] D db = 0"
| "answers s (c # cs) D db = (case serve c D db of (x, D') \<Rightarrow>
     (if subject_of (ca_by c) = s \<and> answered x then 1 else 0) + answers s cs D' (after_call x))"

lemma stage_cost_pos: "1 \<le> stage_cost s"
  by (simp add: stage_cost_def)

lemma pre_refuse_unanswered:
  "\<not> answered (pre_refuse E p a ''budget-exhausted'' code retry db)" "\<not> answered (pre_refuse E p a ''busy'' code retry db)"
  by (simp_all add: pre_refuse_def finish_refusal_def Let_def answered_def)

definition bucket :: "string \<Rightarrow> door \<Rightarrow> fuel_row \<Rightarrow> bool" where
  "bucket s D r \<longleftrightarrow> do_fuel D s = Some r \<and> 0 \<le> fu_tokens r"

lemma other_subject:
  assumes "admit_core now E p a commit D db = (x, D')" "subject_of a \<noteq> s"
  shows "do_fuel D' s = do_fuel D s"
  using assms by (auto simp: admit_core_def fuel_check_def provision_def fuel_charge_def Let_def
      split: option.splits prod.splits if_splits answer.splits)

lemma fuel_check_row:
  assumes "do_fuel D (subject_of a) = Some r"
  shows "fuel_check now a D = (if 1 \<le> fu_tokens (refilled now r) then None else Some (backoff_ms (refilled now r)),
      D\<lparr>do_fuel := (do_fuel D)(subject_of a \<mapsto> refilled now r)\<rparr>)"
  using assms by (simp add: fuel_check_def provision_def Let_def)

lemma own_subject:
  assumes "admit_core now E p a commit D db = (x, D')" "bucket (subject_of a) D r" "0 \<le> fu_refill r" "fu_at r \<le> now"
    and "0 \<le> fu_capacity r"
  shows "\<exists>r'. bucket (subject_of a) D' r' \<and> fu_capacity r' = fu_capacity r \<and> fu_refill r' = fu_refill r \<and> fu_at r' = now \<and>
    fu_tokens r' + (if answered x then 1 else 0) \<le> fu_tokens r + fu_refill r * (now - fu_at r)"
proof -
  let ?r = "refilled now r" and ?D = "D\<lparr>do_fuel := (do_fuel D)(subject_of a \<mapsto> refilled now r)\<rparr>"
  have row: "do_fuel D (subject_of a) = Some r" and pos: "0 \<le> fu_tokens r" using assms(2) by (auto simp: bucket_def)
  have up: "fu_tokens ?r \<le> fu_tokens r + fu_refill r * (now - fu_at r)" by (simp add: refilled_def)
  have "0 \<le> fu_refill r * (now - fu_at r)" using assms(3,4) by simp
  then have low: "0 \<le> fu_tokens ?r" using pos assms(5) by (simp add: refilled_def)
  have keep: "fu_capacity ?r = fu_capacity r \<and> fu_refill ?r = fu_refill r \<and> fu_at ?r = now" by (simp add: refilled_def)
  note fc = fuel_check_row [OF row, of now]
  consider "D' = ?D" "\<not> answered x" | v where "1 \<le> fu_tokens ?r" "D' = fuel_charge a (charge_for v) ?D"
  proof (cases "1 \<le> fu_tokens ?r \<and> try_acquire ?D")
    case False
    then show thesis using assms(1) that(1) pre_refuse_unanswered by (auto simp: admit_core_def fc split: if_splits)
  next
    case True
    then have "(x, D') = (case admit_with_retries E p a commit db of Broken db' \<Rightarrow> (Broken db', ?D)
        | Answer v db' \<Rightarrow> (Answer v db', fuel_charge a (charge_for v) ?D))"
      using assms(1) by (simp add: admit_core_def fc)
    moreover have "1 \<le> fu_tokens ?r" using True by blast
    ultimately show thesis using that by (simp add: answered_def split: answer.splits)
  qed
  then show ?thesis
  proof cases
    case 1
    then show ?thesis using up low keep by (intro exI [of _ ?r]) (auto simp: bucket_def)
  next
    case (2 v)
    have c: "1 \<le> charge_for v" by (simp add: charge_for_def stage_cost_pos)
    let ?q = "?r\<lparr>fu_tokens := max 0 (fu_tokens ?r - charge_for v)\<rparr>"
    have "fu_tokens ?q + 1 \<le> fu_tokens ?r" using c 2(1) by simp
    moreover have "bucket (subject_of a) D' ?q" using c 2(2) by (simp add: bucket_def fuel_charge_def)
    ultimately show ?thesis using up keep by (intro exI [of _ ?q]) auto
  qed
qed

lemma answers_bound:
  assumes "sorted (map ca_now cs)" "\<forall>c\<in>set cs. fu_at r \<le> ca_now c \<and> ca_now c \<le> T" "fu_at r \<le> T"
    and "bucket s D r" "0 \<le> fu_refill r" "0 \<le> fu_capacity r"
  shows "of_nat (answers s cs D db) \<le> fu_tokens r + fu_refill r * (T - fu_at r)"
  using assms
proof (induction cs arbitrary: D db r)
  case Nil
  then show ?case by (simp add: bucket_def)
next
  case (Cons c cs)
  obtain x D' where s: "serve c D db = (x, D')" by fastforce
  then have core: "admit_core (ca_now c) (ca_env c) (ca_patch c) (ca_by c) (ca_commit c) (D\<lparr>do_busy := ca_busy c\<rparr>) db = (x, D')"
    by (simp add: serve_def)
  show ?case
  proof (cases "subject_of (ca_by c) = s")
    case True
    have "bucket (subject_of (ca_by c)) (D\<lparr>do_busy := ca_busy c\<rparr>) r" using Cons.prems(4) True by (simp add: bucket_def)
    from own_subject [OF core this Cons.prems(5)] Cons.prems(2,6) True obtain r' where
      r': "bucket s D' r'" "fu_capacity r' = fu_capacity r" "fu_refill r' = fu_refill r" "fu_at r' = ca_now c"
        "fu_tokens r' + (if answered x then 1 else 0) \<le> fu_tokens r + fu_refill r * (ca_now c - fu_at r)" by auto
    have "of_nat (answers s cs D' (after_call x)) \<le> fu_tokens r' + fu_refill r' * (T - fu_at r')"
      using Cons.prems r' by (intro Cons.IH) auto
    then have "of_nat (answers s cs D' (after_call x)) + (if answered x then 1 else 0) \<le>
        fu_tokens r + fu_refill r * (ca_now c - fu_at r) + fu_refill r * (T - ca_now c)"
      using r' by simp
    then show ?thesis using s True by (cases "answered x") (simp_all add: algebra_simps)
  next
    case False
    have "bucket s D' r" using other_subject [OF core False] Cons.prems(4) by (simp add: bucket_def)
    then have "of_nat (answers s cs D' (after_call x)) \<le> fu_tokens r + fu_refill r * (T - fu_at r)"
      using Cons.prems by (intro Cons.IH) auto
    then show ?thesis using s False by simp
  qed
qed

end
