(* ===== verification/Adm_Gate_Samples.thy ===== *)
theory Adm_Gate_Samples
  imports Adm_Gate_Laws Adm_Door Adm_Samples Rast_Encode
begin

section \<open>A sample submission\<close>

text \<open>
  An agent submits \<open>export function f() { return "ok"; }\<close> to the product of an empty catalog, with a
  token a human minted for its hash.  The hash is the address of the body, never computed: what the
  verifiers find does not depend on it.
\<close>

definition gate_body :: node where
  "gate_body = nfunc [] [nreturn (nstrlit ''ok'')]"

definition gate_def :: "string \<Rightarrow> lowered" where
  "gate_def h = (ex_fun [] [nreturn (nstrlit ''ok'')])\<lparr>ld_deps := [], ld_names := [], ld_hash := h\<rparr>"

definition gate_hash :: string where
  "gate_hash = address gate_body"

definition gate_env :: env where
  "gate_env = \<lparr>e_image = ex_image, e_now = 5, e_clock = (\<lambda>i. i + 10), e_uuid = ''00000000-0000-4000-8000-0000000000aa'',
     e_budget = (\<lambda>_. []), e_lower = (\<lambda>_ _. Inr [gate_def gate_hash]), e_check = (\<lambda>_ _ _. CheckOk),
     e_conflict = (\<lambda>_ _. False)\<rparr>"

definition gate_scope :: scope_ref where
  "gate_scope = \<lparr>sc_kind = 0, sc_id = []\<rparr>"

definition gate_patch :: patch where
  "gate_patch = \<lparr>pt_modules = [\<lparr>md_name = ''app/crm'', md_source = ''export function f()''\<rparr>], pt_declared = (\<lambda>_. None),
     pt_default = [], pt_tier = (\<lambda>_. ''workflow''), pt_intent = [], pt_scope = gate_scope, pt_base = (\<lambda>_. None),
     pt_token = ''tok'', pt_reads = []\<rparr>"

definition gate_agent :: submitter where
  "gate_agent = \<lparr>sb_kind = ''agent'', sb_id = ''a1'', sb_via = ''api'',
     sb_chain = \<lparr>ch_user = [], ch_team = [], ch_org = ''acme'', ch_package = []\<rparr>\<rparr>"

definition gate_human :: submitter where
  "gate_human = \<lparr>sb_kind = ''engineer'', sb_id = ''eve'', sb_via = ''api'',
     sb_chain = \<lparr>ch_user = [], ch_team = [], ch_org = ''acme'', ch_package = []\<rparr>\<rparr>"

definition gate_token :: token_row where
  "gate_token = \<lparr>tk_bound = [gate_hash], tk_by = ''engineer:eve'', tk_for = ''agent:a1'', tk_scope = ''0:'', tk_expires = 9,
     tk_consumed = None\<rparr>"

definition gate_db0 :: gate_db where
  "gate_db0 = \<lparr>g_cat = \<lparr>ct_defs = (\<lambda>_. None), ct_ptrs = (\<lambda>_. None), ct_hist = []\<rparr>,
     g_derived = \<lparr>st_shapes = (\<lambda>_. None), st_schema = \<lparr>sm_tables = (\<lambda>_. None), sm_hist = (\<lambda>_. None)\<rparr>\<rparr>,
     g_artifacts = [], g_admissions = (\<lambda>_. None), g_next = 7, g_refusals = [], g_tokens = [''tok'' \<mapsto> gate_token],
     g_grants = (\<lambda>_. {})\<rparr>"

definition gate_door :: door where
  "gate_door = \<lparr>do_fuel = (\<lambda>_. None), do_kinds = [''agent'' \<mapsto> (100000, 1000), ''engineer'' \<mapsto> (10000000, 1000000)],
     do_busy = 0, do_bound = 2\<rparr>"

subsection \<open>What each step finds\<close>

lemma gate_findings:
  "verify_v2_def ex_image [] (gate_def h) = Some ([], {})" "verify_v5_def ex_image (gate_def h) = Some []"
  "find_contract_clauses ex_image (gate_def h) = []" "pii_return_map [gate_def h] = []"
  "lower_component ex_image (gate_def h) = None" "named_capabilities ex_image (gate_def h) = []"
  by code_simp+

lemma gate_fields [simp]:
  "ld_hash (gate_def h) = h" "ld_catalog (gate_def h) = ''app/crm/f''" "ld_name (gate_def h) = ''f''"
  "ld_deps (gate_def h) = []" "ld_kind (gate_def h) = DefFunc" "ld_body (gate_def h) = gate_body" "ld_exported (gate_def h)"
  by (simp_all add: gate_def_def ex_fun_def gate_body_def)

lemma gate_parses: "parse_resource im names (gate_def h) = None" "parse_policy im (gate_def h) = None"
  by (simp_all add: parse_resource_def parse_policy_def)

lemma gate_lowers: "lower_patch gate_env c gate_patch = Inr [gate_def gate_hash]"
proof -
  have "catalogued \<lparr>md_name = ''app/crm'', md_source = s\<rparr> (gate_def h) = gate_def h" for s h
    by (simp add: catalogued_def gate_def_def ex_fun_def)
  then show ?thesis
    by (simp add: lower_patch_def gate_patch_def gate_env_def dep_insert_order_def dep_children_def map_filter_def)
qed

lemma gate_rehashes: "rehashes gate_hash (encode_node gate_body)"
proof -
  have "wf_node gate_body" by code_simp
  then show ?thesis by (simp add: rehashes_def decode_encode verify_address_def gate_hash_def)
qed

lemma gate_plan: "patch_plan im st sc i [gate_def h] = \<lparr>pl_resources = [], pl_policies = [], pl_wired = {}, pl_sql = []\<rparr>"
  by (simp add: patch_plan_def build_plan_def gate_parses map_filter_def plan_ddl_def join_with.simps)

lemma gate_verifies:
  "\<forall>x\<in>set (verifiers (job_of gate_env gate_patch a b i db) [gate_def h] \<lparr>pl_resources = [], pl_policies = [], pl_wired = {}, pl_sql = []\<rparr>).
     snd x = Some []"
  by (simp add: verifiers_def job_of_def gate_env_def gate_findings verify_v1_def verify_v1_def_def verify_v2_def verify_v4_def
      verify_v4_def_def verify_v3_def verify_v6_def declared_for_def gate_patch_def set_of_def sorted_keys_def Let_def)

lemma run_verifiers_pass:
  "\<forall>x\<in>set vs. snd x = Some [] \<Longrightarrow> \<exists>w. run_verifiers J vs v db k = k w"
proof (induction vs arbitrary: v)
  case (Cons x vs)
  obtain name where x: "x = (name, Some [])" using Cons.prems by (cases x) auto
  from Cons.IH [of "passed name v"] Cons.prems show ?case by (simp add: x)
qed auto

subsection \<open>The admission\<close>

abbreviation sample_job :: "submitter \<Rightarrow> bool \<Rightarrow> gate_db \<Rightarrow> job" where
  "sample_job a commit db \<equiv> job_of gate_env gate_patch a commit 0 db"

lemma gate_job [simp]:
  "j_env (sample_job a commit db) = gate_env" "j_patch (sample_job a commit db) = gate_patch"
  "j_auth (sample_job a commit db) = a" "j_commit (sample_job a commit db) = commit" "j_db0 (sample_job a commit db) = db"
  "\<not> conflict (sample_job a commit db) point" "pt_scope gate_patch = gate_scope" "pt_base gate_patch n = None"
  "e_image gate_env = ex_image" "e_clock gate_env = (\<lambda>i. i + 10)" "e_check gate_env p ds c = CheckOk" "e_now gate_env = 5"
  "pt_tier gate_patch n = ''workflow''" "e_budget gate_env ms = []"
  by (simp_all add: job_of_def conflict_def gate_env_def gate_patch_def)

definition gate_cat1 :: "catalog" where
  "gate_cat1 = (g_cat gate_db0)\<lparr>ct_defs := [gate_hash \<mapsto> def_row_of 7 (gate_def gate_hash)]\<rparr>"

lemma gate_inserts: "insert_definitions 7 [gate_def gate_hash] (g_cat gate_db0) = Inr gate_cat1"
proof -
  have "dr_ast (def_row_of 7 (gate_def gate_hash)) = encode_node gate_body" "dr_deps (def_row_of 7 (gate_def gate_hash)) = []"
    by (simp_all add: def_row_of_def dep_hashes_def sorted_keys_def)
  then show ?thesis by (simp add: insert_definition_def gate_rehashes gate_cat1_def gate_db0_def)
qed

definition gate_cat2 :: "catalog" where
  "gate_cat2 = gate_cat1\<lparr>ct_hist := [window_of 10 (pointer_for 7 gate_scope (gate_def gate_hash))],
     ct_ptrs := [(''app/crm/f'', gate_scope) \<mapsto> row_of (pointer_for 7 gate_scope (gate_def gate_hash))]\<rparr>"

lemma gate_moves: "move_pointers (\<lambda>i. i + 10) 7 gate_scope gate_patch [gate_def gate_hash] gate_cat1 = Inr (None, gate_cat2)"
proof -
  have "base_for gate_patch (gate_def gate_hash) = None" by (simp add: base_for_def)
  moreover have "upsert_pointer_cas 10 (pointer_for 7 gate_scope (gate_def gate_hash)) None gate_cat1 = Inr (True, gate_cat2)"
    by (simp add: upsert_pointer_cas_def move_pointer_def write_history_def pointer_for_def gate_cat1_def gate_cat2_def
        gate_db0_def def_row_of_def)
  ultimately show ?thesis by simp
qed

lemma gate_policy: "check_scope_policy gate_db0 5 gate_patch gate_agent gate_scope [gate_def gate_hash] = Inr (Some (''tok'', ''engineer:eve''))"
proof -
  have "int_str 0 = ''0''" by code_simp
  then have "validate_token gate_db0 5 ''tok'' gate_agent gate_scope (sorted_hashes [gate_def gate_hash]) = Inr ''engineer:eve''"
    by (simp add: validate_token_def gate_db0_def gate_token_def subject_of_def gate_agent_def scope_key_def gate_scope_def
        same_string_set_def sorted_hashes_def Let_def)
  then show ?thesis
    by (simp add: check_scope_policy_def gate_agent_def agent_overlay_scope_def gate_scope_def is_product_scope_def
        gate_patch_def Let_def)
qed

lemma gate_derives:
  assumes "g_cat db = gate_cat1" "db' = write_derived 7 gate_scope ex_image \<lparr>pl_resources = [], pl_policies = [], pl_wired = {}, pl_sql = []\<rparr>
      [gate_def gate_hash] db"
    and "consume_token ''tok'' 7 (db'\<lparr>g_cat := gate_cat2\<rparr>) = Some db2"
  shows "\<exists>v. stage_derive (sample_job a True db0) [gate_def gate_hash] 7 (Some (''tok'', m)) w db =
    Settled v (record_report 7 [] v db2) \<and> vd_outcome v = ''admitted''"
proof -
  let ?J = "sample_job a True db0" and ?pl = "\<lparr>pl_resources = [], pl_policies = [], pl_wired = {}, pl_sql = []\<rparr>"
  let ?ds = "[gate_def gate_hash]"
  have pl: "patch_plan ex_image st sc i ?ds = ?pl" for st sc i by (rule gate_plan)
  have c: "g_cat db' = gate_cat1" using assms(1,2) by (simp add: write_derived_def)
  obtain w' where "run_verifiers ?J (verifiers ?J ?ds ?pl) (passed ''derive'' w) db'
      (\<lambda>v. stage_migrate ?J ?ds 7 (Some (''tok'', m)) ?pl v db') = stage_migrate ?J ?ds 7 (Some (''tok'', m)) ?pl w' db'"
    using run_verifiers_pass [OF gate_verifies] by blast
  then have "stage_derive ?J ?ds 7 (Some (''tok'', m)) w db = stage_migrate ?J ?ds 7 (Some (''tok'', m)) ?pl w' db'"
    by (simp add: stage_derive_def pl assms(2) Let_def)
  moreover have "collect_pii_touched ex_image ?ds = Some {}"
    by (simp add: collect_pii_touched_def gate_findings)
  ultimately obtain w2 where "stage_derive ?J ?ds 7 (Some (''tok'', m)) w db =
      stage_record ?J 7 [] (Some (''tok'', m)) w2 (db'\<lparr>g_cat := gate_cat2\<rparr>)"
    by (simp add: stage_migrate_def stage_cas_def plan_ddl_def c gate_moves Let_def del: move_pointers.simps)
  then show ?thesis by (simp add: stage_record_def finalize_txn_def assms(3) Let_def)
qed

lemma first_attempt:
  "admit_once (job_of E p a commit 0 db) = Settled v db' \<Longrightarrow> admit_with_retries E p a commit db = Answer v db'"
  by (simp add: admit_with_retries_def max_retries_def numeral_3_eq_3 job_of_def)

lemma gate_admits:
  "\<exists>v db'. admit_with_retries gate_env gate_patch gate_agent True gate_db0 = Answer v db' \<and> vd_outcome v = ''admitted'' \<and>
     g_cat db' = gate_cat2"
proof -
  let ?J = "sample_job gate_agent True gate_db0" and ?ds = "[gate_def gate_hash]"
  obtain db1 where ins: "insert_admission gate_agent [gate_hash] gate_db0 = (7, db1)" "g_cat db1 = g_cat gate_db0"
      "g_tokens db1 = [''tok'' \<mapsto> gate_token]"
    by (simp add: insert_admission_def gate_db0_def)
  define db where "db = db1\<lparr>g_cat := gate_cat1\<rparr>"
  let ?pl = "\<lparr>pl_resources = [], pl_policies = [], pl_wired = {}, pl_sql = []\<rparr>"
  define db' where "db' = write_derived 7 gate_scope ex_image ?pl ?ds db"
  have tok: "g_tokens (db'\<lparr>g_cat := gate_cat2\<rparr>) = [''tok'' \<mapsto> gate_token]"
    by (simp add: db'_def db_def write_derived_def ins)
  then obtain db2 where c: "consume_token ''tok'' 7 (db'\<lparr>g_cat := gate_cat2\<rparr>) = Some db2"
    by (simp add: consume_token_def gate_token_def)
  then have c2: "g_cat db2 = gate_cat2" using tok by (auto simp: consume_token_def gate_token_def)
  have noop: "\<not> is_noop (g_cat gate_db0) gate_scope ?ds" by (simp add: is_noop_def head_of_def gate_db0_def)
  have se: "validate_seeders gate_patch gate_agent = Inr []" by (simp add: validate_seeders_def gate_agent_def)
  obtain w where "admit_once ?J = stage_derive ?J ?ds 7 (Some (''tok'', ''engineer:eve'')) w db"
    by (simp add: admit_once_def gate_lowers stage_policy_def se gate_policy stage_admission_def ins noop stage_insert_def
        gate_inserts stage_check_def db_def Let_def del: insert_definitions.simps)
  moreover obtain v where "stage_derive ?J ?ds 7 (Some (''tok'', ''engineer:eve'')) w db = Settled v (record_report 7 [] v db2)"
      "vd_outcome v = ''admitted''"
    using gate_derives [OF _ db'_def c, of gate_agent gate_db0 "''engineer:eve''" w] by (auto simp: db_def)
  ultimately have "admit_with_retries gate_env gate_patch gate_agent True gate_db0 = Answer v (record_report 7 [] v db2)"
    by (intro first_attempt) simp
  then show ?thesis using \<open>vd_outcome v = ''admitted''\<close> c2 by (intro exI [of _ v] exI [of _ "record_report 7 [] v db2"] conjI) simp_all
qed

lemma gate_fuel: "a \<in> {gate_agent, gate_human} \<Longrightarrow> \<exists>D. fuel_check 0 a gate_door = (None, D) \<and> try_acquire D"
  by (auto simp: fuel_check_def provision_def gate_door_def refilled_def try_acquire_def gate_agent_def gate_human_def Let_def)

lemma core_of_answer:
  assumes "admit_with_retries gate_env p a True db = Answer v db'" "a \<in> {gate_agent, gate_human}"
  shows "\<exists>D'. admit_core 0 gate_env p a True gate_door db = (Answer v db', D')"
  using gate_fuel [OF assms(2)] assms(1) by (auto simp: admit_core_def)

lemma gate_core:
  "\<exists>v db' D'. admit_core 0 gate_env gate_patch gate_agent True gate_door gate_db0 = (Answer v db', D') \<and>
     vd_outcome v = ''admitted'' \<and> g_cat db' = gate_cat2"
  using gate_admits core_of_answer by blast

subsection \<open>The same patch again, and without a token\<close>

lemma gate_again:
  assumes "g_cat db = gate_cat2"
  shows "\<exists>v db' D'. admit_core 0 gate_env gate_patch gate_human True gate_door db = (Answer v db', D') \<and>
    vd_outcome v = ''already-admitted''"
proof -
  let ?J = "sample_job gate_human True db" and ?ds = "[gate_def gate_hash]"
  have se: "validate_seeders gate_patch gate_human = Inr []" by (simp add: validate_seeders_def gate_human_def)
  have po: "check_scope_policy db 5 gate_patch gate_human gate_scope ?ds = Inr None"
    by (simp add: check_scope_policy_def gate_human_def Let_def)
  obtain aid db1 where ins: "insert_admission gate_human [gate_hash] db = (aid, db1)" "g_cat db1 = gate_cat2"
    using assms by (simp add: insert_admission_def)
  have noop: "is_noop gate_cat2 gate_scope ?ds"
    by (simp add: is_noop_def head_of_def gate_cat2_def row_of_def pointer_for_def)
  obtain v db' where v: "admit_once ?J = Settled v db'" "vd_outcome v = ''already-admitted''"
    by (simp add: admit_once_def gate_lowers stage_policy_def se po stage_admission_def ins noop stage_noop_def
        finalize_txn_def Let_def)
  from core_of_answer [OF first_attempt [OF v(1)]] v(2) show ?thesis by blast
qed

definition tokenless :: patch where
  "tokenless = gate_patch\<lparr>pt_token := []\<rparr>"

lemma tokenless_lowers: "lower_patch gate_env c tokenless = Inr [gate_def gate_hash]"
proof -
  have "lower_patch E c tokenless = lower_patch E c gate_patch" for E by (simp add: lower_patch_def tokenless_def)
  then show ?thesis by (simp add: gate_lowers)
qed

lemma gate_refused:
  "\<exists>v db' D'. admit_core 0 gate_env tokenless gate_agent True gate_door gate_db0 = (Answer v db', D') \<and>
     vd_outcome v = ''rejected'' \<and> vd_refusal v = e_uuid gate_env \<and> map dg_code (vd_diags v) = [''CAP_UNGRANTED'']"
proof -
  let ?J = "job_of gate_env tokenless gate_agent True 0 gate_db0"
  have J: "j_env ?J = gate_env" "j_patch ?J = tokenless" "j_auth ?J = gate_agent" "j_db0 ?J = gate_db0" "\<not> conflict ?J x" for x
    by (simp_all add: job_of_def conflict_def gate_env_def)
  have se: "validate_seeders tokenless gate_agent = Inr []" by (simp add: validate_seeders_def gate_agent_def)
  have po: "check_scope_policy gate_db0 5 tokenless gate_agent (pt_scope tokenless) ds =
      Inl (policy_diag ''CAP_UNGRANTED'' (subject_of gate_agent) (scope_key (pt_scope tokenless)))" for ds
    by (simp add: check_scope_policy_def gate_agent_def agent_overlay_scope_def tokenless_def gate_scope_def
        is_product_scope_def Let_def)
  obtain v db' where v: "admit_once ?J = Settled v db'" "vd_outcome v = ''rejected''" "vd_refusal v = e_uuid gate_env"
      "map dg_code (vd_diags v) = [''CAP_UNGRANTED'']"
    by (simp add: admit_once_def J tokenless_lowers stage_policy_def se po reject_def refuse_def finish_refusal_def
        failed_def policy_diag_def Let_def)
  obtain D' where "admit_core 0 gate_env tokenless gate_agent True gate_door gate_db0 = (Answer v db', D')"
    using core_of_answer [OF first_attempt [OF v(1)] insertI1] by blast
  then show ?thesis using v(2-4) by (intro exI conjI)
qed

lemma gate_uuid: "looks_like_uuid (e_uuid gate_env)"
proof -
  have "e_uuid gate_env = ''00000000-0000-4000-8000-0000000000aa''" by (simp add: gate_env_def)
  moreover have "looks_like_uuid ''00000000-0000-4000-8000-0000000000aa''" by code_simp
  ultimately show ?thesis by simp
qed

end
