(* ===== verification/Adm_Gate_Theorems.thy ===== *)
theory Adm_Gate_Theorems
  imports Adm_Gate_Laws Adm_Parity Adm_Gate_Samples
begin

section \<open>The admission gate\<close>

subsection \<open>From the door to the pipeline\<close>

lemma core_cases:
  assumes "admit_core now E p a commit D db = (x, D')"
  shows "(\<exists>v db'. x = Answer v db' \<and> vd_outcome v \<in> {''budget-exhausted'', ''busy''} \<and>
      db' = db\<lparr>g_refusals := g_refusals db @ [refusal_of a p v]\<rparr>) \<or> x = admit_with_retries E p a commit db"
  using assms by (auto simp: admit_core_def pre_refuse_def finish_refusal_def Let_def non_green_def
      split: prod.splits option.splits if_splits answer.splits)

lemma core_refusal:
  assumes "admit_core now E p a commit D db = (Answer v db', D')" "non_green (vd_outcome v)"
  shows "db' = db\<lparr>g_next := g_next db', g_refusals := g_refusals db @ [refusal_of a p v]\<rparr>"
  using core_cases [OF assms(1)]
proof
  assume "Answer v db' = admit_with_retries E p a commit db"
  then show ?thesis using refusal_trace [OF sym assms(2)] by blast
qed auto

lemma core_admitted:
  assumes "admit_core now E p a True D db = (Answer v db', D')" "vd_outcome v = ''admitted''" "lower_patch E (g_cat db) p = Inr ds"
  shows "\<exists>tok. admission_of E p a db ds tok (vd_admission v) db'"
proof -
  have "admit_with_retries E p a True db = Answer v db'" using core_cases [OF assms(1)] assms(2) by auto
  from gate_admitted [OF this assms(2)] assms(3) show ?thesis by (auto simp: admission_of_def)
qed

lemma core_idle:
  assumes "admit_core now E p a True D db = (Answer v db', D')" "vd_outcome v = ''already-admitted''"
  shows "\<exists>ds. lower_patch E (g_cat db) p = Inr ds \<and> is_noop (g_cat db) (pt_scope p) ds \<and>
    g_cat db' = g_cat db \<and> g_derived db' = g_derived db \<and> g_tokens db' = g_tokens db \<and> g_artifacts db' = g_artifacts db"
proof -
  have "admit_with_retries E p a True db = Answer v db'" using core_cases [OF assms(1)] assms(2) by auto
  from retry_admission_cases [OF this [unfolded admit_with_retries_def]] show ?thesis
  proof (elim disjE exE conjE)
    fix i db1 assume s: "same_tables db db1" "admit_once (job_of E p a True i db1) = Settled v db'"
    then have "idles (admit_once (job_of E p a True i db1)) v db'" using assms(2) by (simp add: idles_def)
    from idle_once [OF this] s(1) show ?thesis
      by (auto simp: record_report_def insert_admission_def same_tables_fields [OF s(1)])
        (metis gate_db.select_convs(3) gate_db.surjective gate_db.update_convs(5) same_tables_def)
  next
    fix db1 assume "(v, db') = finish_refusal E a p retries_verdict db1"
    then show ?thesis using assms(2) by (simp add: finish_refusal_def Let_def retries_verdict_def)
  qed
qed

lemma broken_tables: "retry_admission E p a commit n db = Broken db' \<Longrightarrow> same_tables db db'"
proof (induction n arbitrary: db)
  case (Suc n)
  let ?J = "job_of E p a commit (max_retries - Suc n) db"
  have k: "kept ?J (admit_once ?J)" by (rule kept_once)
  have r: "retry_admission E p a commit (Suc n) db = (case admit_once ?J of
      Settled v db' \<Rightarrow> Answer v db' | Fault db' \<Rightarrow> Broken db' | Again db' \<Rightarrow> retry_admission E p a commit n db')"
    by (simp add: job_of_def)
  show ?case
  proof (cases "admit_once ?J")
    case (Again db1)
    then have "same_tables db db1" using k by (simp add: kept_def job_of_def rolled_back_def same_tables_def)
    then show ?thesis using Suc Again r same_tables_trans by auto
  qed (use Suc.prems r k in \<open>auto simp: kept_def job_of_def rolled_back_def same_tables_def\<close>)
qed (simp split: prod.splits)

lemma admission_catalog:
  assumes "admission_of E p a db ds tok aid db'"
  shows "extends_defs (g_cat db) (g_cat db') \<and> (addressed (g_cat db) \<longrightarrow> addressed (g_cat db')) \<and>
    (\<forall>d\<in>set ds. ct_defs (g_cat db') (ld_hash d) \<noteq> None \<and> rehashes (ld_hash d) (encode_node (ld_body d)) \<and>
      head_of (g_cat db) (pt_scope p) (ld_catalog d) = base_for p d) \<and>
    ct_ptrs (g_cat db') = fold (put_head aid (pt_scope p)) ds (ct_ptrs (g_cat db))"
proof -
  obtain c where i: "insert_definitions aid ds (g_cat db) = Inr c"
    and m: "move_pointers (e_clock E) aid (pt_scope p) p ds c = Inr (None, g_cat db')"
    using assms by (auto simp: admission_of_def)
  note I = insert_all [OF i] and M = move_all [OF m] and A = move_addressed [OF m]
  have "head_of c sc n = head_of (g_cat db) sc n" for sc n using I by (simp add: head_of_def)
  moreover have "extends_defs (g_cat db) (g_cat db')" using I M by (simp add: extends_defs_def)
  ultimately show ?thesis using I M A by simp
qed

lemma charged_same:
  assumes "same_answer x y"
    and "z = (\<lambda>x. case x of Broken db \<Rightarrow> (Broken db, D) | Answer v db \<Rightarrow> (Answer v db, fuel_charge a (charge_for v) D))"
  shows "same_answer (fst (z x)) (fst (z y)) \<and> snd (z x) = snd (z y)"
proof -
  have "charge_for v = charge_for w" if "alike v w" for v w using that by (simp add: charge_for_def alike_iff)
  then show ?thesis using assms by (cases x; cases y) (auto simp: same_answer_def)
qed

lemma find_last: "\<forall>x\<in>set xs. \<not> P x \<Longrightarrow> find P (xs @ [y]) = (if P y then Some y else None)"
  by (induction xs) auto

subsection \<open>Properties\<close>

text \<open>C5: a submission that is not admitted (refused by a check or a verifier, stale, out of retries, over
  budget or over the concurrency bound, in a real or a dry run) changes no table but for exactly one new
  row of the refusal ledger, which holds the very verdict that was returned, and the admission id
  sequence.\<close>

theorem refusal_leaves_no_trace:
  assumes "admit_core now E p a commit D db = (Answer v db', D')" "non_green (vd_outcome v)"
  shows "db' = db\<lparr>g_next := g_next db', g_refusals := g_refusals db @ [refusal_of a p v]\<rparr>"
  by (rule core_refusal [OF assms])

lemma refusal_leaves_no_trace_witness:
  "\<exists>v db' D'. admit_core 0 gate_env tokenless gate_agent True gate_door gate_db0 = (Answer v db', D') \<and>
     vd_outcome v = ''rejected'' \<and> g_cat db' = g_cat gate_db0 \<and> g_tokens db' = g_tokens gate_db0 \<and> length (g_refusals db') = 1"
proof -
  obtain v db' D' where v: "admit_core 0 gate_env tokenless gate_agent True gate_door gate_db0 = (Answer v db', D')"
      "vd_outcome v = ''rejected''" using gate_refused by metis
  have "non_green (vd_outcome v)" using v(2) by (simp add: non_green_def)
  note r = refusal_leaves_no_trace [OF v(1) this]
  have "g_cat db' = g_cat gate_db0 \<and> g_tokens db' = g_tokens gate_db0 \<and> length (g_refusals db') = 1"
    by (subst (1 2 3) r) (simp add: gate_db0_def)
  then show ?thesis using v by (intro exI [of _ v] exI [of _ db'] exI [of _ D'] conjI) simp_all
qed

text \<open>Under its refusal id, a fresh one, the verdict is there for the submitter, and for every other
  caller the answer is not found.\<close>

theorem verdict_is_the_callers:
  assumes "admit_core now E p a commit D db = (Answer v db', D')" "non_green (vd_outcome v)"
    and "looks_like_uuid (vd_refusal v)" "\<forall>r\<in>set (g_refusals db). rf_id r \<noteq> vd_refusal v"
  shows "fetch_verdict db' (vd_refusal v) caller = (if caller = subject_of a then Some v else None)"
proof -
  have "g_refusals db' = g_refusals db @ [refusal_of a p v]" using core_refusal [OF assms(1,2)] by (metis gate_db.select_convs(6) gate_db.surjective gate_db.update_convs(6))
  moreover have "find (\<lambda>r. rf_id r = vd_refusal v \<and> rf_principal r = caller) (g_refusals db @ [refusal_of a p v]) =
      (if caller = subject_of a then Some (refusal_of a p v) else None)"
    using assms(4) by (subst find_last) (auto simp: refusal_of_def)
  ultimately show ?thesis using assms(3) by (simp add: fetch_verdict_def refusal_of_def)
qed

lemma verdict_is_the_callers_witness:
  "\<exists>v db' D'. admit_core 0 gate_env tokenless gate_agent True gate_door gate_db0 = (Answer v db', D') \<and>
     fetch_verdict db' (vd_refusal v) ''agent:a1'' = Some v \<and> fetch_verdict db' (vd_refusal v) ''agent:b2'' = None"
proof -
  obtain v db' D' where v: "admit_core 0 gate_env tokenless gate_agent True gate_door gate_db0 = (Answer v db', D')"
      "vd_outcome v = ''rejected''" "vd_refusal v = e_uuid gate_env" using gate_refused by metis
  have "non_green (vd_outcome v)" "looks_like_uuid (vd_refusal v)" "\<forall>r\<in>set (g_refusals gate_db0). rf_id r \<noteq> vd_refusal v"
    using v gate_uuid by (simp_all add: non_green_def gate_db0_def)
  note f = verdict_is_the_callers [OF v(1) this]
  have "subject_of gate_agent = ''agent:a1''" by (simp add: subject_of_def gate_agent_def)
  then show ?thesis using f [of "''agent:a1''"] f [of "''agent:b2''"] v(1) by (intro exI conjI) simp_all
qed

text \<open>C6: a dry run gives the verdict the commit would give, the admission id and the dry-run mark aside,
  at the same charge, when the commit meets no serialization failure at the two points past the end of a
  dry run; and it changes no table when the verdict is green.\<close>

theorem dry_run_agrees:
  assumes "\<And>i. \<not> e_conflict E i ''commit'' \<and> \<not> e_conflict E i ''approval''"
  shows "same_answer (fst (admit_core now E p a True D db)) (fst (admit_core now E p a False D db)) \<and>
    snd (admit_core now E p a True D db) = snd (admit_core now E p a False D db) \<and>
    (\<forall>v db'. fst (admit_core now E p a False D db) = Answer v db' \<longrightarrow> \<not> non_green (vd_outcome v) \<longrightarrow> same_tables db db')"
proof -
  have s: "same_answer (admit_with_retries E p a True db) (admit_with_retries E p a False db)"
    unfolding admit_with_retries_def by (rule retry_agrees [OF assms])
  have pre: "same_answer (pre_refuse E p a o' code r db) (pre_refuse E p a o' code r db)" for o' code r
    by (simp add: same_answer_def pre_refuse_def finish_refusal_def Let_def)
  have d: "same_tables db db'" if g: "fst (admit_core now E p a False D db) = Answer v db'" "\<not> non_green (vd_outcome v)" for v db'
  proof -
    obtain D' where "admit_core now E p a False D db = (Answer v db', D')" using g
      by (cases "admit_core now E p a False D db") simp
    from core_cases [OF this] that(2) have "admit_with_retries E p a False db = Answer v db'" by (auto simp: non_green_def)
    then show ?thesis using that(2) by (rule dry_green)
  qed
  obtain f D' where f: "fuel_check now a D = (f, D')" by fastforce
  have "same_answer (fst (admit_core now E p a True D db)) (fst (admit_core now E p a False D db)) \<and>
      snd (admit_core now E p a True D db) = snd (admit_core now E p a False D db)"
  proof (cases "f = None \<and> try_acquire D'")
    case True
    then show ?thesis using charged_same [OF s refl, of a D'] by (simp add: admit_core_def f)
  next
    case False
    then show ?thesis using pre by (cases f) (simp_all add: admit_core_def f)
  qed
  with d show ?thesis by blast
qed

lemma dry_run_agrees_witness:
  "\<exists>v db' w db2. fst (admit_core 0 gate_env gate_patch gate_agent True gate_door gate_db0) = Answer v db' \<and>
     fst (admit_core 0 gate_env gate_patch gate_agent False gate_door gate_db0) = Answer w db2 \<and>
     vd_outcome w = ''admitted'' \<and> vd_stages w = vd_stages v \<and> same_tables gate_db0 db2"
proof -
  obtain v db' D' where v: "admit_core 0 gate_env gate_patch gate_agent True gate_door gate_db0 = (Answer v db', D')"
      "vd_outcome v = ''admitted''" using gate_core by metis
  have "\<not> e_conflict gate_env i ''commit'' \<and> \<not> e_conflict gate_env i ''approval''" for i by (simp add: gate_env_def)
  note d = dry_run_agrees [OF this, of 0 gate_patch gate_agent gate_door gate_db0]
  then obtain w db2 where w: "fst (admit_core 0 gate_env gate_patch gate_agent False gate_door gate_db0) = Answer w db2" "alike v w"
    by (auto simp: v(1) same_answer_def split: answer.splits)
  moreover have "same_tables gate_db0 db2"
    using d w v(2) by (auto simp: alike_iff non_green_def)
  ultimately show ?thesis using v by (auto simp: alike_iff)
qed

text \<open>C7: an admitted patch passed every verifier over its lowered definitions: no ungranted capability
  (V1), no flow of personal data (V2), a derivation plan that drops nothing without the retire directive
  (V3), pure contracts (V4), no durable capture of a host resource (V5), total lowerings (V6).\<close>

theorem admitted_means_verified:
  assumes "admit_core now E p a True D db = (Answer v db', D')" "vd_outcome v = ''admitted''"
    and "lower_patch E (g_cat db) p = Inr ds"
    and "pl = patch_plan (e_image E) (g_derived db) (pt_scope p) (pt_intent p) ds"
  shows "verify_v1 ds p (g_grants db (subject_of a)) (e_image E) = [] \<and> verify_v2 (e_image E) ds = Some [] \<and>
    verify_v3 pl = [] \<and> verify_v4 (e_image E) ds = [] \<and> verify_v5 (e_image E) (pt_tier p) ds = Some [] \<and> verify_v6 pl = []"
  using core_admitted [OF assms(1-3)]
  by (auto simp: admission_of_def verified_def verifiers_def job_of_def Let_def assms(4))

lemma admitted_means_verified_witness:
  "verify_v1 [gate_def gate_hash] gate_patch {} ex_image = [] \<and> verify_v2 ex_image [gate_def gate_hash] = Some []"
proof -
  obtain v db' D' where v: "admit_core 0 gate_env gate_patch gate_agent True gate_door gate_db0 = (Answer v db', D')"
      "vd_outcome v = ''admitted''" using gate_core by metis
  from admitted_means_verified [OF v gate_lowers refl] show ?thesis by (simp add: gate_db0_def)
qed

text \<open>C8: an admission is a compare-and-set of every head it moves: before it, the head of each declared
  name was the base the patch states, or absent where it states none; after it, each name points at its
  definition, whose stored bytes hash to its address, other names and every stored definition are as
  they were.\<close>

theorem admission_moves_heads:
  assumes "admit_core now E p a True D db = (Answer v db', D')" "vd_outcome v = ''admitted''"
    and "lower_patch E (g_cat db) p = Inr ds" "distinct (map ld_catalog ds)"
  shows "(\<forall>d\<in>set ds. head_of (g_cat db) (pt_scope p) (ld_catalog d) = base_for p d \<and>
      ct_ptrs (g_cat db') (ld_catalog d, pt_scope p) = Some (row_of (pointer_for (vd_admission v) (pt_scope p) d)) \<and>
      ct_defs (g_cat db') (ld_hash d) \<noteq> None \<and> rehashes (ld_hash d) (encode_node (ld_body d))) \<and>
    (\<forall>n sc. n \<notin> ld_catalog ` set ds \<or> sc \<noteq> pt_scope p \<longrightarrow> ct_ptrs (g_cat db') (n, sc) = ct_ptrs (g_cat db) (n, sc)) \<and>
    extends_defs (g_cat db) (g_cat db')"
proof -
  obtain tok where t: "admission_of E p a db ds tok (vd_admission v) db'" using core_admitted [OF assms(1-3)] by blast
  note A = admission_catalog [OF t]
  have "ct_ptrs (g_cat db') (ld_catalog d, pt_scope p) = Some (row_of (pointer_for (vd_admission v) (pt_scope p) d))"
    if "d \<in> set ds" for d using A fold_heads [OF assms(4) that] by metis
  moreover have "ct_ptrs (g_cat db') (n, sc) = ct_ptrs (g_cat db) (n, sc)" if "n \<notin> ld_catalog ` set ds \<or> sc \<noteq> pt_scope p" for n sc
    using A fold_heads_other [of ds n sc "pt_scope p"] that by (metis image_eqI)
  ultimately show ?thesis using A by blast
qed

lemma admission_moves_heads_witness:
  "\<exists>v db' D' r. admit_core 0 gate_env gate_patch gate_agent True gate_door gate_db0 = (Answer v db', D') \<and>
     ct_ptrs (g_cat db') (''app/crm/f'', gate_scope) = Some r \<and> pr_hash r = gate_hash \<and> pr_vis r = ''exported'' \<and>
     ct_defs (g_cat db') gate_hash \<noteq> None"
proof -
  obtain v db' D' where v: "admit_core 0 gate_env gate_patch gate_agent True gate_door gate_db0 = (Answer v db', D')"
      "vd_outcome v = ''admitted''" using gate_core by metis
  from admission_moves_heads [OF v gate_lowers] v(1) show ?thesis
    by (auto simp: row_of_def pointer_for_def visibility_of_def)
qed

text \<open>C9: an agent's patch reaches the product only on a human's token: one minted for this agent, this
  scope and exactly these hashes, not expired, not consumed before; the admission consumes it.\<close>

theorem agent_needs_token:
  assumes "admit_core now E p a True D db = (Answer v db', D')" "vd_outcome v = ''admitted''"
    and "lower_patch E (g_cat db) p = Inr ds"
    and "sb_kind a = ''agent''" "is_product_scope (pt_scope p)"
  shows "\<exists>r. g_tokens db (pt_token p) = Some r \<and> tk_for r = subject_of a \<and> tk_scope r = scope_key (pt_scope p) \<and>
    mset (tk_bound r) = mset (map ld_hash ds) \<and> e_now E < tk_expires r \<and> tk_consumed r = None \<and>
    g_tokens db' = (g_tokens db)(pt_token p \<mapsto> r\<lparr>tk_consumed := Some (vd_admission v)\<rparr>)"
proof -
  obtain tok where t: "check_scope_policy db (e_now E) p a (pt_scope p) ds = Inr tok"
      "token_effect tok (vd_admission v) (g_tokens db) (g_tokens db')"
    using core_admitted [OF assms(1-3)] by (auto simp: admission_of_def)
  have "sc_kind (pt_scope p) \<noteq> 2" using assms(5) by (simp add: is_product_scope_def)
  with t(1) assms(4,5) obtain m where m: "tok = Some (pt_token p, m)"
      "validate_token db (e_now E) (pt_token p) a (pt_scope p) (sorted_hashes ds) = Inr m"
    by (auto simp: check_scope_policy_def agent_overlay_scope_def Let_def split: if_splits sum.splits)
  then obtain r where r: "g_tokens db (pt_token p) = Some r" "e_now E < tk_expires r" "tk_consumed r = None"
      "tk_for r = subject_of a" "tk_scope r = scope_key (pt_scope p)" "same_string_set (tk_bound r) (sorted_hashes ds)"
    by (auto simp: validate_token_def Let_def split: option.splits if_splits)
  have "mset (tk_bound r) = mset (map ld_hash ds)"
    using r(6) by (metis mset_sort same_string_set_def sorted_hashes_def)
  then show ?thesis using r t(2) m(1) by (auto simp: token_effect_def)
qed

lemma agent_needs_token_witness:
  "\<exists>v db' D'. admit_core 0 gate_env gate_patch gate_agent True gate_door gate_db0 = (Answer v db', D') \<and>
     g_tokens db' = [''tok'' \<mapsto> gate_token\<lparr>tk_consumed := Some (vd_admission v)\<rparr>]"
proof -
  obtain v db' D' where v: "admit_core 0 gate_env gate_patch gate_agent True gate_door gate_db0 = (Answer v db', D')"
      "vd_outcome v = ''admitted''" using gate_core by metis
  have "sb_kind gate_agent = ''agent''" "is_product_scope (pt_scope gate_patch)"
    by (simp_all add: gate_agent_def is_product_scope_def gate_scope_def)
  from agent_needs_token [OF v gate_lowers this] show ?thesis using v
    by (auto simp: gate_patch_def gate_db0_def fun_upd_def)
qed

text \<open>C10: whatever is submitted and however it ends, every stored definition hashes to its address and has
  its dependencies stored, and every name points at a stored definition.\<close>

theorem catalog_stays_addressed:
  assumes "admit_core now E p a commit D db = (x, D')" "addressed (g_cat db)"
  shows "addressed (g_cat (after_call x))"
proof (cases x)
  case (Broken db')
  then have "admit_with_retries E p a commit db = Broken db'" using core_cases [OF assms(1)] by auto
  then show ?thesis
    using broken_tables same_tables_fields(1) assms(2) Broken by (fastforce simp: admit_with_retries_def after_call_def)
next
  case (Answer v db')
  note core = assms(1) [unfolded Answer]
  consider "non_green (vd_outcome v)" | "\<not> non_green (vd_outcome v)" "\<not> commit"
    | "vd_outcome v = ''admitted''" commit | "vd_outcome v = ''already-admitted''" commit by (auto simp: non_green_def)
  then have "addressed (g_cat db')"
  proof cases
    case 1
    then show ?thesis using core_refusal [OF core] assms(2) by (metis gate_db.ext_inject gate_db.surjective gate_db.update_convs(5,6))
  next
    case 2
    then have "admit_with_retries E p a False db = Answer v db'" using core_cases [OF core] by (auto simp: non_green_def)
    from same_tables_fields(1) [OF dry_green [OF this 2(1)]] show ?thesis using assms(2) by simp
  next
    case 3
    then have "admit_with_retries E p a True db = Answer v db'" using core_cases [OF core] by auto
    then show ?thesis using gate_admitted 3(1) admission_catalog assms(2) by blast
  next
    case 4
    then show ?thesis using core_idle [of now E p a D db v db' D'] core assms(2) by auto
  qed
  then show ?thesis by (simp add: Answer after_call_def)
qed

lemma catalog_stays_addressed_witness:
  "\<exists>v db' D'. admit_core 0 gate_env gate_patch gate_agent True gate_door gate_db0 = (Answer v db', D') \<and> addressed (g_cat db') \<and>
     ct_ptrs (g_cat db') (''app/crm/f'', gate_scope) \<noteq> None"
proof -
  obtain v db' D' where v: "admit_core 0 gate_env gate_patch gate_agent True gate_door gate_db0 = (Answer v db', D')"
      "g_cat db' = gate_cat2" using gate_core by metis
  have "addressed (g_cat gate_db0)" by (simp add: addressed_def gate_db0_def)
  from catalog_stays_addressed [OF v(1) this] v show ?thesis by (auto simp: after_call_def gate_cat2_def)
qed

text \<open>C11: sending the same patch again after its admission changes nothing but the ledgers: it answers
  already-admitted, or is refused, and the catalog, the derived state, the artifacts and the tokens stay;
  so does a token the second patch names.\<close>

theorem resubmission_changes_nothing:
  assumes "admit_core now E p a True D db = (Answer v db1, D1)" "vd_outcome v = ''admitted''"
    and "lower_patch E (g_cat db) p = Inr ds" "distinct (map ld_catalog ds)"
    and "lower_patch E' (g_cat db1) p' = Inr ds" "pt_scope p' = pt_scope p"
    and "admit_core later E' p' b True D2 db1 = (Answer w db2, D3)"
  shows "vd_outcome w \<noteq> ''admitted'' \<and> g_cat db2 = g_cat db1 \<and> g_derived db2 = g_derived db1 \<and>
    g_artifacts db2 = g_artifacts db1 \<and> g_tokens db2 = g_tokens db1"
proof -
  obtain tok where t: "admission_of E p a db ds tok (vd_admission v) db1" using core_admitted [OF assms(1-3)] by blast
  have "head_of (g_cat db1) (pt_scope p) (ld_catalog d) = Some (ld_hash d)" if "d \<in> set ds" for d
    using admission_catalog [OF t] fold_heads [OF assms(4) that] by (simp add: head_of_def row_of_def pointer_for_def)
  then have noop: "is_noop (g_cat db1) (pt_scope p') ds" by (simp add: is_noop_def list_all_iff assms(6))
  have not: "vd_outcome w \<noteq> ''admitted''"
  proof
    assume w: "vd_outcome w = ''admitted''"
    then have "admit_with_retries E' p' b True db1 = Answer w db2" using core_cases [OF assms(7)] by auto
    from retry_admission_cases [OF this [unfolded admit_with_retries_def]] show False
    proof (elim disjE exE conjE)
      fix i db3 assume s: "same_tables db1 db3" "admit_once (job_of E' p' b True i db3) = Settled w db2"
      then have "admits (admit_once (job_of E' p' b True i db3)) w db2" using w by (simp add: admits_def)
      from admits_not_noop [OF this] show False using noop assms(5) by (simp add: same_tables_fields [OF s(1)])
    next
      fix db3 assume "(w, db2) = finish_refusal E' b p' retries_verdict db3"
      then show False using w by (simp add: finish_refusal_def Let_def retries_verdict_def)
    qed
  qed
  consider "non_green (vd_outcome w)" | "vd_outcome w = ''already-admitted''" using not by (auto simp: non_green_def)
  then show ?thesis
  proof cases
    case 1
    then show ?thesis using core_refusal [OF assms(7)] not by (metis gate_db.ext_inject gate_db.surjective gate_db.update_convs(5,6))
  next
    case 2
    then show ?thesis using core_idle [OF assms(7)] not by auto
  qed
qed

lemma resubmission_changes_nothing_witness:
  "\<exists>v db1 D1 w db2 D3. admit_core 0 gate_env gate_patch gate_agent True gate_door gate_db0 = (Answer v db1, D1) \<and>
     vd_outcome v = ''admitted'' \<and> admit_core 0 gate_env gate_patch gate_human True gate_door db1 = (Answer w db2, D3) \<and>
     vd_outcome w = ''already-admitted'' \<and> g_cat db2 = g_cat db1"
proof -
  obtain v db1 D1 where v: "admit_core 0 gate_env gate_patch gate_agent True gate_door gate_db0 = (Answer v db1, D1)"
      "vd_outcome v = ''admitted''" "g_cat db1 = gate_cat2" using gate_core by metis
  obtain w db2 D3 where w: "admit_core 0 gate_env gate_patch gate_human True gate_door db1 = (Answer w db2, D3)"
      "vd_outcome w = ''already-admitted''" using gate_again [OF v(3)] by metis
  have "g_cat db2 = g_cat db1"
    using resubmission_changes_nothing [OF v(1,2) gate_lowers _ gate_lowers refl w(1)] by simp
  then show ?thesis using v w by metis
qed





end
