(* ===== verification/Spec2Isabelle.thy ===== *)
theory Spec2Isabelle
  imports Rast_Theorems Cek_Theorems Ui_Theorems Ui_Eval Cfr_Theorems Kernel_Theorems Kernel_Delivery
    Adm_Pii_Theorems Adm_Derive_Theorems Adm_Template_Laws
    Adm_Component Cat_Theorems Adm_Gate_Theorems
begin

text \<open>Verification of the regel kernel.\<close>

end
